(* ===== verification/Fenic_Prelude.thy ===== *)
theory Fenic_Prelude
  imports Complex_Main "HOL-Library.AList"
begin

text \<open>
  Shared ground of the development: the exception classes of
  \<^verbatim>\<open>src/fenic/core/error.py\<close> and the Python built-ins the modelled code raises,
  results as a sum of exception and value, the loops and comprehensions that stop at the
  first exception, Python dictionaries (insertion ordered association lists) and the few
  string operations the code uses.  An exception is represented by its class; the text of
  its message is not modelled.
\<close>

section \<open>Exceptions and results\<close>

datatype exn =
    FenicError
  | ConfigurationError | SessionError | CloudSessionError
  | ValidationError | InvalidExampleCollectionError
  | PlanError | ColumnNotFoundError | TypeMismatchError
  | CatalogError | CatalogNotFoundError | CatalogAlreadyExistsError
  | TableNotFoundError | TableAlreadyExistsError
  | ToolNotFoundError | ToolAlreadyExistsError
  | DatabaseNotFoundError | DatabaseAlreadyExistsError
  | ExecutionError | CloudExecutionError
  | LineageError
  | InternalError
  | FileLoaderError | UnsupportedFileTypeError
  | PyException | PyTypeError | PyValueError | PyAttributeError | PyKeyError | PyIndexError
  | PyNotImplementedError | PyUnboundLocalError | PyRuntimeError | TypeInferenceError
  | SerdeError | SerializationError | DeserializationError | UnsupportedTypeError

text \<open>The class each exception class derives from; Python's own classes derive from Exception.\<close>

fun exn_base :: "exn \<Rightarrow> exn option" where
  "exn_base FenicError = Some PyException"
| "exn_base ConfigurationError = Some FenicError"
| "exn_base SessionError = Some ConfigurationError"
| "exn_base CloudSessionError = Some SessionError"
| "exn_base ValidationError = Some FenicError"
| "exn_base InvalidExampleCollectionError = Some ValidationError"
| "exn_base PlanError = Some FenicError"
| "exn_base ColumnNotFoundError = Some PlanError"
| "exn_base TypeMismatchError = Some PlanError"
| "exn_base CatalogError = Some FenicError"
| "exn_base CatalogNotFoundError = Some CatalogError"
| "exn_base CatalogAlreadyExistsError = Some CatalogError"
| "exn_base TableNotFoundError = Some CatalogError"
| "exn_base TableAlreadyExistsError = Some CatalogError"
| "exn_base ToolNotFoundError = Some CatalogError"
| "exn_base ToolAlreadyExistsError = Some CatalogError"
| "exn_base DatabaseNotFoundError = Some CatalogError"
| "exn_base DatabaseAlreadyExistsError = Some CatalogError"
| "exn_base ExecutionError = Some FenicError"
| "exn_base CloudExecutionError = Some ExecutionError"
| "exn_base LineageError = Some FenicError"
| "exn_base InternalError = Some FenicError"
| "exn_base FileLoaderError = Some FenicError"
| "exn_base UnsupportedFileTypeError = Some FileLoaderError"
| "exn_base PyException = None"
| "exn_base TypeInferenceError = Some PyValueError"
| "exn_base SerializationError = Some SerdeError"
| "exn_base DeserializationError = Some SerdeError"
| "exn_base UnsupportedTypeError = Some SerdeError"
| "exn_base _ = Some PyException"

text \<open>The depth of a class below Exception, and \<^verbatim>\<open>isinstance(e, cls)\<close> by walking up the bases.\<close>

fun exn_depth :: "exn \<Rightarrow> nat" where
  "exn_depth PyException = 0"
| "exn_depth FenicError = 1"
| "exn_depth ConfigurationError = 2" | "exn_depth ValidationError = 2"
| "exn_depth PlanError = 2" | "exn_depth CatalogError = 2" | "exn_depth ExecutionError = 2"
| "exn_depth LineageError = 2" | "exn_depth InternalError = 2" | "exn_depth FileLoaderError = 2"
| "exn_depth PyTypeError = 1" | "exn_depth PyValueError = 1" | "exn_depth PyAttributeError = 1"
| "exn_depth PyKeyError = 1" | "exn_depth PyIndexError = 1" | "exn_depth PyNotImplementedError = 1"
| "exn_depth PyUnboundLocalError = 1" | "exn_depth PyRuntimeError = 1" | "exn_depth TypeInferenceError = 2"
| "exn_depth SerdeError = 1"
| "exn_depth CloudSessionError = 4"
| "exn_depth _ = 3"

lemma exn_base_depth: "exn_base e = Some b \<Longrightarrow> exn_depth b < exn_depth e"
  by (cases e) auto

function isinstance_exn :: "exn \<Rightarrow> exn \<Rightarrow> bool" where
  "isinstance_exn e c =
     (e = c \<or> (case exn_base e of None \<Rightarrow> False | Some b \<Rightarrow> isinstance_exn b c))"
  by pat_completeness auto
termination
  by (relation "measure (\<lambda>(e, c). exn_depth e)") (auto dest: exn_base_depth)

declare isinstance_exn.simps [simp del]

text \<open>\<^verbatim>\<open>except Exception\<close> catches every exception of the model.\<close>

lemma isinstance_exn_Exception [simp]: "isinstance_exn e PyException"
proof (induction "exn_depth e" arbitrary: e rule: less_induct)
  case less
  show ?case
  proof (cases "exn_base e")
    case None
    then have "e = PyException" by (cases e) auto
    then show ?thesis by (subst isinstance_exn.simps) simp
  next
    case (Some b)
    then have "isinstance_exn b PyException" by (rule less [OF exn_base_depth])
    with Some show ?thesis by (subst isinstance_exn.simps) simp
  qed
qed

type_synonym 'a res = "exn + 'a"

definition bind_res :: "'e + 'a \<Rightarrow> ('a \<Rightarrow> 'e + 'b) \<Rightarrow> 'e + 'b" where
  "bind_res m f = (case m of Inl e \<Rightarrow> Inl e | Inr x \<Rightarrow> f x)"

text \<open>\<^verbatim>\<open>if c: raise e\<close>\<close>

definition raise_if :: "bool \<Rightarrow> 'e \<Rightarrow> 'e + unit" where
  "raise_if c e = (if c then Inl e else Inr ())"

lemma bind_res_simps [simp]:
  "bind_res (Inl e) f = Inl e"
  "bind_res (Inr x) f = f x"
  by (simp_all add: bind_res_def)

lemma bind_res_Inr_iff [simp]:
  "bind_res m f = Inr y \<longleftrightarrow> (\<exists>x. m = Inr x \<and> f x = Inr y)"
  by (cases m) auto

lemma bind_res_Inl_iff:
  "bind_res m f = Inl e \<longleftrightarrow> m = Inl e \<or> (\<exists>x. m = Inr x \<and> f x = Inl e)"
  by (cases m) auto

lemma bind_res_cong [fundef_cong]:
  "m = m' \<Longrightarrow> (\<And>x. m' = Inr x \<Longrightarrow> f x = g x) \<Longrightarrow> bind_res m f = bind_res m' g"
  by (cases m') auto

lemma raise_if_simps [simp]:
  "raise_if True e = Inl e"
  "raise_if False e = Inr ()"
  "raise_if c e = Inr u \<longleftrightarrow> \<not> c"
  "raise_if c e = Inl e' \<longleftrightarrow> c \<and> e = e'"
  by (auto simp: raise_if_def)

text \<open>A list comprehension and a loop of checks: both stop at the first exception.\<close>

fun map_res :: "('a \<Rightarrow> 'e + 'b) \<Rightarrow> 'a list \<Rightarrow> 'e + 'b list" where
  "map_res f [] = Inr []"
| "map_res f (x # xs) =
     bind_res (f x) (\<lambda>y. bind_res (map_res f xs) (\<lambda>ys. Inr (y # ys)))"

fun each_res :: "('a \<Rightarrow> 'e + unit) \<Rightarrow> 'a list \<Rightarrow> 'e + unit" where
  "each_res f [] = Inr ()"
| "each_res f (x # xs) = bind_res (f x) (\<lambda>_. each_res f xs)"

lemma map_res_cong [fundef_cong]:
  "xs = ys \<Longrightarrow> (\<And>x. x \<in> set ys \<Longrightarrow> f x = g x) \<Longrightarrow> map_res f xs = map_res g ys"
proof (induction ys arbitrary: xs)
  case (Cons y ys)
  then have "map_res f ys = map_res g ys" by simp
  with Cons.prems show ?case by (cases xs) simp_all
qed simp

lemma each_res_cong [fundef_cong]:
  "xs = ys \<Longrightarrow> (\<And>x. x \<in> set ys \<Longrightarrow> f x = g x) \<Longrightarrow> each_res f xs = each_res g ys"
proof (induction ys arbitrary: xs)
  case (Cons y ys)
  then have "each_res f ys = each_res g ys" by simp
  with Cons.prems show ?case by (cases xs) simp_all
qed simp

lemma map_res_Inr_iff:
  "map_res f xs = Inr ys \<longleftrightarrow> list_all2 (\<lambda>x y. f x = Inr y) xs ys"
  by (induction xs arbitrary: ys) (auto simp: list_all2_Cons1)

lemma map_res_Inr_length: "map_res f xs = Inr ys \<Longrightarrow> length ys = length xs"
  by (auto simp: map_res_Inr_iff dest: list_all2_lengthD)

lemma map_res_total: "(\<And>x. x \<in> set xs \<Longrightarrow> f x = Inr (g x)) \<Longrightarrow> map_res f xs = Inr (map g xs)"
  by (induction xs) auto

lemma map_res_Inl: "map_res f xs = Inl e \<Longrightarrow> \<exists>x \<in> set xs. f x = Inl e"
  by (induction xs) (auto simp: bind_res_Inl_iff)

lemma each_res_Inr_iff [simp]: "each_res f xs = Inr u \<longleftrightarrow> (\<forall>x \<in> set xs. f x = Inr ())"
  by (induction xs) auto

lemma each_res_Inl: "each_res f xs = Inl e \<Longrightarrow> \<exists>x \<in> set xs. f x = Inl e"
  by (induction xs) (auto simp: bind_res_Inl_iff)

section \<open>Dictionaries\<close>

text \<open>
  A Python dict keeps insertion order, and storing to an existing key keeps its place:
  an association list under \<^const>\<open>AList.update\<close>.
\<close>

type_synonym ('k, 'v) dict = "('k \<times> 'v) list"

definition dict_of :: "('k \<times> 'v) list \<Rightarrow> ('k, 'v) dict" where
  "dict_of kvs = fold (\<lambda>(k, v). AList.update k v) kvs []"

definition dict_eq :: "('k, 'v) dict \<Rightarrow> ('k, 'v) dict \<Rightarrow> bool" where
  "dict_eq d1 d2 \<longleftrightarrow> length d1 = length d2 \<and> list_all (\<lambda>(k, v). map_of d2 k = Some v) d1"

lemma map_of_fold_update:
  "map_of (fold (\<lambda>(k, v). AList.update k v) kvs d) = map_of d ++ map_of (rev kvs)"
proof (induction kvs arbitrary: d)
  case (Cons p kvs)
  then show ?case by (cases p) (auto simp: update_conv' fun_eq_iff map_add_def split: option.splits)
qed simp

lemma map_of_dict_of [simp]: "map_of (dict_of kvs) = map_of (rev kvs)"
  by (simp add: dict_of_def map_of_fold_update)

lemma keys_fold_update:
  "fst ` set (fold (\<lambda>(k, v). AList.update k v) kvs d) = fst ` set d \<union> fst ` set kvs"
proof (induction kvs arbitrary: d)
  case (Cons p kvs)
  then show ?case by (cases p) (simp only: fold_simps o_apply prod.case dom_update, simp)
qed simp

lemma keys_dict_of [simp]: "fst ` set (dict_of kvs) = fst ` set kvs"
  by (simp add: dict_of_def keys_fold_update)

lemma distinct_dict_of: "distinct (map fst (dict_of kvs))"
proof -
  have "distinct (map fst d) \<Longrightarrow> distinct (map fst (fold (\<lambda>(k, v). AList.update k v) kvs d))" for d
    by (induction kvs arbitrary: d) (auto simp: distinct_update)
  then show ?thesis by (simp add: dict_of_def)
qed

lemma length_delete_member:
  "distinct (map fst al) \<Longrightarrow> k \<in> fst ` set al \<Longrightarrow> Suc (length (AList.delete k al)) = length al"
  by (induction al) (auto simp: delete_id rev_image_eqI)

lemma update_new: "k \<notin> fst ` set al \<Longrightarrow> AList.update k v al = al @ [(k, v)]"
  by (induction al) auto

section \<open>Strings\<close>

text \<open>\<^verbatim>\<open>sep.join(parts)\<close> and the decimal text of an integer.\<close>

fun str_join :: "string \<Rightarrow> string list \<Rightarrow> string" where
  "str_join sep [] = ''''"
| "str_join sep [x] = x"
| "str_join sep (x # y # xs) = x @ sep @ str_join sep (y # xs)"

definition digit_char :: "nat \<Rightarrow> char" where
  "digit_char n = char_of (48 + n)"

fun str_nat :: "nat \<Rightarrow> string" where
  "str_nat n = (if n < 10 then [digit_char n] else str_nat (n div 10) @ [digit_char (n mod 10)])"

declare str_nat.simps [simp del]

definition str_int :: "int \<Rightarrow> string" where
  "str_int i = (if i < 0 then CHR ''-'' # str_nat (nat (- i)) else str_nat (nat i))"

section \<open>Numbers and truth values\<close>

text \<open>\<^verbatim>\<open>int(x)\<close> on a float truncates towards zero.\<close>

definition py_int :: "real \<Rightarrow> int" where
  "py_int x = (if x < 0 then \<lceil>x\<rceil> else \<lfloor>x\<rfloor>)"

text \<open>
  \<^verbatim>\<open>x or y\<close> and \<^verbatim>\<open>if x\<close> on optional strings, integers and lists: None and the
  empty or zero value are false.
\<close>

fun truthy :: "'a list option \<Rightarrow> bool" where
  "truthy None = False"
| "truthy (Some xs) = (xs \<noteq> [])"

fun truthy_int :: "int option \<Rightarrow> bool" where
  "truthy_int None = False"
| "truthy_int (Some n) = (n \<noteq> 0)"

definition or_else :: "'a list option \<Rightarrow> 'a list option \<Rightarrow> 'a list option" where
  "or_else x y = (if truthy x then x else y)"

section \<open>Characters\<close>

text \<open>The characters \<^verbatim>\<open>str.strip\<close> removes, and \<^verbatim>\<open>lower\<close> on ASCII.\<close>

definition lower_char :: "char \<Rightarrow> char" where
  "lower_char c = (if 65 \<le> (of_char c :: nat) \<and> (of_char c :: nat) \<le> 90 then char_of (of_char c + (32 :: nat)) else c)"

definition py_space :: "char \<Rightarrow> bool" where
  "py_space c \<longleftrightarrow> c \<in> set [CHR 0x09, CHR 0x0A, CHR 0x0B, CHR 0x0C, CHR 0x0D, CHR 0x1C, CHR 0x1D,
     CHR 0x1E, CHR 0x1F, CHR 0x20, CHR 0x85, CHR 0xA0]"

definition py_strip :: "string \<Rightarrow> string" where
  "py_strip s = rev (dropWhile py_space (rev (dropWhile py_space s)))"

definition stripped :: "string \<Rightarrow> bool" where
  "stripped s \<longleftrightarrow> s = [] \<or> \<not> py_space (hd s) \<and> \<not> py_space (last s)"

lemma dropWhile_hd: "dropWhile P s \<noteq> [] \<Longrightarrow> \<not> P (hd (dropWhile P s))"
  by (rule hd_dropWhile)

lemma last_dropWhile_kept: "dropWhile P s \<noteq> [] \<Longrightarrow> last (dropWhile P s) = last s"
  by (induction s) (auto split: if_splits)

lemma stripped_py_strip: "stripped (py_strip s)"
proof (cases "py_strip s = []")
  case False
  let ?t = "dropWhile py_space s"
  have r: "dropWhile py_space (rev ?t) \<noteq> []" using False by (simp add: py_strip_def)
  have "\<not> py_space (last (py_strip s))"
    using dropWhile_hd [OF r] r by (simp add: py_strip_def last_rev)
  moreover have "hd (py_strip s) = hd ?t"
    using last_dropWhile_kept [OF r] r by (simp add: py_strip_def hd_rev last_rev)
  moreover have "?t \<noteq> []" using r by (cases ?t) simp_all
  ultimately show ?thesis using dropWhile_hd [of py_space s] False by (simp add: stripped_def)
qed (simp add: stripped_def)

lemma py_strip_stripped: "stripped s \<Longrightarrow> py_strip s = s"
proof (cases "s = []")
  case False
  assume "stripped s"
  with False have "\<not> py_space (hd s)" "\<not> py_space (last s)" by (simp_all add: stripped_def)
  then have "dropWhile py_space s = s" "dropWhile py_space (rev s) = rev s"
    using False by (simp_all add: dropWhile_eq_self_iff hd_rev)
  then show ?thesis by (simp add: py_strip_def)
qed (simp add: py_strip_def)

section \<open>Duplicates\<close>

text \<open>
  \<^verbatim>\<open>{name for name in names if name in seen or seen.add(name)}\<close>: the names that occur twice.
\<close>

fun duplicates_from :: "'a list \<Rightarrow> 'a list \<Rightarrow> 'a list" where
  "duplicates_from seen [] = []"
| "duplicates_from seen (x # xs) =
     (if x \<in> set seen then x # duplicates_from seen xs else duplicates_from (x # seen) xs)"

lemma duplicates_from_Nil:
  "duplicates_from seen xs = [] \<longleftrightarrow> distinct xs \<and> set xs \<inter> set seen = {}"
  by (induction xs arbitrary: seen) auto

lemma duplicates_Nil_iff [simp]: "duplicates_from [] xs = [] \<longleftrightarrow> distinct xs"
  by (simp add: duplicates_from_Nil)

end
