(* ===== verification/DataTypes.thy ===== *)
theory DataTypes
  imports Fenic_Prelude
begin

text \<open>
  The type system of \<^verbatim>\<open>src/fenic/core/types/datatypes.py\<close> and the schemas of
  \<^verbatim>\<open>src/fenic/core/types/schema.py\<close>: the type classes as constructors of one datatype,
  the hand-written \<^verbatim>\<open>__eq__\<close> and \<^verbatim>\<open>__str__\<close> methods, hashability (the dataclass
  hash of a struct type hashes a list and raises), the marker classes and the predicates
  over types.  The lemmas show that the written equality is structural equality, which lets
  every other theory use HOL equality for \<^verbatim>\<open>==\<close> on types.
\<close>

section \<open>Types\<close>

text \<open>
  A struct field is a name and a type.  The parameter is the type of data types, tied to
  \<open>DataType\<close> by the recursive datatype below.
\<close>

datatype 'd StructField = StructField (sf_name: string) (sf_type: 'd)

datatype DataType =
    is_StringType: StringType
  | is_IntegerType: IntegerType
  | is_FloatType: FloatType
  | is_DoubleType: DoubleType
  | is_BooleanType: BooleanType
  | is_DateType: DateType
  | is_TimestampType: TimestampType
  | is_ArrayType: ArrayType (element_type: DataType)
  | is_StructType: StructType (struct_fields: "DataType StructField list")
  | is_EmbeddingType: EmbeddingType (dimensions: int) (embedding_model: string)
  | is_MarkdownType: MarkdownType
  | is_HtmlType: HtmlType
  | is_JsonType: JsonType
  | is_TranscriptType: TranscriptType (transcript_format: string)
  | is_DocumentPathType: DocumentPathType (document_format: string)

lemma size_sf_type [termination_simp]:
  "f \<in> set fs \<Longrightarrow> size (sf_type f) < Suc (size_list (size_StructField size) fs)"
  by (induction fs) (auto, (case_tac f, simp)+)

lemma size_sf_type_zip [termination_simp]:
  "(f, g) \<in> set (zip fs gs) \<Longrightarrow>
     size (sf_type f) < Suc (size_list (size_StructField size) fs)"
  by (rule size_sf_type) (rule set_zip_leftD)

lemma DataType_induct [case_names Prim Array Struct]:
  assumes "\<And>d. \<not> is_ArrayType d \<Longrightarrow> \<not> is_StructType d \<Longrightarrow> P d"
    and "\<And>t. P t \<Longrightarrow> P (ArrayType t)"
    and "\<And>fs. (\<And>f. f \<in> set fs \<Longrightarrow> P (sf_type f)) \<Longrightarrow> P (StructType fs)"
  shows "P d"
proof (induction d)
  case (StructType fs)
  then have "P (sf_type f)" if "f \<in> set fs" for f
    using that by (cases f) auto
  then show ?case by (rule assms(3))
qed (use assms in auto)

subsection \<open>The text of a type (\<open>__str__\<close>)\<close>

fun dtype_str :: "DataType \<Rightarrow> string" where
  "dtype_str StringType = ''StringType''"
| "dtype_str IntegerType = ''IntegerType''"
| "dtype_str FloatType = ''FloatType''"
| "dtype_str DoubleType = ''DoubleType''"
| "dtype_str BooleanType = ''BooleanType''"
| "dtype_str DateType = ''DateType''"
| "dtype_str TimestampType = ''TimestampType''"
| "dtype_str (ArrayType t) = ''ArrayType(element_type='' @ dtype_str t @ '')''"
| "dtype_str (StructType fs) =
     ''StructType(struct_fields=['' @
     str_join '', '' (map (\<lambda>f. ''StructField(name='' @ sf_name f @ '', data_type='' @
                               dtype_str (sf_type f) @ '')'') fs) @ ''])''"
| "dtype_str (EmbeddingType n m) =
     ''EmbeddingType(dimensions='' @ str_int n @ '', model='' @ m @ '')''"
| "dtype_str MarkdownType = ''MarkdownType''"
| "dtype_str HtmlType = ''HtmlType''"
| "dtype_str JsonType = ''JsonType''"
| "dtype_str (TranscriptType f) = ''TranscriptType(format='' @ [CHR 0x27] @ f @ [CHR 0x27] @ '')''"
| "dtype_str (DocumentPathType f) = ''DocumentPathType(format='' @ [CHR 0x27] @ f @ [CHR 0x27] @ '')''"

subsection \<open>Equality (\<open>__eq__\<close>)\<close>

text \<open>
  Each class compares itself with \<open>isinstance\<close> and then its attributes; a struct compares
  its two lists of fields, as Python compares lists.
\<close>

fun dtype_eq :: "DataType \<Rightarrow> DataType \<Rightarrow> bool" where
  "dtype_eq StringType other = is_StringType other"
| "dtype_eq IntegerType other = is_IntegerType other"
| "dtype_eq FloatType other = is_FloatType other"
| "dtype_eq DoubleType other = is_DoubleType other"
| "dtype_eq BooleanType other = is_BooleanType other"
| "dtype_eq DateType other = is_DateType other"
| "dtype_eq TimestampType other = is_TimestampType other"
| "dtype_eq (ArrayType t) other = (is_ArrayType other \<and> dtype_eq t (element_type other))"
| "dtype_eq (StructType fs) other =
     (is_StructType other \<and> length fs = length (struct_fields other) \<and>
      list_all (\<lambda>(f, g). sf_name f = sf_name g \<and> dtype_eq (sf_type f) (sf_type g))
        (zip fs (struct_fields other)))"
| "dtype_eq (EmbeddingType n m) other =
     (is_EmbeddingType other \<and> n = dimensions other \<and> m = embedding_model other)"
| "dtype_eq MarkdownType other = is_MarkdownType other"
| "dtype_eq HtmlType other = is_HtmlType other"
| "dtype_eq JsonType other = is_JsonType other"
| "dtype_eq (TranscriptType f) other = (is_TranscriptType other \<and> f = transcript_format other)"
| "dtype_eq (DocumentPathType f) other = (is_DocumentPathType other \<and> f = document_format other)"

text \<open>The written equality is structural equality; a named fact every theory uses.\<close>

lemma list_all_zip_eq:
  assumes "\<And>f g. f \<in> set fs \<Longrightarrow> R f g \<longleftrightarrow> f = g"
  shows "length fs = length gs \<and> list_all (\<lambda>(f, g). R f g) (zip fs gs) \<longleftrightarrow> fs = gs"
  using assms
proof (induction fs arbitrary: gs)
  case (Cons f fs)
  then show ?case by (cases gs) auto
qed auto

lemma dtype_eq_iff_eq: "dtype_eq d e \<longleftrightarrow> d = e"
proof (induction d arbitrary: e rule: DataType_induct)
  case (Prim d)
  then show ?case by (cases d; cases e) auto
next
  case (Array t)
  then show ?case by (cases e) auto
next
  case (Struct fs)
  have R: "sf_name f = sf_name g \<and> dtype_eq (sf_type f) (sf_type g) \<longleftrightarrow> f = g" if "f \<in> set fs" for f g
    using Struct [OF that] by (cases f; cases g) auto
  show ?case
    by (cases e) (use list_all_zip_eq [where R = "\<lambda>f g. sf_name f = sf_name g \<and>
        dtype_eq (sf_type f) (sf_type g)", OF R] in auto)
qed

subsection \<open>Classes and markers (\<open>isinstance\<close>, \<open>type(d)\<close>)\<close>

datatype TypeClass =
    StringCls | IntegerCls | FloatCls | DoubleCls | BooleanCls | DateCls | TimestampCls
  | ArrayCls | StructCls | EmbeddingCls | MarkdownCls | HtmlCls | JsonCls
  | TranscriptCls | DocumentPathCls
  | PrimitiveCls | LogicalCls | DataTypeCls

fun type_of :: "DataType \<Rightarrow> TypeClass" where
  "type_of StringType = StringCls"
| "type_of IntegerType = IntegerCls"
| "type_of FloatType = FloatCls"
| "type_of DoubleType = DoubleCls"
| "type_of BooleanType = BooleanCls"
| "type_of DateType = DateCls"
| "type_of TimestampType = TimestampCls"
| "type_of (ArrayType _) = ArrayCls"
| "type_of (StructType _) = StructCls"
| "type_of (EmbeddingType _ _) = EmbeddingCls"
| "type_of MarkdownType = MarkdownCls"
| "type_of HtmlType = HtmlCls"
| "type_of JsonType = JsonCls"
| "type_of (TranscriptType _) = TranscriptCls"
| "type_of (DocumentPathType _) = DocumentPathCls"

text \<open>The class each type class derives from.\<close>

fun base_class :: "TypeClass \<Rightarrow> TypeClass" where
  "base_class ArrayCls = DataTypeCls"
| "base_class StructCls = DataTypeCls"
| "base_class EmbeddingCls = LogicalCls"
| "base_class MarkdownCls = LogicalCls"
| "base_class HtmlCls = LogicalCls"
| "base_class JsonCls = LogicalCls"
| "base_class TranscriptCls = LogicalCls"
| "base_class DocumentPathCls = LogicalCls"
| "base_class PrimitiveCls = DataTypeCls"
| "base_class LogicalCls = DataTypeCls"
| "base_class DataTypeCls = DataTypeCls"
| "base_class _ = PrimitiveCls"

definition isinstance :: "DataType \<Rightarrow> TypeClass \<Rightarrow> bool" where
  "isinstance d c \<longleftrightarrow>
     type_of d = c \<or> base_class (type_of d) = c \<or> base_class (base_class (type_of d)) = c"

abbreviation is_primitive :: "DataType \<Rightarrow> bool" where
  "is_primitive d \<equiv> isinstance d PrimitiveCls"

definition is_dtype_numeric :: "DataType \<Rightarrow> bool" where
  "is_dtype_numeric d \<longleftrightarrow> d \<in> set [IntegerType, FloatType, DoubleType]"

fun is_logical_type :: "DataType \<Rightarrow> bool" where
  "is_logical_type (StructType fs) = list_ex (\<lambda>f. is_logical_type (sf_type f)) fs"
| "is_logical_type (ArrayType t) = is_logical_type t"
| "is_logical_type d = isinstance d LogicalCls"

text \<open>
  The frozen dataclasses hash the tuple of their attributes: a struct type hashes its list
  of fields, and a Python list is not hashable.
\<close>

fun hashable :: "DataType \<Rightarrow> bool" where
  "hashable (StructType _) = False"
| "hashable (ArrayType t) = hashable t"
| "hashable _ = True"

lemma isinstance_simps [simp]:
  "isinstance d ArrayCls \<longleftrightarrow> is_ArrayType d"
  "isinstance d StructCls \<longleftrightarrow> is_StructType d"
  "isinstance d EmbeddingCls \<longleftrightarrow> is_EmbeddingType d"
  "isinstance d DataTypeCls"
  by (cases d; simp add: isinstance_def)+

lemma is_dtype_numeric_cases:
  "is_dtype_numeric d \<longleftrightarrow> d = IntegerType \<or> d = FloatType \<or> d = DoubleType"
  by (auto simp: is_dtype_numeric_def)

lemma numeric_primitive: "is_dtype_numeric d \<Longrightarrow> is_primitive d"
  by (auto simp: is_dtype_numeric_cases isinstance_def)

text \<open>Every type is primitive, logical, or an array or struct over types.\<close>

lemma DataType_partition:
  "is_primitive d \<and> \<not> isinstance d LogicalCls \<and> \<not> is_ArrayType d \<and> \<not> is_StructType d \<or>
   isinstance d LogicalCls \<and> \<not> is_primitive d \<and> \<not> is_ArrayType d \<and> \<not> is_StructType d \<or>
   is_ArrayType d \<and> \<not> is_primitive d \<and> \<not> isinstance d LogicalCls \<or>
   is_StructType d \<and> \<not> is_primitive d \<and> \<not> isinstance d LogicalCls"
  by (cases d) (auto simp: isinstance_def)

lemma hashable_primitive: "is_primitive d \<Longrightarrow> hashable d"
  by (cases d) (auto simp: isinstance_def)

section \<open>Schemas\<close>

record ColumnField =
  cf_name :: string
  cf_type :: DataType

record Schema =
  column_fields :: "ColumnField list"

definition mk_field :: "string \<Rightarrow> DataType \<Rightarrow> ColumnField" where
  "mk_field n d = \<lparr>cf_name = n, cf_type = d\<rparr>"

definition mk_schema :: "ColumnField list \<Rightarrow> Schema" where
  "mk_schema fs = \<lparr>column_fields = fs\<rparr>"

definition column_names :: "Schema \<Rightarrow> string list" where
  "column_names s = map cf_name (column_fields s)"

lemma mk_field_sel [simp]: "cf_name (mk_field n d) = n" "cf_type (mk_field n d) = d"
  by (simp_all add: mk_field_def)

lemma mk_schema_sel [simp]: "column_fields (mk_schema fs) = fs"
  by (simp add: mk_schema_def)

lemma mk_schema_column_fields [simp]: "mk_schema (column_fields s) = s"
  by (simp add: mk_schema_def)

lemma column_names_mk [simp]: "column_names (mk_schema fs) = map cf_name fs"
  by (simp add: column_names_def)

text \<open>\<^verbatim>\<open>next((f for f in fields if f.name == name), None)\<close>\<close>

definition find_field :: "Schema \<Rightarrow> string \<Rightarrow> ColumnField option" where
  "find_field s n = List.find (\<lambda>f. cf_name f = n) (column_fields s)"

lemma find_field_Some:
  "find_field s n = Some f \<Longrightarrow> f \<in> set (column_fields s) \<and> cf_name f = n"
  by (auto simp: find_field_def find_Some_iff)

lemma find_field_None: "find_field s n = None \<longleftrightarrow> n \<notin> set (column_names s)"
  by (auto simp: find_field_def find_None_iff column_names_def)

lemma find_field_unique:
  assumes "distinct (column_names s)" and "f \<in> set (column_fields s)"
  shows "find_field s (cf_name f) = Some f"
proof -
  obtain g where g: "find_field s (cf_name f) = Some g"
    using assms(2) find_field_None [of s "cf_name f"] by (fastforce simp: column_names_def)
  then have "g \<in> set (column_fields s)" "cf_name g = cf_name f"
    by (auto dest: find_field_Some)
  with assms have "g = f" by (auto simp: column_names_def distinct_map dest: inj_onD)
  with g show ?thesis by simp
qed

subsection \<open>The indented text of a schema\<close>

definition pretty_indent :: "nat \<Rightarrow> string" where
  "pretty_indent n = concat (replicate n ''  '')"

fun indent_datatype :: "DataType \<Rightarrow> nat \<Rightarrow> string" where
  "indent_datatype (ArrayType t) n =
     ''ArrayType('' @ [CHR 0x0A] @ pretty_indent (Suc n) @ ''element_type='' @
     indent_datatype t (Suc n) @ [CHR 0x0A] @ pretty_indent n @ '')''"
| "indent_datatype (StructType fs) n =
     ''StructType('' @ [CHR 0x0A] @
     str_join [CHR 0x0A]
       (map (\<lambda>f. pretty_indent (Suc n) @ ''StructField(name='' @ [CHR 0x27] @ sf_name f @
                 [CHR 0x27] @ '', data_type='' @ indent_datatype (sf_type f) (Suc n) @ '')'') fs) @
     [CHR 0x0A] @ pretty_indent n @ '')''"
| "indent_datatype d n = dtype_str d"

definition field_str_with_indent :: "ColumnField \<Rightarrow> nat \<Rightarrow> string" where
  "field_str_with_indent f n =
     pretty_indent n @ ''ColumnField(name='' @ [CHR 0x27] @ cf_name f @ [CHR 0x27] @
     '', data_type='' @ indent_datatype (cf_type f) n @ '')''"

definition schema_str_with_indent :: "Schema \<Rightarrow> nat \<Rightarrow> string" where
  "schema_str_with_indent s n =
     pretty_indent n @ ''Schema('' @ [CHR 0x0A] @
     str_join [CHR 0x0A] (map (\<lambda>f. field_str_with_indent f (Suc n)) (column_fields s)) @
     [CHR 0x0A] @ pretty_indent n @ '')''"

end
