(* ===== verification/TypeSignatures.thy ===== *)
theory TypeSignatures
  imports DataTypes
begin

text \<open>
  The signature classes of
  \<^verbatim>\<open>src/fenic/core/_logical_plan/signatures/type_signature.py\<close>: one constructor per
  class with its attributes and one validation function per class, in the order of the
  file's checks.  The collected lemmas say exactly which argument lists each class accepts,
  and which exceptions validation can raise.
\<close>

text \<open>Facts that decide acceptance by a signature.\<close>

named_theorems validate_iffs

section \<open>Signatures\<close>

text \<open>
  An expected argument of an \<open>Exact\<close> signature is a type or the marker
  \<open>StringLikeType\<close>.  Actual arguments are data types: the marker is not one, so the
  check for a marker among the actual arguments never fires.
\<close>

datatype ExpectedArg = StringLikeType | TypeArg DataType

datatype TypeSignature =
    Exact (expected_arg_types: "ExpectedArg list")
  | AnyArgs nat
  | Uniform nat "DataType option"
  | VariadicUniform nat "DataType option"
  | VariadicAny nat
  | Numeric nat
  | OneOf (alternative_signatures: "TypeSignature list")
  | AnyExcludingStructs nat
  | ArrayOfAny nat
  | ArrayOfPrimitives nat
  | ArrayWithMatchingElement
  | EqualTypes TypeClass
  | InstanceOf "TypeClass list"

definition STRING_LIKE_TYPES :: "DataType list" where
  "STRING_LIKE_TYPES = [StringType, MarkdownType, JsonType]"

text \<open>
  Membership in the frozenset hashes the probe first; an unhashable type raises Python's
  own TypeError.
\<close>

definition in_string_like :: "DataType \<Rightarrow> bool res" where
  "in_string_like d =
     (if \<not> hashable d then Inl PyTypeError else Inr (d \<in> set STRING_LIKE_TYPES))"

fun exact_arg_check :: "ExpectedArg \<times> DataType \<Rightarrow> unit res" where
  "exact_arg_check (StringLikeType, actual) =
     bind_res (in_string_like actual) (\<lambda>b. raise_if (\<not> b) TypeMismatchError)"
| "exact_arg_check (TypeArg expected, actual) =
     raise_if (\<not> dtype_eq actual expected) TypeMismatchError"

definition Exact_validate :: "ExpectedArg list \<Rightarrow> DataType list \<Rightarrow> unit res" where
  "Exact_validate expected actual =
     (if length actual \<noteq> length expected then Inl InternalError
      else each_res exact_arg_check (zip expected actual))"

definition AnyArgs_validate :: "nat \<Rightarrow> DataType list \<Rightarrow> unit res" where
  "AnyArgs_validate n args = raise_if (length args \<noteq> n) ValidationError"

text \<open>The part \<open>Uniform\<close> and \<open>VariadicUniform\<close> share: all arguments equal the first.\<close>

definition same_as_first :: "DataType option \<Rightarrow> DataType list \<Rightarrow> unit res" where
  "same_as_first required args =
     (case args of
        [] \<Rightarrow> Inr ()
      | first # rest \<Rightarrow>
          (if (case required of None \<Rightarrow> False | Some r \<Rightarrow> \<not> dtype_eq first r)
           then Inl TypeMismatchError
           else each_res (\<lambda>a. raise_if (\<not> dtype_eq a first) TypeMismatchError) rest))"

definition Uniform_validate :: "nat \<Rightarrow> DataType option \<Rightarrow> DataType list \<Rightarrow> unit res" where
  "Uniform_validate n required args =
     (if length args \<noteq> n then Inl InternalError else same_as_first required args)"

definition VariadicUniform_validate :: "nat \<Rightarrow> DataType option \<Rightarrow> DataType list \<Rightarrow> unit res" where
  "VariadicUniform_validate n required args =
     (if length args < n then Inl ValidationError else same_as_first required args)"

definition VariadicAny_validate :: "nat \<Rightarrow> DataType list \<Rightarrow> unit res" where
  "VariadicAny_validate n args = raise_if (length args < n) ValidationError"

definition Numeric_validate :: "nat \<Rightarrow> DataType list \<Rightarrow> unit res" where
  "Numeric_validate n args =
     (if length args \<noteq> n then Inl InternalError
      else each_res (\<lambda>a. raise_if (\<not> is_dtype_numeric a) TypeMismatchError) args)"

definition AnyExcludingStructs_validate :: "nat \<Rightarrow> DataType list \<Rightarrow> unit res" where
  "AnyExcludingStructs_validate n args =
     (if length args \<noteq> n then Inl ValidationError
      else each_res
        (\<lambda>a. if isinstance a ArrayCls
              then raise_if (isinstance (element_type a) StructCls) TypeMismatchError
              else raise_if (isinstance a StructCls) TypeMismatchError) args)"

definition ArrayOfAny_validate :: "nat \<Rightarrow> DataType list \<Rightarrow> unit res" where
  "ArrayOfAny_validate n args =
     (if length args \<noteq> n then Inl ValidationError
      else each_res (\<lambda>a. raise_if (\<not> isinstance a ArrayCls) TypeMismatchError) args)"

definition ArrayOfPrimitives_validate :: "nat \<Rightarrow> DataType list \<Rightarrow> unit res" where
  "ArrayOfPrimitives_validate n args =
     (if length args \<noteq> n then Inl ValidationError
      else each_res
        (\<lambda>a. bind_res (raise_if (\<not> isinstance a ArrayCls) TypeMismatchError)
               (\<lambda>_. raise_if (\<not> isinstance (element_type a) PrimitiveCls) TypeMismatchError)) args)"

definition ArrayWithMatchingElement_validate :: "DataType list \<Rightarrow> unit res" where
  "ArrayWithMatchingElement_validate args =
     (case args of
        [array_type, el_type] \<Rightarrow>
          bind_res (raise_if (\<not> isinstance array_type ArrayCls) TypeMismatchError)
            (\<lambda>_. raise_if (\<not> dtype_eq (element_type array_type) el_type) TypeMismatchError)
      | _ \<Rightarrow> Inl ValidationError)"

definition EqualTypes_validate :: "TypeClass \<Rightarrow> DataType list \<Rightarrow> unit res" where
  "EqualTypes_validate c args =
     (case args of
        [a, b] \<Rightarrow>
          bind_res (each_res (\<lambda>t. raise_if (\<not> isinstance t c) TypeMismatchError) [a, b])
            (\<lambda>_. raise_if (\<not> dtype_eq a b) TypeMismatchError)
      | _ \<Rightarrow> Inl InternalError)"

definition InstanceOf_validate :: "TypeClass list \<Rightarrow> DataType list \<Rightarrow> unit res" where
  "InstanceOf_validate cs args =
     (if length args \<noteq> length cs then Inl InternalError
      else each_res (\<lambda>(c, a). raise_if (\<not> isinstance a c) TypeMismatchError) (zip cs args))"

text \<open>\<open>OneOf\<close> tries its alternatives in order and swallows every exception they raise.\<close>

fun validate :: "TypeSignature \<Rightarrow> DataType list \<Rightarrow> unit res" where
  "validate (Exact ts) args = Exact_validate ts args"
| "validate (AnyArgs n) args = AnyArgs_validate n args"
| "validate (Uniform n r) args = Uniform_validate n r args"
| "validate (VariadicUniform n r) args = VariadicUniform_validate n r args"
| "validate (VariadicAny n) args = VariadicAny_validate n args"
| "validate (Numeric n) args = Numeric_validate n args"
| "validate (OneOf sigs) args =
     (if list_ex (\<lambda>s. validate s args = Inr ()) sigs then Inr () else Inl TypeMismatchError)"
| "validate (AnyExcludingStructs n) args = AnyExcludingStructs_validate n args"
| "validate (ArrayOfAny n) args = ArrayOfAny_validate n args"
| "validate (ArrayOfPrimitives n) args = ArrayOfPrimitives_validate n args"
| "validate ArrayWithMatchingElement args = ArrayWithMatchingElement_validate args"
| "validate (EqualTypes c) args = EqualTypes_validate c args"
| "validate (InstanceOf cs) args = InstanceOf_validate cs args"

section \<open>What each class accepts\<close>

lemma in_string_like_True [simp]:
  "in_string_like d = Inr True \<longleftrightarrow> d \<in> set STRING_LIKE_TYPES"
  by (auto simp: in_string_like_def STRING_LIKE_TYPES_def)

text \<open>The pointwise reading of an \<open>Exact\<close> signature.\<close>

fun exact_matches :: "ExpectedArg \<Rightarrow> DataType \<Rightarrow> bool" where
  "exact_matches StringLikeType d \<longleftrightarrow> d \<in> set STRING_LIKE_TYPES"
| "exact_matches (TypeArg e) d \<longleftrightarrow> d = e"

lemma exact_arg_check_iff [simp]: "exact_arg_check (e, a) = Inr () \<longleftrightarrow> exact_matches e a"
  by (cases e) (auto simp: dtype_eq_iff_eq in_string_like_def STRING_LIKE_TYPES_def)

lemma Exact_validate_iff [validate_iffs]:
  "Exact_validate es as = Inr () \<longleftrightarrow> list_all2 exact_matches es as"
  by (auto simp: Exact_validate_def list_all2_iff)

lemma AnyArgs_validate_iff [validate_iffs]: "AnyArgs_validate n as = Inr () \<longleftrightarrow> length as = n"
  by (simp add: AnyArgs_validate_def)

lemma same_as_first_iff [validate_iffs]:
  "same_as_first r as = Inr () \<longleftrightarrow>
     (\<forall>a \<in> set as. a = hd as) \<and> (as \<noteq> [] \<longrightarrow> (case r of None \<Rightarrow> True | Some d \<Rightarrow> hd as = d))"
  by (cases as) (auto simp: same_as_first_def dtype_eq_iff_eq split: option.splits)

lemma Uniform_validate_iff [validate_iffs]:
  "Uniform_validate n r as = Inr () \<longleftrightarrow> length as = n \<and> same_as_first r as = Inr ()"
  by (simp add: Uniform_validate_def)

lemma VariadicUniform_validate_iff [validate_iffs]:
  "VariadicUniform_validate n r as = Inr () \<longleftrightarrow> n \<le> length as \<and> same_as_first r as = Inr ()"
  by (simp add: VariadicUniform_validate_def not_less)

lemma VariadicAny_validate_iff [validate_iffs]:
  "VariadicAny_validate n as = Inr () \<longleftrightarrow> n \<le> length as"
  by (simp add: VariadicAny_validate_def not_less)

lemma Numeric_validate_iff [validate_iffs]:
  "Numeric_validate n as = Inr () \<longleftrightarrow> length as = n \<and> (\<forall>a \<in> set as. is_dtype_numeric a)"
  by (simp add: Numeric_validate_def)

lemma AnyExcludingStructs_validate_iff [validate_iffs]:
  "AnyExcludingStructs_validate n as = Inr () \<longleftrightarrow>
     length as = n \<and>
     (\<forall>a \<in> set as. \<not> is_StructType a \<and> (is_ArrayType a \<longrightarrow> \<not> is_StructType (element_type a)))"
  by (auto simp: AnyExcludingStructs_validate_def is_ArrayType_def split: if_splits)

lemma ArrayOfAny_validate_iff [validate_iffs]:
  "ArrayOfAny_validate n as = Inr () \<longleftrightarrow> length as = n \<and> (\<forall>a \<in> set as. is_ArrayType a)"
  by (simp add: ArrayOfAny_validate_def)

lemma ArrayOfPrimitives_validate_iff [validate_iffs]:
  "ArrayOfPrimitives_validate n as = Inr () \<longleftrightarrow>
     length as = n \<and> (\<forall>a \<in> set as. is_ArrayType a \<and> is_primitive (element_type a))"
  by (simp add: ArrayOfPrimitives_validate_def)

lemma ArrayWithMatchingElement_validate_iff [validate_iffs]:
  "ArrayWithMatchingElement_validate as = Inr () \<longleftrightarrow> (\<exists>e. as = [ArrayType e, e])"
  by (auto simp: ArrayWithMatchingElement_validate_def is_ArrayType_def dtype_eq_iff_eq
      split: list.splits)

lemma EqualTypes_validate_iff [validate_iffs]:
  "EqualTypes_validate c as = Inr () \<longleftrightarrow> (\<exists>a. as = [a, a] \<and> isinstance a c)"
  by (auto simp: EqualTypes_validate_def dtype_eq_iff_eq split: list.splits)

lemma InstanceOf_validate_iff [validate_iffs]:
  "InstanceOf_validate cs as = Inr () \<longleftrightarrow> list_all2 (\<lambda>c a. isinstance a c) cs as"
  by (auto simp: InstanceOf_validate_def list_all2_iff)

text \<open>The declarative reading of a signature.\<close>

fun accepts :: "TypeSignature \<Rightarrow> DataType list \<Rightarrow> bool" where
  "accepts (Exact es) as \<longleftrightarrow> list_all2 exact_matches es as"
| "accepts (AnyArgs n) as \<longleftrightarrow> length as = n"
| "accepts (Uniform n r) as \<longleftrightarrow> length as = n \<and> (\<forall>a \<in> set as. a = hd as \<and> (\<forall>d. r = Some d \<longrightarrow> a = d))"
| "accepts (VariadicUniform n r) as \<longleftrightarrow>
     n \<le> length as \<and> (\<forall>a \<in> set as. a = hd as \<and> (\<forall>d. r = Some d \<longrightarrow> a = d))"
| "accepts (VariadicAny n) as \<longleftrightarrow> n \<le> length as"
| "accepts (Numeric n) as \<longleftrightarrow> length as = n \<and> (\<forall>a \<in> set as. is_dtype_numeric a)"
| "accepts (OneOf sigs) as \<longleftrightarrow> (\<exists>s \<in> set sigs. accepts s as)"
| "accepts (AnyExcludingStructs n) as \<longleftrightarrow>
     length as = n \<and> (\<forall>a \<in> set as. \<not> is_StructType a \<and> (\<forall>fs. a \<noteq> ArrayType (StructType fs)))"
| "accepts (ArrayOfAny n) as \<longleftrightarrow> length as = n \<and> (\<forall>a \<in> set as. is_ArrayType a)"
| "accepts (ArrayOfPrimitives n) as \<longleftrightarrow>
     length as = n \<and> (\<forall>a \<in> set as. \<exists>e. a = ArrayType e \<and> is_primitive e)"
| "accepts ArrayWithMatchingElement as \<longleftrightarrow> (\<exists>e. as = [ArrayType e, e])"
| "accepts (EqualTypes c) as \<longleftrightarrow> (\<exists>a. as = [a, a] \<and> isinstance a c)"
| "accepts (InstanceOf cs) as \<longleftrightarrow> list_all2 (\<lambda>c a. isinstance a c) cs as"

lemma same_as_first_accepts:
  "same_as_first r as = Inr () \<longleftrightarrow> (\<forall>a \<in> set as. a = hd as \<and> (\<forall>d. r = Some d \<longrightarrow> a = d))"
  by (cases as) (auto simp: same_as_first_iff split: option.splits)

lemma validate_iff_accepts: "validate s as = Inr () \<longleftrightarrow> accepts s as"
proof (induction s as rule: validate.induct)
  case (7 sigs args)
  then show ?case by (auto simp: list_ex_iff)
next
  case (8 n args)
  then show ?case
    by (auto simp: validate_iffs is_ArrayType_def is_StructType_def)
next
  case (10 n args)
  then show ?case by (auto simp: validate_iffs is_ArrayType_def)
qed (simp_all add: Exact_validate_iff AnyArgs_validate_iff Uniform_validate_iff
      VariadicUniform_validate_iff VariadicAny_validate_iff Numeric_validate_iff
      ArrayOfAny_validate_iff ArrayWithMatchingElement_validate_iff EqualTypes_validate_iff
      InstanceOf_validate_iff same_as_first_accepts)

section \<open>Which exceptions validation raises\<close>

definition signature_error :: "exn \<Rightarrow> bool" where
  "signature_error e \<longleftrightarrow> e = InternalError \<or> e = ValidationError \<or> e = TypeMismatchError"

lemma exact_arg_check_Inl:
  "exact_arg_check (x, a) = Inl e \<Longrightarrow> hashable a \<Longrightarrow> signature_error e"
  by (cases x) (auto simp: in_string_like_def signature_error_def bind_res_Inl_iff)

lemma same_as_first_Inl: "same_as_first r as = Inl e \<Longrightarrow> signature_error e"
  by (auto simp: same_as_first_def signature_error_def split: list.splits if_splits
      dest!: each_res_Inl)

lemma validate_Inl:
  assumes "validate s as = Inl e" and "\<forall>a \<in> set as. hashable a"
  shows "signature_error e"
proof (cases s)
  case (Exact es)
  with assms show ?thesis
    by (auto simp: Exact_validate_def signature_error_def split: if_splits dest!: each_res_Inl)
      (metis exact_arg_check_Inl set_zip_rightD signature_error_def)
qed (use assms in \<open>auto simp: AnyArgs_validate_def Uniform_validate_def VariadicUniform_validate_def
    VariadicAny_validate_def Numeric_validate_def AnyExcludingStructs_validate_def
    ArrayOfAny_validate_def ArrayOfPrimitives_validate_def ArrayWithMatchingElement_validate_def
    EqualTypes_validate_def InstanceOf_validate_def signature_error_def bind_res_Inl_iff
    split: if_splits list.splits dest!: each_res_Inl same_as_first_Inl\<close>)

end
