(* ===== verification/FunctionSignatures.thy ===== *)
theory FunctionSignatures
  imports TypeSignatures
begin

text \<open>
  Function signatures (\<^verbatim>\<open>signatures/function_signature.py\<close>), the validator that
  looks them up by name (\<^verbatim>\<open>signature_validator.py\<close>) and the registry
  (\<^verbatim>\<open>registry.py\<close>) with every registration the package makes when it is imported
  (\<^verbatim>\<open>aggregate.py\<close>, \<^verbatim>\<open>array.py\<close>, \<^verbatim>\<open>basic.py\<close>, \<^verbatim>\<open>embedding.py\<close>, \<^verbatim>\<open>json.py\<close>,
  \<^verbatim>\<open>markdown.py\<close>, \<^verbatim>\<open>semantic.py\<close>, \<^verbatim>\<open>text.py\<close>).
  The lemmas show that the import succeeds, that every name is registered once under its
  own name, that a call which passes validation gets a return type, and that numeric
  promotion is the least upper bound in the order Integer, Float, Double.
\<close>

section \<open>Signatures of functions\<close>

datatype ReturnType = ReturnTypeOf DataType | SAME_AS_INPUT | PROMOTED | DYNAMIC

record FunctionSignature =
  function_name :: string
  type_signature :: TypeSignature
  return_type :: ReturnType

definition validate_return_type_compatibility :: "FunctionSignature \<Rightarrow> unit res" where
  "validate_return_type_compatibility sig =
     bind_res
       (if return_type sig = SAME_AS_INPUT
        then (case type_signature sig of
                VariadicAny _ \<Rightarrow> Inl InternalError
              | Exact ts \<Rightarrow>
                  raise_if (length ts > 1 \<and> \<not> list_all (\<lambda>t. t = hd ts) ts) InternalError
              | _ \<Rightarrow> Inr ())
        else Inr ())
       (\<lambda>_. if return_type sig = PROMOTED
            then (case type_signature sig of Numeric _ \<Rightarrow> Inr () | _ \<Rightarrow> Inl InternalError)
            else Inr ())"

definition mk_FunctionSignature :: "string \<Rightarrow> TypeSignature \<Rightarrow> ReturnType \<Rightarrow> FunctionSignature res" where
  "mk_FunctionSignature name ts rt =
     (let sig = \<lparr>function_name = name, type_signature = ts, return_type = rt\<rparr>
      in bind_res (validate_return_type_compatibility sig) (\<lambda>_. Inr sig))"

definition promote_types :: "DataType list \<Rightarrow> DataType res" where
  "promote_types ts =
     (if ts = [] then Inl InternalError
      else if list_ex (\<lambda>t. dtype_eq t DoubleType) ts then Inr DoubleType
      else if list_ex (\<lambda>t. dtype_eq t FloatType) ts then Inr FloatType
      else Inr IntegerType)"

definition infer_return_type :: "FunctionSignature \<Rightarrow> DataType list \<Rightarrow> DataType res" where
  "infer_return_type sig ts =
     (case return_type sig of
        ReturnTypeOf d \<Rightarrow> Inr d
      | SAME_AS_INPUT \<Rightarrow> (case ts of [] \<Rightarrow> Inl PyIndexError | t # _ \<Rightarrow> Inr t)
      | PROMOTED \<Rightarrow> promote_types ts
      | DYNAMIC \<Rightarrow> Inl InternalError)"

text \<open>
  The types of the arguments come first, then the check, then the return type.  The type of
  an argument is a parameter here; the expressions supply \<open>to_column_field\<close>.
\<close>

definition validate_and_infer_type ::
  "FunctionSignature \<Rightarrow> ('e \<Rightarrow> DataType res) \<Rightarrow> 'e list \<Rightarrow>
     (DataType list \<Rightarrow> DataType res) option \<Rightarrow> DataType res" where
  "validate_and_infer_type sig type_of_arg args dyn =
     bind_res (map_res type_of_arg args) (\<lambda>ts.
     bind_res (validate (type_signature sig) ts) (\<lambda>_.
       if return_type sig = DYNAMIC
       then (case dyn of None \<Rightarrow> Inl InternalError | Some f \<Rightarrow> f ts)
       else infer_return_type sig ts))"

lemma validate_and_infer_type_cong [fundef_cong]:
  assumes "sig = sig'" "args = args'" "dyn = dyn'" "\<And>x. x \<in> set args' \<Longrightarrow> f x = g x"
  shows "validate_and_infer_type sig f args dyn = validate_and_infer_type sig' g args' dyn'"
proof -
  have "map_res f args = map_res g args'" using assms by (intro map_res_cong) auto
  with assms show ?thesis by (simp add: validate_and_infer_type_def)
qed

section \<open>The registry\<close>

type_synonym Registry = "(string, FunctionSignature) dict"

definition register :: "string \<Rightarrow> FunctionSignature \<Rightarrow> Registry \<Rightarrow> Registry" where
  "register name sig reg = AList.update name sig reg"

definition get_signature :: "Registry \<Rightarrow> string \<Rightarrow> FunctionSignature res" where
  "get_signature reg name =
     (case map_of reg name of None \<Rightarrow> Inl InternalError | Some sig \<Rightarrow> Inr sig)"

text \<open>
  What the expressions rely on: a registered signature is found, and stays found when other
  names are registered.
\<close>

locale signature_store =
  fixes put :: "string \<Rightarrow> 's \<Rightarrow> 'r \<Rightarrow> 'r"
    and look :: "'r \<Rightarrow> string \<Rightarrow> 's res"
  assumes look_put_same: "look (put n s r) n = Inr s"
    and look_put_other: "m \<noteq> n \<Longrightarrow> look (put n s r) m = look r m"
begin

lemma look_fold_other:
  "m \<notin> fst ` set ps \<Longrightarrow> look (fold (\<lambda>(n, s). put n s) ps r) m = look r m"
  by (induction ps arbitrary: r) (auto simp: look_put_other)

lemma look_fold_put:
  "distinct (map fst ps) \<Longrightarrow> (n, s) \<in> set ps \<Longrightarrow> look (fold (\<lambda>(n, s). put n s) ps r) n = Inr s"
  by (induction ps arbitrary: r) (auto simp: look_fold_other look_put_same)

end

interpretation registry_store: signature_store register get_signature
  by unfold_locales (simp_all add: register_def get_signature_def update_conv')

text \<open>
  One call \<^verbatim>\<open>FunctionRegistry.register(key, FunctionSignature(name, sig, ret))\<close>, and a
  module's sequence of such calls.
\<close>

type_synonym Registration = "string \<times> string \<times> TypeSignature \<times> ReturnType"

fun register_all :: "Registration list \<Rightarrow> Registry \<Rightarrow> Registry res" where
  "register_all [] reg = Inr reg"
| "register_all ((key, name, ts, rt) # rs) reg =
     bind_res (mk_FunctionSignature name ts rt) (\<lambda>sig. register_all rs (register key sig reg))"

section \<open>The registrations\<close>

definition aggregate_signatures :: "Registration list" where
  "aggregate_signatures =
    [(''sum'', ''sum'', OneOf [Numeric 1, Exact [TypeArg BooleanType]], SAME_AS_INPUT),
     (''avg'', ''avg'', OneOf [Numeric 1, Exact [TypeArg BooleanType], InstanceOf [EmbeddingCls]],
        DYNAMIC),
     (''min'', ''min'', OneOf [Numeric 1, Exact [TypeArg BooleanType]], SAME_AS_INPUT),
     (''max'', ''max'', OneOf [Numeric 1, Exact [TypeArg BooleanType]], SAME_AS_INPUT),
     (''count'', ''count'', AnyArgs 1, ReturnTypeOf IntegerType),
     (''collect_list'', ''collect_list'', AnyArgs 1, DYNAMIC),
     (''first'', ''first'', AnyArgs 1, SAME_AS_INPUT),
     (''stddev'', ''stddev'', OneOf [Numeric 1, Exact [TypeArg BooleanType]],
        ReturnTypeOf DoubleType),
     (''approx_count_distinct'', ''approx_count_distinct'', AnyExcludingStructs 1,
        ReturnTypeOf IntegerType),
     (''count_distinct'', ''count_distinct'', VariadicAny 1, ReturnTypeOf IntegerType),
     (''sum_distinct'', ''sum_distinct'', OneOf [Numeric 1, Exact [TypeArg BooleanType]],
        SAME_AS_INPUT)]"

definition array_signatures :: "Registration list" where
  "array_signatures =
    [(''array_size'', ''array_size'', ArrayOfAny 1, ReturnTypeOf IntegerType),
     (''array_distinct'', ''array_distinct'', ArrayOfAny 1, SAME_AS_INPUT),
     (''array_contains'', ''array_contains'', ArrayWithMatchingElement, ReturnTypeOf BooleanType),
     (''array_max'', ''array_max'', ArrayOfPrimitives 1, DYNAMIC),
     (''array_min'', ''array_min'', ArrayOfPrimitives 1, DYNAMIC),
     (''array_sort'', ''array_sort'', ArrayOfPrimitives 1, SAME_AS_INPUT),
     (''array_reverse'', ''array_reverse'', ArrayOfAny 1, SAME_AS_INPUT),
     (''array_remove'', ''array_remove'', ArrayWithMatchingElement, SAME_AS_INPUT),
     (''array_union'', ''array_union'', Uniform 2 None, SAME_AS_INPUT),
     (''array_intersect'', ''array_intersect'', Uniform 2 None, SAME_AS_INPUT),
     (''array_except'', ''array_except'', Uniform 2 None, SAME_AS_INPUT),
     (''array_compact'', ''array_compact'', ArrayOfAny 1, SAME_AS_INPUT),
     (''array_repeat'', ''array_repeat'', VariadicAny 2, DYNAMIC),
     (''slice'', ''slice'', VariadicAny 3, DYNAMIC),
     (''element_at'', ''element_at'', VariadicAny 2, DYNAMIC),
     (''arrays_overlap'', ''arrays_overlap'', Uniform 2 None, ReturnTypeOf BooleanType)]"

definition basic_signatures :: "Registration list" where
  "basic_signatures =
    [(''array'', ''array'', VariadicUniform 1 None, DYNAMIC),
     (''struct'', ''struct'', VariadicAny 1, DYNAMIC),
     (''coalesce'', ''coalesce'', VariadicUniform 1 None, SAME_AS_INPUT),
     (''greatest'', ''greatest'', VariadicUniform 2 None, SAME_AS_INPUT),
     (''least'', ''least'', VariadicUniform 2 None, SAME_AS_INPUT),
     (''flatten'', ''flatten'', ArrayOfAny 1, DYNAMIC)]"

definition embedding_signatures :: "Registration list" where
  "embedding_signatures =
    [(''embedding.normalize'', ''embedding.normalize'', InstanceOf [EmbeddingCls], SAME_AS_INPUT),
     (''embedding.compute_similarity'', ''embedding.compute_similarity'',
        OneOf [InstanceOf [EmbeddingCls], EqualTypes EmbeddingCls], ReturnTypeOf FloatType)]"

definition json_signatures :: "Registration list" where
  "json_signatures =
    [(''json.jq'', ''json.jq'', Exact [TypeArg JsonType], ReturnTypeOf (ArrayType JsonType)),
     (''json.type'', ''json.type'', Exact [TypeArg JsonType], ReturnTypeOf StringType),
     (''json.contains'', ''json.contains'', Exact [TypeArg JsonType], ReturnTypeOf BooleanType)]"

definition markdown_signatures :: "Registration list" where
  "markdown_signatures =
    [(''markdown.to_json'', ''markdown.to_json'', Exact [TypeArg MarkdownType],
        ReturnTypeOf JsonType),
     (''markdown.get_code_blocks'', ''markdown.get_code_blocks'', Exact [TypeArg MarkdownType],
        ReturnTypeOf (ArrayType (StructType
          [StructField ''language'' StringType, StructField ''code'' StringType]))),
     (''markdown.generate_toc'', ''markdown.generate_toc'', Exact [TypeArg MarkdownType],
        ReturnTypeOf MarkdownType),
     (''markdown.extract_header_chunks'', ''markdown.extract_header_chunks'',
        Exact [TypeArg MarkdownType],
        ReturnTypeOf (ArrayType (StructType
          [StructField ''heading'' StringType, StructField ''level'' IntegerType,
           StructField ''content'' StringType, StructField ''parent_heading'' StringType,
           StructField ''full_path'' StringType])))]"

definition semantic_signatures :: "Registration list" where
  "semantic_signatures =
    [(''semantic.extract'', ''semantic.extract'', Exact [TypeArg StringType], DYNAMIC),
     (''semantic.classify'', ''semantic.classify'', Exact [TypeArg StringType],
        ReturnTypeOf StringType),
     (''semantic.analyze_sentiment'', ''semantic.analyze_sentiment'', Exact [TypeArg StringType],
        ReturnTypeOf StringType),
     (''semantic.embed'', ''semantic.embed'', Exact [TypeArg StringType], DYNAMIC),
     (''semantic.summarize'', ''semantic.summarize'', Exact [TypeArg StringType],
        ReturnTypeOf StringType),
     (''semantic.parse_pdf'', ''semantic.parse_pdf'', Exact [TypeArg StringType],
        ReturnTypeOf MarkdownType)]"

definition TRANSCRIPT_OUTPUT_TYPE :: DataType where
  "TRANSCRIPT_OUTPUT_TYPE =
     ArrayType (StructType
       [StructField ''index'' IntegerType, StructField ''speaker'' StringType,
        StructField ''start_time'' DoubleType, StructField ''end_time'' DoubleType,
        StructField ''duration'' DoubleType, StructField ''content'' StringType,
        StructField ''format'' StringType])"

definition text_signatures_1 :: "Registration list" where
  "text_signatures_1 =
    [(''text.extract'', ''text.extract'', Exact [StringLikeType], DYNAMIC),
     (''text.chunk'', ''text.chunk'', Exact [StringLikeType], ReturnTypeOf (ArrayType StringType)),
     (''text.recursive_chunk'', ''text.recursive_chunk'', Exact [StringLikeType],
        ReturnTypeOf (ArrayType StringType)),
     (''text.count_tokens'', ''text.count_tokens'', Exact [StringLikeType],
        ReturnTypeOf IntegerType),
     (''text.concat'', ''text.concat'', VariadicAny 1, ReturnTypeOf StringType),
     (''text.array_join'', ''text.array_join'', Exact [TypeArg (ArrayType StringType)],
        ReturnTypeOf StringType),
     (''text.contains'', ''text.contains'', Exact [StringLikeType, TypeArg StringType],
        ReturnTypeOf BooleanType),
     (''text.contains_any'', ''text.contains_any'', Exact [StringLikeType],
        ReturnTypeOf BooleanType),
     (''text.rlike'', ''text.rlike'', Exact [StringLikeType, TypeArg StringType],
        ReturnTypeOf BooleanType),
     (''text.like'', ''text.like'', Exact [StringLikeType, TypeArg StringType],
        ReturnTypeOf BooleanType),
     (''text.ilike'', ''text.ilike'', Exact [StringLikeType, TypeArg StringType],
        ReturnTypeOf BooleanType),
     (''text.parse_transcript'', ''text.parse_transcript'', Exact [TypeArg StringType],
        ReturnTypeOf TRANSCRIPT_OUTPUT_TYPE),
     (''text.starts_with'', ''text.starts_with'', Exact [StringLikeType, TypeArg StringType],
        ReturnTypeOf BooleanType),
     (''text.ends_with'', ''text.ends_with'', Exact [StringLikeType, TypeArg StringType],
        ReturnTypeOf BooleanType)]"

definition text_signatures_2 :: "Registration list" where
  "text_signatures_2 =
    [(''text.regexp_split'', ''text.regexp_split'', Exact [StringLikeType],
        ReturnTypeOf (ArrayType StringType)),
     (''text.regexp_count'', ''text.regexp_count'', Exact [StringLikeType, TypeArg StringType],
        ReturnTypeOf IntegerType),
     (''text.regexp_extract'', ''text.regexp_extract'', Exact [StringLikeType, TypeArg StringType],
        ReturnTypeOf StringType),
     (''text.regexp_extract_all'', ''text.regexp_extract_all'',
        Exact [StringLikeType, TypeArg StringType, TypeArg IntegerType],
        ReturnTypeOf (ArrayType StringType)),
     (''text.regexp_instr'', ''text.regexp_instr'',
        Exact [StringLikeType, TypeArg StringType, TypeArg IntegerType], ReturnTypeOf IntegerType),
     (''text.regexp_substr'', ''text.regexp_substr'', Exact [StringLikeType, TypeArg StringType],
        ReturnTypeOf StringType),
     (''text.split_part'', ''text.split_part'',
        Exact [StringLikeType, TypeArg StringType, TypeArg IntegerType], ReturnTypeOf StringType),
     (''text.string_casing'', ''text.string_casing'', Exact [StringLikeType],
        ReturnTypeOf StringType),
     (''text.strip_chars'', ''text.strip_chars'',
        OneOf [Exact [StringLikeType], Exact [StringLikeType, TypeArg StringType]],
        ReturnTypeOf StringType),
     (''text.replace'', ''text.replace'',
        Exact [StringLikeType, TypeArg StringType, TypeArg StringType], ReturnTypeOf StringType),
     (''text.str_length'', ''text.str_length'', Exact [StringLikeType], ReturnTypeOf IntegerType),
     (''text.byte_length'', ''text.byte_length'', Exact [StringLikeType],
        ReturnTypeOf IntegerType),
     (''text.fuzzy_ratio'', ''text.fuzzy_ratio'', Exact [StringLikeType, StringLikeType],
        ReturnTypeOf DoubleType),
     (''text.fuzzy_token_sort_ratio'', ''text.fuzzy_token_sort_ratio'',
        Exact [StringLikeType, StringLikeType], ReturnTypeOf DoubleType),
     (''text.fuzzy_token_set_ratio'', ''text.fuzzy_token_set_ratio'',
        Exact [StringLikeType, StringLikeType], ReturnTypeOf DoubleType)]"

text \<open>
  Importing the package runs the modules in this order: \<^verbatim>\<open>basic.py\<close> imports
  \<^verbatim>\<open>array.py\<close> before its own registrations.
\<close>

definition all_registrations :: "Registration list" where
  "all_registrations =
     aggregate_signatures @ array_signatures @ basic_signatures @ embedding_signatures @
     json_signatures @ markdown_signatures @ semantic_signatures @
     text_signatures_1 @ text_signatures_2"

lemmas registration_defs =
  aggregate_signatures_def array_signatures_def basic_signatures_def embedding_signatures_def
  json_signatures_def markdown_signatures_def semantic_signatures_def
  text_signatures_1_def text_signatures_2_def

definition import_signatures :: "Registry res" where
  "import_signatures = register_all all_registrations []"

definition signature_of :: "Registration \<Rightarrow> string \<times> FunctionSignature" where
  "signature_of r = (case r of (key, name, ts, rt) \<Rightarrow>
     (key, \<lparr>function_name = name, type_signature = ts, return_type = rt\<rparr>))"

definition function_registry :: Registry where
  "function_registry = map signature_of all_registrations"

definition validator_infer ::
  "string \<Rightarrow> ('e \<Rightarrow> DataType res) \<Rightarrow> 'e list \<Rightarrow> (DataType list \<Rightarrow> DataType res) option \<Rightarrow> DataType res" where
  "validator_infer name type_of_arg args dyn =
     bind_res (get_signature function_registry name)
       (\<lambda>sig. validate_and_infer_type sig type_of_arg args dyn)"

lemma validator_infer_cong [fundef_cong]:
  assumes "name = name'" "args = args'" "dyn = dyn'" "\<And>x. x \<in> set args' \<Longrightarrow> f x = g x"
  shows "validator_infer name f args dyn = validator_infer name' g args' dyn'"
  using assms by (auto simp: validator_infer_def cong: validate_and_infer_type_cong)

section \<open>The import succeeds\<close>

lemma signature_of_simp [simp]:
  "signature_of (key, name, ts, rt) =
     (key, \<lparr>function_name = name, type_signature = ts, return_type = rt\<rparr>)"
  by (simp add: signature_of_def)

definition compatible :: "Registration \<Rightarrow> bool" where
  "compatible r \<longleftrightarrow> validate_return_type_compatibility (snd (signature_of r)) = Inr ()"

lemma register_all_ok:
  "list_all compatible rs \<Longrightarrow> distinct (map fst rs) \<Longrightarrow> fst ` set rs \<inter> fst ` set reg = {} \<Longrightarrow>
   register_all rs reg = Inr (reg @ map signature_of rs)"
proof (induction rs arbitrary: reg)
  case (Cons r rs)
  obtain key name ts rt where r: "r = (key, name, ts, rt)" by (cases r)
  have "register key (snd (signature_of r)) reg = reg @ [signature_of r]"
    using Cons.prems r by (auto simp: register_def update_new)
  then show ?case
    using Cons r by (auto simp: mk_FunctionSignature_def compatible_def)
qed simp

lemma all_compatible: "list_all compatible all_registrations"
  by (simp add: all_registrations_def registration_defs compatible_def
      validate_return_type_compatibility_def)

lemma all_names_distinct: "distinct (map fst all_registrations)"
  by (simp add: all_registrations_def registration_defs)

lemma import_is_registry: "import_signatures = Inr function_registry"
  using register_all_ok [OF all_compatible all_names_distinct, of "[]"]
  by (simp add: import_signatures_def function_registry_def)

lemma fst_signature_of [simp]: "fst (signature_of r) = fst r"
  by (cases r) simp

lemma registry_distinct: "distinct (map fst function_registry)"
  using all_names_distinct by (simp add: function_registry_def comp_def)

lemma registry_names: "\<forall>(k, sig) \<in> set function_registry. function_name sig = k"
  by (simp add: function_registry_def all_registrations_def registration_defs)

lemma get_signature_registered:
  "(n, sig) \<in> set function_registry \<Longrightarrow> get_signature function_registry n = Inr sig"
  using registry_distinct by (simp add: get_signature_def)

lemma get_signature_InrD:
  "get_signature function_registry n = Inr sig \<Longrightarrow> (n, sig) \<in> set function_registry"
  by (auto simp: get_signature_def dest: map_of_SomeD split: option.splits)

section \<open>Return types\<close>

text \<open>The least number of arguments a signature can accept.\<close>

fun min_arity :: "TypeSignature \<Rightarrow> nat" where
  "min_arity (Exact es) = length es"
| "min_arity (AnyArgs n) = n"
| "min_arity (Uniform n r) = n"
| "min_arity (VariadicUniform n r) = n"
| "min_arity (VariadicAny n) = n"
| "min_arity (Numeric n) = n"
| "min_arity (OneOf sigs) = (if sigs = [] then 1 else Min (set (map min_arity sigs)))"
| "min_arity (AnyExcludingStructs n) = n"
| "min_arity (ArrayOfAny n) = n"
| "min_arity (ArrayOfPrimitives n) = n"
| "min_arity ArrayWithMatchingElement = 2"
| "min_arity (EqualTypes c) = 2"
| "min_arity (InstanceOf cs) = length cs"

lemma accepts_min_arity: "accepts s ts \<Longrightarrow> min_arity s \<le> length ts"
proof (induction s ts rule: accepts.induct)
  case (7 sigs ts)
  then obtain s where s: "s \<in> set sigs" "accepts s ts" by auto
  then have "min_arity s \<le> length ts" using 7 by blast
  with s show ?case by (auto intro: order_trans [OF Min_le])
qed (auto dest: list_all2_lengthD)

definition needs_argument :: "FunctionSignature \<Rightarrow> bool" where
  "needs_argument sig \<longleftrightarrow> 1 \<le> min_arity (type_signature sig)"

lemma infer_return_type_total:
  assumes "validate (type_signature sig) ts = Inr ()" "needs_argument sig"
    and "return_type sig \<noteq> DYNAMIC"
  shows "\<exists>d. infer_return_type sig ts = Inr d"
proof -
  have "ts \<noteq> []"
    using assms accepts_min_arity [of "type_signature sig" ts]
    by (auto simp: validate_iff_accepts needs_argument_def)
  with assms(3) show ?thesis
    by (cases "return_type sig") (auto simp: infer_return_type_def promote_types_def split: list.splits)
qed

lemma registry_needs_argument: "\<forall>(k, sig) \<in> set function_registry. needs_argument sig"
  by (simp add: function_registry_def all_registrations_def registration_defs needs_argument_def)

subsection \<open>Promotion\<close>

text \<open>The order Integer, Float, Double that promotion climbs.\<close>

fun rank :: "DataType \<Rightarrow> nat" where
  "rank FloatType = 1"
| "rank DoubleType = 2"
| "rank _ = 0"

lemma promote_types_rank:
  assumes "ts \<noteq> []" "\<forall>t \<in> set ts. is_dtype_numeric t"
  shows "\<exists>d. promote_types ts = Inr d \<and> d \<in> set ts \<and> (\<forall>t \<in> set ts. rank t \<le> rank d)"
proof (cases "DoubleType \<in> set ts")
  case True
  then have "promote_types ts = Inr DoubleType"
    using assms by (auto simp: promote_types_def list_ex_iff dtype_eq_iff_eq)
  moreover have "\<forall>t \<in> set ts. rank t \<le> rank DoubleType"
    using assms by (auto simp: is_dtype_numeric_cases)
  ultimately show ?thesis using True by blast
next
  case noD: False
  show ?thesis
  proof (cases "FloatType \<in> set ts")
    case True
    then have "promote_types ts = Inr FloatType"
      using assms noD by (auto simp: promote_types_def list_ex_iff dtype_eq_iff_eq)
    moreover have "\<forall>t \<in> set ts. rank t \<le> rank FloatType"
      using assms noD by (auto simp: is_dtype_numeric_cases)
    ultimately show ?thesis using True by blast
  next
    case False
    then have ints: "\<forall>t \<in> set ts. t = IntegerType"
      using assms noD by (auto simp: is_dtype_numeric_cases)
    then have "IntegerType \<in> set ts" using assms(1) by (cases ts) auto
    moreover have "promote_types ts = Inr IntegerType"
      using assms(1) noD False by (auto simp: promote_types_def list_ex_iff dtype_eq_iff_eq)
    ultimately show ?thesis using ints by auto
  qed
qed

lemma promote_types_set: "set us = set ts \<Longrightarrow> promote_types us = promote_types ts"
  by (cases us; cases ts) (simp_all only: promote_types_def list_ex_iff, simp_all)

section \<open>Properties\<close>

lemma validate_decides_hashable:
  assumes "\<forall>a \<in> set ts. hashable a"
  shows "if accepts s ts then validate s ts = Inr ()
         else \<exists>e. validate s ts = Inl e \<and> signature_error e"
  using validate_iff_accepts [of s ts] validate_Inl [of s ts] assms
  by (cases "validate s ts") auto

text \<open>C10. Validation decides acceptance: on argument types that can be hashed, every
  signature class returns normally exactly on the argument lists it accepts, and on any
  other list raises InternalError, ValidationError or TypeMismatchError and nothing else.\<close>

theorem validate_decides:
  assumes "\<forall>a \<in> set ts. hashable a"
  shows "if accepts s ts then validate s ts = Inr ()
         else validate s ts \<in> {Inl InternalError, Inl ValidationError, Inl TypeMismatchError}"
  using validate_decides_hashable [OF assms, of s] by (auto simp: signature_error_def split: if_splits)

theorem validate_decides_witness:
  "validate (OneOf [Numeric 1, Exact [TypeArg BooleanType]]) [StringType]
     \<in> {Inl InternalError, Inl ValidationError, Inl TypeMismatchError}"
  using validate_decides [of "[StringType]" "OneOf [Numeric 1, Exact [TypeArg BooleanType]]"]
  by (simp add: is_dtype_numeric_def)

text \<open>A string-like parameter given a struct argument does not report a type mismatch:
  the membership test hashes the struct type, whose field list is not hashable, and Python's
  own TypeError escapes.\<close>

theorem string_like_struct_escapes:
  "validate (Exact (StringLikeType # es)) (StructType fs # ts) =
     (if length ts = length es then Inl PyTypeError else Inl InternalError)"
  by (simp add: Exact_validate_def in_string_like_def)

text \<open>Importing the signature modules raises nothing, and the registry it leaves holds
  exactly the listed registrations, each name once and under the name its signature carries,
  so that every registered name is found again.\<close>

theorem registry_import:
  "\<exists>reg. import_signatures = Inr reg \<and> reg = map signature_of all_registrations \<and>
         distinct (map fst reg) \<and> length reg = 77 \<and>
         list_all (\<lambda>(k, sig). function_name sig = k \<and> get_signature reg k = Inr sig) reg"
proof -
  have "length function_registry = 77"
    by (simp add: function_registry_def all_registrations_def registration_defs)
  moreover have "list_all (\<lambda>(k, sig). function_name sig = k \<and>
      get_signature function_registry k = Inr sig) function_registry"
    using registry_names get_signature_registered by (fastforce simp: list_all_iff)
  ultimately show ?thesis
    using import_is_registry registry_distinct by (auto simp: function_registry_def)
qed

text \<open>For a registered function with a static or inherited return type, a call gets a
  type exactly when the signature accepts the argument types, so no validated call hits the
  missing first argument of SAME_AS_INPUT or the empty promotion; an unknown name is an
  InternalError.\<close>

theorem validator_infer_total:
  assumes "map_res type_of_arg args = Inr ts"
  shows "(case get_signature function_registry n of
            Inl e \<Rightarrow> validator_infer n type_of_arg args dyn = Inl InternalError
          | Inr sig \<Rightarrow> return_type sig = DYNAMIC \<or>
              ((\<exists>d. validator_infer n type_of_arg args dyn = Inr d) \<longleftrightarrow>
               accepts (type_signature sig) ts))"
proof (cases "get_signature function_registry n")
  case (Inl e)
  then show ?thesis
    by (auto simp: validator_infer_def get_signature_def split: option.splits)
next
  case (Inr sig)
  then have "needs_argument sig"
    using registry_needs_argument by (auto dest: get_signature_InrD)
  then show ?thesis
    using Inr assms infer_return_type_total [of sig ts]
    by (auto simp: validator_infer_def validate_and_infer_type_def validate_iff_accepts)
qed

lemma get_sum: "get_signature function_registry ''sum'' = Inr
    \<lparr>function_name = ''sum'', type_signature = OneOf [Numeric 1, Exact [TypeArg BooleanType]],
     return_type = SAME_AS_INPUT\<rparr>"
proof (rule get_signature_registered)
  have "(''sum'', ''sum'', OneOf [Numeric 1, Exact [TypeArg BooleanType]], SAME_AS_INPUT)
          \<in> set all_registrations"
    unfolding all_registrations_def aggregate_signatures_def set_append by (intro UnI1) simp
  then have "signature_of (''sum'', ''sum'', OneOf [Numeric 1, Exact [TypeArg BooleanType]], SAME_AS_INPUT)
          \<in> set function_registry"
    unfolding function_registry_def set_map by (rule imageI)
  then show "(''sum'', \<lparr>function_name = ''sum'',
      type_signature = OneOf [Numeric 1, Exact [TypeArg BooleanType]],
      return_type = SAME_AS_INPUT\<rparr>) \<in> set function_registry"
    by simp
qed

theorem validator_infer_total_witness:
  "\<exists>d. validator_infer ''sum'' (\<lambda>t. Inr t) [BooleanType] None = Inr d"
  using validator_infer_total [of "\<lambda>t. Inr t" "[BooleanType]" "[BooleanType]" "''sum''" None]
  by (simp add: get_sum)

text \<open>Numeric promotion returns the largest of the argument types in the order Integer,
  Float, Double: one of the arguments, above all of them, and independent of their order and
  repetition.\<close>

theorem promote_types_lub:
  assumes "ts \<noteq> []" and "\<forall>t \<in> set ts. is_dtype_numeric t"
  shows "\<exists>d. promote_types ts = Inr d \<and> d \<in> set ts \<and> (\<forall>t \<in> set ts. rank t \<le> rank d) \<and>
             (\<forall>us. set us = set ts \<longrightarrow> promote_types us = Inr d)"
proof -
  obtain d where d: "promote_types ts = Inr d" "d \<in> set ts" "\<forall>t \<in> set ts. rank t \<le> rank d"
    using promote_types_rank [OF assms] by blast
  have "promote_types us = Inr d" if "set us = set ts" for us
    using promote_types_set [OF that] d(1) by simp
  with d show ?thesis by blast
qed

theorem promote_types_lub_witness:
  "\<exists>d. promote_types [IntegerType, FloatType] = Inr d \<and> rank IntegerType \<le> rank d"
  using promote_types_lub [of "[IntegerType, FloatType]"] by (auto simp: is_dtype_numeric_def)

end
