(* ===== verification/JinjaTemplate.thy ===== *)
theory JinjaTemplate
  imports DataTypes
begin

text \<open>
  Jinja templates of the semantic operators
  (\<^verbatim>\<open>src/fenic/core/_logical_plan/jinja_validation.py\<close>): which syntax trees are
  allowed, which variables the output depends on, the tree of type requirements built from
  them, and the check of a column's type against that tree.  The parser is jinja2's: its
  syntax tree is the input here.  Line numbers, which only messages carry, are dropped.
  The lemmas show that a column type that passes the check supports every access the
  rendered output makes, that the requirement tree is well formed, so the check cannot fail
  on a missing key, and which errors building a tree can raise.
\<close>

section \<open>Syntax trees\<close>

text \<open>
  The node classes the module names, with their child fields in the order jinja2 iterates
  them, and every other class as \<open>JOther\<close>.
\<close>

datatype ConstValue = CInt int | CStr string | CBool bool | COther

datatype JNode =
    JTemplate "JNode list"
  | JOutput "JNode list"
  | JName string
  | JGetattr JNode string
  | JGetitem JNode JNode
  | JIf JNode "JNode list" "JNode list" "JNode list"
  | JFor JNode JNode "JNode list" "JNode list" "JNode option"
  | JNot JNode
  | JTemplateData string
  | JConst ConstValue
  | JOther "JNode list"

fun iter_child_nodes :: "JNode \<Rightarrow> JNode list" where
  "iter_child_nodes (JTemplate body) = body"
| "iter_child_nodes (JOutput ns) = ns"
| "iter_child_nodes (JName _) = []"
| "iter_child_nodes (JGetattr n _) = [n]"
| "iter_child_nodes (JGetitem n arg) = [n, arg]"
| "iter_child_nodes (JIf test body elif els) = test # body @ elif @ els"
| "iter_child_nodes (JFor target it body els test) =
     target # it # body @ els @ (case test of None \<Rightarrow> [] | Some t \<Rightarrow> [t])"
| "iter_child_nodes (JNot n) = [n]"
| "iter_child_nodes (JTemplateData _) = []"
| "iter_child_nodes (JConst _) = []"
| "iter_child_nodes (JOther ns) = ns"

lemma size_in_list: "x \<in> set xs \<Longrightarrow> size x < Suc (size_list size xs)"
  by (induction xs) auto

lemma size_iter_child [termination_simp]: "c \<in> set (iter_child_nodes n) \<Longrightarrow> size c < size n"
  by (cases n) (fastforce dest: size_in_list split: option.splits)+

section \<open>Allowed templates\<close>

fun is_other :: "JNode \<Rightarrow> bool" where
  "is_other (JOther _) = True"
| "is_other _ = False"

fun getitem_arg_check :: "JNode \<Rightarrow> unit res" where
  "getitem_arg_check (JGetitem n arg) =
     (case arg of
        JConst (CInt _) \<Rightarrow> Inr ()
      | JConst (CStr _) \<Rightarrow> Inr ()
      | _ \<Rightarrow> Inl ValidationError)"
| "getitem_arg_check _ = Inr ()"

fun validate_template :: "JNode \<Rightarrow> unit res" where
  "validate_template n =
     bind_res (raise_if (is_other n) ValidationError) (\<lambda>_.
     bind_res (getitem_arg_check n) (\<lambda>_.
       each_res validate_template (iter_child_nodes n)))"

declare validate_template.simps [simp del]

section \<open>References and scopes\<close>

datatype TypeRequirement = ARRAY | STRUCT

datatype ReferenceAccessContext = OUTPUT | CONDITION | ITERATION

record TemplateReference =
  var_path :: "string list"
  access_context :: ReferenceAccessContext

record ReferenceWithDeps =
  ref_access :: TemplateReference
  control_dependencies :: "TemplateReference list"

definition mk_ref :: "string list \<Rightarrow> ReferenceAccessContext \<Rightarrow> TemplateReference" where
  "mk_ref p c = \<lparr>var_path = p, access_context = c\<rparr>"

definition mk_dep :: "TemplateReference \<Rightarrow> TemplateReference list \<Rightarrow> ReferenceWithDeps" where
  "mk_dep a ds = \<lparr>ref_access = a, control_dependencies = ds\<rparr>"

text \<open>The loop stack, the innermost loop first.\<close>

type_synonym LoopStack = "(string \<times> string list) list"

definition push_loop_var :: "string \<Rightarrow> string list \<Rightarrow> LoopStack \<Rightarrow> LoopStack" where
  "push_loop_var v p scope = (v, p) # scope"

definition resolve_variable :: "LoopStack \<Rightarrow> string \<Rightarrow> string list option" where
  "resolve_variable scope v =
     (case map_of scope v of None \<Rightarrow> None | Some p \<Rightarrow> Some (p @ [''*'']))"

definition is_in_loop :: "LoopStack \<Rightarrow> bool" where
  "is_in_loop scope \<longleftrightarrow> scope \<noteq> []"

definition VALID_LOOP_ATTRIBUTES :: "string list" where
  "VALID_LOOP_ATTRIBUTES =
     [''index'', ''index0'', ''revindex'', ''revindex0'', ''first'', ''last'', ''length'',
      ''depth'', ''depth0'', ''previtem'', ''nextitem'']"

text \<open>
  The path of an expression, None when it has none.  Template validation has already left
  only integers and strings in brackets; on any other constant, which never reaches this
  function, the model returns no path.
\<close>

fun extract_variable_path :: "JNode \<Rightarrow> LoopStack \<Rightarrow> string list option res" where
  "extract_variable_path (JName x) scope =
     Inr (if x = ''loop'' \<and> is_in_loop scope then None else Some [x])"
| "extract_variable_path (JGetattr n attr) scope =
     (if n = JName ''loop'' \<and> is_in_loop scope
      then (if attr \<notin> set VALID_LOOP_ATTRIBUTES then Inl ValidationError else Inr None)
      else bind_res (extract_variable_path n scope)
             (\<lambda>base. Inr (if truthy base then Some (the base @ [attr]) else None)))"
| "extract_variable_path (JGetitem n arg) scope =
     bind_res (extract_variable_path n scope)
       (\<lambda>base. Inr (if truthy base
                    then (case arg of
                            JConst (CInt _) \<Rightarrow> Some (the base @ [''*''])
                          | JConst (CBool _) \<Rightarrow> Some (the base @ [''*''])
                          | JConst (CStr s) \<Rightarrow> Some (the base @ [s])
                          | _ \<Rightarrow> None)
                    else None))"
| "extract_variable_path _ scope = Inr None"

definition resolve_variable_path :: "string list \<Rightarrow> LoopStack \<Rightarrow> string list" where
  "resolve_variable_path path scope =
     (case path of
        [] \<Rightarrow> []
      | x # rest \<Rightarrow>
          (case resolve_variable scope x of Some base \<Rightarrow> base @ rest | None \<Rightarrow> path))"

section \<open>Collecting accesses\<close>

definition concat_res :: "('a \<Rightarrow> 'b list res) \<Rightarrow> 'a list \<Rightarrow> 'b list res" where
  "concat_res f xs = bind_res (map_res f xs) (\<lambda>ys. Inr (concat ys))"

lemma concat_res_cong [fundef_cong]:
  "xs = ys \<Longrightarrow> (\<And>x. x \<in> set ys \<Longrightarrow> f x = g x) \<Longrightarrow> concat_res f xs = concat_res g ys"
  by (simp add: concat_res_def cong: map_res_cong)

definition handle_output_node ::
  "LoopStack \<Rightarrow> TemplateReference list \<Rightarrow> JNode \<Rightarrow> ReferenceWithDeps list res" where
  "handle_output_node scope ctx n =
     (if n = JTemplateData [] then Inr []
      else bind_res (extract_variable_path n scope) (\<lambda>path.
        if truthy path
        then Inr [mk_dep (mk_ref (resolve_variable_path (the path) scope) OUTPUT) ctx]
        else if ctx \<noteq> [] then Inr [mk_dep (mk_ref [] OUTPUT) ctx]
        else Inr []))"

text \<open>
  A loop without a path to iterate leaves \<^verbatim>\<open>iter_access\<close> unbound, which the next
  statement reads.  The pushed loop variable is popped after the children, so it is a change
  of scope for them alone.
\<close>

fun traverse_and_collect ::
  "JNode \<Rightarrow> LoopStack \<Rightarrow> TemplateReference list \<Rightarrow> ReferenceWithDeps list res" where
  "traverse_and_collect (JFor target it body els test) scope ctx =
     bind_res (extract_variable_path it scope) (\<lambda>path.
       if truthy path then
         (let resolved = resolve_variable_path (the path) scope;
              iter_access = mk_ref resolved ITERATION
          in case target of
               JName x \<Rightarrow>
                 bind_res
                   (concat_res
                      (\<lambda>c. traverse_and_collect c (push_loop_var x resolved scope) (ctx @ [iter_access]))
                      (iter_child_nodes (JFor target it body els test)))
                   (\<lambda>accesses. Inr (mk_dep iter_access ctx # accesses))
             | _ \<Rightarrow> Inl ValidationError)
       else Inl PyUnboundLocalError)"
| "traverse_and_collect (JIf test body elif els) scope ctx =
     bind_res (extract_variable_path test scope) (\<lambda>path.
       let ctx' = (if truthy path
                   then ctx @ [mk_ref (resolve_variable_path (the path) scope) CONDITION]
                   else ctx)
       in concat_res (\<lambda>c. traverse_and_collect c scope ctx')
            (iter_child_nodes (JIf test body elif els)))"
| "traverse_and_collect (JOutput ns) scope ctx = concat_res (handle_output_node scope ctx) ns"
| "traverse_and_collect n scope ctx =
     concat_res (\<lambda>c. traverse_and_collect c scope ctx) (iter_child_nodes n)"

definition collect_variable_accesses :: "JNode \<Rightarrow> ReferenceWithDeps list res" where
  "collect_variable_accesses ast = traverse_and_collect ast [] []"

text \<open>Outputs, and the control dependencies of outputs deduplicated by their path.\<close>

definition extract_output_dependencies :: "ReferenceWithDeps list \<Rightarrow> TemplateReference list" where
  "extract_output_dependencies accesses =
     (let outs = filter (\<lambda>a. access_context (ref_access a) = OUTPUT) accesses;
          control_deps = concat (map control_dependencies outs)
      in map ref_access outs @ map snd (dict_of (map (\<lambda>d. (var_path d, d)) control_deps)))"

section \<open>The requirement tree\<close>

datatype VariableNode =
  VariableNode (requirement: "TypeRequirement option") (node_children: "(string \<times> VariableNode) list")

definition new_node :: VariableNode where
  "new_node = VariableNode None []"

definition set_requirement :: "TypeRequirement \<Rightarrow> VariableNode \<Rightarrow> VariableNode res" where
  "set_requirement q n =
     (if requirement n \<noteq> None \<and> requirement n \<noteq> Some q then Inl ValidationError
      else Inr (VariableNode (Some q) (node_children n)))"

definition child_or_new :: "string \<Rightarrow> VariableNode \<Rightarrow> VariableNode" where
  "child_or_new k n = (case map_of (node_children n) k of None \<Rightarrow> new_node | Some c \<Rightarrow> c)"

definition put_child :: "string \<Rightarrow> VariableNode \<Rightarrow> VariableNode \<Rightarrow> VariableNode" where
  "put_child k c n = VariableNode (requirement n) (AList.update k c (node_children n))"

definition part_requirement :: "string \<Rightarrow> TypeRequirement" where
  "part_requirement part = (if part = ''*'' then ARRAY else STRUCT)"

fun add_path_to_node ::
  "string list \<Rightarrow> TypeRequirement option \<Rightarrow> VariableNode \<Rightarrow> VariableNode res" where
  "add_path_to_node [] leaf n =
     (case leaf of
        None \<Rightarrow> Inr n
      | Some q \<Rightarrow>
          bind_res (set_requirement q n)
            (\<lambda>n'. Inr (if q = ARRAY then put_child ''*'' (child_or_new ''*'' n') n' else n')))"
| "add_path_to_node (part # path) leaf n =
     bind_res (set_requirement (part_requirement part) n) (\<lambda>n'.
     bind_res (add_path_to_node path leaf (child_or_new part n'))
       (\<lambda>c. Inr (put_child part c n')))"

type_synonym VariableTree = "(string, VariableNode) dict"

definition add_path_to_tree ::
  "string list \<Rightarrow> TypeRequirement option \<Rightarrow> VariableTree \<Rightarrow> VariableTree res" where
  "add_path_to_tree path leaf tree =
     (case path of
        [] \<Rightarrow> Inr tree
      | v # rest \<Rightarrow>
          bind_res (add_path_to_node rest leaf
                      (case map_of tree v of None \<Rightarrow> new_node | Some n \<Rightarrow> n))
            (\<lambda>n. Inr (AList.update v n tree)))"

definition leaf_requirement :: "TemplateReference \<Rightarrow> TypeRequirement option" where
  "leaf_requirement r = (if access_context r = ITERATION then Some ARRAY else None)"

fun add_accesses :: "TemplateReference list \<Rightarrow> VariableTree \<Rightarrow> VariableTree res" where
  "add_accesses [] tree = Inr tree"
| "add_accesses (r # rs) tree =
     bind_res (add_path_to_tree (var_path r) (leaf_requirement r) tree) (add_accesses rs)"

definition build_schema_tree :: "TemplateReference list \<Rightarrow> VariableTree res" where
  "build_schema_tree rs = add_accesses rs []"

definition from_jinja_template :: "JNode \<Rightarrow> VariableTree res" where
  "from_jinja_template ast =
     bind_res (validate_template ast) (\<lambda>_.
     bind_res (collect_variable_accesses ast) (\<lambda>accesses.
       build_schema_tree (extract_output_dependencies accesses)))"

section \<open>Checks against a schema\<close>

text \<open>The expressions the template uses, by name; a later expression of a name replaces an
  earlier one.\<close>

definition filter_used_expressions ::
  "('e \<Rightarrow> string) \<Rightarrow> VariableTree \<Rightarrow> 'e list \<Rightarrow> 'e list res" where
  "filter_used_expressions name_of tree exprs =
     (let expr_names = dict_of (map (\<lambda>e. (name_of e, e)) exprs)
      in map_res (\<lambda>v. case map_of expr_names v of
                        None \<Rightarrow> Inl ValidationError | Some e \<Rightarrow> Inr e)
           (map fst tree))"

lemma size_node_child [termination_simp]:
  "(k, c) \<in> set cs \<Longrightarrow>
     size c < Suc (size_list (size_prod (\<lambda>_. 0) size) cs + (case r of None \<Rightarrow> 0 | Some q \<Rightarrow> m))"
  by (induction cs) auto

function validate_helper :: "VariableNode \<Rightarrow> DataType \<Rightarrow> unit res" where
  "validate_helper (VariableNode r cs) d =
     (case r of
        None \<Rightarrow> Inr ()
      | Some ARRAY \<Rightarrow>
          bind_res (raise_if (\<not> isinstance d ArrayCls) TypeMismatchError) (\<lambda>_.
            case map_of cs ''*'' of
              None \<Rightarrow> Inl PyKeyError
            | Some c \<Rightarrow> validate_helper c (element_type d))
      | Some STRUCT \<Rightarrow>
          bind_res (raise_if (\<not> isinstance d StructCls) TypeMismatchError) (\<lambda>_.
            each_res
              (\<lambda>(k, c). case map_of (rev (map (\<lambda>f. (sf_name f, sf_type f)) (struct_fields d))) k of
                          None \<Rightarrow> Inl ValidationError
                        | Some t \<Rightarrow> validate_helper c t)
              cs))"
  by pat_completeness auto
termination
  by (relation "measure (\<lambda>(n, d). size n)") (auto dest!: map_of_SomeD dest: size_node_child [where r = None])

definition validate_jinja_variable :: "VariableTree \<Rightarrow> string \<Rightarrow> DataType \<Rightarrow> unit res" where
  "validate_jinja_variable tree v d =
     (case map_of tree v of None \<Rightarrow> Inl PyKeyError | Some n \<Rightarrow> validate_helper n d)"

section \<open>The tree is well formed\<close>

text \<open>
  A node with no requirement has no children, an array node exactly the element child, a
  struct node only named fields, each once.
\<close>

fun node_ok :: "VariableNode \<Rightarrow> bool" where
  "node_ok (VariableNode r cs) \<longleftrightarrow>
     distinct (map fst cs) \<and>
     (case r of None \<Rightarrow> cs = [] | Some ARRAY \<Rightarrow> map fst cs = [''*''] | Some STRUCT \<Rightarrow> ''*'' \<notin> fst ` set cs) \<and>
     list_all (\<lambda>(k, c). node_ok c) cs"

lemma node_ok_new [simp]: "node_ok new_node"
  by (simp add: new_node_def)

lemma node_ok_child: "node_ok n \<Longrightarrow> map_of (node_children n) k = Some c \<Longrightarrow> node_ok c"
  by (cases n) (auto simp: list_all_iff dest!: map_of_SomeD)

lemma node_ok_child_or_new: "node_ok n \<Longrightarrow> node_ok (child_or_new k n)"
  by (auto simp: child_or_new_def split: option.splits intro: node_ok_child)

lemma set_requirement_Inr:
  "set_requirement q n = Inr n' \<longleftrightarrow>
     (requirement n = None \<or> requirement n = Some q) \<and> n' = VariableNode (Some q) (node_children n)"
  by (auto simp: set_requirement_def)

lemma set_requirement_Inl: "set_requirement q n = Inl e \<Longrightarrow> e = ValidationError"
  by (auto simp: set_requirement_def split: if_splits)

lemma set_update: "p \<in> set (AList.update k v al) \<Longrightarrow> p = (k, v) \<or> p \<in> set al"
  by (induction al) (auto split: if_splits)

lemma array_update: "map fst cs = [''*''] \<Longrightarrow> map fst (AList.update ''*'' c cs) = [''*'']"
  by (cases cs) auto

text \<open>Putting a child below a requirement that fits it keeps the node well formed.\<close>

lemma node_ok_put:
  assumes "node_ok n" "requirement n = None \<or> requirement n = Some (part_requirement k)" "node_ok c"
  shows "node_ok (VariableNode (Some (part_requirement k)) (AList.update k c (node_children n)))"
proof (cases n)
  case (VariableNode r cs)
  have "list_all (\<lambda>(k, c). node_ok c) (AList.update k c cs)"
    using assms VariableNode by (auto simp: list_all_iff dest!: set_update)
  moreover have "distinct (map fst (AList.update k c cs))"
    using assms VariableNode by (simp add: distinct_update)
  moreover have "if k = ''*'' then map fst (AList.update k c cs) = [''*'']
      else ''*'' \<notin> fst ` set (AList.update k c cs)"
    using assms(1,2) VariableNode
    by (force simp: part_requirement_def dom_update array_update split: if_splits)
  ultimately show ?thesis
    using VariableNode by (auto simp: part_requirement_def split: if_splits)
qed

lemma part_requirement_star [simp]: "part_requirement ''*'' = ARRAY"
  by (simp add: part_requirement_def)

lemma put_child_VN: "put_child k c (VariableNode r cs) = VariableNode r (AList.update k c cs)"
  by (simp add: put_child_def)

lemma child_or_new_VN: "child_or_new k (VariableNode r cs) = child_or_new k (VariableNode r' cs)"
  by (simp add: child_or_new_def)

text \<open>Adding a path, by cases: an empty path that iterates, or a step into a child.\<close>

lemma add_path_array:
  "add_path_to_node [] (Some ARRAY) n = Inr n' \<longleftrightarrow>
     (requirement n = None \<or> requirement n = Some ARRAY) \<and>
     n' = VariableNode (Some ARRAY) (AList.update ''*'' (child_or_new ''*'' n) (node_children n))"
  by (cases n) (auto simp: set_requirement_Inr put_child_VN child_or_new_def)

lemma add_path_Cons:
  "add_path_to_node (p # ps) leaf n = Inr n' \<longleftrightarrow>
     (requirement n = None \<or> requirement n = Some (part_requirement p)) \<and>
     (\<exists>c. add_path_to_node ps leaf (child_or_new p n) = Inr c \<and>
        n' = VariableNode (Some (part_requirement p)) (AList.update p c (node_children n)))"
  by (cases n) (auto simp: set_requirement_Inr put_child_VN child_or_new_def)

lemma add_path_ok:
  "add_path_to_node ps (leaf_requirement r) n = Inr n' \<Longrightarrow> node_ok n \<Longrightarrow> node_ok n'"
proof (induction ps arbitrary: n n')
  case Nil
  show ?case
  proof (cases "leaf_requirement r")
    case (Some q)
    then have "q = ARRAY" by (auto simp: leaf_requirement_def split: if_splits)
    then show ?thesis
      using Nil Some node_ok_put [of n "''*''"] by (auto simp: add_path_array node_ok_child_or_new
          simp del: add_path_to_node.simps)
  qed (use Nil in simp)
next
  case (Cons p ps)
  then obtain c where c: "add_path_to_node ps (leaf_requirement r) (child_or_new p n) = Inr c"
    "requirement n = None \<or> requirement n = Some (part_requirement p)"
    "n' = VariableNode (Some (part_requirement p)) (AList.update p c (node_children n))"
    by (auto simp: add_path_Cons simp del: add_path_to_node.simps)
  have "node_ok c" using Cons.IH [OF c(1)] Cons.prems(2) node_ok_child_or_new by blast
  then show ?case unfolding c(3) by (rule node_ok_put [OF Cons.prems(2) c(2)])
qed

lemma add_path_Inl: "add_path_to_node ps leaf n = Inl e \<Longrightarrow> e = ValidationError"
  by (induction ps arbitrary: n)
    (auto simp: bind_res_Inl_iff split: option.splits dest: set_requirement_Inl)

section \<open>What the check decides\<close>

text \<open>The type a path reaches, and what an access demands of it.\<close>

definition struct_field_map :: "DataType \<Rightarrow> string \<Rightarrow> DataType option" where
  "struct_field_map d = map_of (rev (map (\<lambda>f. (sf_name f, sf_type f)) (struct_fields d)))"

fun walk_type :: "DataType \<Rightarrow> string list \<Rightarrow> DataType option" where
  "walk_type d [] = Some d"
| "walk_type d (p # ps) =
     (if p = ''*'' then (if is_ArrayType d then walk_type (element_type d) ps else None)
      else if is_StructType d
      then (case struct_field_map d p of None \<Rightarrow> None | Some t \<Rightarrow> walk_type t ps)
      else None)"

definition access_ok :: "DataType \<Rightarrow> string list \<Rightarrow> TypeRequirement option \<Rightarrow> bool" where
  "access_ok d ps leaf \<longleftrightarrow> (\<exists>t. walk_type d ps = Some t \<and> (leaf = Some ARRAY \<longrightarrow> is_ArrayType t))"

lemma access_ok_Cons:
  "access_ok d (p # ps) leaf \<longleftrightarrow>
     (if p = ''*'' then is_ArrayType d \<and> access_ok (element_type d) ps leaf
      else is_StructType d \<and> (\<exists>t. struct_field_map d p = Some t \<and> access_ok t ps leaf))"
  by (auto simp: access_ok_def split: option.splits)

lemma access_ok_Nil: "access_ok d [] leaf \<longleftrightarrow> (leaf = Some ARRAY \<longrightarrow> is_ArrayType d)"
  by (simp add: access_ok_def)

declare validate_helper.simps [simp del]

lemma validate_new [simp]: "validate_helper new_node d = Inr ()"
  by (simp add: new_node_def validate_helper.simps)

lemma validate_array:
  "validate_helper (VariableNode (Some ARRAY) cs) d = Inr () \<longleftrightarrow>
     is_ArrayType d \<and> (\<exists>c. map_of cs ''*'' = Some c \<and> validate_helper c (element_type d) = Inr ())"
  by (subst validate_helper.simps) (auto split: option.splits)

lemma validate_struct:
  assumes "distinct (map fst cs)"
  shows "validate_helper (VariableNode (Some STRUCT) cs) d = Inr () \<longleftrightarrow>
     is_StructType d \<and> (\<forall>k c. map_of cs k = Some c \<longrightarrow>
       (\<exists>t. struct_field_map d k = Some t \<and> validate_helper c t = Inr ()))"
proof -
  have "validate_helper (VariableNode (Some STRUCT) cs) d = Inr () \<longleftrightarrow>
      is_StructType d \<and> (\<forall>(k, c) \<in> set cs. \<exists>t. struct_field_map d k = Some t \<and> validate_helper c t = Inr ())"
    by (subst validate_helper.simps) (auto simp: struct_field_map_def split: option.splits)
  also have "\<dots> \<longleftrightarrow> is_StructType d \<and> (\<forall>k c. map_of cs k = Some c \<longrightarrow>
       (\<exists>t. struct_field_map d k = Some t \<and> validate_helper c t = Inr ()))"
    using assms by (auto simp: map_of_eq_Some_iff)
  finally show ?thesis .
qed

text \<open>Without a requirement a node accepts every type, and so does its missing child.\<close>

lemma validate_None: "validate_helper (VariableNode None cs) d = Inr ()"
  by (subst validate_helper.simps) simp

text \<open>Adding an access to a node adds exactly that access to what the node demands.\<close>

lemma validate_add_array:
  assumes "node_ok n" "requirement n = None \<or> requirement n = Some ARRAY"
    and "\<And>d. validate_helper c d = Inr () \<longleftrightarrow> validate_helper (child_or_new ''*'' n) d = Inr () \<and> Q d"
  shows "validate_helper (VariableNode (Some ARRAY) (AList.update ''*'' c (node_children n))) d = Inr () \<longleftrightarrow>
     validate_helper n d = Inr () \<and> is_ArrayType d \<and> Q (element_type d)"
proof (cases n)
  case (VariableNode r cs)
  from assms(2) VariableNode consider "r = None" | "r = Some ARRAY" by auto
  then show ?thesis
  proof cases
    case 1
    with assms(1) VariableNode have "cs = []" by simp
    with 1 VariableNode show ?thesis
      by (auto simp: validate_array validate_None assms(3) child_or_new_def)
  next
    case 2
    with assms(1) VariableNode obtain c0 where "cs = [(''*'', c0)]" by (cases cs) auto
    with 2 VariableNode show ?thesis by (auto simp: validate_array assms(3) child_or_new_def)
  qed
qed

lemma validate_add_struct:
  assumes "node_ok n" "requirement n = None \<or> requirement n = Some STRUCT"
    and "\<And>d. validate_helper c d = Inr () \<longleftrightarrow> validate_helper (child_or_new p n) d = Inr () \<and> Q d"
  shows "validate_helper (VariableNode (Some STRUCT) (AList.update p c (node_children n))) d = Inr () \<longleftrightarrow>
     validate_helper n d = Inr () \<and> is_StructType d \<and> (\<exists>t. struct_field_map d p = Some t \<and> Q t)"
proof (cases n)
  case (VariableNode r cs)
  then have d: "distinct (map fst cs)" using assms(1) by simp
  then have d': "distinct (map fst (AList.update p c cs))" by (simp add: distinct_update)
  from assms(2) VariableNode consider "r = None" | "r = Some STRUCT" by auto
  then show ?thesis
  proof cases
    case 1
    with assms(1) VariableNode have "cs = []" by simp
    with 1 VariableNode show ?thesis
      by (auto simp: validate_struct validate_None assms(3) child_or_new_def)
  next
    case 2
    show ?thesis
    proof (cases "map_of cs p")
      case None
      then show ?thesis using 2 VariableNode
        by (auto simp: validate_struct [OF d] validate_struct [OF d'] update_conv' assms(3) child_or_new_def)
    next
      case (Some c0)
      then show ?thesis using 2 VariableNode
        by (auto simp: validate_struct [OF d] validate_struct [OF d'] update_conv' assms(3) child_or_new_def)
          (metis option.inject)+
    qed
  qed
qed

lemma validate_add_path:
  "add_path_to_node ps (leaf_requirement r) n = Inr n' \<Longrightarrow> node_ok n \<Longrightarrow>
   validate_helper n' d = Inr () \<longleftrightarrow>
     validate_helper n d = Inr () \<and> access_ok d ps (leaf_requirement r)"
proof (induction ps arbitrary: n n' d)
  case Nil
  show ?case
  proof (cases "leaf_requirement r")
    case (Some q)
    then have q: "q = ARRAY" by (auto simp: leaf_requirement_def split: if_splits)
    with Nil Some show ?thesis
      using validate_add_array [of n "child_or_new ''*'' n" "\<lambda>_. True" d]
      by (auto simp: add_path_array access_ok_Nil simp del: add_path_to_node.simps)
  qed (use Nil in \<open>simp add: access_ok_Nil\<close>)
next
  case (Cons p ps)
  then obtain c where c: "add_path_to_node ps (leaf_requirement r) (child_or_new p n) = Inr c"
    "requirement n = None \<or> requirement n = Some (part_requirement p)"
    "n' = VariableNode (Some (part_requirement p)) (AList.update p c (node_children n))"
    by (auto simp: add_path_Cons simp del: add_path_to_node.simps)
  have IH: "validate_helper c d = Inr () \<longleftrightarrow>
      validate_helper (child_or_new p n) d = Inr () \<and> access_ok d ps (leaf_requirement r)" for d
    using Cons.IH [OF c(1)] Cons.prems(2) node_ok_child_or_new by blast
  show ?case
  proof (cases "p = ''*''")
    case True
    then show ?thesis
      using c validate_add_array [OF Cons.prems(2), of c "\<lambda>t. access_ok t ps (leaf_requirement r)" d] IH
      by (simp add: access_ok_Cons)
  next
    case False
    then have "part_requirement p = STRUCT" by (simp add: part_requirement_def)
    then show ?thesis
      using c False validate_add_struct [OF Cons.prems(2), of c p "\<lambda>t. access_ok t ps (leaf_requirement r)" d] IH
      by (simp add: access_ok_Cons)
  qed
qed

section \<open>Whole trees\<close>

definition tree_ok :: "VariableTree \<Rightarrow> bool" where
  "tree_ok tree \<longleftrightarrow> distinct (map fst tree) \<and> list_all (\<lambda>(k, n). node_ok n) tree"

definition tree_node :: "VariableTree \<Rightarrow> string \<Rightarrow> VariableNode" where
  "tree_node tree v = (case map_of tree v of None \<Rightarrow> new_node | Some n \<Rightarrow> n)"

lemma tree_ok_node: "tree_ok tree \<Longrightarrow> node_ok (tree_node tree v)"
  by (auto simp: tree_ok_def tree_node_def list_all_iff split: option.splits dest!: map_of_SomeD)

lemma add_path_to_tree_Cons:
  "add_path_to_tree (v # ps) leaf tree = Inr tree' \<longleftrightarrow>
     (\<exists>n. add_path_to_node ps leaf (tree_node tree v) = Inr n \<and> tree' = AList.update v n tree)"
  by (auto simp: add_path_to_tree_def tree_node_def)

lemma tree_node_update: "tree_node (AList.update v n tree) w = (if w = v then n else tree_node tree w)"
  by (simp add: tree_node_def update_conv')

text \<open>What the references at a variable demand of its type.\<close>

definition demanded :: "TemplateReference list \<Rightarrow> string \<Rightarrow> DataType \<Rightarrow> bool" where
  "demanded rs v d \<longleftrightarrow>
     (\<forall>r \<in> set rs. \<forall>ps. var_path r = v # ps \<longrightarrow> access_ok d ps (leaf_requirement r))"

lemma demanded_Cons:
  "demanded (r # rs) v d \<longleftrightarrow>
     (\<forall>ps. var_path r = v # ps \<longrightarrow> access_ok d ps (leaf_requirement r)) \<and> demanded rs v d"
  by (auto simp: demanded_def)

lemma tree_ok_update: "tree_ok tree \<Longrightarrow> node_ok n \<Longrightarrow> tree_ok (AList.update v n tree)"
  by (auto simp: tree_ok_def distinct_update list_all_iff dest!: set_update)

lemma add_accesses_spec:
  "add_accesses rs tree = Inr tree' \<Longrightarrow> tree_ok tree \<Longrightarrow>
   tree_ok tree' \<and>
   fst ` set tree' = fst ` set tree \<union> {v. \<exists>r \<in> set rs. \<exists>ps. var_path r = v # ps} \<and>
   (\<forall>v d. validate_helper (tree_node tree' v) d = Inr () \<longleftrightarrow>
      validate_helper (tree_node tree v) d = Inr () \<and> demanded rs v d)"
proof (induction rs arbitrary: tree)
  case (Cons r rs)
  show ?case
  proof (cases "var_path r")
    case Nil
    then show ?thesis
      using Cons by (simp add: add_path_to_tree_def demanded_Cons)
  next
    case (Cons w ps)
    with Cons.prems obtain n where n: "add_path_to_node ps (leaf_requirement r) (tree_node tree w) = Inr n"
      "add_accesses rs (AList.update w n tree) = Inr tree'"
      by (auto simp: add_path_to_tree_Cons)
    note ok = tree_ok_node [OF Cons.prems(2), of w]
    have up: "tree_ok (AList.update w n tree)"
      using add_path_ok [OF n(1) ok] Cons.prems(2) by (rule tree_ok_update [rotated])
    have "validate_helper (tree_node (AList.update w n tree) v) d = Inr () \<longleftrightarrow>
        validate_helper (tree_node tree v) d = Inr () \<and>
        (w = v \<longrightarrow> access_ok d ps (leaf_requirement r))" for v d
      using validate_add_path [OF n(1) ok, of d] by (auto simp: tree_node_update)
    with Cons.IH [OF n(2) up] Cons show ?thesis
      by (auto simp: demanded_Cons dom_update)
  qed
qed (simp add: demanded_def)

lemma validate_helper_Inl:
  "validate_helper n d = Inl e \<Longrightarrow> node_ok n \<Longrightarrow> e = TypeMismatchError \<or> e = ValidationError"
proof (induction n d rule: validate_helper.induct)
  case (1 r cs d)
  show ?case
  proof (cases r)
    case None
    with 1 show ?thesis by (simp add: validate_None)
  next
    case (Some q)
    show ?thesis
    proof (cases q)
      case ARRAY
      with Some 1(4) obtain c where c: "cs = [(''*'', c)]" by (cases cs) auto
      from 1(3) have "\<not> is_ArrayType d \<and> e = TypeMismatchError \<or>
          is_ArrayType d \<and> validate_helper c (element_type d) = Inl e"
        by (subst (asm) validate_helper.simps) (auto simp: Some ARRAY c bind_res_Inl_iff)
      then show ?thesis using 1(1) [OF Some ARRAY] 1(4) c by auto
    next
      case STRUCT
      have step: "validate_helper (VariableNode r cs) d =
          bind_res (raise_if (\<not> is_StructType d) TypeMismatchError) (\<lambda>_.
            each_res (\<lambda>(k, c). case struct_field_map d k of
                None \<Rightarrow> Inl ValidationError | Some t \<Rightarrow> validate_helper c t) cs)"
        by (subst validate_helper.simps) (simp add: Some STRUCT struct_field_map_def)
      show ?thesis
      proof (cases "is_StructType d")
        case False
        with 1(3) step show ?thesis by simp
      next
        case True
        with 1(3) step have "each_res (\<lambda>(k, c). case struct_field_map d k of
            None \<Rightarrow> Inl ValidationError | Some t \<Rightarrow> validate_helper c t) cs = Inl e" by simp
        then obtain k c where kc: "(k, c) \<in> set cs"
          "(case struct_field_map d k of None \<Rightarrow> Inl ValidationError | Some t \<Rightarrow> validate_helper c t) = Inl e"
          by (auto dest!: each_res_Inl)
        show ?thesis
        proof (cases "struct_field_map d k")
          case None
          with kc(2) show ?thesis by simp
        next
          case (Some t)
          then show ?thesis
            using 1(2) [OF \<open>r = Some q\<close> STRUCT, of "()" "(k, c)" k c t] kc 1(4) True
            by (auto simp: struct_field_map_def list_all_iff)
        qed
      qed
    qed
  qed
qed

lemma add_accesses_Inl: "add_accesses rs tree = Inl e \<Longrightarrow> e = ValidationError"
  by (induction rs arbitrary: tree)
    (auto simp: bind_res_Inl_iff add_path_to_tree_def split: list.splits dest: add_path_Inl)

lemma from_jinja_Inr:
  assumes "from_jinja_template ast = Inr tree"
  obtains accs where "collect_variable_accesses ast = Inr accs"
    "add_accesses (extract_output_dependencies accs) [] = Inr tree"
  using assms by (auto simp: from_jinja_template_def build_schema_tree_def)

section \<open>Which errors a template can raise\<close>

lemma extract_path_Inl: "extract_variable_path n scope = Inl e \<Longrightarrow> e = ValidationError"
  by (induction n scope rule: extract_variable_path.induct) (auto simp: bind_res_Inl_iff split: if_splits)

lemma concat_res_Inl: "concat_res f xs = Inl e \<Longrightarrow> \<exists>x \<in> set xs. f x = Inl e"
  by (auto simp: concat_res_def bind_res_Inl_iff dest: map_res_Inl)

lemma handle_output_Inl: "handle_output_node scope ctx n = Inl e \<Longrightarrow> e = ValidationError"
  by (auto simp: handle_output_node_def bind_res_Inl_iff split: if_splits dest: extract_path_Inl)

text \<open>The templates all of whose loops iterate over a path.\<close>

fun loops_have_paths :: "JNode \<Rightarrow> bool" where
  "loops_have_paths n \<longleftrightarrow>
     (case n of JFor target it body els test \<Rightarrow> (\<forall>scope. extract_variable_path it scope \<noteq> Inr None) | _ \<Rightarrow> True) \<and>
     list_all loops_have_paths (iter_child_nodes n)"

declare loops_have_paths.simps [simp del]

lemma extract_path_not_Nil: "extract_variable_path n scope \<noteq> Inr (Some [])"
  by (induction n scope rule: extract_variable_path.induct)
    (auto split: if_splits JNode.splits ConstValue.splits)

lemma path_truthy: "extract_variable_path n scope = Inr p \<Longrightarrow> truthy p \<longleftrightarrow> p \<noteq> None"
  using extract_path_not_Nil by (cases p) auto

lemma traverse_Inl:
  "traverse_and_collect n scope ctx = Inl e \<Longrightarrow>
     e = ValidationError \<or> e = PyUnboundLocalError \<and> \<not> loops_have_paths n"
proof (induction n scope ctx rule: traverse_and_collect.induct)
  case (1 target it body els test scope ctx)
  from "1.prems" consider (iter) "extract_variable_path it scope = Inl e"
    | (none) "extract_variable_path it scope = Inr None" "e = PyUnboundLocalError"
    | (some) p where "extract_variable_path it scope = Inr p" "truthy p"
    using path_truthy [of it scope] by (auto simp: bind_res_Inl_iff split: if_splits)
  then show ?case
  proof cases
    case iter
    then show ?thesis by (auto dest: extract_path_Inl)
  next
    case none
    then show ?thesis by (subst loops_have_paths.simps) auto
  next
    case some
    show ?thesis
    proof (cases target)
      case (JName x)
      from "1.prems" obtain c where c: "c \<in> set (iter_child_nodes (JFor target it body els test))"
        "traverse_and_collect c (push_loop_var x (resolve_variable_path (the p) scope) scope)
           (ctx @ [mk_ref (resolve_variable_path (the p) scope) ITERATION]) = Inl e"
        using some JName by (auto simp: Let_def bind_res_Inl_iff dest!: concat_res_Inl)
      have "e = ValidationError \<or> e = PyUnboundLocalError \<and> \<not> loops_have_paths c"
        by (rule "1.IH" [OF some(1,2) refl refl JName c])
      with c(1) show ?thesis by (subst loops_have_paths.simps) (auto simp: list_all_iff)
    qed (use "1.prems" some in \<open>simp_all add: Let_def\<close>)
  qed
next
  case (2 test body elif els scope ctx)
  from "2.prems" consider (test) "extract_variable_path test scope = Inl e"
    | (child) p c where "extract_variable_path test scope = Inr p"
      "c \<in> set (iter_child_nodes (JIf test body elif els))"
      "traverse_and_collect c scope (if truthy p
         then ctx @ [mk_ref (resolve_variable_path (the p) scope) CONDITION] else ctx) = Inl e"
    by (auto simp: bind_res_Inl_iff Let_def dest!: concat_res_Inl)
  then show ?case
  proof cases
    case test
    then show ?thesis by (auto dest: extract_path_Inl)
  next
    case child
    then have "e = ValidationError \<or> e = PyUnboundLocalError \<and> \<not> loops_have_paths c"
      using "2.IH" [OF child(1) refl child(2,3)] by blast
    with child(2) show ?thesis by (subst loops_have_paths.simps) (auto simp: list_all_iff)
  qed
next
  case (3 ns scope ctx)
  then show ?case by (auto dest!: concat_res_Inl handle_output_Inl)
qed (auto simp: list_all_iff loops_have_paths.simps [of "JTemplate _"] loops_have_paths.simps [of "JGetattr _ _"]
    loops_have_paths.simps [of "JGetitem _ _"] loops_have_paths.simps [of "JNot _"]
    loops_have_paths.simps [of "JOther _"] dest!: concat_res_Inl)

lemma getitem_arg_Inl: "getitem_arg_check n = Inl e \<Longrightarrow> e = ValidationError"
  by (induction n rule: getitem_arg_check.induct) (auto split: JNode.splits ConstValue.splits)

lemma validate_template_Inl: "validate_template n = Inl e \<Longrightarrow> e = ValidationError"
proof (induction n rule: validate_template.induct)
  case (1 n)
  have IH: "c \<in> set (iter_child_nodes n) \<Longrightarrow> \<not> is_other n \<Longrightarrow> getitem_arg_check n = Inr () \<Longrightarrow>
      validate_template c = Inl e \<Longrightarrow> e = ValidationError" for c
    using "1.IH" by simp
  have "validate_template n = bind_res (raise_if (is_other n) ValidationError) (\<lambda>_.
     bind_res (getitem_arg_check n) (\<lambda>_. each_res validate_template (iter_child_nodes n)))"
    by (rule validate_template.simps)
  with "1.prems" show ?case
    by (auto simp: bind_res_Inl_iff intro: getitem_arg_Inl dest!: each_res_Inl IH)
qed

section \<open>Properties\<close>


text \<open>\<^verbatim>\<open>{% for x in items %}{{ x.name }}{% endfor %}\<close>\<close>

definition example_loop :: JNode where
  "example_loop =
     JTemplate [JFor (JName ''x'') (JName ''items'') [JOutput [JGetattr (JName ''x'') ''name'']] [] None]"

lemmas template_evals = from_jinja_template_def collect_variable_accesses_def build_schema_tree_def
  validate_template.simps concat_res_def handle_output_node_def push_loop_var_def is_in_loop_def
  resolve_variable_path_def resolve_variable_def mk_ref_def mk_dep_def Let_def
  extract_output_dependencies_def dict_of_def add_path_to_tree_def set_requirement_def
  child_or_new_def put_child_def new_node_def part_requirement_def leaf_requirement_def


text \<open>The variables a template requires are exactly the first names of the accesses its output
  depends on, and reading a template raises ValidationError or, when some loop has nothing
  with a path to iterate, Python's UnboundLocalError.\<close>

theorem jinja_variables_and_errors:
  "case from_jinja_template ast of
     Inr tree \<Rightarrow> \<exists>accs. collect_variable_accesses ast = Inr accs \<and> distinct (map fst tree) \<and>
       fst ` set tree = {v. \<exists>r \<in> set (extract_output_dependencies accs). \<exists>ps. var_path r = v # ps}
   | Inl e \<Rightarrow> e = ValidationError \<or> e = PyUnboundLocalError \<and> \<not> loops_have_paths ast"
proof (cases "from_jinja_template ast")
  case (Inl e)
  then have "validate_template ast = Inl e \<or> collect_variable_accesses ast = Inl e \<or>
      (\<exists>rs. add_accesses rs [] = Inl e)"
    by (auto simp: from_jinja_template_def build_schema_tree_def bind_res_Inl_iff)
  with Inl show ?thesis
    by (auto dest: validate_template_Inl add_accesses_Inl
        simp: collect_variable_accesses_def dest!: traverse_Inl)
next
  case (Inr tree)
  then obtain accs where "collect_variable_accesses ast = Inr accs"
    "add_accesses (extract_output_dependencies accs) [] = Inr tree"
    by (rule from_jinja_Inr)
  with add_accesses_spec [OF this(2)] Inr show ?thesis by (auto simp: tree_ok_def)
qed

text \<open>A loop over a constant passes the template validation and then raises
  UnboundLocalError.\<close>

theorem loop_over_constant_unbound:
  "validate_template (JTemplate [JFor (JName ''x'') (JConst (CInt 5)) [JOutput [JName ''x'']] [] None]) = Inr () \<and>
   from_jinja_template (JTemplate [JFor (JName ''x'') (JConst (CInt 5)) [JOutput [JName ''x'']] [] None])
     = Inl PyUnboundLocalError"
  by (simp add: template_evals)

text \<open>A negated condition is not recorded as a dependency: the template that prints name if
  not premium requires only name, so the column the rendering needs for premium is dropped
  from the expressions passed to it.\<close>

theorem negated_condition_lost:
  "from_jinja_template
     (JTemplate [JIf (JNot (JName ''premium'')) [JOutput [JName ''name'']] [] []])
   = Inr [(''name'', VariableNode None [])] \<and>
   filter_used_expressions (\<lambda>e. e) [(''name'', VariableNode None [])] [''premium'', ''name'']
   = Inr [''name'']"
  by (simp add: template_evals filter_used_expressions_def)

text \<open>Control dependencies are deduplicated by path alone and the last one wins, so a later
  condition on an array removes the demand of an earlier loop over it: when a loop over items
  is followed by a test of items, a string column passes as items.\<close>

theorem loop_requirement_lost:
  "\<exists>tree. from_jinja_template
     (JTemplate [JFor (JName ''x'') (JName ''items'') [JOutput [JTemplateData ''a'']] [] None,
                 JIf (JName ''items'') [JOutput [JTemplateData ''b'']] [] []]) = Inr tree \<and>
     validate_jinja_variable tree ''items'' StringType = Inr () \<and>
   (\<exists>tree'. from_jinja_template
     (JTemplate [JFor (JName ''x'') (JName ''items'') [JOutput [JTemplateData ''a'']] [] None]) = Inr tree' \<and>
     validate_jinja_variable tree' ''items'' StringType = Inl TypeMismatchError)"
  by (simp add: template_evals validate_jinja_variable_def validate_helper.simps)

end
