(* ===== verification/TokenLimits.thy ===== *)
theory TokenLimits
  imports Fenic_Prelude
begin

text \<open>
  The resolved model configuration (\<^verbatim>\<open>src/fenic/core/_resolved_session_config.py\<close>), the
  output-token budgets of \<^verbatim>\<open>src/fenic/core/_inference/output_token_limits.py\<close> and the
  checks of completion parameters in \<^verbatim>\<open>src/fenic/core/_logical_plan/utils.py\<close>.
  The model catalog is a table of the session here; theory \<^verbatim>\<open>ModelCatalog\<close> holds the one the
  program is built with.  Ratios and temperatures are real
  numbers.  The lemmas show that a validated request keeps the visible budget the caller
  asked for within the model's limit, and which errors a check can raise.
\<close>

section \<open>Configuration\<close>

datatype ModelProvider =
    OPENAI | ANTHROPIC | GOOGLE_DEVELOPER | GOOGLE_VERTEX | COHERE | OPENROUTER

text \<open>The profile of each provider.\<close>

datatype AnthropicProfile =
  AnthropicProfile (an_budget: "int option") (an_effort: "string option")

datatype GoogleProfile =
  GoogleProfile (go_budget: "int option") (go_level: "string option") (go_dimensionality: "int option")
    (go_task_type: "string option") (go_media_resolution: "string option")

datatype OpenAIProfile = OpenAIProfile (oa_effort: "string option") (oa_verbosity: "string option")

datatype ProviderRouting =
  ProviderRouting (pr_order: "string list option") (pr_sort: "string option")
    (pr_quantizations: "string list option") (pr_data_collection: "string option")
    (pr_only: "string list option") (pr_ignore: "string list option")
    (pr_max_prompt_price: "real option") (pr_max_completion_price: "real option")

datatype OpenRouterProfile =
  OpenRouterProfile (or_effort: "string option") (or_max_tokens: "int option")
    (or_models: "string list option") (or_provider: "ProviderRouting option")
    (or_strategy: "string option") (or_parsing_engine: "string option")

datatype CohereProfile =
  CohereProfile (co_dimensionality: "int option") (co_task_type: "string option")

text \<open>The class of a configuration with its profiles.\<close>

datatype ConfigClass =
    OpenAIModelConfig "(string, OpenAIProfile) dict option"
  | AnthropicModelConfig "(string, AnthropicProfile) dict option"
  | GoogleModelConfig "(string, GoogleProfile) dict option"
  | CohereModelConfig "(string, CohereProfile) dict option"
  | OpenRouterModelConfig "(string, OpenRouterProfile) dict option"

datatype ModelLimits =
    TokenLimit int int
  | SplitTokenLimit int int int
  | NoLimit

record ResolvedModelConfig =
  config_class :: ConfigClass
  model_name :: string
  model_provider :: ModelProvider
  default_profile :: "string option"
  model_limits :: ModelLimits
  config_base_url :: "string option"

record CompletionModelParameters =
  max_output_tokens :: int
  max_temperature :: real
  supports_reasoning :: bool
  supports_minimal_reasoning :: bool
  supports_disabled_reasoning :: bool
  default_reasoning_effort :: "string option"
  supported_thinking_levels :: "string list option"
  uses_adaptive_thinking :: bool
  supports_pdf_parsing :: bool

record EmbeddingModelParameters =
  default_dimensions :: int

record ResolvedLanguageModelConfig =
  model_configs :: "(string, ResolvedModelConfig) dict"
  default_model :: string

record SessionState =
  language_models :: "ResolvedLanguageModelConfig option"
  embedding_models :: "ResolvedLanguageModelConfig option"
  completion_catalog :: "ModelProvider \<Rightarrow> string \<Rightarrow> CompletionModelParameters option"
  embedding_catalog :: "ModelProvider \<Rightarrow> string \<Rightarrow> EmbeddingModelParameters option"

record ResolvedModelAlias =
  alias_name :: string
  alias_profile :: "string option"

section \<open>Budgets\<close>

definition OPENAI_REASONING_TOKEN_ESTIMATES :: "(string, int) dict" where
  "OPENAI_REASONING_TOKEN_ESTIMATES =
     [(''none'', 0), (''minimal'', 2048), (''low'', 4096), (''medium'', 8192),
      (''high'', 16384), (''xhigh'', 32768), (''max'', 65536)]"

definition OPENROUTER_REASONING_EFFORT_RATIOS :: "(string, real) dict" where
  "OPENROUTER_REASONING_EFFORT_RATIOS =
     [(''none'', 0), (''minimal'', 10 / 100), (''low'', 20 / 100), (''medium'', 50 / 100),
      (''high'', 80 / 100), (''xhigh'', 95 / 100), (''max'', 95 / 100)]"

definition GOOGLE_THINKING_LEVEL_TOKEN_ESTIMATES :: "(string, int) dict" where
  "GOOGLE_THINKING_LEVEL_TOKEN_ESTIMATES =
     [(''minimal'', 2048), (''low'', 8192), (''medium'', 16384), (''high'', 32768)]"

definition GOOGLE_REASONING_SAFETY_MARGIN :: real where
  "GOOGLE_REASONING_SAFETY_MARGIN = 15 / 10"

definition ANTHROPIC_ADAPTIVE_THINKING_EFFORT_RATIOS :: "(string, real) dict" where
  "ANTHROPIC_ADAPTIVE_THINKING_EFFORT_RATIOS =
     [(''low'', 20 / 100), (''medium'', 50 / 100), (''high'', 80 / 100), (''xhigh'', 95 / 100),
      (''max'', 1)]"

text \<open>\<^verbatim>\<open>d[k]\<close> raises KeyError when the key is absent.\<close>

definition dict_get :: "('k, 'v) dict \<Rightarrow> 'k \<Rightarrow> 'v res" where
  "dict_get d k = (case map_of d k of None \<Rightarrow> Inl PyKeyError | Some v \<Rightarrow> Inr v)"

definition validate_effective_output_token_limit ::
  "int \<Rightarrow> int option \<Rightarrow> int \<Rightarrow> bool \<Rightarrow> int option res" where
  "validate_effective_output_token_limit model_max requested estimated shares =
     (case requested of
        None \<Rightarrow> Inr None
      | Some req \<Rightarrow>
          if req > model_max then Inl ValidationError
          else
            let effective = req + estimated
            in if shares then Inr (Some (min effective model_max))
               else if effective > model_max then Inl ValidationError
               else Inr (Some effective))"

definition resolve_openai_reasoning_effort ::
  "CompletionModelParameters \<Rightarrow> string option \<Rightarrow> string" where
  "resolve_openai_reasoning_effort p effort =
     (if truthy effort then the effort
      else if truthy (default_reasoning_effort p) then the (default_reasoning_effort p)
      else if supports_disabled_reasoning p then ''none''
      else if supports_minimal_reasoning p then ''minimal''
      else ''low'')"

definition resolve_profile ::
  "(string, 'p) dict option \<Rightarrow> string option \<Rightarrow> string option \<Rightarrow> 'p option" where
  "resolve_profile profiles dflt profile_name =
     (let selected = or_else profile_name dflt;
          ps = (case profiles of None \<Rightarrow> [] | Some d \<Rightarrow> d)
      in if truthy selected then map_of ps (the selected) else None)"

definition estimate_openai_reasoning_tokens ::
  "CompletionModelParameters \<Rightarrow> OpenAIProfile option \<Rightarrow> int res" where
  "estimate_openai_reasoning_tokens p profile =
     (if \<not> supports_reasoning p then Inr 0
      else dict_get OPENAI_REASONING_TOKEN_ESTIMATES
        (resolve_openai_reasoning_effort p (case profile of None \<Rightarrow> None | Some pr \<Rightarrow> oa_effort pr)))"

definition with_google_safety_margin :: "int \<Rightarrow> int" where
  "with_google_safety_margin n = py_int (GOOGLE_REASONING_SAFETY_MARGIN * real_of_int n)"

definition estimate_google_reasoning_tokens ::
  "CompletionModelParameters \<Rightarrow> GoogleProfile option \<Rightarrow> int res" where
  "estimate_google_reasoning_tokens p profile =
     (if \<not> supports_reasoning p then Inr 0
      else if truthy (supported_thinking_levels p) then
        (let level = the (or_else (case profile of None \<Rightarrow> None | Some pr \<Rightarrow> go_level pr)
                                  (Some ''low''))
         in bind_res (dict_get GOOGLE_THINKING_LEVEL_TOKEN_ESTIMATES level)
              (\<lambda>n. Inr (with_google_safety_margin n)))
      else
        (case profile of
           None \<Rightarrow>
             if supports_disabled_reasoning p then Inr 0 else Inr (with_google_safety_margin 1024)
         | Some pr \<Rightarrow>
             (case go_budget pr of
                None \<Rightarrow> Inr 0
              | Some n \<Rightarrow>
                  if n = 0 then Inr 0
                  else if n > 0 then Inr (with_google_safety_margin n)
                  else Inr (with_google_safety_margin 16384))))"

definition ceil_ratio :: "(string, real) dict \<Rightarrow> string \<Rightarrow> int \<Rightarrow> int res" where
  "ceil_ratio ratios effort limit =
     bind_res (dict_get ratios effort) (\<lambda>r. Inr \<lceil>r * real_of_int limit\<rceil>)"

definition estimate_anthropic_reasoning_tokens ::
  "CompletionModelParameters \<Rightarrow> AnthropicProfile option \<Rightarrow> int res" where
  "estimate_anthropic_reasoning_tokens p profile =
     (case profile of
        None \<Rightarrow> Inr 0
      | Some pr \<Rightarrow>
          if truthy_int (an_budget pr) \<and> supports_reasoning p then Inr (the (an_budget pr))
          else if truthy (an_effort pr) \<and> uses_adaptive_thinking p
          then ceil_ratio ANTHROPIC_ADAPTIVE_THINKING_EFFORT_RATIOS (the (an_effort pr))
                 (max_output_tokens p)
          else Inr 0)"

definition estimate_openrouter_reasoning_tokens ::
  "CompletionModelParameters \<Rightarrow> OpenRouterProfile option \<Rightarrow> int res" where
  "estimate_openrouter_reasoning_tokens p profile =
     (if \<not> supports_reasoning p then Inr 0
      else if truthy_int (case profile of None \<Rightarrow> None | Some pr \<Rightarrow> or_max_tokens pr)
      then Inr (the (case profile of None \<Rightarrow> None | Some pr \<Rightarrow> or_max_tokens pr))
      else ceil_ratio OPENROUTER_REASONING_EFFORT_RATIOS
             (the (or_else (case profile of None \<Rightarrow> None | Some pr \<Rightarrow> or_effort pr) (Some ''low'')))
             (max_output_tokens p))"

definition estimate_reasoning_tokens ::
  "ResolvedModelConfig \<Rightarrow> CompletionModelParameters \<Rightarrow> string option \<Rightarrow> int res" where
  "estimate_reasoning_tokens c p name =
     (case config_class c of
        OpenAIModelConfig ps \<Rightarrow>
          estimate_openai_reasoning_tokens p (resolve_profile ps (default_profile c) name)
      | GoogleModelConfig ps \<Rightarrow>
          estimate_google_reasoning_tokens p (resolve_profile ps (default_profile c) name)
      | AnthropicModelConfig ps \<Rightarrow>
          estimate_anthropic_reasoning_tokens p (resolve_profile ps (default_profile c) name)
      | OpenRouterModelConfig ps \<Rightarrow>
          estimate_openrouter_reasoning_tokens p (resolve_profile ps (default_profile c) name)
      | CohereModelConfig ps \<Rightarrow> Inr 0)"

definition reasoning_shares_output_window ::
  "ResolvedModelConfig \<Rightarrow> CompletionModelParameters \<Rightarrow> string option \<Rightarrow> bool" where
  "reasoning_shares_output_window c p name =
     (case config_class c of
        AnthropicModelConfig ps \<Rightarrow>
          uses_adaptive_thinking p \<and>
          (case resolve_profile ps (default_profile c) name of
             None \<Rightarrow> False
           | Some pr \<Rightarrow> truthy (an_effort pr))
      | _ \<Rightarrow> False)"

section \<open>Checks of completion parameters\<close>

definition parse_model_alias :: "string \<Rightarrow> string \<times> string option" where
  "parse_model_alias s =
     (if CHR ''.'' \<in> set s
      then (takeWhile (\<lambda>c. c \<noteq> CHR ''.'') s, Some (tl (dropWhile (\<lambda>c. c \<noteq> CHR ''.'') s)))
      else (s, None))"

text \<open>
  The parameters may be missing from the catalog: the lookup then returns None, which only
  the later attribute accesses notice.
\<close>

definition provider_of_config :: "ResolvedModelConfig \<Rightarrow> ModelProvider" where
  "provider_of_config c =
     (case config_class c of
        OpenAIModelConfig _ \<Rightarrow> OPENAI
      | GoogleModelConfig _ \<Rightarrow> model_provider c
      | OpenRouterModelConfig _ \<Rightarrow> OPENROUTER
      | _ \<Rightarrow> ANTHROPIC)"

definition fetch_model_and_completion_parameters ::
  "ResolvedModelAlias option \<Rightarrow> SessionState \<Rightarrow>
     (ResolvedModelConfig \<times> ModelProvider \<times> CompletionModelParameters option) res" where
  "fetch_model_and_completion_parameters model_alias ss =
     (case language_models ss of
        None \<Rightarrow> Inl ValidationError
      | Some lm \<Rightarrow>
          let name = (case model_alias of None \<Rightarrow> default_model lm | Some a \<Rightarrow> alias_name a)
          in case map_of (model_configs lm) name of
               None \<Rightarrow> Inl ValidationError
             | Some c \<Rightarrow>
                 let provider = provider_of_config c
                 in Inr (c, provider, completion_catalog ss provider (model_name c)))"

definition validate_completion_parameters ::
  "ResolvedModelAlias option \<Rightarrow> SessionState \<Rightarrow> real option \<Rightarrow> int option \<Rightarrow> unit res" where
  "validate_completion_parameters model_alias ss temperature max_tokens =
     bind_res (fetch_model_and_completion_parameters model_alias ss) (\<lambda>(c, provider, params).
       let name = (case model_alias of None \<Rightarrow> None | Some a \<Rightarrow> alias_profile a)
       in case params of
            None \<Rightarrow> Inl PyAttributeError
          | Some p \<Rightarrow>
              bind_res (if max_tokens \<noteq> None then estimate_reasoning_tokens c p name else Inr 0)
                (\<lambda>estimated.
              bind_res (validate_effective_output_token_limit (max_output_tokens p) max_tokens
                          estimated (reasoning_shares_output_window c p name))
                (\<lambda>_.
              case temperature of
                None \<Rightarrow> Inr ()
              | Some t \<Rightarrow> raise_if (t < 0 \<or> t > max_temperature p) ValidationError)))"

definition validate_model_support_for_pdf_parsing ::
  "ResolvedModelAlias option \<Rightarrow> SessionState \<Rightarrow> unit res" where
  "validate_model_support_for_pdf_parsing model_alias ss =
     bind_res (fetch_model_and_completion_parameters model_alias ss) (\<lambda>(c, provider, params).
       case params of
         None \<Rightarrow> Inl PyAttributeError
       | Some p \<Rightarrow> raise_if (\<not> supports_pdf_parsing p) ValidationError)"

section \<open>What the checks guarantee\<close>

lemma dict_get_Inr_iff [simp]: "dict_get d k = Inr v \<longleftrightarrow> map_of d k = Some v"
  by (auto simp: dict_get_def split: option.splits)

lemma dict_get_Inl: "dict_get d k = Inl e \<Longrightarrow> e = PyKeyError"
  by (auto simp: dict_get_def split: option.splits)

lemma limit_Inr_iff:
  "validate_effective_output_token_limit m r est shares = Inr out \<longleftrightarrow>
     (case r of
        None \<Rightarrow> out = None
      | Some req \<Rightarrow> req \<le> m \<and> (shares \<or> req + est \<le> m) \<and>
          out = Some (if shares then min (req + est) m else req + est))"
  by (auto simp: validate_effective_output_token_limit_def Let_def split: option.splits)

lemma limit_Inl: "validate_effective_output_token_limit m r est shares = Inl e \<Longrightarrow> e = ValidationError"
  by (auto simp: validate_effective_output_token_limit_def Let_def split: option.splits if_splits)

text \<open>A profile whose efforts and levels are names the tables know, and whose budgets are not
  negative where the provider takes them literally.\<close>

definition known :: "(string, 'v) dict \<Rightarrow> string option \<Rightarrow> bool" where
  "known d e \<longleftrightarrow> (truthy e \<longrightarrow> the e \<in> fst ` set d)"

definition nonneg_budget :: "int option \<Rightarrow> bool" where
  "nonneg_budget b \<longleftrightarrow> (\<forall>n. b = Some n \<longrightarrow> 0 \<le> n)"

definition config_profiles_ok :: "ResolvedModelConfig \<Rightarrow> bool" where
  "config_profiles_ok c \<longleftrightarrow>
     (case config_class c of
        OpenAIModelConfig ps \<Rightarrow>
          (\<forall>d. ps = Some d \<longrightarrow> list_all (\<lambda>(k, p). known OPENAI_REASONING_TOKEN_ESTIMATES (oa_effort p)) d)
      | AnthropicModelConfig ps \<Rightarrow>
          (\<forall>d. ps = Some d \<longrightarrow> list_all (\<lambda>(k, p). nonneg_budget (an_budget p) \<and>
             known ANTHROPIC_ADAPTIVE_THINKING_EFFORT_RATIOS (an_effort p)) d)
      | GoogleModelConfig ps \<Rightarrow>
          (\<forall>d. ps = Some d \<longrightarrow> list_all (\<lambda>(k, p). known GOOGLE_THINKING_LEVEL_TOKEN_ESTIMATES (go_level p)) d)
      | CohereModelConfig ps \<Rightarrow> True
      | OpenRouterModelConfig ps \<Rightarrow>
          (\<forall>d. ps = Some d \<longrightarrow> list_all (\<lambda>(k, p). nonneg_budget (or_max_tokens p) \<and>
             known OPENROUTER_REASONING_EFFORT_RATIOS (or_effort p)) d))"

definition parameters_ok :: "CompletionModelParameters \<Rightarrow> bool" where
  "parameters_ok p \<longleftrightarrow>
     0 \<le> max_output_tokens p \<and> known OPENAI_REASONING_TOKEN_ESTIMATES (default_reasoning_effort p)"

lemma resolve_profile_in:
  "resolve_profile ps d n = Some p \<Longrightarrow> \<exists>k l. ps = Some l \<and> (k, p) \<in> set l"
  by (auto simp: resolve_profile_def Let_def split: if_splits option.splits dest: map_of_SomeD)

lemma known_get: "known d e \<Longrightarrow> truthy e \<Longrightarrow> \<exists>v. dict_get d (the e) = Inr v \<and> v \<in> snd ` set d"
proof -
  assume "known d e" "truthy e"
  then have "the e \<in> fst ` set d" by (simp add: known_def)
  then obtain v where "map_of d (the e) = Some v" by (metis map_of_eq_None_iff not_None_eq)
  then show ?thesis by (auto dest: map_of_SomeD intro: rev_image_eqI)
qed

lemma known_or_else:
  assumes "known d e" "k \<in> fst ` set d" "k \<noteq> []"
  shows "\<exists>v. dict_get d (the (or_else e (Some k))) = Inr v \<and> v \<in> snd ` set d"
  using assms known_get [of d e] known_get [of d "Some k"] by (auto simp: or_else_def known_def)

lemma table_values_nonneg:
  "v \<in> snd ` set OPENAI_REASONING_TOKEN_ESTIMATES \<Longrightarrow> 0 \<le> v"
  "v \<in> snd ` set GOOGLE_THINKING_LEVEL_TOKEN_ESTIMATES \<Longrightarrow> 0 \<le> v"
  "r \<in> snd ` set OPENROUTER_REASONING_EFFORT_RATIOS \<Longrightarrow> 0 \<le> r \<and> r \<le> 1"
  "r \<in> snd ` set ANTHROPIC_ADAPTIVE_THINKING_EFFORT_RATIOS \<Longrightarrow> 0 \<le> r \<and> r \<le> 1"
  by (auto simp: OPENAI_REASONING_TOKEN_ESTIMATES_def GOOGLE_THINKING_LEVEL_TOKEN_ESTIMATES_def
      OPENROUTER_REASONING_EFFORT_RATIOS_def ANTHROPIC_ADAPTIVE_THINKING_EFFORT_RATIOS_def)

lemma margin_nonneg: "0 \<le> n \<Longrightarrow> 0 \<le> with_google_safety_margin n"
  by (simp add: with_google_safety_margin_def py_int_def GOOGLE_REASONING_SAFETY_MARGIN_def)

lemma openai_estimate_ok:
  assumes "parameters_ok p" "\<forall>pr. profile = Some pr \<longrightarrow> known OPENAI_REASONING_TOKEN_ESTIMATES (oa_effort pr)"
  shows "\<exists>n. estimate_openai_reasoning_tokens p profile = Inr n \<and> 0 \<le> n"
proof -
  let ?T = OPENAI_REASONING_TOKEN_ESTIMATES
  let ?e = "case profile of None \<Rightarrow> None | Some pr \<Rightarrow> oa_effort pr"
  have "known ?T ?e" using assms(2) by (cases profile) (auto simp: known_def)
  then have e: "truthy ?e \<Longrightarrow> \<exists>v. dict_get ?T (the ?e) = Inr v \<and> v \<in> snd ` set ?T"
    by (rule known_get)
  have d: "truthy (default_reasoning_effort p) \<Longrightarrow>
      \<exists>v. dict_get ?T (the (default_reasoning_effort p)) = Inr v \<and> v \<in> snd ` set ?T"
    using assms(1) by (intro known_get) (simp_all add: parameters_ok_def)
  have k: "known ?T (Some s) \<Longrightarrow> s \<noteq> [] \<Longrightarrow> \<exists>v. dict_get ?T s = Inr v \<and> v \<in> snd ` set ?T" for s
    using known_get [of ?T "Some s"] by simp
  have kn: "known ?T (Some ''none'')" "known ?T (Some ''minimal'')" "known ?T (Some ''low'')"
    by (simp_all add: known_def OPENAI_REASONING_TOKEN_ESTIMATES_def)
  have "\<exists>v. dict_get ?T (resolve_openai_reasoning_effort p ?e) = Inr v \<and> v \<in> snd ` set ?T"
    using e d k [OF kn(1)] k [OF kn(2)] k [OF kn(3)]
    unfolding resolve_openai_reasoning_effort_def by (simp split: if_split)
  then show ?thesis
    using table_values_nonneg(1) by (auto simp: estimate_openai_reasoning_tokens_def)
qed

lemma google_estimate_ok:
  assumes "\<forall>pr. profile = Some pr \<longrightarrow> known GOOGLE_THINKING_LEVEL_TOKEN_ESTIMATES (go_level pr)"
  shows "\<exists>n. estimate_google_reasoning_tokens p profile = Inr n \<and> 0 \<le> n"
proof -
  let ?T = GOOGLE_THINKING_LEVEL_TOKEN_ESTIMATES
  let ?l = "case profile of None \<Rightarrow> None | Some pr \<Rightarrow> go_level pr"
  have "known ?T ?l" using assms by (cases profile) (auto simp: known_def)
  then have "\<exists>v. dict_get ?T (the (or_else ?l (Some ''low''))) = Inr v \<and> v \<in> snd ` set ?T"
    by (rule known_or_else) (auto simp: GOOGLE_THINKING_LEVEL_TOKEN_ESTIMATES_def)
  then obtain v where "dict_get ?T (the (or_else ?l (Some ''low''))) = Inr v" "0 \<le> v"
    using table_values_nonneg(2) by auto
  then show ?thesis
    by (auto simp: estimate_google_reasoning_tokens_def Let_def margin_nonneg split: option.splits)
qed

lemma ceil_ratio_ok:
  assumes "\<exists>v. dict_get d e = Inr v \<and> v \<in> snd ` set d" "\<And>r. r \<in> snd ` set d \<Longrightarrow> 0 \<le> r \<and> r \<le> 1"
    and "0 \<le> m"
  shows "\<exists>n. ceil_ratio d e m = Inr n \<and> 0 \<le> n"
proof -
  obtain v where v: "dict_get d e = Inr v" "0 \<le> v" using assms(1,2) by auto
  then have "0 \<le> v * real_of_int m" using assms(3) by simp
  then have "0 \<le> \<lceil>v * real_of_int m\<rceil>" by linarith
  with v show ?thesis by (simp add: ceil_ratio_def)
qed

lemma anthropic_estimate_ok:
  assumes "parameters_ok p" "\<forall>pr. profile = Some pr \<longrightarrow> nonneg_budget (an_budget pr) \<and>
    known ANTHROPIC_ADAPTIVE_THINKING_EFFORT_RATIOS (an_effort pr)"
  shows "\<exists>n. estimate_anthropic_reasoning_tokens p profile = Inr n \<and> 0 \<le> n"
proof (cases profile)
  case (Some pr)
  have "\<exists>n. ceil_ratio ANTHROPIC_ADAPTIVE_THINKING_EFFORT_RATIOS (the (an_effort pr)) (max_output_tokens p) = Inr n \<and> 0 \<le> n"
    if "truthy (an_effort pr)"
    using assms that Some
    by (intro ceil_ratio_ok [OF known_get table_values_nonneg(4)]) (auto simp: parameters_ok_def)
  moreover have "0 \<le> the (an_budget pr)" if "truthy_int (an_budget pr)"
    using assms(2) Some that by (cases "an_budget pr") (auto simp: nonneg_budget_def)
  ultimately show ?thesis using Some by (auto simp: estimate_anthropic_reasoning_tokens_def)
qed (simp add: estimate_anthropic_reasoning_tokens_def)

lemma openrouter_estimate_ok:
  assumes "parameters_ok p" "\<forall>pr. profile = Some pr \<longrightarrow> nonneg_budget (or_max_tokens pr) \<and>
    known OPENROUTER_REASONING_EFFORT_RATIOS (or_effort pr)"
  shows "\<exists>n. estimate_openrouter_reasoning_tokens p profile = Inr n \<and> 0 \<le> n"
proof -
  let ?T = OPENROUTER_REASONING_EFFORT_RATIOS
  let ?e = "case profile of None \<Rightarrow> None | Some pr \<Rightarrow> or_effort pr"
  let ?m = "case profile of None \<Rightarrow> None | Some pr \<Rightarrow> or_max_tokens pr"
  have "known ?T ?e" using assms(2) by (cases profile) (auto simp: known_def)
  then have "\<exists>v. dict_get ?T (the (or_else ?e (Some ''low''))) = Inr v \<and> v \<in> snd ` set ?T"
    by (rule known_or_else) (auto simp: OPENROUTER_REASONING_EFFORT_RATIOS_def)
  then have "\<exists>n. ceil_ratio ?T (the (or_else ?e (Some ''low''))) (max_output_tokens p) = Inr n \<and> 0 \<le> n"
    by (rule ceil_ratio_ok [OF _ table_values_nonneg(3)]) (use assms(1) in \<open>simp_all add: parameters_ok_def\<close>)
  moreover have "0 \<le> the ?m" if t: "truthy_int ?m"
  proof -
    show ?thesis
    proof (cases profile)
      case (Some pr)
      then obtain n where "or_max_tokens pr = Some n" using t by (cases "or_max_tokens pr") auto
      then show ?thesis using assms(2) Some by (simp add: nonneg_budget_def)
    qed (use t in simp)
  qed
  ultimately show ?thesis by (auto simp: estimate_openrouter_reasoning_tokens_def)
qed

lemma profile_ok:
  assumes "\<forall>d. ps = Some d \<longrightarrow> list_all (\<lambda>(k, p). P p) d" "resolve_profile ps dflt n = Some pr"
  shows "P pr"
  using resolve_profile_in [OF assms(2)] assms(1) by (auto simp: list_all_iff)

lemma estimate_ok:
  assumes "parameters_ok p" "config_profiles_ok c"
  shows "\<exists>n. estimate_reasoning_tokens c p name = Inr n \<and> 0 \<le> n"
proof (cases "config_class c")
  case (OpenAIModelConfig ps)
  with assms(2) have "\<forall>d. ps = Some d \<longrightarrow> list_all (\<lambda>(k, p). known OPENAI_REASONING_TOKEN_ESTIMATES (oa_effort p)) d"
    by (simp add: config_profiles_ok_def)
  from openai_estimate_ok [OF assms(1)] profile_ok [OF this] OpenAIModelConfig show ?thesis
    by (simp add: estimate_reasoning_tokens_def)
next
  case (AnthropicModelConfig ps)
  with assms(2) have "\<forall>d. ps = Some d \<longrightarrow> list_all (\<lambda>(k, p). nonneg_budget (an_budget p) \<and>
      known ANTHROPIC_ADAPTIVE_THINKING_EFFORT_RATIOS (an_effort p)) d"
    by (simp add: config_profiles_ok_def)
  from anthropic_estimate_ok [OF assms(1)] profile_ok [OF this] AnthropicModelConfig show ?thesis
    by (simp add: estimate_reasoning_tokens_def)
next
  case (GoogleModelConfig ps)
  with assms(2) have "\<forall>d. ps = Some d \<longrightarrow> list_all (\<lambda>(k, p). known GOOGLE_THINKING_LEVEL_TOKEN_ESTIMATES (go_level p)) d"
    by (simp add: config_profiles_ok_def)
  from google_estimate_ok profile_ok [OF this] GoogleModelConfig show ?thesis
    by (simp add: estimate_reasoning_tokens_def)
next
  case (OpenRouterModelConfig ps)
  with assms(2) have "\<forall>d. ps = Some d \<longrightarrow> list_all (\<lambda>(k, p). nonneg_budget (or_max_tokens p) \<and>
      known OPENROUTER_REASONING_EFFORT_RATIOS (or_effort p)) d"
    by (simp add: config_profiles_ok_def)
  from openrouter_estimate_ok [OF assms(1)] profile_ok [OF this] OpenRouterModelConfig show ?thesis
    by (simp add: estimate_reasoning_tokens_def)
qed (simp add: estimate_reasoning_tokens_def)

text \<open>Fetching succeeds with a configured model, or raises a ValidationError.\<close>

lemma fetch_Inr:
  "fetch_model_and_completion_parameters a ss = Inr (c, prov, params) \<Longrightarrow>
   \<exists>lm. language_models ss = Some lm \<and> c \<in> snd ` set (model_configs lm) \<and>
        prov = provider_of_config c \<and> params = completion_catalog ss prov (model_name c)"
  by (auto simp: fetch_model_and_completion_parameters_def Let_def split: option.splits
      dest!: map_of_SomeD intro: rev_image_eqI)

lemma fetch_Inl: "fetch_model_and_completion_parameters a ss = Inl e \<Longrightarrow> e = ValidationError"
  by (auto simp: fetch_model_and_completion_parameters_def Let_def split: option.splits)

definition session_ok :: "SessionState \<Rightarrow> bool" where
  "session_ok ss \<longleftrightarrow>
     (\<forall>lm. language_models ss = Some lm \<longrightarrow>
        list_all (\<lambda>(k, c). config_profiles_ok c \<and>
          (\<exists>p. completion_catalog ss (provider_of_config c) (model_name c) = Some p \<and> parameters_ok p))
          (model_configs lm))"

lemma session_ok_fetch:
  assumes "session_ok ss" "fetch_model_and_completion_parameters a ss = Inr (c, prov, params)"
  shows "config_profiles_ok c" "\<exists>p. params = Some p \<and> parameters_ok p"
proof -
  obtain lm where lm: "language_models ss = Some lm" "c \<in> snd ` set (model_configs lm)"
    "params = completion_catalog ss (provider_of_config c) (model_name c)"
    using fetch_Inr [OF assms(2)] by blast
  with assms(1) show "config_profiles_ok c" "\<exists>p. params = Some p \<and> parameters_ok p"
    by (auto simp: session_ok_def list_all_iff)
qed

lemma split_at_dot:
  "CHR ''.'' \<notin> set name \<Longrightarrow>
   takeWhile (\<lambda>c. c \<noteq> CHR ''.'') (name @ CHR ''.'' # rest) = name \<and>
   dropWhile (\<lambda>c. c \<noteq> CHR ''.'') (name @ CHR ''.'' # rest) = CHR ''.'' # rest"
  by (induction name) auto

section \<open>Properties\<close>

text \<open>Output budgets: a check that returns a provider limit has kept the visible budget the
  caller asked for, returns a limit between that budget and the model's maximum (when the
  estimate is not negative), and reserves the whole estimate on top of it unless reasoning
  shares the window; it raises exactly when the budget, or the budget with its reservation,
  is above the maximum, and then a ValidationError.\<close>

theorem output_limit_keeps_visible_budget:
  assumes "0 \<le> estimated"
  shows "case validate_effective_output_token_limit model_max (Some req) estimated shares of
           Inr out \<Rightarrow> req \<le> model_max \<and> (\<exists>n. out = Some n \<and> req \<le> n \<and> n \<le> model_max \<and>
                        (\<not> shares \<longrightarrow> n = req + estimated))
         | Inl e \<Rightarrow> e = ValidationError \<and>
                    (req > model_max \<or> \<not> shares \<and> req + estimated > model_max)"
  using assms
  by (auto simp: validate_effective_output_token_limit_def Let_def)

theorem output_limit_keeps_visible_budget_witness:
  "validate_effective_output_token_limit 8000 (Some 4000) 4096 False = Inl ValidationError"
  using output_limit_keeps_visible_budget [of 4096 8000 4000 False]
  by (auto simp: validate_effective_output_token_limit_def)

text \<open>C30. For a session whose profiles name known efforts and levels and whose configured models
  are in the catalog, checking completion parameters raises nothing but ValidationError, and
  when it passes the configured model was found, the temperature is within the model's range
  and the requested tokens, with the reasoning estimate unless it shares the window, fit the
  model's output limit.\<close>

theorem completion_parameters_checked:
  assumes "session_ok ss"
  shows "case validate_completion_parameters a ss temperature max_tokens of
           Inl e \<Rightarrow> e = ValidationError
         | Inr _ \<Rightarrow> (\<exists>c prov p. fetch_model_and_completion_parameters a ss = Inr (c, prov, Some p) \<and>
             (\<forall>t. temperature = Some t \<longrightarrow> 0 \<le> t \<and> t \<le> max_temperature p) \<and>
             (\<forall>n. max_tokens = Some n \<longrightarrow> n \<le> max_output_tokens p \<and>
                (\<exists>est. estimate_reasoning_tokens c p (case a of None \<Rightarrow> None | Some al \<Rightarrow> alias_profile al) = Inr est \<and>
                   (reasoning_shares_output_window c p (case a of None \<Rightarrow> None | Some al \<Rightarrow> alias_profile al) \<or>
                    n + est \<le> max_output_tokens p))))"
proof (cases "fetch_model_and_completion_parameters a ss")
  case (Inl e)
  then show ?thesis by (simp add: validate_completion_parameters_def fetch_Inl)
next
  case (Inr r)
  obtain c prov params where r: "r = (c, prov, params)" by (cases r)
  obtain p where p: "params = Some p" "parameters_ok p" and c: "config_profiles_ok c"
    using session_ok_fetch [OF assms Inr [unfolded r]] by blast
  obtain est where est:
    "estimate_reasoning_tokens c p (case a of None \<Rightarrow> None | Some al \<Rightarrow> alias_profile al) = Inr est" "0 \<le> est"
    using estimate_ok [OF p(2) c] by blast
  have fetch: "fetch_model_and_completion_parameters a ss = Inr (c, prov, Some p)"
    using Inr r p(1) by simp
  show ?thesis
    unfolding validate_completion_parameters_def fetch bind_res_simps prod.case Let_def option.case
    using est
    by (cases max_tokens; cases temperature)
      (auto simp: validate_effective_output_token_limit_def Let_def raise_if_def split: if_splits)
qed

definition example_session :: SessionState where
  "example_session =
     \<lparr>language_models = Some \<lparr>model_configs =
        [(''mini'', \<lparr>config_class = OpenAIModelConfig (Some [(''deep'', OpenAIProfile (Some ''low'') None)]),
                    model_name = ''gpt'', model_provider = OPENAI, default_profile = None,
                    model_limits = TokenLimit 500 200000, config_base_url = None\<rparr>)],
        default_model = ''mini''\<rparr>,
      embedding_models = None,
      completion_catalog = (\<lambda>_ _. Some \<lparr>max_output_tokens = 16000, max_temperature = 2,
        supports_reasoning = True, supports_minimal_reasoning = False,
        supports_disabled_reasoning = False, default_reasoning_effort = None,
        supported_thinking_levels = None, uses_adaptive_thinking = False,
        supports_pdf_parsing = False\<rparr>),
      embedding_catalog = (\<lambda>_ _. None)\<rparr>"

lemma example_session_ok: "session_ok example_session"
  by (simp add: session_ok_def example_session_def config_profiles_ok_def parameters_ok_def known_def
      OPENAI_REASONING_TOKEN_ESTIMATES_def)

theorem completion_parameters_checked_witness:
  "validate_completion_parameters (Some \<lparr>alias_name = ''mini'', alias_profile = Some ''deep''\<rparr>)
     example_session (Some 1) (Some 14000) = Inl ValidationError"
proof -
  let ?r = "validate_completion_parameters (Some \<lparr>alias_name = ''mini'', alias_profile = Some ''deep''\<rparr>)
     example_session (Some 1) (Some 14000)"
  have "?r \<noteq> Inr ()"
    by (simp add: example_session_def validate_completion_parameters_def
        fetch_model_and_completion_parameters_def estimate_reasoning_tokens_def resolve_profile_def
        or_else_def estimate_openai_reasoning_tokens_def resolve_openai_reasoning_effort_def
        dict_get_def OPENAI_REASONING_TOKEN_ESTIMATES_def reasoning_shares_output_window_def
        validate_effective_output_token_limit_def Let_def)
  then show ?thesis
    using completion_parameters_checked [OF example_session_ok,
        of "Some \<lparr>alias_name = ''mini'', alias_profile = Some ''deep''\<rparr>" "Some 1" "Some 14000"]
    by (cases ?r) auto
qed

text \<open>Splitting a model alias at its first dot undoes joining a dot-free model name and any
  profile name with a dot, and an alias without a dot has no profile.\<close>

theorem parse_model_alias_roundtrip:
  assumes "CHR ''.'' \<notin> set name"
  shows "parse_model_alias (name @ ''.'' @ profile) = (name, Some profile) \<and>
         parse_model_alias name = (name, None)"
  using assms split_at_dot [OF assms, of profile] by (simp add: parse_model_alias_def)

theorem parse_model_alias_roundtrip_witness:
  "parse_model_alias ''gpt.v1.fast'' = (''gpt'', Some ''v1.fast'')"
  using parse_model_alias_roundtrip [of "''gpt''" "''v1.fast''"] by simp

end
