(* ===== verification/TemplateFormat.thy ===== *)
theory TemplateFormat
  imports DataTypes
begin

text \<open>
  The template language of text extraction (\<open>ParsedTemplateFormat\<close> and \<open>EscapingRule\<close> of
  \<^verbatim>\<open>src/fenic/core/_logical_plan/expressions/text.py\<close>): tokens, the parser, and the
  struct type a template extracts.  Strings are lists of 8-bit characters, on which Python's
  upper case is written out.  The lemmas show the shape of a parsed
  template and that parsing inverts writing a template out.
\<close>

section \<open>Characters\<close>

definition ascii_upper :: "char \<Rightarrow> char" where
  "ascii_upper c =
     (let n = (of_char c :: nat) in if 97 \<le> n \<and> n \<le> 122 then char_of (n - 32) else c)"

section \<open>Escaping rules and tokens\<close>

datatype EscapingRule = NONE | CSV | JSON | REGEX | QUOTED | QUALIFIED

definition escaping_members :: "(string, EscapingRule) dict" where
  "escaping_members = [(''NONE'', NONE), (''CSV'', CSV), (''JSON'', JSON), (''REGEX'', REGEX),
     (''QUOTED'', QUOTED), (''QUALIFIED'', QUALIFIED)]"

definition escaping_from_string :: "string \<Rightarrow> EscapingRule res" where
  "escaping_from_string s =
     (case map_of escaping_members (map ascii_upper s) of
        None \<Rightarrow> Inl PyValueError | Some r \<Rightarrow> Inr r)"

datatype TemplateToken = DELIMITER string | COLUMN string

record ParsedTemplateFormat =
  delimiters :: "string list"
  escaping_rules :: "EscapingRule list"
  template_columns :: "string list"

section \<open>Parsing\<close>

text \<open>The text left of the position is dropped as the loop advances; \<open>find\<close> is a split.\<close>

function tokenize :: "string \<Rightarrow> TemplateToken list res" where
  "tokenize s =
     (if s = [] then Inr []
      else
        (let before = takeWhile (\<lambda>c. c \<noteq> CHR ''$'') s;
             from_dollar = dropWhile (\<lambda>c. c \<noteq> CHR ''$'') s;
             tokens = (if before = [] then [] else [DELIMITER before])
         in case from_dollar of
              [] \<Rightarrow> Inr [DELIMITER s]
            | _ # [] \<Rightarrow> Inl PyValueError
            | _ # next_char # rest \<Rightarrow>
                if next_char = CHR ''$'' then
                  bind_res (tokenize rest) (\<lambda>ts. Inr (tokens @ DELIMITER ''$'' # ts))
                else if next_char = CHR 0x7B then
                  (case dropWhile (\<lambda>c. c \<noteq> CHR 0x7D) rest of
                     [] \<Rightarrow> Inl PyValueError
                   | _ # after_brace \<Rightarrow>
                       bind_res (tokenize after_brace)
                         (\<lambda>ts. Inr (tokens @ COLUMN (takeWhile (\<lambda>c. c \<noteq> CHR 0x7D) rest) # ts)))
                else Inl PyValueError))"
  by pat_completeness auto

lemma length_dropWhile_Cons: "x # r = dropWhile P s \<Longrightarrow> length r < length s"
  using length_dropWhile_le [of P s] by (metis Suc_le_eq length_Cons)

termination tokenize
proof (relation "measure length", goal_cases)
  case (2 s before from_dollar tokens x r c rest)
  from 2 have "x # c # rest = dropWhile (\<lambda>c. c \<noteq> CHR ''$'') s" by simp
  then show ?case by (auto dest: length_dropWhile_Cons)
next
  case (3 s before from_dollar tokens x r c rest y after_brace)
  then have "x # c # rest = dropWhile (\<lambda>c. c \<noteq> CHR ''$'') s"
    "y # after_brace = dropWhile (\<lambda>c. c \<noteq> CHR 0x7D) rest" by simp_all
  from this [THEN length_dropWhile_Cons] show ?case by simp
qed simp

declare tokenize.simps [simp del]

text \<open>A column token, \<open>name\<close> or \<open>name:rule\<close>.\<close>

definition process_column_token ::
  "string \<Rightarrow> ParsedTemplateFormat \<Rightarrow> ParsedTemplateFormat res" where
  "process_column_token content f =
     (let name = py_strip (takeWhile (\<lambda>c. c \<noteq> CHR '':'') content)
      in bind_res
           (if CHR '':'' \<in> set content
            then escaping_from_string (py_strip (tl (dropWhile (\<lambda>c. c \<noteq> CHR '':'') content)))
            else Inr NONE) (\<lambda>rule.
         bind_res (raise_if (name = []) PyValueError) (\<lambda>_.
           Inr (f \<lparr>template_columns := template_columns f @ [name],
                   escaping_rules := escaping_rules f @ [rule]\<rparr>))))"

definition extend_last :: "string \<Rightarrow> string list \<Rightarrow> string list" where
  "extend_last content ds = butlast ds @ [last ds @ content]"

fun process_token :: "TemplateToken \<Rightarrow> ParsedTemplateFormat \<Rightarrow> ParsedTemplateFormat res" where
  "process_token (DELIMITER content) f =
     Inr (f \<lparr>delimiters := extend_last content (delimiters f)\<rparr>)"
| "process_token (COLUMN content) f =
     bind_res (process_column_token content f) (\<lambda>f'.
       Inr (f' \<lparr>delimiters := delimiters f' @ ['''']\<rparr>))"

fun process_tokens :: "TemplateToken list \<Rightarrow> ParsedTemplateFormat \<Rightarrow> ParsedTemplateFormat res" where
  "process_tokens [] f = Inr f"
| "process_tokens (t # ts) f = bind_res (process_token t f) (process_tokens ts)"

definition empty_format :: ParsedTemplateFormat where
  "empty_format = \<lparr>delimiters = [''''], escaping_rules = [], template_columns = []\<rparr>"

definition parse_template :: "string \<Rightarrow> ParsedTemplateFormat res" where
  "parse_template s =
     (case bind_res (tokenize s) (\<lambda>ts. process_tokens ts empty_format) of
        Inl e \<Rightarrow> Inl (if isinstance_exn e PyValueError then ValidationError else e)
      | Inr f \<Rightarrow> Inr f)"

definition to_struct_schema :: "ParsedTemplateFormat \<Rightarrow> DataType" where
  "to_struct_schema f =
     StructType (map (\<lambda>(col, rule). StructField col (if rule = JSON then JsonType else StringType))
       (zip (template_columns f) (escaping_rules f)))"

section \<open>The shape of a parsed template\<close>

definition format_shape :: "ParsedTemplateFormat \<Rightarrow> bool" where
  "format_shape f \<longleftrightarrow>
     length (delimiters f) = Suc (length (template_columns f)) \<and>
     length (escaping_rules f) = length (template_columns f) \<and>
     (\<forall>c \<in> set (template_columns f). c \<noteq> [] \<and> stripped c)"

lemma process_tokens_shape:
  "format_shape f \<Longrightarrow> process_tokens ts f = Inr f' \<Longrightarrow> format_shape f'"
proof (induction ts arbitrary: f)
  case (Cons t ts)
  then obtain g where g: "process_token t f = Inr g" "process_tokens ts g = Inr f'" by auto
  have "format_shape g"
  proof (cases t)
    case (DELIMITER content)
    with g Cons.prems show ?thesis by (auto simp: format_shape_def extend_last_def)
  next
    case (COLUMN content)
    then obtain h where h: "process_column_token content f = Inr h" "g = h \<lparr>delimiters := delimiters h @ ['''']\<rparr>"
      using g by auto
    then obtain rule where "py_strip (takeWhile (\<lambda>c. c \<noteq> CHR '':'') content) \<noteq> []"
      "h = f \<lparr>template_columns := template_columns f @ [py_strip (takeWhile (\<lambda>c. c \<noteq> CHR '':'') content)],
             escaping_rules := escaping_rules f @ [rule]\<rparr>"
      by (auto simp only: process_column_token_def Let_def bind_res_Inr_iff raise_if_simps sum.inject)
    with h(2) Cons.prems(1) show ?thesis by (auto simp: format_shape_def stripped_py_strip)
  qed
  with Cons.IH g(2) show ?case by blast
qed auto

lemma process_tokens_append:
  "process_tokens (ts @ us) f = bind_res (process_tokens ts f) (process_tokens us)"
  by (induction ts arbitrary: f) (auto simp: bind_res_def split: sum.splits)

lemma tokenize_error: "tokenize s = Inl e \<Longrightarrow> e = PyValueError"
proof (induction s rule: tokenize.induct)
  case (1 s)
  from "1.prems" show ?case
    by (subst (asm) tokenize.simps)
      (auto simp: Let_def bind_res_Inl_iff dest: "1.IH" split: if_splits list.splits)
qed

lemma process_tokens_error: "process_tokens ts f = Inl e \<Longrightarrow> e = PyValueError"
proof (induction ts arbitrary: f)
  case (Cons t ts)
  have "process_token t f = Inl e \<Longrightarrow> e = PyValueError"
    by (cases t) (auto simp: process_column_token_def Let_def bind_res_Inl_iff escaping_from_string_def
        split: if_splits option.splits)
  with Cons show ?case by (auto simp: bind_res_Inl_iff)
qed auto

section \<open>Writing a template\<close>

text \<open>A template written out from its parts: dollars of the text doubled, every rule named.\<close>

definition escape_dollar :: "string \<Rightarrow> string" where
  "escape_dollar s = concat (map (\<lambda>c. if c = CHR ''$'' then ''$$'' else [c]) s)"

definition rule_text :: "EscapingRule \<Rightarrow> string" where
  "rule_text r =
     (case r of NONE \<Rightarrow> ''none'' | CSV \<Rightarrow> ''csv'' | JSON \<Rightarrow> ''json'' | REGEX \<Rightarrow> ''regex''
      | QUOTED \<Rightarrow> ''quoted'' | QUALIFIED \<Rightarrow> ''qualified'')"

definition write_column :: "string \<Rightarrow> EscapingRule \<Rightarrow> string" where
  "write_column c r = [CHR ''$'', CHR 0x7B] @ c @ '':'' @ rule_text r @ [CHR 0x7D]"

fun write_rest :: "(string \<times> EscapingRule \<times> string) list \<Rightarrow> string" where
  "write_rest [] = ''''"
| "write_rest ((c, r, d) # rest) = write_column c r @ escape_dollar d @ write_rest rest"

definition column_ok :: "string \<Rightarrow> bool" where
  "column_ok c \<longleftrightarrow> c \<noteq> [] \<and> stripped c \<and> CHR '':'' \<notin> set c \<and> CHR 0x7D \<notin> set c"

lemma rule_text_chars: "CHR 0x7D \<notin> set (rule_text r)"
  by (cases r) (simp_all add: rule_text_def)

lemma rule_text_parse: "escaping_from_string (py_strip (rule_text r)) = Inr r"
  by (cases r; hypsubst; code_simp)

lemma escape_dollar_simps [simp]:
  "escape_dollar [] = []"
  "escape_dollar (c # s) = (if c = CHR ''$'' then ''$$'' else [c]) @ escape_dollar s"
  by (simp_all add: escape_dollar_def)

text \<open>The tokens of the rest of a text, run from a state; a text in front extends the last delimiter.\<close>

definition run :: "string \<Rightarrow> ParsedTemplateFormat \<Rightarrow> ParsedTemplateFormat res" where
  "run s f = bind_res (tokenize s) (\<lambda>ts. process_tokens ts f)"

definition add_text :: "string \<Rightarrow> ParsedTemplateFormat \<Rightarrow> ParsedTemplateFormat" where
  "add_text s f = f \<lparr>delimiters := extend_last s (delimiters f)\<rparr>"

lemma add_text_add_text [simp]: "add_text t (add_text s f) = add_text (s @ t) f"
  by (simp add: add_text_def extend_last_def)

lemma add_text_Nil: "delimiters f \<noteq> [] \<Longrightarrow> add_text [] f = f"
  by (simp add: add_text_def extend_last_def)

lemma process_token_text: "process_token (DELIMITER s) f = Inr (add_text s f)"
  by (simp add: add_text_def)

lemma delimiters_add_text [simp]: "delimiters (add_text s f) \<noteq> []"
  by (simp add: add_text_def extend_last_def)

lemma run_Nil: "run [] f = Inr f"
  by (simp add: run_def tokenize.simps)

lemma run_dollar: "run (CHR ''$'' # CHR ''$'' # s) f = run s (add_text ''$'' f)"
  unfolding run_def
  by (subst tokenize.simps) (simp add: bind_res_def process_token_text del: process_token.simps split: sum.split)

lemma run_error: "run s f = Inl e \<Longrightarrow> e = PyValueError"
  by (auto simp: run_def bind_res_Inl_iff dest: tokenize_error process_tokens_error)

lemma run_column:
  assumes "CHR 0x7D \<notin> set content"
  shows "run (CHR ''$'' # CHR 0x7B # content @ CHR 0x7D # s) f =
    bind_res (process_token (COLUMN content) f) (run s)"
proof -
  have w: "takeWhile (\<lambda>c. c \<noteq> CHR 0x7D) (content @ CHR 0x7D # s) = content"
    "dropWhile (\<lambda>c. c \<noteq> CHR 0x7D) (content @ CHR 0x7D # s) = CHR 0x7D # s"
    using assms by (auto simp: takeWhile_append dropWhile_append)
  have "run (CHR ''$'' # CHR 0x7B # content @ CHR 0x7D # s) f =
    bind_res (tokenize s) (\<lambda>ts. bind_res (process_token (COLUMN content) f) (process_tokens ts))"
    unfolding run_def
    by (subst tokenize.simps) (simp add: w bind_res_def del: process_token.simps split: sum.split)
  also have "\<dots> = bind_res (process_token (COLUMN content) f) (run s)"
  proof (cases "process_token (COLUMN content) f")
    case (Inl e)
    then have "e = PyValueError"
      using process_tokens_error [of "[COLUMN content]" f e] by simp
    then show ?thesis
      using Inl tokenize_error [of s] by (cases "tokenize s") (simp_all del: process_token.simps)
  qed (simp add: run_def del: process_token.simps)
  finally show ?thesis .
qed

text \<open>A plain character in front of a text joins the delimiter, however the text is cut into tokens.\<close>

lemma process_tokens_delimiter:
  "process_tokens (DELIMITER x # ts) f = process_tokens ts (add_text x f)"
  by (simp add: add_text_def)

lemma run_split:
  assumes "delimiters f \<noteq> []"
  shows "run s f = run (dropWhile (\<lambda>c. c \<noteq> CHR ''$'') s) (add_text (takeWhile (\<lambda>c. c \<noteq> CHR ''$'') s) f)"
proof -
  let ?b = "takeWhile (\<lambda>c. c \<noteq> CHR ''$'') s"
  show ?thesis
  proof (cases "dropWhile (\<lambda>c. c \<noteq> CHR ''$'') s")
    case Nil
    then have s: "?b = s" using takeWhile_dropWhile_id [of "\<lambda>c. c \<noteq> CHR ''$''" s] by simp
    show ?thesis
    proof (cases "s = []")
      case False
      then have "run s f = process_tokens [DELIMITER s] f"
        unfolding run_def by (subst tokenize.simps) (simp add: Nil)
      then show ?thesis by (simp add: Nil s run_Nil process_tokens_delimiter del: process_tokens.simps(2))
    qed (use assms in \<open>simp add: run_Nil add_text_Nil\<close>)
  next
    case (Cons x rest)
    then have x: "x = CHR ''$''" by (auto simp: dropWhile_eq_Cons_conv)
    have s: "s = ?b @ CHR ''$'' # rest"
      using takeWhile_dropWhile_id [of "\<lambda>c. c \<noteq> CHR ''$''" s] Cons x by simp
    define b where "b = ?b"
    have b: "CHR ''$'' \<notin> set b" unfolding b_def using set_takeWhileD by fastforce
    have tw: "takeWhile (\<lambda>c. c \<noteq> CHR ''$'') (b @ CHR ''$'' # rest) = b"
      "dropWhile (\<lambda>c. c \<noteq> CHR ''$'') (b @ CHR ''$'' # rest) = CHR ''$'' # rest"
      using b by (auto simp: takeWhile_append dropWhile_append)
    have pt: "process_tokens ((if b = [] then [] else [DELIMITER b]) @ ts) f =
        process_tokens ts (add_text b f)" for ts
      using assms by (simp add: process_tokens_delimiter add_text_Nil del: process_tokens.simps(2))
    have tok: "tokenize (b @ CHR ''$'' # rest) =
        bind_res (tokenize (CHR ''$'' # rest)) (\<lambda>ts. Inr ((if b = [] then [] else [DELIMITER b]) @ ts))"
      by (subst (1 2) tokenize.simps)
        (simp add: tw bind_res_def del: dropWhile_eq_Nil_conv split: list.split sum.split)
    have "run (b @ CHR ''$'' # rest) f = run (CHR ''$'' # rest) (add_text b f)"
      unfolding run_def tok by (cases "tokenize (CHR ''$'' # rest)") (simp_all only: bind_res_simps pt)
    then show ?thesis using Cons x s by (simp add: b_def)
  qed
qed

lemma run_plain:
  assumes "c \<noteq> CHR ''$''" "delimiters f \<noteq> []"
  shows "run (c # s) f = run s (add_text [c] f)"
  using assms by (subst (1 2) run_split) simp_all

lemma run_text:
  "delimiters f \<noteq> [] \<Longrightarrow> run (escape_dollar d @ s) f = run s (add_text d f)"
proof (induction d arbitrary: f)
  case (Cons c d)
  then show ?case by (cases "c = CHR ''$''") (simp_all add: run_dollar run_plain)
qed (simp add: add_text_Nil)

section \<open>Parsing inverts writing\<close>

definition add_column :: "string \<Rightarrow> EscapingRule \<Rightarrow> ParsedTemplateFormat \<Rightarrow> ParsedTemplateFormat" where
  "add_column c r f = \<lparr>delimiters = delimiters f @ [''''], escaping_rules = escaping_rules f @ [r],
     template_columns = template_columns f @ [c]\<rparr>"

lemma process_written_column:
  assumes "column_ok c"
  shows "process_token (COLUMN (c @ '':'' @ rule_text r)) f = Inr (add_column c r f)"
proof -
  have "takeWhile (\<lambda>x. x \<noteq> CHR '':'') (c @ CHR '':'' # t) = c"
    "dropWhile (\<lambda>x. x \<noteq> CHR '':'') (c @ CHR '':'' # t) = CHR '':'' # t" for t
    using assms by (auto simp: column_ok_def takeWhile_append dropWhile_append)
  then show ?thesis
    using assms by (simp add: process_column_token_def Let_def rule_text_parse py_strip_stripped
        column_ok_def add_column_def)
qed

lemma run_write_column:
  assumes "column_ok c"
  shows "run (write_column c r @ s) f = run s (add_column c r f)"
proof -
  have "CHR 0x7D \<notin> set (c @ '':'' @ rule_text r)"
    using assms rule_text_chars by (simp add: column_ok_def)
  from run_column [OF this, of s f] process_written_column [OF assms, of r f] show ?thesis
    by (simp add: write_column_def del: process_token.simps)
qed

lemma run_write_rest:
  "\<forall>(c, r, d) \<in> set rest. column_ok c \<Longrightarrow> delimiters f \<noteq> [] \<Longrightarrow>
   run (write_rest rest) f =
     Inr \<lparr>delimiters = delimiters f @ map (\<lambda>(c, r, d). d) rest,
          escaping_rules = escaping_rules f @ map (\<lambda>(c, r, d). r) rest,
          template_columns = template_columns f @ map (\<lambda>(c, r, d). c) rest\<rparr>"
proof (induction rest arbitrary: f)
  case (Cons p rest)
  obtain c r d where p: "p = (c, r, d)" by (cases p)
  have "add_text d (add_column c r f) = \<lparr>delimiters = delimiters f @ [d],
      escaping_rules = escaping_rules f @ [r], template_columns = template_columns f @ [c]\<rparr>"
    by (simp add: add_text_def add_column_def extend_last_def)
  then show ?case
    using Cons by (simp add: p run_write_column run_text add_column_def)
qed (simp add: run_Nil)

lemma parse_template_run:
  "parse_template s = (case run s empty_format of Inl e \<Rightarrow> Inl ValidationError | Inr f \<Rightarrow> Inr f)"
proof (cases "run s empty_format")
  case (Inl e)
  then have "e = PyValueError" by (rule run_error)
  with Inl show ?thesis by (simp add: parse_template_def run_def isinstance_exn.simps)
next
  case (Inr f)
  then show ?thesis unfolding parse_template_def run_def by (simp only: sum.case)
qed

text \<open>Parsing inverts writing: a template written from a leading text and columns with
  rules and following texts parses to exactly these delimiters, rules and column names, and
  the extracted struct has a field per column, of JSON type exactly for the JSON rule.\<close>

theorem template_roundtrip:
  assumes "\<forall>(c, r, d) \<in> set rest. column_ok c"
  shows "parse_template (escape_dollar d0 @ write_rest rest) =
    Inr \<lparr>delimiters = d0 # map (\<lambda>(c, r, d). d) rest, escaping_rules = map (\<lambda>(c, r, d). r) rest,
         template_columns = map (\<lambda>(c, r, d). c) rest\<rparr>"
proof -
  have "run (escape_dollar d0 @ write_rest rest) empty_format =
      run (write_rest rest) (add_text d0 empty_format)"
    by (rule run_text) (simp add: empty_format_def)
  then show ?thesis
    using assms by (simp add: parse_template_run run_write_rest)
      (simp add: add_text_def empty_format_def extend_last_def)
qed

theorem template_roundtrip_witness:
  "parse_template (escape_dollar ''$ '' @ write_rest [(''a'', CSV, ''; ''), (''b'', JSON, '''')]) =
    Inr \<lparr>delimiters = [''$ '', ''; '', ''''], escaping_rules = [CSV, JSON],
         template_columns = [''a'', ''b'']\<rparr>"
  using template_roundtrip [of "[(''a'', CSV, ''; ''), (''b'', JSON, '''')]" "''$ ''"]
  by (simp add: column_ok_def stripped_def py_space_def)

text \<open>A template either parses, with one delimiter more than it has columns, a rule per
  column and no column name empty or with white space at its ends, or raises
  ValidationError.\<close>

theorem template_shape:
  "case parse_template s of
     Inl e \<Rightarrow> e = ValidationError
   | Inr f \<Rightarrow> format_shape f"
proof (cases "run s empty_format")
  case (Inr f)
  moreover have "format_shape empty_format" by (simp add: format_shape_def empty_format_def)
  ultimately have "format_shape f" using process_tokens_shape by (auto simp: run_def)
  with Inr show ?thesis by (simp add: parse_template_run)
qed (simp add: parse_template_run)

end
