(* ===== verification/DateFormat.thy ===== *)
theory DateFormat
  imports DataTypes
begin

text \<open>
  Date patterns (\<open>_repeat_map\<close>, \<open>_java_like_to_chrono\<close> and \<open>_get_polars_duration_unit\<close> of
  \<^verbatim>\<open>src/fenic/core/_logical_plan/expressions/dt.py\<close>): the translation of a Java-like pattern
  into a strftime format.  Strings are lists of 8-bit characters.  The lemmas show that the
  translation is compositional: text, runs of letters and other characters of a pattern are
  translated one by one.
\<close>

section \<open>The code\<close>

text \<open>\<^verbatim>\<open>str.isalpha\<close> on the characters below 256.\<close>

definition py_isalpha :: "char \<Rightarrow> bool" where
  "py_isalpha c =
     (let n = (of_char c :: nat)
      in 65 \<le> n \<and> n \<le> 90 \<or> 97 \<le> n \<and> n \<le> 122 \<or> n = 170 \<or> n = 181 \<or> n = 186 \<or>
         192 \<le> n \<and> n \<le> 214 \<or> 216 \<le> n \<and> n \<le> 246 \<or> 248 \<le> n)"

abbreviation (input) quote_char :: char where
  "quote_char \<equiv> CHR 0x27"

definition repeat_map :: "char \<Rightarrow> nat \<Rightarrow> string" where
  "repeat_map ch n =
     (if ch = CHR ''y'' then (if 3 \<le> n then ''%Y'' else ''%y'')
      else if ch = CHR ''M'' then
        (if n = 1 then ''%-m'' else if n = 2 then ''%m'' else if n = 3 then ''%b'' else ''%B'')
      else if ch = CHR ''d'' then (if n = 1 then ''%-d'' else ''%d'')
      else if ch = CHR ''H'' then (if n = 1 then ''%-H'' else ''%H'')
      else if ch = CHR ''h'' then (if n = 1 then ''%-I'' else ''%I'')
      else if ch = CHR ''m'' then (if n = 1 then ''%-M'' else ''%M'')
      else if ch = CHR ''s'' then (if n = 1 then ''%-S'' else ''%S'')
      else if ch = CHR ''S'' \<or> ch = CHR ''f'' then ''%'' @ str_nat n @ ''f''
      else if ch = CHR ''E'' then (if 4 \<le> n then ''%A'' else ''%a'')
      else if ch = CHR ''a'' then ''%p''
      else if ch = CHR ''Z'' then ''%z''
      else if ch = CHR ''X'' then (if 3 \<le> n then ''%:z'' else ''%z'')
      else if ch = CHR ''V'' then ''%Z''
      else if ch = CHR ''z'' then ''%Z''
      else if ch = CHR ''Q'' then replicate n CHR ''Q''
      else replicate n ch)"

text \<open>The literal after an opening quote, and what follows its closing quote.\<close>

fun quoted_literal :: "string \<Rightarrow> string \<times> string" where
  "quoted_literal [] = ([], [])"
| "quoted_literal (c # s) =
     (if c = quote_char then
        (case s of
           [] \<Rightarrow> ([], [])
         | c' # s' \<Rightarrow>
             if c' = quote_char then (let (lit, rest) = quoted_literal s' in (quote_char # lit, rest))
             else ([], s))
      else (let (lit, rest) = quoted_literal s in (c # lit, rest)))"

datatype FormatToken = LIT string | PAT string

lemma quoted_literal_shorter: "length (snd (quoted_literal s)) \<le> length s"
proof (induction s rule: quoted_literal.induct)
  case (2 c s)
  show ?case
  proof (cases "c = quote_char")
    case True
    with 2(1) show ?thesis by (cases s) (auto simp: case_prod_beta le_Suc_eq)
  next
    case False
    with 2(2) show ?thesis by (simp add: case_prod_beta)
  qed
qed simp

function java_tokens :: "string \<Rightarrow> FormatToken list" where
  "java_tokens s =
     (case s of
        [] \<Rightarrow> []
      | c # r \<Rightarrow>
          if c = quote_char then LIT (fst (quoted_literal r)) # java_tokens (snd (quoted_literal r))
          else PAT (takeWhile (\<lambda>x. x \<noteq> quote_char) s) # java_tokens (dropWhile (\<lambda>x. x \<noteq> quote_char) s))"
  by pat_completeness auto
termination java_tokens
proof (relation "measure length", goal_cases)
  case (2 s c r)
  then show ?case using quoted_literal_shorter [of r] by (simp add: less_Suc_eq_le)
next
  case (3 s c r)
  then have "length (dropWhile (\<lambda>x. x \<noteq> quote_char) s) \<le> length r"
    using length_dropWhile_le [of "\<lambda>x. x \<noteq> quote_char" r] by simp
  with 3 show ?case by (simp add: less_Suc_eq_le)
qed simp

declare java_tokens.simps [simp del]

function map_segment :: "string \<Rightarrow> string" where
  "map_segment seg =
     (case seg of
        [] \<Rightarrow> []
      | ch # r \<Rightarrow>
          if py_isalpha ch
          then repeat_map ch (Suc (length (takeWhile (\<lambda>x. x = ch) r))) @
               map_segment (dropWhile (\<lambda>x. x = ch) r)
          else ch # map_segment r)"
  by pat_completeness auto
termination map_segment
  by (relation "measure length") (simp_all add: less_Suc_eq_le length_dropWhile_le)

declare map_segment.simps [simp del]

definition escape_percent :: "string \<Rightarrow> string" where
  "escape_percent s = concat (map (\<lambda>c. if c = CHR ''%'' then ''%%'' else [c]) s)"

fun token_format :: "FormatToken \<Rightarrow> string" where
  "token_format (LIT v) = escape_percent v"
| "token_format (PAT v) = map_segment v"

definition java_like_to_chrono :: "string \<Rightarrow> string" where
  "java_like_to_chrono pattern = concat (map token_format (java_tokens pattern))"

definition POLARS_DURATION_UNITS_MAP :: "(string, string) dict" where
  "POLARS_DURATION_UNITS_MAP = [(''year'', ''y''), (''month'', ''mo''), (''day'', ''d''),
     (''hour'', ''h''), (''minute'', ''m''), (''second'', ''s''), (''millisecond'', ''ms'')]"

definition get_polars_duration_unit :: "string \<Rightarrow> string res" where
  "get_polars_duration_unit u =
     (case map_of POLARS_DURATION_UNITS_MAP u of None \<Rightarrow> Inl PyValueError | Some p \<Rightarrow> Inr p)"

section \<open>Patterns written from their parts\<close>

text \<open>
  A part is quoted text, a run of a letter, or another character; parts are well separated
  when no two texts and no two runs of one letter are adjacent.
\<close>

datatype FormatPart = Text string | Letters char nat | Symbol char

fun write_part :: "FormatPart \<Rightarrow> string" where
  "write_part (Text s) =
     quote_char # concat (map (\<lambda>c. if c = quote_char then [quote_char, quote_char] else [c]) s) @ [quote_char]"
| "write_part (Letters ch n) = replicate n ch"
| "write_part (Symbol ch) = [ch]"

fun part_meaning :: "FormatPart \<Rightarrow> string" where
  "part_meaning (Text s) = escape_percent s"
| "part_meaning (Letters ch n) = repeat_map ch n"
| "part_meaning (Symbol ch) = [ch]"

fun part_ok :: "FormatPart \<Rightarrow> bool" where
  "part_ok (Text s) = True"
| "part_ok (Letters ch n) = (py_isalpha ch \<and> 0 < n)"
| "part_ok (Symbol ch) = (\<not> py_isalpha ch \<and> ch \<noteq> quote_char)"

fun separated :: "FormatPart list \<Rightarrow> bool" where
  "separated (Text s # Text t # ps) = False"
| "separated (Letters a m # Letters b n # ps) = (a \<noteq> b \<and> separated (Letters b n # ps))"
| "separated (p # ps) = separated ps"
| "separated [] = True"

definition is_text_part :: "FormatPart \<Rightarrow> bool" where
  "is_text_part p = (case p of Text s \<Rightarrow> True | _ \<Rightarrow> False)"

lemma isalpha_not_quote: "py_isalpha c \<Longrightarrow> c \<noteq> quote_char"
  by (auto simp: py_isalpha_def)

lemma java_quote:
  "java_like_to_chrono (quote_char # s) =
     escape_percent (fst (quoted_literal s)) @ java_like_to_chrono (snd (quoted_literal s))"
  unfolding java_like_to_chrono_def by (subst java_tokens.simps) simp

lemma java_Nil [simp]: "java_like_to_chrono [] = []"
  unfolding java_like_to_chrono_def by (subst java_tokens.simps) simp

lemma java_pattern:
  assumes "quote_char \<notin> set p" "rest = [] \<or> hd rest = quote_char"
  shows "java_like_to_chrono (p @ rest) = map_segment p @ java_like_to_chrono rest"
proof (cases p)
  case Nil
  then show ?thesis by (simp add: map_segment.simps)
next
  case (Cons c r)
  have "takeWhile (\<lambda>x. x \<noteq> quote_char) (p @ rest) = p" "dropWhile (\<lambda>x. x \<noteq> quote_char) (p @ rest) = rest"
    using assms by (cases rest; auto simp: takeWhile_append dropWhile_append)+
  moreover have "c \<noteq> quote_char" using assms Cons by auto
  ultimately show ?thesis unfolding java_like_to_chrono_def Cons
    by (subst java_tokens.simps) simp
qed

lemma quoted_literal_write:
  assumes "rest = [] \<or> hd rest \<noteq> quote_char"
  shows "quoted_literal (concat (map (\<lambda>c. if c = quote_char then [quote_char, quote_char] else [c]) s)
     @ quote_char # rest) = (s, rest)"
proof (induction s)
  case Nil
  then show ?case using assms by (cases rest) simp_all
qed simp

lemma map_segment_run:
  assumes "py_isalpha ch" "0 < n" "s = [] \<or> hd s \<noteq> ch"
  shows "map_segment (replicate n ch @ s) = repeat_map ch n @ map_segment s"
proof -
  obtain m where n: "n = Suc m" using assms(2) by (cases n) auto
  have "takeWhile (\<lambda>x. x = ch) (replicate m ch @ s) = replicate m ch"
    "dropWhile (\<lambda>x. x = ch) (replicate m ch @ s) = s"
    using assms(3) by (cases s; auto simp: takeWhile_append dropWhile_append)+
  then show ?thesis using assms(1) by (subst map_segment.simps) (simp add: n)
qed

lemma map_segment_symbol: "\<not> py_isalpha c \<Longrightarrow> map_segment (c # s) = c # map_segment s"
  by (subst map_segment.simps) simp

lemma java_split:
  "java_like_to_chrono w =
     map_segment (takeWhile (\<lambda>x. x \<noteq> quote_char) w) @ java_like_to_chrono (dropWhile (\<lambda>x. x \<noteq> quote_char) w)"
proof -
  have "quote_char \<notin> set (takeWhile (\<lambda>x. x \<noteq> quote_char) w)" by (auto dest: set_takeWhileD)
  moreover have "dropWhile (\<lambda>x. x \<noteq> quote_char) w = [] \<or> hd (dropWhile (\<lambda>x. x \<noteq> quote_char) w) = quote_char"
    using hd_dropWhile [of "\<lambda>x. x \<noteq> quote_char" w] by blast
  ultimately show ?thesis
    using java_pattern [of "takeWhile (\<lambda>x. x \<noteq> quote_char) w" "dropWhile (\<lambda>x. x \<noteq> quote_char) w"] by simp
qed

lemma java_symbol:
  assumes "\<not> py_isalpha c" "c \<noteq> quote_char"
  shows "java_like_to_chrono (c # w) = c # java_like_to_chrono w"
  using assms by (subst (1 2) java_split) (simp add: map_segment_symbol)

lemma java_letters:
  assumes "py_isalpha ch" "0 < n" "w = [] \<or> hd w \<noteq> ch"
  shows "java_like_to_chrono (replicate n ch @ w) = repeat_map ch n @ java_like_to_chrono w"
proof -
  let ?t = "takeWhile (\<lambda>x. x \<noteq> quote_char) w"
  have q: "ch \<noteq> quote_char" using assms(1) by (rule isalpha_not_quote)
  then have "takeWhile (\<lambda>x. x \<noteq> quote_char) (replicate n ch @ w) = replicate n ch @ ?t"
    "dropWhile (\<lambda>x. x \<noteq> quote_char) (replicate n ch @ w) = dropWhile (\<lambda>x. x \<noteq> quote_char) w"
    by (simp_all add: takeWhile_append dropWhile_append)
  moreover have "?t = [] \<or> hd ?t \<noteq> ch" using assms(3) by (cases w) auto
  ultimately show ?thesis
    using map_segment_run [OF assms(1, 2), of ?t] by (subst (1 2) java_split) simp
qed

lemma java_text:
  assumes "w = [] \<or> hd w \<noteq> quote_char"
  shows "java_like_to_chrono (write_part (Text s) @ w) = escape_percent s @ java_like_to_chrono w"
  using quoted_literal_write [OF assms, of s] by (simp add: java_quote)

text \<open>The first character of the next part.\<close>

lemma next_after_text:
  assumes "separated (Text s # ps)" "list_all part_ok ps"
  shows "concat (map write_part ps) = [] \<or> hd (concat (map write_part ps)) \<noteq> quote_char"
proof (cases ps)
  case (Cons p ps')
  with assms show ?thesis
    by (cases p) (auto simp: gr0_conv_Suc isalpha_not_quote)
qed simp

lemma next_after_letters:
  assumes "separated (Letters a n # ps)" "list_all part_ok ps" "py_isalpha a"
  shows "concat (map write_part ps) = [] \<or> hd (concat (map write_part ps)) \<noteq> a"
proof (cases ps)
  case (Cons p ps')
  with assms isalpha_not_quote [OF assms(3)] show ?thesis
    by (cases p) (auto simp: gr0_conv_Suc)
qed simp

lemma separated_tl: "separated (p # ps) \<Longrightarrow> separated ps"
  by (induction "p # ps" arbitrary: p ps rule: separated.induct) auto

lemma java_parts:
  "list_all part_ok ps \<Longrightarrow> separated ps \<Longrightarrow>
   java_like_to_chrono (concat (map write_part ps)) = concat (map part_meaning ps)"
proof (induction ps)
  case (Cons p ps)
  then have IH: "java_like_to_chrono (concat (map write_part ps)) = concat (map part_meaning ps)"
    using separated_tl by auto
  show ?case
  proof (cases p)
    case (Text s)
    with Cons.prems next_after_text have "java_like_to_chrono (write_part p @ concat (map write_part ps)) =
        escape_percent s @ java_like_to_chrono (concat (map write_part ps))"
      unfolding Text by (intro java_text) auto
    with IH Text show ?thesis by simp
  next
    case (Letters ch n)
    with Cons.prems next_after_letters IH show ?thesis by (auto simp: java_letters)
  next
    case (Symbol ch)
    with Cons.prems IH show ?thesis by (simp add: java_symbol)
  qed
qed simp

section \<open>Properties\<close>

text \<open>The translation of date patterns is compositional: quoted text stands for itself with
  percent signs doubled, however many quotes it contains; a run of letters for its strftime
  directive; any other character for itself.\<close>

theorem date_format_compositional:
  assumes "list_all part_ok ps" "separated ps"
  shows "java_like_to_chrono (concat (map write_part ps)) = concat (map part_meaning ps)"
  using assms by (rule java_parts)

theorem date_format_compositional_witness:
  "java_like_to_chrono (concat (map write_part
     [Letters CHR ''y'' 4, Symbol CHR ''-'', Letters CHR ''M'' 2, Text ''100% o'', Letters CHR ''S'' 3]))
   = ''%Y-%m100%% o%3f''"
proof -
  have "list_all part_ok [Letters CHR ''y'' 4, Symbol CHR ''-'', Letters CHR ''M'' 2, Text ''100% o'', Letters CHR ''S'' 3]"
    by (simp add: py_isalpha_def)
  from date_format_compositional [OF this] show ?thesis
    by (simp add: repeat_map_def escape_percent_def str_nat.simps digit_char_def) code_simp
qed

text \<open>A doubled quote outside quoted text disappears instead of standing for a quote, and a percent
  sign outside quoted text reaches the format as it is.\<close>

theorem bare_quote_pair_dropped:
  "java_like_to_chrono [CHR ''h'', quote_char, quote_char, CHR ''m''] = ''%-I%-M'' \<and>
   java_like_to_chrono ''%d'' = ''%%-d''"
  by code_simp

text \<open>Every unit of the map and no other has a duration unit, and distinct units get distinct ones.\<close>

theorem duration_units_injective:
  "get_polars_duration_unit u = Inr p \<Longrightarrow> get_polars_duration_unit v = Inr p \<Longrightarrow> u = v"
  by (auto simp: get_polars_duration_unit_def POLARS_DURATION_UNITS_MAP_def split: if_splits)

end
