(* ===== verification/TextDateClasses.thy ===== *)
theory TextDateClasses
  imports TemplateFormat DateFormat
begin

text \<open>
  The classes of text and date expressions
  (\<^verbatim>\<open>src/fenic/core/_logical_plan/expressions/text.py\<close> and \<^verbatim>\<open>dt.py\<close>): one constructor per
  class with the attributes that are not expressions, the names and the texts of the
  expressions in terms of the texts of their children, and the attributes that equality
  compares.  Their children, construction checks and typing are in the theories on
  expressions.
\<close>

section \<open>Text\<close>

datatype ChunkLengthFunction = CHARACTER | WORD | TOKEN

datatype ChunkCharacterSet = CUSTOM | ASCII | UNICODE

definition py_quoted :: "string \<Rightarrow> string" where
  "py_quoted s = [CHR 0x27] @ s @ [CHR 0x27]"

fun length_function_name :: "ChunkLengthFunction \<Rightarrow> string" where
  "length_function_name CHARACTER = ''CHARACTER''"
| "length_function_name WORD = ''WORD''"
| "length_function_name TOKEN = ''TOKEN''"

fun character_set_name :: "ChunkCharacterSet \<Rightarrow> string" where
  "character_set_name CUSTOM = ''CUSTOM''"
| "character_set_name ASCII = ''ASCII''"
| "character_set_name UNICODE = ''UNICODE''"

record TextChunkConfig =
  desired_chunk_size :: int
  chunk_overlap_percentage :: int
  chunk_length_function_name :: ChunkLengthFunction

record RecursiveTextChunkConfig = TextChunkConfig +
  chunking_character_set_name :: ChunkCharacterSet
  chunking_character_set_custom_characters :: "string list option"

text \<open>The bounds on the fields, which the model class checks when it is built.\<close>

definition chunk_bounds :: "int \<Rightarrow> int \<Rightarrow> unit res" where
  "chunk_bounds sz overlap =
     raise_if (\<not> (0 < sz \<and> 0 \<le> overlap \<and> overlap < 100)) PyValueError"

definition mk_TextChunkConfig ::
  "int \<Rightarrow> int \<Rightarrow> ChunkLengthFunction \<Rightarrow> TextChunkConfig res" where
  "mk_TextChunkConfig sz overlap fn =
     bind_res (chunk_bounds sz overlap) (\<lambda>_. Inr \<lparr>desired_chunk_size = sz,
       chunk_overlap_percentage = overlap, chunk_length_function_name = fn\<rparr>)"

definition mk_RecursiveTextChunkConfig ::
  "int \<Rightarrow> int \<Rightarrow> ChunkLengthFunction \<Rightarrow> ChunkCharacterSet \<Rightarrow> string list option \<Rightarrow>
     RecursiveTextChunkConfig res" where
  "mk_RecursiveTextChunkConfig sz overlap fn cs custom =
     bind_res (chunk_bounds sz overlap) (\<lambda>_. Inr \<lparr>desired_chunk_size = sz,
       chunk_overlap_percentage = overlap, chunk_length_function_name = fn,
       chunking_character_set_name = cs, chunking_character_set_custom_characters = custom\<rparr>)"

definition chunk_config_str :: "('a) TextChunkConfig_scheme \<Rightarrow> string" where
  "chunk_config_str c =
     ''desired_chunk_size='' @ str_int (desired_chunk_size c) @
     '' chunk_overlap_percentage='' @ str_int (chunk_overlap_percentage c) @
     '' chunk_length_function_name=<ChunkLengthFunction.'' @
     length_function_name (chunk_length_function_name c) @ '': '' @
     py_quoted (length_function_name (chunk_length_function_name c)) @ ''>''"

definition recursive_chunk_config_str :: "RecursiveTextChunkConfig \<Rightarrow> string" where
  "recursive_chunk_config_str c =
     chunk_config_str c @ '' chunking_character_set_name=<ChunkCharacterSet.'' @
     character_set_name (chunking_character_set_name c) @ '': '' @
     py_quoted (character_set_name (chunking_character_set_name c)) @
     ''> chunking_character_set_custom_characters='' @
     (case chunking_character_set_custom_characters c of
        None \<Rightarrow> ''None''
      | Some cs \<Rightarrow> ''['' @ str_join '', '' (map py_quoted cs) @ '']'')"

datatype TextFn =
    TextractExpr string ParsedTemplateFormat
  | TextChunkExpr TextChunkConfig
  | RecursiveTextChunkExpr RecursiveTextChunkConfig
  | CountTokensExpr | ConcatExpr
  | ArrayJoinExpr string
  | ContainsExpr
  | ContainsAnyExpr "string list" bool
  | RLikeExpr | LikeExpr | ILikeExpr
  | TsParseExpr string
  | StartsWithExpr | EndsWithExpr
  | RegexpSplitExpr string int
  | SplitPartExpr
  | StringCasingExpr string
  | StripCharsExpr string
  | ReplaceExpr bool
  | StrLengthExpr | ByteLengthExpr
  | FuzzyRatioExpr string | FuzzyTokenSortRatioExpr string | FuzzyTokenSetRatioExpr string
  | RegexpCountExpr | RegexpExtractExpr int | RegexpExtractAllExpr | RegexpInstrExpr
  | RegexpSubstrExpr

fun text_function_name :: "TextFn \<Rightarrow> string" where
  "text_function_name (TextractExpr _ _) = ''text.extract''"
| "text_function_name (TextChunkExpr _) = ''text.chunk''"
| "text_function_name (RecursiveTextChunkExpr _) = ''text.recursive_chunk''"
| "text_function_name CountTokensExpr = ''text.count_tokens''"
| "text_function_name ConcatExpr = ''text.concat''"
| "text_function_name (ArrayJoinExpr _) = ''text.array_join''"
| "text_function_name ContainsExpr = ''text.contains''"
| "text_function_name (ContainsAnyExpr _ _) = ''text.contains_any''"
| "text_function_name RLikeExpr = ''text.rlike''"
| "text_function_name LikeExpr = ''text.like''"
| "text_function_name ILikeExpr = ''text.ilike''"
| "text_function_name (TsParseExpr _) = ''text.parse_transcript''"
| "text_function_name StartsWithExpr = ''text.starts_with''"
| "text_function_name EndsWithExpr = ''text.ends_with''"
| "text_function_name (RegexpSplitExpr _ _) = ''text.regexp_split''"
| "text_function_name SplitPartExpr = ''text.split_part''"
| "text_function_name (StringCasingExpr _) = ''text.string_casing''"
| "text_function_name (StripCharsExpr _) = ''text.strip_chars''"
| "text_function_name (ReplaceExpr _) = ''text.replace''"
| "text_function_name StrLengthExpr = ''text.str_length''"
| "text_function_name ByteLengthExpr = ''text.byte_length''"
| "text_function_name (FuzzyRatioExpr _) = ''text.fuzzy_ratio''"
| "text_function_name (FuzzyTokenSortRatioExpr _) = ''text.fuzzy_token_sort_ratio''"
| "text_function_name (FuzzyTokenSetRatioExpr _) = ''text.fuzzy_token_set_ratio''"
| "text_function_name RegexpCountExpr = ''text.regexp_count''"
| "text_function_name (RegexpExtractExpr _) = ''text.regexp_extract''"
| "text_function_name RegexpExtractAllExpr = ''text.regexp_extract_all''"
| "text_function_name RegexpInstrExpr = ''text.regexp_instr''"
| "text_function_name RegexpSubstrExpr = ''text.regexp_substr''"

text \<open>The attributes equality compares; the format of an extraction is derived from its template.\<close>

fun text_compared :: "TextFn \<Rightarrow> TextFn" where
  "text_compared (TextractExpr template _) = TextractExpr template empty_format"
| "text_compared f = f"

definition py_bool_str :: "bool \<Rightarrow> string" where
  "py_bool_str b = (if b then ''True'' else ''False'')"

text \<open>What a class writes between the texts of its children and the closing parenthesis.\<close>

fun text_str_attributes :: "TextFn \<Rightarrow> nat \<Rightarrow> string" where
  "text_str_attributes (TextChunkExpr c) n = '', '' @ chunk_config_str c"
| "text_str_attributes (RecursiveTextChunkExpr c) n = '', '' @ recursive_chunk_config_str c"
| "text_str_attributes (ArrayJoinExpr delimiter) n = '', '' @ delimiter"
| "text_str_attributes (ContainsAnyExpr substrs ci) n =
     '', '' @ str_join '', '' substrs @ '', case_insensitive='' @ py_bool_str ci"
| "text_str_attributes (TsParseExpr format) n = '', '' @ format"
| "text_str_attributes (RegexpSplitExpr pattern limit) n = '', '' @ pattern @ '', limit='' @ str_int limit"
| "text_str_attributes (StripCharsExpr side) n = (if n = 1 then '', None'' else '''') @ '', side='' @ side"
| "text_str_attributes f n = ''''"

fun text_str :: "TextFn \<Rightarrow> string list \<Rightarrow> string" where
  "text_str (TextractExpr template fmt) args =
     ''text.extract('' @ py_quoted template @ '', '' @ str_join '', '' args @ '')''"
| "text_str f args =
     text_function_name f @ ''('' @ str_join '', '' args @ text_str_attributes f (length args) @ '')''"

section \<open>Dates\<close>

datatype DtFn =
    YearExpr | MonthExpr | DayExpr | HourExpr | MinuteExpr | SecondExpr | MilliSecondExpr
  | ToDateExpr "string option" string
  | ToTimestampExpr "string option" string
  | NowExpr bool
  | DateTruncExpr string string
  | DateAddExpr bool
  | TimestampAddExpr string string
  | DateFormatExpr string string
  | DateDiffExpr
  | TimestampDiffExpr string
  | ToUTCTimestampExpr string
  | FromUTCTimestampExpr string

text \<open>
  The constructors compute the format and the unit the engine uses from the caller's; an
  absent or empty format is the default.
\<close>

definition date_format_or :: "string \<Rightarrow> string option \<Rightarrow> string" where
  "date_format_or dflt fmt =
     (if truthy fmt then java_like_to_chrono (the fmt) else dflt)"

definition mk_to_date :: "string option \<Rightarrow> DtFn" where
  "mk_to_date fmt = ToDateExpr fmt (date_format_or ''%Y-%m-%d'' fmt)"

definition mk_to_timestamp :: "string option \<Rightarrow> DtFn" where
  "mk_to_timestamp fmt = ToTimestampExpr fmt (date_format_or ''%Y-%m-%dT%H:%M:%S.%3f'' fmt)"

definition mk_date_trunc :: "string \<Rightarrow> DtFn res" where
  "mk_date_trunc u = bind_res (get_polars_duration_unit u) (\<lambda>p. Inr (DateTruncExpr u (''1'' @ p)))"

definition mk_timestamp_add :: "string \<Rightarrow> DtFn res" where
  "mk_timestamp_add u = bind_res (get_polars_duration_unit u) (\<lambda>p. Inr (TimestampAddExpr u p))"

definition mk_date_format :: "string \<Rightarrow> DtFn" where
  "mk_date_format fmt = DateFormatExpr fmt (java_like_to_chrono fmt)"

text \<open>
  The attributes equality compares: no format of a conversion, not the kind of the current
  time, not the direction of an addition of days.
\<close>

fun dt_compared :: "DtFn \<Rightarrow> DtFn" where
  "dt_compared (ToDateExpr _ _) = ToDateExpr None ''''"
| "dt_compared (ToTimestampExpr _ _) = ToTimestampExpr None ''''"
| "dt_compared (NowExpr _) = NowExpr False"
| "dt_compared (DateTruncExpr _ u) = DateTruncExpr '''' u"
| "dt_compared (DateAddExpr _) = DateAddExpr False"
| "dt_compared (TimestampAddExpr _ u) = TimestampAddExpr '''' u"
| "dt_compared (DateFormatExpr _ f) = DateFormatExpr '''' f"
| "dt_compared f = f"

definition arg_text :: "string list \<Rightarrow> nat \<Rightarrow> string" where
  "arg_text args i = (if i < length args then args ! i else '''')"

text \<open>The texts; a difference of dates has its start as the first child.\<close>

fun dt_str :: "DtFn \<Rightarrow> string list \<Rightarrow> string" where
  "dt_str YearExpr args = ''dt.year('' @ arg_text args 0 @ '')''"
| "dt_str MonthExpr args = ''dt.month('' @ arg_text args 0 @ '')''"
| "dt_str DayExpr args = ''dt.day('' @ arg_text args 0 @ '')''"
| "dt_str HourExpr args = ''dt.hour('' @ arg_text args 0 @ '')''"
| "dt_str MinuteExpr args = ''dt.minute('' @ arg_text args 0 @ '')''"
| "dt_str SecondExpr args = ''dt.second('' @ arg_text args 0 @ '')''"
| "dt_str MilliSecondExpr args = ''dt.millisecond('' @ arg_text args 0 @ '')''"
| "dt_str (ToDateExpr _ _) args = ''dt.to_date('' @ arg_text args 0 @ '')''"
| "dt_str (ToTimestampExpr _ _) args = ''dt.to_timestamp('' @ arg_text args 0 @ '')''"
| "dt_str (NowExpr b) args = ''dt.now(as_date='' @ py_bool_str b @ '')''"
| "dt_str (DateTruncExpr _ u) args = ''dt.date_trunc(unit='' @ u @ '')''"
| "dt_str (DateAddExpr _) args = ''dt.date_add(days='' @ arg_text args 1 @ '')''"
| "dt_str (TimestampAddExpr _ u) args =
     ''dt.timestamp_add(quantity='' @ arg_text args 1 @ '', unit='' @ u @ '')''"
| "dt_str (DateFormatExpr _ f) args = ''dt.date_format(format='' @ f @ '')''"
| "dt_str DateDiffExpr args =
     ''dt.datediff(end='' @ arg_text args 1 @ '', start='' @ arg_text args 0 @ '')''"
| "dt_str (TimestampDiffExpr u) args =
     ''dt.timestamp_diff(start='' @ arg_text args 0 @ '', end='' @ arg_text args 1 @ '', unit='' @ u @ '')''"
| "dt_str (ToUTCTimestampExpr tz) args =
     ''dt.to_utc_timestamp('' @ arg_text args 0 @ '', timezone='' @ tz @ '')''"
| "dt_str (FromUTCTimestampExpr tz) args =
     ''dt.from_utc_timestamp('' @ arg_text args 0 @ '', timezone='' @ tz @ '')''"

text \<open>
  What reaches the engine and equality does not see: to the compared attributes belong no
  date format, and both directions of an addition of days are equal.
\<close>

lemma dt_compared_blind:
  "dt_compared (mk_to_date f) = dt_compared (mk_to_date g)"
  "dt_compared (mk_to_timestamp f) = dt_compared (mk_to_timestamp g)"
  "dt_compared (DateAddExpr a) = dt_compared (DateAddExpr b)"
  "dt_compared (NowExpr a) = dt_compared (NowExpr b)"
  by (simp_all add: mk_to_date_def mk_to_timestamp_def)

end
