(* ===== verification/Expressions.thy ===== *)
theory Expressions
  imports FunctionSignatures JinjaTemplate TokenLimits TextDateClasses
begin

text \<open>
  Logical expressions (\<^verbatim>\<open>src/fenic/core/_logical_plan/expressions/\<close>, files
  \<^verbatim>\<open>base.py, basic.py, arithmetic.py, comparison.py, case.py, aggregate.py, array.py,
  embedding.py, json.py, markdown.py, semantic.py, text.py, dt.py\<close>): the classes, their children, text,
  equality and the field each produces against a schema.  Expressions whose typing is the
  mixins' default are \<open>FunctionExpr\<close> with the class and its plain attributes; semantic ones
  are \<open>SemanticExpr\<close>.  Not modelled: series literals (a polars value), the example
  collections of semantic operators (always absent here), the construction-time checks of jq
  queries and JSON text by third-party parsers.  Whether a pattern is a valid regular expression
  is a parameter of the constructors that ask the Rust plugin.
  The lemmas show what the written equality identifies, which columns the typing of an
  expression reads, and the result types of operators.
\<close>

section \<open>Environment\<close>

text \<open>
  Beside the session, the eight characters of the UUID5 of a text, which only appear in the
  names of semantic columns.
\<close>

record Env = SessionState +
  get_content_hash :: "string \<Rightarrow> string"

section \<open>Classes\<close>

datatype Operator =
    EQ | NOT_EQ | LT | LTEQ | GT | GTEQ | PLUS | MINUS | MULTIPLY | DIVIDE | AND | OR

fun op_value :: "Operator \<Rightarrow> string" where
  "op_value EQ = ''=''"
| "op_value NOT_EQ = ''!=''"
| "op_value LT = ''<''"
| "op_value LTEQ = ''<=''"
| "op_value GT = ''>''"
| "op_value GTEQ = ''>=''"
| "op_value PLUS = ''+''"
| "op_value MINUS = ''-''"
| "op_value MULTIPLY = ''*''"
| "op_value DIVIDE = ''/''"
| "op_value AND = ''AND''"
| "op_value OR = ''OR''"

text \<open>Literal values by their text; any other Python value by its \<^verbatim>\<open>str\<close>.\<close>

datatype PyVal = PyNone | PyBool bool | PyInt int | PyFloat string | PyStr string | PyOther string

fun py_str :: "PyVal \<Rightarrow> string" where
  "py_str PyNone = ''None''"
| "py_str (PyBool b) = (if b then ''True'' else ''False'')"
| "py_str (PyInt i) = str_int i"
| "py_str (PyFloat s) = s"
| "py_str (PyStr s) = s"
| "py_str (PyOther s) = s"

text \<open>A Python function: its identity and its \<^verbatim>\<open>__name__\<close>.\<close>

datatype Callable = Callable (func_id: nat) (func_name: string)

datatype BinaryClass = ArithmeticExpr | EqualityComparisonExpr | NumericComparisonExpr | BooleanExpr

datatype FnClass =
    ArrayExpr | StructExpr | FlattenExpr | CoalesceExpr | GreatestExpr | LeastExpr
  | SumExpr | AvgExpr | MinExpr | MaxExpr | CountExpr | ListExpr | FirstExpr | StdDevExpr
  | ApproxCountDistinctExpr | CountDistinctExpr bool | SumDistinctExpr
  | ArrayLengthExpr | ArrayDistinctExpr | ArrayContainsExpr | ArrayMaxExpr | ArrayMinExpr
  | ArraySortExpr | ArrayReverseExpr | ArrayRemoveExpr | ArrayUnionExpr | ArrayIntersectExpr
  | ArrayExceptExpr | ArrayCompactExpr | ArrayRepeatExpr | ArraySliceExpr | ElementAtExpr
  | ArraysOverlapExpr
  | JqExpr string | JsonTypeExpr | JsonContainsExpr string
  | MdToJsonExpr | MdGetCodeBlocksExpr "string option" | MdGenerateTocExpr int
  | MdExtractHeaderChunks int
  | EmbeddingNormalizeExpr | EmbeddingSimilarityExpr string "string list option"
  | TextExpr TextFn

fun function_name_of :: "FnClass \<Rightarrow> string" where
  "function_name_of ArrayExpr = ''array''"
| "function_name_of StructExpr = ''struct''"
| "function_name_of FlattenExpr = ''flatten''"
| "function_name_of CoalesceExpr = ''coalesce''"
| "function_name_of GreatestExpr = ''greatest''"
| "function_name_of LeastExpr = ''least''"
| "function_name_of SumExpr = ''sum''"
| "function_name_of AvgExpr = ''avg''"
| "function_name_of MinExpr = ''min''"
| "function_name_of MaxExpr = ''max''"
| "function_name_of CountExpr = ''count''"
| "function_name_of ListExpr = ''collect_list''"
| "function_name_of FirstExpr = ''first''"
| "function_name_of StdDevExpr = ''stddev''"
| "function_name_of ApproxCountDistinctExpr = ''approx_count_distinct''"
| "function_name_of (CountDistinctExpr _) = ''count_distinct''"
| "function_name_of SumDistinctExpr = ''sum_distinct''"
| "function_name_of ArrayLengthExpr = ''array_size''"
| "function_name_of ArrayDistinctExpr = ''array_distinct''"
| "function_name_of ArrayContainsExpr = ''array_contains''"
| "function_name_of ArrayMaxExpr = ''array_max''"
| "function_name_of ArrayMinExpr = ''array_min''"
| "function_name_of ArraySortExpr = ''array_sort''"
| "function_name_of ArrayReverseExpr = ''array_reverse''"
| "function_name_of ArrayRemoveExpr = ''array_remove''"
| "function_name_of ArrayUnionExpr = ''array_union''"
| "function_name_of ArrayIntersectExpr = ''array_intersect''"
| "function_name_of ArrayExceptExpr = ''array_except''"
| "function_name_of ArrayCompactExpr = ''array_compact''"
| "function_name_of ArrayRepeatExpr = ''array_repeat''"
| "function_name_of ArraySliceExpr = ''slice''"
| "function_name_of ElementAtExpr = ''element_at''"
| "function_name_of ArraysOverlapExpr = ''arrays_overlap''"
| "function_name_of (JqExpr _) = ''json.jq''"
| "function_name_of JsonTypeExpr = ''json.type''"
| "function_name_of (JsonContainsExpr _) = ''json.contains''"
| "function_name_of MdToJsonExpr = ''markdown.to_json''"
| "function_name_of (MdGetCodeBlocksExpr _) = ''markdown.get_code_blocks''"
| "function_name_of (MdGenerateTocExpr _) = ''markdown.generate_toc''"
| "function_name_of (MdExtractHeaderChunks _) = ''markdown.extract_header_chunks''"
| "function_name_of EmbeddingNormalizeExpr = ''embedding.normalize''"
| "function_name_of (EmbeddingSimilarityExpr _ _) = ''embedding.compute_similarity''"
| "function_name_of (TextExpr f) = text_function_name f"

fun is_aggregate_fn :: "FnClass \<Rightarrow> bool" where
  "is_aggregate_fn SumExpr = True"
| "is_aggregate_fn AvgExpr = True"
| "is_aggregate_fn MinExpr = True"
| "is_aggregate_fn MaxExpr = True"
| "is_aggregate_fn CountExpr = True"
| "is_aggregate_fn ListExpr = True"
| "is_aggregate_fn FirstExpr = True"
| "is_aggregate_fn StdDevExpr = True"
| "is_aggregate_fn ApproxCountDistinctExpr = True"
| "is_aggregate_fn (CountDistinctExpr _) = True"
| "is_aggregate_fn SumDistinctExpr = True"
| "is_aggregate_fn _ = False"

text \<open>
  The written \<^verbatim>\<open>_eq_specific\<close> of each class: the attributes it compares, for the
  unparameterized classes none.
\<close>

fun compared_attributes :: "FnClass \<Rightarrow> FnClass" where
  "compared_attributes (CountDistinctExpr _) = CountDistinctExpr False"
| "compared_attributes (TextExpr f) = TextExpr (text_compared f)"
| "compared_attributes f = f"

definition fn_eq_specific :: "FnClass \<Rightarrow> FnClass \<Rightarrow> bool" where
  "fn_eq_specific f g \<longleftrightarrow> compared_attributes f = compared_attributes g"

text \<open>A response format: the fingerprint of its schema and the struct type generated from it.\<close>

datatype ResponseFormat = ResponseFormat (schema_fingerprint: string) (rf_struct_type: DataType)

text \<open>The shape of a summary.\<close>

datatype SummaryFormat = KeyPoints int | Paragraph int

datatype SemFn =
    SemanticMapExpr string bool VariableTree int real "ResolvedModelAlias option"
      "ResponseFormat option" "real option"
  | SemanticExtractExpr int real ResponseFormat "ResolvedModelAlias option" "real option"
  | SemanticPredExpr string bool VariableTree real "ResolvedModelAlias option" "real option"
  | SemanticReduceExpr string VariableTree "string list" int real "ResolvedModelAlias option"
      "real option"
  | SemanticClassifyExpr "(string \<times> string option) list" real "ResolvedModelAlias option"
      "real option"
  | AnalyzeSentimentExpr real "ResolvedModelAlias option" "real option"
  | EmbeddingsExpr "ResolvedModelAlias option"
  | SemanticSummarizeExpr SummaryFormat real "ResolvedModelAlias option" "real option"
  | SemanticParsePDFExpr "ResolvedModelAlias option" "string option" bool "int option" "real option"

definition rf_eq :: "ResponseFormat option \<Rightarrow> ResponseFormat option \<Rightarrow> bool" where
  "rf_eq a b = (map_option schema_fingerprint a = map_option schema_fingerprint b)"

fun sem_eq_specific :: "SemFn \<Rightarrow> SemFn \<Rightarrow> bool" where
  "sem_eq_specific (SemanticMapExpr t s v m te a r to) other =
     (case other of SemanticMapExpr t' s' v' m' te' a' r' to' \<Rightarrow> (m = m' \<and> te = te' \<and> a = a' \<and> rf_eq r r' \<and> t = t' \<and> s = s' \<and> to = to') | _ \<Rightarrow> False)"
| "sem_eq_specific (SemanticExtractExpr m te r a to) other =
     (case other of SemanticExtractExpr m' te' r' a' to' \<Rightarrow> (rf_eq (Some r) (Some r') \<and> m = m' \<and> te = te' \<and> a = a' \<and> to = to') | _ \<Rightarrow> False)"
| "sem_eq_specific (SemanticPredExpr t s v te a to) other =
     (case other of SemanticPredExpr t' s' v' te' a' to' \<Rightarrow> (te = te' \<and> a = a' \<and> t = t' \<and> s = s' \<and> to = to') | _ \<Rightarrow> False)"
| "sem_eq_specific (SemanticReduceExpr i v ns m te a to) other =
     (case other of SemanticReduceExpr i' v' ns' m' te' a' to' \<Rightarrow> (te = te' \<and> a = a' \<and> i = i' \<and> m = m' \<and> to = to') | _ \<Rightarrow> False)"
| "sem_eq_specific (SemanticClassifyExpr c te a to) other =
     (case other of SemanticClassifyExpr c' te' a' to' \<Rightarrow> (te = te' \<and> a = a' \<and> c = c' \<and> to = to') | _ \<Rightarrow> False)"
| "sem_eq_specific (AnalyzeSentimentExpr te a to) other =
     (case other of AnalyzeSentimentExpr te' a' to' \<Rightarrow> (te = te' \<and> a = a' \<and> to = to') | _ \<Rightarrow> False)"
| "sem_eq_specific (EmbeddingsExpr a) other =
     (case other of EmbeddingsExpr a' \<Rightarrow> (a = a') | _ \<Rightarrow> False)"
| "sem_eq_specific (SemanticSummarizeExpr f te a to) other =
     (case other of SemanticSummarizeExpr f' te' a' to' \<Rightarrow> (te = te' \<and> a = a' \<and> f = f' \<and> to = to') | _ \<Rightarrow> False)"
| "sem_eq_specific (SemanticParsePDFExpr a p d m to) other =
     (case other of SemanticParsePDFExpr a' p' d' m' to' \<Rightarrow> (a = a' \<and> p = p' \<and> d = d' \<and> m = m' \<and> to = to') | _ \<Rightarrow> False)"

datatype LogicalExpr =
    ColumnExpr string
  | LiteralExpr PyVal DataType
  | UnresolvedLiteralExpr DataType string
  | AliasExpr LogicalExpr string
  | SortExpr LogicalExpr bool bool
  | IndexExpr LogicalExpr LogicalExpr
  | UDFExpr Callable "LogicalExpr list" DataType
  | AsyncUDFExpr Callable "LogicalExpr list" DataType int real int
  | IsNullExpr LogicalExpr bool
  | CastExpr LogicalExpr DataType
  | NotExpr LogicalExpr
  | InExpr LogicalExpr LogicalExpr
  | BinaryExpr BinaryClass LogicalExpr LogicalExpr Operator
  | WhenExpr "LogicalExpr option" LogicalExpr LogicalExpr
  | OtherwiseExpr LogicalExpr LogicalExpr
  | FunctionExpr FnClass "LogicalExpr list"
  | SemanticExpr SemFn "LogicalExpr list"
  | DateTimeExpr DtFn "LogicalExpr list"
  | JinjaExpr string bool VariableTree "LogicalExpr list"

fun expr_children :: "LogicalExpr \<Rightarrow> LogicalExpr list" where
  "expr_children (ColumnExpr _) = []"
| "expr_children (LiteralExpr _ _) = []"
| "expr_children (UnresolvedLiteralExpr _ _) = []"
| "expr_children (AliasExpr e _) = [e]"
| "expr_children (SortExpr e _ _) = [e]"
| "expr_children (IndexExpr e i) = [e, i]"
| "expr_children (UDFExpr _ args _) = args"
| "expr_children (AsyncUDFExpr _ args _ _ _ _) = args"
| "expr_children (IsNullExpr e _) = [e]"
| "expr_children (CastExpr e _) = [e]"
| "expr_children (NotExpr e) = [e]"
| "expr_children (InExpr e other) = [e, other]"
| "expr_children (BinaryExpr _ l r _) = [l, r]"
| "expr_children (WhenExpr e c v) = (case e of None \<Rightarrow> [] | Some w \<Rightarrow> [w]) @ [c, v]"
| "expr_children (OtherwiseExpr e v) = [e, v]"
| "expr_children (FunctionExpr _ args) = args"
| "expr_children (SemanticExpr _ args) = args"
| "expr_children (DateTimeExpr _ args) = args"
| "expr_children (JinjaExpr _ _ _ args) = args"

lemma size_expr_child [termination_simp]: "c \<in> set (expr_children e) \<Longrightarrow> size c < size e"
proof -
  have list: "size x < Suc (size_list size xs)" if "x \<in> set xs" for x :: LogicalExpr and xs
    using that by (induction xs) auto
  show "c \<in> set (expr_children e) \<Longrightarrow> size c < size e"
    by (cases e) (auto dest: list split: option.splits simp: list less_Suc_eq)
qed

section \<open>Equality (\<open>__eq__\<close>)\<close>

text \<open>Same class, equal plain attributes; the children are compared separately.\<close>

fun eq_specific :: "LogicalExpr \<Rightarrow> LogicalExpr \<Rightarrow> bool" where
  "eq_specific (ColumnExpr n) other =
     (case other of ColumnExpr n' \<Rightarrow> (n = n') | _ \<Rightarrow> False)"
| "eq_specific (LiteralExpr v d) other =
     (case other of LiteralExpr v' d' \<Rightarrow> (v = v' \<and> dtype_eq d d') | _ \<Rightarrow> False)"
| "eq_specific (UnresolvedLiteralExpr d p) other =
     (case other of UnresolvedLiteralExpr d' p' \<Rightarrow> (p = p' \<and> dtype_eq d d') | _ \<Rightarrow> False)"
| "eq_specific (AliasExpr _ n) other =
     (case other of AliasExpr _ n' \<Rightarrow> (n = n') | _ \<Rightarrow> False)"
| "eq_specific (SortExpr _ a l) other =
     (case other of SortExpr _ a' l' \<Rightarrow> (a = a' \<and> l = l') | _ \<Rightarrow> False)"
| "eq_specific (IndexExpr _ _) other =
     (case other of IndexExpr _ _ \<Rightarrow> True | _ \<Rightarrow> False)"
| "eq_specific (UDFExpr f _ t) other =
     (case other of UDFExpr f' _ t' \<Rightarrow> (func_id f = func_id f' \<and> dtype_eq t t') | _ \<Rightarrow> False)"
| "eq_specific (AsyncUDFExpr f _ t c to n) other =
     (case other of AsyncUDFExpr f' _ t' c' to' n' \<Rightarrow> (func_id f = func_id f' \<and> dtype_eq t t' \<and> c = c' \<and> to = to' \<and> n = n') | _ \<Rightarrow> False)"
| "eq_specific (IsNullExpr _ b) other =
     (case other of IsNullExpr _ b' \<Rightarrow> (b = b') | _ \<Rightarrow> False)"
| "eq_specific (CastExpr _ t) other =
     (case other of CastExpr _ t' \<Rightarrow> dtype_eq t t' | _ \<Rightarrow> False)"
| "eq_specific (NotExpr _) other =
     (case other of NotExpr _ \<Rightarrow> True | _ \<Rightarrow> False)"
| "eq_specific (InExpr _ _) other =
     (case other of InExpr _ _ \<Rightarrow> True | _ \<Rightarrow> False)"
| "eq_specific (BinaryExpr c _ _ op) other =
     (case other of BinaryExpr c' _ _ op' \<Rightarrow> (c = c' \<and> op = op') | _ \<Rightarrow> False)"
| "eq_specific (WhenExpr _ _ _) other =
     (case other of WhenExpr _ _ _ \<Rightarrow> True | _ \<Rightarrow> False)"
| "eq_specific (OtherwiseExpr _ _) other =
     (case other of OtherwiseExpr _ _ \<Rightarrow> True | _ \<Rightarrow> False)"
| "eq_specific (FunctionExpr f _) other =
     (case other of FunctionExpr f' _ \<Rightarrow> fn_eq_specific f f' | _ \<Rightarrow> False)"
| "eq_specific (SemanticExpr f _) other =
     (case other of SemanticExpr f' _ \<Rightarrow> sem_eq_specific f f' | _ \<Rightarrow> False)"
| "eq_specific (DateTimeExpr f _) other =
     (case other of DateTimeExpr f' _ \<Rightarrow> (dt_compared f = dt_compared f') | _ \<Rightarrow> False)"
| "eq_specific (JinjaExpr t s v _) other =
     (case other of JinjaExpr t' s' v' _ \<Rightarrow> (t = t' \<and> s = s') | _ \<Rightarrow> False)"

fun list_eq_with :: "('a \<Rightarrow> 'b \<Rightarrow> bool) \<Rightarrow> 'a list \<Rightarrow> 'b list \<Rightarrow> bool" where
  "list_eq_with R [] ys = (ys = [])"
| "list_eq_with R (x # xs) ys = (case ys of [] \<Rightarrow> False | y # ys' \<Rightarrow> R x y \<and> list_eq_with R xs ys')"

lemma list_eq_with_iff: "list_eq_with R xs ys \<longleftrightarrow> list_all2 R xs ys"
  by (induction R xs ys rule: list_eq_with.induct) (auto split: list.splits simp: list_all2_Cons1)

lemma list_eq_with_cong [fundef_cong]:
  "xs = xs' \<Longrightarrow> ys = ys' \<Longrightarrow> (\<And>x y. x \<in> set xs' \<Longrightarrow> R x y = R' x y) \<Longrightarrow>
   list_eq_with R xs ys = list_eq_with R' xs' ys'"
proof (induction xs' arbitrary: xs ys ys')
  case (Cons x xs')
  then show ?case by (auto split: list.splits)
qed simp

fun expr_eq :: "LogicalExpr \<Rightarrow> LogicalExpr \<Rightarrow> bool" where
  "expr_eq e e' = (eq_specific e e' \<and> list_eq_with expr_eq (expr_children e) (expr_children e'))"

declare expr_eq.simps [simp del]

text \<open>
  What equality does not look at, erased: a function's name, the flag of
  \<open>CountDistinctExpr\<close>, what dates do not compare (formats of conversions, the direction of
  adding days, the kind of the current time), the tree computed from a template, the names of a reduction's
  context, and everything of a response format but its fingerprint.
\<close>

definition erase_format :: "ResponseFormat \<Rightarrow> ResponseFormat" where
  "erase_format r = ResponseFormat (schema_fingerprint r) StringType"

fun erase_sem :: "SemFn \<Rightarrow> SemFn" where
  "erase_sem (SemanticMapExpr t s v m te a r to) =
     SemanticMapExpr t s [] m te a (map_option erase_format r) to"
| "erase_sem (SemanticExtractExpr m te r a to) = SemanticExtractExpr m te (erase_format r) a to"
| "erase_sem (SemanticPredExpr t s v te a to) = SemanticPredExpr t s [] te a to"
| "erase_sem (SemanticReduceExpr i v ns m te a to) = SemanticReduceExpr i [] [] m te a to"
| "erase_sem f = f"

definition erase_callable :: "Callable \<Rightarrow> Callable" where
  "erase_callable f = Callable (func_id f) []"

fun erase :: "LogicalExpr \<Rightarrow> LogicalExpr" where
  "erase (ColumnExpr n) = ColumnExpr n"
| "erase (LiteralExpr v d) = LiteralExpr v d"
| "erase (UnresolvedLiteralExpr d p) = UnresolvedLiteralExpr d p"
| "erase (AliasExpr e n) = AliasExpr (erase e) n"
| "erase (SortExpr e a l) = SortExpr (erase e) a l"
| "erase (IndexExpr e i) = IndexExpr (erase e) (erase i)"
| "erase (UDFExpr f args t) = UDFExpr (erase_callable f) (map erase args) t"
| "erase (AsyncUDFExpr f args t c to n) = AsyncUDFExpr (erase_callable f) (map erase args) t c to n"
| "erase (IsNullExpr e b) = IsNullExpr (erase e) b"
| "erase (CastExpr e t) = CastExpr (erase e) t"
| "erase (NotExpr e) = NotExpr (erase e)"
| "erase (InExpr e other) = InExpr (erase e) (erase other)"
| "erase (BinaryExpr c l r op) = BinaryExpr c (erase l) (erase r) op"
| "erase (WhenExpr e c v) = WhenExpr (map_option erase e) (erase c) (erase v)"
| "erase (OtherwiseExpr e v) = OtherwiseExpr (erase e) (erase v)"
| "erase (FunctionExpr f args) = FunctionExpr (compared_attributes f) (map erase args)"
| "erase (SemanticExpr f args) = SemanticExpr (erase_sem f) (map erase args)"
| "erase (DateTimeExpr f args) = DateTimeExpr (dt_compared f) (map erase args)"
| "erase (JinjaExpr t s v args) = JinjaExpr t s [] (map erase args)"

lemma erase_format_eq: "erase_format r = erase_format r' \<longleftrightarrow> schema_fingerprint r = schema_fingerprint r'"
  by (simp add: erase_format_def)

lemma rf_eq_erase: "rf_eq r r' \<longleftrightarrow> map_option erase_format r = map_option erase_format r'"
  by (cases r; cases r') (auto simp: rf_eq_def erase_format_def)

lemma sem_eq_erase: "sem_eq_specific f g \<longleftrightarrow> erase_sem f = erase_sem g"
  by (cases f; cases g) (auto simp: rf_eq_erase erase_format_eq)

lemma erase_callable_eq: "erase_callable f = erase_callable g \<longleftrightarrow> func_id f = func_id g"
  by (simp add: erase_callable_def)

lemma list_eq_with_map:
  assumes "\<And>x y. x \<in> set xs \<Longrightarrow> R x y \<longleftrightarrow> f x = f y"
  shows "list_eq_with R xs ys \<longleftrightarrow> map f xs = map f ys"
  using assms
proof (induction xs arbitrary: ys)
  case (Cons x xs)
  then show ?case by (cases ys) auto
qed auto

lemma children_erase: "expr_children (erase e) = map erase (expr_children e)"
  by (cases e) (auto split: option.splits)

text \<open>An expression without its children is its class and plain attributes.\<close>

lemma eq_specific_erase:
  "erase e = erase e' \<longleftrightarrow>
     eq_specific e e' \<and> map erase (expr_children e) = map erase (expr_children e')"
  by (cases e; cases e')
    (auto simp: dtype_eq_iff_eq fn_eq_specific_def sem_eq_erase erase_callable_eq split: option.splits)

lemma expr_eq_erase: "expr_eq e e' \<longleftrightarrow> erase e = erase e'"
proof (induction e e' rule: expr_eq.induct)
  case (1 e e')
  have "list_eq_with expr_eq (expr_children e) (expr_children e') \<longleftrightarrow>
      map erase (expr_children e) = map erase (expr_children e')" if "eq_specific e e'"
    by (rule list_eq_with_map) (use 1 that in auto)
  then show ?case by (subst expr_eq.simps) (auto simp: eq_specific_erase)
qed

section \<open>The text of an expression (\<open>__str__\<close>)\<close>

definition alias_repr :: "ResolvedModelAlias option \<Rightarrow> string" where
  "alias_repr a =
     (case a of
        None \<Rightarrow> ''None''
      | Some m \<Rightarrow> ''ResolvedModelAlias(name='' @ py_quoted (alias_name m) @ '', profile='' @
          (case alias_profile m of None \<Rightarrow> ''None'' | Some p \<Rightarrow> py_quoted p) @ '')'')"

text \<open>The text of a function call, and the classes that write their own.\<close>

fun fn_str :: "FnClass \<Rightarrow> string list \<Rightarrow> string" where
  "fn_str (MdExtractHeaderChunks n) args =
     ''markdown.extract_header_chunks('' @ str_join '', '' args @ '', header_level='' @ str_int n @ '')''"
| "fn_str (EmbeddingSimilarityExpr metric vec) args =
     ''embedding.compute_similarity('' @ str_join '', '' args @
     (if vec = None then [] else '', query_vector'') @ '', metric='' @ metric @ '')''"
| "fn_str (TextExpr f) args = text_str f args"
| "fn_str f args = function_name_of f @ ''('' @ str_join '', '' args @ '')''"

fun sem_str :: "Env \<Rightarrow> SemFn \<Rightarrow> string list \<Rightarrow> string" where
  "sem_str env (SemanticMapExpr t _ _ _ _ _ _ _) args =
     ''semantic.map_'' @ get_content_hash env t @ ''('' @ str_join '', '' args @ '')''"
| "sem_str env (SemanticExtractExpr _ _ r _ _) args =
     ''semantic.extract_'' @ get_content_hash env (schema_fingerprint r) @ ''('' @ str_join '', '' args @ '')''"
| "sem_str env (SemanticPredExpr t _ _ _ _ _) args =
     ''semantic.predicate_'' @ get_content_hash env t @ ''('' @ str_join '', '' args @ '')''"
| "sem_str env (SemanticReduceExpr i _ names _ _ _ _) args =
     ''semantic.reduce_'' @ get_content_hash env i @ ''('' @
     str_join '', ''
       (take 1 args
        @ (if names = [] then []
           else [''group_context=['' @ str_join '', '' (map py_quoted names) @ '']''])
        @ (if drop (1 + length names) args = [] then []
           else [''order_by='' @ str_join '', '' (drop (1 + length names) args)])) @ '')''"
| "sem_str env (SemanticClassifyExpr cs _ _ _) args =
     ''semantic.classify('' @ str_join '', '' args @ '', ['' @
     str_join '', '' (map (\<lambda>(l, d). py_quoted l) cs) @ ''])''"
| "sem_str env (AnalyzeSentimentExpr _ _ _) args =
     ''semantic.analyze_sentiment('' @ str_join '', '' args @ '')''"
| "sem_str env (EmbeddingsExpr a) args =
     ''semantic.embed('' @ str_join '', '' args @ '', '' @ alias_repr a @ '')''"
| "sem_str env (SemanticSummarizeExpr _ _ _ _) args =
     ''semantic.summarize('' @ str_join '', '' args @ '')''"
| "sem_str env (SemanticParsePDFExpr a _ _ _ _) args =
     ''semantic.parse_pdf('' @ str_join '', '' args @ '', model:'' @ alias_repr a @ '')''"

fun expr_str :: "Env \<Rightarrow> LogicalExpr \<Rightarrow> string" where
  "expr_str env (ColumnExpr n) = n"
| "expr_str env (LiteralExpr v d) = ''lit('' @ py_str v @ '')''"
| "expr_str env (UnresolvedLiteralExpr d p) = ''param('' @ p @ '')''"
| "expr_str env (AliasExpr e n) = expr_str env e @ '' AS '' @ n"
| "expr_str env (SortExpr e a l) = (if a then ''asc'' else ''desc'') @ ''('' @ expr_str env e @ '')''"
| "expr_str env (IndexExpr e i) = expr_str env e @ ''['' @ expr_str env i @ '']''"
| "expr_str env (UDFExpr f args t) = func_name f @ ''('' @ str_join '', '' (map (expr_str env) args) @ '')''"
| "expr_str env (AsyncUDFExpr f args t c to n) =
     func_name f @ ''('' @ str_join '', '' (map (expr_str env) args) @ '')''"
| "expr_str env (IsNullExpr e b) = expr_str env e @ '' IS '' @ (if b then [] else ''NOT'') @ '' NULL''"
| "expr_str env (CastExpr e t) = ''cast('' @ expr_str env e @ '' AS '' @ dtype_str t @ '')''"
| "expr_str env (NotExpr e) = ''NOT '' @ expr_str env e"
| "expr_str env (InExpr e other) = expr_str env e @ '' IN '' @ expr_str env other"
| "expr_str env (BinaryExpr c l r op) =
     ''('' @ expr_str env l @ '' '' @ op_value op @ '' '' @ expr_str env r @ '')''"
| "expr_str env (WhenExpr e c v) =
     (case e of None \<Rightarrow> ''CASE'' | Some w \<Rightarrow> expr_str env w) @
     '' WHEN ('' @ expr_str env c @ '') THEN ('' @ expr_str env v @ '')''"
| "expr_str env (OtherwiseExpr e v) = expr_str env e @ '' ELSE ('' @ expr_str env v @ '')''"
| "expr_str env (FunctionExpr f args) = fn_str f (map (expr_str env) args)"
| "expr_str env (SemanticExpr f args) = sem_str env f (map (expr_str env) args)"
| "expr_str env (DateTimeExpr f args) = dt_str f (map (expr_str env) args)"
| "expr_str env (JinjaExpr t s v args) =
     ''text.jinja('' @ t @ '', '' @ str_join '', '' (map (expr_str env) args) @ '')''"

section \<open>Markers and constructors with checks\<close>

definition is_aggregate :: "LogicalExpr \<Rightarrow> bool" where
  "is_aggregate e =
     (case e of
        FunctionExpr f _ \<Rightarrow> is_aggregate_fn f
      | SemanticExpr (SemanticReduceExpr _ _ _ _ _ _ _) _ \<Rightarrow> True
      | _ \<Rightarrow> False)"

definition is_semantic :: "LogicalExpr \<Rightarrow> bool" where
  "is_semantic e = (case e of SemanticExpr _ _ \<Rightarrow> True | _ \<Rightarrow> False)"

definition is_sort :: "LogicalExpr \<Rightarrow> bool" where
  "is_sort e = (case e of SortExpr _ _ _ \<Rightarrow> True | _ \<Rightarrow> False)"

definition is_when :: "LogicalExpr \<Rightarrow> bool" where
  "is_when e = (case e of WhenExpr _ _ _ \<Rightarrow> True | _ \<Rightarrow> False)"

text \<open>The name attribute, which only columns and aliases have.\<close>

definition name_attr :: "LogicalExpr \<Rightarrow> string res" where
  "name_attr e =
     (case e of ColumnExpr n \<Rightarrow> Inr n | AliasExpr e' n \<Rightarrow> Inr n | _ \<Rightarrow> Inl PyAttributeError)"

definition mk_when :: "LogicalExpr option \<Rightarrow> LogicalExpr \<Rightarrow> LogicalExpr \<Rightarrow> LogicalExpr res" where
  "mk_when e c v =
     bind_res (raise_if (case e of None \<Rightarrow> False | Some w \<Rightarrow> \<not> is_when w) ValidationError)
       (\<lambda>_. Inr (WhenExpr e c v))"

definition mk_otherwise :: "LogicalExpr \<Rightarrow> LogicalExpr \<Rightarrow> LogicalExpr res" where
  "mk_otherwise e v =
     bind_res (raise_if (\<not> is_when e) ValidationError) (\<lambda>_. Inr (OtherwiseExpr e v))"

definition mk_list_expr :: "LogicalExpr \<Rightarrow> LogicalExpr res" where
  "mk_list_expr e =
     (case e of LiteralExpr _ _ \<Rightarrow> Inl PyTypeError | _ \<Rightarrow> Inr (FunctionExpr ListExpr [e]))"

definition mk_generate_toc :: "LogicalExpr \<Rightarrow> int option \<Rightarrow> LogicalExpr" where
  "mk_generate_toc e max_level =
     FunctionExpr (MdGenerateTocExpr (if truthy_int max_level then the max_level else 6)) [e]"

text \<open>
  The template operators are built from columns and aliases, whose names the tree filters;
  the arguments are the template's text and the syntax tree the parser gives for it.
\<close>

definition template_exprs :: "VariableTree \<Rightarrow> LogicalExpr list \<Rightarrow> (string \<times> LogicalExpr) list res" where
  "template_exprs tree exprs =
     bind_res (map_res name_attr exprs) (\<lambda>names.
       filter_used_expressions fst tree (zip names exprs))"

definition mk_semantic_map ::
  "string \<Rightarrow> JNode \<Rightarrow> bool \<Rightarrow> LogicalExpr list \<Rightarrow> int \<Rightarrow> real \<Rightarrow> ResolvedModelAlias option \<Rightarrow>
     ResponseFormat option \<Rightarrow> real option \<Rightarrow> LogicalExpr res" where
  "mk_semantic_map t ast strict exprs max_tok temp model fmt timeout =
     bind_res (from_jinja_template ast) (\<lambda>tree.
     bind_res (raise_if (length tree < 1) ValidationError) (\<lambda>_.
     bind_res (template_exprs tree exprs) (\<lambda>used.
       Inr (SemanticExpr (SemanticMapExpr t strict tree max_tok temp model fmt timeout) (map snd used)))))"

definition mk_semantic_predicate ::
  "string \<Rightarrow> JNode \<Rightarrow> bool \<Rightarrow> LogicalExpr list \<Rightarrow> real \<Rightarrow> ResolvedModelAlias option \<Rightarrow>
     real option \<Rightarrow> LogicalExpr res" where
  "mk_semantic_predicate t ast strict exprs temp model timeout =
     bind_res (from_jinja_template ast) (\<lambda>tree.
     bind_res (raise_if (length tree < 1) ValidationError) (\<lambda>_.
     bind_res (template_exprs tree exprs) (\<lambda>used.
       Inr (SemanticExpr (SemanticPredExpr t strict tree temp model timeout) (map snd used)))))"

definition mk_jinja :: "string \<Rightarrow> JNode \<Rightarrow> bool \<Rightarrow> LogicalExpr list \<Rightarrow> LogicalExpr res" where
  "mk_jinja t ast strict exprs =
     bind_res (from_jinja_template ast) (\<lambda>tree.
     bind_res (template_exprs tree exprs) (\<lambda>used. Inr (JinjaExpr t strict tree (map snd used))))"

definition mk_textract :: "LogicalExpr \<Rightarrow> string \<Rightarrow> LogicalExpr res" where
  "mk_textract input t =
     bind_res (parse_template t) (\<lambda>fmt. Inr (FunctionExpr (TextExpr (TextractExpr t fmt)) [input]))"

text \<open>
  The pattern of a match is checked when it is a string literal; for \<open>LIKE\<close> too it is the
  pattern itself that must be a regular expression.
\<close>

definition check_pattern :: "(string \<Rightarrow> bool) \<Rightarrow> LogicalExpr \<Rightarrow> unit res" where
  "check_pattern valid_regex pattern =
     (case pattern of
        LiteralExpr v d \<Rightarrow>
          if dtype_eq d StringType
          then raise_if (case v of PyStr s \<Rightarrow> \<not> valid_regex s | _ \<Rightarrow> True) ValidationError
          else Inr ()
      | _ \<Rightarrow> Inr ())"

definition mk_pattern_expr ::
  "(string \<Rightarrow> bool) \<Rightarrow> TextFn \<Rightarrow> LogicalExpr \<Rightarrow> LogicalExpr \<Rightarrow> LogicalExpr list \<Rightarrow> LogicalExpr res" where
  "mk_pattern_expr valid_regex f e pattern extra =
     bind_res (check_pattern valid_regex pattern)
       (\<lambda>_. Inr (FunctionExpr (TextExpr f) (e # pattern # extra)))"

definition mk_rlike :: "(string \<Rightarrow> bool) \<Rightarrow> LogicalExpr \<Rightarrow> LogicalExpr \<Rightarrow> LogicalExpr res" where
  "mk_rlike valid_regex e pattern = mk_pattern_expr valid_regex RLikeExpr e pattern []"

definition mk_like :: "(string \<Rightarrow> bool) \<Rightarrow> LogicalExpr \<Rightarrow> LogicalExpr \<Rightarrow> LogicalExpr res" where
  "mk_like valid_regex e pattern = mk_pattern_expr valid_regex LikeExpr e pattern []"

definition mk_ilike :: "(string \<Rightarrow> bool) \<Rightarrow> LogicalExpr \<Rightarrow> LogicalExpr \<Rightarrow> LogicalExpr res" where
  "mk_ilike valid_regex e pattern = mk_pattern_expr valid_regex ILikeExpr e pattern []"

definition mk_regexp_count :: "(string \<Rightarrow> bool) \<Rightarrow> LogicalExpr \<Rightarrow> LogicalExpr \<Rightarrow> LogicalExpr res" where
  "mk_regexp_count valid_regex e pattern = mk_pattern_expr valid_regex RegexpCountExpr e pattern []"

definition mk_regexp_extract ::
  "(string \<Rightarrow> bool) \<Rightarrow> LogicalExpr \<Rightarrow> LogicalExpr \<Rightarrow> int \<Rightarrow> LogicalExpr res" where
  "mk_regexp_extract valid_regex e pattern idx =
     mk_pattern_expr valid_regex (RegexpExtractExpr idx) e pattern []"

definition mk_regexp_extract_all ::
  "(string \<Rightarrow> bool) \<Rightarrow> LogicalExpr \<Rightarrow> LogicalExpr \<Rightarrow> LogicalExpr \<Rightarrow> LogicalExpr res" where
  "mk_regexp_extract_all valid_regex e pattern idx =
     mk_pattern_expr valid_regex RegexpExtractAllExpr e pattern [idx]"

definition mk_regexp_instr ::
  "(string \<Rightarrow> bool) \<Rightarrow> LogicalExpr \<Rightarrow> LogicalExpr \<Rightarrow> LogicalExpr \<Rightarrow> LogicalExpr res" where
  "mk_regexp_instr valid_regex e pattern idx =
     mk_pattern_expr valid_regex RegexpInstrExpr e pattern [idx]"

definition mk_regexp_substr :: "(string \<Rightarrow> bool) \<Rightarrow> LogicalExpr \<Rightarrow> LogicalExpr \<Rightarrow> LogicalExpr res" where
  "mk_regexp_substr valid_regex e pattern = mk_pattern_expr valid_regex RegexpSubstrExpr e pattern []"

definition mk_strip_chars :: "LogicalExpr \<Rightarrow> LogicalExpr option \<Rightarrow> string \<Rightarrow> LogicalExpr" where
  "mk_strip_chars e chars side =
     FunctionExpr (TextExpr (StripCharsExpr side)) (case chars of None \<Rightarrow> [e] | Some c \<Rightarrow> [e, c])"

text \<open>The remaining text classes: no checks, and the children in the order of the class.\<close>

definition mk_text_chunk :: "LogicalExpr \<Rightarrow> TextChunkConfig \<Rightarrow> LogicalExpr" where
  "mk_text_chunk input config = FunctionExpr (TextExpr (TextChunkExpr config)) [input]"

definition mk_recursive_text_chunk :: "LogicalExpr \<Rightarrow> RecursiveTextChunkConfig \<Rightarrow> LogicalExpr" where
  "mk_recursive_text_chunk input config = FunctionExpr (TextExpr (RecursiveTextChunkExpr config)) [input]"

definition mk_count_tokens :: "LogicalExpr \<Rightarrow> LogicalExpr" where
  "mk_count_tokens input = FunctionExpr (TextExpr CountTokensExpr) [input]"

definition mk_concat :: "LogicalExpr list \<Rightarrow> LogicalExpr" where
  "mk_concat exprs = FunctionExpr (TextExpr ConcatExpr) exprs"

definition mk_array_join :: "LogicalExpr \<Rightarrow> string \<Rightarrow> LogicalExpr" where
  "mk_array_join e delimiter = FunctionExpr (TextExpr (ArrayJoinExpr delimiter)) [e]"

definition mk_contains :: "LogicalExpr \<Rightarrow> LogicalExpr \<Rightarrow> LogicalExpr" where
  "mk_contains e substr = FunctionExpr (TextExpr ContainsExpr) [e, substr]"

definition mk_contains_any :: "LogicalExpr \<Rightarrow> string list \<Rightarrow> bool \<Rightarrow> LogicalExpr" where
  "mk_contains_any e substrs ci = FunctionExpr (TextExpr (ContainsAnyExpr substrs ci)) [e]"

definition mk_ts_parse :: "LogicalExpr \<Rightarrow> string \<Rightarrow> LogicalExpr" where
  "mk_ts_parse e format = FunctionExpr (TextExpr (TsParseExpr format)) [e]"

definition mk_starts_with :: "LogicalExpr \<Rightarrow> LogicalExpr \<Rightarrow> LogicalExpr" where
  "mk_starts_with e substr = FunctionExpr (TextExpr StartsWithExpr) [e, substr]"

definition mk_ends_with :: "LogicalExpr \<Rightarrow> LogicalExpr \<Rightarrow> LogicalExpr" where
  "mk_ends_with e substr = FunctionExpr (TextExpr EndsWithExpr) [e, substr]"

definition mk_regexp_split :: "LogicalExpr \<Rightarrow> string \<Rightarrow> int \<Rightarrow> LogicalExpr" where
  "mk_regexp_split e pattern limit = FunctionExpr (TextExpr (RegexpSplitExpr pattern limit)) [e]"

definition mk_split_part :: "LogicalExpr \<Rightarrow> LogicalExpr \<Rightarrow> LogicalExpr \<Rightarrow> LogicalExpr" where
  "mk_split_part e delimiter part_number = FunctionExpr (TextExpr SplitPartExpr) [e, delimiter, part_number]"

definition mk_string_casing :: "LogicalExpr \<Rightarrow> string \<Rightarrow> LogicalExpr" where
  "mk_string_casing e casing = FunctionExpr (TextExpr (StringCasingExpr casing)) [e]"

definition mk_replace :: "LogicalExpr \<Rightarrow> LogicalExpr \<Rightarrow> LogicalExpr \<Rightarrow> bool \<Rightarrow> LogicalExpr" where
  "mk_replace e search replacement literal = FunctionExpr (TextExpr (ReplaceExpr literal)) [e, search, replacement]"

definition mk_str_length :: "LogicalExpr \<Rightarrow> LogicalExpr" where
  "mk_str_length e = FunctionExpr (TextExpr StrLengthExpr) [e]"

definition mk_byte_length :: "LogicalExpr \<Rightarrow> LogicalExpr" where
  "mk_byte_length e = FunctionExpr (TextExpr ByteLengthExpr) [e]"

definition mk_fuzzy_ratio :: "LogicalExpr \<Rightarrow> LogicalExpr \<Rightarrow> string \<Rightarrow> LogicalExpr" where
  "mk_fuzzy_ratio e other method = FunctionExpr (TextExpr (FuzzyRatioExpr method)) [e, other]"

definition mk_fuzzy_token_sort_ratio :: "LogicalExpr \<Rightarrow> LogicalExpr \<Rightarrow> string \<Rightarrow> LogicalExpr" where
  "mk_fuzzy_token_sort_ratio e other method = FunctionExpr (TextExpr (FuzzyTokenSortRatioExpr method)) [e, other]"

definition mk_fuzzy_token_set_ratio :: "LogicalExpr \<Rightarrow> LogicalExpr \<Rightarrow> string \<Rightarrow> LogicalExpr" where
  "mk_fuzzy_token_set_ratio e other method = FunctionExpr (TextExpr (FuzzyTokenSetRatioExpr method)) [e, other]"

text \<open>The date classes.\<close>

definition mk_year :: "LogicalExpr \<Rightarrow> LogicalExpr" where
  "mk_year e = DateTimeExpr YearExpr [e]"

definition mk_month :: "LogicalExpr \<Rightarrow> LogicalExpr" where
  "mk_month e = DateTimeExpr MonthExpr [e]"

definition mk_day :: "LogicalExpr \<Rightarrow> LogicalExpr" where
  "mk_day e = DateTimeExpr DayExpr [e]"

definition mk_hour :: "LogicalExpr \<Rightarrow> LogicalExpr" where
  "mk_hour e = DateTimeExpr HourExpr [e]"

definition mk_minute :: "LogicalExpr \<Rightarrow> LogicalExpr" where
  "mk_minute e = DateTimeExpr MinuteExpr [e]"

definition mk_second :: "LogicalExpr \<Rightarrow> LogicalExpr" where
  "mk_second e = DateTimeExpr SecondExpr [e]"

definition mk_millisecond :: "LogicalExpr \<Rightarrow> LogicalExpr" where
  "mk_millisecond e = DateTimeExpr MilliSecondExpr [e]"

definition mk_to_date_expr :: "LogicalExpr \<Rightarrow> string option \<Rightarrow> LogicalExpr" where
  "mk_to_date_expr e fmt = DateTimeExpr (mk_to_date fmt) [e]"

definition mk_to_timestamp_expr :: "LogicalExpr \<Rightarrow> string option \<Rightarrow> LogicalExpr" where
  "mk_to_timestamp_expr e fmt = DateTimeExpr (mk_to_timestamp fmt) [e]"

definition mk_now :: "bool \<Rightarrow> LogicalExpr" where
  "mk_now as_date = DateTimeExpr (NowExpr as_date) []"

definition mk_date_add :: "LogicalExpr \<Rightarrow> LogicalExpr \<Rightarrow> bool \<Rightarrow> LogicalExpr" where
  "mk_date_add e days sub = DateTimeExpr (DateAddExpr sub) [e, days]"

definition mk_date_format_expr :: "LogicalExpr \<Rightarrow> string \<Rightarrow> LogicalExpr" where
  "mk_date_format_expr e fmt = DateTimeExpr (mk_date_format fmt) [e]"

definition mk_to_utc_timestamp :: "LogicalExpr \<Rightarrow> string \<Rightarrow> LogicalExpr" where
  "mk_to_utc_timestamp e timezone = DateTimeExpr (ToUTCTimestampExpr timezone) [e]"

definition mk_from_utc_timestamp :: "LogicalExpr \<Rightarrow> string \<Rightarrow> LogicalExpr" where
  "mk_from_utc_timestamp e timezone = DateTimeExpr (FromUTCTimestampExpr timezone) [e]"

definition mk_date_trunc_expr :: "LogicalExpr \<Rightarrow> string \<Rightarrow> LogicalExpr res" where
  "mk_date_trunc_expr e u = bind_res (mk_date_trunc u) (\<lambda>f. Inr (DateTimeExpr f [e]))"

definition mk_timestamp_add_expr :: "LogicalExpr \<Rightarrow> LogicalExpr \<Rightarrow> string \<Rightarrow> LogicalExpr res" where
  "mk_timestamp_add_expr e quantity u =
     bind_res (mk_timestamp_add u) (\<lambda>f. Inr (DateTimeExpr f [e, quantity]))"

text \<open>A difference of dates is built from its end and start, and has the start as first child.\<close>

definition mk_date_diff :: "LogicalExpr \<Rightarrow> LogicalExpr \<Rightarrow> LogicalExpr" where
  "mk_date_diff stop start = DateTimeExpr DateDiffExpr [start, stop]"

definition mk_timestamp_diff :: "LogicalExpr \<Rightarrow> LogicalExpr \<Rightarrow> string \<Rightarrow> LogicalExpr" where
  "mk_timestamp_diff start stop u = DateTimeExpr (TimestampDiffExpr u) [start, stop]"

text \<open>A reduction keeps the expression behind an alias, and sorts ascending by default.\<close>

definition mk_semantic_reduce ::
  "string \<Rightarrow> JNode \<Rightarrow> LogicalExpr \<Rightarrow> int \<Rightarrow> real \<Rightarrow> LogicalExpr list \<Rightarrow> LogicalExpr list option \<Rightarrow>
     ResolvedModelAlias option \<Rightarrow> real option \<Rightarrow> LogicalExpr res" where
  "mk_semantic_reduce t ast input max_tok temp ctx order_by model timeout =
     bind_res (from_jinja_template ast) (\<lambda>tree.
     bind_res (template_exprs tree ctx) (\<lambda>used.
       let unaliased = map (\<lambda>(n, e). case e of AliasExpr e' _ \<Rightarrow> e' | _ \<Rightarrow> e) used
       in case order_by of
            None \<Rightarrow> Inl PyTypeError
          | Some es \<Rightarrow>
              Inr (SemanticExpr (SemanticReduceExpr t tree (map fst used) max_tok temp model timeout)
                (input # unaliased @ map (\<lambda>e. if is_sort e then e else SortExpr e True False) es))))"

definition validate_scalar_expr :: "LogicalExpr \<Rightarrow> unit res" where
  "validate_scalar_expr e =
     bind_res (raise_if (is_sort e) PlanError) (\<lambda>_. raise_if (is_aggregate e) PlanError)"

end
