(* ===== verification/ExprTyping.thy ===== *)
theory ExprTyping
  imports Expressions
begin

text \<open>
  The field each expression produces against a schema: \<^verbatim>\<open>to_column_field\<close> of the
  classes of \<^verbatim>\<open>src/fenic/core/_logical_plan/expressions/\<close>, with the type rules of
  casts, indexing, operators and case expressions and the dynamic return types, and the
  configuration checks of the semantic operators.  The lemmas show that typing reads only
  the columns an expression names, and what types and errors the operators give.
\<close>

text \<open>A loop that returns False at the first element that fails.\<close>

fun all_res :: "('a \<Rightarrow> bool res) \<Rightarrow> 'a list \<Rightarrow> bool res" where
  "all_res f [] = Inr True"
| "all_res f (x # xs) = bind_res (f x) (\<lambda>b. if b then all_res f xs else Inr False)"

lemma all_res_cong [fundef_cong]:
  "xs = ys \<Longrightarrow> (\<And>x. x \<in> set ys \<Longrightarrow> f x = g x) \<Longrightarrow> all_res f xs = all_res g ys"
proof (induction ys arbitrary: xs)
  case (Cons y ys)
  then have "all_res f ys = all_res g ys" by simp
  with Cons.prems show ?case by (cases xs) (simp_all cong: if_cong)
qed simp

section \<open>Casts\<close>

definition unimplemented :: "DataType \<Rightarrow> bool" where
  "unimplemented d \<longleftrightarrow> type_of d \<in> set [HtmlCls, TranscriptCls, DocumentPathCls]"

text \<open>
  The branch for embeddings returns an exception instead of raising it, and an exception
  object is true.
\<close>

function can_cast :: "DataType \<Rightarrow> DataType \<Rightarrow> bool res" where
  "can_cast src dst =
     (if unimplemented src \<or> unimplemented dst then Inl PyNotImplementedError
      else if isinstance src EmbeddingCls then Inr True
      else if (dtype_eq src (ArrayType FloatType) \<or> dtype_eq src (ArrayType DoubleType)) \<and>
              isinstance dst EmbeddingCls then Inr True
      else if dtype_eq src dst then Inr True
      else if dtype_eq dst MarkdownType then can_cast src StringType
      else if dtype_eq src MarkdownType then can_cast StringType dst
      else if dtype_eq dst JsonType \<or> dtype_eq src JsonType then Inr True
      else if isinstance src PrimitiveCls \<and> isinstance dst PrimitiveCls then
        (if dtype_eq src StringType \<and> dtype_eq dst BooleanType then Inr False
         else if dtype_eq src BooleanType \<and> (dtype_eq dst DateType \<or> dtype_eq dst TimestampType)
         then Inr False
         else if (dtype_eq src DateType \<or> dtype_eq src TimestampType) \<and> dtype_eq dst BooleanType
         then Inr False
         else Inr True)
      else if isinstance src ArrayCls \<and> isinstance dst ArrayCls
      then can_cast (element_type src) (element_type dst)
      else if isinstance src StructCls \<and> isinstance dst StructCls then
        (let src_fields = dict_of (map (\<lambda>f. (sf_name f, sf_type f)) (struct_fields src));
             dst_fields = dict_of (map (\<lambda>f. (sf_name f, sf_type f)) (struct_fields dst))
         in all_res
              (\<lambda>(n, t). case map_of src_fields n of
                          None \<Rightarrow> Inr True
                        | Some s \<Rightarrow> can_cast s t)
              dst_fields)
      else Inr False)"
  by pat_completeness auto

lemma dict_of_subset: "(k, v) \<in> set (dict_of kvs) \<Longrightarrow> (k, v) \<in> set kvs"
  using map_of_is_SomeI [OF distinct_dict_of, of k v kvs] by (auto dest: map_of_SomeD)

lemma size_field_dict:
  "(n, t) \<in> set (dict_of (map (\<lambda>f. (sf_name f, sf_type f)) fs)) \<Longrightarrow> size t < size (StructType fs)"
  by (auto dest!: dict_of_subset size_sf_type)

termination can_cast
proof (relation "measure (\<lambda>(s, d). 2 * size s + 2 * size d + of_bool (s = MarkdownType) + of_bool (d = MarkdownType))",
    goal_cases)
  case (5 src dst src_fields dst_fields p n t s)
  then obtain fs gs where fs: "src = StructType fs" "dst = StructType gs"
    by (auto simp: is_StructType_def)
  have "(n, t) \<in> set (dict_of (map (\<lambda>f. (sf_name f, sf_type f)) gs))" using 5 fs by simp
  then have t: "size t < size dst" using fs(2) size_field_dict by blast
  have "map_of src_fields n = Some s" by fact
  then have "(n, s) \<in> set src_fields" by (rule map_of_SomeD)
  moreover have "src_fields = dict_of (map (\<lambda>f. (sf_name f, sf_type f)) fs)" using 5 fs(1) by simp
  ultimately have "(n, s) \<in> set (dict_of (map (\<lambda>f. (sf_name f, sf_type f)) fs))" by simp
  then have u: "size s < size src" using fs(1) size_field_dict by blast
  have "of_bool (s = MarkdownType) \<le> (1 :: nat)" "of_bool (t = MarkdownType) \<le> (1 :: nat)" by simp_all
  with t u show ?case unfolding in_measure prod.case by linarith
qed (auto simp: dtype_eq_iff_eq is_ArrayType_def)

declare can_cast.simps [simp del]

section \<open>Fields of expressions\<close>

definition field_type :: "ColumnField res \<Rightarrow> DataType res" where
  "field_type r = bind_res r (\<lambda>f. Inr (cf_type f))"

lemma field_type_Inr: "field_type r = Inr d \<longleftrightarrow> (\<exists>f. r = Inr f \<and> cf_type f = d)"
  by (auto simp: field_type_def)

definition column_field :: "Schema \<Rightarrow> string \<Rightarrow> ColumnField res" where
  "column_field s n = (case find_field s n of None \<Rightarrow> Inl PyValueError | Some f \<Rightarrow> Inr f)"

text \<open>Indexing an array or a struct; the struct case needs the literal itself.\<close>

definition index_type :: "DataType \<Rightarrow> DataType \<Rightarrow> LogicalExpr \<Rightarrow> DataType res" where
  "index_type expr_type idx_type idx =
     (if isinstance expr_type ArrayCls then
        (if \<not> dtype_eq idx_type IntegerType then Inl TypeMismatchError
         else Inr (element_type expr_type))
      else if isinstance expr_type StructCls then
        (case idx of
           LiteralExpr v d \<Rightarrow>
             if \<not> dtype_eq d StringType then Inl TypeMismatchError
             else (case List.find (\<lambda>f. PyStr (sf_name f) = v) (struct_fields expr_type) of
                     None \<Rightarrow> Inl ValidationError
                   | Some f \<Rightarrow> Inr (sf_type f))
         | _ \<Rightarrow> Inl TypeMismatchError)
      else Inl TypeMismatchError)"

definition arithmetic_type :: "DataType \<Rightarrow> DataType \<Rightarrow> DataType res" where
  "arithmetic_type l r =
     (if \<not> is_dtype_numeric l \<or> \<not> is_dtype_numeric r then Inl PyTypeError
      else if is_DoubleType l \<or> is_DoubleType r then Inr DoubleType
      else if is_FloatType l \<or> is_FloatType r then Inr FloatType
      else Inr IntegerType)"

definition equality_type :: "DataType \<Rightarrow> DataType \<Rightarrow> DataType res" where
  "equality_type l r = (if \<not> dtype_eq l r then Inl PyTypeError else Inr BooleanType)"

definition numeric_comparison_type :: "DataType \<Rightarrow> DataType \<Rightarrow> DataType res" where
  "numeric_comparison_type l r =
     (if \<not> is_dtype_numeric l \<or> \<not> is_dtype_numeric r then Inl PyTypeError else Inr BooleanType)"

definition boolean_type :: "DataType \<Rightarrow> DataType \<Rightarrow> DataType res" where
  "boolean_type l r =
     (if \<not> dtype_eq l BooleanType \<or> \<not> dtype_eq r BooleanType then Inl PyTypeError
      else Inr BooleanType)"

fun binary_type :: "BinaryClass \<Rightarrow> DataType \<Rightarrow> DataType \<Rightarrow> DataType res" where
  "binary_type ArithmeticExpr l r = arithmetic_type l r"
| "binary_type EqualityComparisonExpr l r = equality_type l r"
| "binary_type NumericComparisonExpr l r = numeric_comparison_type l r"
| "binary_type BooleanExpr l r = boolean_type l r"

text \<open>The dynamic return types.\<close>

definition struct_return_type :: "Env \<Rightarrow> LogicalExpr list \<Rightarrow> DataType list \<Rightarrow> DataType" where
  "struct_return_type env args ts =
     StructType (map (\<lambda>(a, t). StructField
       (case a of AliasExpr e n \<Rightarrow> n | _ \<Rightarrow> expr_str env a) t) (zip args ts))"

definition flatten_return_type :: "DataType list \<Rightarrow> DataType res" where
  "flatten_return_type ts =
     (let a = hd ts
      in if is_ArrayType a \<and> is_ArrayType (element_type a)
         then Inr (ArrayType (element_type (element_type a))) else Inl PyTypeError)"

definition element_return_type :: "DataType list \<Rightarrow> DataType res" where
  "element_return_type ts =
     (let a = hd ts in if is_ArrayType a then Inr (element_type a) else Inl PyTypeError)"

definition avg_return_type :: "DataType list \<Rightarrow> DataType" where
  "avg_return_type ts = (if is_EmbeddingType (hd ts) then hd ts else DoubleType)"

definition dynamic_return_type ::
  "Env \<Rightarrow> FnClass \<Rightarrow> LogicalExpr list \<Rightarrow> (DataType list \<Rightarrow> DataType res) option" where
  "dynamic_return_type env f args =
     (case f of
        ArrayExpr \<Rightarrow> Some (\<lambda>ts. Inr (ArrayType (hd ts)))
      | StructExpr \<Rightarrow> Some (\<lambda>ts. Inr (struct_return_type env args ts))
      | FlattenExpr \<Rightarrow> Some flatten_return_type
      | AvgExpr \<Rightarrow> Some (\<lambda>ts. Inr (avg_return_type ts))
      | ListExpr \<Rightarrow> Some (\<lambda>ts. Inr (ArrayType (hd ts)))
      | ArrayMaxExpr \<Rightarrow> Some element_return_type
      | ArrayMinExpr \<Rightarrow> Some element_return_type
      | ArrayRepeatExpr \<Rightarrow> Some (\<lambda>ts. Inr (ArrayType (hd ts)))
      | ArraySliceExpr \<Rightarrow> Some (\<lambda>ts. Inr (hd ts))
      | ElementAtExpr \<Rightarrow> Some element_return_type
      | TextExpr (TextractExpr _ fmt) \<Rightarrow> Some (\<lambda>ts. Inr (to_struct_schema fmt))
      | _ \<Rightarrow> None)"

text \<open>Checks some classes make before or after the default typing.\<close>

definition fn_pre_check :: "FnClass \<Rightarrow> DataType res list \<Rightarrow> unit res" where
  "fn_pre_check f arg_types =
     (case f of
        EmbeddingSimilarityExpr metric (Some vec) \<Rightarrow>
          (case arg_types of
             [] \<Rightarrow> Inl PyIndexError
           | t # _ \<Rightarrow> bind_res t (\<lambda>d.
               if is_EmbeddingType d
               then raise_if (dimensions d \<noteq> int (length vec)) ValidationError
               else Inl PyAttributeError))
      | _ \<Rightarrow> Inr ())"

definition fn_post_check :: "FnClass \<Rightarrow> DataType res list \<Rightarrow> unit res" where
  "fn_post_check f arg_types =
     (if f = GreatestExpr \<or> f = LeastExpr
      then (case arg_types of
              [] \<Rightarrow> Inl PyIndexError
            | t # _ \<Rightarrow> bind_res t (\<lambda>d. raise_if (\<not> is_primitive d) TypeMismatchError))
      else Inr ())"

section \<open>Semantic expressions\<close>

definition provider_value :: "ModelProvider \<Rightarrow> string" where
  "provider_value p =
     (case p of OPENAI \<Rightarrow> ''openai'' | ANTHROPIC \<Rightarrow> ''anthropic''
      | GOOGLE_DEVELOPER \<Rightarrow> ''google-developer'' | GOOGLE_VERTEX \<Rightarrow> ''google-vertex''
      | COHERE \<Rightarrow> ''cohere'' | OPENROUTER \<Rightarrow> ''openrouter'')"

definition embedding_type_from_config :: "Env \<Rightarrow> ResolvedModelAlias option \<Rightarrow> DataType res" where
  "embedding_type_from_config env model_alias =
     (case embedding_models env of
        None \<Rightarrow> Inl ValidationError
      | Some em \<Rightarrow>
          let name = (case model_alias of None \<Rightarrow> default_model em | Some a \<Rightarrow> alias_name a);
              profile = (case model_alias of None \<Rightarrow> None | Some a \<Rightarrow> alias_profile a)
          in case map_of (model_configs em) name of
               None \<Rightarrow> Inl ValidationError
             | Some c \<Rightarrow>
                 let params = embedding_catalog env (model_provider c) (model_name c);
                     default_dims = (case params of None \<Rightarrow> Inl PyAttributeError
                                                   | Some p \<Rightarrow> Inr (default_dimensions p))
                 in bind_res
                      (case config_class c of
                         GoogleModelConfig (Some ps) \<Rightarrow>
                           if ps = [] then default_dims
                           else
                             (let profile_name = (if truthy profile then profile else default_profile c)
                              in case (case profile_name of None \<Rightarrow> None | Some n \<Rightarrow> map_of ps n) of
                                   None \<Rightarrow> Inl ValidationError
                                 | Some pr \<Rightarrow>
                                     if truthy_int (go_dimensionality pr)
                                     then Inr (the (go_dimensionality pr)) else default_dims)
                       | _ \<Rightarrow> default_dims)
                      (\<lambda>dims. Inr (EmbeddingType dims
                         (provider_value (model_provider c) @ ''/'' @ model_name c))))"

text \<open>The check each semantic operator makes of its model parameters.\<close>

fun sem_validate_completion :: "Env \<Rightarrow> SemFn \<Rightarrow> unit res" where
  "sem_validate_completion env (SemanticMapExpr t s v m te a r to) =
     validate_completion_parameters a (SessionState.truncate env) (Some te) (Some m)"
| "sem_validate_completion env (SemanticExtractExpr m te r a to) =
     validate_completion_parameters a (SessionState.truncate env) (Some te) (Some m)"
| "sem_validate_completion env (SemanticPredExpr t s v te a to) =
     validate_completion_parameters a (SessionState.truncate env) (Some te) None"
| "sem_validate_completion env (SemanticReduceExpr i v ns m te a to) =
     validate_completion_parameters a (SessionState.truncate env) (Some te) (Some m)"
| "sem_validate_completion env (SemanticClassifyExpr c te a to) =
     validate_completion_parameters a (SessionState.truncate env) (Some te) None"
| "sem_validate_completion env (AnalyzeSentimentExpr te a to) =
     validate_completion_parameters a (SessionState.truncate env) (Some te) None"
| "sem_validate_completion env (EmbeddingsExpr a) = Inr ()"
| "sem_validate_completion env (SemanticSummarizeExpr f te a to) =
     validate_completion_parameters a (SessionState.truncate env) (Some te) None"
| "sem_validate_completion env (SemanticParsePDFExpr a p d m to) =
     validate_model_support_for_pdf_parsing a (SessionState.truncate env)"

text \<open>Each template argument is typed and checked against the tree, in order.\<close>

definition template_args_check ::
  "VariableTree \<Rightarrow> (LogicalExpr \<Rightarrow> DataType res) \<Rightarrow> LogicalExpr list \<Rightarrow> unit res" where
  "template_args_check tree typ args =
     each_res (\<lambda>a. bind_res (typ a) (\<lambda>d. bind_res (name_attr a) (\<lambda>n. validate_jinja_variable tree n d))) args"

lemma template_args_check_cong [fundef_cong]:
  "tree = tree' \<Longrightarrow> args = args' \<Longrightarrow> (\<And>x. x \<in> set args' \<Longrightarrow> f x = g x) \<Longrightarrow>
   template_args_check tree f args = template_args_check tree' g args'"
  by (simp add: template_args_check_def cong: each_res_cong)

definition reduce_check ::
  "VariableTree \<Rightarrow> string list \<Rightarrow> (LogicalExpr \<Rightarrow> DataType res) \<Rightarrow> LogicalExpr list \<Rightarrow> unit res" where
  "reduce_check tree names typ args =
     (case args of
        [] \<Rightarrow> Inl PyIndexError
      | input # rest \<Rightarrow>
          bind_res (typ input) (\<lambda>d.
          bind_res (raise_if (\<not> dtype_eq d StringType) TypeMismatchError) (\<lambda>_.
          bind_res (each_res (\<lambda>(n, a). bind_res (typ a) (\<lambda>t. validate_jinja_variable tree n t))
                      (zip names rest)) (\<lambda>_.
            each_res (\<lambda>a. bind_res (typ a) (\<lambda>t. Inr ())) (drop (length names) rest)))))"

lemma reduce_check_cong [fundef_cong]:
  assumes "tree = tree'" "names = names'" "args = args'" "\<And>x. x \<in> set args' \<Longrightarrow> f x = g x"
  shows "reduce_check tree names f args = reduce_check tree' names' g args'"
proof (cases args')
  case (Cons input rest)
  have "each_res (\<lambda>(n, a). bind_res (f a) (\<lambda>t. validate_jinja_variable tree n t)) (zip names rest) =
      each_res (\<lambda>(n, a). bind_res (g a) (\<lambda>t. validate_jinja_variable tree n t)) (zip names rest)"
    using assms(4) Cons by (intro each_res_cong) (auto dest: set_zip_rightD)
  moreover have "each_res (\<lambda>a. bind_res (f a) (\<lambda>t. Inr ())) (drop (length names) rest) =
      each_res (\<lambda>a. bind_res (g a) (\<lambda>t. Inr ())) (drop (length names) rest)"
    using assms(4) Cons by (intro each_res_cong) (auto dest: in_set_dropD)
  ultimately show ?thesis using assms Cons by (simp add: reduce_check_def)
qed (use assms in \<open>simp add: reduce_check_def\<close>)

definition sem_type ::
  "Env \<Rightarrow> SemFn \<Rightarrow> (LogicalExpr \<Rightarrow> DataType res) \<Rightarrow> LogicalExpr list \<Rightarrow> DataType res" where
  "sem_type env f typ args =
     bind_res (sem_validate_completion env f) (\<lambda>_.
       case f of
         SemanticMapExpr t s tree m te a r to \<Rightarrow>
           bind_res (template_args_check tree typ args)
             (\<lambda>_. Inr (case r of None \<Rightarrow> StringType | Some rf \<Rightarrow> rf_struct_type rf))
       | SemanticPredExpr t s tree te a to \<Rightarrow>
           bind_res (template_args_check tree typ args) (\<lambda>_. Inr BooleanType)
       | SemanticReduceExpr i tree names m te a to \<Rightarrow>
           bind_res (reduce_check tree names typ args) (\<lambda>_. Inr StringType)
       | SemanticExtractExpr m te r a to \<Rightarrow>
           validator_infer ''semantic.extract'' typ args (Some (\<lambda>ts. Inr (rf_struct_type r)))
       | SemanticClassifyExpr c te a to \<Rightarrow> validator_infer ''semantic.classify'' typ args None
       | AnalyzeSentimentExpr te a to \<Rightarrow> validator_infer ''semantic.analyze_sentiment'' typ args None
       | EmbeddingsExpr a \<Rightarrow>
           validator_infer ''semantic.embed'' typ args (Some (\<lambda>ts. embedding_type_from_config env a))
       | SemanticSummarizeExpr fm te a to \<Rightarrow> validator_infer ''semantic.summarize'' typ args None
       | SemanticParsePDFExpr a p d m to \<Rightarrow> validator_infer ''semantic.parse_pdf'' typ args None)"

lemma sem_type_cong [fundef_cong]:
  assumes "env = env'" "f = f'" "args = args'" "\<And>x. x \<in> set args' \<Longrightarrow> t x = u x"
  shows "sem_type env f t args = sem_type env' f' u args'"
proof -
  note congs = template_args_check_cong [OF refl refl, of args' t u]
    reduce_check_cong [OF refl refl refl, of args' t u]
    validator_infer_cong [OF refl refl refl, of args' t u]
  show ?thesis
    using assms by (simp add: sem_type_def congs split: SemFn.split)
qed

section \<open>Date expressions\<close>

definition is_temporal :: "DataType \<Rightarrow> bool" where
  "is_temporal d \<longleftrightarrow> dtype_eq d DateType \<or> dtype_eq d TimestampType"

definition resolve_temporal_type ::
  "(LogicalExpr \<Rightarrow> DataType res) \<Rightarrow> LogicalExpr \<Rightarrow> DataType res" where
  "resolve_temporal_type typ e =
     bind_res (typ e) (\<lambda>d. if is_temporal d then Inr d else Inl PyTypeError)"

text \<open>The argument at a position of the children, of which every class has a fixed number.\<close>

definition with_arg :: "LogicalExpr list \<Rightarrow> nat \<Rightarrow> (LogicalExpr \<Rightarrow> 'a res) \<Rightarrow> 'a res" where
  "with_arg args i k = (if i < length args then k (args ! i) else Inl PyIndexError)"

lemma with_arg_cong [fundef_cong]:
  "args = args' \<Longrightarrow> i = i' \<Longrightarrow> (\<And>x. x \<in> set args' \<Longrightarrow> f x = g x) \<Longrightarrow> with_arg args i f = with_arg args' i' g"
  by (simp add: with_arg_def)

lemma resolve_cong: "typ e = typ' e \<Longrightarrow> resolve_temporal_type typ e = resolve_temporal_type typ' e"
  by (simp add: resolve_temporal_type_def)

definition temporal_arg ::
  "(LogicalExpr \<Rightarrow> DataType res) \<Rightarrow> LogicalExpr list \<Rightarrow> nat \<Rightarrow> DataType res" where
  "temporal_arg typ args i = with_arg args i (resolve_temporal_type typ)"

definition require_arg ::
  "(LogicalExpr \<Rightarrow> DataType res) \<Rightarrow> LogicalExpr list \<Rightarrow> nat \<Rightarrow> DataType \<Rightarrow> unit res" where
  "require_arg typ args i d =
     with_arg args i (\<lambda>e. bind_res (typ e) (\<lambda>t. raise_if (\<not> dtype_eq t d) PyTypeError))"

lemma temporal_arg_cong:
  "(\<And>x. x \<in> set args \<Longrightarrow> typ x = typ' x) \<Longrightarrow> temporal_arg typ args i = temporal_arg typ' args i"
  unfolding temporal_arg_def by (intro with_arg_cong resolve_cong) simp_all

lemma require_arg_cong:
  "(\<And>x. x \<in> set args \<Longrightarrow> typ x = typ' x) \<Longrightarrow> require_arg typ args i d = require_arg typ' args i d"
  unfolding require_arg_def by (intro with_arg_cong) simp_all

definition dt_type :: "DtFn \<Rightarrow> (LogicalExpr \<Rightarrow> DataType res) \<Rightarrow> LogicalExpr list \<Rightarrow> DataType res" where
  "dt_type f typ args =
     (case f of
        ToDateExpr _ _ \<Rightarrow> bind_res (require_arg typ args 0 StringType) (\<lambda>_. Inr DateType)
      | ToTimestampExpr _ _ \<Rightarrow> bind_res (require_arg typ args 0 StringType) (\<lambda>_. Inr TimestampType)
      | NowExpr as_date \<Rightarrow> Inr (if as_date then DateType else TimestampType)
      | DateTruncExpr _ _ \<Rightarrow> temporal_arg typ args 0
      | DateAddExpr _ \<Rightarrow> bind_res (temporal_arg typ args 0) (\<lambda>t.
          bind_res (require_arg typ args 1 IntegerType) (\<lambda>_. Inr t))
      | TimestampAddExpr _ _ \<Rightarrow> bind_res (temporal_arg typ args 0) (\<lambda>t.
          bind_res (require_arg typ args 1 IntegerType) (\<lambda>_. Inr t))
      | DateFormatExpr _ _ \<Rightarrow> bind_res (temporal_arg typ args 0) (\<lambda>_. Inr StringType)
      | DateDiffExpr \<Rightarrow> bind_res (temporal_arg typ args 1) (\<lambda>_.
          bind_res (temporal_arg typ args 0) (\<lambda>_. Inr IntegerType))
      | TimestampDiffExpr _ \<Rightarrow> bind_res (temporal_arg typ args 0) (\<lambda>_.
          bind_res (temporal_arg typ args 1) (\<lambda>_. Inr IntegerType))
      | ToUTCTimestampExpr _ \<Rightarrow> bind_res (temporal_arg typ args 0) (\<lambda>_. Inr TimestampType)
      | FromUTCTimestampExpr _ \<Rightarrow> bind_res (temporal_arg typ args 0) (\<lambda>_. Inr TimestampType)
      | _ \<Rightarrow> bind_res (temporal_arg typ args 0) (\<lambda>_. Inr IntegerType))"

lemma dt_type_cong [fundef_cong]:
  assumes "f = f'" "args = args'" "\<And>x. x \<in> set args' \<Longrightarrow> t x = u x"
  shows "dt_type f t args = dt_type f' u args'"
proof -
  have "temporal_arg t args' i = temporal_arg u args' i" "require_arg t args' i d = require_arg u args' i d" for i d
    using assms(3) by (intro temporal_arg_cong require_arg_cong; simp)+
  with assms(1,2) show ?thesis by (simp only: dt_type_def)
qed

section \<open>\<open>to_column_field\<close>\<close>

fun to_column_field :: "Env \<Rightarrow> Schema \<Rightarrow> LogicalExpr \<Rightarrow> ColumnField res" where
  "to_column_field env s (ColumnExpr n) = column_field s n"
| "to_column_field env s (LiteralExpr v d) = Inr (mk_field (expr_str env (LiteralExpr v d)) d)"
| "to_column_field env s (UnresolvedLiteralExpr d p) =
     Inr (mk_field (expr_str env (UnresolvedLiteralExpr d p)) d)"
| "to_column_field env s (AliasExpr e n) =
     bind_res (field_type (to_column_field env s e)) (\<lambda>d. Inr (mk_field n d))"
| "to_column_field env s (SortExpr e a l) =
     bind_res (field_type (to_column_field env s e))
       (\<lambda>d. Inr (mk_field (expr_str env (SortExpr e a l)) d))"
| "to_column_field env s (IndexExpr e i) =
     bind_res (field_type (to_column_field env s e)) (\<lambda>et.
     bind_res (field_type (to_column_field env s i)) (\<lambda>it.
     bind_res (index_type et it i) (\<lambda>d. Inr (mk_field (expr_str env (IndexExpr e i)) d))))"
| "to_column_field env s (UDFExpr f args t) =
     bind_res (each_res (\<lambda>a. bind_res (to_column_field env s a) (\<lambda>_. Inr ())) args)
       (\<lambda>_. Inr (mk_field (expr_str env (UDFExpr f args t)) t))"
| "to_column_field env s (AsyncUDFExpr f args t c to n) =
     bind_res (each_res (\<lambda>a. bind_res (to_column_field env s a) (\<lambda>_. Inr ())) args)
       (\<lambda>_. Inr (mk_field (expr_str env (AsyncUDFExpr f args t c to n)) t))"
| "to_column_field env s (IsNullExpr e b) =
     bind_res (to_column_field env s e)
       (\<lambda>_. Inr (mk_field (expr_str env (IsNullExpr e b)) BooleanType))"
| "to_column_field env s (CastExpr e dst) =
     bind_res (field_type (to_column_field env s e)) (\<lambda>src.
     bind_res (can_cast src dst) (\<lambda>ok.
       if \<not> ok then Inl PlanError else Inr (mk_field (expr_str env (CastExpr e dst)) dst)))"
| "to_column_field env s (NotExpr e) =
     bind_res (field_type (to_column_field env s e)) (\<lambda>d.
       if \<not> dtype_eq d BooleanType then Inl PyTypeError
       else Inr (mk_field (expr_str env (NotExpr e)) BooleanType))"
| "to_column_field env s (InExpr e other) =
     bind_res (field_type (to_column_field env s other)) (\<lambda>ot.
       if \<not> isinstance ot ArrayCls then Inl TypeMismatchError
       else bind_res (field_type (to_column_field env s e)) (\<lambda>et.
         if \<not> dtype_eq et (element_type ot) then Inl TypeMismatchError
         else Inr (mk_field (expr_str env (InExpr e other)) BooleanType)))"
| "to_column_field env s (BinaryExpr c l r op) =
     bind_res (field_type (to_column_field env s l)) (\<lambda>lt.
     bind_res (field_type (to_column_field env s r)) (\<lambda>rt.
     bind_res (binary_type c lt rt) (\<lambda>d. Inr (mk_field (expr_str env (BinaryExpr c l r op)) d))))"
| "to_column_field env s (WhenExpr e c v) =
     bind_res
       (case e of
          None \<Rightarrow> Inr ()
        | Some w \<Rightarrow>
            bind_res (field_type (to_column_field env s w)) (\<lambda>et.
            bind_res (field_type (to_column_field env s v)) (\<lambda>vt.
              raise_if (\<not> dtype_eq et vt) TypeMismatchError)))
       (\<lambda>_. bind_res (field_type (to_column_field env s c)) (\<lambda>ct.
              if \<not> dtype_eq ct BooleanType then Inl TypeMismatchError
              else to_column_field env s v))"
| "to_column_field env s (OtherwiseExpr e v) =
     bind_res (field_type (to_column_field env s e)) (\<lambda>et.
     bind_res (to_column_field env s v) (\<lambda>vf.
       if \<not> dtype_eq et (cf_type vf) then Inl TypeMismatchError else Inr vf))"
| "to_column_field env s (FunctionExpr f args) =
     bind_res (fn_pre_check f (map (\<lambda>a. field_type (to_column_field env s a)) args)) (\<lambda>_.
     bind_res (validator_infer (function_name_of f) (\<lambda>a. field_type (to_column_field env s a)) args
                 (dynamic_return_type env f args)) (\<lambda>d.
     bind_res (fn_post_check f (map (\<lambda>a. field_type (to_column_field env s a)) args))
       (\<lambda>_. Inr (mk_field (expr_str env (FunctionExpr f args)) d))))"
| "to_column_field env s (SemanticExpr f args) =
     bind_res (sem_type env f (\<lambda>a. field_type (to_column_field env s a)) args)
       (\<lambda>d. Inr (mk_field (expr_str env (SemanticExpr f args)) d))"
| "to_column_field env s (DateTimeExpr f args) =
     bind_res (dt_type f (\<lambda>a. field_type (to_column_field env s a)) args)
       (\<lambda>d. Inr (mk_field (expr_str env (DateTimeExpr f args)) d))"
| "to_column_field env s (JinjaExpr t strict tree args) =
     bind_res (template_args_check tree (\<lambda>a. field_type (to_column_field env s a)) args)
       (\<lambda>_. Inr (mk_field (expr_str env (JinjaExpr t strict tree args)) StringType))"

section \<open>Typing reads only the named columns\<close>

text \<open>The columns an expression names, anywhere below it.\<close>

fun expr_columns :: "LogicalExpr \<Rightarrow> string set" where
  "expr_columns e =
     (case e of ColumnExpr n \<Rightarrow> {n} | _ \<Rightarrow> {}) \<union> (\<Union>c \<in> set (expr_children e). expr_columns c)"

declare expr_columns.simps [simp del]

lemma expr_columns_Column: "expr_columns (ColumnExpr n) = {n}"
  by (subst expr_columns.simps) simp

lemma expr_columns_child: "c \<in> set (expr_children e) \<Longrightarrow> expr_columns c \<subseteq> expr_columns e"
  by (subst (2) expr_columns.simps) auto

definition agree_on :: "string set \<Rightarrow> Schema \<Rightarrow> Schema \<Rightarrow> bool" where
  "agree_on ns s s' \<longleftrightarrow> (\<forall>n \<in> ns. find_field s n = find_field s' n)"

lemma agree_child:
  "agree_on (expr_columns e) s s' \<Longrightarrow> c \<in> set (expr_children e) \<Longrightarrow> agree_on (expr_columns c) s s'"
  using expr_columns_child by (fastforce simp: agree_on_def)

lemma typing_local:
  "agree_on (expr_columns e) s s' \<Longrightarrow> to_column_field env s e = to_column_field env s' e"
proof (induction "size e" arbitrary: e rule: less_induct)
  case less
  have IH: "to_column_field env s c = to_column_field env s' c" if "c \<in> set (expr_children e)" for c
    using less.hyps [OF size_expr_child [OF that]] agree_child [OF less.prems that] by blast
  show ?case
  proof (cases e)
    case (ColumnExpr n)
    with less.prems show ?thesis by (simp add: agree_on_def expr_columns_Column column_field_def)
  next
    case (UDFExpr f args t)
    with IH show ?thesis by (auto cong: each_res_cong)
  next
    case (AsyncUDFExpr f args t c to n)
    with IH show ?thesis by (auto cong: each_res_cong)
  next
    case (WhenExpr w c v)
    with IH show ?thesis by (cases w) (auto cong: if_cong)
  next
    case (FunctionExpr f args)
    then have a: "map (\<lambda>a. field_type (to_column_field env s a)) args = map (\<lambda>a. field_type (to_column_field env s' a)) args"
      using IH by simp
    have "validator_infer (function_name_of f) (\<lambda>a. field_type (to_column_field env s a)) args d =
        validator_infer (function_name_of f) (\<lambda>a. field_type (to_column_field env s' a)) args d" for d
      using IH FunctionExpr by (intro validator_infer_cong) auto
    note v = this
    show ?thesis by (simp only: FunctionExpr to_column_field.simps a v)
  next
    case (SemanticExpr f args)
    have "sem_type env f (\<lambda>a. field_type (to_column_field env s a)) args =
        sem_type env f (\<lambda>a. field_type (to_column_field env s' a)) args"
      using IH SemanticExpr by (intro sem_type_cong) auto
    with SemanticExpr show ?thesis by simp
  next
    case (DateTimeExpr f args)
    have "dt_type f (\<lambda>a. field_type (to_column_field env s a)) args =
        dt_type f (\<lambda>a. field_type (to_column_field env s' a)) args"
      using IH DateTimeExpr by (intro dt_type_cong) auto
    with DateTimeExpr show ?thesis by simp
  next
    case (JinjaExpr t strict tree args)
    have "template_args_check tree (\<lambda>a. field_type (to_column_field env s a)) args =
        template_args_check tree (\<lambda>a. field_type (to_column_field env s' a)) args"
      using IH JinjaExpr by (intro template_args_check_cong) auto
    with JinjaExpr show ?thesis by simp
  qed (use IH in \<open>auto cong: if_cong\<close>)
qed

section \<open>Types of operators\<close>

lemma binary_type_boolean:
  "c \<noteq> ArithmeticExpr \<Longrightarrow> binary_type c l r = Inr d \<Longrightarrow> d = BooleanType"
  by (cases c) (auto simp: equality_type_def numeric_comparison_type_def boolean_type_def split: if_splits)

lemma arithmetic_is_promotion:
  "arithmetic_type l r = (if is_dtype_numeric l \<and> is_dtype_numeric r then promote_types [l, r] else Inl PyTypeError)"
  by (auto simp: arithmetic_type_def promote_types_def dtype_eq_iff_eq is_dtype_numeric_cases)

text \<open>A WHEN chain: the type of the whole is the type of each of its values.\<close>

fun case_values :: "LogicalExpr \<Rightarrow> LogicalExpr list" where
  "case_values (WhenExpr e c v) = (case e of None \<Rightarrow> [] | Some w \<Rightarrow> case_values w) @ [v]"
| "case_values (OtherwiseExpr e v) = case_values e @ [v]"
| "case_values _ = []"

fun case_conditions :: "LogicalExpr \<Rightarrow> LogicalExpr list" where
  "case_conditions (WhenExpr e c v) = (case e of None \<Rightarrow> [] | Some w \<Rightarrow> case_conditions w) @ [c]"
| "case_conditions (OtherwiseExpr e v) = case_conditions e"
| "case_conditions _ = []"

lemma case_typing:
  "field_type (to_column_field env s e) = Inr d \<Longrightarrow>
     (\<forall>v \<in> set (case_values e). field_type (to_column_field env s v) = Inr d) \<and>
     (\<forall>c \<in> set (case_conditions e). field_type (to_column_field env s c) = Inr BooleanType)"
proof (induction e arbitrary: d rule: case_values.induct)
  case (1 e c v)
  then show ?case
    by (cases e) (auto simp: field_type_Inr dtype_eq_iff_eq split: if_splits)
next
  case (2 e v)
  then show ?case
    by (auto simp: field_type_Inr dtype_eq_iff_eq split: if_splits)
qed auto

text \<open>Which names are registered, and whether their return type is dynamic.\<close>

definition dynamic_table :: "(string \<times> bool) list" where
  "dynamic_table = map (\<lambda>(k, n, s, rt). (k, rt = DYNAMIC)) all_registrations"

lemma dynamic_table_eq: "dynamic_table =
    [(''sum'', False), (''avg'', True), (''min'', False),
     (''max'', False), (''count'', False), (''collect_list'', True),
     (''first'', False), (''stddev'', False), (''approx_count_distinct'', False),
     (''count_distinct'', False), (''sum_distinct'', False), (''array_size'', False),
     (''array_distinct'', False), (''array_contains'', False), (''array_max'', True),
     (''array_min'', True), (''array_sort'', False), (''array_reverse'', False),
     (''array_remove'', False), (''array_union'', False), (''array_intersect'', False),
     (''array_except'', False), (''array_compact'', False), (''array_repeat'', True),
     (''slice'', True), (''element_at'', True), (''arrays_overlap'', False),
     (''array'', True), (''struct'', True), (''coalesce'', False),
     (''greatest'', False), (''least'', False), (''flatten'', True),
     (''embedding.normalize'', False), (''embedding.compute_similarity'', False), (''json.jq'', False),
     (''json.type'', False), (''json.contains'', False), (''markdown.to_json'', False),
     (''markdown.get_code_blocks'', False), (''markdown.generate_toc'', False), (''markdown.extract_header_chunks'', False),
     (''semantic.extract'', True), (''semantic.classify'', False), (''semantic.analyze_sentiment'', False),
     (''semantic.embed'', True), (''semantic.summarize'', False), (''semantic.parse_pdf'', False),
     (''text.extract'', True), (''text.chunk'', False), (''text.recursive_chunk'', False),
     (''text.count_tokens'', False), (''text.concat'', False), (''text.array_join'', False),
     (''text.contains'', False), (''text.contains_any'', False), (''text.rlike'', False),
     (''text.like'', False), (''text.ilike'', False), (''text.parse_transcript'', False),
     (''text.starts_with'', False), (''text.ends_with'', False), (''text.regexp_split'', False),
     (''text.regexp_count'', False), (''text.regexp_extract'', False), (''text.regexp_extract_all'', False),
     (''text.regexp_instr'', False), (''text.regexp_substr'', False), (''text.split_part'', False),
     (''text.string_casing'', False), (''text.strip_chars'', False), (''text.replace'', False),
     (''text.str_length'', False), (''text.byte_length'', False), (''text.fuzzy_ratio'', False),
     (''text.fuzzy_token_sort_ratio'', False), (''text.fuzzy_token_set_ratio'', False)]"
  by (simp add: dynamic_table_def all_registrations_def registration_defs)

lemma dynamic_table_signature:
  assumes "map_of dynamic_table n = Some b"
  shows "\<exists>sig. get_signature function_registry n = Inr sig \<and> (return_type sig = DYNAMIC \<longleftrightarrow> b)"
proof -
  obtain s rt m where "(n, m, s, rt) \<in> set all_registrations" "b = (rt = DYNAMIC)"
    using map_of_SomeD [OF assms] by (auto simp: dynamic_table_def)
  then have "signature_of (n, m, s, rt) \<in> set function_registry"
    unfolding function_registry_def set_map by (intro imageI)
  then show ?thesis using \<open>b = (rt = DYNAMIC)\<close> by (auto dest!: get_signature_registered)
qed

lemma class_in_table:
  "map_of dynamic_table (function_name_of f) = Some (dynamic_return_type env f args \<noteq> None)"
proof (cases "\<exists>g. f = TextExpr g")
  case True
  then obtain g where "f = TextExpr g" by blast
  then show ?thesis by (cases g) (simp_all add: dynamic_table_eq dynamic_return_type_def)
next
  case False
  then show ?thesis by (cases f) (simp_all add: dynamic_table_eq dynamic_return_type_def)
qed

section \<open>Properties\<close>

text \<open>A session without models, for the examples.\<close>

definition example_env :: Env where
  "example_env = \<lparr>language_models = None, embedding_models = None, completion_catalog = (\<lambda>_ _. None),
     embedding_catalog = (\<lambda>_ _. None), get_content_hash = take 8\<rparr>"

text \<open>The written equality of expressions is an equivalence that identifies exactly the
  expressions of the same shape and the same compared attributes: everything but a
  function's name, the flag of count-distinct, a template's derived tree and a response
  format beyond its fingerprint.\<close>

theorem expr_eq_exact:
  "(expr_eq e e' \<longleftrightarrow> erase e = erase e') \<and> expr_eq e e \<and> (expr_eq e e' \<longleftrightarrow> expr_eq e' e)"
  by (auto simp: expr_eq_erase)

text \<open>Count-distinct with and without the null flag compare as equal, although they
  are different aggregates.\<close>

theorem count_distinct_flag_ignored:
  "expr_eq (FunctionExpr (CountDistinctExpr True) args) (FunctionExpr (CountDistinctExpr False) args) \<and>
   FunctionExpr (CountDistinctExpr True) args \<noteq> FunctionExpr (CountDistinctExpr False) args"
  by (simp add: expr_eq_erase)

text \<open>C32. Typing is local: the field of an expression, or the error it raises, depends on the
  schema only through the columns named in the expression.\<close>

theorem typing_depends_on_named_columns:
  assumes "\<forall>n \<in> expr_columns e. find_field s n = find_field s' n"
  shows "to_column_field env s e = to_column_field env s' e"
  using typing_local [of e s s' env] assms by (simp add: agree_on_def)

theorem typing_depends_on_named_columns_witness:
  "to_column_field example_env (mk_schema [mk_field ''a'' BooleanType, mk_field ''b'' StringType]) (NotExpr (ColumnExpr ''a''))
   = to_column_field example_env (mk_schema [mk_field ''a'' BooleanType]) (NotExpr (ColumnExpr ''a''))"
proof (rule typing_depends_on_named_columns)
  have "expr_columns (NotExpr (ColumnExpr ''a'')) = {''a''}"
    by (subst expr_columns.simps) (simp add: expr_columns_Column)
  then show "\<forall>n \<in> expr_columns (NotExpr (ColumnExpr ''a'')).
      find_field (mk_schema [mk_field ''a'' BooleanType, mk_field ''b'' StringType]) n =
      find_field (mk_schema [mk_field ''a'' BooleanType]) n"
    by (simp add: find_field_def)
qed

text \<open>C31. Type soundness of operators: a typed comparison or boolean connective has BooleanType,
  and its operands the types it demands; a typed arithmetic expression has the promotion of
  two numeric operand types.\<close>

theorem binary_typing:
  assumes "to_column_field env s (BinaryExpr c l r op) = Inr f"
  shows "\<exists>lt rt. field_type (to_column_field env s l) = Inr lt \<and> field_type (to_column_field env s r) = Inr rt \<and>
     (case c of
        ArithmeticExpr \<Rightarrow> is_dtype_numeric lt \<and> is_dtype_numeric rt \<and> promote_types [lt, rt] = Inr (cf_type f)
      | EqualityComparisonExpr \<Rightarrow> lt = rt \<and> cf_type f = BooleanType
      | NumericComparisonExpr \<Rightarrow> is_dtype_numeric lt \<and> is_dtype_numeric rt \<and> cf_type f = BooleanType
      | BooleanExpr \<Rightarrow> lt = BooleanType \<and> rt = BooleanType \<and> cf_type f = BooleanType)"
  using assms
  by (cases c)
    (auto simp: arithmetic_is_promotion equality_type_def numeric_comparison_type_def boolean_type_def
      dtype_eq_iff_eq split: if_splits)

theorem binary_typing_witness:
  "\<exists>f. to_column_field example_env (mk_schema [mk_field ''a'' FloatType])
     (BinaryExpr ArithmeticExpr (ColumnExpr ''a'') (LiteralExpr (PyInt 1) IntegerType) PLUS) = Inr f \<and>
     promote_types [FloatType, IntegerType] = Inr (cf_type f)"
proof -
  obtain f where f: "to_column_field example_env (mk_schema [mk_field ''a'' FloatType])
     (BinaryExpr ArithmeticExpr (ColumnExpr ''a'') (LiteralExpr (PyInt 1) IntegerType) PLUS) = Inr f"
    by (simp add: column_field_def find_field_def field_type_def arithmetic_type_def is_dtype_numeric_def)
  from binary_typing [OF f] have "promote_types [FloatType, IntegerType] = Inr (cf_type f)"
    by (simp add: column_field_def find_field_def field_type_def)
  with f show ?thesis by blast
qed

text \<open>Type soundness of case expressions: when a chain of when and otherwise is typed, every
  value in it has the type of the whole and every condition is boolean.\<close>

theorem case_branches_agree:
  assumes "to_column_field env s e = Inr f"
  shows "(\<forall>v \<in> set (case_values e). field_type (to_column_field env s v) = Inr (cf_type f)) \<and>
         (\<forall>c \<in> set (case_conditions e). field_type (to_column_field env s c) = Inr BooleanType)"
  using case_typing [of env s e "cf_type f"] assms by (simp add: field_type_def)

theorem case_branches_agree_witness:
  "field_type (to_column_field example_env (mk_schema [mk_field ''a'' BooleanType])
     (LiteralExpr (PyInt 2) IntegerType)) = Inr IntegerType"
proof -
  let ?w = "WhenExpr None (ColumnExpr ''a'') (LiteralExpr (PyInt 1) IntegerType)"
  have "to_column_field example_env (mk_schema [mk_field ''a'' BooleanType])
      (OtherwiseExpr ?w (LiteralExpr (PyInt 2) IntegerType))
      = Inr (mk_field (expr_str example_env (LiteralExpr (PyInt 2) IntegerType)) IntegerType)"
    by (simp add: column_field_def find_field_def field_type_def)
  from case_branches_agree [OF this] show ?thesis by simp
qed

text \<open>A cast from an embedding to any implemented type is accepted, because the branch that
  should refuse it returns the exception object, which is true.\<close>

theorem embedding_casts_accepted:
  assumes "\<not> unimplemented dst"
  shows "can_cast (EmbeddingType n m) dst = Inr True"
  by (subst can_cast.simps) (use assms in \<open>simp add: unimplemented_def\<close>)

theorem embedding_casts_accepted_witness:
  "can_cast (EmbeddingType 3 ''m'') BooleanType = Inr True"
  by (rule embedding_casts_accepted) (simp add: unimplemented_def)

text \<open>The cast table of primitive types: every cast between primitive types is accepted
  except from string to boolean and between boolean and date or timestamp; every implemented
  type casts to itself and, embeddings apart, to and from JSON.\<close>

theorem can_cast_table:
  "(is_primitive src \<and> is_primitive dst \<longrightarrow>
      can_cast src dst = Inr (\<not> (src = StringType \<and> dst = BooleanType \<or>
        src = BooleanType \<and> dst \<in> {DateType, TimestampType} \<or>
        src \<in> {DateType, TimestampType} \<and> dst = BooleanType))) \<and>
   (\<not> unimplemented src \<longrightarrow> can_cast src src = Inr True \<and> can_cast JsonType src = Inr True \<and>
      can_cast src JsonType = Inr True)"
proof (intro conjI impI)
  assume "is_primitive src \<and> is_primitive dst"
  then show "can_cast src dst = Inr (\<not> (src = StringType \<and> dst = BooleanType \<or>
        src = BooleanType \<and> dst \<in> {DateType, TimestampType} \<or>
        src \<in> {DateType, TimestampType} \<and> dst = BooleanType))"
    by (cases src; cases dst) (simp_all add: can_cast.simps unimplemented_def isinstance_def)
next
  assume u: "\<not> unimplemented src"
  show "can_cast src src = Inr True"
    by (subst can_cast.simps) (use u in \<open>simp add: dtype_eq_iff_eq\<close>)
  show "can_cast JsonType src = Inr True"
    using u by (cases src) (simp_all add: can_cast.simps [of JsonType] can_cast.simps [of StringType]
        unimplemented_def isinstance_def)
  show "can_cast src JsonType = Inr True"
    using u by (cases src) (simp_all add: can_cast.simps [of _ JsonType] unimplemented_def isinstance_def)
qed

theorem can_cast_table_witness:
  "can_cast IntegerType BooleanType = Inr True \<and> can_cast StringType BooleanType = Inr False"
  using can_cast_table [of IntegerType BooleanType] can_cast_table [of StringType BooleanType]
  by (simp add: isinstance_def)

text \<open>Similarity with a query vector over a column that is no embedding fails with
  AttributeError before its signature is checked.\<close>

theorem similarity_attribute_error:
  assumes "to_column_field env s e = Inr f" "\<not> is_EmbeddingType (cf_type f)"
  shows "to_column_field env s (FunctionExpr (EmbeddingSimilarityExpr metric (Some v)) [e]) = Inl PyAttributeError"
  using assms by (simp add: fn_pre_check_def field_type_def)

theorem similarity_attribute_error_witness:
  "to_column_field example_env (mk_schema [mk_field ''a'' StringType])
     (FunctionExpr (EmbeddingSimilarityExpr ''cosine'' (Some [''1.0''])) [ColumnExpr ''a'']) = Inl PyAttributeError"
  by (rule similarity_attribute_error [of _ _ _ "mk_field ''a'' StringType"])
    (simp_all add: column_field_def find_field_def)

text \<open>Every class of function expressions agrees with the signature registry: its name is
  registered, and the class computes its own return type exactly when the registered return
  type is dynamic.  So typing never fails for a missing signature or a missing computation.\<close>

theorem class_signatures_match:
  "\<exists>sig. get_signature function_registry (function_name_of f) = Inr sig \<and>
     (return_type sig = DYNAMIC \<longleftrightarrow> dynamic_return_type env f args \<noteq> None)"
  by (intro dynamic_table_signature class_in_table)

text \<open>Equality does not see what the engine is told: conversions with different formats, adding
  and subtracting days, and the current date and time are equal pairwise.\<close>

theorem date_equality_blind:
  "expr_eq (DateTimeExpr (mk_to_date f) args) (DateTimeExpr (mk_to_date g) args) \<and>
   expr_eq (DateTimeExpr (mk_to_timestamp f) args) (DateTimeExpr (mk_to_timestamp g) args) \<and>
   expr_eq (DateTimeExpr (DateAddExpr False) args) (DateTimeExpr (DateAddExpr True) args) \<and>
   expr_eq (DateTimeExpr (NowExpr False) []) (DateTimeExpr (NowExpr True) [])"
  by (simp add: expr_eq_erase dt_compared_blind)

text \<open>A truncated, formatted or shifted date is named after the unit alone, so the columns
  computed from two different columns have the same name.\<close>

theorem date_names_ignore_column:
  "expr_str env (DateTimeExpr (DateTruncExpr u p) [ColumnExpr a]) =
   expr_str env (DateTimeExpr (DateTruncExpr u p) [ColumnExpr b]) \<and>
   expr_str env (DateTimeExpr (mk_date_format fmt) [ColumnExpr a]) =
   expr_str env (DateTimeExpr (mk_date_format fmt) [ColumnExpr b])"
  by (simp add: mk_date_format_def)

text \<open>A LIKE pattern is accepted only when it happens to be a regular expression.\<close>

theorem like_pattern_must_be_regex:
  assumes "\<not> valid_regex p"
  shows "mk_like valid_regex e (LiteralExpr (PyStr p) StringType) = Inl ValidationError"
  using assms by (simp add: mk_like_def mk_pattern_expr_def check_pattern_def)

end
