(* ===== verification/Plans.thy ===== *)
theory Plans
  imports ExprTyping
begin

text \<open>
  Logical plans (\<^verbatim>\<open>src/fenic/core/_logical_plan/plans/\<close>): the node classes with their plain
  attributes, their construction from a session or from a schema, the schema each builds from
  its children, the copy of a node over new children, equality, and the traversals of
  \<^verbatim>\<open>walker.py\<close>.  A plan is its class with attributes, its children, its schema and its
  cache information.  What the code asks of polars, DuckDB, sqlglot, jinja2, the file system
  and the catalog is a field of the environment.  Plan texts and join examples are not
  modelled.  The lemmas show what every constructed plan guarantees and that a plan is rebuilt
  unchanged over children of the same schemas.
\<close>

section \<open>Environment\<close>

text \<open>
  Beside the session of the expressions: the schema of a polars data frame, the schemas DuckDB
  infers from files under the options a reader passes, the catalog, the check of document paths, the parser of templates, the
  names \<^verbatim>\<open>generate_unique_view_name\<close> returns in turn, and DuckDB's plan of a query over
  views.
\<close>

record FileOptions =
  merge_schemas :: "bool option"
  read_schema :: "Schema option"

record PlanEnv = Env +
  polars_schema :: "nat \<Rightarrow> Schema"
  infer_schema :: "string list \<Rightarrow> string \<Rightarrow> FileOptions \<Rightarrow> Schema option"
  does_table_exist :: "string \<Rightarrow> bool"
  describe_table :: "string \<Rightarrow> Schema"
  validate_paths :: "string list \<Rightarrow> unit res"
  parse_template :: "string \<Rightarrow> JNode res"
  unique_view_name :: "nat \<Rightarrow> string"
  plan_query :: "string \<Rightarrow> (string \<times> Schema) list \<Rightarrow> Schema option"

abbreviation expr_env :: "PlanEnv \<Rightarrow> Env" where
  "expr_env env \<equiv> Env.truncate env"

abbreviation session_of :: "PlanEnv \<Rightarrow> SessionState" where
  "session_of env \<equiv> SessionState.truncate env"

section \<open>Nodes\<close>

text \<open>The node classes with their plain attributes.\<close>

datatype Node =
    InMemorySource nat
  | FileSource "string list" string FileOptions
  | TableSource string
  | DocSource "string list" string "string option" bool
  | Projection "LogicalExpr list"
  | Filter LogicalExpr
  | UnionAll
  | Limit int
  | Explode LogicalExpr bool
  | ExplodeWithIndex LogicalExpr string string bool
  | DropDuplicates "string list"
  | Sort "LogicalExpr list"
  | Unnest "string list"
  | SQL "string list" string
  | SemanticCluster LogicalExpr int int int string "string option" "real option"
  | Aggregate "LogicalExpr list" "(LogicalExpr \<times> string) list"
  | Join "LogicalExpr list" "LogicalExpr list" string
  | SemanticJoin LogicalExpr LogicalExpr string bool real "ResolvedModelAlias option" "real option"
  | SemanticSimilarityJoin LogicalExpr LogicalExpr int string "string option" "real option"
  | FileSink string string string
  | TableSink string string

text \<open>The cache information is an optional key, itself optional.\<close>

datatype LogicalPlan =
  Plan (plan_node: Node) (plan_children: "LogicalPlan list") (plan_schema: Schema)
    (cache_info: "string option option")

lemma size_plan_child [termination_simp]: "c \<in> set (plan_children p) \<Longrightarrow> size c < size p"
  by (cases p) (auto simp: size_list_estimation' less_Suc_eq_le dest: size_list_estimation' [OF _ order_refl])

fun is_filter :: "LogicalPlan \<Rightarrow> bool" where
  "is_filter (Plan (Filter _) _ _ _) = True"
| "is_filter _ = False"

fun is_source :: "Node \<Rightarrow> bool" where
  "is_source (InMemorySource _) = True"
| "is_source (FileSource _ _ _) = True"
| "is_source (TableSource _) = True"
| "is_source (DocSource _ _ _ _) = True"
| "is_source _ = False"

text \<open>The expressions a node holds (\<^verbatim>\<open>exprs()\<close>).\<close>

fun node_exprs :: "Node \<Rightarrow> LogicalExpr list" where
  "node_exprs (Projection es) = es"
| "node_exprs (Filter p) = [p]"
| "node_exprs (Explode e _) = [e]"
| "node_exprs (ExplodeWithIndex e _ _ _) = [e]"
| "node_exprs (DropDuplicates ns) = map ColumnExpr ns"
| "node_exprs (Sort es) = es"
| "node_exprs (Unnest ns) = map ColumnExpr ns"
| "node_exprs (SemanticCluster e _ _ _ _ _ _) = [e]"
| "node_exprs (Aggregate gs as) = gs @ map (\<lambda>(e, n). AliasExpr e n) as"
| "node_exprs (Join ls rs _) = ls @ rs"
| "node_exprs (SemanticJoin l r _ _ _ _ _) = [l, r]"
| "node_exprs (SemanticSimilarityJoin l r _ _ _ _) = [l, r]"
| "node_exprs _ = []"

section \<open>Construction\<close>

subsection \<open>Placeholders of a query\<close>

text \<open>
  \<^verbatim>\<open>SQL_PLACEHOLDER_RE.sub\<close>: each maximal word between braces is replaced by the view name of
  its placeholder, a new one the first time it is met.
\<close>

definition word_char :: "char \<Rightarrow> bool" where
  "word_char c \<longleftrightarrow> c \<in> set ''abcdefghijklmnopqrstuvwxyzABCDEFGHIJKLMNOPQRSTUVWXYZ0123456789_''"

function replace_placeholders ::
  "(nat \<Rightarrow> string) \<Rightarrow> string \<Rightarrow> (string, string) dict \<Rightarrow> string \<times> (string, string) dict" where
  "replace_placeholders fresh [] views = ([], views)"
| "replace_placeholders fresh (c # cs) views =
     (let word = takeWhile word_char cs; rest = dropWhile word_char cs
      in if c = CHR 0x7B \<and> word \<noteq> [] \<and> rest \<noteq> [] \<and> hd rest = CHR 0x7D
         then let views' = (if map_of views word = None then AList.update word (fresh (length views)) views
                            else views);
                  (s, views'') = replace_placeholders fresh (tl rest) views'
              in (the (map_of views' word) @ s, views'')
         else let (s, views') = replace_placeholders fresh cs views in (c # s, views'))"
  by pat_completeness auto
termination
proof (relation "measure (\<lambda>(fresh, s, views). length s)", simp, goal_cases)
  case (1 fresh c cs views word rest views')
  have "length (tl rest) \<le> length rest" by simp
  also have "\<dots> \<le> length cs" using 1 by (simp add: length_dropWhile_le)
  finally show ?case by simp
qed simp

definition replace_query_placeholders :: "PlanEnv \<Rightarrow> string list \<Rightarrow> string \<Rightarrow> (string \<times> string list) res" where
  "replace_query_placeholders env names query =
     (let (resolved, views) = replace_placeholders (unique_view_name env) query []
      in bind_res (map_res (dict_get views) names) (\<lambda>vs. Inr (resolved, vs)))"

subsection \<open>Checks of the constructors\<close>

fun validate_groupby_expr :: "LogicalExpr \<Rightarrow> unit res" where
  "validate_groupby_expr e =
     bind_res (raise_if (is_aggregate e) PlanError) (\<lambda>_.
     bind_res (raise_if (is_sort e) PlanError) (\<lambda>_.
       each_res validate_groupby_expr (expr_children e)))"

declare validate_groupby_expr.simps [simp del]

text \<open>What \<^verbatim>\<open>__init__\<close> checks before the schema, given the number of inputs.\<close>

fun init_check :: "PlanEnv \<Rightarrow> Node \<Rightarrow> nat \<Rightarrow> unit res" where
  "init_check env (Projection es) k = each_res validate_scalar_expr es"
| "init_check env (Filter p) k = validate_scalar_expr p"
| "init_check env (Explode e keep) k = validate_scalar_expr e"
| "init_check env (ExplodeWithIndex e i v keep) k = validate_scalar_expr e"
| "init_check env (SQL names query) k =
     bind_res (raise_if (k \<noteq> length names) InternalError) (\<lambda>_.
     bind_res (replace_query_placeholders env names query) (\<lambda>_. Inr ()))"
| "init_check env (SemanticCluster e k' mi ni l c t) k = validate_scalar_expr e"
| "init_check env (Aggregate gs as) k =
     bind_res (each_res (\<lambda>(e, n). raise_if (\<not> is_aggregate e) PlanError) as) (\<lambda>_.
       each_res validate_groupby_expr gs)"
| "init_check env (Join ls rs how) k =
     bind_res (each_res validate_scalar_expr ls) (\<lambda>_. each_res validate_scalar_expr rs)"
| "init_check env (SemanticJoin l r t s te a to) k =
     bind_res (validate_scalar_expr l) (\<lambda>_. validate_scalar_expr r)"
| "init_check env (SemanticSimilarityJoin l r k' m sc to) k =
     bind_res (validate_scalar_expr l) (\<lambda>_. validate_scalar_expr r)"
| "init_check env _ k = Inr ()"

text \<open>What is checked after the schema when a session is given.\<close>

fun session_check :: "PlanEnv \<Rightarrow> Node \<Rightarrow> unit res" where
  "session_check env (SemanticJoin l r t s te a to) =
     validate_completion_parameters a (session_of env) (Some te) None"
| "session_check env _ = Inr ()"

definition validate_schema :: "Schema \<Rightarrow> unit res" where
  "validate_schema s = raise_if (duplicates_from [] (column_names s) \<noteq> []) PlanError"

subsection \<open>The schema of each node\<close>

definition typ_in :: "PlanEnv \<Rightarrow> Schema \<Rightarrow> LogicalExpr \<Rightarrow> DataType res" where
  "typ_in env s e = field_type (to_column_field (expr_env env) s e)"

definition doc_schema :: "string \<Rightarrow> Schema" where
  "doc_schema content_type =
     mk_schema ([mk_field ''file_path'' StringType, mk_field ''error'' StringType] @
       (if content_type = ''pdf'' then
          [mk_field ''size'' IntegerType, mk_field ''title'' StringType, mk_field ''author'' StringType,
           mk_field ''creation_date'' StringType, mk_field ''mod_date'' StringType,
           mk_field ''page_count'' IntegerType, mk_field ''has_forms'' BooleanType,
           mk_field ''has_signature_fields'' BooleanType, mk_field ''image_count'' IntegerType,
           mk_field ''is_encrypted'' BooleanType]
        else [mk_field ''content'' (if content_type = ''markdown'' then MarkdownType else JsonType)]))"

definition file_schema :: "PlanEnv \<Rightarrow> string list \<Rightarrow> string \<Rightarrow> FileOptions \<Rightarrow> Schema res" where
  "file_schema env paths file_format options =
     (if file_format = ''csv'' \<or> file_format = ''parquet''
      then case infer_schema env paths file_format options of None \<Rightarrow> Inl PlanError | Some s \<Rightarrow> Inr s
      else Inl InternalError)"

definition table_schema :: "PlanEnv \<Rightarrow> string \<Rightarrow> Schema res" where
  "table_schema env name = (if \<not> does_table_exist env name then Inl PlanError else Inr (describe_table env name))"

definition filter_schema :: "PlanEnv \<Rightarrow> LogicalExpr \<Rightarrow> Schema \<Rightarrow> Schema res" where
  "filter_schema env p s =
     bind_res (typ_in env s p) (\<lambda>d. if \<not> dtype_eq d BooleanType then Inl PlanError else Inr s)"

definition field_dict :: "Schema \<Rightarrow> (string, DataType) dict" where
  "field_dict s = dict_of (map (\<lambda>f. (cf_name f, cf_type f)) (column_fields s))"

definition union_schema :: "Schema list \<Rightarrow> Schema res" where
  "union_schema ss =
     (case ss of
        [] \<Rightarrow> Inl PyIndexError
      | first # rest \<Rightarrow>
          bind_res (each_res (\<lambda>s. raise_if (\<not> dict_eq (field_dict s) (field_dict first)) PlanError) rest)
            (\<lambda>_. Inr first))"

definition explode_schema :: "PlanEnv \<Rightarrow> LogicalExpr \<Rightarrow> Schema \<Rightarrow> Schema res" where
  "explode_schema env e s =
     bind_res (to_column_field (expr_env env) s e) (\<lambda>f.
       if \<not> isinstance (cf_type f) ArrayCls then Inl PyValueError
       else let new = mk_field (cf_name f) (element_type (cf_type f))
            in Inr (mk_schema (map (\<lambda>g. if cf_name g = cf_name f then new else g) (column_fields s) @
                 (if cf_name f \<in> set (column_names s) then [] else [new]))))"

definition explode_with_index_schema ::
  "PlanEnv \<Rightarrow> LogicalExpr \<Rightarrow> string \<Rightarrow> string \<Rightarrow> Schema \<Rightarrow> Schema res" where
  "explode_with_index_schema env e index_name value_name s =
     bind_res (to_column_field (expr_env env) s e) (\<lambda>f.
       if \<not> isinstance (cf_type f) ArrayCls then Inl PyValueError
       else let new = mk_field value_name (element_type (cf_type f))
            in Inr (mk_schema
                 (mk_field index_name IntegerType #
                  concat (map (\<lambda>g. if cf_name g = cf_name f
                                     then (if value_name \<noteq> cf_name g then [g, new] else [new])
                                     else [g]) (column_fields s)) @
                  (if cf_name f \<in> set (column_names s) then [] else [new]))))"

definition unnest_schema :: "string list \<Rightarrow> Schema \<Rightarrow> Schema res" where
  "unnest_schema names s =
     bind_res (map_res (\<lambda>f. if cf_name f \<in> set names
                             then case cf_type f of
                                    StructType fs \<Rightarrow> Inr (map (\<lambda>g. mk_field (sf_name g) (sf_type g)) fs)
                                  | _ \<Rightarrow> Inl PyValueError
                             else Inr [f]) (column_fields s))
       (\<lambda>fss. Inr (mk_schema (concat fss)))"

text \<open>The name attributes are only read for the message of a failed comparison.\<close>

definition mismatch :: "LogicalExpr list \<Rightarrow> 'a res" where
  "mismatch es = bind_res (map_res name_attr es) (\<lambda>_. Inl TypeMismatchError)"

definition column_expr_names :: "LogicalExpr list \<Rightarrow> string list" where
  "column_expr_names es = concat (map (\<lambda>e. case e of ColumnExpr n \<Rightarrow> [n] | _ \<Rightarrow> []) es)"

definition join_schema ::
  "PlanEnv \<Rightarrow> LogicalExpr list \<Rightarrow> LogicalExpr list \<Rightarrow> string \<Rightarrow> Schema \<Rightarrow> Schema \<Rightarrow> Schema res" where
  "join_schema env left_on right_on how ls rs =
     bind_res (each_res (\<lambda>(l, r).
         bind_res (typ_in env ls l) (\<lambda>lt.
         bind_res (typ_in env rs r) (\<lambda>rt.
           if \<not> dtype_eq lt rt then mismatch [l, r] else Inr ()))) (zip left_on right_on)) (\<lambda>_.
     if how = ''cross'' \<or> how = ''full'' then Inr (mk_schema (column_fields ls @ column_fields rs))
     else
       let right = (how = ''right'');
           primary = column_fields (if right then rs else ls);
           secondary = column_fields (if right then ls else rs);
           primary_names = column_expr_names (if right then right_on else left_on);
           secondary_names = column_expr_names (if right then left_on else right_on);
           to_add = filter (\<lambda>f. \<not> (cf_name f \<in> set primary_names \<and> cf_name f \<in> set secondary_names)) secondary
       in Inr (mk_schema (if right then to_add @ primary else primary @ to_add)))"

definition semantic_join_schema ::
  "PlanEnv \<Rightarrow> LogicalExpr \<Rightarrow> LogicalExpr \<Rightarrow> string \<Rightarrow> Schema \<Rightarrow> Schema \<Rightarrow> Schema res" where
  "semantic_join_schema env l r template ls rs =
     bind_res (parse_template env template) (\<lambda>ast.
     bind_res (from_jinja_template ast) (\<lambda>tree.
     bind_res (raise_if (fst ` set tree \<noteq> {''left_on'', ''right_on''}) ValidationError) (\<lambda>_.
     bind_res (typ_in env ls l) (\<lambda>lt.
     bind_res (typ_in env rs r) (\<lambda>rt.
     bind_res (validate_jinja_variable tree ''left_on'' lt) (\<lambda>_.
     bind_res (validate_jinja_variable tree ''right_on'' rt) (\<lambda>_.
       Inr (mk_schema (column_fields ls @ column_fields rs)))))))))"

definition similarity_join_schema ::
  "PlanEnv \<Rightarrow> LogicalExpr \<Rightarrow> LogicalExpr \<Rightarrow> string option \<Rightarrow> Schema \<Rightarrow> Schema \<Rightarrow> Schema res" where
  "similarity_join_schema env l r score ls rs =
     bind_res (typ_in env ls l) (\<lambda>lt.
     bind_res (if \<not> isinstance lt EmbeddingCls then mismatch [l] else Inr ()) (\<lambda>_.
     bind_res (typ_in env rs r) (\<lambda>rt.
     bind_res (if \<not> dtype_eq lt rt then mismatch [l, r] else Inr ()) (\<lambda>_.
       Inr (mk_schema (column_fields ls @ column_fields rs @
         (if truthy score then [mk_field (the score) DoubleType] else [])))))))"

definition cluster_schema ::
  "PlanEnv \<Rightarrow> LogicalExpr \<Rightarrow> string \<Rightarrow> string option \<Rightarrow> Schema \<Rightarrow> Schema res" where
  "cluster_schema env e label centroid s =
     bind_res (typ_in env s e) (\<lambda>d.
       if \<not> isinstance d EmbeddingCls then Inl TypeMismatchError
       else Inr (mk_schema (column_fields s @ [mk_field label IntegerType] @
              (if truthy centroid then [mk_field (the centroid) d] else []))))"

text \<open>The context expressions of a reduction must be grouped by.\<close>

definition reduce_context :: "LogicalExpr \<Rightarrow> LogicalExpr list" where
  "reduce_context e =
     (case e of
        SemanticExpr (SemanticReduceExpr i v names m te a to) args \<Rightarrow> take (length names) (drop 1 args)
      | _ \<Rightarrow> [])"

definition aggregate_schema ::
  "PlanEnv \<Rightarrow> LogicalExpr list \<Rightarrow> (LogicalExpr \<times> string) list \<Rightarrow> Schema \<Rightarrow> Schema res" where
  "aggregate_schema env groups aggs s =
     bind_res (map_res (to_column_field (expr_env env) s) groups) (\<lambda>group_fields.
     bind_res (map_res (\<lambda>(e, n).
         bind_res (to_column_field (expr_env env) s (AliasExpr e n)) (\<lambda>f.
         bind_res (each_res (\<lambda>c. raise_if (\<not> list_ex (expr_eq c) groups) PlanError) (reduce_context e))
           (\<lambda>_. Inr f))) aggs) (\<lambda>agg_fields.
       Inr (mk_schema (group_fields @ agg_fields))))"

text \<open>
  \<^verbatim>\<open>_build_schema\<close> of each class, from the schemas of the children.
\<close>

fun build_schema :: "PlanEnv \<Rightarrow> Node \<Rightarrow> Schema list \<Rightarrow> Schema res" where
  "build_schema env (InMemorySource df) ss = Inr (polars_schema env df)"
| "build_schema env (FileSource paths fmt options) ss = file_schema env paths fmt options"
| "build_schema env (TableSource name) ss = table_schema env name"
| "build_schema env (DocSource paths content_type exclude recursive) ss =
     bind_res (validate_paths env paths) (\<lambda>_. Inr (doc_schema content_type))"
| "build_schema env (Projection es) ss =
     bind_res (map_res (to_column_field (expr_env env) (hd ss)) es) (\<lambda>fs. Inr (mk_schema fs))"
| "build_schema env (Filter p) ss = filter_schema env p (hd ss)"
| "build_schema env UnionAll ss = union_schema ss"
| "build_schema env (Limit n) ss = Inr (hd ss)"
| "build_schema env (Explode e keep) ss = explode_schema env e (hd ss)"
| "build_schema env (ExplodeWithIndex e i v keep) ss = explode_with_index_schema env e i v (hd ss)"
| "build_schema env (DropDuplicates ns) ss = Inr (hd ss)"
| "build_schema env (Sort es) ss = Inr (hd ss)"
| "build_schema env (Unnest ns) ss = unnest_schema ns (hd ss)"
| "build_schema env (SQL names query) ss =
     bind_res (replace_query_placeholders env names query) (\<lambda>(resolved, views).
       case plan_query env resolved (zip views ss) of None \<Rightarrow> Inl PlanError | Some s \<Rightarrow> Inr s)"
| "build_schema env (SemanticCluster e k mi ni label centroid to) ss =
     cluster_schema env e label centroid (hd ss)"
| "build_schema env (Aggregate groups aggs) ss = aggregate_schema env groups aggs (hd ss)"
| "build_schema env (Join left_on right_on how) ss =
     join_schema env left_on right_on how (hd ss) (ss ! 1)"
| "build_schema env (SemanticJoin l r template strict te a to) ss =
     semantic_join_schema env l r template (hd ss) (ss ! 1)"
| "build_schema env (SemanticSimilarityJoin l r k metric score to) ss =
     similarity_join_schema env l r score (hd ss) (ss ! 1)"
| "build_schema env (FileSink sink_type path mode) ss = Inr (hd ss)"
| "build_schema env (TableSink table mode) ss = Inr (hd ss)"

subsection \<open>Nodes from a session and from a schema\<close>

definition from_session_state :: "PlanEnv \<Rightarrow> Node \<Rightarrow> LogicalPlan list \<Rightarrow> LogicalPlan res" where
  "from_session_state env node cs =
     bind_res (init_check env node (length cs)) (\<lambda>_.
     bind_res (build_schema env node (map plan_schema cs)) (\<lambda>s.
     bind_res (validate_schema s) (\<lambda>_.
     bind_res (session_check env node) (\<lambda>_. Inr (Plan node cs s None)))))"

definition from_schema :: "PlanEnv \<Rightarrow> Node \<Rightarrow> LogicalPlan list \<Rightarrow> Schema \<Rightarrow> LogicalPlan res" where
  "from_schema env node cs s =
     bind_res (init_check env node (length cs)) (\<lambda>_.
     bind_res (validate_schema s) (\<lambda>_. Inr (Plan node cs s None)))"

fun set_cache_info :: "string option option \<Rightarrow> LogicalPlan \<Rightarrow> LogicalPlan" where
  "set_cache_info c (Plan n cs s _) = Plan n cs s c"

section \<open>A node over new children\<close>

text \<open>The number of children \<^verbatim>\<open>with_children\<close> accepts, and what it raises otherwise.\<close>

fun child_count_check :: "Node \<Rightarrow> nat \<Rightarrow> unit res" where
  "child_count_check UnionAll k = Inr ()"
| "child_count_check (SQL _ _) k = raise_if (k = 0) InternalError"
| "child_count_check (Join _ _ _) k = raise_if (k \<noteq> 2) PyValueError"
| "child_count_check (SemanticJoin _ _ _ _ _ _ _) k = raise_if (k \<noteq> 2) InternalError"
| "child_count_check (SemanticSimilarityJoin _ _ _ _ _ _) k = raise_if (k \<noteq> 2) InternalError"
| "child_count_check (Aggregate _ _) k = raise_if (k \<noteq> 1) InternalError"
| "child_count_check (FileSink _ _ _) k = raise_if (k \<noteq> 1) InternalError"
| "child_count_check (TableSink _ _) k = raise_if (k \<noteq> 1) InternalError"
| "child_count_check n k =
     (if is_source n then raise_if (k \<noteq> 0) InternalError else raise_if (k \<noteq> 1) PyValueError)"

text \<open>In-memory sources and sinks do not hand their cache information on.\<close>

fun keeps_cache_info :: "Node \<Rightarrow> bool" where
  "keeps_cache_info (InMemorySource _) = False"
| "keeps_cache_info (FileSink _ _ _) = False"
| "keeps_cache_info (TableSink _ _) = False"
| "keeps_cache_info _ = True"

fun with_children :: "PlanEnv \<Rightarrow> LogicalPlan \<Rightarrow> LogicalPlan list \<Rightarrow> LogicalPlan res" where
  "with_children env (Plan node _ s c) cs =
     bind_res (child_count_check node (length cs)) (\<lambda>_.
     bind_res (if is_source node then from_schema env node cs s else from_session_state env node cs)
       (\<lambda>p. Inr (if keeps_cache_info node then set_cache_info c p else p)))"

section \<open>Plans as the code builds them\<close>

text \<open>
  Every node was built from a session over its children, or is a source with a schema of
  unique names.
\<close>

fun well_built :: "PlanEnv \<Rightarrow> LogicalPlan \<Rightarrow> bool" where
  "well_built env (Plan n cs s c) \<longleftrightarrow>
     list_all (well_built env) cs \<and> child_count_check n (length cs) = Inr () \<and>
     (if is_source n then init_check env n 0 = Inr () \<and> validate_schema s = Inr ()
      else from_session_state env n cs = Inr (Plan n cs s None))"

lemma validate_schema_iff [simp]: "validate_schema s = Inr () \<longleftrightarrow> distinct (column_names s)"
  by (simp add: validate_schema_def)

lemma from_session_Inr:
  "from_session_state env n cs = Inr p \<longleftrightarrow>
     init_check env n (length cs) = Inr () \<and>
     (\<exists>s. build_schema env n (map plan_schema cs) = Inr s \<and> distinct (column_names s) \<and>
        session_check env n = Inr () \<and> p = Plan n cs s None)"
  by (auto simp: from_session_state_def)

lemma from_session_same_schemas:
  assumes "from_session_state env n cs = Inr (Plan n cs s None)"
    and "map plan_schema cs' = map plan_schema cs"
  shows "from_session_state env n cs' = Inr (Plan n cs' s None)"
  using assms map_eq_imp_length_eq [OF assms(2)] by (simp add: from_session_Inr)

lemma child_count_source: "is_source n \<Longrightarrow> child_count_check n k = Inr () \<longleftrightarrow> k = 0"
  by (cases n) auto

text \<open>A copy over children of the same schemas succeeds and has the same schema.\<close>

lemma with_children_well_built:
  assumes "well_built env p" and "map plan_schema cs = map plan_schema (plan_children p)"
    and "list_all (well_built env) cs"
  shows "\<exists>c. with_children env p cs = Inr (Plan (plan_node p) cs (plan_schema p) c) \<and>
      well_built env (Plan (plan_node p) cs (plan_schema p) c) \<and>
      c = (if keeps_cache_info (plan_node p) then cache_info p else None)"
proof (cases p)
  case (Plan n ds s c)
  have len: "length cs = length ds"
    using map_eq_imp_length_eq [OF assms(2)] Plan by simp
  show ?thesis
  proof (cases "is_source n")
    case True
    then have "cs = []" using assms(1) Plan len by (simp add: child_count_source)
    with True assms(1) Plan show ?thesis
      by (auto simp: from_schema_def child_count_source)
  next
    case False
    with assms(1) Plan have "from_session_state env n ds = Inr (Plan n ds s None)" by simp
    then have "from_session_state env n cs = Inr (Plan n cs s None)"
      by (rule from_session_same_schemas) (use assms(2) Plan in simp)
    with False assms Plan len show ?thesis by auto
  qed
qed

lemma well_built_distinct: "well_built env p \<Longrightarrow> distinct (column_names (plan_schema p))"
  by (cases p) (auto simp: from_session_Inr split: if_splits)

lemma well_built_children: "well_built env p \<Longrightarrow> c \<in> set (plan_children p) \<Longrightarrow> well_built env c"
  by (cases p) (auto simp: list_all_iff)

text \<open>A filter is built exactly over a boolean predicate that is scalar.\<close>

definition filter_ok :: "PlanEnv \<Rightarrow> Schema \<Rightarrow> LogicalExpr \<Rightarrow> bool" where
  "filter_ok env s p \<longleftrightarrow> validate_scalar_expr p = Inr () \<and> typ_in env s p = Inr BooleanType"

lemma build_filter_iff:
  "from_session_state env (Filter p) [q] = Inr r \<longleftrightarrow>
     filter_ok env (plan_schema q) p \<and> distinct (column_names (plan_schema q)) \<and>
     r = Plan (Filter p) [q] (plan_schema q) None"
  by (auto simp: from_session_Inr filter_schema_def filter_ok_def dtype_eq_iff_eq)

lemma well_built_filter:
  "well_built env (Plan (Filter p) cs s c) \<longleftrightarrow>
     (\<exists>q. cs = [q] \<and> well_built env q \<and> s = plan_schema q \<and> filter_ok env s p)"
proof
  assume wb: "well_built env (Plan (Filter p) cs s c)"
  then obtain q where "cs = [q]" by (auto simp: length_Suc_conv)
  with wb show "\<exists>q. cs = [q] \<and> well_built env q \<and> s = plan_schema q \<and> filter_ok env s p"
    by (auto simp: build_filter_iff)
next
  assume "\<exists>q. cs = [q] \<and> well_built env q \<and> s = plan_schema q \<and> filter_ok env s p"
  then show "well_built env (Plan (Filter p) cs s c)"
    by (auto simp: build_filter_iff well_built_distinct)
qed

section \<open>View names\<close>

definition views_ok :: "(nat \<Rightarrow> string) \<Rightarrow> (string, string) dict \<Rightarrow> bool" where
  "views_ok fresh views \<longleftrightarrow>
     distinct (map fst views) \<and> map snd views = map fresh [0..<length views]"

lemma views_ok_update:
  assumes "views_ok fresh views" and "map_of views w = None"
  shows "views_ok fresh (AList.update w (fresh (length views)) views)"
proof -
  have "w \<notin> fst ` set views" using assms(2) by (simp add: map_of_eq_None_iff)
  with assms show ?thesis by (simp add: views_ok_def update_new)
qed

lemma replace_views_ok:
  "views_ok fresh views \<Longrightarrow> views_ok fresh (snd (replace_placeholders fresh q views))"
proof (induction fresh q views rule: replace_placeholders.induct)
  case (2 fresh c cs views)
  let ?w = "takeWhile word_char cs"
  let ?r = "dropWhile word_char cs"
  let ?v = "if map_of views ?w = None then AList.update ?w (fresh (length views)) views else views"
  show ?case
  proof (cases "c = CHR 0x7B \<and> ?w \<noteq> [] \<and> ?r \<noteq> [] \<and> hd ?r = CHR 0x7D")
    case True
    have "views_ok fresh ?v" using 2(3) by (simp add: views_ok_update)
    with 2(1) [OF refl refl True refl] have "views_ok fresh (snd (replace_placeholders fresh (tl ?r) ?v))" by simp
    with True show ?thesis by (simp add: Let_def split_beta)
  next
    case False
    then have "replace_placeholders fresh (c # cs) views =
        (c # fst (replace_placeholders fresh cs views), snd (replace_placeholders fresh cs views))"
      by (auto simp: Let_def split_beta)
    with 2(2) [OF refl refl False 2(3)] show ?thesis by simp
  qed
qed simp

lemma views_ok_inj:
  assumes "views_ok fresh views" "inj fresh" "map_of views a = Some v" "map_of views b = Some v"
  shows "a = b"
proof -
  have d: "distinct (map snd views)"
    using assms(1, 2) by (auto simp: views_ok_def distinct_map intro: inj_on_subset)
  have "(a, v) \<in> set views" "(b, v) \<in> set views" using assms(3, 4) by (auto dest: map_of_SomeD)
  with d show ?thesis by (fastforce simp: distinct_map inj_on_def)
qed

lemma list_all2_member: "list_all2 P xs ys \<Longrightarrow> y \<in> set ys \<Longrightarrow> \<exists>x \<in> set xs. P x y"
  by (induction rule: list_all2_induct) auto

section \<open>Properties\<close>

lemma from_session_well_built:
  assumes "from_session_state env n cs = Inr p" and "list_all (well_built env) cs"
    and "child_count_check n (length cs) = Inr ()"
  shows "well_built env p"
proof (cases "is_source n")
  case True
  with assms(3) have "length cs = 0" by (simp add: child_count_source)
  with True assms show ?thesis by (auto simp: from_session_Inr)
next
  case False
  with assms show ?thesis by (auto simp: from_session_Inr)
qed

text \<open>Every plan a session builds over well-built children is well built, its schema has no
  two columns of one name, and copying it over its own children gives it back.\<close>

theorem constructed_plan_well_built:
  assumes "from_session_state env n cs = Inr p" and "list_all (well_built env) cs"
    and "child_count_check n (length cs) = Inr ()"
  shows "well_built env p \<and> distinct (column_names (plan_schema p)) \<and> with_children env p cs = Inr p"
proof -
  from assms(1) obtain s where p: "p = Plan n cs s None" by (auto simp: from_session_Inr)
  have wb: "well_built env p" by (rule from_session_well_built [OF assms])
  from with_children_well_built [OF wb _ assms(2)] p have "with_children env p cs = Inr p" by auto
  with wb show ?thesis by (simp add: well_built_distinct)
qed

definition example_plan_env :: PlanEnv where
  "example_plan_env = \<lparr>language_models = None, embedding_models = None, completion_catalog = (\<lambda>_ _. None),
     embedding_catalog = (\<lambda>_ _. None), get_content_hash = take 8,
     polars_schema = (\<lambda>d. if d = 0 then mk_schema [mk_field ''id'' IntegerType, mk_field ''ok'' BooleanType]
                          else mk_schema [mk_field ''id'' IntegerType, mk_field ''name'' StringType]),
     infer_schema = (\<lambda>_ _ _. None), does_table_exist = (\<lambda>_. False), describe_table = (\<lambda>_. mk_schema []),
     validate_paths = (\<lambda>_. Inr ()), parse_template = (\<lambda>_. Inl ValidationError),
     unique_view_name = (\<lambda>n. ''v'' @ replicate n CHR ''0''), plan_query = (\<lambda>_ _. None)\<rparr>"

definition example_left :: LogicalPlan where
  "example_left = Plan (InMemorySource 0) [] (polars_schema example_plan_env 0) None"

definition example_right :: LogicalPlan where
  "example_right = Plan (InMemorySource 1) [] (polars_schema example_plan_env 1) None"

lemmas plan_evals =
  example_plan_env_def example_left_def example_right_def from_session_Inr column_names_def
  filter_schema_def typ_in_def field_type_def column_field_def find_field_def
  validate_scalar_expr_def is_sort_def is_aggregate_def dtype_eq_iff_eq

theorem constructed_plan_well_built_witness:
  "well_built example_plan_env (Plan (Filter (ColumnExpr ''ok'')) [example_left] (plan_schema example_left) None)"
proof -
  have "from_session_state example_plan_env (Filter (ColumnExpr ''ok'')) [example_left] =
      Inr (Plan (Filter (ColumnExpr ''ok'')) [example_left] (plan_schema example_left) None)"
    by (simp add: plan_evals)
  from constructed_plan_well_built [OF this] show ?thesis by (simp add: plan_evals)
qed

text \<open>The columns of an inner join on equally named columns: those of the left side, then
  those of the right side without the joined ones, and no name occurs on both sides.\<close>

theorem inner_join_columns:
  assumes "from_session_state env (Join (map ColumnExpr ns) (map ColumnExpr ns) ''inner'') [l, r] = Inr p"
  shows "column_names (plan_schema p) =
      column_names (plan_schema l) @ filter (\<lambda>n. n \<notin> set ns) (column_names (plan_schema r)) \<and>
    set (column_names (plan_schema l)) \<inter> set (column_names (plan_schema r)) \<subseteq> set ns"
proof -
  have n: "column_expr_names (map ColumnExpr ns) = ns"
    by (induction ns) (auto simp: column_expr_names_def)
  have f: "map cf_name (filter (\<lambda>f. cf_name f \<notin> set ns) xs) = filter (\<lambda>n. n \<notin> set ns) (map cf_name xs)" for xs
    by (induction xs) auto
  from assms have "column_names (plan_schema p) =
      column_names (plan_schema l) @ filter (\<lambda>n. n \<notin> set ns) (column_names (plan_schema r))"
    "distinct (column_names (plan_schema p))"
    by (auto simp: from_session_Inr join_schema_def n f column_names_def)
  then show ?thesis by auto
qed

theorem inner_join_columns_witness:
  "\<exists>p. from_session_state example_plan_env (Join (map ColumnExpr [''id'']) (map ColumnExpr [''id'']) ''inner'')
      [example_left, example_right] = Inr p \<and> column_names (plan_schema p) = [''id'', ''ok'', ''name'']"
proof -
  obtain p where p: "from_session_state example_plan_env
      (Join (map ColumnExpr [''id'']) (map ColumnExpr [''id'']) ''inner'') [example_left, example_right] = Inr p"
    by (simp add: plan_evals join_schema_def column_expr_names_def)
  from inner_join_columns [OF p] have "column_names (plan_schema p) = [''id'', ''ok'', ''name'']"
    by (simp add: plan_evals)
  with p show ?thesis by blast
qed

text \<open>Distinct templates of a query get distinct views: no two inputs of a SQL plan are
  registered under one name.\<close>

theorem sql_views_distinct:
  assumes "inj (unique_view_name env)" and "distinct names"
    and "replace_query_placeholders env names query = Inr (resolved, views)"
  shows "distinct views \<and> length views = length names"
proof -
  define d where "d = snd (replace_placeholders (unique_view_name env) query [])"
  have ok: "views_ok (unique_view_name env) d"
    unfolding d_def by (rule replace_views_ok) (simp add: views_ok_def)
  have m: "list_all2 (\<lambda>n v. map_of d n = Some v) names views"
    using assms(3) by (auto simp: replace_query_placeholders_def d_def split_beta map_res_Inr_iff)
  have "distinct views"
    using m assms(2)
  proof (induction rule: list_all2_induct)
    case (Cons n ns v vs)
    have "v \<notin> set vs"
    proof
      assume "v \<in> set vs"
      with list_all2_member [OF Cons(2)] obtain n' where "n' \<in> set ns" "map_of d n' = Some v"
        by blast
      with views_ok_inj [OF ok assms(1) Cons(1)] Cons.prems show False by auto
    qed
    with Cons show ?case by simp
  qed simp
  with m show ?thesis by (auto dest: list_all2_lengthD)
qed

theorem sql_views_distinct_witness:
  "replace_query_placeholders example_plan_env [''b'', ''a''] ''{a}+{b}'' =
     Inr (''v+v0'', [''v0'', ''v'']) \<and> distinct [''v0'', ''v'']"
proof -
  have i: "inj (unique_view_name example_plan_env)"
    by (rule injI) (auto simp: example_plan_env_def dest: arg_cong [of _ _ length])
  have r: "replace_query_placeholders example_plan_env [''b'', ''a''] ''{a}+{b}'' =
     Inr (''v+v0'', [''v0'', ''v''])"
    by (simp add: replace_query_placeholders_def example_plan_env_def word_char_def dict_get_def)
  from sql_views_distinct [OF i _ r] r show ?thesis by simp
qed

text \<open>The comparison of a join of computed keys of different types raises AttributeError, because
  its message reads a name the expressions do not have.\<close>

theorem join_mismatch_attribute_error:
  assumes "typ_in env (plan_schema l) (CastExpr e t) = Inr lt" and "typ_in env (plan_schema r) k = Inr rt"
    and "lt \<noteq> rt" and "validate_scalar_expr k = Inr ()"
  shows "from_session_state env (Join [CastExpr e t] [k] how) [l, r] = Inl PyAttributeError"
  using assms
  by (simp add: from_session_state_def join_schema_def dtype_eq_iff_eq mismatch_def name_attr_def
      validate_scalar_expr_def is_sort_def is_aggregate_def)

theorem join_mismatch_attribute_error_witness:
  "from_session_state example_plan_env (Join [CastExpr (ColumnExpr ''id'') StringType] [ColumnExpr ''id''] ''inner'')
     [example_left, example_right] = Inl PyAttributeError"
  by (rule join_mismatch_attribute_error [of _ _ _ _ StringType _ _ IntegerType])
    (simp_all add: plan_evals can_cast.simps unimplemented_def isinstance_def)

text \<open>Copying an in-memory source or a sink forgets that it was marked for caching, while a copy of
  any other node keeps it.\<close>

theorem copy_cache_info:
  assumes "well_built env p"
  shows "\<exists>q. with_children env p (plan_children p) = Inr q \<and> plan_node q = plan_node p \<and>
     plan_children q = plan_children p \<and> plan_schema q = plan_schema p \<and>
     cache_info q = (case plan_node p of
        InMemorySource _ \<Rightarrow> None | FileSink _ _ _ \<Rightarrow> None | TableSink _ _ \<Rightarrow> None | _ \<Rightarrow> cache_info p)"
proof -
  have "list_all (well_built env) (plan_children p)"
    using well_built_children [OF assms] by (simp add: list_all_iff)
  from with_children_well_built [OF assms refl this] obtain c
    where w: "with_children env p (plan_children p) = Inr (Plan (plan_node p) (plan_children p) (plan_schema p) c)"
    and c: "c = (if keeps_cache_info (plan_node p) then cache_info p else None)" by blast
  have "c = (case plan_node p of
        InMemorySource _ \<Rightarrow> None | FileSink _ _ _ \<Rightarrow> None | TableSink _ _ \<Rightarrow> None | _ \<Rightarrow> cache_info p)"
    unfolding c by (cases "plan_node p") simp_all
  with w show ?thesis by simp
qed

theorem copy_cache_info_witness:
  "\<exists>q. with_children example_plan_env (set_cache_info (Some (Some ''k'')) example_left) [] = Inr q \<and>
     cache_info q = None"
proof -
  have "well_built example_plan_env (set_cache_info (Some (Some ''k'')) example_left)"
    by (simp add: plan_evals)
  from copy_cache_info [OF this] show ?thesis by (auto simp: example_left_def)
qed

end
