(* ===== verification/Optimizer.thy ===== *)
theory Optimizer
  imports Plans "HOL-Library.Multiset"
begin

text \<open>
  The logical optimizer (\<^verbatim>\<open>src/fenic/core/_logical_plan/optimizer/\<close>): the three filter rules,
  the traversal they share and the driver.  The lemmas show that a rule which is sound on one
  filter is sound on a plan, that each rule is, and hence that the optimizer keeps the rows, the
  schema and the well-formedness of every plan; what it can raise; and that splitting a filter
  never increases the number of model calls.  The meaning of a predicate is three-valued, as
  in polars, with its atoms given by a parameter.
\<close>

section \<open>Rules and traversal\<close>

record OptimizationResult =
  result_plan :: LogicalPlan
  was_modified :: bool

definition mk_result :: "LogicalPlan \<Rightarrow> bool \<Rightarrow> OptimizationResult" where
  "mk_result p m = \<lparr>result_plan = p, was_modified = m\<rparr>"

lemma mk_result_sel [simp]: "result_plan (mk_result p m) = p" "was_modified (mk_result p m) = m"
  by (simp_all add: mk_result_def)

type_synonym Visit = "PlanEnv \<Rightarrow> LogicalPlan \<Rightarrow> OptimizationResult res"

text \<open>
  The traversal each rule writes out (\<^verbatim>\<open>optimize_node\<close>): the children first, then the node over
  the new children, then the rule's own step on filters.
\<close>

fun optimize_node :: "Visit \<Rightarrow> PlanEnv \<Rightarrow> LogicalPlan \<Rightarrow> OptimizationResult res" where
  "optimize_node visit env p =
     bind_res (map_res (optimize_node visit env) (plan_children p)) (\<lambda>rs.
     bind_res (with_children env p (map result_plan rs)) (\<lambda>q.
       let any = list_ex was_modified rs
       in if is_filter q
          then bind_res (visit env q) (\<lambda>r. Inr (mk_result (result_plan r) (any \<or> was_modified r)))
          else Inr (mk_result q any)))"

declare optimize_node.simps [simp del]

fun filter_predicate :: "LogicalPlan \<Rightarrow> LogicalExpr" where
  "filter_predicate (Plan (Filter p) _ _ _) = p"
| "filter_predicate _ = undefined"

definition input :: "LogicalPlan \<Rightarrow> LogicalPlan" where
  "input p = hd (plan_children p)"

definition mk_filter :: "PlanEnv \<Rightarrow> LogicalPlan \<Rightarrow> LogicalExpr \<Rightarrow> LogicalPlan res" where
  "mk_filter env q p = from_session_state env (Filter p) [q]"

section \<open>Pushing negations inward (\<open>not_filter_pushdown_rule.py\<close>)\<close>

definition is_or_expr :: "LogicalExpr \<Rightarrow> bool" where
  "is_or_expr e = (case e of BinaryExpr c l r op \<Rightarrow> c = BooleanExpr \<and> op = OR | _ \<Rightarrow> False)"

text \<open>
  A connective whose operands changed is rebuilt with \<^verbatim>\<open>expr.operator\<close>, an attribute no
  expression has.
\<close>

function push_not_inward :: "LogicalExpr \<Rightarrow> LogicalExpr res" where
  "push_not_inward e =
     (case e of
        NotExpr inner \<Rightarrow>
          (case inner of
             NotExpr a \<Rightarrow> push_not_inward a
           | BinaryExpr c l r op \<Rightarrow>
               if is_or_expr inner
               then bind_res (push_not_inward (NotExpr l)) (\<lambda>l'.
                    bind_res (push_not_inward (NotExpr r)) (\<lambda>r'.
                      Inr (BinaryExpr BooleanExpr l' r' AND)))
               else bind_res (push_not_inward inner) (\<lambda>inner'.
                      Inr (if \<not> expr_eq inner' inner then NotExpr inner' else e))
           | _ \<Rightarrow> bind_res (push_not_inward inner) (\<lambda>inner'.
                    Inr (if \<not> expr_eq inner' inner then NotExpr inner' else e)))
      | BinaryExpr c left right op \<Rightarrow>
          if c = BooleanExpr
          then bind_res (push_not_inward left) (\<lambda>l.
               bind_res (push_not_inward right) (\<lambda>r.
                 if \<not> expr_eq l left \<or> \<not> expr_eq r right then Inl PyAttributeError else Inr e))
          else Inr e
      | _ \<Rightarrow> Inr e)"
  by pat_completeness auto
termination by (relation "measure size") auto

declare push_not_inward.simps [simp del]

definition not_pushdown_filter :: Visit where
  "not_pushdown_filter env node =
     (let predicate = filter_predicate node
      in bind_res (push_not_inward predicate) (\<lambda>transformed.
         if \<not> expr_eq transformed predicate
         then bind_res (mk_filter env (input node) transformed) (\<lambda>f.
                Inr (mk_result (set_cache_info (cache_info node) f) True))
         else Inr (mk_result node False)))"

section \<open>Merging filters (\<open>merge_filters_rule.py\<close>)\<close>

definition merge_filter :: Visit where
  "merge_filter env node =
     (if is_filter (input node) \<and> cache_info (input node) = None
      then bind_res (mk_filter env (input (input node))
                (BinaryExpr BooleanExpr (filter_predicate node) (filter_predicate (input node)) AND))
              (\<lambda>f. Inr (mk_result (set_cache_info (cache_info node) f) True))
      else Inr (mk_result node False))"

section \<open>Splitting filters by cost (\<open>semantic_filter_rewrite_rule.py\<close>)\<close>

fun count_semantic_predicate_expressions :: "LogicalExpr \<Rightarrow> nat" where
  "count_semantic_predicate_expressions e =
     of_bool (is_semantic e) + sum_list (map count_semantic_predicate_expressions (expr_children e))"

declare count_semantic_predicate_expressions.simps [simp del]

definition is_and_expr :: "LogicalExpr \<Rightarrow> bool" where
  "is_and_expr e = (case e of BinaryExpr c l r op \<Rightarrow> c = BooleanExpr \<and> op = AND | _ \<Rightarrow> False)"

text \<open>The collected predicates in order of the traversal, then the semantic ones sorted.\<close>

fun collect_predicates :: "LogicalExpr \<Rightarrow> LogicalExpr list \<times> LogicalExpr list" where
  "collect_predicates (BinaryExpr c l r op) =
     (if is_and_expr (BinaryExpr c l r op)
      then (fst (collect_predicates l) @ fst (collect_predicates r),
            snd (collect_predicates l) @ snd (collect_predicates r))
      else if count_semantic_predicate_expressions (BinaryExpr c l r op) > 0
      then ([], [BinaryExpr c l r op]) else ([BinaryExpr c l r op], []))"
| "collect_predicates e =
     (if count_semantic_predicate_expressions e > 0 then ([], [e]) else ([e], []))"

definition partition_predicates :: "LogicalExpr \<Rightarrow> LogicalExpr list \<times> LogicalExpr list" where
  "partition_predicates e =
     (fst (collect_predicates e), sort_key count_semantic_predicate_expressions (snd (collect_predicates e)))"

definition make_and_expr :: "LogicalExpr list \<Rightarrow> LogicalExpr res" where
  "make_and_expr ps =
     (case ps of
        [] \<Rightarrow> Inl PyValueError
      | p # rest \<Rightarrow> Inr (foldl (\<lambda>result q. BinaryExpr BooleanExpr result q AND) p rest))"

fun apply_filters :: "PlanEnv \<Rightarrow> LogicalExpr list \<Rightarrow> LogicalPlan \<Rightarrow> LogicalPlan res" where
  "apply_filters env [] q = Inr q"
| "apply_filters env (p # ps) q = bind_res (mk_filter env q p) (apply_filters env ps)"

definition semantic_rewrite_filter :: Visit where
  "semantic_rewrite_filter env node =
     (let predicate = filter_predicate node
      in if \<not> is_and_expr predicate \<or> count_semantic_predicate_expressions predicate = 0
         then Inr (mk_result node False)
         else
           let (standard, semantic) = partition_predicates predicate
           in if length standard + length semantic \<le> 1 then Inr (mk_result node False)
              else bind_res (if standard \<noteq> []
                             then bind_res (make_and_expr standard) (mk_filter env (input node))
                             else Inr (input node)) (\<lambda>q.
                   bind_res (apply_filters env semantic q) (\<lambda>q'.
                     Inr (mk_result (set_cache_info (cache_info node) q') True))))"

section \<open>The optimizer (\<open>base.py\<close>)\<close>

fun optimize_with :: "Visit list \<Rightarrow> PlanEnv \<Rightarrow> LogicalPlan \<Rightarrow> bool \<Rightarrow> OptimizationResult res" where
  "optimize_with [] env p any = Inr (mk_result p any)"
| "optimize_with (rule # rules) env p any =
     bind_res (optimize_node rule env p) (\<lambda>r.
       optimize_with rules env (result_plan r) (any \<or> was_modified r))"

definition optimize :: "Visit list \<Rightarrow> PlanEnv \<Rightarrow> LogicalPlan \<Rightarrow> OptimizationResult res" where
  "optimize rules env p = optimize_with rules env p False"

text \<open>The rules of the local backend, in its order.\<close>

definition local_rules :: "Visit list" where
  "local_rules = [not_pushdown_filter, merge_filter, semantic_rewrite_filter]"

section \<open>What plans and predicates mean\<close>

text \<open>
  Three-valued connectives (None is null), as polars evaluates \<^verbatim>\<open>not_\<close>, \<^verbatim>\<open>&\<close> and \<^verbatim>\<open>|\<close>; any
  other expression is an atom whose value on a row is given.
\<close>

fun kleene_not :: "bool option \<Rightarrow> bool option" where
  "kleene_not a = map_option Not a"

definition kleene_and :: "bool option \<Rightarrow> bool option \<Rightarrow> bool option" where
  "kleene_and a b =
     (if a = Some False \<or> b = Some False then Some False
      else if a = None \<or> b = None then None else Some True)"

definition kleene_or :: "bool option \<Rightarrow> bool option \<Rightarrow> bool option" where
  "kleene_or a b =
     (if a = Some True \<or> b = Some True then Some True
      else if a = None \<or> b = None then None else Some False)"

fun eval_pred :: "(LogicalExpr \<Rightarrow> bool option) \<Rightarrow> LogicalExpr \<Rightarrow> bool option" where
  "eval_pred v (NotExpr e) = kleene_not (eval_pred v e)"
| "eval_pred v (BinaryExpr c l r op) =
     (if c = BooleanExpr \<and> op = AND then kleene_and (eval_pred v l) (eval_pred v r)
      else if c = BooleanExpr \<and> op = OR then kleene_or (eval_pred v l) (eval_pred v r)
      else v (BinaryExpr c l r op))"
| "eval_pred v e = v e"

text \<open>
  A filter keeps the rows on which its predicate is true; every other node is an operation on
  the rows of its children.
\<close>

fun run ::
  "(Node \<Rightarrow> 'row list list \<Rightarrow> 'row list) \<Rightarrow> ('row \<Rightarrow> LogicalExpr \<Rightarrow> bool option) \<Rightarrow>
     LogicalPlan \<Rightarrow> 'row list" where
  "run op v (Plan n cs s c) =
     (case n of
        Filter p \<Rightarrow> filter (\<lambda>row. eval_pred (v row) p = Some True) (hd (map (run op v) cs))
      | _ \<Rightarrow> op n (map (run op v) cs))"

text \<open>
  The model calls of the filters: polars evaluates every semantic expression of a predicate
  on every row the filter receives.
\<close>

fun model_calls ::
  "(Node \<Rightarrow> 'row list list \<Rightarrow> 'row list) \<Rightarrow> ('row \<Rightarrow> LogicalExpr \<Rightarrow> bool option) \<Rightarrow>
     LogicalPlan \<Rightarrow> nat" where
  "model_calls op v (Plan n cs s c) =
     sum_list (map (model_calls op v) cs) +
     (case n of
        Filter p \<Rightarrow> length (run op v (hd cs)) * count_semantic_predicate_expressions p
      | _ \<Rightarrow> 0)"

lemma run_cache [simp]: "run op v (set_cache_info c p) = run op v p"
  by (cases p) simp

lemma calls_cache [simp]: "model_calls op v (set_cache_info c p) = model_calls op v p"
  by (cases p) simp

lemma schema_cache [simp]: "plan_schema (set_cache_info c p) = plan_schema p"
  by (cases p) simp

lemma well_built_set_cache [simp]: "well_built env (set_cache_info c p) = well_built env p"
  by (cases p) simp

lemma is_filter_cache [simp]: "is_filter (set_cache_info c p) = is_filter p"
proof (cases p)
  case (Plan n cs s c')
  then show ?thesis by (cases n) simp_all
qed

lemma is_filterE:
  assumes "is_filter p" and "well_built env p"
  obtains e q c where "p = Plan (Filter e) [q] (plan_schema q) c" "well_built env q"
    "filter_ok env (plan_schema q) e"
proof (cases p)
  case (Plan n cs s c)
  with assms(1) obtain e where n: "n = Filter e" by (cases n) auto
  with Plan assms(2) have "well_built env (Plan (Filter e) cs s c)" by simp
  with Plan n that show thesis unfolding well_built_filter by blast
qed

lemma run_filter [simp]:
  "run op v (Plan (Filter e) [q] s c) = filter (\<lambda>row. eval_pred (v row) e = Some True) (run op v q)"
  by simp

lemma kleene_and_true: "kleene_and a b = Some True \<longleftrightarrow> a = Some True \<and> b = Some True"
  by (cases a; cases b) (auto simp: kleene_and_def)

lemma kleene_de_morgan: "kleene_not (kleene_or a b) = kleene_and (kleene_not a) (kleene_not b)"
  by (cases a; cases b) (auto simp: kleene_and_def kleene_or_def)

lemma kleene_double_negation [simp]: "kleene_not (kleene_not a) = a"
  by (cases a) simp_all

declare kleene_not.simps [simp del]

section \<open>A sound step on filters is sound on plans\<close>

lemma optimize_node_InrE:
  assumes "optimize_node visit env p = Inr r"
  obtains rs q where "map_res (optimize_node visit env) (plan_children p) = Inr rs"
    "with_children env p (map result_plan rs) = Inr q"
    "if is_filter q then \<exists>r'. visit env q = Inr r' \<and> result_plan r = result_plan r' else result_plan r = q"
proof -
  from assms obtain rs q where rs: "map_res (optimize_node visit env) (plan_children p) = Inr rs"
    and q: "with_children env p (map result_plan rs) = Inr q"
    and e: "(if is_filter q then bind_res (visit env q) (\<lambda>r. Inr (mk_result (result_plan r) (list_ex was_modified rs \<or> was_modified r)))
       else Inr (mk_result q (list_ex was_modified rs))) = Inr r"
    by (subst (asm) optimize_node.simps) (simp only: bind_res_Inr_iff Let_def, blast)
  from e have "if is_filter q then \<exists>r'. visit env q = Inr r' \<and> result_plan r = result_plan r' else result_plan r = q"
    by (cases "is_filter q") auto
  then show thesis by (rule that [OF rs q])
qed

text \<open>
  The contract of a rule's step: on a well-built filter it returns a well-built plan of the same
  schema that computes the same rows, or raises one of the named exceptions.
\<close>

locale filter_rule =
  fixes visit :: Visit and row_type :: "'row itself" and raises :: "exn set"
  assumes visit_sound:
    "well_built env q \<Longrightarrow> is_filter q \<Longrightarrow> visit env q = Inr r \<Longrightarrow>
       well_built env (result_plan r) \<and> plan_schema (result_plan r) = plan_schema q \<and>
       (\<forall>op v. run op v (result_plan r) = run op (v :: 'row \<Rightarrow> LogicalExpr \<Rightarrow> bool option) q)"
    and visit_raises:
    "well_built env q \<Longrightarrow> is_filter q \<Longrightarrow> visit env q = Inl x \<Longrightarrow> x \<in> raises"
begin

lemma rebuild:
  assumes "well_built env p"
    and "list_all2 (\<lambda>c r. well_built env (result_plan r) \<and> plan_schema (result_plan r) = plan_schema c \<and>
      (\<forall>op v. run op v (result_plan r) = run op (v :: 'row \<Rightarrow> LogicalExpr \<Rightarrow> bool option) c)) (plan_children p) rs"
  shows "\<exists>q. with_children env p (map result_plan rs) = Inr q \<and> well_built env q \<and>
    plan_schema q = plan_schema p \<and> (\<forall>op v. run op v q = run op (v :: 'row \<Rightarrow> LogicalExpr \<Rightarrow> bool option) p)"
proof -
  have schemas: "map plan_schema (map result_plan rs) = map plan_schema (plan_children p)"
    using assms(2) by (induction rule: list_all2_induct) auto
  have wb: "list_all (well_built env) (map result_plan rs)"
    using assms(2) by (induction rule: list_all2_induct) auto
  have runs: "map (run op v) (map result_plan rs) = map (run op v) (plan_children p)"
    for op and v :: "'row \<Rightarrow> LogicalExpr \<Rightarrow> bool option"
    using assms(2) by (induction rule: list_all2_induct) auto
  have "run op v (Plan (plan_node p) (map result_plan rs) (plan_schema p) c) = run op v p"
    for op c and v :: "'row \<Rightarrow> LogicalExpr \<Rightarrow> bool option"
  proof (cases p)
    case (Plan n cs s c')
    have "map (run op v) (map result_plan rs) = map (run op v) cs" using runs [of op v] Plan by simp
    then show ?thesis by (simp only: Plan LogicalPlan.sel run.simps)
  qed
  with with_children_well_built [OF assms(1) schemas wb] show ?thesis by auto
qed

theorem node_sound:
  "well_built env p \<Longrightarrow> optimize_node visit env p = Inr r \<Longrightarrow>
     well_built env (result_plan r) \<and> plan_schema (result_plan r) = plan_schema p \<and>
     (\<forall>op v. run op v (result_plan r) = run op (v :: 'row \<Rightarrow> LogicalExpr \<Rightarrow> bool option) p)"
proof (induction p arbitrary: r rule: measure_induct_rule [of size])
  case (less p)
  from less.prems(2) obtain rs q
    where rs: "map_res (optimize_node visit env) (plan_children p) = Inr rs"
    and q: "with_children env p (map result_plan rs) = Inr q"
    and r: "if is_filter q then \<exists>r'. visit env q = Inr r' \<and> result_plan r = result_plan r' else result_plan r = q"
    by (rule optimize_node_InrE)
  have "list_all2 (\<lambda>c r. well_built env (result_plan r) \<and> plan_schema (result_plan r) = plan_schema c \<and>
      (\<forall>op v. run op v (result_plan r) = run op (v :: 'row \<Rightarrow> LogicalExpr \<Rightarrow> bool option) c)) (plan_children p) rs"
    using rs unfolding map_res_Inr_iff
  proof (rule list.rel_mono_strong)
    fix c r assume c: "c \<in> set (plan_children p)" and r: "optimize_node visit env c = Inr r"
    then have "well_built env c" using less.prems(1) by (blast dest: well_built_children)
    from less.IH [OF size_plan_child [OF c] this r] show "well_built env (result_plan r) \<and> plan_schema (result_plan r) = plan_schema c \<and>
      (\<forall>op v. run op v (result_plan r) = run op (v :: 'row \<Rightarrow> LogicalExpr \<Rightarrow> bool option) c)" .
  qed
  from rebuild [OF less.prems(1) this] q
  have q': "well_built env q" "plan_schema q = plan_schema p"
    "\<forall>op v. run op v q = run op (v :: 'row \<Rightarrow> LogicalExpr \<Rightarrow> bool option) p" by auto
  show ?case
  proof (cases "is_filter q")
    case True
    with r obtain r' where "visit env q = Inr r'" "result_plan r = result_plan r'" by auto
    with visit_sound [OF q'(1) True] q' show ?thesis by metis
  next
    case False
    with r q' show ?thesis by simp
  qed
qed

theorem node_raises:
  "well_built env p \<Longrightarrow> optimize_node visit env p = Inl x \<Longrightarrow> x \<in> raises"
proof (induction p rule: measure_induct_rule [of size])
  case (less p)
  show ?case
  proof (cases "map_res (optimize_node visit env) (plan_children p)")
    case (Inl y)
    with less.prems(2) have "y = x" by (subst (asm) optimize_node.simps) simp
    with map_res_Inl [OF Inl] obtain c where "c \<in> set (plan_children p)" "optimize_node visit env c = Inl x"
      by auto
    with less.IH [OF size_plan_child] less.prems(1) show ?thesis by (blast dest: well_built_children)
  next
    case (Inr rs)
    have "list_all2 (\<lambda>c r. well_built env (result_plan r) \<and> plan_schema (result_plan r) = plan_schema c \<and>
      (\<forall>op v. run op v (result_plan r) = run op (v :: 'row \<Rightarrow> LogicalExpr \<Rightarrow> bool option) c)) (plan_children p) rs"
      using Inr unfolding map_res_Inr_iff
    proof (rule list.rel_mono_strong)
      fix c r assume "c \<in> set (plan_children p)" and r: "optimize_node visit env c = Inr r"
      then have "well_built env c" using less.prems(1) by (blast dest: well_built_children)
      from node_sound [OF this r] show "well_built env (result_plan r) \<and> plan_schema (result_plan r) = plan_schema c \<and>
        (\<forall>op v. run op v (result_plan r) = run op (v :: 'row \<Rightarrow> LogicalExpr \<Rightarrow> bool option) c)" .
    qed
    from rebuild [OF less.prems(1) this] obtain q
      where q: "with_children env p (map result_plan rs) = Inr q" "well_built env q" by blast
    with less.prems(2) Inr have "is_filter q \<and> visit env q = Inl x"
      by (subst (asm) optimize_node.simps) (auto simp: Let_def bind_res_Inl_iff split: if_splits)
    with visit_raises q(2) show ?thesis by blast
  qed
qed

end

section \<open>Pushing negations is sound\<close>

text \<open>No negation is left of a negation or of an OR among the connectives.\<close>

fun pushed :: "LogicalExpr \<Rightarrow> bool" where
  "pushed (NotExpr e) \<longleftrightarrow>
     (case e of NotExpr _ \<Rightarrow> False | BinaryExpr c l r op \<Rightarrow> \<not> (c = BooleanExpr \<and> op = OR) | _ \<Rightarrow> True) \<and> pushed e"
| "pushed (BinaryExpr c l r op) \<longleftrightarrow> (c = BooleanExpr \<longrightarrow> pushed l \<and> pushed r)"
| "pushed e \<longleftrightarrow> True"

lemma pushed_erase [simp]: "pushed (erase e) = pushed e"
proof (induction e rule: pushed.induct)
  case (1 e)
  then show ?case by (cases e) simp_all
qed simp_all

lemma pushed_eq: "expr_eq a b \<Longrightarrow> pushed a \<Longrightarrow> pushed b"
  by (metis expr_eq_erase pushed_erase)

definition is_not_expr :: "LogicalExpr \<Rightarrow> bool" where
  "is_not_expr e = (case e of NotExpr _ \<Rightarrow> True | _ \<Rightarrow> False)"

definition is_boolean_expr :: "LogicalExpr \<Rightarrow> bool" where
  "is_boolean_expr e = (case e of BinaryExpr c l r op \<Rightarrow> c = BooleanExpr | _ \<Rightarrow> False)"

text \<open>The cases of the transformation, one for each branch of the code.\<close>

lemma push_cases:
  obtains (double) a where "e = NotExpr (NotExpr a)"
  | (de_morgan) l r where "e = NotExpr (BinaryExpr BooleanExpr l r OR)"
  | (negation) a where "e = NotExpr a" "\<not> is_or_expr a" "\<not> is_not_expr a"
  | (connective) l r op where "e = BinaryExpr BooleanExpr l r op"
  | (atom) "\<not> is_not_expr e" "\<not> is_boolean_expr e"
proof (cases "is_not_expr e")
  case True
  then obtain a where e: "e = NotExpr a" by (cases e) (auto simp: is_not_expr_def)
  show thesis
  proof (cases "is_or_expr a \<or> is_not_expr a")
    case True
    then show thesis
      by (cases a) (use e double de_morgan in \<open>auto simp: is_or_expr_def is_not_expr_def\<close>)
  next
    case False
    with e negation show thesis by blast
  qed
next
  case False
  show thesis
  proof (cases "is_boolean_expr e")
    case True
    then show thesis by (cases e) (use connective in \<open>auto simp: is_boolean_expr_def\<close>)
  next
    assume "\<not> is_boolean_expr e"
    with False atom show thesis by blast
  qed
qed

lemma push_double: "push_not_inward (NotExpr (NotExpr a)) = push_not_inward a"
  by (subst push_not_inward.simps) simp

lemma push_de_morgan:
  "push_not_inward (NotExpr (BinaryExpr BooleanExpr l r OR)) =
     bind_res (push_not_inward (NotExpr l)) (\<lambda>l'.
     bind_res (push_not_inward (NotExpr r)) (\<lambda>r'. Inr (BinaryExpr BooleanExpr l' r' AND)))"
  by (subst push_not_inward.simps) (simp add: is_or_expr_def)

lemma push_negation:
  assumes "\<not> is_or_expr a" "\<not> is_not_expr a"
  shows "push_not_inward (NotExpr a) =
     bind_res (push_not_inward a) (\<lambda>a'. Inr (if \<not> expr_eq a' a then NotExpr a' else NotExpr a))"
  using assms by (subst push_not_inward.simps) (cases a; simp add: is_not_expr_def)

lemma push_connective:
  "push_not_inward (BinaryExpr BooleanExpr l r op) =
     bind_res (push_not_inward l) (\<lambda>l'.
     bind_res (push_not_inward r) (\<lambda>r'.
       if \<not> expr_eq l' l \<or> \<not> expr_eq r' r then Inl PyAttributeError
       else Inr (BinaryExpr BooleanExpr l r op)))"
  by (subst push_not_inward.simps) simp

lemma push_atom:
  assumes "\<not> is_not_expr e" "\<not> is_boolean_expr e"
  shows "push_not_inward e = Inr e"
  using assms by (subst push_not_inward.simps) (cases e; simp add: is_not_expr_def is_boolean_expr_def)

lemma push_raises: "push_not_inward e = Inl x \<Longrightarrow> x = PyAttributeError"
proof (induction e arbitrary: x rule: measure_induct_rule [of size])
  case (less e)
  show ?case
  proof (cases e rule: push_cases)
    case (double a)
    with less.prems less.IH [of a] show ?thesis by (simp add: push_double)
  next
    case (de_morgan l r)
    with less.prems less.IH [of "NotExpr l"] less.IH [of "NotExpr r"] show ?thesis
      by (auto simp: push_de_morgan bind_res_Inl_iff)
  next
    case (negation a)
    with less.prems less.IH [of a] show ?thesis by (auto simp: push_negation bind_res_Inl_iff)
  next
    case (connective l r op)
    with less.prems less.IH [of l] less.IH [of r] show ?thesis
      by (auto simp: push_connective bind_res_Inl_iff split: if_splits)
  next
    case atom
    with less.prems show ?thesis by (simp add: push_atom)
  qed
qed

lemma push_pushed: "push_not_inward e = Inr e' \<Longrightarrow> pushed e'"
proof (induction e arbitrary: e' rule: measure_induct_rule [of size])
  case (less e)
  show ?case
  proof (cases e rule: push_cases)
    case (double a)
    with less.prems less.IH [of a] show ?thesis by (simp add: push_double)
  next
    case (de_morgan l r)
    with less.prems less.IH [of "NotExpr l"] less.IH [of "NotExpr r"] show ?thesis
      by (auto simp: push_de_morgan)
  next
    case (negation a)
    with less.prems obtain a' where a: "push_not_inward a = Inr a'"
      "e' = (if \<not> expr_eq a' a then NotExpr a' else NotExpr a)" by (auto simp: push_negation)
    have p: "pushed a'" using less.IH [of a] a(1) negation(1) by simp
    show ?thesis
    proof (cases a rule: push_cases)
      case (connective l r op)
      with a(1) have "a' = a" by (auto simp: push_connective split: if_splits)
      with a p connective negation(2) show ?thesis by (auto simp: is_or_expr_def)
    next
      case atom
      with a(1) have "a' = a" by (simp add: push_atom)
      with a p negation atom(2) show ?thesis
        by (cases a) (auto simp: is_not_expr_def is_boolean_expr_def)
    qed (use negation in \<open>auto simp: is_or_expr_def is_not_expr_def\<close>)
  next
    case (connective l r op)
    with less.prems obtain l' r' where "push_not_inward l = Inr l'" "push_not_inward r = Inr r'"
      "expr_eq l' l" "expr_eq r' r" "e' = e" by (auto simp: push_connective split: if_splits)
    with connective less.IH [of l] less.IH [of r] show ?thesis by (auto dest: pushed_eq)
  next
    case atom
    with less.prems show ?thesis
      by (cases e) (auto simp: push_atom is_not_expr_def is_boolean_expr_def)
  qed
qed

lemma push_sound: "push_not_inward e = Inr e' \<Longrightarrow> eval_pred v e' = eval_pred v e"
proof (induction e arbitrary: e' rule: measure_induct_rule [of size])
  case (less e)
  show ?case
  proof (cases e rule: push_cases)
    case (double a)
    with less.prems less.IH [of a] show ?thesis by (simp add: push_double)
  next
    case (de_morgan l r)
    with less.prems less.IH [of "NotExpr l"] less.IH [of "NotExpr r"] show ?thesis
      by (auto simp: push_de_morgan kleene_de_morgan)
  next
    case (negation a)
    with less.prems less.IH [of a] show ?thesis by (auto simp: push_negation)
  next
    case (connective l r op)
    with less.prems show ?thesis by (auto simp: push_connective split: if_splits)
  next
    case atom
    with less.prems show ?thesis by (simp add: push_atom)
  qed
qed

section \<open>Each rule meets the contract\<close>

lemma typ_not: "typ_in env s (NotExpr e) = Inr BooleanType \<longleftrightarrow> typ_in env s e = Inr BooleanType"
  by (auto simp: typ_in_def field_type_def dtype_eq_iff_eq split: if_splits)

lemma typ_connective:
  "typ_in env s (BinaryExpr BooleanExpr l r op) = Inr BooleanType \<longleftrightarrow>
     typ_in env s l = Inr BooleanType \<and> typ_in env s r = Inr BooleanType"
  by (auto simp: typ_in_def field_type_def boolean_type_def dtype_eq_iff_eq split: if_splits)

lemma push_typed:
  "push_not_inward e = Inr e' \<Longrightarrow> typ_in env s e = Inr BooleanType \<Longrightarrow> typ_in env s e' = Inr BooleanType"
proof (induction e arbitrary: e' rule: measure_induct_rule [of size])
  case (less e)
  show ?case
  proof (cases e rule: push_cases)
    case (double a)
    with less.prems less.IH [of a] show ?thesis by (simp add: push_double typ_not)
  next
    case (de_morgan l r)
    with less.prems less.IH [of "NotExpr l"] less.IH [of "NotExpr r"] show ?thesis
      by (auto simp: push_de_morgan typ_not typ_connective)
  next
    case (negation a)
    with less.prems less.IH [of a] show ?thesis by (auto simp: push_negation typ_not)
  next
    case (connective l r op)
    with less.prems show ?thesis by (auto simp: push_connective split: if_splits)
  next
    case atom
    with less.prems show ?thesis by (simp add: push_atom)
  qed
qed

lemma connective_scalar:
  "validate_scalar_expr (NotExpr e) = Inr ()" "validate_scalar_expr (BinaryExpr c l r op) = Inr ()"
  by (simp_all add: validate_scalar_expr_def is_sort_def is_aggregate_def)

lemma mk_filter_Inr:
  "mk_filter env q p = Inr f \<longleftrightarrow> filter_ok env (plan_schema q) p \<and>
     distinct (column_names (plan_schema q)) \<and> f = Plan (Filter p) [q] (plan_schema q) None"
  by (simp add: mk_filter_def build_filter_iff)

lemma validate_scalar_raises: "validate_scalar_expr e = Inl x \<Longrightarrow> x = PlanError"
  by (auto simp: validate_scalar_expr_def bind_res_Inl_iff)

lemma mk_filter_raises:
  assumes "typ_in env (plan_schema q) p = Inr BooleanType" and "well_built env q"
    and "mk_filter env q p = Inl x"
  shows "x = PlanError"
proof -
  have "distinct (column_names (plan_schema q))" by (rule well_built_distinct [OF assms(2)])
  then have "validate_schema (plan_schema q) = Inr ()" by simp
  with assms(1, 3) have "validate_scalar_expr p = Inl x"
    by (cases "validate_scalar_expr p")
      (simp_all add: mk_filter_def from_session_state_def filter_schema_def dtype_eq_iff_eq)
  then show ?thesis by (rule validate_scalar_raises)
qed

lemma filter_sel [simp]:
  "input (Plan n [q] s c) = q" "filter_predicate (Plan (Filter e) cs s c) = e"
  by (simp_all add: input_def)

lemma well_built_mk_filter:
  assumes "mk_filter env q p = Inr f" and "well_built env q"
  shows "well_built env (set_cache_info c f)" "plan_schema f = plan_schema q"
    "run op v f = filter (\<lambda>row. eval_pred (v row) p = Some True) (run op v q)"
proof -
  from assms(1) have f: "f = Plan (Filter p) [q] (plan_schema q) None" "filter_ok env (plan_schema q) p"
    by (simp_all add: mk_filter_Inr)
  have "well_built env f" unfolding f(1) well_built_filter using f(2) assms(2) by blast
  then show "well_built env (set_cache_info c f)" by simp
  show "plan_schema f = plan_schema q" unfolding f(1) by simp
  show "run op v f = filter (\<lambda>row. eval_pred (v row) p = Some True) (run op v q)"
    unfolding f(1) by simp
qed

interpretation push: filter_rule not_pushdown_filter "TYPE('row)" "{PyAttributeError, PlanError}"
proof (unfold_locales, goal_cases)
  case (1 env q r)
  from 1(2,1) obtain e q0 c where q: "q = Plan (Filter e) [q0] (plan_schema q0) c" "well_built env q0"
    by (rule is_filterE)
  from 1(3) q(1) obtain t where t: "push_not_inward e = Inr t"
    and r: "if \<not> expr_eq t e
        then \<exists>f. mk_filter env q0 t = Inr f \<and> result_plan r = set_cache_info c f
        else result_plan r = q"
    by (cases "push_not_inward e") (auto simp: not_pushdown_filter_def split: if_splits)
  show ?case
  proof (cases "expr_eq t e")
    case True
    with r 1 show ?thesis by simp
  next
    case False
    with r obtain f where f: "mk_filter env q0 t = Inr f" "result_plan r = set_cache_info c f" by auto
    note w = well_built_mk_filter [OF f(1) q(2)]
    show ?thesis using w(1,2) f(2) q(1) push_sound [OF t]
      by (simp del: well_built.simps run.simps add: w(3))
  qed
next
  case (2 env q x)
  from 2(2,1) obtain e q0 c where q: "q = Plan (Filter e) [q0] (plan_schema q0) c" "well_built env q0"
    and ok: "filter_ok env (plan_schema q0) e" by (rule is_filterE)
  from 2(3) q(1) have "push_not_inward e = Inl x \<or> (\<exists>t. push_not_inward e = Inr t \<and> mk_filter env q0 t = Inl x)"
    by (cases "push_not_inward e") (auto simp: not_pushdown_filter_def bind_res_Inl_iff split: if_splits)
  then show ?case
  proof
    assume "push_not_inward e = Inl x"
    then show ?thesis by (simp add: push_raises)
  next
    assume "\<exists>t. push_not_inward e = Inr t \<and> mk_filter env q0 t = Inl x"
    with ok q(2) show ?thesis by (auto simp: filter_ok_def dest: push_typed mk_filter_raises)
  qed
qed

interpretation merge: filter_rule merge_filter "TYPE('row)" "{}"
proof (unfold_locales, goal_cases)
  case (1 env q r)
  from 1(2,1) obtain e q0 c where q: "q = Plan (Filter e) [q0] (plan_schema q0) c" "well_built env q0"
    by (rule is_filterE)
  show ?case
  proof (cases "is_filter q0 \<and> cache_info q0 = None")
    case False
    with 1 q(1) show ?thesis by (auto simp: merge_filter_def)
  next
    case True
    then obtain e' q1 c' where q0: "q0 = Plan (Filter e') [q1] (plan_schema q1) c'" "well_built env q1"
      using q(2) by (auto elim: is_filterE)
    from True 1(3) q(1) q0(1) obtain f
      where f: "mk_filter env q1 (BinaryExpr BooleanExpr e e' AND) = Inr f" "result_plan r = set_cache_info c f"
      by (auto simp: merge_filter_def)
    note w = well_built_mk_filter [OF f(1) q0(2)]
    have s: "plan_schema q0 = plan_schema q1" by (subst q0(1)) simp
    have "run op v (result_plan r) = run op v q" for op and v :: "'row \<Rightarrow> LogicalExpr \<Rightarrow> bool option"
      by (subst q(1), subst q0(1)) (simp add: f(2) w(3) kleene_and_true conj_commute)
    with w f(2) q(1) s show ?thesis by simp
  qed
next
  case (2 env q x)
  from 2(2,1) obtain e q0 c where q: "q = Plan (Filter e) [q0] (plan_schema q0) c" "well_built env q0"
    and ok: "filter_ok env (plan_schema q0) e" by (rule is_filterE)
  have "is_filter q0" "cache_info q0 = None" using 2(3) q(1) by (auto simp: merge_filter_def split: if_splits)
  from is_filterE [OF this(1) q(2)] obtain e' q1 c'
    where q0: "q0 = Plan (Filter e') [q1] (plan_schema q1) c'" "well_built env q1" "filter_ok env (plan_schema q1) e'"
    by blast
  have "plan_schema q0 = plan_schema q1" by (subst q0(1)) simp
  with ok q0(3) have "filter_ok env (plan_schema q1) (BinaryExpr BooleanExpr e e' AND)"
    by (simp add: filter_ok_def connective_scalar typ_connective)
  with well_built_distinct [OF q0(2)] have "mk_filter env q1 (BinaryExpr BooleanExpr e e' AND) =
      Inr (Plan (Filter (BinaryExpr BooleanExpr e e' AND)) [q1] (plan_schema q1) None)"
    by (simp add: mk_filter_Inr)
  moreover have "input q0 = q1" "filter_predicate q0 = e'" by (subst q0(1), simp)+
  ultimately have "merge_filter env q = Inr (mk_result (set_cache_info c
      (Plan (Filter (BinaryExpr BooleanExpr e e' AND)) [q1] (plan_schema q1) None)) True)"
    using \<open>is_filter q0\<close> \<open>cache_info q0 = None\<close> by (subst q(1)) (simp add: merge_filter_def)
  with 2(3) show ?case by simp
qed

subsection \<open>Splitting\<close>

lemma and_expr_cases:
  obtains (conj) l r where "e = BinaryExpr BooleanExpr l r AND"
  | (piece) "\<not> is_and_expr e"
      "collect_predicates e = (if count_semantic_predicate_expressions e > 0 then ([], [e]) else ([e], []))"
proof (cases "is_and_expr e")
  case True
  then show thesis using conj by (cases e) (auto simp: is_and_expr_def)
next
  case False
  then show thesis using piece by (cases e) auto
qed

lemma collect_conj:
  "collect_predicates (BinaryExpr BooleanExpr l r AND) =
     (fst (collect_predicates l) @ fst (collect_predicates r),
      snd (collect_predicates l) @ snd (collect_predicates r))"
  by (simp add: is_and_expr_def)

declare collect_predicates.simps [simp del]

lemma count_conj:
  "count_semantic_predicate_expressions (BinaryExpr BooleanExpr l r AND) =
     count_semantic_predicate_expressions l + count_semantic_predicate_expressions r"
  by (subst count_semantic_predicate_expressions.simps) (simp add: is_semantic_def)

text \<open>The pieces of a conjunction, seen as its parts.\<close>

definition holds :: "(LogicalExpr \<Rightarrow> bool option) \<Rightarrow> LogicalExpr list \<Rightarrow> bool" where
  "holds v ps \<longleftrightarrow> list_all (\<lambda>p. eval_pred v p = Some True) ps"

lemma collect_holds:
  "eval_pred v e = Some True \<longleftrightarrow> holds v (fst (collect_predicates e)) \<and> holds v (snd (collect_predicates e))"
proof (induction e rule: measure_induct_rule [of size])
  case (less e)
  show ?case
  proof (cases e rule: and_expr_cases)
    case (conj l r)
    with less [of l] less [of r] show ?thesis
      by (auto simp: collect_conj kleene_and_true holds_def)
  next
    case piece
    then show ?thesis by (simp add: holds_def)
  qed
qed

lemma collect_typed:
  "typ_in env s e = Inr BooleanType \<Longrightarrow>
     list_all (\<lambda>p. typ_in env s p = Inr BooleanType) (fst (collect_predicates e) @ snd (collect_predicates e))"
proof (induction e rule: measure_induct_rule [of size])
  case (less e)
  show ?case
  proof (cases e rule: and_expr_cases)
    case (conj l r)
    with less.IH [of l] less.IH [of r] less.prems show ?thesis by (simp add: collect_conj typ_connective)
  next
    case piece
    with less.prems show ?thesis by simp
  qed
qed

lemma collect_counts:
  "list_all (\<lambda>p. count_semantic_predicate_expressions p = 0) (fst (collect_predicates e)) \<and>
   sum_list (map count_semantic_predicate_expressions (snd (collect_predicates e))) =
     count_semantic_predicate_expressions e"
proof (induction e rule: measure_induct_rule [of size])
  case (less e)
  show ?case
  proof (cases e rule: and_expr_cases)
    case (conj l r)
    with less [of l] less [of r] show ?thesis by (simp add: collect_conj count_conj)
  next
    case piece
    then show ?thesis by simp
  qed
qed

lemma fold_and:
  fixes p ps
  defines "e \<equiv> foldl (\<lambda>result q. BinaryExpr BooleanExpr result q AND) p ps"
  shows "eval_pred v e = Some True \<longleftrightarrow> holds v (p # ps)"
    and "typ_in env s e = Inr BooleanType \<longleftrightarrow> list_all (\<lambda>q. typ_in env s q = Inr BooleanType) (p # ps)"
    and "count_semantic_predicate_expressions e =
       sum_list (map count_semantic_predicate_expressions (p # ps))"
  unfolding e_def
  by (induction ps arbitrary: p) (auto simp: holds_def kleene_and_true typ_connective count_conj)

lemma apply_filters_sound:
  "apply_filters env ps q = Inr q' \<Longrightarrow> well_built env q \<Longrightarrow>
     well_built env q' \<and> plan_schema q' = plan_schema q \<and>
     run op v q' = filter (\<lambda>row. holds (v row) ps) (run op v q)"
proof (induction ps arbitrary: q)
  case (Cons p ps)
  then obtain f where f: "mk_filter env q p = Inr f" "apply_filters env ps f = Inr q'" by auto
  note w = well_built_mk_filter [OF f(1) Cons.prems(2)]
  have "well_built env f" using w(1) by simp
  have r: "run op v f = filter (\<lambda>row. eval_pred (v row) p = Some True) (run op v q)" by (rule w(3))
  from Cons.IH [OF f(2) \<open>well_built env f\<close>] w(2) show ?case by (simp add: holds_def r)
qed (simp add: holds_def)

lemma apply_filters_raises:
  "apply_filters env ps q = Inl x \<Longrightarrow> well_built env q \<Longrightarrow>
     list_all (\<lambda>p. typ_in env (plan_schema q) p = Inr BooleanType) ps \<Longrightarrow> x = PlanError"
proof (induction ps arbitrary: q)
  case (Cons p ps)
  from Cons.prems(1) consider "mk_filter env q p = Inl x"
    | f where "mk_filter env q p = Inr f" "apply_filters env ps f = Inl x"
    by (auto simp: bind_res_Inl_iff)
  then show ?case
  proof cases
    case 1
    with Cons.prems show ?thesis by (auto intro: mk_filter_raises)
  next
    case (2 f)
    note w = well_built_mk_filter [OF 2(1) Cons.prems(2)]
    from Cons.IH [OF 2(2)] w(1,2) Cons.prems(3) show ?thesis by simp
  qed
qed simp

lemma apply_filters_calls:
  "apply_filters env ps q = Inr q' \<Longrightarrow> well_built env q \<Longrightarrow>
     model_calls op v q' \<le> model_calls op v q +
       length (run op v q) * sum_list (map count_semantic_predicate_expressions ps)"
proof (induction ps arbitrary: q)
  case (Cons p ps)
  then obtain f where f: "mk_filter env q p = Inr f" "apply_filters env ps f = Inr q'" by auto
  note w = well_built_mk_filter [OF f(1) Cons.prems(2)]
  let ?n = "sum_list (map count_semantic_predicate_expressions ps)"
  have "model_calls op v q' \<le> model_calls op v f + length (run op v f) * ?n"
    by (rule Cons.IH [OF f(2)]) (use w(1) in simp)
  moreover have "length (run op v f) * ?n \<le> length (run op v q) * ?n"
    unfolding w(3) by (intro mult_le_mono1 length_filter_le)
  moreover have "model_calls op v f = model_calls op v q +
      length (run op v q) * count_semantic_predicate_expressions p"
    using f(1) by (simp add: mk_filter_Inr)
  ultimately have "model_calls op v q' \<le> model_calls op v q +
      (length (run op v q) * count_semantic_predicate_expressions p + length (run op v q) * ?n)" by linarith
  then show ?case by (simp add: distrib_left)
qed simp

text \<open>What the step does when it splits a filter.\<close>

lemma rewrite_Inr:
  assumes "q = Plan (Filter e) [q0] (plan_schema q0) c" and "semantic_rewrite_filter env q = Inr r"
  obtains (same) "result_plan r = q"
  | (split) q1 q2 where "result_plan r = set_cache_info c q2"
      "apply_filters env (sort_key count_semantic_predicate_expressions (snd (collect_predicates e))) q1 = Inr q2"
      "case fst (collect_predicates e) of
         [] \<Rightarrow> q1 = q0
       | p # ps \<Rightarrow> mk_filter env q0 (foldl (\<lambda>result q. BinaryExpr BooleanExpr result q AND) p ps) = Inr q1"
proof (cases "\<not> is_and_expr e \<or> count_semantic_predicate_expressions e = 0 \<or>
    length (fst (partition_predicates e)) + length (snd (partition_predicates e)) \<le> 1")
  case True
  with assms have "result_plan r = q" by (auto simp: semantic_rewrite_filter_def Let_def split: prod.splits if_splits)
  then show thesis by (rule same)
next
  case False
  let ?q1 = "if fst (partition_predicates e) \<noteq> []
    then bind_res (make_and_expr (fst (partition_predicates e))) (mk_filter env q0) else Inr q0"
  from False assms obtain q1 q2 where 1: "?q1 = Inr q1"
    and 2: "apply_filters env (snd (partition_predicates e)) q1 = Inr q2"
    and r: "result_plan r = set_cache_info c q2"
    by (auto simp: semantic_rewrite_filter_def Let_def split_beta cong: if_cong)
  have "case fst (collect_predicates e) of
         [] \<Rightarrow> q1 = q0
       | p # ps \<Rightarrow> mk_filter env q0 (foldl (\<lambda>result q. BinaryExpr BooleanExpr result q AND) p ps) = Inr q1"
    using 1 by (auto simp: partition_predicates_def make_and_expr_def split: list.splits)
  with r 2 split show thesis by (simp add: partition_predicates_def)
qed

lemma holds_sort [simp]: "holds v (sort_key f ps) = holds v ps"
  by (simp add: holds_def list_all_iff)

lemma first_filter_sound:
  assumes "case ps of [] \<Rightarrow> q1 = q0
       | p # ps \<Rightarrow> mk_filter env q0 (foldl (\<lambda>result q. BinaryExpr BooleanExpr result q AND) p ps) = Inr q1"
    and "well_built env q0"
  shows "well_built env q1 \<and> plan_schema q1 = plan_schema q0 \<and>
    run op v q1 = filter (\<lambda>row. holds (v row) ps) (run op v q0) \<and>
    model_calls op v q1 = model_calls op v q0 +
      length (run op v q0) * sum_list (map count_semantic_predicate_expressions ps)"
proof (cases ps)
  case Nil
  with assms show ?thesis by (simp add: holds_def)
next
  case (Cons p rest)
  let ?e = "foldl (\<lambda>result q. BinaryExpr BooleanExpr result q AND) p rest"
  from assms(1) Cons have f: "mk_filter env q0 ?e = Inr q1" by simp
  note w = well_built_mk_filter [OF f assms(2)]
  have "run op v q1 = filter (\<lambda>row. eval_pred (v row) ?e = Some True) (run op v q0)" by (rule w(3))
  moreover have "model_calls op v q1 = model_calls op v q0 +
      length (run op v q0) * count_semantic_predicate_expressions ?e"
    using f by (simp add: mk_filter_Inr)
  ultimately show ?thesis using w(1,2) Cons by (simp only: fold_and, simp)
qed

lemma rewrite_sound:
  assumes "well_built env q" "is_filter q" "semantic_rewrite_filter env q = Inr r"
  shows "well_built env (result_plan r) \<and> plan_schema (result_plan r) = plan_schema q \<and>
    run op v (result_plan r) = run op v q \<and>
    model_calls op v (result_plan r) \<le> model_calls op v q"
proof -
  from is_filterE [OF assms(2,1)] obtain e q0 c
    where q: "q = Plan (Filter e) [q0] (plan_schema q0) c" "well_built env q0" by blast
  from q(1) assms(3) show ?thesis
  proof (cases rule: rewrite_Inr)
    case same
    with assms(1) show ?thesis by simp
  next
    case (split q1 q2)
    note a = first_filter_sound [OF split(3) q(2), of op v]
    then have wb: "well_built env q1" by blast
    note b = apply_filters_sound [OF split(2) wb, of op v]
    note c = apply_filters_calls [OF split(2) wb, of op v]
    let ?s = "snd (collect_predicates e)"
    have zero: "sum_list (map count_semantic_predicate_expressions (fst (collect_predicates e))) = 0"
      using collect_counts [of e] by (simp add: list_all_iff)
    have sum: "sum_list (map count_semantic_predicate_expressions (sort_key count_semantic_predicate_expressions ?s)) =
        count_semantic_predicate_expressions e"
    proof -
      have "sum_list (map f (sort_key g xs)) = sum_list (map f xs)" for f g :: "LogicalExpr \<Rightarrow> nat" and xs
        by (metis mset_map mset_sort sum_mset_sum_list)
      with collect_counts [of e] show ?thesis by simp
    qed
    have runs: "run op v (result_plan r) = run op v q"
      using a b split(1) by (subst q(1)) (simp add: collect_holds conj_commute)
    have calls1: "model_calls op v q1 = model_calls op v q0" using a zero by simp
    have "length (run op v q1) \<le> length (run op v q0)" using a by simp
    then have "length (run op v q1) * count_semantic_predicate_expressions e \<le>
        length (run op v q0) * count_semantic_predicate_expressions e" by (rule mult_le_mono1)
    with c calls1 have "model_calls op v q2 \<le> model_calls op v q0 +
        length (run op v q0) * count_semantic_predicate_expressions e"
      unfolding sum by linarith
    with split(1) have "model_calls op v (result_plan r) \<le> model_calls op v q" by (subst q(1)) simp
    with runs a b split(1) show ?thesis by (subst q(1)) simp
  qed
qed

lemma rewrite_raises:
  assumes "well_built env q" "is_filter q" "semantic_rewrite_filter env q = Inl x"
  shows "x = PlanError"
proof -
  from is_filterE [OF assms(2,1)] obtain e q0 c
    where q: "q = Plan (Filter e) [q0] (plan_schema q0) c" "well_built env q0"
    and ok: "filter_ok env (plan_schema q0) e" by blast
  let ?q1 = "if fst (partition_predicates e) \<noteq> []
    then bind_res (make_and_expr (fst (partition_predicates e))) (mk_filter env q0) else Inr q0"
  have typed: "list_all (\<lambda>p. typ_in env (plan_schema q0) p = Inr BooleanType)
      (fst (collect_predicates e) @ snd (collect_predicates e))"
    by (rule collect_typed) (use ok in \<open>simp add: filter_ok_def\<close>)
  from assms(3) q(1) have "?q1 = Inl x \<or>
      (\<exists>q1. ?q1 = Inr q1 \<and> apply_filters env (snd (partition_predicates e)) q1 = Inl x)"
    by (auto simp: semantic_rewrite_filter_def Let_def split_beta bind_res_Inl_iff split: if_splits cong: if_cong)
  then show ?thesis
  proof (elim disjE exE conjE)
    assume "?q1 = Inl x"
    then obtain p ps where ps: "fst (collect_predicates e) = p # ps"
      and m: "mk_filter env q0 (foldl (\<lambda>result q. BinaryExpr BooleanExpr result q AND) p ps) = Inl x"
      by (auto simp: partition_predicates_def make_and_expr_def split: if_splits list.splits)
    have "typ_in env (plan_schema q0) (foldl (\<lambda>result q. BinaryExpr BooleanExpr result q AND) p ps) = Inr BooleanType"
      using typed ps by (simp add: fold_and(2))
    from mk_filter_raises [OF this q(2) m] show ?thesis .
  next
    fix q1
    assume q1: "?q1 = Inr q1" and x: "apply_filters env (snd (partition_predicates e)) q1 = Inl x"
    from q1 have "case fst (collect_predicates e) of
         [] \<Rightarrow> q1 = q0
       | p # ps \<Rightarrow> mk_filter env q0 (foldl (\<lambda>result q. BinaryExpr BooleanExpr result q AND) p ps) = Inr q1"
      by (auto simp: partition_predicates_def make_and_expr_def split: list.splits)
    from first_filter_sound [OF this q(2)] have "well_built env q1" "plan_schema q1 = plan_schema q0" by auto
    from apply_filters_raises [OF x this(1)] this(2) typed show ?thesis
      by (simp add: partition_predicates_def list_all_iff)
  qed
qed

interpretation split: filter_rule semantic_rewrite_filter "TYPE('row)" "{PlanError}"
  by unfold_locales (use rewrite_sound rewrite_raises in blast)+

section \<open>Rules that never add model calls\<close>

locale cheaper_rule = filter_rule visit row_type raises
  for visit :: Visit and row_type :: "'row itself" and raises +
  assumes visit_calls:
    "well_built env q \<Longrightarrow> is_filter q \<Longrightarrow> visit env q = Inr r \<Longrightarrow>
       model_calls op (v :: 'row \<Rightarrow> LogicalExpr \<Rightarrow> bool option) (result_plan r) \<le> model_calls op v q"
begin

lemma node_calls:
  "well_built env p \<Longrightarrow> optimize_node visit env p = Inr r \<Longrightarrow>
     model_calls op (v :: 'row \<Rightarrow> LogicalExpr \<Rightarrow> bool option) (result_plan r) \<le> model_calls op v p"
proof (induction p arbitrary: r rule: measure_induct_rule [of size])
  case (less p)
  from less.prems(2) obtain rs q
    where rs: "map_res (optimize_node visit env) (plan_children p) = Inr rs"
    and q: "with_children env p (map result_plan rs) = Inr q"
    and r: "if is_filter q then \<exists>r'. visit env q = Inr r' \<and> result_plan r = result_plan r' else result_plan r = q"
    by (rule optimize_node_InrE)
  have all: "list_all2 (\<lambda>c r. (well_built env (result_plan r) \<and> plan_schema (result_plan r) = plan_schema c \<and>
      (\<forall>op v. run op v (result_plan r) = run op (v :: 'row \<Rightarrow> LogicalExpr \<Rightarrow> bool option) c)) \<and>
      model_calls op v (result_plan r) \<le> model_calls op v c) (plan_children p) rs"
    using rs unfolding map_res_Inr_iff
  proof (rule list.rel_mono_strong)
    fix c r assume c: "c \<in> set (plan_children p)" and r: "optimize_node visit env c = Inr r"
    then have "well_built env c" using less.prems(1) by (blast dest: well_built_children)
    from node_sound [OF this r] less.IH [OF size_plan_child [OF c] this r]
    show "(well_built env (result_plan r) \<and> plan_schema (result_plan r) = plan_schema c \<and>
      (\<forall>op v. run op v (result_plan r) = run op (v :: 'row \<Rightarrow> LogicalExpr \<Rightarrow> bool option) c)) \<and>
      model_calls op v (result_plan r) \<le> model_calls op v c" by blast
  qed
  then have children: "list_all2 (\<lambda>c r. well_built env (result_plan r) \<and> plan_schema (result_plan r) = plan_schema c \<and>
      (\<forall>op v. run op v (result_plan r) = run op (v :: 'row \<Rightarrow> LogicalExpr \<Rightarrow> bool option) c)) (plan_children p) rs"
    by (rule list_all2_mono) blast
  have schemas: "map plan_schema (map result_plan rs) = map plan_schema (plan_children p)"
    using children by (induction rule: list_all2_induct) auto
  have wb: "list_all (well_built env) (map result_plan rs)"
    using children by (induction rule: list_all2_induct) auto
  have runs: "map (run op v) (map result_plan rs) = map (run op v) (plan_children p)"
    using children by (induction rule: list_all2_induct) auto
  have calls: "sum_list (map (model_calls op v) (map result_plan rs)) \<le> sum_list (map (model_calls op v) (plan_children p))"
    using all by (induction rule: list_all2_induct) auto
  from with_children_well_built [OF less.prems(1) schemas wb] q obtain c'
    where q': "q = Plan (plan_node p) (map result_plan rs) (plan_schema p) c'" "well_built env q" by auto
  have "model_calls op v q \<le> model_calls op v p"
  proof (cases p)
    case (Plan n cs s c)
    have "run op v (hd (map result_plan rs)) = run op v (hd cs)" if "n = Filter e" for e
    proof -
      from less.prems(1) Plan that obtain x where "cs = [x]" by (auto simp: well_built_filter simp del: well_built.simps)
      with runs Plan show ?thesis by auto
    qed
    with q'(1) Plan calls show ?thesis by (cases n) auto
  qed
  moreover have "model_calls op v (result_plan r) \<le> model_calls op v q"
  proof (cases "is_filter q")
    case True
    with r obtain r' where "visit env q = Inr r'" "result_plan r = result_plan r'" by auto
    with visit_calls [OF q'(2) True] show ?thesis by simp
  next
    case False
    with r show ?thesis by simp
  qed
  ultimately show ?case by simp
qed

end

interpretation split: cheaper_rule semantic_rewrite_filter "TYPE('row)" "{PlanError}"
  by unfold_locales (use rewrite_sound in blast)

section \<open>The whole optimizer\<close>

lemma optimize_filter:
  assumes "well_built env (Plan (Filter e) [q] s c)" and "optimize_node visit env q = Inr (mk_result q' m)"
    and "well_built env q'" and "plan_schema q' = plan_schema q"
  shows "optimize_node visit env (Plan (Filter e) [q] s c) =
     bind_res (visit env (Plan (Filter e) [q'] s c)) (\<lambda>r. Inr (mk_result (result_plan r) (m \<or> was_modified r)))"
proof -
  have "with_children env (Plan (Filter e) [q] s c) [q'] = Inr (Plan (Filter e) [q'] s c)"
    using with_children_well_built [OF assms(1), of "[q']"] assms(3,4) by auto
  then show ?thesis
    by (subst optimize_node.simps) (simp add: assms(2) del: with_children.simps)
qed

lemma optimize_in_memory:
  assumes "distinct (column_names s)"
  shows "optimize_node visit env (Plan (InMemorySource d) [] s c) =
     Inr (mk_result (Plan (InMemorySource d) [] s None) False)"
  using assms by (subst optimize_node.simps) (simp add: from_schema_def)

lemma optimize_with_sound:
  assumes "optimize_with local_rules env p any = Inr r" and "well_built env p"
  shows "well_built env (result_plan r) \<and> plan_schema (result_plan r) = plan_schema p \<and>
    run op (v :: 'row \<Rightarrow> LogicalExpr \<Rightarrow> bool option) (result_plan r) = run op v p"
proof -
  from assms(1) obtain r1 r2 where
    1: "optimize_node not_pushdown_filter env p = Inr r1" and
    2: "optimize_node merge_filter env (result_plan r1) = Inr r2" and
    3: "\<exists>r3. optimize_node semantic_rewrite_filter env (result_plan r2) = Inr r3 \<and> result_plan r = result_plan r3"
    by (auto simp: local_rules_def)
  note a = push.node_sound [where 'row = 'row, OF assms(2) 1]
  then have wb1: "well_built env (result_plan r1)" by blast
  note b = merge.node_sound [where 'row = 'row, OF wb1 2]
  then have wb2: "well_built env (result_plan r2)" by blast
  from 3 obtain r3 where 3: "optimize_node semantic_rewrite_filter env (result_plan r2) = Inr r3"
    "result_plan r = result_plan r3" by blast
  from split.node_sound [where 'row = 'row, OF wb2 3(1)] a b 3(2) show ?thesis by simp
qed

lemma optimize_with_raises:
  assumes "optimize_with local_rules env p any = Inl x" and "well_built env p"
  shows "x = PyAttributeError \<or> x = PlanError"
proof (cases "optimize_node not_pushdown_filter env p")
  case (Inl y)
  with push.node_raises [OF assms(2) Inl] assms(1) show ?thesis by (simp add: local_rules_def)
next
  case (Inr r1)
  have wb1: "well_built env (result_plan r1)" using push.node_sound [OF assms(2) Inr] by blast
  show ?thesis
  proof (cases "optimize_node merge_filter env (result_plan r1)")
    case Inl
    then show ?thesis using merge.node_raises [OF wb1] by blast
  next
    case (Inr r2)
    have "well_built env (result_plan r2)" using merge.node_sound [OF wb1 Inr] by blast
    moreover have "optimize_node semantic_rewrite_filter env (result_plan r2) = Inl x"
      using assms(1) \<open>optimize_node not_pushdown_filter env p = Inr r1\<close> Inr
      by (auto simp: local_rules_def bind_res_Inl_iff)
    ultimately show ?thesis using split.node_raises by blast
  qed
qed

text \<open>After merging, no filter reads directly from a filter that is not cached.\<close>

fun merged :: "LogicalPlan \<Rightarrow> bool" where
  "merged (Plan n cs s c) \<longleftrightarrow> list_all merged cs \<and>
     (is_filter (Plan n cs s c) \<longrightarrow> list_all (\<lambda>d. \<not> (is_filter d \<and> cache_info d = None)) cs)"

lemma merged_cache [simp]: "merged (set_cache_info c p) = merged p"
proof (cases p)
  case (Plan n cs s c')
  then show ?thesis by (cases n) simp_all
qed

lemma merge_visit_merged:
  assumes "well_built env q" "is_filter q" "merged (input q)" "merge_filter env q = Inr r"
  shows "merged (result_plan r)"
proof -
  from is_filterE [OF assms(2,1)] obtain e q0 c
    where q: "q = Plan (Filter e) [q0] (plan_schema q0) c" "well_built env q0" by blast
  show ?thesis
  proof (cases "is_filter q0 \<and> cache_info q0 = None")
    case False
    with assms(3,4) q(1) show ?thesis by (auto simp: merge_filter_def)
  next
    case True
    with is_filterE [OF _ q(2)] obtain e' q1 c'
      where q0: "q0 = Plan (Filter e') [q1] (plan_schema q1) c'" by blast
    from assms(3) q(1) have "merged (Plan (Filter e') [q1] (plan_schema q1) c')" by (simp flip: q0)
    then have "merged q1" "\<not> (is_filter q1 \<and> cache_info q1 = None)" by simp_all
    moreover from assms(4) q(1) True obtain f where "result_plan r = set_cache_info c f"
      and "mk_filter env (input q0) (BinaryExpr BooleanExpr e (filter_predicate q0) AND) = Inr f"
      by (auto simp: merge_filter_def)
    moreover have "input q0 = q1" by (subst q0) simp
    ultimately show ?thesis by (auto simp: mk_filter_Inr)
  qed
qed

lemma merge_node_merged:
  "well_built env p \<Longrightarrow> optimize_node merge_filter env p = Inr r \<Longrightarrow> merged (result_plan r)"
proof (induction p arbitrary: r rule: measure_induct_rule [of size])
  case (less p)
  from less.prems(2) obtain rs q
    where rs: "map_res (optimize_node merge_filter env) (plan_children p) = Inr rs"
    and q: "with_children env p (map result_plan rs) = Inr q"
    and r: "if is_filter q then \<exists>r'. merge_filter env q = Inr r' \<and> result_plan r = result_plan r' else result_plan r = q"
    by (rule optimize_node_InrE)
  have all: "list_all2 (\<lambda>c r. well_built env (result_plan r) \<and> plan_schema (result_plan r) = plan_schema c \<and>
      merged (result_plan r)) (plan_children p) rs"
    using rs unfolding map_res_Inr_iff
  proof (rule list.rel_mono_strong)
    fix c r assume c: "c \<in> set (plan_children p)" and r: "optimize_node merge_filter env c = Inr r"
    then have "well_built env c" using less.prems(1) by (blast dest: well_built_children)
    from merge.node_sound [OF this r] less.IH [OF size_plan_child [OF c] this r]
    show "well_built env (result_plan r) \<and> plan_schema (result_plan r) = plan_schema c \<and> merged (result_plan r)"
      by blast
  qed
  have schemas: "map plan_schema (map result_plan rs) = map plan_schema (plan_children p)"
    using all by (induction rule: list_all2_induct) auto
  have wb: "list_all (well_built env) (map result_plan rs)"
    using all by (induction rule: list_all2_induct) auto
  have m: "list_all merged (map result_plan rs)"
    using all by (induction rule: list_all2_induct) auto
  from with_children_well_built [OF less.prems(1) schemas wb] q obtain c'
    where q': "q = Plan (plan_node p) (map result_plan rs) (plan_schema p) c'" "well_built env q" by auto
  show ?case
  proof (cases "is_filter q")
    case True
    with is_filterE [OF True q'(2)] obtain e q0 c'' where "q = Plan (Filter e) [q0] (plan_schema q0) c''" by blast
    with q'(1) m have "merged (input q)" by (auto simp: input_def)
    with merge_visit_merged [OF q'(2) True] r True show ?thesis by auto
  next
    case False
    with r q'(1) m show ?thesis by auto
  qed
qed

section \<open>Properties\<close>

text \<open>C1. The optimizer of the local backend is sound: on every well-built plan it returns a well-built
  plan of the same schema that computes the same rows, whatever the other operators do and
  whatever the atoms of the predicates are, or raises PlanError or AttributeError.\<close>

theorem optimizer_sound:
  assumes "well_built env p"
  shows "case optimize local_rules env p of
     Inr r \<Rightarrow> well_built env (result_plan r) \<and> plan_schema (result_plan r) = plan_schema p \<and>
       run op v (result_plan r) = run op v p
   | Inl x \<Rightarrow> x = PyAttributeError \<or> x = PlanError"
  using optimize_with_sound [OF _ assms] optimize_with_raises [OF _ assms]
  by (auto simp: optimize_def split: sum.split)

text \<open>C20. Merging filters never fails, leaves no filter directly above an uncached one, and keeps the
  rows of the plan.\<close>

theorem merge_filters_complete:
  assumes "well_built env p"
  shows "\<exists>r. optimize_node merge_filter env p = Inr r \<and> merged (result_plan r) \<and>
     run op v (result_plan r) = run op v p"
proof (cases "optimize_node merge_filter env p")
  case (Inl x)
  with merge.node_raises [OF assms] show ?thesis by blast
next
  case (Inr r)
  with merge.node_sound [OF assms Inr] merge_node_merged [OF assms Inr] show ?thesis by blast
qed

text \<open>C21. Splitting filters by cost never increases the number of model calls, on any data.\<close>

theorem split_saves_calls:
  assumes "well_built env p" and "optimize_node semantic_rewrite_filter env p = Inr r"
  shows "model_calls op v (result_plan r) \<le> model_calls op v p \<and> run op v (result_plan r) = run op v p"
  using split.node_calls [OF assms] split.node_sound [OF assms] by blast

text \<open>C19. Pushing negations inward keeps the three-valued meaning of the expression, also where it is
  null, and leaves no negation over a negation or over an OR.\<close>

theorem push_not_inward_correct:
  assumes "push_not_inward e = Inr e'"
  shows "eval_pred v e' = eval_pred v e \<and> pushed e'"
  using push_sound [OF assms] push_pushed [OF assms] by simp

text \<open>A filter on an AND or OR with an operand that is doubly negated cannot be optimized, and hence
  not run: rebuilding the connective reads an attribute no expression has.\<close>

theorem not_pushdown_crash:
  assumes "well_built env (Plan (Filter (BinaryExpr BooleanExpr (NotExpr (NotExpr (ColumnExpr a))) (ColumnExpr b) op))
     [Plan (InMemorySource d) [] s c] s c')"
  shows "optimize local_rules env (Plan (Filter (BinaryExpr BooleanExpr (NotExpr (NotExpr (ColumnExpr a))) (ColumnExpr b) op))
     [Plan (InMemorySource d) [] s c] s c') = Inl PyAttributeError"
proof -
  let ?e = "BinaryExpr BooleanExpr (NotExpr (NotExpr (ColumnExpr a))) (ColumnExpr b) op"
  let ?p = "Plan (Filter ?e) [Plan (InMemorySource d) [] s c] s c'"
  have d: "distinct (column_names s)" using well_built_distinct [OF assms] by simp
  have "push_not_inward ?e = Inl PyAttributeError"
    by (simp add: push_connective push_double push_atom is_not_expr_def is_boolean_expr_def expr_eq_erase)
  then have "optimize_node not_pushdown_filter env ?p = Inl PyAttributeError"
    by (subst optimize_filter [OF assms optimize_in_memory [OF d]])
      (simp_all add: d not_pushdown_filter_def Let_def)
  then show ?thesis by (simp add: optimize_def local_rules_def)
qed

theorem not_pushdown_crash_witness:
  "optimize local_rules example_plan_env (Plan (Filter (BinaryExpr BooleanExpr (NotExpr (NotExpr (ColumnExpr ''ok'')))
     (ColumnExpr ''ok'') OR)) [example_left] (plan_schema example_left) None) = Inl PyAttributeError"
  unfolding example_left_def LogicalPlan.sel
  by (rule not_pushdown_crash) (simp add: plan_evals boolean_type_def)

definition example_model_env :: PlanEnv where
  "example_model_env = example_plan_env \<lparr>language_models := language_models example_session,
     completion_catalog := completion_catalog example_session\<rparr>"

definition example_schema :: Schema where
  "example_schema = mk_schema [mk_field ''t'' StringType]"

definition ask :: "string \<Rightarrow> LogicalExpr" where
  "ask question = SemanticExpr (SemanticPredExpr question True [(''t'', VariableNode None [])] 0 None None) [ColumnExpr ''t'']"

definition two_questions :: LogicalPlan where
  "two_questions = Plan (Filter (ask ''second'')) [Plan (Filter (ask ''first''))
     [Plan (InMemorySource 2) [] example_schema None] example_schema None] example_schema None"

lemma ask_ok: "filter_ok example_model_env example_schema (ask question)"
proof -
  have "typ_in example_model_env example_schema (ask question) = Inr BooleanType"
    by (simp add: typ_in_def field_type_def ask_def sem_type_def example_model_env_def example_session_def
        example_plan_env_def validate_completion_parameters_def fetch_model_and_completion_parameters_def
        validate_effective_output_token_limit_def template_args_check_def column_field_def find_field_def
        example_schema_def name_attr_def validate_jinja_variable_def validate_helper.simps
        Env.defs SessionState.defs Let_def)
  then show ?thesis
    by (simp add: filter_ok_def ask_def validate_scalar_expr_def is_sort_def is_aggregate_def)
qed

lemma example_schema_distinct: "distinct (column_names example_schema)"
  by (simp add: example_schema_def column_names_def)

lemma ask_filter_ok:
  assumes "well_built example_model_env q" and "plan_schema q = example_schema"
  shows "well_built example_model_env (Plan (Filter (ask question)) [q] example_schema c)"
  unfolding well_built_filter using assms ask_ok by simp

lemma source_ok: "well_built example_model_env (Plan (InMemorySource d) [] example_schema c)"
  by (simp add: example_schema_distinct)

lemma two_questions_ok: "well_built example_model_env two_questions"
  unfolding two_questions_def by (intro ask_filter_ok source_ok) simp_all

definition swapped_questions :: LogicalPlan where
  "swapped_questions = Plan (Filter (ask ''first'')) [Plan (Filter (ask ''second''))
     [Plan (InMemorySource 2) [] example_schema None] example_schema None] example_schema None"

lemma count_ask: "count_semantic_predicate_expressions (ask question) = 1"
proof -
  have "count_semantic_predicate_expressions (ColumnExpr n) = 0" for n
    by (subst count_semantic_predicate_expressions.simps) (simp add: is_semantic_def)
  then show ?thesis
    unfolding ask_def by (subst count_semantic_predicate_expressions.simps) (simp add: is_semantic_def)
qed

lemma ask_plain: "push_not_inward (ask question) = Inr (ask question)" "\<not> is_and_expr (ask question)"
    "collect_predicates (ask question) = ([], [ask question])"
proof -
  show "push_not_inward (ask question) = Inr (ask question)"
    by (simp add: push_atom is_not_expr_def is_boolean_expr_def ask_def)
  show "\<not> is_and_expr (ask question)" by (simp add: ask_def is_and_expr_def)
  show "collect_predicates (ask question) = ([], [ask question])"
    using count_ask [of question] by (simp add: ask_def collect_predicates.simps)
qed

lemma push_ask:
  "not_pushdown_filter env (Plan (Filter (ask question)) cs s c) =
     Inr (mk_result (Plan (Filter (ask question)) cs s c) False)"
  by (simp add: not_pushdown_filter_def ask_plain expr_eq_erase)

lemma push_two_questions:
  "optimize_node not_pushdown_filter example_model_env two_questions = Inr (mk_result two_questions False)"
proof -
  let ?src = "Plan (InMemorySource 2) [] example_schema None"
  let ?in = "Plan (Filter (ask ''first'')) [?src] example_schema None"
  have "optimize_node not_pushdown_filter example_model_env ?in = Inr (mk_result ?in False)"
    by (subst optimize_filter [OF ask_filter_ok [OF source_ok] optimize_in_memory])
      (simp_all add: push_ask source_ok example_schema_distinct del: well_built.simps)
  then show ?thesis
    unfolding two_questions_def
    by (subst optimize_filter [OF ask_filter_ok [OF ask_filter_ok [OF source_ok]]])
      (simp_all add: push_ask ask_filter_ok source_ok del: well_built.simps)
qed

definition both_questions :: LogicalPlan where
  "both_questions = Plan (Filter (BinaryExpr BooleanExpr (ask ''second'') (ask ''first'') AND))
     [Plan (InMemorySource 2) [] example_schema None] example_schema None"

lemma both_ok: "well_built example_model_env both_questions"
  unfolding both_questions_def well_built_filter using ask_ok source_ok
  by (simp add: filter_ok_def connective_scalar typ_connective del: well_built.simps)

lemma merge_two_questions:
  "optimize_node merge_filter example_model_env two_questions = Inr (mk_result both_questions True)"
proof -
  let ?src = "Plan (InMemorySource 2) [] example_schema None"
  let ?in = "Plan (Filter (ask ''first'')) [?src] example_schema None"
  have i: "optimize_node merge_filter example_model_env ?in = Inr (mk_result ?in False)"
    by (subst optimize_filter [OF ask_filter_ok [OF source_ok] optimize_in_memory])
      (simp_all add: merge_filter_def source_ok example_schema_distinct del: well_built.simps)
  have m: "mk_filter example_model_env ?src (BinaryExpr BooleanExpr (ask ''second'') (ask ''first'') AND) =
      Inr both_questions"
    using ask_ok by (simp add: mk_filter_Inr both_questions_def example_schema_distinct filter_ok_def
        connective_scalar typ_connective)
  show ?thesis
    unfolding two_questions_def
    by (subst optimize_filter [OF ask_filter_ok [OF ask_filter_ok [OF source_ok]] i])
      (simp_all add: merge_filter_def ask_filter_ok source_ok m del: well_built.simps,
       simp add: both_questions_def)
qed

lemma split_both_questions:
  "optimize_node semantic_rewrite_filter example_model_env both_questions = Inr (mk_result swapped_questions True)"
proof -
  let ?src = "Plan (InMemorySource 2) [] example_schema None"
  let ?e = "BinaryExpr BooleanExpr (ask ''second'') (ask ''first'') AND"
  have p: "partition_predicates ?e = ([], [ask ''second'', ask ''first''])"
    by (simp add: partition_predicates_def collect_conj ask_plain count_ask)
  have a: "apply_filters example_model_env [ask ''second'', ask ''first''] ?src = Inr swapped_questions"
    using ask_ok by (simp add: mk_filter_Inr swapped_questions_def example_schema_distinct)
  have "semantic_rewrite_filter example_model_env both_questions = Inr (mk_result swapped_questions True)"
    using a by (simp add: semantic_rewrite_filter_def both_questions_def p count_conj count_ask
        is_and_expr_def swapped_questions_def del: apply_filters.simps)
  then show ?thesis
    using both_ok unfolding both_questions_def
    by (subst optimize_filter [OF _ optimize_in_memory])
      (simp_all add: source_ok example_schema_distinct del: well_built.simps)
qed

text \<open>The optimizer can add model calls: merging puts the outer predicate first and the stable
  sort keeps that order, so two filters of equal cost are run in the reverse of the order written,
  and a selective first filter no longer protects the second one.\<close>

theorem optimizer_can_add_calls:
  "\<exists>r. well_built example_model_env two_questions \<and>
     optimize local_rules example_model_env two_questions = Inr r \<and>
     model_calls (\<lambda>_ _. [0..<10]) (\<lambda>row e. Some (e = ask ''second'' \<or> row = (0 :: nat))) two_questions = 11 \<and>
     model_calls (\<lambda>_ _. [0..<10]) (\<lambda>row e. Some (e = ask ''second'' \<or> row = 0)) (result_plan r) = 20"
proof -
  let ?op = "\<lambda>(_ :: Node) (_ :: nat list list). [0..<10]"
  let ?v = "\<lambda>row e. Some (e = ask ''second'' \<or> row = (0 :: nat))"
  have "optimize local_rules example_model_env two_questions = Inr (mk_result swapped_questions True)"
    by (simp add: optimize_def local_rules_def push_two_questions merge_two_questions split_both_questions)
  moreover have e: "eval_pred v (ask question) = v (ask question)" for v question by (simp add: ask_def)
  have "ask ''first'' \<noteq> ask ''second''" by (simp add: ask_def)
  then have "model_calls ?op ?v two_questions = 11" "model_calls ?op ?v swapped_questions = 20"
    by (simp_all add: two_questions_def swapped_questions_def count_ask e upt_rec)
  ultimately show ?thesis using two_questions_ok by auto
qed

theorem optimizer_sound_witness:
  "\<exists>r. optimize local_rules example_model_env two_questions = Inr r \<and> result_plan r = swapped_questions \<and>
     run (\<lambda>_ _. [3, 4]) (\<lambda>row e. Some (row = (3 :: nat))) (result_plan r) =
     run (\<lambda>_ _. [3, 4]) (\<lambda>row e. Some (row = 3)) two_questions"
proof -
  have o: "optimize local_rules example_model_env two_questions = Inr (mk_result swapped_questions True)"
    by (simp add: optimize_def local_rules_def push_two_questions merge_two_questions split_both_questions)
  from optimizer_sound [OF two_questions_ok, where op = "\<lambda>_ _. [3, 4]" and v = "\<lambda>row e. Some (row = (3 :: nat))"] o
  show ?thesis by simp
qed

theorem merge_filters_complete_witness:
  "\<exists>r. optimize_node merge_filter example_model_env two_questions = Inr r \<and> merged (result_plan r)"
  using merge_filters_complete [OF two_questions_ok, where op = "\<lambda>_ _. []" and v = "\<lambda>(row :: nat) e. None"] by blast

theorem split_saves_calls_witness:
  "model_calls (\<lambda>_ _. [0..<10]) (\<lambda>(row :: nat) e. Some (row = 0)) swapped_questions \<le>
   model_calls (\<lambda>_ _. [0..<10]) (\<lambda>(row :: nat) e. Some (row = 0)) both_questions"
  using split_saves_calls [OF both_ok split_both_questions,
      where op = "\<lambda>_ _. [0..<10]" and v = "\<lambda>(row :: nat) e. Some (row = 0)"] by simp

theorem push_not_inward_correct_witness:
  "pushed (BinaryExpr BooleanExpr (ColumnExpr ''a'') (NotExpr (ColumnExpr ''b'')) AND) \<and>
   eval_pred (\<lambda>e. None) (BinaryExpr BooleanExpr (ColumnExpr ''a'') (NotExpr (ColumnExpr ''b'')) AND) =
   eval_pred (\<lambda>e. None) (NotExpr (BinaryExpr BooleanExpr (NotExpr (ColumnExpr ''a'')) (ColumnExpr ''b'') OR))"
proof -
  have "push_not_inward (NotExpr (BinaryExpr BooleanExpr (NotExpr (ColumnExpr ''a'')) (ColumnExpr ''b'') OR)) =
      Inr (BinaryExpr BooleanExpr (ColumnExpr ''a'') (NotExpr (ColumnExpr ''b'')) AND)"
    by (simp add: push_de_morgan push_double push_negation push_atom is_not_expr_def is_boolean_expr_def
        is_or_expr_def)
  from push_not_inward_correct [OF this, of "\<lambda>e. None"] show ?thesis by simp
qed

end
