(* ===== verification/InferenceRequests.thy ===== *)
theory InferenceRequests
  imports Expressions
begin

text \<open>
  Requests to model providers and their keys (\<^verbatim>\<open>src/fenic/_inference/types.py\<close> and
  \<^verbatim>\<open>src/fenic/_inference/cache/key_builder.py\<close>).  The SHA-256 digests are functions of the
  environment; the JSON text they digest is represented by the data it spells.  The lemmas
  show what two requests with the same key have in common.
\<close>

section \<open>Types\<close>

record FewShotExample =
  example_user :: string
  example_assistant :: string

record LMRequestFile =
  file_path :: string
  page_range :: "int \<times> int"
  pdf_chunk_bytes :: "nat list option"

record LMRequestMessages =
  msg_system :: string
  msg_examples :: "FewShotExample list"
  msg_user :: "string option"
  msg_user_file :: "LMRequestFile option"

record ResponseUsage =
  prompt_tokens :: int
  completion_tokens :: int
  total_usage_tokens :: int
  cached_tokens :: int
  thinking_tokens :: int

record FenicCompletionsResponse =
  completion :: string
  logprobs :: "string list option"
  usage :: "ResponseUsage option"

record FenicCompletionsRequest =
  messages :: LMRequestMessages
  max_completion_tokens :: "int option"
  top_logprobs :: "int option"
  structured_output :: "ResponseFormat option"
  temperature :: "real option"
  completions_profile :: "string option"

record FenicEmbeddingsRequest =
  doc :: string
  embeddings_profile :: "string option"

datatype Request = Completions FenicCompletionsRequest | Embeddings FenicEmbeddingsRequest

definition is_completions :: "Request \<Rightarrow> bool" where
  "is_completions r = (case r of Completions _ \<Rightarrow> True | Embeddings _ \<Rightarrow> False)"

fun model_profile :: "Request \<Rightarrow> string option" where
  "model_profile (Completions r) = completions_profile r"
| "model_profile (Embeddings r) = embeddings_profile r"

section \<open>Keys\<close>

text \<open>The data of the encoded messages: the bytes of a file chunk are not among them.\<close>

type_synonym MessagesKey =
  "string \<times> (string \<times> string) list \<times> string option \<times> (string \<times> (int \<times> int)) option"

definition encode_messages :: "LMRequestMessages \<Rightarrow> MessagesKey" where
  "encode_messages m =
     (msg_system m, map (\<lambda>ex. (example_user ex, example_assistant ex)) (msg_examples m), msg_user m,
      map_option (\<lambda>f. (file_path f, page_range f)) (msg_user_file m))"

datatype KeyData =
    CompletionsKey string "string option" MessagesKey "int option" "real option" "string option"
      "string option" "int option" "string option"
  | EmbeddingsKey string "string option" string "string option" "string option"

record Hashes =
  sha256_json :: "KeyData \<Rightarrow> string"
  sha256_text :: "string \<Rightarrow> string"

definition request_key_data ::
  "Hashes \<Rightarrow> Request \<Rightarrow> string \<Rightarrow> string option \<Rightarrow> string option \<Rightarrow> KeyData" where
  "request_key_data h request model profile_hash base_url =
     (case request of
        Completions r \<Rightarrow>
          CompletionsKey model base_url (encode_messages (messages r)) (max_completion_tokens r)
            (temperature r) (completions_profile r) profile_hash (top_logprobs r)
            (map_option schema_fingerprint (structured_output r))
      | Embeddings r \<Rightarrow>
          EmbeddingsKey model base_url (sha256_text h (doc r)) (embeddings_profile r) profile_hash)"

definition compute_request_fingerprint ::
  "Hashes \<Rightarrow> Request \<Rightarrow> string \<Rightarrow> string option \<Rightarrow> string option \<Rightarrow> string" where
  "compute_request_fingerprint h request model profile_hash base_url =
     sha256_json h (request_key_data h request model profile_hash base_url)"

section \<open>What a key determines\<close>

text \<open>
  The parts of a request the key covers: everything but the bytes of a file chunk and the
  schema of the response format beyond its fingerprint.
\<close>

definition covered_file :: "LMRequestFile \<Rightarrow> LMRequestFile" where
  "covered_file f = f \<lparr>pdf_chunk_bytes := None\<rparr>"

definition covered_messages :: "LMRequestMessages \<Rightarrow> LMRequestMessages" where
  "covered_messages m = m \<lparr>msg_user_file := map_option covered_file (msg_user_file m)\<rparr>"

fun covered :: "Request \<Rightarrow> Request" where
  "covered (Completions r) =
     Completions (r \<lparr>messages := covered_messages (messages r),
                     structured_output := map_option erase_format (structured_output r)\<rparr>)"
| "covered (Embeddings r) = Embeddings r"

text \<open>No two of some texts have the same digest.\<close>

definition collision_free :: "Hashes \<Rightarrow> KeyData set \<Rightarrow> string set \<Rightarrow> bool" where
  "collision_free h keys docs \<longleftrightarrow> inj_on (sha256_json h) keys \<and> inj_on (sha256_text h) docs"

fun request_docs :: "Request \<Rightarrow> string set" where
  "request_docs (Completions r) = {}"
| "request_docs (Embeddings r) = {doc r}"

lemma map_option_eq_transfer:
  assumes "map_option f a = map_option f b" and "\<And>x y. f x = f y \<Longrightarrow> g x = g y"
  shows "map_option g a = map_option g b"
  using assms(1) assms(2) [of "the a" "the b"] by (cases a; cases b) simp_all

lemma examples_injective:
  fixes xs ys :: "FewShotExample list"
  assumes "map (\<lambda>ex. (example_user ex, example_assistant ex)) xs =
   map (\<lambda>ex. (example_user ex, example_assistant ex)) ys"
  shows "xs = ys"
proof -
  have "inj (\<lambda>ex :: FewShotExample. (example_user ex, example_assistant ex))"
    by (rule injI) (auto intro: FewShotExample.equality)
  from inj_mapI [OF this] assms show ?thesis by (rule injD)
qed

lemma encode_messages_covers:
  assumes "encode_messages m = encode_messages m'"
  shows "covered_messages m = covered_messages m'"
proof (rule LMRequestMessages.equality)
  show "msg_user_file (covered_messages m) = msg_user_file (covered_messages m')"
    using assms unfolding covered_messages_def encode_messages_def
    by (auto elim!: map_option_eq_transfer intro!: LMRequestFile.equality simp: covered_file_def)
  show "msg_examples (covered_messages m) = msg_examples (covered_messages m')"
    using assms by (simp add: covered_messages_def encode_messages_def examples_injective)
qed (use assms in \<open>simp_all add: covered_messages_def encode_messages_def\<close>)

lemma key_data_covers:
  assumes "collision_free h keys (request_docs r \<union> request_docs r')"
    and "request_key_data h r model ph url = request_key_data h r' model' ph' url'"
  shows "covered r = covered r' \<and> model = model' \<and> url = url' \<and> ph = ph'"
proof (cases r)
  case (Completions a)
  with assms(2) obtain b where r': "r' = Completions b"
    by (cases r') (auto simp: request_key_data_def)
  have m: "encode_messages (messages a) = encode_messages (messages b)"
    and f: "map_option erase_format (structured_output a) = map_option erase_format (structured_output b)"
    and rest: "max_completion_tokens a = max_completion_tokens b" "temperature a = temperature b"
      "completions_profile a = completions_profile b" "top_logprobs a = top_logprobs b"
      "model = model'" "url = url'" "ph = ph'"
    using assms(2) Completions r'
    by (auto simp: request_key_data_def erase_format_eq elim!: map_option_eq_transfer)
  have "covered r = covered r'"
    using m [THEN encode_messages_covers] f rest Completions r'
    by (auto intro!: FenicCompletionsRequest.equality)
  with rest show ?thesis by simp
next
  case (Embeddings a)
  with assms(2) obtain b where r': "r' = Embeddings b"
    by (cases r') (auto simp: request_key_data_def)
  have "doc a = doc b" "embeddings_profile a = embeddings_profile b" "model = model'" "url = url'" "ph = ph'"
    using assms Embeddings r' by (auto simp: request_key_data_def collision_free_def)
  then show ?thesis using Embeddings r' by (auto intro!: FenicEmbeddingsRequest.equality)
qed

text \<open>C28. Requests with the same key are the same request to the same model, endpoint and resolved
  profile, up to the bytes of an attached file and the schema beyond its fingerprint, provided
  the digests of the two do not collide.\<close>

theorem fingerprint_sound:
  assumes "collision_free h {request_key_data h r model ph url, request_key_data h r' model' ph' url'}
     (request_docs r \<union> request_docs r')"
    and "compute_request_fingerprint h r model ph url = compute_request_fingerprint h r' model' ph' url'"
  shows "covered r = covered r' \<and> model = model' \<and> url = url' \<and> ph = ph'"
proof (rule key_data_covers [OF assms(1)])
  show "request_key_data h r model ph url = request_key_data h r' model' ph' url'"
    using assms by (auto simp: compute_request_fingerprint_def collision_free_def)
qed

definition example_pdf_request :: "nat list option \<Rightarrow> Request" where
  "example_pdf_request bytes = Completions \<lparr>
     messages = \<lparr>msg_system = ''parse'', msg_examples = [], msg_user = None,
       msg_user_file = Some \<lparr>file_path = ''a.pdf'', page_range = (0, 3), pdf_chunk_bytes = bytes\<rparr>\<rparr>,
     max_completion_tokens = None, top_logprobs = None, structured_output = None, temperature = Some 0,
     completions_profile = None\<rparr>"

theorem fingerprint_sound_witness:
  "covered (example_pdf_request None) = covered (example_pdf_request (Some [1]))"
proof -
  let ?h = "\<lparr>sha256_json = (\<lambda>_. ''''), sha256_text = (\<lambda>s. s)\<rparr>"
  have "request_key_data ?h (example_pdf_request None) ''m'' None None =
      request_key_data ?h (example_pdf_request (Some [1])) ''m'' None None"
    by (simp add: request_key_data_def example_pdf_request_def encode_messages_def)
  then have "collision_free ?h {request_key_data ?h (example_pdf_request None) ''m'' None None,
      request_key_data ?h (example_pdf_request (Some [1])) ''m'' None None}
      (request_docs (example_pdf_request None) \<union> request_docs (example_pdf_request (Some [1])))"
    by (simp add: collision_free_def example_pdf_request_def)
  from fingerprint_sound [OF this] show ?thesis by (simp add: compute_request_fingerprint_def)
qed

lemma covered_encodes:
  assumes "covered_messages m = covered_messages m'"
  shows "encode_messages m = encode_messages m'"
proof -
  have files: "map_option covered_file (msg_user_file m) = map_option covered_file (msg_user_file m')"
    using arg_cong [OF assms, of msg_user_file] by (simp add: covered_messages_def)
  have key: "(file_path x, page_range x) = (file_path y, page_range y)" if "covered_file x = covered_file y" for x y
    using arg_cong [OF that, of file_path] arg_cong [OF that, of page_range] by (simp add: covered_file_def)
  have "map_option (\<lambda>f. (file_path f, page_range f)) (msg_user_file m) =
      map_option (\<lambda>f. (file_path f, page_range f)) (msg_user_file m')"
    by (rule map_option_eq_transfer [OF files key])
  then show ?thesis
    using arg_cong [OF assms, of msg_system] arg_cong [OF assms, of msg_examples] arg_cong [OF assms, of msg_user]
    by (simp add: encode_messages_def covered_messages_def)
qed

text \<open>The bytes of an attached file do not enter the key: a file changed on disk, or another chunk of
  the same page range, has the key of the old one.\<close>

theorem file_bytes_not_in_key:
  "compute_request_fingerprint h (Completions (r \<lparr>messages := m \<lparr>msg_user_file := Some f\<rparr>\<rparr>)) model ph url =
   compute_request_fingerprint h
     (Completions (r \<lparr>messages := m \<lparr>msg_user_file := Some (f \<lparr>pdf_chunk_bytes := b\<rparr>)\<rparr>\<rparr>)) model ph url"
  by (simp add: compute_request_fingerprint_def request_key_data_def encode_messages_def)

end
