(* ===== verification/RateLimit.thy ===== *)
theory RateLimit
  imports Fenic_Prelude
begin

text \<open>
  Rate limiting of model requests (\<^verbatim>\<open>src/fenic/_inference/rate_limit_strategy.py\<close>):
  token estimates, the refilling bucket and the unified, separated and adaptive strategies.
  A clock reading is an argument of the operation that makes it, a real number of seconds;
  float rounding is not modelled.  An operation under the strategy's mutex is one step.
  The lemmas bound what a strategy grants over any run by its bucket and refill rate, keep
  every bucket between zero and its capacity, and show that a request that fits is admitted
  once a minute has passed.
\<close>

section \<open>Token estimates\<close>

datatype TokenEstimate = TokenEstimate (input_tokens: int) (output_tokens: int)

definition total_tokens :: "TokenEstimate \<Rightarrow> int" where
  "total_tokens e = input_tokens e + output_tokens e"

text \<open>\<^verbatim>\<open>__add__\<close> and the default estimate \<^verbatim>\<open>TokenEstimate()\<close>.\<close>

instantiation TokenEstimate :: comm_monoid_add
begin

definition plus_TokenEstimate :: "TokenEstimate \<Rightarrow> TokenEstimate \<Rightarrow> TokenEstimate" where
  "plus_TokenEstimate a b =
     TokenEstimate (input_tokens a + input_tokens b) (output_tokens a + output_tokens b)"

definition zero_TokenEstimate :: TokenEstimate where
  "zero_TokenEstimate = TokenEstimate 0 0"

instance
  by standard (auto simp: plus_TokenEstimate_def zero_TokenEstimate_def)

end

definition est_nonneg :: "TokenEstimate \<Rightarrow> bool" where
  "est_nonneg e \<longleftrightarrow> 0 \<le> input_tokens e \<and> 0 \<le> output_tokens e"

lemma est_nonneg_total: "est_nonneg e \<Longrightarrow> 0 \<le> total_tokens e"
  by (simp add: est_nonneg_def total_tokens_def)

section \<open>Buckets\<close>

record RateLimitBucket =
  max_capacity :: int
  current_capacity :: int
  last_update_time :: real

definition new_bucket :: "int \<Rightarrow> real \<Rightarrow> RateLimitBucket" where
  "new_bucket m now = \<lparr>max_capacity = m, current_capacity = m, last_update_time = now\<rparr>"

definition MINUTE_IN_SECONDS :: real where
  "MINUTE_IN_SECONDS = 60"

definition available :: "RateLimitBucket \<Rightarrow> real \<Rightarrow> int" where
  "available b now =
     min (\<lfloor>real_of_int (max_capacity b) * (now - last_update_time b) / MINUTE_IN_SECONDS\<rfloor>
            + current_capacity b)
         (max_capacity b)"

definition set_capacity :: "int \<Rightarrow> real \<Rightarrow> RateLimitBucket \<Rightarrow> RateLimitBucket" where
  "set_capacity c now b = b\<lparr>current_capacity := c, last_update_time := now\<rparr>"

definition bucket_ok :: "RateLimitBucket \<Rightarrow> bool" where
  "bucket_ok b \<longleftrightarrow> 0 \<le> current_capacity b \<and> current_capacity b \<le> max_capacity b"

lemma set_capacity_sel [simp]:
  "max_capacity (set_capacity c now b) = max_capacity b"
  "current_capacity (set_capacity c now b) = c"
  "last_update_time (set_capacity c now b) = now"
  by (simp_all add: set_capacity_def)

lemma new_bucket_sel [simp]:
  "max_capacity (new_bucket m now) = m"
  "current_capacity (new_bucket m now) = m"
  "last_update_time (new_bucket m now) = now"
  by (simp_all add: new_bucket_def)

lemma available_le_max: "available b now \<le> max_capacity b"
  by (simp add: available_def)

lemma available_set_now [simp]:
  "available (set_capacity c now b) now = min c (max_capacity b)"
  by (simp add: available_def)

text \<open>At most the refill rate times the elapsed time comes back.\<close>

lemma available_rate:
  "real_of_int (available b now) \<le>
     current_capacity b + real_of_int (max_capacity b) / 60 * (now - last_update_time b)"
proof -
  let ?r = "real_of_int (max_capacity b) * (now - last_update_time b) / MINUTE_IN_SECONDS"
  have "available b now \<le> \<lfloor>?r\<rfloor> + current_capacity b"
    by (simp add: available_def)
  then have "real_of_int (available b now) \<le> real_of_int (\<lfloor>?r\<rfloor> + current_capacity b)"
    by (simp only: of_int_le_iff)
  also have "\<dots> \<le> ?r + current_capacity b" by simp
  finally show ?thesis by (simp add: MINUTE_IN_SECONDS_def)
qed

lemma available_mono:
  assumes "bucket_ok b" "last_update_time b \<le> now"
  shows "current_capacity b \<le> available b now"
proof -
  have "0 \<le> real_of_int (max_capacity b) * (now - last_update_time b) / MINUTE_IN_SECONDS"
    using assms by (auto simp: bucket_ok_def MINUTE_IN_SECONDS_def)
  then have "0 \<le> \<lfloor>real_of_int (max_capacity b) * (now - last_update_time b) / MINUTE_IN_SECONDS\<rfloor>"
    by simp
  with assms(1) show ?thesis by (simp add: available_def bucket_ok_def)
qed

text \<open>After a minute the bucket is full.\<close>

lemma available_full:
  assumes "bucket_ok b" "last_update_time b + 60 \<le> now"
  shows "available b now = max_capacity b"
proof -
  have "real_of_int (max_capacity b) * 60 \<le> real_of_int (max_capacity b) * (now - last_update_time b)"
    using assms by (intro mult_left_mono) (auto simp: bucket_ok_def)
  then have "real_of_int (max_capacity b)
      \<le> real_of_int (max_capacity b) * (now - last_update_time b) / MINUTE_IN_SECONDS"
    by (simp add: MINUTE_IN_SECONDS_def)
  then have "max_capacity b
      \<le> \<lfloor>real_of_int (max_capacity b) * (now - last_update_time b) / MINUTE_IN_SECONDS\<rfloor>"
    by (simp add: le_floor_iff)
  with assms(1) show ?thesis by (simp add: available_def bucket_ok_def)
qed

section \<open>The unified strategy\<close>

record Unified =
  u_rpm :: int
  u_tpm :: int
  u_requests :: RateLimitBucket
  u_tokens :: RateLimitBucket

definition mk_unified :: "int \<Rightarrow> int \<Rightarrow> real \<Rightarrow> real \<Rightarrow> Unified res" where
  "mk_unified rpm tpm t1 t2 =
     (if rpm \<le> 0 then Inl ValidationError
      else Inr \<lparr>u_rpm = rpm, u_tpm = tpm, u_requests = new_bucket rpm t1,
                u_tokens = new_bucket tpm t2\<rparr>)"

definition unified_backoff :: "real \<Rightarrow> Unified \<Rightarrow> Unified" where
  "unified_backoff now s =
     s\<lparr>u_tokens := set_capacity 0 now (u_tokens s),
       u_requests := set_capacity 0 now (u_requests s)\<rparr>"

definition unified_check_max :: "TokenEstimate \<Rightarrow> Unified \<Rightarrow> unit res" where
  "unified_check_max est s = raise_if (u_tpm s < total_tokens est) ExecutionError"

definition unified_check :: "TokenEstimate \<Rightarrow> real \<Rightarrow> Unified \<Rightarrow> (bool \<times> Unified) res" where
  "unified_check est now s =
     bind_res (unified_check_max est s) (\<lambda>_.
       let available_tokens = available (u_tokens s) now;
           available_requests = available (u_requests s) now;
           has_capacity = available_requests \<ge> 1 \<and> available_tokens \<ge> total_tokens est
       in Inr (has_capacity,
           if has_capacity
           then s\<lparr>u_tokens := set_capacity (available_tokens - total_tokens est) now (u_tokens s),
                  u_requests := set_capacity (available_requests - 1) now (u_requests s)\<rparr>
           else s))"

definition unified_settle :: "TokenEstimate \<Rightarrow> TokenEstimate \<Rightarrow> real \<Rightarrow> Unified \<Rightarrow> Unified" where
  "unified_settle reserved actual now s =
     (let delta = total_tokens reserved - total_tokens actual;
          avail = available (u_tokens s) now
      in s\<lparr>u_tokens := set_capacity (min (u_tpm s) (max 0 (avail + delta))) now (u_tokens s)\<rparr>)"

definition unified_context_tokens :: "Unified \<Rightarrow> int" where
  "unified_context_tokens s = u_tpm s"

section \<open>The separated strategy\<close>

record Separated =
  s_rpm :: int
  input_tpm :: int
  output_tpm :: int
  s_requests :: RateLimitBucket
  s_input :: RateLimitBucket
  s_output :: RateLimitBucket

definition mk_separated :: "int \<Rightarrow> int \<Rightarrow> int \<Rightarrow> real \<Rightarrow> real \<Rightarrow> real \<Rightarrow> Separated res" where
  "mk_separated rpm itpm otpm t1 t2 t3 =
     (if rpm \<le> 0 then Inl ValidationError
      else Inr \<lparr>s_rpm = rpm, input_tpm = itpm, output_tpm = otpm,
                s_requests = new_bucket rpm t1, s_input = new_bucket itpm t2,
                s_output = new_bucket otpm t3\<rparr>)"

definition separated_backoff :: "real \<Rightarrow> Separated \<Rightarrow> Separated" where
  "separated_backoff now s =
     s\<lparr>s_input := set_capacity 0 now (s_input s),
       s_output := set_capacity 0 now (s_output s),
       s_requests := set_capacity 0 now (s_requests s)\<rparr>"

definition separated_check_max :: "TokenEstimate \<Rightarrow> Separated \<Rightarrow> unit res" where
  "separated_check_max est s =
     bind_res (raise_if (input_tpm s < input_tokens est) ExecutionError)
       (\<lambda>_. raise_if (output_tpm s < output_tokens est) ExecutionError)"

definition separated_check :: "TokenEstimate \<Rightarrow> real \<Rightarrow> Separated \<Rightarrow> (bool \<times> Separated) res" where
  "separated_check est now s =
     bind_res (separated_check_max est s) (\<lambda>_.
       let available_input = available (s_input s) now;
           available_requests = available (s_requests s) now;
           available_output = available (s_output s) now;
           has_output_token_capacity = available_output \<ge> output_tokens est;
           has_request_capacity = available_requests \<ge> 1;
           has_token_capacity = available_input \<ge> input_tokens est;
           has_capacity =
             has_request_capacity \<and> has_token_capacity \<and> has_output_token_capacity
       in Inr (has_capacity,
           if has_capacity
           then s\<lparr>s_input := set_capacity (available_input - input_tokens est) now (s_input s),
                  s_output := set_capacity (available_output - output_tokens est) now (s_output s),
                  s_requests := set_capacity (available_requests - 1) now (s_requests s)\<rparr>
           else s))"

definition separated_settle :: "TokenEstimate \<Rightarrow> TokenEstimate \<Rightarrow> real \<Rightarrow> Separated \<Rightarrow> Separated" where
  "separated_settle reserved actual now s =
     (let in_delta = input_tokens reserved - input_tokens actual;
          out_delta = output_tokens reserved - output_tokens actual;
          in_avail = available (s_input s) now;
          out_avail = available (s_output s) now
      in s\<lparr>s_input := set_capacity (min (input_tpm s) (max 0 (in_avail + in_delta))) now (s_input s),
           s_output := set_capacity (min (output_tpm s) (max 0 (out_avail + out_delta))) now
             (s_output s)\<rparr>)"

definition separated_context_tokens :: "Separated \<Rightarrow> int" where
  "separated_context_tokens s = input_tpm s + output_tpm s"

section \<open>The adaptive strategy\<close>

record Adaptive =
  rpm :: int
  requests_bucket :: RateLimitBucket
  min_rpm :: int
  backoff_multiplier :: real
  max_rpm :: int
  additive_increment :: int
  increase_after_successes :: int
  consecutive_successes :: int
  rpm_hint :: "int option"
  cooldown_until :: real
  on_cooldown :: bool

definition mk_adaptive ::
  "int \<Rightarrow> int \<Rightarrow> real \<Rightarrow> int option \<Rightarrow> int \<Rightarrow> int \<Rightarrow> real \<Rightarrow> Adaptive res" where
  "mk_adaptive rpm0 min_rpm0 mult max_rpm0 increment after now =
     (if rpm0 \<le> 0 then Inl ValidationError
      else if \<not> (0 < mult \<and> mult < 1) then Inl InternalError
      else Inr
       \<lparr>rpm = rpm0, requests_bucket = new_bucket rpm0 now,
        min_rpm = max 1 min_rpm0, backoff_multiplier = mult,
        max_rpm = (case max_rpm0 of None \<Rightarrow> max rpm0 (max 1 min_rpm0)
                                  | Some m \<Rightarrow> max m (max 1 min_rpm0)),
        additive_increment = max 1 increment, increase_after_successes = max 1 after,
        consecutive_successes = 0, rpm_hint = None, cooldown_until = 0, on_cooldown = False\<rparr>)"

definition register_rate_limit_hint ::
  "int option \<Rightarrow> real option \<Rightarrow> real \<Rightarrow> Adaptive \<Rightarrow> Adaptive" where
  "register_rate_limit_hint hint retry_at now s =
     (let s1 = (case hint of
                  Some h \<Rightarrow>
                    if h > 0
                    then s\<lparr>rpm_hint := Some h, rpm := min (rpm s) h,
                           requests_bucket := new_bucket (min (rpm s) h) now\<rparr>
                    else s
                | None \<Rightarrow> s)
      in case retry_at of
           Some r \<Rightarrow> if r > 0 then s1\<lparr>cooldown_until := r, on_cooldown := True\<rparr> else s1
         | None \<Rightarrow> s1)"

definition backoff_rpm :: "Adaptive \<Rightarrow> int" where
  "backoff_rpm s =
     (let reduced = max (min_rpm s) (py_int (real_of_int (rpm s) * backoff_multiplier s))
      in case rpm_hint s of None \<Rightarrow> reduced | Some h \<Rightarrow> if h \<noteq> 0 then h else reduced)"

definition adaptive_backoff :: "real \<Rightarrow> Adaptive \<Rightarrow> Adaptive" where
  "adaptive_backoff now s =
     (let new_rpm = backoff_rpm s;
          s1 = (if new_rpm \<noteq> rpm s
                then s\<lparr>rpm := new_rpm, requests_bucket := new_bucket new_rpm now\<rparr> else s)
      in s1\<lparr>requests_bucket := set_capacity 0 now (requests_bucket s1),
            consecutive_successes := 0\<rparr>)"

definition record_success_and_maybe_grow :: "real \<Rightarrow> Adaptive \<Rightarrow> Adaptive" where
  "record_success_and_maybe_grow now s =
     (if rpm_hint s \<noteq> None \<or> on_cooldown s then s\<lparr>consecutive_successes := 0\<rparr>
      else
        let s1 = s\<lparr>consecutive_successes := consecutive_successes s + 1\<rparr>
        in if consecutive_successes s1 \<ge> increase_after_successes s1 \<and> rpm s1 < max_rpm s1
           then
             let new_rpm = min (max_rpm s1) (rpm s1 + additive_increment s1);
                 s2 = (if new_rpm \<noteq> rpm s1
                       then s1\<lparr>rpm := new_rpm,
                               requests_bucket :=
                                 set_capacity (min (available (requests_bucket s1) now) new_rpm) now
                                   (new_bucket new_rpm now)\<rparr>
                       else s1)
             in s2\<lparr>consecutive_successes := 0\<rparr>
           else s1)"

definition adaptive_check :: "TokenEstimate \<Rightarrow> real \<Rightarrow> Adaptive \<Rightarrow> (bool \<times> Adaptive) res" where
  "adaptive_check est now s =
     (if now < cooldown_until s then Inr (False, s)
      else
        let available_requests = available (requests_bucket s) now
        in if available_requests \<ge> 1
           then
             let s1 = s\<lparr>on_cooldown := False,
                        requests_bucket :=
                          set_capacity (available_requests - 1) now (requests_bucket s)\<rparr>
             in Inr (True, record_success_and_maybe_grow now s1)
           else Inr (False, s))"

text \<open>The base class's settle and the adaptive strategy's sentinel.\<close>

definition adaptive_settle :: "TokenEstimate \<Rightarrow> TokenEstimate \<Rightarrow> real \<Rightarrow> Adaptive \<Rightarrow> Adaptive" where
  "adaptive_settle reserved actual now s = s"

definition adaptive_context_tokens :: "Adaptive \<Rightarrow> int" where
  "adaptive_context_tokens s = 1000000000"

section \<open>The interface the model client uses\<close>

datatype RateLimitOp =
    Check TokenEstimate real
  | Settle TokenEstimate TokenEstimate real
  | Backoff real

fun op_time :: "RateLimitOp \<Rightarrow> real" where
  "op_time (Check _ t) = t"
| "op_time (Settle _ _ t) = t"
| "op_time (Backoff t) = t"

fun op_nonneg :: "RateLimitOp \<Rightarrow> bool" where
  "op_nonneg (Check e _) = est_nonneg e"
| "op_nonneg (Settle r a _) = (est_nonneg r \<and> est_nonneg a)"
| "op_nonneg (Backoff _) = True"

text \<open>
  A run of operations: the final state and the estimates that were granted.  A check that
  raises grants nothing and leaves the state.
\<close>

fun limiter_run ::
  "(TokenEstimate \<Rightarrow> real \<Rightarrow> 's \<Rightarrow> (bool \<times> 's) res) \<Rightarrow>
   (TokenEstimate \<Rightarrow> TokenEstimate \<Rightarrow> real \<Rightarrow> 's \<Rightarrow> 's) \<Rightarrow> (real \<Rightarrow> 's \<Rightarrow> 's) \<Rightarrow>
   RateLimitOp list \<Rightarrow> 's \<Rightarrow> 's \<times> TokenEstimate list" where
  "limiter_run check settle backoff [] s = (s, [])"
| "limiter_run check settle backoff (Check e t # ops) s =
     (case check e t s of
        Inr (True, s') \<Rightarrow>
          (let (s'', gs) = limiter_run check settle backoff ops s' in (s'', e # gs))
      | Inr (False, s') \<Rightarrow> limiter_run check settle backoff ops s'
      | Inl _ \<Rightarrow> limiter_run check settle backoff ops s)"
| "limiter_run check settle backoff (Settle r a t # ops) s =
     limiter_run check settle backoff ops (settle r a t s)"
| "limiter_run check settle backoff (Backoff t # ops) s =
     limiter_run check settle backoff ops (backoff t s)"

fun times_from :: "real \<Rightarrow> RateLimitOp list \<Rightarrow> bool" where
  "times_from t [] = True"
| "times_from t (op # ops) = (t \<le> op_time op \<and> times_from (op_time op) ops)"

fun end_time :: "real \<Rightarrow> RateLimitOp list \<Rightarrow> real" where
  "end_time t [] = t"
| "end_time t (op # ops) = end_time (op_time op) ops"

text \<open>What settling gives back: the over-reserved part of each settled request.\<close>

fun refunds :: "(TokenEstimate \<Rightarrow> int) \<Rightarrow> RateLimitOp list \<Rightarrow> int" where
  "refunds cost [] = 0"
| "refunds cost (Settle r a t # ops) = max 0 (cost r - cost a) + refunds cost ops"
| "refunds cost (op # ops) = refunds cost ops"

lemma times_from_mono: "times_from t ops \<Longrightarrow> u \<le> t \<Longrightarrow> times_from u ops"
  by (cases ops) auto

lemma end_time_ge: "times_from t ops \<Longrightarrow> t \<le> end_time t ops"
  by (induction t ops rule: end_time.induct) (auto intro: order_trans)

locale rate_limiter =
  fixes check :: "TokenEstimate \<Rightarrow> real \<Rightarrow> 's \<Rightarrow> (bool \<times> 's) res"
    and settle :: "TokenEstimate \<Rightarrow> TokenEstimate \<Rightarrow> real \<Rightarrow> 's \<Rightarrow> 's"
    and backoff :: "real \<Rightarrow> 's \<Rightarrow> 's"
    and inv :: "'s \<Rightarrow> bool"
  assumes check_inv: "inv s \<Longrightarrow> est_nonneg e \<Longrightarrow> check e t s = Inr (b, s') \<Longrightarrow> inv s'"
    and check_refused: "check e t s = Inr (False, s') \<Longrightarrow> s' = s"
    and check_error: "check e t s = Inl x \<Longrightarrow> x = ExecutionError"
    and settle_inv: "inv s \<Longrightarrow> inv (settle r a t s)"
    and backoff_inv: "inv s \<Longrightarrow> inv (backoff t s)"
begin

abbreviation run where "run \<equiv> limiter_run check settle backoff"

lemma run_inv: "inv s \<Longrightarrow> list_all op_nonneg ops \<Longrightarrow> inv (fst (run ops s))"
proof (induction ops arbitrary: s)
  case (Cons op ops)
  show ?case
  proof (cases op)
    case (Check e t)
    with Cons show ?thesis
      by (auto split: sum.splits prod.splits bool.splits dest: check_inv) (metis check_inv fst_conv)+
  qed (use Cons in \<open>auto intro: settle_inv backoff_inv\<close>)
qed simp

end

text \<open>
  A limiter metered by one bucket: what a granted request costs the bucket, and what settling
  and backing off do to it.
\<close>

locale metered_limiter = rate_limiter check settle backoff inv
  for check :: "TokenEstimate \<Rightarrow> real \<Rightarrow> 's \<Rightarrow> (bool \<times> 's) res" and settle backoff inv +
  fixes bucket :: "'s \<Rightarrow> RateLimitBucket"
    and cost :: "TokenEstimate \<Rightarrow> int"
  assumes inv_bucket: "inv s \<Longrightarrow> bucket_ok (bucket s)"
    and check_cost: "inv s \<Longrightarrow> est_nonneg e \<Longrightarrow> check e t s = Inr (True, s') \<Longrightarrow>
          bucket s' = set_capacity (available (bucket s) t - cost e) t (bucket s)"
    and settle_cost: "inv s \<Longrightarrow> bucket (settle r a t s) = bucket s \<or>
          (\<exists>c \<le> max 0 (available (bucket s) t + (cost r - cost a)).
             bucket (settle r a t s) = set_capacity c t (bucket s))"
    and backoff_cost: "bucket (backoff t s) = set_capacity 0 t (bucket s)"
begin

definition level :: "'s \<Rightarrow> real" where
  "level s = current_capacity (bucket s)"

definition rate :: "'s \<Rightarrow> real" where
  "rate s = max_capacity (bucket s) / 60"

text \<open>
  The level less what the bucket's clock has already let in: a step spends at most what this
  potential loses, up to what settling refunds.
\<close>

definition potential :: "'s \<Rightarrow> real" where
  "potential s = level s - rate s * last_update_time (bucket s)"

lemma available_potential:
  "real_of_int (available (bucket s) t) \<le> potential s + rate s * t"
  using available_rate [of "bucket s" t] by (simp add: potential_def level_def rate_def algebra_simps diff_divide_distrib)

lemma potential_inflow:
  assumes "inv s" "last_update_time (bucket s) \<le> t"
  shows "0 \<le> potential s + rate s * t"
proof -
  have "0 \<le> rate s * (t - last_update_time (bucket s))" "0 \<le> level s"
    using inv_bucket [OF assms(1)] assms(2) by (auto simp: rate_def level_def bucket_ok_def)
  then show ?thesis by (simp add: potential_def algebra_simps)
qed

lemma check_potential:
  assumes "inv s" "est_nonneg e" "check e t s = Inr (True, s')"
  shows "cost e + potential s' \<le> potential s" "rate s' = rate s" "last_update_time (bucket s') = t"
  using check_cost [OF assms] available_potential [of s t]
  by (simp_all add: potential_def level_def rate_def)

lemma settle_potential:
  fixes r a t s
  defines "s' \<equiv> settle r a t s"
  assumes "inv s" "last_update_time (bucket s) \<le> t"
  shows "potential s' \<le> potential s + max 0 (cost r - cost a)" "rate s' = rate s"
    "last_update_time (bucket s') \<le> t"
  using settle_cost [OF assms(2), of r a t, folded s'_def]
proof (atomize (full), elim disjE exE conjE)
  fix c
  assume c: "c \<le> max 0 (available (bucket s) t + (cost r - cost a))"
    and s': "bucket s' = set_capacity c t (bucket s)"
  have "real_of_int c \<le> potential s + rate s * t + max 0 (cost r - cost a)"
  proof (cases "c \<le> 0")
    case True
    then have "real_of_int c \<le> 0" by simp
    with potential_inflow [OF assms(2,3)] show ?thesis by linarith
  next
    case False
    then have "c \<le> available (bucket s) t + (cost r - cost a)" using c by linarith
    with available_potential [of s t] show ?thesis by linarith
  qed
  then show "potential s' \<le> potential s + max 0 (cost r - cost a) \<and> rate s' = rate s \<and>
      last_update_time (bucket s') \<le> t"
    by (simp add: potential_def level_def rate_def s' algebra_simps)
qed (use assms in \<open>auto simp: potential_def level_def rate_def\<close>)

lemma backoff_potential:
  assumes "inv s" "last_update_time (bucket s) \<le> t"
  shows "potential (backoff t s) \<le> potential s" "rate (backoff t s) = rate s"
    "last_update_time (bucket (backoff t s)) = t"
  using potential_inflow [OF assms] by (simp_all add: potential_def level_def rate_def backoff_cost)

lemma run_bound_from:
  "inv s \<Longrightarrow> list_all op_nonneg ops \<Longrightarrow> times_from t ops \<Longrightarrow> last_update_time (bucket s) \<le> t \<Longrightarrow>
   sum_list (map cost (snd (run ops s))) \<le> potential s + rate s * end_time t ops + refunds cost ops"
proof (induction ops arbitrary: s t)
  case Nil
  then show ?case using potential_inflow by simp
next
  case (Cons op ops)
  show ?case
  proof (cases op)
    case (Check e u)
    have u: "last_update_time (bucket s) \<le> u" "times_from u ops" "est_nonneg e"
      using Cons.prems Check by auto
    consider (granted) s' where "check e u s = Inr (True, s')"
      | (refused) "check e u s = Inr (False, s)" | (raised) x where "check e u s = Inl x"
      using check_refused by (cases "check e u s") (auto, metis)
    then show ?thesis
    proof cases
      case granted
      from check_potential [OF Cons.prems(1) u(3) granted] check_inv [OF Cons.prems(1) u(3) granted]
      have "sum_list (map cost (snd (run ops s'))) \<le> potential s' + rate s * end_time u ops + refunds cost ops"
        using Cons.IH [of s' u] Cons.prems u by simp
      with check_potential(1) [OF Cons.prems(1) u(3) granted] show ?thesis
        using Check granted by (simp add: case_prod_beta)
    qed (use Cons.IH [of s u] Cons.prems u Check in auto)
  next
    case (Settle r a u)
    then have u: "last_update_time (bucket s) \<le> u" "times_from u ops" using Cons.prems by auto
    show ?thesis
      using settle_potential [OF Cons.prems(1) u(1), of r a] Settle Cons.prems u
        Cons.IH [OF settle_inv [OF Cons.prems(1)], of u r a u] by simp
  next
    case (Backoff u)
    then have u: "last_update_time (bucket s) \<le> u" "times_from u ops" using Cons.prems by auto
    show ?thesis
      using backoff_potential [OF Cons.prems(1) u(1)] Backoff Cons.prems u
        Cons.IH [OF backoff_inv [OF Cons.prems(1)], of u u] by simp
  qed
qed

text \<open>What a run grants is bounded by the bucket, the inflow over the run and the refunds.\<close>

lemma run_bound:
  assumes "inv s" "list_all op_nonneg ops" "times_from (last_update_time (bucket s)) ops"
  shows "real_of_int (sum_list (map cost (snd (run ops s))))
           \<le> current_capacity (bucket s)
              + max_capacity (bucket s) / 60
                * (end_time (last_update_time (bucket s)) ops - last_update_time (bucket s))
              + refunds cost ops"
  using run_bound_from [OF assms order.refl]
  by (simp add: potential_def level_def rate_def algebra_simps diff_divide_distrib)

end

section \<open>The strategies meet the interface\<close>

definition unified_inv :: "Unified \<Rightarrow> bool" where
  "unified_inv s \<longleftrightarrow>
     bucket_ok (u_tokens s) \<and> bucket_ok (u_requests s) \<and>
     max_capacity (u_tokens s) = u_tpm s \<and> max_capacity (u_requests s) = u_rpm s \<and> 0 < u_rpm s"

definition separated_inv :: "Separated \<Rightarrow> bool" where
  "separated_inv s \<longleftrightarrow>
     bucket_ok (s_input s) \<and> bucket_ok (s_output s) \<and> bucket_ok (s_requests s) \<and>
     max_capacity (s_input s) = input_tpm s \<and> max_capacity (s_output s) = output_tpm s \<and>
     max_capacity (s_requests s) = s_rpm s \<and> 0 < s_rpm s"

definition adaptive_inv :: "Adaptive \<Rightarrow> bool" where
  "adaptive_inv s \<longleftrightarrow>
     bucket_ok (requests_bucket s) \<and> max_capacity (requests_bucket s) = rpm s \<and> 0 < rpm s \<and>
     1 \<le> min_rpm s \<and> min_rpm s \<le> max_rpm s \<and> 0 < backoff_multiplier s \<and> backoff_multiplier s < 1 \<and>
     1 \<le> additive_increment s \<and> 1 \<le> increase_after_successes s \<and> 0 \<le> consecutive_successes s \<and>
     (\<forall>h. rpm_hint s = Some h \<longrightarrow> 0 < h)"

lemma mk_unified_inv: "mk_unified r t t1 t2 = Inr s \<Longrightarrow> 0 \<le> t \<Longrightarrow> unified_inv s"
  by (auto simp: mk_unified_def unified_inv_def bucket_ok_def split: if_splits)

lemma mk_separated_inv:
  "mk_separated r i out t1 t2 t3 = Inr s \<Longrightarrow> 0 \<le> i \<Longrightarrow> 0 \<le> out \<Longrightarrow> separated_inv s"
  by (auto simp: mk_separated_def separated_inv_def bucket_ok_def split: if_splits)

lemma mk_adaptive_inv: "mk_adaptive r m b x i a now = Inr s \<Longrightarrow> adaptive_inv s"
  by (auto simp: mk_adaptive_def adaptive_inv_def bucket_ok_def split: if_splits option.splits)

lemma unified_check_Inr:
  "unified_check e t s = Inr (b, s') \<longleftrightarrow>
     total_tokens e \<le> u_tpm s \<and>
     b = (1 \<le> available (u_requests s) t \<and> total_tokens e \<le> available (u_tokens s) t) \<and>
     s' = (if b
           then s\<lparr>u_tokens := set_capacity (available (u_tokens s) t - total_tokens e) t (u_tokens s),
                  u_requests := set_capacity (available (u_requests s) t - 1) t (u_requests s)\<rparr>
           else s)"
  by (auto simp: unified_check_def unified_check_max_def Let_def)

lemma separated_check_Inr:
  "separated_check e t s = Inr (b, s') \<longleftrightarrow>
     input_tokens e \<le> input_tpm s \<and> output_tokens e \<le> output_tpm s \<and>
     b = (1 \<le> available (s_requests s) t \<and> input_tokens e \<le> available (s_input s) t \<and>
          output_tokens e \<le> available (s_output s) t) \<and>
     s' = (if b
           then s\<lparr>s_input := set_capacity (available (s_input s) t - input_tokens e) t (s_input s),
                  s_output := set_capacity (available (s_output s) t - output_tokens e) t (s_output s),
                  s_requests := set_capacity (available (s_requests s) t - 1) t (s_requests s)\<rparr>
           else s)"
  by (auto simp: separated_check_def separated_check_max_def Let_def)

lemma unified_check_Inl:
  "unified_check e t s = Inl x \<longleftrightarrow> u_tpm s < total_tokens e \<and> x = ExecutionError"
  by (auto simp: unified_check_def unified_check_max_def Let_def bind_res_Inl_iff)

lemma separated_check_Inl:
  "separated_check e t s = Inl x \<longleftrightarrow>
     (input_tpm s < input_tokens e \<or> output_tpm s < output_tokens e) \<and> x = ExecutionError"
  by (auto simp: separated_check_def separated_check_max_def Let_def bind_res_Inl_iff)

lemma spend_ok: "0 \<le> c \<Longrightarrow> c \<le> available b t \<Longrightarrow> bucket_ok (set_capacity (available b t - c) t b)"
  using available_le_max [of b t] by (simp add: bucket_ok_def)

lemma clamp_ok: "0 \<le> m \<Longrightarrow> max_capacity b = m \<Longrightarrow> bucket_ok (set_capacity (min m (max 0 x)) t b)"
  by (simp add: bucket_ok_def)

lemma zero_ok: "0 \<le> max_capacity b \<Longrightarrow> bucket_ok (set_capacity 0 t b)"
  by (simp add: bucket_ok_def)

lemma bucket_ok_max: "bucket_ok b \<Longrightarrow> 0 \<le> max_capacity b"
  by (simp add: bucket_ok_def)

lemma settle_clamp [simp]:
  "\<exists>c \<le> max 0 x. set_capacity (min m (max 0 x)) t b = set_capacity c t b"
  by (rule exI [of _ "min m (max 0 x)"]) simp

interpretation unified_tokens: metered_limiter
  unified_check unified_settle unified_backoff unified_inv u_tokens total_tokens
proof unfold_locales
  fix s e t b s'
  assume "unified_inv s" "est_nonneg e" "unified_check e t s = Inr (b, s')"
  then show "unified_inv s'"
    by (auto simp: unified_check_Inr unified_inv_def est_nonneg_total intro!: spend_ok)
next
  fix s r a t
  assume "unified_inv s"
  then show "unified_inv (unified_settle r a t s)"
    by (auto simp: unified_settle_def unified_inv_def Let_def intro!: clamp_ok dest: bucket_ok_max)
next
  fix s r a t
  show "u_tokens (unified_settle r a t s) = u_tokens s \<or>
      (\<exists>c \<le> max 0 (available (u_tokens s) t + (total_tokens r - total_tokens a)).
         u_tokens (unified_settle r a t s) = set_capacity c t (u_tokens s))"
    by (simp add: unified_settle_def Let_def)
qed (auto simp: unified_check_Inr unified_check_Inl unified_backoff_def unified_inv_def
    intro!: zero_ok dest: bucket_ok_max)

interpretation unified_requests: metered_limiter
  unified_check unified_settle unified_backoff unified_inv u_requests "\<lambda>_. 1"
  by unfold_locales (auto simp: unified_check_Inr unified_settle_def unified_backoff_def Let_def
      unified_inv_def)

interpretation separated_input: metered_limiter
  separated_check separated_settle separated_backoff separated_inv s_input input_tokens
proof unfold_locales
  fix s e t b s'
  assume "separated_inv s" "est_nonneg e" "separated_check e t s = Inr (b, s')"
  then show "separated_inv s'"
    by (auto simp: separated_check_Inr separated_inv_def est_nonneg_def intro!: spend_ok)
next
  fix s r a t
  assume "separated_inv s"
  then show "separated_inv (separated_settle r a t s)"
    by (auto simp: separated_settle_def separated_inv_def Let_def intro!: clamp_ok dest: bucket_ok_max)
next
  fix s r a t
  show "s_input (separated_settle r a t s) = s_input s \<or>
      (\<exists>c \<le> max 0 (available (s_input s) t + (input_tokens r - input_tokens a)).
         s_input (separated_settle r a t s) = set_capacity c t (s_input s))"
    by (simp add: separated_settle_def Let_def)
qed (auto simp: separated_check_Inr separated_check_Inl separated_backoff_def separated_inv_def
    intro!: zero_ok dest: bucket_ok_max)

interpretation separated_output: metered_limiter
  separated_check separated_settle separated_backoff separated_inv s_output output_tokens
proof unfold_locales
  fix s r a t
  show "s_output (separated_settle r a t s) = s_output s \<or>
      (\<exists>c \<le> max 0 (available (s_output s) t + (output_tokens r - output_tokens a)).
         s_output (separated_settle r a t s) = set_capacity c t (s_output s))"
    by (simp add: separated_settle_def Let_def)
qed (auto simp: separated_check_Inr separated_backoff_def separated_inv_def)

interpretation separated_requests: metered_limiter
  separated_check separated_settle separated_backoff separated_inv s_requests "\<lambda>_. 1"
  by unfold_locales (auto simp: separated_check_Inr separated_settle_def separated_backoff_def Let_def
      separated_inv_def)

subsection \<open>The adaptive strategy\<close>

lemma grow_inv:
  assumes "adaptive_inv s" "last_update_time (requests_bucket s) = t"
  shows "adaptive_inv (record_success_and_maybe_grow t s)"
proof -
  have "0 \<le> available (requests_bucket s) t"
    using assms by (simp add: available_def adaptive_inv_def bucket_ok_def)
  with assms show ?thesis
    by (auto simp: record_success_and_maybe_grow_def Let_def adaptive_inv_def bucket_ok_def)
qed

lemma adaptive_backoff_inv: "adaptive_inv s \<Longrightarrow> adaptive_inv (adaptive_backoff t s)"
  by (auto simp: adaptive_backoff_def backoff_rpm_def Let_def adaptive_inv_def bucket_ok_def
      split: option.splits)

lemma register_hint_inv: "adaptive_inv s \<Longrightarrow> adaptive_inv (register_rate_limit_hint h r t s)"
  by (auto simp: register_rate_limit_hint_def Let_def adaptive_inv_def bucket_ok_def
      split: option.splits)

lemma adaptive_check_Inr:
  "adaptive_check e t s = Inr (b, s') \<longleftrightarrow>
     b = (cooldown_until s \<le> t \<and> 1 \<le> available (requests_bucket s) t) \<and>
     s' = (if b
           then record_success_and_maybe_grow t
             (s\<lparr>on_cooldown := False,
                requests_bucket := set_capacity (available (requests_bucket s) t - 1) t (requests_bucket s)\<rparr>)
           else s)"
  by (auto simp: adaptive_check_def Let_def)

lemma adaptive_check_Inl: "adaptive_check e t s \<noteq> Inl x"
  by (auto simp: adaptive_check_def Let_def)

interpretation adaptive: rate_limiter adaptive_check adaptive_settle adaptive_backoff adaptive_inv
proof unfold_locales
  fix s e t b s'
  assume s: "adaptive_inv s" and c: "adaptive_check e t s = Inr (b, s')"
  show "adaptive_inv s'"
  proof (cases b)
    case True
    let ?s1 = "s\<lparr>on_cooldown := False,
      requests_bucket := set_capacity (available (requests_bucket s) t - 1) t (requests_bucket s)\<rparr>"
    have "adaptive_inv ?s1"
      using s c True spend_ok [of 1 "requests_bucket s" t] by (auto simp: adaptive_check_Inr adaptive_inv_def)
    then show ?thesis using c True grow_inv [of ?s1 t] by (auto simp: adaptive_check_Inr)
  qed (use s c in \<open>auto simp: adaptive_check_Inr\<close>)
qed (auto simp: adaptive_check_Inr adaptive_check_Inl adaptive_settle_def intro: adaptive_backoff_inv)

text \<open>The rate after growing: one increment at most, and never above the cap it was below.\<close>

lemma grow_rpm:
  assumes "adaptive_inv s"
  shows "rpm s \<le> rpm (record_success_and_maybe_grow t s)"
    "rpm (record_success_and_maybe_grow t s) \<le> rpm s + additive_increment s"
    "rpm (record_success_and_maybe_grow t s) \<le> max (rpm s) (max_rpm s)"
  using assms by (auto simp: record_success_and_maybe_grow_def Let_def adaptive_inv_def)

lemma backoff_reduces:
  assumes "adaptive_inv s" "rpm_hint s = None" "min_rpm s \<le> rpm s"
  shows "backoff_rpm s \<le> rpm s" "min_rpm s \<le> backoff_rpm s"
    "min_rpm s < rpm s \<Longrightarrow> backoff_rpm s < rpm s"
proof -
  have lt: "real_of_int (rpm s) * backoff_multiplier s < rpm s" "0 \<le> real_of_int (rpm s) * backoff_multiplier s"
    using assms(1) by (auto simp: adaptive_inv_def)
  then have "py_int (real_of_int (rpm s) * backoff_multiplier s) < rpm s"
    by (simp add: py_int_def floor_less_iff)
  then show "backoff_rpm s \<le> rpm s" "min_rpm s \<le> backoff_rpm s" "min_rpm s < rpm s \<Longrightarrow> backoff_rpm s < rpm s"
    using assms by (auto simp: backoff_rpm_def Let_def)
qed

lemma refunds_const [simp]: "refunds (\<lambda>_. c) ops = 0"
  by (induction "\<lambda>_ :: TokenEstimate. c" ops rule: refunds.induct) auto

lemma sum_ones: "sum_list (map (\<lambda>_. 1 :: int) xs) = int (length xs)"
  by (induction xs) auto

text \<open>Nothing is admitted before the first request has flowed back into an emptied bucket.\<close>

lemma available_after_zero:
  assumes "0 < max_capacity b" "t' < t + 60 / max_capacity b"
    and "current_capacity b = 0" "last_update_time b = t"
  shows "available b t' \<le> 0"
proof -
  have "real_of_int (max_capacity b) * (t' - t) < real_of_int (max_capacity b) * (60 / max_capacity b)"
    using assms by (intro mult_strict_left_mono) auto
  then have "real_of_int (max_capacity b) * (t' - t) / MINUTE_IN_SECONDS < 1"
    using assms(1) by (simp add: MINUTE_IN_SECONDS_def)
  then have "\<lfloor>real_of_int (max_capacity b) * (t' - t) / MINUTE_IN_SECONDS\<rfloor> \<le> 0"
    by (simp add: floor_le_iff)
  then show ?thesis using assms(3,4) by (simp add: available_def min.coboundedI1)
qed

text \<open>Every state the adaptive strategy can reach, provider hints included.\<close>

inductive adaptive_reach :: "Adaptive \<Rightarrow> Adaptive \<Rightarrow> bool" for s0 where
  start: "adaptive_reach s0 s0"
| check: "adaptive_reach s0 s \<Longrightarrow> est_nonneg e \<Longrightarrow> adaptive_check e t s = Inr (b, s') \<Longrightarrow> adaptive_reach s0 s'"
| backoff: "adaptive_reach s0 s \<Longrightarrow> adaptive_reach s0 (adaptive_backoff t s)"
| hint: "adaptive_reach s0 s \<Longrightarrow> adaptive_reach s0 (register_rate_limit_hint h r t s)"

lemma adaptive_reach_inv: "adaptive_reach s0 s \<Longrightarrow> adaptive_inv s0 \<Longrightarrow> adaptive_inv s"
  by (induction rule: adaptive_reach.induct)
    (auto intro: adaptive.check_inv adaptive_backoff_inv register_hint_inv)

section \<open>Properties\<close>

text \<open>C4. Rate bound of the unified strategy: over any run of checks, settlements and backoffs
  from construction, with clock readings that do not go back, the tokens granted are at most
  one full bucket, plus what the per-minute rate lets in over the run, plus what settling
  refunded; the requests granted are at most rpm plus rpm per elapsed minute.\<close>

theorem unified_rate_bound:
  assumes "mk_unified r0 tpm t1 t2 = Inr s" "0 \<le> tpm"
    and "list_all op_nonneg ops" "times_from (max t1 t2) ops"
    and "limiter_run unified_check unified_settle unified_backoff ops s = (s', granted)"
  shows "sum_list (map total_tokens granted)
           \<le> tpm + tpm / 60 * (end_time t2 ops - t2) + refunds total_tokens ops \<and>
         length granted \<le> r0 + r0 / 60 * (end_time t1 ops - t1)"
proof -
  have s: "unified_inv s" "u_tokens s = new_bucket tpm t2" "u_requests s = new_bucket r0 t1"
    using assms(1,2) mk_unified_inv by (auto simp: mk_unified_def split: if_splits)
  have "times_from t1 ops" "times_from t2 ops"
    using assms(4) times_from_mono by (meson max.cobounded1 max.cobounded2)+
  then show ?thesis
    using unified_tokens.run_bound [OF s(1) assms(3)] unified_requests.run_bound [OF s(1) assms(3)]
    by (simp add: s assms(5) sum_ones)
qed

theorem unified_rate_bound_witness:
  "\<exists>s s' granted. mk_unified 10 60 0 0 = Inr s \<and>
     limiter_run unified_check unified_settle unified_backoff
       [Check (TokenEstimate 10 20) 0, Check (TokenEstimate 30 20) 1] s = (s', granted) \<and>
     sum_list (map total_tokens granted) \<le> 60 + 60 / 60 * (1 - 0 :: real) + 0"
proof -
  let ?ops = "[Check (TokenEstimate 10 20) 0, Check (TokenEstimate 30 20) 1]"
  obtain s where s: "mk_unified 10 60 0 0 = Inr s" by (simp add: mk_unified_def)
  obtain s' granted where r:
    "limiter_run unified_check unified_settle unified_backoff ?ops s = (s', granted)"
    by (cases "limiter_run unified_check unified_settle unified_backoff ?ops s")
  show ?thesis
    using unified_rate_bound [OF s _ _ _ r] s r by (auto simp: est_nonneg_def)
qed

text \<open>Rate bound of the separated strategy: input tokens, output tokens and requests are
  each bounded by their own bucket, rate and refunds.\<close>

theorem separated_rate_bound:
  assumes "mk_separated r0 itpm otpm t1 t2 t3 = Inr s" "0 \<le> itpm" "0 \<le> otpm"
    and "list_all op_nonneg ops" "times_from (max t1 (max t2 t3)) ops"
    and "limiter_run separated_check separated_settle separated_backoff ops s = (s', granted)"
  shows "sum_list (map input_tokens granted)
           \<le> itpm + itpm / 60 * (end_time t2 ops - t2) + refunds input_tokens ops \<and>
         sum_list (map output_tokens granted)
           \<le> otpm + otpm / 60 * (end_time t3 ops - t3) + refunds output_tokens ops \<and>
         length granted \<le> r0 + r0 / 60 * (end_time t1 ops - t1)"
proof -
  have s: "separated_inv s" "s_input s = new_bucket itpm t2" "s_output s = new_bucket otpm t3"
    "s_requests s = new_bucket r0 t1"
    using assms(1,2,3) mk_separated_inv by (auto simp: mk_separated_def split: if_splits)
  have "times_from t1 ops" "times_from t2 ops" "times_from t3 ops"
    by (rule times_from_mono [OF assms(5)], simp)+
  then show ?thesis
    using separated_input.run_bound [OF s(1) assms(4)] separated_output.run_bound [OF s(1) assms(4)]
      separated_requests.run_bound [OF s(1) assms(4)]
    by (simp add: s assms(6) sum_ones)
qed

theorem separated_rate_bound_witness:
  "\<exists>s s' granted. mk_separated 10 60 60 0 0 0 = Inr s \<and>
     limiter_run separated_check separated_settle separated_backoff
       [Check (TokenEstimate 10 20) 0, Settle (TokenEstimate 10 20) (TokenEstimate 10 5) 1] s
       = (s', granted) \<and>
     sum_list (map output_tokens granted) \<le> 60 + 60 / 60 * (1 - 0 :: real) + 15"
proof -
  let ?ops = "[Check (TokenEstimate 10 20) 0, Settle (TokenEstimate 10 20) (TokenEstimate 10 5) 1]"
  obtain s where s: "mk_separated 10 60 60 0 0 0 = Inr s" by (simp add: mk_separated_def)
  obtain s' granted where r:
    "limiter_run separated_check separated_settle separated_backoff ?ops s = (s', granted)"
    by (cases "limiter_run separated_check separated_settle separated_backoff ?ops s")
  show ?thesis
    using separated_rate_bound [OF s _ _ _ _ r] s r by (auto simp: est_nonneg_def)
qed

text \<open>C34. The adaptive strategy keeps its bucket between zero and its current rpm, and rpm
  positive, in every state reachable through checks, backoffs and provider hints, whatever
  the clock reads, even when it goes back.\<close>

theorem adaptive_bucket_bounds:
  assumes "mk_adaptive rpm0 min0 mult max0 inc after t0 = Inr s0" "adaptive_reach s0 s"
  shows "0 \<le> current_capacity (requests_bucket s) \<and>
         current_capacity (requests_bucket s) \<le> rpm s \<and>
         max_capacity (requests_bucket s) = rpm s \<and> 1 \<le> rpm s"
  using adaptive_reach_inv [OF assms(2) mk_adaptive_inv [OF assms(1)]]
  by (auto simp: adaptive_inv_def bucket_ok_def)

theorem adaptive_bucket_bounds_witness:
  "\<exists>s0. mk_adaptive 25000 50 (3/4) None 50 30 0 = Inr s0 \<and>
     1 \<le> rpm (adaptive_backoff 5 s0)"
proof -
  obtain s0 where "mk_adaptive 25000 50 (3/4) None 50 30 0 = Inr s0"
    by (simp add: mk_adaptive_def)
  with adaptive_bucket_bounds [OF this adaptive_reach.backoff [OF adaptive_reach.start]]
  show ?thesis by blast
qed



text \<open>Without a provider hint and with rpm at least the minimum, a backoff lowers rpm
  (strictly, above the minimum) but not below the minimum, empties the bucket, and no request
  is granted before the time the new rate needs to let one request in.\<close>

theorem adaptive_backoff_throttles:
  assumes "adaptive_inv s" "rpm_hint s = None" "min_rpm s \<le> rpm s"
    and s'_def: "s' = adaptive_backoff t s"
  shows "min_rpm s \<le> rpm s' \<and> rpm s' \<le> rpm s \<and> (min_rpm s < rpm s \<longrightarrow> rpm s' < rpm s) \<and>
         (\<forall>e t'. t' < t + 60 / rpm s' \<longrightarrow> adaptive_check e t' s' = Inr (False, s'))"
proof -
  have rpm': "rpm s' = backoff_rpm s"
    by (auto simp: s'_def adaptive_backoff_def Let_def)
  have b: "current_capacity (requests_bucket s') = 0" "last_update_time (requests_bucket s') = t"
    "max_capacity (requests_bucket s') = rpm s'"
    using assms(1) by (simp_all add: s'_def adaptive_backoff_def Let_def adaptive_inv_def)
  have "0 < rpm s'" using adaptive_backoff_inv [OF assms(1), of t] by (simp add: s'_def adaptive_inv_def)
  then have "available (requests_bucket s') t' \<le> 0" if "t' < t + 60 / rpm s'" for t'
    using available_after_zero [of "requests_bucket s'" t' t] that b by simp
  then have "adaptive_check e t' s' = Inr (False, s')" if "t' < t + 60 / rpm s'" for e t'
    using that by (fastforce simp: adaptive_check_Inr)
  with backoff_reduces [OF assms(1-3)] show ?thesis by (simp add: rpm')
qed

theorem adaptive_backoff_throttles_witness:
  "\<exists>s0. mk_adaptive 1000 50 (3/4) None 50 30 0 = Inr s0 \<and> rpm (adaptive_backoff 5 s0) < 1000"
proof -
  obtain s0 where s0: "mk_adaptive 1000 50 (3/4) None 50 30 0 = Inr s0"
    by (simp add: mk_adaptive_def)
  then have "rpm_hint s0 = None" "min_rpm s0 = 50" "rpm s0 = 1000" by (auto simp: mk_adaptive_def)
  with adaptive_backoff_throttles [OF mk_adaptive_inv [OF s0], of "adaptive_backoff 5 s0" 5] s0 show ?thesis by auto
qed

text \<open>A backoff can raise the rate it is meant to reduce: after two hints of which the
  later is the higher, it adopts the later hint; and a strategy started below the default
  minimum is lifted to that minimum.\<close>

theorem backoff_can_raise_rpm:
  "\<exists>s0 s1. mk_adaptive 100 50 (3/4) None 50 30 0 = Inr s0 \<and>
     s1 = register_rate_limit_hint (Some 80) None 2 (register_rate_limit_hint (Some 10) None 1 s0) \<and>
     rpm s1 = 10 \<and> rpm (adaptive_backoff 3 s1) = 80 \<and>
     (\<exists>z0. mk_adaptive 10 50 (3/4) None 50 30 0 = Inr z0 \<and>
        rpm z0 = 10 \<and> rpm (adaptive_backoff 3 z0) = 50)"
  by (simp add: mk_adaptive_def register_rate_limit_hint_def adaptive_backoff_def backoff_rpm_def
      py_int_def Let_def)

end
