(* ===== verification/BatchRequests.thy ===== *)
theory BatchRequests
  imports InferenceRequests RateLimit
begin

text \<open>
  The caller's side of the model client (\<^verbatim>\<open>src/fenic/_inference/model_client.py\<close>):
  \<open>_submit_batch_requests\<close>, \<open>_get_or_create_request_future\<close>, \<open>_collect_batch_responses\<close> and
  \<open>make_batch_requests\<close>.  A request is paired with the identity of its Python object, which
  keys requests without a fingerprint; a future of the batch is the position at which it was
  made, and the futures of duplicates copy it.  What the event loop leaves in the futures, and
  at which request it has reported an exception to the thread, are arguments.  The lemmas show
  that the responses answer the requests at the same positions and that each distinct request
  is sent once.
\<close>

section \<open>Keys\<close>

type_synonym PyRequest = "nat \<times> Request"

datatype DedupKey = Fingerprint string | Opaque nat

record BatchEnv =
  hashes :: Hashes
  client_model :: string
  base_url :: "string option"
  profile_hash :: "Request \<Rightarrow> string option res"
  estimate_tokens_for_request :: "Request \<Rightarrow> TokenEstimate res"

definition build_request_key :: "BatchEnv \<Rightarrow> Request \<Rightarrow> string res" where
  "build_request_key env r =
     bind_res (profile_hash env r)
       (\<lambda>ph. Inr (compute_request_fingerprint (hashes env) r (client_model env) ph (base_url env)))"

text \<open>Best effort: an exception is logged and gives no key.\<close>

definition safe_build_request_key :: "BatchEnv \<Rightarrow> Request \<Rightarrow> string option" where
  "safe_build_request_key env r =
     (case build_request_key env r of Inl e \<Rightarrow> None | Inr k \<Rightarrow> Some k)"

definition dedup_key :: "BatchEnv \<Rightarrow> PyRequest \<Rightarrow> DedupKey" where
  "dedup_key env q =
     (case safe_build_request_key env (snd q) of None \<Rightarrow> Opaque (fst q) | Some k \<Rightarrow> Fingerprint k)"

section \<open>Submission\<close>

record QueueItem =
  item_request :: Request
  item_future :: nat
  item_estimate :: TokenEstimate
  item_fingerprint :: "string option"
  item_timeout :: real

datatype 'r Slot = Ready "'r option" | Owner nat | CopyOf nat

text \<open>The future for a request: a copy of the one with the same key, or a new one with its estimate.\<close>

definition get_or_create_request_future ::
  "BatchEnv \<Rightarrow> nat \<Rightarrow> (DedupKey, nat) dict \<Rightarrow> PyRequest \<Rightarrow>
     ('r Slot \<times> TokenEstimate option \<times> (DedupKey, nat) dict) res" where
  "get_or_create_request_future env n unique q =
     (case map_of unique (dedup_key env q) of
        Some m \<Rightarrow> Inr (CopyOf m, None, unique)
      | None \<Rightarrow> bind_res (estimate_tokens_for_request env (snd q)) (\<lambda>est.
          Inr (Owner n, Some est, AList.update (dedup_key env q) n unique)))"

text \<open>The keys looked up in the cache: the completion requests that have one, each once.\<close>

definition cache_lookups :: "BatchEnv \<Rightarrow> PyRequest option list \<Rightarrow> string list" where
  "cache_lookups env requests =
     map fst (dict_of (map (\<lambda>k. (k, ()))
       (concat (map (\<lambda>r. case r of
           None \<Rightarrow> []
         | Some q \<Rightarrow>
             (case safe_build_request_key env (snd q) of
                None \<Rightarrow> []
              | Some k \<Rightarrow> if is_completions (snd q) then [k] else []))
         requests))))"

definition cached_response ::
  "BatchEnv \<Rightarrow> (string \<Rightarrow> 'r option) \<Rightarrow> PyRequest \<Rightarrow> 'r option" where
  "cached_response env cached q =
     (case safe_build_request_key env (snd q) of
        None \<Rightarrow> None
      | Some k \<Rightarrow> if is_completions (snd q) then cached k else None)"

text \<open>
  The loop over the requests; \<open>raised n\<close> is the exception reported to the thread when request
  \<open>n\<close> is reached.  What was enqueued stays enqueued when the loop raises.
\<close>

definition submit_request ::
  "BatchEnv \<Rightarrow> real \<Rightarrow> (string \<Rightarrow> 'r option) \<Rightarrow> nat \<Rightarrow> (DedupKey, nat) dict \<Rightarrow> PyRequest option \<Rightarrow>
     ('r Slot \<times> QueueItem list \<times> (DedupKey, nat) dict) res" where
  "submit_request env timeout cached n unique r =
     (case r of
        None \<Rightarrow> Inr (Ready None, [], unique)
      | Some q \<Rightarrow>
          (case cached_response env cached q of
             Some resp \<Rightarrow> Inr (Ready (Some resp), [], unique)
           | None \<Rightarrow>
               bind_res (get_or_create_request_future env n unique q) (\<lambda>(slot, est, unique').
                 Inr (slot,
                      (case est of
                         None \<Rightarrow> []
                       | Some t \<Rightarrow>
                           [\<lparr>item_request = snd q, item_future = n, item_estimate = t,
                             item_fingerprint = safe_build_request_key env (snd q),
                             item_timeout = timeout\<rparr>]),
                      unique'))))"

fun submit_from ::
  "BatchEnv \<Rightarrow> real \<Rightarrow> (string \<Rightarrow> 'r option) \<Rightarrow> (nat \<Rightarrow> exn option) \<Rightarrow> nat \<Rightarrow> (DedupKey, nat) dict \<Rightarrow>
     PyRequest option list \<Rightarrow> QueueItem list \<times> 'r Slot list res" where
  "submit_from env timeout cached raised n unique [] = ([], Inr [])"
| "submit_from env timeout cached raised n unique (r # rs) =
     (case raised n of
        Some e \<Rightarrow> ([], Inl e)
      | None \<Rightarrow>
          (case submit_request env timeout cached n unique r of
             Inl e \<Rightarrow> ([], Inl e)
           | Inr (slot, new, unique') \<Rightarrow>
               (let (items, slots) = submit_from env timeout cached raised (Suc n) unique' rs
                in (new @ items, bind_res slots (\<lambda>ss. Inr (slot # ss))))))"

definition submit_batch_requests ::
  "BatchEnv \<Rightarrow> real \<Rightarrow> (string \<Rightarrow> 'r option) \<Rightarrow> (nat \<Rightarrow> exn option) \<Rightarrow>
     PyRequest option list \<Rightarrow> QueueItem list \<times> 'r Slot list res" where
  "submit_batch_requests env timeout cached raised requests =
     submit_from env timeout cached raised 0 [] requests"

definition total_token_estimate :: "QueueItem list \<Rightarrow> TokenEstimate" where
  "total_token_estimate items = foldl (+) 0 (map item_estimate items)"

section \<open>Collection\<close>

text \<open>A future's result: a response, none, or the exception it holds; a copy has its original's.\<close>

definition slot_result :: "(nat \<Rightarrow> 'r option res) \<Rightarrow> 'r Slot \<Rightarrow> 'r option res" where
  "slot_result future s = (case s of Ready r \<Rightarrow> Inr r | Owner n \<Rightarrow> future n | CopyOf n \<Rightarrow> future n)"

definition collect_batch_responses :: "(nat \<Rightarrow> 'r option res) \<Rightarrow> 'r Slot list \<Rightarrow> 'r option list res" where
  "collect_batch_responses future slots = map_res (slot_result future) slots"

definition DEFAULT_MODEL_CLIENT_TIMEOUT :: real where
  "DEFAULT_MODEL_CLIENT_TIMEOUT = 120"

text \<open>Any exception of submission or collection becomes an ExecutionError.\<close>

definition make_batch_requests ::
  "BatchEnv \<Rightarrow> real option \<Rightarrow> (string \<Rightarrow> 'r option) \<Rightarrow> (nat \<Rightarrow> exn option) \<Rightarrow>
     (nat \<Rightarrow> 'r option res) \<Rightarrow> PyRequest option list \<Rightarrow> 'r option list res" where
  "make_batch_requests env timeout cached raised future requests =
     (let t = (case timeout of None \<Rightarrow> DEFAULT_MODEL_CLIENT_TIMEOUT
                             | Some t \<Rightarrow> if t = 0 then DEFAULT_MODEL_CLIENT_TIMEOUT else t)
      in case bind_res (snd (submit_batch_requests env t cached raised requests))
                (collect_batch_responses future) of
           Inl e \<Rightarrow> Inl ExecutionError
         | Inr rs \<Rightarrow> Inr rs)"

section \<open>What submission makes\<close>

text \<open>The slot of each request, against the futures made so far.\<close>

definition slot_for ::
  "BatchEnv \<Rightarrow> (string \<Rightarrow> 'r option) \<Rightarrow> (DedupKey \<Rightarrow> nat option) \<Rightarrow> PyRequest option \<Rightarrow> 'r Slot \<Rightarrow> bool" where
  "slot_for env cached owner r s =
     (case r of
        None \<Rightarrow> s = Ready None
      | Some q \<Rightarrow>
          (case cached_response env cached q of
             Some resp \<Rightarrow> s = Ready (Some resp)
           | None \<Rightarrow> \<exists>n. owner (dedup_key env q) = Some n \<and> (s = Owner n \<or> s = CopyOf n)))"

lemma slot_for_mono:
  "slot_for env cached owner r s \<Longrightarrow> (\<And>k m. owner k = Some m \<Longrightarrow> owner' k = Some m) \<Longrightarrow>
   slot_for env cached owner' r s"
  by (auto simp: slot_for_def split: option.splits)

lemma slot_for_None: "slot_for env cached owner None s \<longleftrightarrow> s = Ready None"
  by (simp add: slot_for_def)

text \<open>One request: nothing new, or a new owner whose key had none.\<close>

lemma submit_request_cases:
  assumes "submit_request env timeout cached n unique r = Inr (slot, new, unique')"
  obtains (same) "new = []" "unique' = unique" "slot_for env cached (map_of unique) r slot"
  | (fresh) q t where "r = Some q" "cached_response env cached q = None"
      "map_of unique (dedup_key env q) = None" "slot = Owner n"
      "unique' = AList.update (dedup_key env q) n unique"
      "new = [\<lparr>item_request = snd q, item_future = n, item_estimate = t,
               item_fingerprint = safe_build_request_key env (snd q), item_timeout = timeout\<rparr>]"
proof (cases r)
  case None
  with assms same show ?thesis by (simp add: submit_request_def slot_for_def)
next
  case (Some q)
  show ?thesis
  proof (cases "cached_response env cached q")
    case None
    show ?thesis
    proof (cases "map_of unique (dedup_key env q)")
      case (Some m)
      with assms \<open>r = Some q\<close> None same show ?thesis
        by (simp add: submit_request_def get_or_create_request_future_def slot_for_def)
    next
      assume new: "map_of unique (dedup_key env q) = None"
      with assms \<open>r = Some q\<close> None obtain t where "estimate_tokens_for_request env (snd q) = Inr t"
        by (auto simp: submit_request_def get_or_create_request_future_def split: option.splits)
      with assms \<open>r = Some q\<close> None new fresh [of q t] show ?thesis
        by (simp add: submit_request_def get_or_create_request_future_def)
    qed
  next
    case (Some resp)
    with assms \<open>r = Some q\<close> same show ?thesis by (simp add: submit_request_def slot_for_def)
  qed
qed

text \<open>
  The owners of keys at the end of the loop: those there were, and one per enqueued item; an
  item is enqueued for a request whose key had no owner.
\<close>

definition new_owner ::
  "BatchEnv \<Rightarrow> PyRequest option list \<Rightarrow> QueueItem list \<Rightarrow> DedupKey \<Rightarrow> nat \<Rightarrow> bool" where
  "new_owner env requests items k m \<longleftrightarrow>
     (\<exists>q i. Some q \<in> set requests \<and> dedup_key env q = k \<and> i \<in> set items \<and> item_future i = m \<and>
        item_request i = snd q)"

definition item_for ::
  "BatchEnv \<Rightarrow> (string \<Rightarrow> 'r option) \<Rightarrow> PyRequest option list \<Rightarrow> (DedupKey, nat) dict \<Rightarrow>
     (DedupKey, nat) dict \<Rightarrow> QueueItem \<Rightarrow> bool" where
  "item_for env cached requests u u' i \<longleftrightarrow>
     (\<exists>q. Some q \<in> set requests \<and> item_request i = snd q \<and> cached_response env cached q = None \<and>
        map_of u (dedup_key env q) = None \<and>
        (\<forall>k. map_of u' k = Some (item_future i) \<longleftrightarrow> k = dedup_key env q))"

lemma submit_spec:
  assumes "submit_from env timeout cached raised n u requests = (items, Inr slots)"
    and "\<forall>k m. map_of u k = Some m \<longrightarrow> m < n"
  shows "\<exists>u'. (\<forall>k m. map_of u k = Some m \<longrightarrow> map_of u' k = Some m) \<and>
     list_all2 (slot_for env cached (map_of u')) requests slots \<and>
     (\<forall>k m. map_of u' k = Some m \<longrightarrow> map_of u k = Some m \<or> new_owner env requests items k m) \<and>
     (\<forall>i \<in> set items. n \<le> item_future i \<and> item_for env cached requests u u' i) \<and>
     distinct (map item_future items)"
  using assms
proof (induction requests arbitrary: n u items slots)
  case Nil
  then show ?case by (intro exI [of _ u]) auto
next
  case (Cons r rs)
  from Cons.prems(1) obtain slot new u1 items1 slots1 where
    one: "submit_request env timeout cached n u r = Inr (slot, new, u1)"
    and rest: "submit_from env timeout cached raised (Suc n) u1 rs = (items1, Inr slots1)"
    and res: "items = new @ items1" "slots = slot # slots1"
    by (auto split: option.splits sum.splits prod.splits)
  have below: "\<forall>k m. map_of u1 k = Some m \<longrightarrow> m < Suc n"
    using one
  proof (cases rule: submit_request_cases)
    case same
    with Cons.prems(2) show ?thesis by (auto intro: less_SucI)
  next
    case (fresh q t)
    with Cons.prems(2) show ?thesis by (auto simp: update_conv' intro: less_SucI)
  qed
  from Cons.IH [OF rest below] obtain u' where
    mono: "\<And>k m. map_of u1 k = Some m \<Longrightarrow> map_of u' k = Some m"
    and slots1: "list_all2 (slot_for env cached (map_of u')) rs slots1"
    and owners: "\<And>k m. map_of u' k = Some m \<Longrightarrow> map_of u1 k = Some m \<or> new_owner env rs items1 k m"
    and items1: "\<And>i. i \<in> set items1 \<Longrightarrow> Suc n \<le> item_future i \<and> item_for env cached rs u1 u' i"
    and dist: "distinct (map item_future items1)"
    by blast
  have wider: "new_owner env rs items1 k m \<Longrightarrow> new_owner env (r # rs) items k m" for k m
    unfolding new_owner_def res(1) by auto
  from one show ?case
  proof (cases rule: submit_request_cases)
    case same
    have "item_for env cached (r # rs) u u' i" if "i \<in> set items1" for i
      using items1 [OF that] same(2) by (auto simp: item_for_def)
    moreover have "slot_for env cached (map_of u') r slot"
      using same(3) mono same(2) by (blast intro: slot_for_mono)
    moreover have "n \<le> item_future i" if "i \<in> set items1" for i
      using items1 [OF that] by simp
    moreover have "map_of u k = Some m \<or> new_owner env (r # rs) items k m" if "map_of u' k = Some m" for k m
      using owners [OF that] wider same(2) by blast
    ultimately show ?thesis
      using mono slots1 dist by (intro exI [of _ u']) (simp add: res same)
  next
    case (fresh q t)
    let ?k = "dedup_key env q"
    have u1: "map_of u1 = (map_of u)(?k \<mapsto> n)" using fresh(5) by (simp add: update_conv')
    have own: "map_of u' ?k = Some n" by (rule mono) (simp add: u1)
    have keep: "map_of u' k = Some m" if "map_of u k = Some m" for k m
      using that mono [of k m] fresh(3) by (cases "k = ?k") (auto simp: u1)
    have only: "map_of u' k = Some n \<longleftrightarrow> k = ?k" for k
    proof
      assume k: "map_of u' k = Some n"
      from owners [OF k] show "k = ?k"
      proof
        assume "map_of u1 k = Some n"
        then show ?thesis using Cons.prems(2) by (auto simp: u1 split: if_splits)
      next
        assume "new_owner env rs items1 k n"
        then show ?thesis using items1 by (fastforce simp: new_owner_def)
      qed
    qed (use own in simp)
    have "item_for env cached (r # rs) u u' i" if "i \<in> set items" for i
    proof (cases "i \<in> set items1")
      case True
      with items1 show ?thesis by (fastforce simp: item_for_def u1 split: if_splits)
    next
      case False
      with that fresh(6) res(1) have "item_future i = n" "item_request i = snd q" by auto
      with fresh(1,2,3) only show ?thesis
        unfolding item_for_def by (intro exI [of _ q]) simp
    qed
    moreover have "new_owner env (r # rs) items ?k n"
      unfolding new_owner_def using fresh(1,6) res(1)
      by (intro exI [of _ q] exI [of _ "hd items"]) simp
    moreover have "n \<le> item_future i" if "i \<in> set items" for i
      using that items1 fresh(6) res(1) by (auto dest: Suc_leD)
    moreover have "slot_for env cached (map_of u') r slot"
      using fresh own by (simp add: slot_for_def)
    moreover have "distinct (map item_future items)"
      using fresh(6) res(1) dist items1 by fastforce
    moreover have "map_of u k = Some m \<or> new_owner env (r # rs) items k m" if "map_of u' k = Some m" for k m
      using owners [OF that] wider \<open>new_owner env (r # rs) items ?k n\<close> by (auto simp: u1 split: if_splits)
    ultimately show ?thesis
      using keep slots1 by (intro exI [of _ u']) (auto simp: res(2))
  qed
qed

section \<open>Properties\<close>

text \<open>
  What may be trusted: a cached response answers every completion request with its key, the
  future of an enqueued item answers the item's request, and requests with the same key have
  the same answers.
\<close>

definition keys_sound :: "BatchEnv \<Rightarrow> (Request \<Rightarrow> 'r option \<Rightarrow> bool) \<Rightarrow> PyRequest option list \<Rightarrow> bool" where
  "keys_sound env answers requests \<longleftrightarrow>
     (\<forall>q q'. Some q \<in> set requests \<longrightarrow> Some q' \<in> set requests \<longrightarrow> dedup_key env q = dedup_key env q' \<longrightarrow>
        (\<forall>r. answers (snd q) r \<longrightarrow> answers (snd q') r))"

lemma responses_answer:
  assumes submit: "submit_from env timeout cached raised 0 [] requests = (items, Inr slots)"
    and collect: "collect_batch_responses future slots = Inr responses"
    and cached: "\<And>q r. Some q \<in> set requests \<Longrightarrow> cached_response env cached q = Some r \<Longrightarrow> answers (snd q) (Some r)"
    and futures: "\<And>i r. i \<in> set items \<Longrightarrow> future (item_future i) = Inr r \<Longrightarrow> answers (item_request i) r"
    and keys: "keys_sound env answers requests"
  shows "list_all2 (\<lambda>r resp. case r of None \<Rightarrow> resp = None | Some q \<Rightarrow> answers (snd q) resp) requests responses"
proof -
  from submit_spec [OF submit] obtain u' :: "(DedupKey, nat) dict" where
    slots: "list_all2 (slot_for env cached (map_of u')) requests slots"
    and owners: "\<And>k m. map_of u' k = Some m \<Longrightarrow> new_owner env requests items k m"
    by auto
  have results: "list_all2 (\<lambda>s resp. slot_result future s = Inr resp) slots responses"
    using collect by (simp add: collect_batch_responses_def map_res_Inr_iff)
  show ?thesis
  proof (rule list_all2_all_nthI)
    show "length requests = length responses"
      using list_all2_lengthD [OF slots] list_all2_lengthD [OF results] by simp
    fix j assume j: "j < length requests"
    let ?s = "slots ! j"
    have s: "slot_for env cached (map_of u') (requests ! j) ?s" using slots j by (rule list_all2_nthD)
    have r: "slot_result future ?s = Inr (responses ! j)"
      using list_all2_nthD [OF results, of j] j list_all2_lengthD [OF slots] by simp
    show "case requests ! j of None \<Rightarrow> responses ! j = None | Some q \<Rightarrow> answers (snd q) (responses ! j)"
    proof (cases "requests ! j")
      case None
      with s r show ?thesis by (simp add: slot_for_def slot_result_def)
    next
      case (Some q)
      have q: "Some q \<in> set requests" using j Some nth_mem by metis
      show ?thesis
      proof (cases "cached_response env cached q")
        case None
        with s Some obtain n where n: "map_of u' (dedup_key env q) = Some n" "?s = Owner n \<or> ?s = CopyOf n"
          by (auto simp: slot_for_def)
        from owners [OF n(1)] obtain q' i where i: "Some q' \<in> set requests" "dedup_key env q' = dedup_key env q"
          "i \<in> set items" "item_future i = n" "item_request i = snd q'"
          by (auto simp: new_owner_def)
        have "future n = Inr (responses ! j)" using r n(2) by (auto simp: slot_result_def)
        with futures [OF i(3)] i(4,5) have "answers (snd q') (responses ! j)" by simp
        moreover have "\<forall>r. answers (snd q') r \<longrightarrow> answers (snd q) r"
          using keys i(1,2) q unfolding keys_sound_def by blast
        ultimately show ?thesis using \<open>requests ! j = Some q\<close> by simp
      next
        case (Some resp)
        with s r \<open>requests ! j = Some q\<close> have "responses ! j = Some resp"
          by (simp add: slot_for_def slot_result_def)
        with cached [OF q Some] \<open>requests ! j = Some q\<close> show ?thesis by simp
      qed
    qed
  qed
qed

lemma make_batch_InrD:
  assumes "make_batch_requests env timeout cached raised future requests = Inr responses"
  obtains t items slots where
    "submit_from env t cached raised 0 [] requests = (items, Inr slots)"
    "submit_batch_requests env t cached raised requests = (items, Inr slots)"
    "collect_batch_responses future slots = Inr responses"
    "t = (case timeout of None \<Rightarrow> DEFAULT_MODEL_CLIENT_TIMEOUT
                        | Some t \<Rightarrow> if t = 0 then DEFAULT_MODEL_CLIENT_TIMEOUT else t)"
  using assms
  by (cases "submit_batch_requests env (case timeout of None \<Rightarrow> DEFAULT_MODEL_CLIENT_TIMEOUT
        | Some t \<Rightarrow> if t = 0 then DEFAULT_MODEL_CLIENT_TIMEOUT else t) cached raised requests")
    (auto simp: make_batch_requests_def Let_def submit_batch_requests_def split: sum.splits)


definition example_batch_env :: BatchEnv where
  "example_batch_env = \<lparr>hashes = \<lparr>sha256_json = (\<lambda>k. case k of EmbeddingsKey m u d p h \<Rightarrow> d | _ \<Rightarrow> ''''),
     sha256_text = (\<lambda>s. s)\<rparr>, client_model = ''m'', base_url = None, profile_hash = (\<lambda>_. Inr None),
     estimate_tokens_for_request = (\<lambda>_. Inr (TokenEstimate 1 0))\<rparr>"

definition example_request :: "string \<Rightarrow> Request" where
  "example_request s = Embeddings \<lparr>doc = s, embeddings_profile = None\<rparr>"

lemma example_key:
  "safe_build_request_key example_batch_env (example_request s) = Some s"
  by (simp add: safe_build_request_key_def build_request_key_def example_batch_env_def
      compute_request_fingerprint_def request_key_data_def example_request_def)

definition example_batch :: "PyRequest option list" where
  "example_batch = [Some (0, example_request ''a''), None, Some (1, example_request ''a''), Some (2, example_request ''b'')]"

lemma example_submit:
  "submit_from example_batch_env t (\<lambda>_. None) (\<lambda>_. None) 0 [] example_batch =
     ([\<lparr>item_request = example_request ''a'', item_future = 0, item_estimate = TokenEstimate 1 0,
        item_fingerprint = Some ''a'', item_timeout = t\<rparr>,
       \<lparr>item_request = example_request ''b'', item_future = 3, item_estimate = TokenEstimate 1 0,
        item_fingerprint = Some ''b'', item_timeout = t\<rparr>],
      Inr [Owner 0, Ready None, CopyOf 0, Owner 3])"
proof -
  have est: "estimate_tokens_for_request example_batch_env r = Inr (TokenEstimate 1 0)" for r
    by (simp add: example_batch_env_def)
  show ?thesis
    by (simp add: example_batch_def submit_request_def get_or_create_request_future_def cached_response_def
        example_key dedup_key_def est)
qed


text \<open>Deduplication is exact: the items a submitted batch enqueues are, one for one, the
  distinct keys of its requests that the cache did not answer.\<close>

theorem batch_sends_each_key_once:
  assumes "submit_batch_requests env t cached raised requests = (items, Inr slots)"
  shows "\<exists>key. bij_betw key (set items)
     {dedup_key env q | q. Some q \<in> set requests \<and> cached_response env cached q = None} \<and>
     (\<forall>i \<in> set items. \<exists>q. Some q \<in> set requests \<and> item_request i = snd q \<and> dedup_key env q = key i) \<and>
     distinct items"
proof -
  from submit_spec [OF assms [unfolded submit_batch_requests_def]] obtain u' :: "(DedupKey, nat) dict" where
    slots: "list_all2 (slot_for env cached (map_of u')) requests slots"
    and owners: "\<And>k m. map_of u' k = Some m \<Longrightarrow> new_owner env requests items k m"
    and items: "\<And>i. i \<in> set items \<Longrightarrow> item_for env cached requests [] u' i"
    and dist: "distinct (map item_future items)"
    by auto
  let ?K = "{dedup_key env q | q. Some q \<in> set requests \<and> cached_response env cached q = None}"
  have "\<forall>i \<in> set items. \<exists>q. Some q \<in> set requests \<and> item_request i = snd q \<and>
      cached_response env cached q = None \<and> (\<forall>k. map_of u' k = Some (item_future i) \<longleftrightarrow> k = dedup_key env q)"
    using items unfolding item_for_def by blast
  from bchoice [OF this] obtain f where f: "\<And>i. i \<in> set items \<Longrightarrow> Some (f i) \<in> set requests \<and>
      item_request i = snd (f i) \<and> cached_response env cached (f i) = None \<and>
      (\<forall>k. map_of u' k = Some (item_future i) \<longleftrightarrow> k = dedup_key env (f i))"
    by blast
  have "inj_on (\<lambda>i. dedup_key env (f i)) (set items)"
  proof (rule inj_onI)
    fix i i' assume i: "i \<in> set items" "i' \<in> set items" "dedup_key env (f i) = dedup_key env (f i')"
    with f [OF i(1)] f [OF i(2)] have "Some (item_future i) = Some (item_future i')" by metis
    with i(1,2) dist show "i = i'" by (auto simp: distinct_map dest: inj_onD)
  qed
  moreover have "?K \<subseteq> (\<lambda>i. dedup_key env (f i)) ` set items"
  proof
    fix k assume "k \<in> ?K"
    then obtain q where q: "Some q \<in> set requests" "cached_response env cached q = None" "k = dedup_key env q"
      by blast
    then obtain j where j: "j < length requests" "requests ! j = Some q" by (auto simp: in_set_conv_nth)
    with list_all2_nthD [OF slots j(1)] q obtain n where n: "map_of u' k = Some n" by (auto simp: slot_for_def)
    from owners [OF n] obtain i where i: "i \<in> set items" "item_future i = n"
      by (auto simp: new_owner_def)
    with f [OF i(1)] n have "k = dedup_key env (f i)" by blast
    with i(1) show "k \<in> (\<lambda>i. dedup_key env (f i)) ` set items" by blast
  qed
  moreover have "(\<lambda>i. dedup_key env (f i)) ` set items \<subseteq> ?K" using f by blast
  ultimately have "bij_betw (\<lambda>i. dedup_key env (f i)) (set items) ?K"
    by (intro bij_betw_imageI subset_antisym)
  moreover have "distinct items" using dist by (simp add: distinct_map)
  ultimately show ?thesis
    using f by (intro exI [of _ "\<lambda>i. dedup_key env (f i)"]) blast
qed

theorem batch_sends_each_key_once_witness:
  "card {dedup_key example_batch_env q | q. Some q \<in> set example_batch \<and>
     cached_response example_batch_env (\<lambda>_. None :: unit option) q = None} = 2"
proof -
  have s: "submit_batch_requests example_batch_env 1 (\<lambda>_. None) (\<lambda>_. None) example_batch =
     ([\<lparr>item_request = example_request ''a'', item_future = 0, item_estimate = TokenEstimate 1 0,
        item_fingerprint = Some ''a'', item_timeout = 1\<rparr>,
       \<lparr>item_request = example_request ''b'', item_future = 3, item_estimate = TokenEstimate 1 0,
        item_fingerprint = Some ''b'', item_timeout = 1\<rparr>],
      Inr [Owner 0, Ready None, CopyOf 0, Owner 3] :: (exn + unit Slot list))"
    by (simp add: submit_batch_requests_def example_submit)
  from batch_sends_each_key_once [OF s] obtain key where
    "bij_betw key {\<lparr>item_request = example_request ''a'', item_future = 0, item_estimate = TokenEstimate 1 0,
        item_fingerprint = Some ''a'', item_timeout = 1\<rparr>,
       \<lparr>item_request = example_request ''b'', item_future = 3, item_estimate = TokenEstimate 1 0,
        item_fingerprint = Some ''b'', item_timeout = 1\<rparr>}
     {dedup_key example_batch_env q | q. Some q \<in> set example_batch \<and>
       cached_response example_batch_env (\<lambda>_. None :: unit option) q = None}"
    by (auto simp only: list.set)
  from bij_betw_same_card [OF this] show ?thesis by simp
qed

text \<open>An exception reported to the thread before its first request stops the batch: nothing is
  enqueued and the caller gets an ExecutionError, whatever the requests are.\<close>

theorem poisoned_thread_fails:
  assumes "\<forall>n. raised n = Some e" "requests \<noteq> []"
  shows "make_batch_requests env timeout cached raised future requests = Inl ExecutionError \<and>
     fst (submit_batch_requests env t cached raised requests) = []"
  using assms by (cases requests) (simp_all add: make_batch_requests_def submit_batch_requests_def Let_def)
end
