(* ===== verification/TokenEstimator.thy ===== *)
theory TokenEstimator
  imports Fenic_Prelude "HOL-Library.Multiset"
begin

text \<open>
  The learned output-token reservation of
  \<^verbatim>\<open>src/fenic/_inference/output_token_estimator.py\<close>: a window of observed counts per
  key, the interpolated quantile over the sorted window and the clamped reservation.  Floats
  are real numbers.  The lemmas show that the reservation stays within its ceiling, that it
  covers the share of the observed counts its quantile promises, and that the window holds
  the latest observations.
\<close>

section \<open>Quantiles\<close>

definition DEFAULT_QUANTILE :: real where "DEFAULT_QUANTILE = 95 / 100"

definition REASONING_QUANTILE :: real where "REASONING_QUANTILE = 99 / 100"

text \<open>On an empty list the index below is -1, which Python rejects on an empty list.\<close>

definition quantile :: "int list \<Rightarrow> real \<Rightarrow> real res" where
  "quantile vals q =
     (if vals = [] then Inl PyIndexError
      else if length vals = 1 then Inr (real_of_int (hd vals))
      else
        let pos = q * real (length vals - 1);
            lo = nat \<lfloor>pos\<rfloor>;
            hi = nat \<lceil>pos\<rceil>
        in if lo = hi then Inr (real_of_int (vals ! lo))
           else Inr (real_of_int (vals ! lo) * (real hi - pos) + real_of_int (vals ! hi) * (pos - real lo)))"

section \<open>The estimator\<close>

record 'k Estimator =
  enabled :: bool
  safety_margin :: real
  min_samples :: nat
  window :: nat
  samples :: "'k \<Rightarrow> int list option"

definition mk_estimator :: "bool \<Rightarrow> real \<Rightarrow> nat \<Rightarrow> nat \<Rightarrow> 'k Estimator" where
  "mk_estimator en margin ms w =
     \<lparr>enabled = en, safety_margin = margin, min_samples = ms, window = w, samples = (\<lambda>_. None)\<rparr>"

definition reserve :: "'k Estimator \<Rightarrow> 'k \<Rightarrow> int \<Rightarrow> bool \<Rightarrow> int res" where
  "reserve est key static_ceiling reasoning =
     (if static_ceiling \<le> 0 then Inr static_ceiling
      else if \<not> enabled est then Inr static_ceiling
      else case samples est key of
             None \<Rightarrow> Inr static_ceiling
           | Some xs \<Rightarrow>
               if length xs < min_samples est then Inr static_ceiling
               else
                 let q = (if reasoning then REASONING_QUANTILE else DEFAULT_QUANTILE)
                 in bind_res (quantile (sort xs) q)
                      (\<lambda>v. Inr (max 1 (min static_ceiling \<lceil>v * safety_margin est\<rceil>))))"

text \<open>A deque with a maximal length drops from the left when it is appended to.\<close>

definition deque_append :: "nat \<Rightarrow> int list \<Rightarrow> int \<Rightarrow> int list" where
  "deque_append maxlen xs x = drop (length xs + 1 - maxlen) (xs @ [x])"

definition observe :: "'k \<Rightarrow> int \<Rightarrow> 'k Estimator \<Rightarrow> 'k Estimator" where
  "observe key n est =
     (if \<not> enabled est then est
      else est\<lparr>samples := (samples est)(key \<mapsto>
             deque_append (window est) (case samples est key of None \<Rightarrow> [] | Some xs \<Rightarrow> xs) n)\<rparr>)"

section \<open>The quantile lies between its neighbours\<close>

lemma interpolate_between:
  fixes a b w v :: real
  assumes "a \<le> b" "0 \<le> w" "0 \<le> v" "w + v = 1"
  shows "a \<le> a * w + b * v" "a * w + b * v \<le> b"
proof -
  have "a * w + a * v = a" "b * w + b * v = b"
    using assms(4) by (simp_all flip: distrib_left)
  moreover have "a * v \<le> b * v" "a * w \<le> b * w"
    using assms by (simp_all add: mult_right_mono)
  ultimately show "a \<le> a * w + b * v" "a * w + b * v \<le> b" by linarith+
qed

definition quantile_index :: "nat \<Rightarrow> real \<Rightarrow> nat" where
  "quantile_index n q = nat \<lfloor>q * real (n - 1)\<rfloor>"

lemma quantile_bounds:
  assumes "sorted vals" "vals \<noteq> []" "0 \<le> q" "q \<le> 1"
  shows "\<exists>v. quantile vals q = Inr v \<and> real_of_int (vals ! quantile_index (length vals) q) \<le> v \<and>
             v \<le> real_of_int (last vals) \<and> quantile_index (length vals) q < length vals"
proof (cases "length vals = 1")
  case True
  then obtain a where a: "vals = [a]" by (auto simp: length_Suc_conv)
  have "quantile vals q = Inr (real_of_int a)" by (simp add: quantile_def a)
  moreover have "quantile_index (length vals) q = 0" by (simp add: quantile_index_def a)
  ultimately show ?thesis by (simp add: a)
next
  case False
  define n where "n = length vals - 1"
  have "0 < length vals" using assms(2) by simp
  with False have n: "1 \<le> n" "length vals = Suc n" unfolding n_def by linarith+
  define pos lo hi where "pos = q * real n" and "lo = nat \<lfloor>pos\<rfloor>" and "hi = nat \<lceil>pos\<rceil>"
  have pos: "0 \<le> pos" "pos \<le> real n" using assms n by (auto simp: pos_def mult_left_le_one_le)
  have hi: "hi \<le> n" using pos by (simp add: hi_def ceiling_le_iff)
  have lo_le: "lo \<le> hi" using pos by (simp add: lo_def hi_def nat_mono floor_le_ceiling)
  have idx: "quantile_index (length vals) q = lo"
    by (simp add: quantile_index_def lo_def pos_def n)
  have lastn: "last vals = vals ! n" using assms(2) by (simp add: last_conv_nth n_def)
  have mono: "vals ! i \<le> vals ! j" if "i \<le> j" "j \<le> n" for i j
    using assms(1) that n by (simp add: sorted_nth_mono)
  have q: "quantile vals q = (if lo = hi then Inr (real_of_int (vals ! lo))
      else Inr (real_of_int (vals ! lo) * (real hi - pos) + real_of_int (vals ! hi) * (pos - real lo)))"
    using False assms(2) by (simp add: quantile_def Let_def lo_def hi_def pos_def n_def)
  show ?thesis
  proof (cases "lo = hi")
    case True
    then show ?thesis using q idx lo_le hi mono [of lo n] lastn n by auto
  next
    case ne: False
    have w: "0 \<le> real hi - pos" "0 \<le> pos - real lo" "(real hi - pos) + (pos - real lo) = 1"
    proof -
      have "\<lceil>pos\<rceil> = \<lfloor>pos\<rfloor> + 1" using ne pos
        by (metis ceiling_altdef lo_def hi_def)
      then show "(real hi - pos) + (pos - real lo) = 1"
        using pos by (simp add: lo_def hi_def)
      show "0 \<le> real hi - pos" "0 \<le> pos - real lo" using pos by (simp_all add: lo_def hi_def)
    qed
    have "real_of_int (vals ! lo) \<le> real_of_int (vals ! hi)" using mono lo_le hi by simp
    from interpolate_between [OF this w] q ne idx mono [of hi n] hi lastn lo_le n
    show ?thesis by (auto intro: order_trans)
  qed
qed

text \<open>At least one more entry than the index lies at or below the entry it selects.\<close>

lemma sorted_filter_count:
  assumes "sorted vals" "i < length vals"
  shows "i + 1 \<le> length (filter (\<lambda>x. x \<le> vals ! i) vals)"
proof -
  have "set (take (i + 1) vals) \<subseteq> {x. x \<le> vals ! i}"
    using assms by (auto simp: in_set_conv_nth sorted_nth_mono)
  then have "filter (\<lambda>x. x \<le> vals ! i) (take (i + 1) vals) = take (i + 1) vals"
    by (intro filter_True) auto
  then have "i + 1 = length (filter (\<lambda>x. x \<le> vals ! i) (take (i + 1) vals))"
    using assms(2) by simp
  also have "\<dots> \<le> length (filter (\<lambda>x. x \<le> vals ! i) (take (i + 1) vals @ drop (i + 1) vals))"
    by (simp only: filter_append length_append)
  finally show ?thesis by (simp only: append_take_drop_id)
qed

lemma length_filter_weaken:
  "(\<And>x. P x \<Longrightarrow> Q x) \<Longrightarrow> length (filter P xs) \<le> length (filter Q xs)"
  by (induction xs) auto

lemma length_filter_sort: "length (filter P (sort xs)) = length (filter P xs)"
  by (metis mset_filter mset_sort size_mset)

section \<open>The window\<close>

lemma deque_append_suffix:
  "deque_append w (drop (length xs - w) xs) x = drop (length (xs @ [x]) - w) (xs @ [x])"
  by (cases "length xs \<le> w") (simp_all add: deque_append_def drop_append not_le Suc_diff_le)

definition observe_all :: "'k \<Rightarrow> int list \<Rightarrow> 'k Estimator \<Rightarrow> 'k Estimator" where
  "observe_all key ns est = fold (observe key) ns est"

lemma observe_fields [simp]:
  "enabled (observe k n est) = enabled est" "window (observe k n est) = window est"
  "min_samples (observe k n est) = min_samples est" "safety_margin (observe k n est) = safety_margin est"
  by (simp_all add: observe_def)

lemma observe_all_fields [simp]:
  "enabled (observe_all k ns est) = enabled est" "window (observe_all k ns est) = window est"
  "min_samples (observe_all k ns est) = min_samples est"
  "safety_margin (observe_all k ns est) = safety_margin est"
  unfolding observe_all_def by (induction ns arbitrary: est) simp_all

lemma observe_all_samples:
  assumes "enabled est" "samples est key = None" "ns \<noteq> []"
  shows "samples (observe_all key ns est) key = Some (drop (length ns - window est) ns)"
  using assms(3)
proof (induction ns rule: rev_induct)
  case (snoc n ns)
  have step: "observe_all key (ns @ [n]) est = observe key n (observe_all key ns est)"
    by (simp add: observe_all_def)
  show ?case
  proof (cases "ns = []")
    case True
    then show ?thesis using assms(1,2)
      by (simp add: step observe_def observe_all_def deque_append_def)
  next
    case False
    with snoc show ?thesis
      using assms(1) deque_append_suffix [of "window est" ns n] by (simp add: step observe_def)
  qed
qed simp

lemma observe_other: "key' \<noteq> key \<Longrightarrow> samples (observe_all key ns est) key' = samples est key'"
  unfolding observe_all_def by (induction ns arbitrary: est) (simp_all add: observe_def)

section \<open>Properties\<close>

definition quantile_of :: "bool \<Rightarrow> real" where
  "quantile_of reasoning = (if reasoning then REASONING_QUANTILE else DEFAULT_QUANTILE)"

lemma sort_Nil_iff [simp]: "sort xs = [] \<longleftrightarrow> xs = []"
  by (metis set_empty set_sort)

lemma suffix_not_Nil: "ns \<noteq> [] \<Longrightarrow> 1 \<le> w \<Longrightarrow> drop (length ns - w) ns \<noteq> []"
  by (cases ns) auto

lemma quantile_of_range: "0 \<le> quantile_of r" "quantile_of r \<le> 1"
  by (auto simp: quantile_of_def REASONING_QUANTILE_def DEFAULT_QUANTILE_def)

lemma reserve_modeled:
  assumes "0 < c" "enabled est" "samples est key = Some xs" "min_samples est \<le> length xs" "xs \<noteq> []"
  shows "\<exists>v. quantile (sort xs) (quantile_of r) = Inr v \<and>
             reserve est key c r = Inr (max 1 (min c \<lceil>v * safety_margin est\<rceil>)) \<and>
             real_of_int (sort xs ! quantile_index (length xs) (quantile_of r)) \<le> v \<and>
             quantile_index (length xs) (quantile_of r) < length xs"
proof -
  obtain v where v: "quantile (sort xs) (quantile_of r) = Inr v"
    "real_of_int (sort xs ! quantile_index (length xs) (quantile_of r)) \<le> v"
    "quantile_index (length xs) (quantile_of r) < length xs"
    using quantile_bounds [OF sorted_sort _ quantile_of_range, of xs r] assms(5) by auto
  moreover have "reserve est key c r = bind_res (quantile (sort xs) (quantile_of r))
      (\<lambda>v. Inr (max 1 (min c \<lceil>v * safety_margin est\<rceil>)))"
    using assms(1-4) by (simp add: reserve_def quantile_of_def)
  ultimately show ?thesis by simp
qed

text \<open>After any observations of a key, with a window of at least one, a reservation is
  returned and lies between 1 and the ceiling when the ceiling is positive, and is the ceiling
  itself when it is not; a disabled estimator, an unseen key and a key with fewer observations
  than the minimum all reserve the ceiling.\<close>

theorem reserve_in_range:
  assumes "1 \<le> w" and "est = observe_all key ns (mk_estimator en margin ms w)"
  shows "\<exists>n. reserve est key' c r = Inr n \<and>
             (if c \<le> 0 then n = c else 1 \<le> n \<and> n \<le> c) \<and>
             (\<not> en \<or> key' \<noteq> key \<or> ns = [] \<or> min (length ns) w < ms \<longrightarrow> n = c)"
proof (cases "0 < c \<and> en \<and> key' = key \<and> ns \<noteq> []")
  case True
  then have s: "samples est key = Some (drop (length ns - w) ns)"
    using observe_all_samples [of "mk_estimator en margin ms w" key ns] assms
    by (simp add: mk_estimator_def)
  have f: "enabled est" "min_samples est = ms" using assms True by (simp_all add: mk_estimator_def)
  have len: "length (drop (length ns - w) ns) = min (length ns) w" by simp
  have ne: "drop (length ns - w) ns \<noteq> []" using True assms(1) suffix_not_Nil by blast
  show ?thesis
  proof (cases "min (length ns) w < ms")
    case True
    with s f len \<open>0 < c \<and> _\<close> show ?thesis by (simp add: reserve_def)
  next
    case False
    then obtain v where "reserve est key c r = Inr (max 1 (min c \<lceil>v * safety_margin est\<rceil>))"
      using reserve_modeled [OF _ f(1) s _ ne, of c r] f len True by (metis not_less)
    with True False show ?thesis by simp
  qed
next
  case False
  have "samples est key' = None" if "key' \<noteq> key \<or> ns = []"
    using that assms(2) observe_other [of key' key ns "mk_estimator en margin ms w"]
    by (auto simp: mk_estimator_def observe_all_def)
  with False assms(2) show ?thesis
    by (auto simp: reserve_def mk_estimator_def split: option.splits)
qed

theorem reserve_in_range_witness:
  "\<exists>n. reserve (observe_all (0::nat) [5, 9] (mk_estimator True 1 2 4)) 0 100 False = Inr n \<and>
       1 \<le> n \<and> n \<le> 100"
  using reserve_in_range [of 4 "observe_all 0 [5, 9] (mk_estimator True 1 2 4)" "0::nat" "[5, 9]" True 1 2 0 100 False]
  by auto

text \<open>Coverage: with enough observations and a safety margin of at least one, the reservation
  is the ceiling or covers at least the quantile's share of the observations in the window, at
  least one more than the rounded-down quantile position.\<close>

theorem reserve_covers:
  assumes "1 \<le> w" "en" "1 \<le> margin" "ns \<noteq> []" "ms \<le> min (length ns) w" "0 < c"
    and "\<forall>n \<in> set ns. 0 \<le> n"
    and "est = observe_all key ns (mk_estimator en margin ms w)"
    and "recent = drop (length ns - w) ns"
  shows "\<exists>n. reserve est key c r = Inr n \<and>
             (n = c \<or> \<lfloor>quantile_of r * real (length recent - 1)\<rfloor> + 1
                        \<le> int (length (filter (\<lambda>x. x \<le> n) recent)))"
proof -
  have e0: "enabled (mk_estimator en margin ms w)" "samples (mk_estimator en margin ms w) key = None"
    "window (mk_estimator en margin ms w) = w" "min_samples (mk_estimator en margin ms w) = ms"
    "safety_margin (mk_estimator en margin ms w) = margin"
    using assms(2) by (simp_all add: mk_estimator_def)
  have s: "samples est key = Some recent"
    using observe_all_samples [OF e0(1,2) assms(4)] by (simp only: assms(8,9) e0(3))
  have f: "enabled est" "min_samples est = ms" "safety_margin est = margin"
    using e0(1) by (simp_all only: assms(8) observe_all_fields e0(4,5))
  have ne: "recent \<noteq> []" unfolding assms(9) by (rule suffix_not_Nil [OF assms(4,1)])
  have len: "length recent = min (length ns) w" using assms(9) by simp
  define i where "i = quantile_index (length recent) (quantile_of r)"
  obtain v where v: "reserve est key c r = Inr (max 1 (min c \<lceil>v * margin\<rceil>))"
    "real_of_int (sort recent ! i) \<le> v" "i < length recent"
    using reserve_modeled [OF assms(6) f(1) s, of r] f len ne assms(5) by (auto simp: i_def)
  define n where "n = max 1 (min c \<lceil>v * margin\<rceil>)"
  show ?thesis
  proof (cases "n = c")
    case False
    have "sort recent ! i \<in> set recent" using v(3) by (metis length_sort nth_mem set_sort)
    then have pos: "0 \<le> sort recent ! i" using assms(7,9) by (auto dest: in_set_dropD)
    then have "0 \<le> v" using v(2) by linarith
    then have "v \<le> v * margin" using assms(3) by (simp add: mult_le_cancel_left1)
    then have "sort recent ! i \<le> \<lceil>v * margin\<rceil>" using v(2) by linarith
    then have le: "sort recent ! i \<le> n" using False assms(6) by (auto simp: n_def)
    have "i + 1 \<le> length (filter (\<lambda>x. x \<le> sort recent ! i) (sort recent))"
      using v(3) by (intro sorted_filter_count) auto
    also have "\<dots> = length (filter (\<lambda>x. x \<le> sort recent ! i) recent)" by (rule length_filter_sort)
    also have "\<dots> \<le> length (filter (\<lambda>x. x \<le> n) recent)"
      using le by (intro length_filter_weaken) auto
    finally have "int i + 1 \<le> int (length (filter (\<lambda>x. x \<le> n) recent))" by linarith
    moreover have "int i = \<lfloor>quantile_of r * real (length recent - 1)\<rfloor>"
      using quantile_of_range [of r] by (simp add: i_def quantile_index_def)
    ultimately show ?thesis using v(1) n_def by auto
  qed (use v(1) n_def in auto)
qed

theorem reserve_covers_witness:
  "\<exists>n. reserve (observe_all (0::nat) [5, 9] (mk_estimator True 1 2 4)) 0 100 False = Inr n \<and>
     (n = 100 \<or> \<lfloor>quantile_of False * 1\<rfloor> + 1 \<le> int (length (filter (\<lambda>x. x \<le> n) [5, 9])))"
  using reserve_covers [of 4 True 1 "[5, 9]" 2 100
      "observe_all 0 [5, 9] (mk_estimator True 1 2 4)" "0::nat" "[5, 9]" False] by simp

text \<open>The window holds exactly the last observations of a key, at most its length many, and
  observing one key leaves the others alone.\<close>

theorem window_is_suffix:
  assumes "ns \<noteq> []"
  shows "samples (observe_all key ns (mk_estimator True margin ms w)) key
           = Some (drop (length ns - w) ns) \<and>
         length (drop (length ns - w) ns) = min w (length ns) \<and>
         (key' \<noteq> key \<longrightarrow> samples (observe_all key ns (mk_estimator True margin ms w)) key' = None)"
  using observe_all_samples [of "mk_estimator True margin ms w" key ns] assms
    observe_other [of key' key ns "mk_estimator True margin ms w"]
  by (auto simp: mk_estimator_def)

theorem window_is_suffix_witness:
  "samples (observe_all (7::nat) [1, 2, 3] (mk_estimator True 1 30 2)) 7 = Some [2, 3]"
  using window_is_suffix [of "[1, 2, 3]" "7::nat" 1 30 2 8] by simp

end
