(* ===== verification/ModelClient.thy ===== *)
theory ModelClient
  imports BatchRequests TokenEstimator
begin

text \<open>
  The event loop side of the model client (\<^verbatim>\<open>src/fenic/_inference/model_client.py\<close>): the
  handlers \<open>_handle_response\<close>, \<open>_reconcile_completion\<close>, \<open>_maybe_backoff\<close>,
  \<open>_register_thread_exception\<close> and the worker \<open>_process_queue\<close> as functions on the client's
  state, and the interleaving of caller, worker, provider and shutdown as a step relation whose
  steps are the stretches of code between two awaits.  The rate limit strategy and what the
  provider answers are fields of the configuration.  The lemmas show that before shutdown no
  request is lost, duplicated or answered for another one, that the worker never gets stuck,
  and that what is dispatched obeys the strategy's bound.
\<close>

section \<open>State\<close>

record ClientItem = QueueItem + item_thread :: nat

datatype 'r Outcome =
    Response "'r option" | TransientException exn | FatalException exn | TimedOut | Raised exn

text \<open>
  The strategy, the retry settings, the cache switch, what the provider may answer to a request,
  and the usage a response reports.
\<close>

record ('s, 'r) ClientConfig =
  check_fn :: "TokenEstimate \<Rightarrow> real \<Rightarrow> 's \<Rightarrow> (bool \<times> 's) res"
  settle_fn :: "TokenEstimate \<Rightarrow> TokenEstimate \<Rightarrow> real \<Rightarrow> 's \<Rightarrow> 's"
  backoff_fn :: "real \<Rightarrow> 's \<Rightarrow> 's"
  queue_size :: nat
  initial_backoff_seconds :: real
  backoff_factor :: real
  max_backoffs :: nat
  has_cache :: bool
  may_answer :: "Request \<Rightarrow> 'r option \<Rightarrow> bool"
  response_usage :: "'r \<Rightarrow> ResponseUsage option"
  client_profile_hash :: "Request \<Rightarrow> string option res"

type_synonym EstimatorKey = "string option \<times> int option \<times> string option"

text \<open>
  Where the worker is: waiting for the queues, going through the pending requests, asleep for
  the rate limit, asleep for a backoff until a time, or ended.
\<close>

datatype Worker =
    Fetching
  | Scanning "ClientItem list"
  | RateSleep "ClientItem list"
  | BackingOff "ClientItem list" real
  | Ended

record ('s, 'r) Client =
  request_queue :: "ClientItem list"
  retry_queue :: "ClientItem list"
  pending_requests :: "ClientItem list"
  processed_requests :: "ClientItem list"
  inflight_requests :: "ClientItem list"
  worker :: Worker
  shutdown_event :: bool
  last_transient_exception_time :: real
  num_backoffs :: nat
  thread_exceptions :: "nat \<Rightarrow> exn option"
  futures :: "nat \<Rightarrow> 'r option res option"
  limiter :: 's
  output_estimator :: "EstimatorKey Estimator"
  cache_writes :: "(string \<times> 'r) list"
  num_reserved_output_tokens :: int
  clock :: real
  submitted :: "ClientItem list"
  limiter_log :: "RateLimitOp list"
  dispatched :: "ClientItem list"

text \<open>The clock is the reading of the system time; the last three fields are history that no handler reads.\<close>

definition init_client :: "'s \<Rightarrow> EstimatorKey Estimator \<Rightarrow> real \<Rightarrow> ('s, 'r) Client" where
  "init_client l est t =
     \<lparr>request_queue = [], retry_queue = [], pending_requests = [], processed_requests = [],
      inflight_requests = [], worker = Fetching, shutdown_event = False,
      last_transient_exception_time = 0, num_backoffs = 0, thread_exceptions = (\<lambda>_. None),
      futures = (\<lambda>_. None), limiter = l, output_estimator = est, cache_writes = [],
      num_reserved_output_tokens = 0, clock = t, submitted = [], limiter_log = [], dispatched = []\<rparr>"

section \<open>Handlers\<close>

definition register_thread_exception ::
  "ClientItem \<Rightarrow> exn \<Rightarrow> ('s, 'r) Client \<Rightarrow> ('s, 'r) Client" where
  "register_thread_exception i e s =
     (let s1 = (if futures s (item_future i) = None
                then s\<lparr>futures := (futures s)(item_future i \<mapsto> Inl e)\<rparr> else s)
      in s1\<lparr>thread_exceptions := (thread_exceptions s1)(item_thread i \<mapsto> e)\<rparr>)"

definition maybe_raise_thread_exception :: "nat \<Rightarrow> ('s, 'r) Client \<Rightarrow> exn option" where
  "maybe_raise_thread_exception thread s = thread_exceptions s thread"

definition estimator_key :: "('s, 'r) ClientConfig \<Rightarrow> Request \<Rightarrow> EstimatorKey res" where
  "estimator_key cfg r =
     bind_res (client_profile_hash cfg r) (\<lambda>ph.
       Inr (case r of
              Completions c \<Rightarrow> (ph, max_completion_tokens c, map_option schema_fingerprint (structured_output c))
            | Embeddings e \<Rightarrow> (ph, None, None)))"

definition actual_tokens :: "ResponseUsage \<Rightarrow> TokenEstimate" where
  "actual_tokens u = TokenEstimate (prompt_tokens u) (completion_tokens u + thinking_tokens u)"

definition adaptive_output_reservation ::
  "('s, 'r) ClientConfig \<Rightarrow> ('s, 'r) Client \<Rightarrow> Request \<Rightarrow> int \<Rightarrow> bool \<Rightarrow> int res" where
  "adaptive_output_reservation cfg s r static_ceiling reasoning =
     bind_res (estimator_key cfg r) (\<lambda>k. reserve (output_estimator s) k static_ceiling reasoning)"

text \<open>Any failure of the reconciliation is logged and swallowed.\<close>

definition reconcile_completion ::
  "('s, 'r) ClientConfig \<Rightarrow> Request \<Rightarrow> TokenEstimate \<Rightarrow> ResponseUsage \<Rightarrow> ('s, 'r) Client \<Rightarrow> ('s, 'r) Client" where
  "reconcile_completion cfg r reserved u s =
     (if total_tokens reserved \<le> 0 then s
      else
        (let s1 = s\<lparr>num_reserved_output_tokens := num_reserved_output_tokens s + output_tokens reserved\<rparr>;
             actual = actual_tokens u
         in case estimator_key cfg r of
              Inl e \<Rightarrow> s1
            | Inr k \<Rightarrow>
                s1\<lparr>output_estimator := observe k (output_tokens actual) (output_estimator s1),
                   limiter := settle_fn cfg reserved actual (clock s1) (limiter s1),
                   limiter_log := limiter_log s1 @ [Settle reserved actual (clock s1)]\<rparr>))"

definition cache_response ::
  "('s, 'r) ClientConfig \<Rightarrow> ClientItem \<Rightarrow> 'r option \<Rightarrow> ('s, 'r) Client \<Rightarrow> ('s, 'r) Client" where
  "cache_response cfg i r s =
     (case (r, item_fingerprint i) of
        (Some resp, Some k) \<Rightarrow>
          if has_cache cfg \<and> k \<noteq> [] \<and> is_completions (item_request i)
          then s\<lparr>cache_writes := cache_writes s @ [(k, resp)]\<rparr> else s
      | _ \<Rightarrow> s)"

definition reconcile_response ::
  "('s, 'r) ClientConfig \<Rightarrow> ClientItem \<Rightarrow> 'r option \<Rightarrow> ('s, 'r) Client \<Rightarrow> ('s, 'r) Client" where
  "reconcile_response cfg i r s =
     (case r of
        None \<Rightarrow> s
      | Some resp \<Rightarrow>
          (case response_usage cfg resp of
             None \<Rightarrow> s
           | Some u \<Rightarrow> reconcile_completion cfg (item_request i) (item_estimate i) u s))"

definition set_result :: "ClientItem \<Rightarrow> 'r option \<Rightarrow> ('s, 'r) Client \<Rightarrow> ('s, 'r) Client" where
  "set_result i r s =
     (if futures s (item_future i) = None
      then s\<lparr>futures := (futures s)(item_future i \<mapsto> Inr r)\<rparr> else s)"

text \<open>The end of a request's task: a timeout retries, everything else is the handler's.\<close>

definition handle_response ::
  "('s, 'r) ClientConfig \<Rightarrow> ClientItem \<Rightarrow> 'r Outcome \<Rightarrow> ('s, 'r) Client \<Rightarrow> ('s, 'r) Client" where
  "handle_response cfg i out s =
     (case out of
        TransientException e \<Rightarrow>
          if max_backoffs cfg \<le> num_backoffs s then register_thread_exception i PyException s
          else s\<lparr>retry_queue := retry_queue s @ [i], last_transient_exception_time := clock s\<rparr>
      | FatalException e \<Rightarrow> register_thread_exception i e s
      | Response r \<Rightarrow> set_result i r (reconcile_response cfg i r (cache_response cfg i r s))
      | TimedOut \<Rightarrow> s\<lparr>retry_queue := retry_queue s @ [i]\<rparr>
      | Raised e \<Rightarrow> register_thread_exception i e s)"

definition process_single_request ::
  "('s, 'r) ClientConfig \<Rightarrow> ClientItem \<Rightarrow> 'r Outcome \<Rightarrow> ('s, 'r) Client \<Rightarrow> ('s, 'r) Client" where
  "process_single_request cfg i out s =
     handle_response cfg i out (s\<lparr>inflight_requests := remove1 i (inflight_requests s)\<rparr>)"

definition calculate_backoff_time :: "('s, 'r) ClientConfig \<Rightarrow> nat \<Rightarrow> real" where
  "calculate_backoff_time cfg n =
     min (initial_backoff_seconds cfg * backoff_factor cfg ^ n) MINUTE_IN_SECONDS"

text \<open>The check before the next pending request: go on, or sleep until the backoff is over.\<close>

definition maybe_backoff ::
  "('s, 'r) ClientConfig \<Rightarrow> ClientItem list \<Rightarrow> ('s, 'r) Client \<Rightarrow> ('s, 'r) Client" where
  "maybe_backoff cfg rest s =
     (let last = last_transient_exception_time s;
          backoff_time = calculate_backoff_time cfg (num_backoffs s)
      in if last \<le> 0 then s\<lparr>worker := Scanning rest\<rparr>
         else if clock s - last < backoff_time
         then s\<lparr>worker := BackingOff rest (clock s + (backoff_time - (clock s - last)))\<rparr>
         else s\<lparr>worker := Scanning rest\<rparr>)"

definition end_backoff ::
  "('s, 'r) ClientConfig \<Rightarrow> ClientItem list \<Rightarrow> ('s, 'r) Client \<Rightarrow> ('s, 'r) Client" where
  "end_backoff cfg rest s =
     s\<lparr>num_backoffs := num_backoffs s + 1, last_transient_exception_time := 0,
       limiter := backoff_fn cfg (clock s) (limiter s),
       limiter_log := limiter_log s @ [Backoff (clock s)], worker := Scanning rest\<rparr>"

text \<open>One pending request of the worker's loop.\<close>

definition scan_item ::
  "('s, 'r) ClientConfig \<Rightarrow> ClientItem \<Rightarrow> ClientItem list \<Rightarrow> ('s, 'r) Client \<Rightarrow> ('s, 'r) Client" where
  "scan_item cfg i rest s =
     (let s1 = s\<lparr>limiter_log := limiter_log s @ [Check (item_estimate i) (clock s)]\<rparr>
      in case check_fn cfg (item_estimate i) (clock s) (limiter s) of
           Inr (True, l) \<Rightarrow>
             maybe_backoff cfg rest
               (s1\<lparr>limiter := l, inflight_requests := inflight_requests s @ [i],
                   processed_requests := processed_requests s @ [i], dispatched := dispatched s @ [i]\<rparr>)
         | Inr (False, l) \<Rightarrow> s1\<lparr>limiter := l, worker := RateSleep rest\<rparr>
         | Inl e \<Rightarrow>
             (register_thread_exception i e s1)
               \<lparr>processed_requests := processed_requests s @ [i], worker := Scanning rest\<rparr>)"

text \<open>The end of the loop over the pending requests; removing an absent item raises ValueError.\<close>

fun remove_each :: "'a list \<Rightarrow> 'a list \<Rightarrow> 'a list option" where
  "remove_each [] xs = Some xs"
| "remove_each (p # ps) xs = (if p \<in> set xs then remove_each ps (remove1 p xs) else None)"

definition end_scan :: "('s, 'r) Client \<Rightarrow> ('s, 'r) Client" where
  "end_scan s =
     (case remove_each (processed_requests s) (pending_requests s) of
        None \<Rightarrow> s\<lparr>worker := Ended\<rparr>
      | Some left \<Rightarrow>
          s\<lparr>pending_requests := left, processed_requests := [],
            worker := (if left = [] then Fetching else Scanning left)\<rparr>)"

text \<open>The queues handed over at least one item: that of the retry queue comes first.\<close>

definition take_queued :: "bool \<Rightarrow> bool \<Rightarrow> ('s, 'r) Client \<Rightarrow> ClientItem list" where
  "take_queued from_retry from_request s =
     (if from_retry then take 1 (retry_queue s) else []) @
     (if from_request then take 1 (request_queue s) else [])"

definition drop_queued :: "bool \<Rightarrow> bool \<Rightarrow> ('s, 'r) Client \<Rightarrow> ('s, 'r) Client" where
  "drop_queued from_retry from_request s =
     s\<lparr>retry_queue := (if from_retry then drop 1 (retry_queue s) else retry_queue s),
       request_queue := (if from_request then drop 1 (request_queue s) else request_queue s)\<rparr>"

definition get_queued_requests :: "bool \<Rightarrow> bool \<Rightarrow> ('s, 'r) Client \<Rightarrow> ('s, 'r) Client" where
  "get_queued_requests from_retry from_request s =
     (let items = (if shutdown_event s then [] else take_queued from_retry from_request s);
          s1 = drop_queued from_retry from_request s
      in if items = [] then s1\<lparr>worker := Ended\<rparr>
         else s1\<lparr>pending_requests := items, processed_requests := [], worker := Scanning items\<rparr>)"

definition enqueue_request :: "ClientItem \<Rightarrow> ('s, 'r) Client \<Rightarrow> ('s, 'r) Client" where
  "enqueue_request i s = s\<lparr>request_queue := request_queue s @ [i], submitted := submitted s @ [i]\<rparr>"

section \<open>Shutdown\<close>

definition shutdown_signal :: "('s, 'r) Client \<Rightarrow> ('s, 'r) Client" where
  "shutdown_signal s = s\<lparr>shutdown_event := True\<rparr>"

definition register_all_exceptions :: "ClientItem list \<Rightarrow> ('s, 'r) Client \<Rightarrow> ('s, 'r) Client" where
  "register_all_exceptions items s = fold (\<lambda>i. register_thread_exception i PyException) items s"

definition shutdown_drain :: "('s, 'r) Client \<Rightarrow> ('s, 'r) Client" where
  "shutdown_drain s =
     (let s1 = (register_all_exceptions (pending_requests s) s)\<lparr>pending_requests := []\<rparr>;
          s2 = (register_all_exceptions (request_queue s1) s1)\<lparr>request_queue := []\<rparr>
      in (register_all_exceptions (retry_queue s2) s2)\<lparr>retry_queue := []\<rparr>)"

definition cancel_in_flight_requests :: "('s, 'r) Client \<Rightarrow> ('s, 'r) Client" where
  "cancel_in_flight_requests s =
     (register_all_exceptions (inflight_requests s) s)\<lparr>inflight_requests := []\<rparr>"

section \<open>Steps\<close>

datatype StepKind = Caller | Time | WorkerStep | Provider

text \<open>
  The steps before shutdown: a caller enqueues a request with a new future, time passes, the
  worker takes items off the queues, checks the next pending request, wakes up or ends its
  loop, and a request in flight comes back with an outcome the provider may give.
\<close>

inductive client_step ::
  "('s, 'r) ClientConfig \<Rightarrow> StepKind \<Rightarrow> ('s, 'r) Client \<Rightarrow> ('s, 'r) Client \<Rightarrow> bool" for cfg where
  enqueue: "length (request_queue s) < queue_size cfg \<Longrightarrow>
     item_future i \<notin> item_future ` set (submitted s) \<Longrightarrow> est_nonneg (item_estimate i) \<Longrightarrow>
     client_step cfg Caller s (enqueue_request i s)"
| time_passes: "clock s \<le> t \<Longrightarrow> client_step cfg Time s (s\<lparr>clock := t\<rparr>)"
| fetch: "worker s = Fetching \<Longrightarrow> \<not> shutdown_event s \<Longrightarrow> take_queued a b s \<noteq> [] \<Longrightarrow>
     client_step cfg WorkerStep s (get_queued_requests a b s)"
| scan: "worker s = Scanning (i # rest) \<Longrightarrow> client_step cfg WorkerStep s (scan_item cfg i rest s)"
| scanned: "worker s = Scanning [] \<Longrightarrow> client_step cfg WorkerStep s (end_scan s)"
| wake: "worker s = RateSleep rest \<Longrightarrow> client_step cfg WorkerStep s (maybe_backoff cfg rest s)"
| resume: "worker s = BackingOff rest t \<Longrightarrow> t \<le> clock s \<Longrightarrow>
     client_step cfg WorkerStep s (end_backoff cfg rest s)"
| complete: "i \<in> set (inflight_requests s) \<Longrightarrow>
     (\<And>r. out = Response r \<Longrightarrow> may_answer cfg (item_request i) r) \<Longrightarrow>
     client_step cfg Provider s (process_single_request cfg i out s)"

inductive client_reach ::
  "('s, 'r) ClientConfig \<Rightarrow> ('s, 'r) Client \<Rightarrow> ('s, 'r) Client \<Rightarrow> bool" for cfg s0 where
  start: "client_reach cfg s0 s0"
| step: "client_reach cfg s0 s \<Longrightarrow> client_step cfg k s s' \<Longrightarrow> client_reach cfg s0 s'"

inductive_cases client_stepE: "client_step cfg k s s'"

section \<open>Ownership\<close>

text \<open>
  Where the unanswered requests are: in a queue, pending and not yet dispatched, or in flight.
\<close>

definition waiting :: "('s, 'r) Client \<Rightarrow> ClientItem list" where
  "waiting s = filter (\<lambda>i. i \<notin> set (processed_requests s)) (pending_requests s)"

definition located :: "('s, 'r) Client \<Rightarrow> ClientItem list" where
  "located s = request_queue s @ retry_queue s @ waiting s @ inflight_requests s"

definition unanswered :: "('s, 'r) Client \<Rightarrow> ClientItem set" where
  "unanswered s = {i \<in> set (submitted s). futures s (item_future i) = None}"

fun to_scan :: "Worker \<Rightarrow> ClientItem list" where
  "to_scan (Scanning rest) = rest"
| "to_scan (RateSleep rest) = rest"
| "to_scan (BackingOff rest t) = rest"
| "to_scan _ = []"

definition worker_ok :: "('s, 'r) Client \<Rightarrow> bool" where
  "worker_ok s \<longleftrightarrow> worker s \<noteq> Ended \<and>
     (worker s = Fetching \<longrightarrow> pending_requests s = []) \<and>
     set (to_scan (worker s)) \<subseteq> set (waiting s) \<and> distinct (to_scan (worker s)) \<and>
     distinct (pending_requests s) \<and> distinct (processed_requests s) \<and>
     set (processed_requests s) \<subseteq> set (pending_requests s)"

definition client_inv :: "('s, 'r) Client \<Rightarrow> bool" where
  "client_inv s \<longleftrightarrow> \<not> shutdown_event s \<and> distinct (map item_future (submitted s)) \<and>
     (\<forall>f. futures s f \<noteq> None \<longrightarrow> f \<in> item_future ` set (submitted s)) \<and>
     distinct (located s) \<and> set (located s) = unanswered s \<and> worker_ok s"

lemma same_future:
  "client_inv s \<Longrightarrow> i \<in> set (submitted s) \<Longrightarrow> j \<in> set (submitted s) \<Longrightarrow> item_future i = item_future j \<Longrightarrow> i = j"
  by (auto simp: client_inv_def distinct_map dest: inj_onD)

text \<open>Handlers that leave requests where they are.\<close>

definition same_requests :: "('s, 'r) Client \<Rightarrow> ('s, 'r) Client \<Rightarrow> bool" where
  "same_requests s s' \<longleftrightarrow> request_queue s' = request_queue s \<and> retry_queue s' = retry_queue s \<and>
     pending_requests s' = pending_requests s \<and> processed_requests s' = processed_requests s \<and>
     inflight_requests s' = inflight_requests s \<and> futures s' = futures s \<and>
     submitted s' = submitted s \<and> shutdown_event s' = shutdown_event s \<and> worker s' = worker s"

lemma same_requests_refl [simp]: "same_requests s s"
  by (simp add: same_requests_def)

lemma same_requests_trans: "same_requests s t \<Longrightarrow> same_requests t u \<Longrightarrow> same_requests s u"
  by (simp add: same_requests_def)

lemma same_requests_inv: "same_requests s s' \<Longrightarrow> client_inv s' \<longleftrightarrow> client_inv s"
  by (simp add: same_requests_def client_inv_def located_def unanswered_def worker_ok_def waiting_def)

lemma cache_response_same: "same_requests s (cache_response cfg i r s)"
  by (simp add: cache_response_def same_requests_def split: option.split)

lemma reconcile_response_same: "same_requests s (reconcile_response cfg i r s)"
  by (simp add: reconcile_response_def reconcile_completion_def Let_def same_requests_def
      split: option.split sum.split)

lemma maybe_backoff_same:
  "request_queue (maybe_backoff cfg rest s) = request_queue s"
  "retry_queue (maybe_backoff cfg rest s) = retry_queue s"
  "pending_requests (maybe_backoff cfg rest s) = pending_requests s"
  "processed_requests (maybe_backoff cfg rest s) = processed_requests s"
  "inflight_requests (maybe_backoff cfg rest s) = inflight_requests s"
  "futures (maybe_backoff cfg rest s) = futures s"
  "submitted (maybe_backoff cfg rest s) = submitted s"
  "shutdown_event (maybe_backoff cfg rest s) = shutdown_event s"
  "to_scan (worker (maybe_backoff cfg rest s)) = rest"
  "worker (maybe_backoff cfg rest s) \<noteq> Ended" "worker (maybe_backoff cfg rest s) \<noteq> Fetching"
  by (simp_all add: maybe_backoff_def Let_def)

lemma maybe_backoff_inv:
  assumes "client_inv (s\<lparr>worker := Scanning rest\<rparr>)"
  shows "client_inv (maybe_backoff cfg rest s)"
  using assms
  by (simp add: client_inv_def located_def unanswered_def worker_ok_def waiting_def maybe_backoff_same)

section \<open>Every step keeps the ownership\<close>

lemma enqueue_inv:
  assumes inv: "client_inv s" and new: "item_future i \<notin> item_future ` set (submitted s)"
  shows "client_inv (enqueue_request i s)"
proof -
  have none: "futures s (item_future i) = None" using inv new by (auto simp: client_inv_def)
  have "i \<notin> set (submitted s)" using new by auto
  then have "i \<notin> set (located s)" using inv by (simp add: client_inv_def unanswered_def)
  then show ?thesis
    using inv new none
    by (auto simp: client_inv_def located_def unanswered_def worker_ok_def waiting_def enqueue_request_def)
qed

lemma take1_drop1: "take 1 xs @ drop 1 xs = xs"
  by simp

lemma fetch_inv:
  assumes inv: "client_inv s" and w: "worker s = Fetching" and some: "take_queued a b s \<noteq> []"
  shows "client_inv (get_queued_requests a b s)"
proof -
  let ?items = "take_queued a b s"
  have p: "pending_requests s = []" using inv w by (simp add: client_inv_def worker_ok_def)
  then have waiting: "waiting s = []" by (simp add: waiting_def)
  have loc: "distinct (request_queue s @ retry_queue s @ inflight_requests s)"
    "set (request_queue s @ retry_queue s @ inflight_requests s) = unanswered s"
    using inv waiting by (simp_all add: client_inv_def located_def)
  let ?s' = "get_queued_requests a b s"
  have s': "located ?s' = (if b then drop 1 (request_queue s) else request_queue s) @
      (if a then drop 1 (retry_queue s) else retry_queue s) @ ?items @ inflight_requests s"
    using inv some by (simp add: get_queued_requests_def Let_def located_def waiting_def drop_queued_def client_inv_def)
  have m: "mset (located ?s') = mset (request_queue s @ retry_queue s @ inflight_requests s)"
    unfolding s' take_queued_def by (cases "request_queue s"; cases "retry_queue s") auto
  then have "distinct (located ?s')" "set (located ?s') = unanswered s"
    using loc by (metis mset_eq_imp_distinct_iff, metis mset_eq_setD)
  moreover have "distinct ?items" using \<open>distinct (located ?s')\<close> s' by simp
  ultimately show ?thesis
    using inv some
    by (simp add: client_inv_def unanswered_def worker_ok_def waiting_def get_queued_requests_def Let_def drop_queued_def)
qed

lemma scan_inv:
  assumes inv: "client_inv s" and w: "worker s = Scanning (i # rest)"
  shows "client_inv (scan_item cfg i rest s)"
proof -
  have i: "i \<in> set (pending_requests s)" "i \<notin> set (processed_requests s)"
    and rest: "set rest \<subseteq> set (waiting s)" "i \<notin> set rest" "distinct rest"
    using inv w by (auto simp: client_inv_def worker_ok_def waiting_def)
  have iw: "i \<in> set (waiting s)" using i by (simp add: waiting_def)
  let ?w = "filter (\<lambda>j. j \<notin> set (processed_requests s @ [i])) (pending_requests s)"
  have dw: "distinct (waiting s)" and dp: "distinct (pending_requests s)" "distinct (processed_requests s)"
    "set (processed_requests s) \<subseteq> set (pending_requests s)"
    using inv by (auto simp: client_inv_def located_def worker_ok_def)
  have w': "set ?w = set (waiting s) - {i}" "distinct ?w" using dp by (auto simp: waiting_def)
  have loc: "distinct (located s)" "set (located s) = unanswered s" using inv by (simp_all add: client_inv_def)
  have sub: "i \<in> set (submitted s)" "futures s (item_future i) = None"
    using loc iw by (auto simp: located_def unanswered_def)
  have worker: "set rest \<subseteq> set ?w" using rest w' by auto
  show ?thesis
  proof (cases "check_fn cfg (item_estimate i) (clock s) (limiter s)")
    case (Inl e)
    have "unanswered (scan_item cfg i rest s) = unanswered s - {i}"
      using sub same_future [OF inv _ sub(1)]
      by (auto simp: unanswered_def scan_item_def Let_def Inl register_thread_exception_def)
    moreover have "located (scan_item cfg i rest s) = request_queue s @ retry_queue s @ ?w @ inflight_requests s"
      by (simp add: located_def waiting_def scan_item_def Let_def Inl register_thread_exception_def)
    moreover have "distinct (request_queue s @ retry_queue s @ ?w @ inflight_requests s)"
      using loc(1) w' by (auto simp: located_def)
    moreover have "set (request_queue s @ retry_queue s @ ?w @ inflight_requests s) = unanswered s - {i}"
      using loc w' iw by (auto simp: located_def)
    ultimately show ?thesis
      using inv sub i dp worker rest(3)
      by (auto simp: client_inv_def worker_ok_def waiting_def scan_item_def Let_def Inl register_thread_exception_def)
  next
    case (Inr r)
    obtain ok l where r: "r = (ok, l)" by (cases r)
    show ?thesis
    proof (cases ok)
      case True
      let ?s1 = "s\<lparr>limiter_log := limiter_log s @ [Check (item_estimate i) (clock s)], limiter := l,
        inflight_requests := inflight_requests s @ [i], processed_requests := processed_requests s @ [i],
        dispatched := dispatched s @ [i]\<rparr>"
      have "distinct (request_queue s @ retry_queue s @ ?w @ inflight_requests s @ [i])"
        using loc(1) w' iw by (auto simp: located_def)
      moreover have "set (request_queue s @ retry_queue s @ ?w @ inflight_requests s @ [i]) = unanswered s"
        using loc w' iw by (auto simp: located_def)
      ultimately have "client_inv (?s1\<lparr>worker := Scanning rest\<rparr>)"
        using inv i dp worker rest(3)
        by (auto simp: client_inv_def worker_ok_def waiting_def located_def unanswered_def)
      then show ?thesis
        using Inr r True by (simp add: scan_item_def Let_def maybe_backoff_inv)
    next
      case False
      then show ?thesis
        using inv w rest Inr r
        by (auto simp: scan_item_def Let_def client_inv_def worker_ok_def waiting_def located_def unanswered_def)
    qed
  qed
qed

lemma remove_each_filter:
  "distinct ps \<Longrightarrow> distinct xs \<Longrightarrow> set ps \<subseteq> set xs \<Longrightarrow>
   remove_each ps xs = Some (filter (\<lambda>x. x \<notin> set ps) xs)"
proof (induction ps arbitrary: xs)
  case (Cons p ps)
  then have "remove_each ps (remove1 p xs) = Some (filter (\<lambda>x. x \<notin> set ps) (remove1 p xs))"
    by (intro Cons.IH) auto
  moreover have "filter (\<lambda>x. x \<notin> set ps) (remove1 p xs) = filter (\<lambda>x. x \<notin> set (p # ps)) xs"
    using Cons.prems by (simp add: distinct_remove1_removeAll removeAll_filter_not_eq) (rule filter_cong; auto)
  ultimately show ?case using Cons.prems by simp
qed simp

lemma end_scan_inv:
  assumes inv: "client_inv s" and w: "worker s = Scanning []"
  shows "client_inv (end_scan s)"
proof -
  have r: "remove_each (processed_requests s) (pending_requests s) = Some (waiting s)"
    using inv by (simp add: remove_each_filter client_inv_def worker_ok_def waiting_def)
  have "distinct (waiting s)" using inv by (simp add: client_inv_def located_def)
  then show ?thesis
    using inv by (simp add: end_scan_def r client_inv_def located_def unanswered_def worker_ok_def waiting_def)
qed

lemma wake_inv:
  "client_inv s \<Longrightarrow> worker s = RateSleep rest \<Longrightarrow> client_inv (maybe_backoff cfg rest s)"
  by (rule maybe_backoff_inv)
    (simp add: client_inv_def located_def unanswered_def worker_ok_def waiting_def)

lemma resume_inv:
  "client_inv s \<Longrightarrow> worker s = BackingOff rest t \<Longrightarrow> client_inv (end_backoff cfg rest s)"
  by (simp add: end_backoff_def client_inv_def located_def unanswered_def worker_ok_def waiting_def)

text \<open>A request that comes back leaves its flight; it is answered, failed or queued again.\<close>

definition landed :: "ClientItem \<Rightarrow> ('s, 'r) Client \<Rightarrow> ('s, 'r) Client" where
  "landed i s = s\<lparr>inflight_requests := remove1 i (inflight_requests s)\<rparr>"

lemma answered_inv:
  assumes inv: "client_inv s" and i: "i \<in> set (inflight_requests s)"
    and t: "same_requests (landed i s) t"
  shows "client_inv (t\<lparr>futures := (futures t)(item_future i \<mapsto> r), thread_exceptions := e\<rparr>)"
proof -
  have loc: "distinct (located s)" "set (located s) = unanswered s" using inv by (simp_all add: client_inv_def)
  have sub: "i \<in> set (submitted s)" "futures s (item_future i) = None"
    using loc(2) i by (auto simp: located_def unanswered_def)
  let ?t = "t\<lparr>futures := (futures t)(item_future i \<mapsto> r), thread_exceptions := e\<rparr>"
  have "unanswered ?t = unanswered s - {i}"
    using sub same_future [OF inv _ sub(1)] t by (auto simp: unanswered_def same_requests_def landed_def)
  moreover have l: "located ?t = request_queue s @ retry_queue s @ waiting s @ remove1 i (inflight_requests s)"
    using t by (simp add: located_def waiting_def same_requests_def landed_def)
  moreover have "distinct (located ?t)" "set (located ?t) = unanswered s - {i}"
    unfolding l using loc i by (auto simp: located_def)
  ultimately show ?thesis
    using inv sub t
    by (auto simp: client_inv_def worker_ok_def waiting_def same_requests_def landed_def)
qed

lemma requeued_inv:
  assumes inv: "client_inv s" and i: "i \<in> set (inflight_requests s)"
  shows "client_inv ((landed i s)\<lparr>retry_queue := retry_queue s @ [i], last_transient_exception_time := t\<rparr>)"
proof -
  let ?s = "(landed i s)\<lparr>retry_queue := retry_queue s @ [i], last_transient_exception_time := t\<rparr>"
  have loc: "distinct (located s)" "set (located s) = unanswered s" using inv by (simp_all add: client_inv_def)
  have l: "located ?s = request_queue s @ (retry_queue s @ [i]) @ waiting s @ remove1 i (inflight_requests s)"
    by (simp add: located_def waiting_def landed_def)
  have "distinct (located ?s)" "set (located ?s) = unanswered s"
    unfolding l using loc i by (auto simp: located_def)
  then show ?thesis
    using inv by (simp add: client_inv_def worker_ok_def waiting_def landed_def unanswered_def)
qed

lemma landed_fields [simp]:
  "futures (landed i s) = futures s" "retry_queue (landed i s) = retry_queue s"
  "clock (landed i s) = clock s" "num_backoffs (landed i s) = num_backoffs s"
  "submitted (landed i s) = submitted s" "thread_exceptions (landed i s) = thread_exceptions s"
  by (simp_all add: landed_def)

lemma process_single_request_landed:
  "process_single_request cfg i out s = handle_response cfg i out (landed i s)"
  by (simp add: process_single_request_def landed_def)

lemma same_fields: "t\<lparr>thread_exceptions := thread_exceptions t\<rparr> = t"
  "t\<lparr>last_transient_exception_time := last_transient_exception_time t\<rparr> = t"
  by simp_all

lemma complete_inv:
  assumes inv: "client_inv s" and i: "i \<in> set (inflight_requests s)"
  shows "client_inv (process_single_request cfg i out s)"
proof -
  have open_future: "futures s (item_future i) = None"
    using inv i by (auto simp: client_inv_def located_def unanswered_def)
  note ans = answered_inv [OF inv i] and req = requeued_inv [OF inv i]
  have fail: "client_inv (register_thread_exception i e (landed i s))" for e
    using ans [OF same_requests_refl, of "(thread_exceptions s)(item_thread i \<mapsto> e)" "Inl e"] open_future
    by (simp add: register_thread_exception_def Let_def)
  show ?thesis
  proof (cases out)
    case (Response r)
    let ?t = "reconcile_response cfg i r (cache_response cfg i r (landed i s))"
    have t: "same_requests (landed i s) ?t"
      by (rule same_requests_trans [OF cache_response_same reconcile_response_same])
    then have "futures ?t (item_future i) = None" using open_future by (simp add: same_requests_def)
    then show ?thesis
      using ans [OF t, of "thread_exceptions ?t" "Inr r"] Response
      by (simp add: process_single_request_landed handle_response_def set_result_def)
  next
    case (TransientException e)
    with fail req show ?thesis by (simp add: process_single_request_landed handle_response_def)
  next
    case TimedOut
    with req [of "last_transient_exception_time s"] show ?thesis
      by (simp add: process_single_request_landed handle_response_def landed_def)
  qed (use fail in \<open>simp_all add: process_single_request_landed handle_response_def\<close>)
qed

lemma step_inv: "client_step cfg k s s' \<Longrightarrow> client_inv s \<Longrightarrow> client_inv s'"
proof (induction rule: client_step.induct)
  case (time_passes s t)
  then show ?case by (simp add: client_inv_def located_def unanswered_def worker_ok_def waiting_def)
qed (auto intro: enqueue_inv fetch_inv scan_inv end_scan_inv wake_inv resume_inv complete_inv)

lemma init_inv: "client_inv (init_client l est t)"
  by (simp add: client_inv_def init_client_def located_def unanswered_def worker_ok_def waiting_def)

lemma reach_inv: "client_reach cfg s0 s \<Longrightarrow> client_inv s0 \<Longrightarrow> client_inv s"
  by (induction rule: client_reach.induct) (auto intro: step_inv)

text \<open>C5. Before shutdown no request is lost or duplicated: in every reachable state the requests
  whose futures are open are, each exactly once, in the request queue, in the retry queue,
  pending and not yet dispatched, or in flight.\<close>

theorem no_request_lost:
  assumes "client_reach cfg (init_client l est t) s"
  shows "distinct (request_queue s @ retry_queue s @ waiting s @ inflight_requests s) \<and>
    set (request_queue s @ retry_queue s @ waiting s @ inflight_requests s) =
      {i \<in> set (submitted s). futures s (item_future i) = None}"
  using reach_inv [OF assms init_inv] by (simp add: client_inv_def located_def unanswered_def)

section \<open>Answers\<close>

definition answers_ok :: "('s, 'r) ClientConfig \<Rightarrow> ('s, 'r) Client \<Rightarrow> bool" where
  "answers_ok cfg s \<longleftrightarrow> (\<forall>i \<in> set (submitted s). \<forall>r.
     futures s (item_future i) = Some (Inr r) \<longrightarrow> may_answer cfg (item_request i) r)"

lemma register_futures:
  "futures (register_thread_exception i e s) f =
     (if f = item_future i \<and> futures s f = None then Some (Inl e) else futures s f)"
  "submitted (register_thread_exception i e s) = submitted s"
  by (auto simp: register_thread_exception_def Let_def)

lemma complete_answers:
  assumes inv: "client_inv s" and i: "i \<in> set (inflight_requests s)"
    and out: "\<And>r. out = Response r \<Longrightarrow> may_answer cfg (item_request i) r"
    and ok: "answers_ok cfg s"
  shows "answers_ok cfg (process_single_request cfg i out s)"
proof -
  have sub: "i \<in> set (submitted s)" "futures s (item_future i) = None"
    using inv i by (auto simp: client_inv_def located_def unanswered_def)
  show ?thesis
  proof (cases out)
    case (Response r)
    let ?t = "reconcile_response cfg i r (cache_response cfg i r (landed i s))"
    have "same_requests (landed i s) ?t"
      by (rule same_requests_trans [OF cache_response_same reconcile_response_same])
    then have "futures ?t = futures s" "submitted ?t = submitted s" by (simp_all add: same_requests_def)
    then show ?thesis
      using ok out [OF Response] same_future [OF inv _ sub(1)] Response
      by (auto simp: answers_ok_def process_single_request_landed handle_response_def set_result_def)
  qed (use ok in \<open>auto simp: answers_ok_def process_single_request_landed handle_response_def register_futures
      split: if_splits\<close>)
qed

lemma step_answers:
  "client_step cfg k s s' \<Longrightarrow> client_inv s \<Longrightarrow> answers_ok cfg s \<Longrightarrow> answers_ok cfg s'"
proof (induction rule: client_step.induct)
  case (enqueue s i)
  then show ?case by (auto simp: answers_ok_def enqueue_request_def client_inv_def)
next
  case (scan s i rest)
  then show ?case
    by (auto simp: answers_ok_def scan_item_def Let_def register_futures maybe_backoff_same
        split: sum.split prod.split bool.split if_splits)
next
  case (complete i s out)
  then show ?case by (intro complete_answers)
qed (auto simp: answers_ok_def get_queued_requests_def Let_def drop_queued_def end_scan_def maybe_backoff_same
    end_backoff_def split: option.split)

text \<open>C22. Responses are attributed to the request they were made for: in every reachable state a
  future that holds a response holds one the provider may give to the request the future was
  made for.\<close>

theorem answers_attributed:
  assumes "client_reach cfg (init_client l est t) s" "i \<in> set (submitted s)"
    and "futures s (item_future i) = Some (Inr r)"
  shows "may_answer cfg (item_request i) r"
proof -
  have "client_inv s \<and> answers_ok cfg s"
    using assms(1)
  proof (induction rule: client_reach.induct)
    case start
    show ?case by (simp add: init_inv answers_ok_def) (simp add: init_client_def)
  qed (auto intro: step_inv step_answers)
  with assms(2,3) show ?thesis by (auto simp: answers_ok_def)
qed

section \<open>The rate limit\<close>

lemma limiter_run_append:
  "limiter_run check settle backoff (a @ b) s =
     (let (s1, g1) = limiter_run check settle backoff a s; (s2, g2) = limiter_run check settle backoff b s1
      in (s2, g1 @ g2))"
  by (induction check settle backoff a s rule: limiter_run.induct)
    (auto simp: Let_def split: prod.splits sum.splits bool.splits)

lemma times_from_append: "times_from t (a @ b) \<longleftrightarrow> times_from t a \<and> times_from (end_time t a) b"
  by (induction t a rule: times_from.induct) auto

lemma end_time_append: "end_time t (a @ b) = end_time (end_time t a) b"
  by (induction t a rule: end_time.induct) auto

text \<open>The history of the strategy replays to its state, and grants exactly what was dispatched.\<close>

definition log_ok :: "('s, 'r) ClientConfig \<Rightarrow> 's \<Rightarrow> real \<Rightarrow> ('s, 'r) Client \<Rightarrow> bool" where
  "log_ok cfg l0 t0 s \<longleftrightarrow>
     limiter_run (check_fn cfg) (settle_fn cfg) (backoff_fn cfg) (limiter_log s) l0 =
       (limiter s, map item_estimate (dispatched s)) \<and>
     times_from t0 (limiter_log s) \<and> end_time t0 (limiter_log s) \<le> clock s \<and>
     list_all op_nonneg (limiter_log s) \<and> (\<forall>i \<in> set (submitted s). est_nonneg (item_estimate i))"

definition usage_nonneg :: "('s, 'r) ClientConfig \<Rightarrow> bool" where
  "usage_nonneg cfg \<longleftrightarrow> (\<forall>r u. response_usage cfg r = Some u \<longrightarrow>
     0 \<le> prompt_tokens u \<and> 0 \<le> completion_tokens u \<and> 0 \<le> thinking_tokens u)"

lemma log_append:
  assumes "log_ok cfg l0 t0 s" "op_time op = clock s" "op_nonneg op"
    and "limiter_run (check_fn cfg) (settle_fn cfg) (backoff_fn cfg) [op] (limiter s) = (l, g)"
    and "limiter_log s' = limiter_log s @ [op]" "limiter s' = l"
      "map item_estimate (dispatched s') = map item_estimate (dispatched s) @ g"
      "clock s' = clock s" "submitted s' = submitted s"
  shows "log_ok cfg l0 t0 s'"
  using assms by (simp add: log_ok_def limiter_run_append times_from_append end_time_append)

definition same_limiter :: "('s, 'r) Client \<Rightarrow> ('s, 'r) Client \<Rightarrow> bool" where
  "same_limiter s s' \<longleftrightarrow> limiter s' = limiter s \<and> limiter_log s' = limiter_log s \<and>
     dispatched s' = dispatched s \<and> clock s' = clock s \<and> submitted s' = submitted s"

lemma log_same: "log_ok cfg l0 t0 s \<Longrightarrow> same_limiter s s' \<Longrightarrow> log_ok cfg l0 t0 s'"
  by (simp add: log_ok_def same_limiter_def)

lemma maybe_backoff_limiter: "same_limiter s (maybe_backoff cfg rest s)"
  by (simp add: same_limiter_def maybe_backoff_def Let_def)

lemma register_limiter: "same_limiter s (register_thread_exception i e s)"
  by (simp add: same_limiter_def register_thread_exception_def Let_def)

lemma scan_log:
  assumes log: "log_ok cfg l0 t0 s" and sub: "i \<in> set (submitted s)"
  shows "log_ok cfg l0 t0 (scan_item cfg i rest s)"
proof -
  let ?op = "Check (item_estimate i) (clock s)"
  have nn: "op_nonneg ?op" using log sub by (simp add: log_ok_def)
  note append = log_append [OF log, of ?op, OF _ nn]
  show ?thesis
  proof (cases "check_fn cfg (item_estimate i) (clock s) (limiter s)")
    case (Inl e)
    show ?thesis
      by (rule append [where g = "[]"]) (simp_all add: Inl scan_item_def Let_def register_thread_exception_def)
  next
    case (Inr r)
    obtain ok l where r: "r = (ok, l)" by (cases r)
    show ?thesis
    proof (cases ok)
      case True
      let ?s1 = "s\<lparr>limiter_log := limiter_log s @ [?op], limiter := l,
        inflight_requests := inflight_requests s @ [i], processed_requests := processed_requests s @ [i],
        dispatched := dispatched s @ [i]\<rparr>"
      have "log_ok cfg l0 t0 ?s1"
        by (rule append) (simp_all add: Inr r True)
      then show ?thesis
        using log_same [OF _ maybe_backoff_limiter] by (simp add: scan_item_def Let_def Inr r True)
    next
      case False
      show ?thesis
        by (rule append) (simp_all add: Inr r False scan_item_def Let_def)
    qed
  qed
qed

lemma reconcile_log:
  assumes log: "log_ok cfg l0 t0 s" and sub: "i \<in> set (submitted s)" and u: "usage_nonneg cfg"
  shows "log_ok cfg l0 t0 (reconcile_response cfg i r s)"
proof (cases "\<exists>resp u k. r = Some resp \<and> response_usage cfg resp = Some u \<and>
    \<not> total_tokens (item_estimate i) \<le> 0 \<and> estimator_key cfg (item_request i) = Inr k")
  case True
  then obtain resp u k where r: "r = Some resp" "response_usage cfg resp = Some u"
    "\<not> total_tokens (item_estimate i) \<le> 0" "estimator_key cfg (item_request i) = Inr k" by blast
  have "op_nonneg (Settle (item_estimate i) (actual_tokens u) (clock s))"
    using log sub u r(2) by (auto simp: log_ok_def usage_nonneg_def actual_tokens_def est_nonneg_def)
  from log_append [OF log _ this] show ?thesis
    by (simp add: reconcile_response_def reconcile_completion_def Let_def r)
next
  case False
  then have "same_limiter s (reconcile_response cfg i r s)"
    by (auto simp: reconcile_response_def reconcile_completion_def Let_def same_limiter_def
        split: option.split sum.split)
  with log show ?thesis by (rule log_same)
qed

lemma complete_log:
  assumes log: "log_ok cfg l0 t0 s" and sub: "i \<in> set (submitted s)" and u: "usage_nonneg cfg"
  shows "log_ok cfg l0 t0 (process_single_request cfg i out s)"
proof (cases out)
  case (Response r)
  let ?t = "cache_response cfg i r (landed i s)"
  have "same_limiter s ?t"
    by (auto simp: same_limiter_def cache_response_def landed_def split: option.split)
  then have "log_ok cfg l0 t0 ?t" "submitted ?t = submitted s"
    using log by (auto intro: log_same simp: same_limiter_def)
  then have "log_ok cfg l0 t0 (reconcile_response cfg i r ?t)"
    using sub u by (intro reconcile_log) simp_all
  then show ?thesis
    by (auto simp: process_single_request_landed handle_response_def Response set_result_def
        elim!: log_same simp: same_limiter_def)
qed (use log in \<open>auto simp: process_single_request_landed handle_response_def landed_def same_limiter_def
    register_thread_exception_def Let_def elim!: log_same\<close>)

lemma step_log:
  "client_step cfg k s s' \<Longrightarrow> client_inv s \<Longrightarrow> usage_nonneg cfg \<Longrightarrow> log_ok cfg l0 t0 s \<Longrightarrow> log_ok cfg l0 t0 s'"
proof (induction rule: client_step.induct)
  case (enqueue s i)
  then show ?case by (simp add: log_ok_def enqueue_request_def)
next
  case (time_passes s t)
  then show ?case by (simp add: log_ok_def)
next
  case (fetch s a b)
  then show ?case
    by (auto simp: get_queued_requests_def drop_queued_def Let_def same_limiter_def elim!: log_same)
next
  case (scan s i rest)
  then have "i \<in> set (submitted s)"
    by (auto simp: client_inv_def worker_ok_def located_def unanswered_def)
  with scan show ?case by (intro scan_log)
next
  case (scanned s)
  then show ?case by (auto simp: end_scan_def same_limiter_def elim!: log_same split: option.split)
next
  case (wake s rest)
  then show ?case by (auto intro: log_same maybe_backoff_limiter)
next
  case (resume s rest t)
  have "log_ok cfg l0 t0 (end_backoff cfg rest s)"
    by (rule log_append [OF resume.prems(3), of "Backoff (clock s)"]) (simp_all add: end_backoff_def)
  then show ?case .
next
  case (complete i s out)
  then show ?case by (intro complete_log) (auto simp: client_inv_def located_def unanswered_def)
qed

lemma reach_log:
  assumes "client_reach cfg (init_client l est t) s" "usage_nonneg cfg"
  shows "log_ok cfg l t s"
  using assms(1)
proof (induction rule: client_reach.induct)
  case start
  show ?case by (simp add: log_ok_def) (simp add: init_client_def)
next
  case (step s k s')
  show ?case
    by (rule step_log [OF step.hyps(2) reach_inv [OF step.hyps(1) init_inv] assms(2) step.IH])
qed

text \<open>C8. The client under the unified strategy: whatever callers, worker and provider do, the
  requests dispatched since the client was made are at most rpm plus rpm per elapsed minute, and
  the tokens they reserved at most one bucket, plus what the rate lets in, plus what settling
  responses refunded.\<close>

theorem client_rate_bound:
  assumes "mk_unified r0 tpm t t = Inr l" "0 \<le> tpm"
    and "check_fn cfg = unified_check" "settle_fn cfg = unified_settle" "backoff_fn cfg = unified_backoff"
    and "usage_nonneg cfg" "client_reach cfg (init_client l est t) s"
  shows "length (dispatched s) \<le> r0 + r0 / 60 * (clock s - t) \<and>
    sum_list (map (total_tokens \<circ> item_estimate) (dispatched s))
      \<le> tpm + tpm / 60 * (clock s - t) + refunds total_tokens (limiter_log s)"
proof -
  have log: "log_ok cfg l t s" by (rule reach_log [OF assms(7,6)])
  let ?e = "end_time t (limiter_log s)"
  have s: "unified_inv l" "u_tokens l = new_bucket tpm t" "u_requests l = new_bucket r0 t"
    using assms(1,2) mk_unified_inv by (auto simp: mk_unified_def split: if_splits)
  have r0: "0 \<le> r0" using s(1,3) by (simp add: unified_inv_def bucket_ok_def new_bucket_def)
  have run: "limiter_run unified_check unified_settle unified_backoff (limiter_log s) l =
      (limiter s, map item_estimate (dispatched s))" "list_all op_nonneg (limiter_log s)"
    "times_from t (limiter_log s)" "?e \<le> clock s"
    using log assms(3-5) by (simp_all add: log_ok_def)
  have "sum_list (map total_tokens (map item_estimate (dispatched s)))
      \<le> tpm + tpm / 60 * (?e - t) + refunds total_tokens (limiter_log s)"
    "length (dispatched s) \<le> r0 + r0 / 60 * (?e - t)"
    using unified_tokens.run_bound [OF s(1) run(2)] unified_requests.run_bound [OF s(1) run(2)]
    by (simp_all add: s run(1,3) sum_ones del: map_map)
  moreover have "r0 / 60 * (?e - t) \<le> r0 / 60 * (clock s - t)" "tpm / 60 * (?e - t) \<le> tpm / 60 * (clock s - t)"
    using run(4) r0 assms(2) by (intro mult_left_mono; simp)+
  ultimately show ?thesis by (simp add: comp_def)
qed

section \<open>Progress\<close>

lemma client_moves:
  assumes inv: "client_inv s" and open_request: "unanswered s \<noteq> {}"
  shows "\<exists>s1 s2 k. client_step cfg Time s s1 \<and> client_step cfg k s1 s2 \<and> (k = WorkerStep \<or> k = Provider)"
proof -
  have now: "client_step cfg Time s s" using client_step.time_passes [of s "clock s" cfg] by simp
  show ?thesis
  proof (cases "worker s")
    case Fetching
    then have "waiting s = []" using inv by (simp add: client_inv_def worker_ok_def waiting_def)
    then have "set (request_queue s @ retry_queue s @ inflight_requests s) = unanswered s"
      using inv by (simp add: client_inv_def located_def)
    with open_request have "request_queue s \<noteq> [] \<or> retry_queue s \<noteq> [] \<or> inflight_requests s \<noteq> []"
      by (cases "request_queue s"; cases "retry_queue s"; cases "inflight_requests s") simp_all
    then consider "request_queue s \<noteq> [] \<or> retry_queue s \<noteq> []" | "inflight_requests s \<noteq> []" by blast
    then show ?thesis
    proof cases
      case 1
      then have "take_queued True True s \<noteq> []"
        by (cases "request_queue s"; cases "retry_queue s") (auto simp: take_queued_def)
      with Fetching inv have "client_step cfg WorkerStep s (get_queued_requests True True s)"
        by (intro client_step.fetch) (simp_all add: client_inv_def)
      with now show ?thesis by blast
    next
      case 2
      then obtain i where "i \<in> set (inflight_requests s)" by (cases "inflight_requests s") auto
      then have "client_step cfg Provider s (process_single_request cfg i TimedOut s)"
        by (intro client_step.complete) auto
      with now show ?thesis by blast
    qed
  next
    case (Scanning rest)
    then show ?thesis
      using now client_step.scan client_step.scanned by (cases rest) blast+
  next
    case (RateSleep rest)
    then show ?thesis using now client_step.wake by blast
  next
    case (BackingOff rest t)
    let ?s1 = "s\<lparr>clock := max t (clock s)\<rparr>"
    have "client_step cfg Time s ?s1" by (rule client_step.time_passes) simp
    moreover have "client_step cfg WorkerStep ?s1 (end_backoff cfg rest ?s1)"
      by (rule client_step.resume [of _ _ t]) (simp_all add: BackingOff)
    ultimately show ?thesis by blast
  next
    case Ended
    with inv show ?thesis by (simp add: client_inv_def worker_ok_def)
  qed
qed

text \<open>C23. The client does not get stuck before shutdown: while a request is unanswered, the worker
  or the provider has a next step, at the latest when a running backoff is over.\<close>

theorem client_progress:
  assumes "client_reach cfg (init_client l est t) s"
    and "i \<in> set (submitted s)" "futures s (item_future i) = None"
  shows "\<exists>s1 s2 k. client_step cfg Time s s1 \<and> client_step cfg k s1 s2 \<and> (k = WorkerStep \<or> k = Provider)"
proof (rule client_moves)
  show "client_inv s" by (rule reach_inv [OF assms(1) init_inv])
  show "unanswered s \<noteq> {}" using assms(2,3) by (auto simp: unanswered_def)
qed

section \<open>Retries and reported exceptions\<close>

lemma register_exceptions:
  "thread_exceptions (register_thread_exception i e s) = (thread_exceptions s)(item_thread i \<mapsto> e)"
  "num_backoffs (register_thread_exception i e s) = num_backoffs s"
  by (simp_all add: register_thread_exception_def Let_def)

definition keeps_failures :: "('s, 'r) Client \<Rightarrow> ('s, 'r) Client \<Rightarrow> bool" where
  "keeps_failures s s' \<longleftrightarrow> num_backoffs s \<le> num_backoffs s' \<and>
     (\<forall>t. thread_exceptions s t \<noteq> None \<longrightarrow> thread_exceptions s' t \<noteq> None)"

lemma maybe_backoff_failures:
  "num_backoffs (maybe_backoff cfg rest s) = num_backoffs s"
  "thread_exceptions (maybe_backoff cfg rest s) = thread_exceptions s"
  by (simp_all add: maybe_backoff_def Let_def)

lemma reconcile_failures:
  "num_backoffs (reconcile_response cfg i r s) = num_backoffs s"
  "thread_exceptions (reconcile_response cfg i r s) = thread_exceptions s"
  by (simp_all add: reconcile_response_def reconcile_completion_def Let_def split: option.split sum.split)

lemma cache_failures:
  "num_backoffs (cache_response cfg i r s) = num_backoffs s"
  "thread_exceptions (cache_response cfg i r s) = thread_exceptions s"
  by (simp_all add: cache_response_def split: option.split)

lemma handle_failures: "keeps_failures s (process_single_request cfg i out s)"
  by (cases out)
    (simp_all add: keeps_failures_def process_single_request_landed handle_response_def register_exceptions
      set_result_def reconcile_failures cache_failures)

lemma step_keeps_failures: "client_step cfg k s s' \<Longrightarrow> keeps_failures s s'"
proof (induction rule: client_step.induct)
  case (complete i s out)
  show ?case by (rule handle_failures)
next
  case (scan s i rest)
  show ?case
    by (simp add: keeps_failures_def scan_item_def Let_def register_exceptions maybe_backoff_failures
        split: sum.split prod.split bool.split)
qed (simp_all add: keeps_failures_def enqueue_request_def get_queued_requests_def Let_def drop_queued_def
    end_scan_def maybe_backoff_failures end_backoff_def split: option.split)

lemma reach_keeps_failures: "client_reach cfg s0 s \<Longrightarrow> keeps_failures s0 s"
proof (induction rule: client_reach.induct)
  case (step s k s')
  from step.IH step_keeps_failures [OF step.hyps(2)] show ?case
    unfolding keeps_failures_def by (meson order_trans)
qed (simp add: keeps_failures_def)

lemma reach_trans: "client_reach cfg s1 s2 \<Longrightarrow> client_reach cfg s0 s1 \<Longrightarrow> client_reach cfg s0 s2"
  by (induction rule: client_reach.induct) (auto intro: client_reach.step)

text \<open>C29. Failures are for the life of the client: an exception reported to a thread stays
  reported, and once the backoffs have reached their maximum, any transient error of any later
  request fails it at once and is reported to its thread.  No success resets either.\<close>

theorem failures_are_permanent:
  assumes "client_reach cfg (init_client l est t) s" "client_reach cfg s s'"
  shows "(thread_exceptions s th \<noteq> None \<longrightarrow> maybe_raise_thread_exception th s' \<noteq> None) \<and>
    (max_backoffs cfg \<le> num_backoffs s \<longrightarrow> i \<in> set (inflight_requests s') \<longrightarrow>
       futures (process_single_request cfg i (TransientException e) s') (item_future i) = Some (Inl PyException) \<and>
       maybe_raise_thread_exception (item_thread i)
         (process_single_request cfg i (TransientException e) s') = Some PyException)"
proof -
  have keep: "keeps_failures s s'" by (rule reach_keeps_failures [OF assms(2)])
  have inv: "client_inv s'" by (rule reach_inv [OF reach_trans [OF assms(2,1)] init_inv])
  have "futures s' (item_future i) = None" if "i \<in> set (inflight_requests s')"
    using inv that by (auto simp: client_inv_def located_def unanswered_def)
  then show ?thesis
    using keep
    by (auto simp: keeps_failures_def maybe_raise_thread_exception_def process_single_request_landed
        handle_response_def register_futures register_exceptions)
qed

text \<open>The backoff times are positive, do not decrease while they are below a minute, and never
  exceed a minute.\<close>

theorem backoff_time_bounds:
  assumes "0 < initial_backoff_seconds cfg" "1 \<le> backoff_factor cfg" "m \<le> n"
  shows "0 < calculate_backoff_time cfg m \<and> calculate_backoff_time cfg m \<le> calculate_backoff_time cfg n \<and>
    calculate_backoff_time cfg n \<le> 60"
proof -
  have "backoff_factor cfg ^ m \<le> backoff_factor cfg ^ n"
    using assms(2,3) by (rule power_increasing [rotated])
  then have "initial_backoff_seconds cfg * backoff_factor cfg ^ m \<le> initial_backoff_seconds cfg * backoff_factor cfg ^ n"
    using assms(1) by (intro mult_left_mono) simp_all
  moreover have "0 < initial_backoff_seconds cfg * backoff_factor cfg ^ m"
    using assms(1,2) by simp
  ultimately show ?thesis
    by (auto simp: calculate_backoff_time_def MINUTE_IN_SECONDS_def)
qed

text \<open>At shutdown a request can be lost: one that the worker takes off the queue together with the
  signal is in no queue when the queues are drained, so its future stays open and its caller
  waits for ever.\<close>

theorem shutdown_can_lose_request:
  assumes "queue_size cfg \<noteq> 0"
  shows "\<exists>s i. client_reach cfg (init_client l est t) s \<and> i \<in> set (submitted s) \<and>
    (let s1 = cancel_in_flight_requests (shutdown_drain (get_queued_requests False True (shutdown_signal s)))
     in futures s1 (item_future i) = None \<and> located s1 = [] \<and> worker s1 = Ended)"
proof -
  define i :: ClientItem where "i = \<lparr>item_request = example_request ''a'', item_future = 0,
    item_estimate = TokenEstimate 1 0, item_fingerprint = None, item_timeout = 1, item_thread = 0\<rparr>"
  let ?start = "init_client l est t :: ('a, 'b) Client"
  let ?s = "enqueue_request i ?start"
  have "client_step cfg Caller ?start ?s"
    by (rule client_step.enqueue) (use assms in \<open>simp_all add: init_client_def i_def est_nonneg_def\<close>)
  then have "client_reach cfg ?start ?s" by (intro client_reach.step [OF client_reach.start [of cfg ?start]])
  moreover have "i \<in> set (submitted ?s)" by (simp add: enqueue_request_def)
  moreover have "let s1 = cancel_in_flight_requests (shutdown_drain (get_queued_requests False True (shutdown_signal ?s)))
     in futures s1 (item_future i) = None \<and> located s1 = [] \<and> worker s1 = Ended"
    by (simp add: enqueue_request_def init_client_def shutdown_signal_def get_queued_requests_def Let_def
        drop_queued_def shutdown_drain_def register_all_exceptions_def cancel_in_flight_requests_def
        located_def waiting_def)
  ultimately show ?thesis by blast
qed

section \<open>A run\<close>

text \<open>One request through the client under the unified strategy: enqueued, taken, dispatched.\<close>

definition example_config :: "(Unified, string) ClientConfig" where
  "example_config = \<lparr>check_fn = unified_check, settle_fn = unified_settle, backoff_fn = unified_backoff,
     queue_size = 100, initial_backoff_seconds = 1, backoff_factor = 2, max_backoffs = 10,
     has_cache = False,
     may_answer = (\<lambda>r resp. case r of Embeddings e \<Rightarrow> resp = Some (doc e) | _ \<Rightarrow> False),
     response_usage = (\<lambda>_. None), client_profile_hash = (\<lambda>_. Inr None)\<rparr>"

definition example_item :: ClientItem where
  "example_item = \<lparr>item_request = example_request ''a'', item_future = 7,
     item_estimate = TokenEstimate 10 5, item_fingerprint = Some ''a'', item_timeout = 120, item_thread = 1\<rparr>"

definition example_limiter :: Unified where
  "example_limiter = (case mk_unified 10 60 0 0 of Inr l \<Rightarrow> l | Inl _ \<Rightarrow> undefined)"

lemma example_limiter: "mk_unified 10 60 0 0 = Inr example_limiter"
  by (simp add: example_limiter_def mk_unified_def)

definition example_start :: "(Unified, string) Client" where
  "example_start = init_client example_limiter (mk_estimator False 1 5 10) 0"

definition example_enqueued :: "(Unified, string) Client" where
  "example_enqueued = enqueue_request example_item example_start"

definition example_taken :: "(Unified, string) Client" where
  "example_taken = get_queued_requests False True example_enqueued"

definition example_dispatched :: "(Unified, string) Client" where
  "example_dispatched = scan_item example_config example_item [] example_taken"

definition example_answered :: "(Unified, string) Client" where
  "example_answered = process_single_request example_config example_item (Response (Some ''a'')) example_dispatched"

lemmas example_client_defs = example_start_def example_enqueued_def example_taken_def init_client_def
  enqueue_request_def get_queued_requests_def drop_queued_def take_queued_def Let_def

lemma example_taken_fields:
  "worker example_taken = Scanning [example_item]" "clock example_taken = 0"
  "limiter example_taken = example_limiter" "inflight_requests example_taken = []"
  "processed_requests example_taken = []" "dispatched example_taken = []"
  "last_transient_exception_time example_taken = 0" "submitted example_taken = [example_item]"
  "futures example_taken = (\<lambda>_. None)"
  by (simp_all add: example_client_defs)

lemma example_check:
  "\<exists>l. unified_check (TokenEstimate 10 5) 0 example_limiter = Inr (True, l)"
proof -
  have "example_limiter = \<lparr>u_rpm = 10, u_tpm = 60, u_requests = new_bucket 10 0, u_tokens = new_bucket 60 0\<rparr>"
    using example_limiter by (simp add: mk_unified_def)
  show ?thesis
    unfolding \<open>example_limiter = _\<close>
    by (simp add: unified_check_def unified_check_max_def new_bucket_def available_def
      set_capacity_def total_tokens_def Let_def)
qed

lemma example_dispatched_fields:
  "dispatched example_dispatched = [example_item]" "inflight_requests example_dispatched = [example_item]"
  "submitted example_dispatched = [example_item]" "clock example_dispatched = 0"
  "futures example_dispatched = (\<lambda>_. None)" "num_backoffs example_dispatched = 0"
proof -
  obtain l where l: "unified_check (TokenEstimate 10 5) 0 example_limiter = Inr (True, l)"
    using example_check by blast
  show "dispatched example_dispatched = [example_item]" "inflight_requests example_dispatched = [example_item]"
    "submitted example_dispatched = [example_item]" "clock example_dispatched = 0"
    "futures example_dispatched = (\<lambda>_. None)" "num_backoffs example_dispatched = 0"
    by (simp_all add: example_dispatched_def scan_item_def example_taken_fields example_config_def
        example_item_def l maybe_backoff_def Let_def)
      (simp_all add: example_client_defs)
qed

lemma example_reach_enqueued: "client_reach example_config example_start example_enqueued"
  unfolding example_enqueued_def
  by (rule client_reach.step [OF client_reach.start client_step.enqueue])
    (simp_all add: example_start_def init_client_def example_config_def example_item_def est_nonneg_def)

lemma example_reach_taken: "client_reach example_config example_start example_taken"
  unfolding example_taken_def
  by (rule client_reach.step [OF example_reach_enqueued client_step.fetch]) (simp_all add: example_client_defs)

lemma example_reach_dispatched: "client_reach example_config example_start example_dispatched"
  unfolding example_dispatched_def
  by (rule client_reach.step [OF example_reach_taken client_step.scan]) (simp add: example_taken_fields)

lemma example_reach_answered: "client_reach example_config example_start example_answered"
  unfolding example_answered_def
  by (rule client_reach.step [OF example_reach_dispatched client_step.complete])
    (simp_all add: example_dispatched_fields, simp add: example_config_def example_item_def example_request_def)

theorem no_request_lost_witness:
  "set (request_queue example_dispatched @ retry_queue example_dispatched @ waiting example_dispatched @
     inflight_requests example_dispatched) = {example_item}"
  using no_request_lost [OF example_reach_dispatched [unfolded example_start_def]]
  by (simp add: example_dispatched_fields)

theorem answers_attributed_witness:
  "may_answer example_config (item_request example_item) (Some ''a'')"
proof (rule answers_attributed [OF example_reach_answered [unfolded example_start_def]])
  show "example_item \<in> set (submitted example_answered)"
    "futures example_answered (item_future example_item) = Some (Inr (Some ''a''))"
    by (simp_all add: example_answered_def process_single_request_landed handle_response_def set_result_def
        reconcile_response_def cache_response_def example_dispatched_fields example_config_def split: option.split)
qed

theorem client_rate_bound_witness:
  "length (dispatched example_dispatched) = 1 \<and>
   real (length (dispatched example_dispatched)) \<le> 10 + 10 / 60 * (clock example_dispatched - 0)"
proof -
  have "usage_nonneg example_config" by (simp add: usage_nonneg_def example_config_def)
  from client_rate_bound [OF example_limiter _ _ _ _ this example_reach_dispatched [unfolded example_start_def]]
  show ?thesis by (simp add: example_config_def example_dispatched_fields)
qed

theorem client_progress_witness:
  "\<exists>s1 s2 k. client_step example_config Time example_dispatched s1 \<and> client_step example_config k s1 s2 \<and>
     (k = WorkerStep \<or> k = Provider)"
  by (rule client_progress [OF example_reach_dispatched [unfolded example_start_def], of example_item])
    (simp_all add: example_dispatched_fields)

theorem failures_are_permanent_witness:
  "\<exists>s. client_reach example_config example_start s \<and> maybe_raise_thread_exception 1 s = Some ExecutionError"
proof -
  let ?s = "process_single_request example_config example_item (FatalException ExecutionError) example_dispatched"
  have "client_step example_config Provider example_dispatched ?s"
    by (rule client_step.complete) (simp_all add: example_dispatched_fields)
  with example_reach_dispatched have r: "client_reach example_config example_start ?s"
    by (rule client_reach.step)
  have e: "thread_exceptions ?s 1 = Some ExecutionError"
    by (simp add: process_single_request_landed handle_response_def register_exceptions example_item_def)
  have "maybe_raise_thread_exception 1 ?s \<noteq> None"
    using failures_are_permanent [OF r [unfolded example_start_def] client_reach.start, of 1] e by simp
  with r e show ?thesis by (auto simp: maybe_raise_thread_exception_def)
qed

end
