(* ===== verification/ResponseCache.thy ===== *)
theory ResponseCache
  imports BatchRequests "HOL-Library.Multiset"
begin

text \<open>
  The response cache (\<^verbatim>\<open>src/fenic/_inference/cache/sqlite_cache.py\<close> and \<^verbatim>\<open>protocol.py\<close>):
  the table \<^verbatim>\<open>llm_responses\<close>, which several caches with their own namespaces may share, the
  operations of one cache on it, its counters and its pool of connections.  SQLite's limit on
  the variables of a statement, the order it gives rows of equal access time, the size of the
  file, the readings of the clock, whether the statements of a call succeed, and the JSON text
  of log probabilities are arguments.  The lemmas show that a cache serves what was last stored
  under a key, and no older than its time to live.
\<close>

section \<open>The table\<close>

record Row =
  row_key :: string
  row_namespace :: string
  row_model :: string
  row_completion :: string
  row_cached_at :: real
  row_last_accessed :: real
  row_access_count :: int
  row_prompt_tokens :: "int option"
  row_completion_tokens :: "int option"
  row_total_tokens :: "int option"
  row_cached_tokens :: int
  row_thinking_tokens :: int
  row_logprobs_data :: "string option"

record CachedResponse =
  cached_completion :: string
  cached_model :: string
  cached_at :: real
  cached_prompt_tokens :: "int option"
  cached_completion_tokens :: "int option"
  cached_total_tokens :: "int option"
  cached_cached_tokens :: int
  cached_thinking_tokens :: int
  cached_logprobs :: "string list option"
  cached_access_count :: int

record CacheConfig =
  ttl_seconds :: real
  max_size_mb :: real
  cache_namespace :: string
  max_variables :: nat
  order_by_last_accessed :: "Row list \<Rightarrow> Row list"

text \<open>The JSON text of log probabilities.\<close>

record Json =
  dumps_logprobs :: "string list \<Rightarrow> string res"
  loads_logprobs :: "string \<Rightarrow> string list"

definition int_or_zero :: "int option \<Rightarrow> int" where
  "int_or_zero x = (case x of None \<Rightarrow> 0 | Some n \<Rightarrow> n)"

definition to_fenic_response :: "CachedResponse \<Rightarrow> FenicCompletionsResponse" where
  "to_fenic_response c =
     \<lparr>completion = cached_completion c, logprobs = cached_logprobs c,
      usage =
        (case cached_prompt_tokens c of
           None \<Rightarrow> None
         | Some p \<Rightarrow> Some
             \<lparr>prompt_tokens = p, completion_tokens = int_or_zero (cached_completion_tokens c),
              total_usage_tokens = int_or_zero (cached_total_tokens c),
              cached_tokens = cached_cached_tokens c, thinking_tokens = cached_thinking_tokens c\<rparr>)\<rparr>"

text \<open>The row of a response; an empty list of log probabilities is not stored.\<close>

definition row_of ::
  "Json \<Rightarrow> CacheConfig \<Rightarrow> real \<Rightarrow> string \<Rightarrow> FenicCompletionsResponse \<Rightarrow> string \<Rightarrow> Row res" where
  "row_of js cfg now key resp model =
     bind_res
       (case logprobs resp of
          None \<Rightarrow> Inr None
        | Some ls \<Rightarrow> if ls = [] then Inr None else bind_res (dumps_logprobs js ls) (\<lambda>t. Inr (Some t)))
       (\<lambda>data. Inr
          \<lparr>row_key = key, row_namespace = cache_namespace cfg, row_model = model,
           row_completion = completion resp, row_cached_at = now, row_last_accessed = now,
           row_access_count = 0,
           row_prompt_tokens = map_option prompt_tokens (usage resp),
           row_completion_tokens = map_option completion_tokens (usage resp),
           row_total_tokens = map_option total_usage_tokens (usage resp),
           row_cached_tokens = (case usage resp of None \<Rightarrow> 0 | Some u \<Rightarrow> cached_tokens u),
           row_thinking_tokens = (case usage resp of None \<Rightarrow> 0 | Some u \<Rightarrow> thinking_tokens u),
           row_logprobs_data = data\<rparr>)"

definition cached_response_of :: "Json \<Rightarrow> Row \<Rightarrow> CachedResponse" where
  "cached_response_of js r =
     \<lparr>cached_completion = row_completion r, cached_model = row_model r, cached_at = row_cached_at r,
      cached_prompt_tokens = row_prompt_tokens r, cached_completion_tokens = row_completion_tokens r,
      cached_total_tokens = row_total_tokens r, cached_cached_tokens = row_cached_tokens r,
      cached_thinking_tokens = row_thinking_tokens r,
      cached_logprobs =
        (case row_logprobs_data r of None \<Rightarrow> None
         | Some t \<Rightarrow> if t = [] then None else Some (loads_logprobs js t)),
      cached_access_count = row_access_count r + 1\<rparr>"

text \<open>INSERT OR REPLACE under the primary key (cache_key, namespace).\<close>

definition same_primary_key :: "Row \<Rightarrow> Row \<Rightarrow> bool" where
  "same_primary_key r r' \<longleftrightarrow> row_key r = row_key r' \<and> row_namespace r = row_namespace r'"

definition insert_or_replace :: "Row \<Rightarrow> Row list \<Rightarrow> Row list" where
  "insert_or_replace r rows = filter (\<lambda>x. \<not> same_primary_key x r) rows @ [r]"

definition live :: "CacheConfig \<Rightarrow> real \<Rightarrow> Row \<Rightarrow> bool" where
  "live cfg now r \<longleftrightarrow> row_namespace r = cache_namespace cfg \<and> now - ttl_seconds cfg < row_cached_at r"

definition touch_rows :: "CacheConfig \<Rightarrow> real \<Rightarrow> string set \<Rightarrow> Row list \<Rightarrow> Row list" where
  "touch_rows cfg now keys rows =
     map (\<lambda>r. if row_key r \<in> keys \<and> row_namespace r = cache_namespace cfg
              then r\<lparr>row_access_count := row_access_count r + 1, row_last_accessed := now\<rparr> else r) rows"

section \<open>Operations\<close>

record Cache =
  table :: "Row list"
  hits :: int
  misses :: int
  stores :: int
  errors :: int
  closed :: bool

definition count_error :: "Cache \<Rightarrow> Cache" where
  "count_error c = c\<lparr>errors := errors c + 1\<rparr>"

text \<open>The connection is taken before any handler is in place: a closed cache raises.\<close>

definition with_connection :: "Cache \<Rightarrow> 'a \<Rightarrow> 'a res" where
  "with_connection c x = (if closed c then Inl PyValueError else Inr x)"

text \<open>\<open>ok\<close>: the statements succeed; \<open>now\<close> and \<open>now'\<close>: the two readings of the clock.\<close>

definition cache_get ::
  "Json \<Rightarrow> CacheConfig \<Rightarrow> bool \<Rightarrow> real \<Rightarrow> real \<Rightarrow> string \<Rightarrow> Cache \<Rightarrow> (CachedResponse option \<times> Cache) res" where
  "cache_get js cfg ok now now' key c = with_connection c
     (if \<not> ok then (None, count_error c)
      else case find (\<lambda>r. row_key r = key \<and> live cfg now r) (table c) of
             None \<Rightarrow> (None, c\<lparr>misses := misses c + 1\<rparr>)
           | Some r \<Rightarrow>
               (Some (cached_response_of js r),
                c\<lparr>table := touch_rows cfg now' {key} (table c), hits := hits c + 1\<rparr>))"

definition cache_get_batch ::
  "Json \<Rightarrow> CacheConfig \<Rightarrow> bool \<Rightarrow> real \<Rightarrow> real \<Rightarrow> string list \<Rightarrow> Cache \<Rightarrow>
     ((string, CachedResponse) dict \<times> Cache) res" where
  "cache_get_batch js cfg ok now now' keys c =
     (if keys = [] then Inr ([], c)
      else with_connection c
        (if \<not> ok \<or> max_variables cfg < length keys + 2 then ([], count_error c)
         else
           (let rows = filter (\<lambda>r. row_key r \<in> set keys \<and> live cfg now r) (table c);
                found = set (map row_key rows)
            in (dict_of (map (\<lambda>r. (row_key r, cached_response_of js r)) rows),
                c\<lparr>table := touch_rows cfg now' found (table c), hits := hits c + card found,
                  misses := misses c + (length keys - card found)\<rparr>))))"

text \<open>Eviction of a tenth of the namespace's keys; the DELETE has no condition on the namespace.\<close>

definition evicted_keys :: "CacheConfig \<Rightarrow> Row list \<Rightarrow> string list" where
  "evicted_keys cfg rows =
     (let own = filter (\<lambda>r. row_namespace r = cache_namespace cfg) rows
      in map row_key (take (max 1 (length own div 10)) (order_by_last_accessed cfg own)))"

definition maybe_evict :: "CacheConfig \<Rightarrow> real \<Rightarrow> Row list \<Rightarrow> Row list" where
  "maybe_evict cfg size_mb rows =
     (if max_size_mb cfg < size_mb
      then filter (\<lambda>r. row_key r \<notin> set (evicted_keys cfg rows)) rows else rows)"

definition cache_set ::
  "Json \<Rightarrow> CacheConfig \<Rightarrow> bool \<Rightarrow> real \<Rightarrow> real \<Rightarrow> string \<Rightarrow> FenicCompletionsResponse \<Rightarrow> string \<Rightarrow> Cache \<Rightarrow>
     (bool \<times> Cache) res" where
  "cache_set js cfg ok size_mb now key resp model c = with_connection c
     (if \<not> ok then (False, count_error c)
      else case row_of js cfg now key resp model of
             Inl e \<Rightarrow> (False, count_error c)
           | Inr r \<Rightarrow>
               (True, c\<lparr>table := maybe_evict cfg size_mb (insert_or_replace r (table c)),
                        stores := stores c + 1\<rparr>))"

text \<open>
  The batch variant calls \<^verbatim>\<open>self._maybe_evict()\<close> without its argument: the TypeError is
  caught and counted after everything is committed, and nothing is ever evicted.
\<close>

definition store_entry ::
  "Json \<Rightarrow> CacheConfig \<Rightarrow> bool \<Rightarrow> real \<Rightarrow> string \<times> FenicCompletionsResponse \<times> string \<Rightarrow> Row list \<times> int \<Rightarrow> Row list \<times> int" where
  "store_entry js cfg ok now entry acc =
     (let (key, resp, model) = entry; (rows, stored) = acc
      in if key = [] then acc
         else if \<not> ok then acc
         else case row_of js cfg now key resp model of
                Inl e \<Rightarrow> acc
              | Inr r \<Rightarrow> (insert_or_replace r rows, stored + 1))"

definition cache_set_batch ::
  "Json \<Rightarrow> CacheConfig \<Rightarrow> bool \<Rightarrow> real \<Rightarrow> (string \<times> FenicCompletionsResponse \<times> string) list \<Rightarrow> Cache \<Rightarrow> (int \<times> Cache) res" where
  "cache_set_batch js cfg ok now entries c =
     (if entries = [] then Inr (0, c)
      else with_connection c
        (let (rows, stored) = fold (store_entry js cfg ok now) entries (table c, 0)
         in (stored, count_error (c\<lparr>table := rows, stores := stores c + stored\<rparr>))))"

definition cache_clear :: "CacheConfig \<Rightarrow> bool \<Rightarrow> Cache \<Rightarrow> (int \<times> Cache) res" where
  "cache_clear cfg ok c = with_connection c
     (if \<not> ok then (0, c)
      else (int (length (filter (\<lambda>r. row_namespace r = cache_namespace cfg) (table c))),
            c\<lparr>table := filter (\<lambda>r. row_namespace r \<noteq> cache_namespace cfg) (table c)\<rparr>))"

record CacheStats =
  stat_hits :: int
  stat_misses :: int
  stat_stores :: int
  stat_errors :: int
  hit_rate :: real
  total_entries :: int

definition cache_stats :: "CacheConfig \<Rightarrow> bool \<Rightarrow> Cache \<Rightarrow> CacheStats res" where
  "cache_stats cfg ok c = with_connection c
     (if \<not> ok then \<lparr>stat_hits = 0, stat_misses = 0, stat_stores = 0, stat_errors = 0, hit_rate = 0, total_entries = 0\<rparr>
      else
        (let total = hits c + misses c
         in \<lparr>stat_hits = hits c, stat_misses = misses c, stat_stores = stores c, stat_errors = errors c,
             hit_rate = (if 0 < total then hits c / total else 0),
             total_entries = length (filter (\<lambda>r. row_namespace r = cache_namespace cfg) (table c))\<rparr>))"

definition cache_close :: "Cache \<Rightarrow> Cache" where
  "cache_close c = c\<lparr>closed := True\<rparr>"

section \<open>Histories\<close>

text \<open>
  Caches over one file: each operation comes with the configuration of the cache that does it.
\<close>

datatype CacheOp =
    Get bool real real string
  | GetBatch bool real real "string list"
  | Put bool real real string FenicCompletionsResponse string
  | PutBatch bool real "(string \<times> FenicCompletionsResponse \<times> string) list"
  | Clear bool

definition fresh_cache :: "Row list \<Rightarrow> Cache" where
  "fresh_cache rows = \<lparr>table = rows, hits = 0, misses = 0, stores = 0, errors = 0, closed = False\<rparr>"

definition table_after :: "('a \<times> Cache) res \<Rightarrow> Row list" where
  "table_after x = (case x of Inl e \<Rightarrow> [] | Inr (_, c) \<Rightarrow> table c)"

fun cache_op :: "Json \<Rightarrow> CacheConfig \<times> CacheOp \<Rightarrow> Row list \<Rightarrow> Row list" where
  "cache_op js (cfg, Get ok t t' k) rows = table_after (cache_get js cfg ok t t' k (fresh_cache rows))"
| "cache_op js (cfg, GetBatch ok t t' ks) rows = table_after (cache_get_batch js cfg ok t t' ks (fresh_cache rows))"
| "cache_op js (cfg, Put ok mb t k r m) rows = table_after (cache_set js cfg ok mb t k r m (fresh_cache rows))"
| "cache_op js (cfg, PutBatch ok t es) rows = table_after (cache_set_batch js cfg ok t es (fresh_cache rows))"
| "cache_op js (cfg, Clear ok) rows = table_after (cache_clear cfg ok (fresh_cache rows))"

text \<open>What a key of a namespace was last given: the time, the response as it is stored, the model.\<close>

type_synonym Stored = "real \<times> FenicCompletionsResponse \<times> string"

definition stored_logprobs :: "Json \<Rightarrow> string list option \<Rightarrow> string list option res" where
  "stored_logprobs js l =
     (case l of
        None \<Rightarrow> Inr None
      | Some ls \<Rightarrow>
          if ls = [] then Inr None
          else bind_res (dumps_logprobs js ls) (\<lambda>t. Inr (if t = [] then None else Some (loads_logprobs js t))))"

definition put_spec ::
  "Json \<Rightarrow> CacheConfig \<Rightarrow> real \<Rightarrow> string \<times> FenicCompletionsResponse \<times> string \<Rightarrow>
     (string \<times> string \<Rightarrow> Stored option) \<Rightarrow> string \<times> string \<Rightarrow> Stored option" where
  "put_spec js cfg t e m =
     (case stored_logprobs js (logprobs (fst (snd e))) of
        Inl _ \<Rightarrow> m
      | Inr l \<Rightarrow> m((fst e, cache_namespace cfg) \<mapsto> (t, (fst (snd e))\<lparr>logprobs := l\<rparr>, snd (snd e))))"

fun op_spec ::
  "Json \<Rightarrow> CacheConfig \<times> CacheOp \<Rightarrow> (string \<times> string \<Rightarrow> Stored option) \<Rightarrow> string \<times> string \<Rightarrow> Stored option" where
  "op_spec js (cfg, Put ok mb t k r m) s = (if ok then put_spec js cfg t (k, r, m) s else s)"
| "op_spec js (cfg, PutBatch ok t es) s =
     (if ok then fold (put_spec js cfg t) (filter (\<lambda>e. fst e \<noteq> []) es) s else s)"
| "op_spec js (cfg, Clear ok) s = (\<lambda>k. if ok \<and> snd k = cache_namespace cfg then None else s k)"
| "op_spec js (cfg, Get ok t t' k) s = s"
| "op_spec js (cfg, GetBatch ok t t' ks) s = s"

definition last_stored :: "Json \<Rightarrow> (CacheConfig \<times> CacheOp) list \<Rightarrow> string \<times> string \<Rightarrow> Stored option" where
  "last_stored js ops = fold (op_spec js) ops (\<lambda>_. None)"

section \<open>Stores that may forget but do not lie\<close>

text \<open>
  The contract of a cache: whatever it holds after an operation is what the specification says
  was last written.
\<close>

locale forgetful_store =
  fixes run :: "'op \<Rightarrow> 'c \<Rightarrow> 'c"
    and spec :: "'op \<Rightarrow> ('k \<Rightarrow> 'v option) \<Rightarrow> 'k \<Rightarrow> 'v option"
    and agrees :: "'c \<Rightarrow> ('k \<Rightarrow> 'v option) \<Rightarrow> bool"
  assumes run_agrees: "agrees c m \<Longrightarrow> agrees (run op c) (spec op m)"
begin

lemma history_agrees: "agrees c m \<Longrightarrow> agrees (fold run ops c) (fold spec ops m)"
  by (induction ops arbitrary: c m) (auto simp: run_agrees)

end

definition row_content :: "Json \<Rightarrow> Row \<Rightarrow> Stored" where
  "row_content js r = (row_cached_at r, to_fenic_response (cached_response_of js r), row_model r)"

definition table_agrees :: "Json \<Rightarrow> Row list \<Rightarrow> (string \<times> string \<Rightarrow> Stored option) \<Rightarrow> bool" where
  "table_agrees js rows m \<longleftrightarrow>
     (\<forall>r \<in> set rows. m (row_key r, row_namespace r) = Some (row_content js r))"

lemma table_agrees_subset: "table_agrees js rows m \<Longrightarrow> set rows' \<subseteq> set rows \<Longrightarrow> table_agrees js rows' m"
  by (auto simp: table_agrees_def)

lemma row_content_access [simp]:
  "row_content js (r\<lparr>row_access_count := n, row_last_accessed := t\<rparr>) = row_content js r"
  by (simp add: row_content_def cached_response_of_def to_fenic_response_def split: option.split)

lemma table_agrees_touch: "table_agrees js rows m \<Longrightarrow> table_agrees js (touch_rows cfg t ks rows) m"
  by (auto simp: table_agrees_def touch_rows_def)

lemma evict_subset: "set (maybe_evict cfg mb rows) \<subseteq> set rows"
  by (auto simp: maybe_evict_def)

lemma row_of_content:
  "row_of js cfg t k resp model = Inr r \<Longrightarrow>
     row_key r = k \<and> row_namespace r = cache_namespace cfg \<and>
     (\<exists>l. stored_logprobs js (logprobs resp) = Inr l \<and> row_content js r = (t, resp\<lparr>logprobs := l\<rparr>, model))"
proof -
  assume r: "row_of js cfg t k resp model = Inr r"
  then obtain data where
    data: "row_logprobs_data r = data"
      "(case logprobs resp of None \<Rightarrow> Inr None
        | Some ls \<Rightarrow> if ls = [] then Inr None else bind_res (dumps_logprobs js ls) (\<lambda>t. Inr (Some t))) = Inr data"
    by (auto simp: row_of_def)
  let ?l = "case data of None \<Rightarrow> None | Some t \<Rightarrow> if t = [] then None else Some (loads_logprobs js t)"
  have l: "stored_logprobs js (logprobs resp) = Inr ?l"
    using data(2) by (auto simp: stored_logprobs_def split: option.splits if_splits)
  have "to_fenic_response (cached_response_of js r) = resp\<lparr>logprobs := ?l\<rparr>"
  proof (cases "usage resp")
    case None
    with r data(1) show ?thesis
      by (cases resp) (auto simp: row_of_def cached_response_of_def to_fenic_response_def)
  next
    case (Some u)
    with r data(1) show ?thesis
      by (cases resp; cases u) (auto simp: row_of_def cached_response_of_def to_fenic_response_def int_or_zero_def)
  qed
  with r l show ?thesis by (auto simp: row_content_def row_of_def)
qed

lemma row_of_fails: "row_of js cfg t k resp model = Inl e \<Longrightarrow> \<exists>e. stored_logprobs js (logprobs resp) = Inl e"
  by (auto simp: row_of_def stored_logprobs_def bind_res_Inl_iff split: option.splits if_splits)

lemma insert_agrees:
  assumes "table_agrees js rows m" and "row_of js cfg t k resp model = Inr r"
  shows "table_agrees js (insert_or_replace r rows) (put_spec js cfg t (k, resp, model) m)"
  using assms(1) row_of_content [OF assms(2)]
  by (auto simp: table_agrees_def insert_or_replace_def put_spec_def same_primary_key_def)

lemma store_entry_cases:
  "store_entry js cfg ok t (k, resp, model) (rows, n) =
     (if k = [] \<or> \<not> ok then (rows, n)
      else case row_of js cfg t k resp model of
             Inl e \<Rightarrow> (rows, n) | Inr r \<Rightarrow> (insert_or_replace r rows, n + 1))"
  by (simp add: store_entry_def)

lemma store_entries_agree:
  "table_agrees js rows m \<Longrightarrow>
     table_agrees js (fst (fold (store_entry js cfg ok t) es (rows, n)))
       (if ok then fold (put_spec js cfg t) (filter (\<lambda>e. fst e \<noteq> []) es) m else m)"
proof (induction es arbitrary: rows m n)
  case (Cons e es)
  obtain k resp model where e: "e = (k, resp, model)" by (cases e)
  show ?case
  proof (cases "k = [] \<or> \<not> ok")
    case True
    with Cons e show ?thesis by (auto simp: store_entry_cases)
  next
    case False
    then show ?thesis
    proof (cases "row_of js cfg t k resp model")
      case (Inl x)
      then have "put_spec js cfg t (k, resp, model) m = m" using row_of_fails by (fastforce simp: put_spec_def)
      with Cons False e Inl show ?thesis by (simp add: store_entry_cases)
    next
      case (Inr r)
      with Cons.IH [OF insert_agrees [OF Cons.prems Inr]] False e show ?thesis by (simp add: store_entry_cases)
    qed
  qed
qed simp

lemma get_agrees:
  "table_agrees js rows m \<Longrightarrow> table_agrees js (cache_op js (cfg, Get ok t t' k) rows) m"
  by (simp add: table_after_def cache_get_def with_connection_def fresh_cache_def count_error_def
      table_agrees_touch split: option.split)

lemma get_batch_agrees:
  "table_agrees js rows m \<Longrightarrow> table_agrees js (cache_op js (cfg, GetBatch ok t t' ks) rows) m"
  by (simp add: table_after_def cache_get_batch_def with_connection_def fresh_cache_def count_error_def Let_def
      table_agrees_touch)

lemma put_agrees:
  assumes "table_agrees js rows m"
  shows "table_agrees js (cache_op js (cfg, Put ok mb t k resp model) rows) (op_spec js (cfg, Put ok mb t k resp model) m)"
proof (cases "row_of js cfg t k resp model")
  case (Inl e)
  then have "put_spec js cfg t (k, resp, model) m = m" using row_of_fails by (fastforce simp: put_spec_def)
  with Inl assms show ?thesis
    by (simp add: table_after_def cache_set_def with_connection_def fresh_cache_def count_error_def)
next
  case (Inr r)
  have "table_agrees js (maybe_evict cfg mb (insert_or_replace r rows)) (put_spec js cfg t (k, resp, model) m)"
    by (rule table_agrees_subset [OF insert_agrees [OF assms Inr] evict_subset])
  with Inr assms show ?thesis
    by (simp add: table_after_def cache_set_def with_connection_def fresh_cache_def count_error_def)
qed

lemma put_batch_agrees:
  "table_agrees js rows m \<Longrightarrow>
     table_agrees js (cache_op js (cfg, PutBatch ok t es) rows) (op_spec js (cfg, PutBatch ok t es) m)"
  using store_entries_agree [of js rows m cfg ok t es 0]
  by (auto simp: table_after_def cache_set_batch_def with_connection_def fresh_cache_def count_error_def
      split: prod.splits)

lemma clear_agrees:
  "table_agrees js rows m \<Longrightarrow> table_agrees js (cache_op js (cfg, Clear ok) rows) (op_spec js (cfg, Clear ok) m)"
  by (auto simp: table_after_def cache_clear_def with_connection_def fresh_cache_def table_agrees_def)

interpretation sqlite: forgetful_store "cache_op js" "op_spec js" "table_agrees js" for js
proof
  fix rows m and op :: "CacheConfig \<times> CacheOp" assume *: "table_agrees js rows m"
  obtain cfg x where op: "op = (cfg, x)" by (cases op)
  show "table_agrees js (cache_op js op rows) (op_spec js op m)"
  proof (cases x)
    case (Get ok t t' k)
    with get_agrees [OF *] op show ?thesis by (simp only: op_spec.simps)
  next
    case (GetBatch ok t t' ks)
    with get_batch_agrees [OF *] op show ?thesis by (simp only: op_spec.simps)
  next
    case (Put ok mb t k r model)
    with put_agrees [OF *] op show ?thesis by (simp only:)
  next
    case (PutBatch ok t es)
    with put_batch_agrees [OF *] op show ?thesis by (simp only:)
  next
    case (Clear ok)
    with clear_agrees [OF *] op show ?thesis by (simp only:)
  qed
qed

section \<open>What is served\<close>

text \<open>The JSON text of log probabilities reads back.\<close>

definition json_ok :: "Json \<Rightarrow> bool" where
  "json_ok js \<longleftrightarrow> (\<forall>ls t. dumps_logprobs js ls = Inr t \<longrightarrow> t \<noteq> [] \<and> loads_logprobs js t = ls)"

definition history :: "Json \<Rightarrow> (CacheConfig \<times> CacheOp) list \<Rightarrow> Row list" where
  "history js ops = fold (cache_op js) ops []"

lemma history_table_agrees: "table_agrees js (history js ops) (last_stored js ops)"
  unfolding history_def last_stored_def by (rule sqlite.history_agrees) (simp add: table_agrees_def)

lemma stored_logprobs_ok:
  "json_ok js \<Longrightarrow> stored_logprobs js l = Inr l' \<Longrightarrow> l' = (if l = Some [] then None else l)"
  by (auto simp: stored_logprobs_def json_ok_def split: option.splits if_splits)

definition well_stored :: "Stored \<Rightarrow> bool" where
  "well_stored v \<longleftrightarrow> logprobs (fst (snd v)) \<noteq> Some []"

lemma get_InrD:
  assumes "cache_get js cfg ok now now' key c = Inr (Some cr, c')"
  obtains r where "r \<in> set (table c)" "row_key r = key" "live cfg now r" "cr = cached_response_of js r"
  using assms
  by (auto simp: cache_get_def with_connection_def find_Some_iff split: if_splits option.splits)
    (metis nth_mem)

lemma get_batch_InrD:
  assumes "cache_get_batch js cfg ok now now' keys c = Inr (found, c')" and "map_of found key = Some cr"
  obtains r where "r \<in> set (table c)" "row_key r = key" "live cfg now r" "key \<in> set keys" "cr = cached_response_of js r"
proof -
  let ?rows = "filter (\<lambda>r. row_key r \<in> set keys \<and> live cfg now r) (table c)"
  have "found = [] \<or> found = dict_of (map (\<lambda>r. (row_key r, cached_response_of js r)) ?rows)"
    using assms(1) by (auto simp: cache_get_batch_def with_connection_def Let_def split: if_splits)
  with assms(2) have "map_of (rev (map (\<lambda>r. (row_key r, cached_response_of js r)) ?rows)) key = Some cr"
    by auto
  then have "(key, cr) \<in> set (map (\<lambda>r. (row_key r, cached_response_of js r)) ?rows)"
    using map_of_SomeD by fastforce
  with that show ?thesis by auto
qed


text \<open>C33. What is stored can be served: after a successful store that does not evict, a lookup of
  the key within the time to live hits and gives the response back; of the log probabilities an
  empty list comes back as none.\<close>

theorem stored_is_served:
  assumes "json_ok js" and "cache_set js cfg True mb t key resp model c = Inr (True, c1)" "mb \<le> max_size_mb cfg"
    and "now - ttl_seconds cfg < t"
  shows "\<exists>cr c2. cache_get js cfg True now now' key c1 = Inr (Some cr, c2) \<and>
    to_fenic_response cr = resp\<lparr>logprobs := (if logprobs resp = Some [] then None else logprobs resp)\<rparr> \<and>
    cached_model cr = model \<and> hits c2 = hits c1 + 1 \<and> errors c2 = errors c"
proof -
  from assms(2,3) obtain r where r: "row_of js cfg t key resp model = Inr r"
    and c1: "c1 = c\<lparr>table := insert_or_replace r (table c), stores := stores c + 1\<rparr>" and opened: "\<not> closed c"
    by (auto simp: cache_set_def with_connection_def maybe_evict_def split: if_splits sum.splits)
  note content = row_of_content [OF r]
  then obtain l where l: "stored_logprobs js (logprobs resp) = Inr l" "row_content js r = (t, resp\<lparr>logprobs := l\<rparr>, model)"
    by blast
  have "resp\<lparr>logprobs := l\<rparr> = resp\<lparr>logprobs := (if logprobs resp = Some [] then None else logprobs resp)\<rparr>"
    by (simp only: stored_logprobs_ok [OF assms(1) l(1)])
  with l(2) have stored: "row_content js r =
      (t, resp\<lparr>logprobs := (if logprobs resp = Some [] then None else logprobs resp)\<rparr>, model)" by simp
  have live: "row_key r = key" "live cfg now r" using content assms(4) by (auto simp: live_def row_content_def)
  have last: "find P (xs @ [x]) = Some x" if "P x" "\<forall>y \<in> set xs. \<not> P y" for P xs and x :: Row
    using that by (induction xs) auto
  have "find (\<lambda>x. row_key x = key \<and> live cfg now x) (table c1) = Some r"
    unfolding c1 insert_or_replace_def using live content by (auto simp: same_primary_key_def live_def intro!: last)
  with live opened stored c1 show ?thesis
    by (simp add: cache_get_def with_connection_def row_content_def) (simp add: cached_response_of_def)
qed


section \<open>Eviction\<close>

text \<open>The documented meaning of ORDER BY last_accessed ASC.\<close>

definition orders_rows :: "CacheConfig \<Rightarrow> bool" where
  "orders_rows cfg \<longleftrightarrow>
     (\<forall>rows. mset (order_by_last_accessed cfg rows) = mset rows \<and>
             sorted (map row_last_accessed (order_by_last_accessed cfg rows)))"

text \<open>Within the namespace the least recently used rows go.\<close>

lemma evicts_least_recent:
  assumes "orders_rows cfg" "max_size_mb cfg < mb"
    and "r \<in> set rows" "row_namespace r = cache_namespace cfg" "r \<notin> set (maybe_evict cfg mb rows)"
    and "r' \<in> set (maybe_evict cfg mb rows)" "row_namespace r' = cache_namespace cfg"
    and "distinct (map (\<lambda>r. (row_key r, row_namespace r)) rows)"
  shows "row_last_accessed r \<le> row_last_accessed r'"
proof -
  let ?own = "filter (\<lambda>r. row_namespace r = cache_namespace cfg) rows"
  let ?o = "order_by_last_accessed cfg ?own"
  let ?n = "max 1 (length ?own div 10)"
  have o: "set ?o = set ?own" "sorted (map row_last_accessed ?o)"
    using assms(1) mset_eq_setD unfolding orders_rows_def by blast+
  have keys: "set (evicted_keys cfg rows) = row_key ` set (take ?n ?o)"
    by (simp add: evicted_keys_def Let_def)
  have "row_key r \<in> row_key ` set (take ?n ?o)"
    using assms(2,3,5) keys by (simp add: maybe_evict_def)
  then obtain x where x: "x \<in> set (take ?n ?o)" "row_key x = row_key r" by auto
  have "x \<in> set ?own" using in_set_takeD [OF x(1)] by (simp only: o(1))
  then have "x = r" using x(2) assms(3,4) inj_onD [of "\<lambda>r. (row_key r, row_namespace r)" "set rows" x r] assms(8)
    by (simp add: distinct_map)
  moreover have "r' \<in> set ?o" unfolding o(1) using assms(2,6,7) by (simp add: maybe_evict_def)
  moreover have "r' \<notin> set (take ?n ?o)" using assms(2,6) keys by (auto simp: maybe_evict_def)
  ultimately have r: "r \<in> set (take ?n ?o)" "r' \<in> set (drop ?n ?o)"
    using x(1) Un_iff [of r' "set (take ?n ?o)" "set (drop ?n ?o)"] set_append [of "take ?n ?o" "drop ?n ?o"]
    by (simp_all only: append_take_drop_id) blast
  have "\<forall>a \<in> set (take ?n ?o). \<forall>b \<in> set (drop ?n ?o). row_last_accessed a \<le> row_last_accessed b"
    using o(2) sorted_append [of "map row_last_accessed (take ?n ?o)" "map row_last_accessed (drop ?n ?o)"]
    unfolding map_append [symmetric] append_take_drop_id by auto
  with r show ?thesis by blast
qed

definition example_cache_config :: "string \<Rightarrow> CacheConfig" where
  "example_cache_config ns =
     \<lparr>ttl_seconds = 3600, max_size_mb = 1, cache_namespace = ns, max_variables = 32766,
      order_by_last_accessed = sort_key row_last_accessed\<rparr>"

definition example_json :: Json where
  "example_json =
     \<lparr>dumps_logprobs = (\<lambda>ls. case ls of [l] \<Rightarrow> Inr (CHR ''.'' # l) | _ \<Rightarrow> Inl PyTypeError),
      loads_logprobs = (\<lambda>t. [tl t])\<rparr>"

definition example_response :: "string \<Rightarrow> FenicCompletionsResponse" where
  "example_response t = \<lparr>completion = t, logprobs = None, usage = None\<rparr>"

lemma example_orders: "orders_rows (example_cache_config ns)"
  by (simp add: orders_rows_def example_cache_config_def)

lemmas example_cache_defs = example_cache_config_def example_json_def example_response_def fresh_cache_def
  cache_set_def with_connection_def row_of_def insert_or_replace_def same_primary_key_def maybe_evict_def
  evicted_keys_def Let_def

text \<open>
  An eviction for one namespace deletes the rows of the same keys of every other namespace, and
  the first entry of a full file is evicted by its own store, which reports success.
\<close>

theorem eviction_crosses_namespaces:
  "\<exists>ops r. r \<in> set (history example_json ops) \<and> row_namespace r = ''b'' \<and>
     r \<notin> set (cache_op example_json
        (example_cache_config ''a'', Put True 2 10 ''k'' (example_response ''x'') ''m'') (history example_json ops))"
proof (intro exI conjI)
  let ?ops = "[(example_cache_config ''b'', Put True 0 5 ''k'' (example_response ''y'') ''m'')]"
  let ?r = "hd (history example_json ?ops)"
  show "?r \<in> set (history example_json ?ops)" "row_namespace ?r = ''b''"
    "?r \<notin> set (cache_op example_json
        (example_cache_config ''a'', Put True 2 10 ''k'' (example_response ''x'') ''m'') (history example_json ?ops))"
    by (simp_all add: history_def table_after_def example_cache_defs)
qed

theorem fresh_entry_evicted:
  "cache_set example_json (example_cache_config ''a'') True 2 10 ''k'' (example_response ''x'') ''m'' (fresh_cache []) =
     Inr (True, (fresh_cache [])\<lparr>stores := 1\<rparr>)"
  by (simp add: example_cache_defs)

text \<open>A batch store counts an error whenever it has entries, and never evicts.\<close>

theorem batch_store_always_errs:
  "entries \<noteq> [] \<Longrightarrow> \<not> closed c \<Longrightarrow>
     \<exists>n c'. cache_set_batch js cfg ok t entries c = Inr (n, c') \<and> errors c' = errors c + 1 \<and> stores c' = stores c + n"
  by (simp add: cache_set_batch_def with_connection_def count_error_def split: prod.split)

text \<open>A response whose log probabilities have no JSON text, as those of the provider's library, is never cached.\<close>

theorem logprobs_not_cached:
  "dumps_logprobs js ls = Inl e \<Longrightarrow> ls \<noteq> [] \<Longrightarrow> logprobs resp = Some ls \<Longrightarrow> \<not> closed c \<Longrightarrow>
     cache_set js cfg ok mb t key resp model c = Inr (False, count_error c)"
  by (simp add: cache_set_def with_connection_def row_of_def)

text \<open>A closed cache raises, although the protocol promises that no method does.\<close>

theorem closed_cache_raises: "cache_get js cfg ok t t' key (cache_close c) = Inl PyValueError"
  by (simp add: cache_get_def with_connection_def cache_close_def)

section \<open>The connection pool\<close>

text \<open>
  The pool under concurrent callers: idle connections, those made so far, those lent to callers,
  and the callers that wait in \<^verbatim>\<open>_pool.get(block=True)\<close>.
\<close>

record Pool =
  max_connections :: nat
  idle :: nat
  initialized_connections :: nat
  lent :: nat
  waiting_callers :: nat
  pool_closed :: bool

definition new_pool :: "nat \<Rightarrow> Pool" where
  "new_pool n = \<lparr>max_connections = n, idle = 0, initialized_connections = 0, lent = 0,
     waiting_callers = 0, pool_closed = False\<rparr>"

definition get_connection :: "Pool \<Rightarrow> Pool res" where
  "get_connection p =
     (if pool_closed p then Inl PyValueError
      else if 0 < idle p then Inr (p\<lparr>idle := idle p - 1, lent := lent p + 1\<rparr>)
      else if initialized_connections p < max_connections p
      then Inr (p\<lparr>initialized_connections := initialized_connections p + 1, lent := lent p + 1\<rparr>)
      else Inr (p\<lparr>waiting_callers := waiting_callers p + 1\<rparr>))"

definition wake_waiting :: "Pool \<Rightarrow> Pool" where
  "wake_waiting p = p\<lparr>idle := idle p - 1, waiting_callers := waiting_callers p - 1, lent := lent p + 1\<rparr>"

definition release_connection :: "Pool \<Rightarrow> Pool" where
  "release_connection p =
     (if pool_closed p then p\<lparr>lent := lent p - 1\<rparr> else p\<lparr>lent := lent p - 1, idle := idle p + 1\<rparr>)"

definition close_pool :: "Pool \<Rightarrow> Pool" where
  "close_pool p = p\<lparr>pool_closed := True, idle := 0\<rparr>"

inductive pool_step :: "Pool \<Rightarrow> Pool \<Rightarrow> bool" where
  "get_connection p = Inr p' \<Longrightarrow> pool_step p p'"
| "0 < waiting_callers p \<Longrightarrow> 0 < idle p \<Longrightarrow> pool_step p (wake_waiting p)"
| "0 < lent p \<Longrightarrow> pool_step p (release_connection p)"
| "pool_step p (close_pool p)"

inductive_cases pool_stepE: "pool_step p p'"

definition pool_inv :: "Pool \<Rightarrow> bool" where
  "pool_inv p \<longleftrightarrow> initialized_connections p \<le> max_connections p \<and>
     idle p + lent p \<le> initialized_connections p \<and>
     (\<not> pool_closed p \<longrightarrow> idle p + lent p = initialized_connections p) \<and>
     (0 < waiting_callers p \<longrightarrow> initialized_connections p = max_connections p)"

lemma pool_step_inv: "pool_step p p' \<Longrightarrow> pool_inv p \<Longrightarrow> pool_inv p'"
  by (erule pool_stepE)
    (auto simp: pool_inv_def get_connection_def wake_waiting_def release_connection_def close_pool_def split: if_splits)

lemma pool_step_closed:
  "pool_step p p' \<Longrightarrow> pool_closed p \<Longrightarrow> idle p = 0 \<Longrightarrow>
     pool_closed p' \<and> idle p' = 0 \<and> waiting_callers p' = waiting_callers p"
  by (erule pool_stepE) (simp_all add: get_connection_def release_connection_def close_pool_def)

lemma pool_step_max: "pool_step p p' \<Longrightarrow> max_connections p' = max_connections p"
  by (erule pool_stepE)
    (auto simp: get_connection_def wake_waiting_def release_connection_def close_pool_def split: if_splits)

text \<open>The connection pool never opens more connections than its maximum, and while it is open
  none is lost: a caller waits only while all of them are lent out or about to be handed over.
  Once it is closed, a caller that waits and finds no idle connection waits for ever.\<close>

theorem pool_bounds:
  assumes "pool_step\<^sup>*\<^sup>* (new_pool n) p"
  shows "idle p + lent p \<le> initialized_connections p \<and> initialized_connections p \<le> n \<and>
    (\<not> pool_closed p \<longrightarrow> 0 < waiting_callers p \<longrightarrow> idle p + lent p = n) \<and>
    (\<forall>p'. pool_closed p \<longrightarrow> idle p = 0 \<longrightarrow> pool_step\<^sup>*\<^sup>* p p' \<longrightarrow> waiting_callers p' = waiting_callers p)"
proof -
  have "pool_inv p \<and> max_connections p = n"
    using assms
  proof induction
    case base
    show ?case by (simp add: pool_inv_def new_pool_def)
  next
    case (step p p')
    with pool_step_inv pool_step_max show ?case by simp
  qed
  then have inv: "pool_inv p" "max_connections p = n" by simp_all
  have stuck: "waiting_callers p' = waiting_callers p" if "pool_closed p" "idle p = 0" "pool_step\<^sup>*\<^sup>* p p'" for p'
  proof -
    from that(3) have "pool_closed p' \<and> idle p' = 0 \<and> waiting_callers p' = waiting_callers p"
    proof induction
      case base
      from that show ?case by simp
    next
      case (step q q')
      from pool_step_closed [OF step(2)] step(3) show ?case by simp
    qed
    then show ?thesis by simp
  qed
  show ?thesis
    using inv unfolding pool_inv_def by (intro conjI allI impI stuck) simp_all
qed

section \<open>Examples\<close>

lemma example_json_ok: "json_ok example_json"
  by (auto simp: json_ok_def example_json_def split: list.splits)

text \<open>One response stored at time 10, and the caches that look it up ten seconds later.\<close>

definition example_ops :: "(CacheConfig \<times> CacheOp) list" where
  "example_ops = [(example_cache_config ''a'', Put True 0 10 ''q'' (example_response ''q'') ''m'')]"

definition example_row :: Row where
  "example_row =
     \<lparr>row_key = ''q'', row_namespace = ''a'', row_model = ''m'', row_completion = ''q'', row_cached_at = 10,
      row_last_accessed = 10, row_access_count = 0, row_prompt_tokens = None, row_completion_tokens = None,
      row_total_tokens = None, row_cached_tokens = 0, row_thinking_tokens = 0, row_logprobs_data = None\<rparr>"

definition example_cached :: CachedResponse where
  "example_cached = cached_response_of example_json example_row"

lemma example_history: "history example_json example_ops = [example_row]"
  by (simp add: history_def example_ops_def table_after_def example_cache_defs example_row_def)

lemma example_live: "row_key example_row = ''q''" "live (example_cache_config ''a'') 20 example_row"
  by (simp_all add: live_def example_row_def example_cache_config_def)

lemma example_cached_response: "to_fenic_response example_cached = example_response ''q''"
  by (simp add: example_cached_def cached_response_of_def example_row_def to_fenic_response_def example_response_def)

lemma example_last_stored:
  "last_stored example_json example_ops k = Some v \<Longrightarrow> k = (''q'', ''a'') \<and> fst (snd v) = example_response ''q''"
  by (auto simp: last_stored_def example_ops_def put_spec_def stored_logprobs_def example_response_def
      example_cache_config_def split: if_splits)


theorem stored_is_served_witness:
  "\<exists>c cr c2. cache_get example_json (example_cache_config ''a'') True 20 20 ''q'' c = Inr (Some cr, c2) \<and>
     to_fenic_response cr = example_response ''q''"
proof -
  have "\<exists>c1. cache_set example_json (example_cache_config ''a'') True 0 10 ''q'' (example_response ''q'') ''m'' (fresh_cache []) =
      Inr (True, c1)"
    by (simp add: example_cache_defs)
  then obtain c1 where c1: "cache_set example_json (example_cache_config ''a'') True 0 10 ''q''
      (example_response ''q'') ''m'' (fresh_cache []) = Inr (True, c1)" ..
  have "0 \<le> max_size_mb (example_cache_config ''a'')" "20 - ttl_seconds (example_cache_config ''a'') < 10"
    by (simp_all add: example_cache_config_def)
  from stored_is_served [OF example_json_ok c1 this, of 20] obtain cr c2 where
    "cache_get example_json (example_cache_config ''a'') True 20 20 ''q'' c1 = Inr (Some cr, c2)"
    "to_fenic_response cr = (example_response ''q'')\<lparr>logprobs := (if logprobs (example_response ''q'') = Some [] then None
       else logprobs (example_response ''q''))\<rparr>"
    by blast
  then show ?thesis by (auto simp: example_response_def)
qed

definition example_prompt :: "string \<Rightarrow> Request" where
  "example_prompt s = Completions \<lparr>
     messages = \<lparr>msg_system = s, msg_examples = [], msg_user = None, msg_user_file = None\<rparr>,
     max_completion_tokens = None, top_logprobs = None, structured_output = None, temperature = Some 0,
     completions_profile = None\<rparr>"

definition prompt_env :: BatchEnv where
  "prompt_env = \<lparr>hashes = \<lparr>sha256_json = (\<lambda>k. case k of CompletionsKey m u (s, _) _ _ _ _ _ _ \<Rightarrow> s | _ \<Rightarrow> ''''),
     sha256_text = (\<lambda>s. s)\<rparr>, client_model = ''m'', base_url = None, profile_hash = (\<lambda>_. Inr None),
     estimate_tokens_for_request = (\<lambda>_. Inr (TokenEstimate 1 0))\<rparr>"

lemma prompt_key:
  "safe_build_request_key prompt_env (Completions c) = Some (msg_system (messages c))"
  by (simp add: safe_build_request_key_def build_request_key_def prompt_env_def compute_request_fingerprint_def
      request_key_data_def encode_messages_def)

definition echo :: "Request \<Rightarrow> FenicCompletionsResponse option \<Rightarrow> bool" where
  "echo r resp \<longleftrightarrow> (\<exists>c. r = Completions c \<and> resp = Some (example_response (msg_system (messages c))))"


theorem pool_bounds_witness: "initialized_connections (release_connection (close_pool (new_pool 3))) \<le> 3"
proof -
  let ?p = "(new_pool 3)\<lparr>initialized_connections := 1, lent := 1\<rparr>"
  let ?q = "release_connection (close_pool ?p)"
  have "get_connection (new_pool 3) = Inr ?p" by (simp add: get_connection_def new_pool_def)
  then have 1: "pool_step (new_pool 3) ?p" by (rule pool_step.intros(1))
  have 2: "pool_step ?p (close_pool ?p)" by (rule pool_step.intros(4))
  have 3: "pool_step (close_pool ?p) ?q"
    by (rule pool_step.intros(3)) (simp add: close_pool_def)
  have "pool_step\<^sup>*\<^sup>* (new_pool 3) ?q"
    by (rule rtranclp.rtrancl_into_rtrancl [OF rtranclp.rtrancl_into_rtrancl [OF r_into_rtranclp [of pool_step, OF 1] 2] 3])
  from pool_bounds [OF this] have "initialized_connections ?q \<le> 3" by (elim conjE)
  then show ?thesis by (simp add: release_connection_def close_pool_def new_pool_def)
qed

end
