(* ===== verification/ProtoSerde.thy ===== *)
theory ProtoSerde
  imports Expressions
begin

text \<open>
  Protobuf messages and the parts the serialization of expressions and plans shares
  (\<^verbatim>\<open>src/fenic/core/_serde/proto/\<close>: \<^verbatim>\<open>datatype_serde.py\<close>, \<^verbatim>\<open>enum_serde.py\<close>,
  \<^verbatim>\<open>errors.py\<close>, \<^verbatim>\<open>serde_context.py\<close>).  A message is the list of its set fields; reading an
  unset field gives the default of its kind, as proto3 does, and the integers are checked
  against the 32 bits their fields have in \<^verbatim>\<open>src/protos/logical_plan/v1\<close>.  The third-party
  and JSON conversions are fields of the environment.  The lemmas are the round trips of data
  types, schemas, enumerations, literals and aliases.
\<close>

section \<open>Messages\<close>

datatype ProtoValue =
    IntV int | BoolV bool | StrV string | RealV real | FloatV string
  | RepV "ProtoValue list" | MsgV "(string \<times> ProtoValue) list"

type_synonym Fields = "(string \<times> ProtoValue) list"

text \<open>A field is smaller than its message, an element smaller than the repeated field.\<close>

lemma size_field:
  "map_of fs n = Some v \<Longrightarrow> size v < size_list (size_prod (\<lambda>x. 0) size) (fs :: Fields)"
  by (induction fs) (auto split: if_splits)

lemma size_repeated: "x \<in> set vs \<Longrightarrow> size x < size (RepV vs)"
  by (induction vs) (auto simp: less_Suc_eq)

definition str_field :: "Fields \<Rightarrow> string \<Rightarrow> string" where
  "str_field fs n = (case map_of fs n of Some (StrV s) \<Rightarrow> s | _ \<Rightarrow> [])"

definition int_field :: "Fields \<Rightarrow> string \<Rightarrow> int" where
  "int_field fs n = (case map_of fs n of Some (IntV i) \<Rightarrow> i | _ \<Rightarrow> 0)"

definition bool_field :: "Fields \<Rightarrow> string \<Rightarrow> bool" where
  "bool_field fs n = (case map_of fs n of Some (BoolV b) \<Rightarrow> b | _ \<Rightarrow> False)"

definition real_field :: "Fields \<Rightarrow> string \<Rightarrow> real" where
  "real_field fs n = (case map_of fs n of Some (RealV x) \<Rightarrow> x | _ \<Rightarrow> 0)"

definition msg_field :: "Fields \<Rightarrow> string \<Rightarrow> Fields" where
  "msg_field fs n = (case map_of fs n of Some (MsgV m) \<Rightarrow> m | _ \<Rightarrow> [])"

definition rep_field :: "Fields \<Rightarrow> string \<Rightarrow> ProtoValue list" where
  "rep_field fs n = (case map_of fs n of Some (RepV vs) \<Rightarrow> vs | _ \<Rightarrow> [])"

definition has_field :: "Fields \<Rightarrow> string \<Rightarrow> bool" where
  "has_field fs n \<longleftrightarrow> map_of fs n \<noteq> None"

lemmas field_defs = str_field_def int_field_def bool_field_def real_field_def msg_field_def
  rep_field_def has_field_def

text \<open>A string, and the strings of a repeated field.\<close>

definition str_values :: "ProtoValue list \<Rightarrow> string list" where
  "str_values vs = map (\<lambda>v. case v of StrV s \<Rightarrow> s | _ \<Rightarrow> []) vs"

lemma str_values_StrV [simp]: "str_values (map StrV ss) = ss"
  by (simp add: str_values_def comp_def)

text \<open>An integer that does not fit its 32 bit field is rejected when the message is built.\<close>

definition int32 :: "int \<Rightarrow> ProtoValue res" where
  "int32 i = (if - 2147483648 \<le> i \<and> i \<le> 2147483647 then Inr (IntV i) else Inl PyValueError)"

definition fits32 :: "int \<Rightarrow> bool" where
  "fits32 i \<longleftrightarrow> - 2147483648 \<le> i \<and> i \<le> 2147483647"

lemma int32_fits: "int32 i = (if fits32 i then Inr (IntV i) else Inl PyValueError)"
  by (simp add: int32_def fits32_def)

text \<open>An optional field is left out when it is None.\<close>

definition opt_field :: "string \<Rightarrow> ProtoValue option \<Rightarrow> Fields" where
  "opt_field n v = (case v of None \<Rightarrow> [] | Some x \<Rightarrow> [(n, x)])"

section \<open>Errors with a path\<close>

text \<open>
  Under a field path an exception that is no serde error becomes a RuntimeError; the calls
  through the context are under a path, a call of the top-level function is not.
\<close>

definition at_path :: "'a res \<Rightarrow> 'a res" where
  "at_path x =
     (case x of Inl e \<Rightarrow> Inl (if isinstance_exn e SerdeError then e else PyRuntimeError) | Inr y \<Rightarrow> Inr y)"

lemma at_path_Inr [simp]: "at_path x = Inr y \<longleftrightarrow> x = Inr y"
  by (cases x) (simp_all add: at_path_def)

lemma at_path_simps [simp]: "at_path (Inr y) = Inr y"
  by (simp add: at_path_def)

section \<open>Data types\<close>

definition unit_type :: "string \<Rightarrow> ProtoValue res" where
  "unit_type n = Inr (MsgV [(n, MsgV [])])"

fun serialize_data_type :: "DataType \<Rightarrow> ProtoValue res" where
  "serialize_data_type StringType = unit_type ''string''"
| "serialize_data_type IntegerType = unit_type ''integer''"
| "serialize_data_type FloatType = unit_type ''float''"
| "serialize_data_type DoubleType = unit_type ''double''"
| "serialize_data_type BooleanType = unit_type ''boolean''"
| "serialize_data_type (ArrayType t) =
     bind_res (at_path (serialize_data_type t)) (\<lambda>p.
       Inr (MsgV [(''array'', MsgV [(''element_type'', p)])]))"
| "serialize_data_type (StructType fs) =
     bind_res (map_res (\<lambda>f. bind_res (at_path (serialize_data_type (sf_type f)))
         (\<lambda>p. Inr (MsgV [(''name'', StrV (sf_name f)), (''data_type'', p)]))) fs)
       (\<lambda>ps. Inr (MsgV [(''struct'', MsgV [(''fields'', RepV ps)])]))"
| "serialize_data_type (EmbeddingType n m) =
     bind_res (int32 n) (\<lambda>p.
       Inr (MsgV [(''embedding'', MsgV [(''dimensions'', p), (''embedding_model'', StrV m)])]))"
| "serialize_data_type (TranscriptType f) = Inr (MsgV [(''transcript'', MsgV [(''format'', StrV f)])])"
| "serialize_data_type (DocumentPathType f) = Inr (MsgV [(''document_path'', MsgV [(''format'', StrV f)])])"
| "serialize_data_type MarkdownType = unit_type ''markdown''"
| "serialize_data_type HtmlType = unit_type ''html''"
| "serialize_data_type JsonType = unit_type ''json''"
| "serialize_data_type DateType = unit_type ''date''"
| "serialize_data_type TimestampType = unit_type ''timestamp''"

definition plain_types :: "(string \<times> DataType) list" where
  "plain_types =
     [(''string'', StringType), (''integer'', IntegerType), (''float'', FloatType),
      (''double'', DoubleType), (''boolean'', BooleanType), (''markdown'', MarkdownType),
      (''html'', HtmlType), (''json'', JsonType), (''date'', DateType), (''timestamp'', TimestampType)]"

text \<open>
  A message without a type is None.  An array or a struct around None, which Python builds and
  nothing can use, is an error here.
\<close>

definition required :: "'a option \<Rightarrow> 'a res" where
  "required x = (case x of None \<Rightarrow> Inl PyAttributeError | Some y \<Rightarrow> Inr y)"

lemma required_simps [simp]: "required (Some y) = Inr y" "required x = Inr y \<longleftrightarrow> x = Some y"
  by (simp_all add: required_def split: option.split)

function (sequential) deserialize_data_type :: "ProtoValue \<Rightarrow> DataType option res" where
  "deserialize_data_type (MsgV []) = Inr None"
| "deserialize_data_type (MsgV ((which, MsgV fs) # rest)) =
     (if which = ''array'' then
        (case map_of fs ''element_type'' of
           None \<Rightarrow> Inl PyAttributeError
         | Some p \<Rightarrow> bind_res (at_path (deserialize_data_type p)) (\<lambda>t.
             bind_res (required t) (\<lambda>t. Inr (Some (ArrayType t)))))
      else if which = ''struct'' then
        (case map_of fs ''fields'' of
           Some (RepV ps) \<Rightarrow>
             bind_res (map_res (\<lambda>p.
               case p of
                 MsgV f \<Rightarrow>
                   (case map_of f ''data_type'' of
                      None \<Rightarrow> Inl PyAttributeError
                    | Some q \<Rightarrow> bind_res (at_path (deserialize_data_type q)) (\<lambda>t.
                        bind_res (required t) (\<lambda>t. Inr (StructField (str_field f ''name'') t))))
               | _ \<Rightarrow> Inl DeserializationError) ps)
             (\<lambda>sfs. Inr (Some (StructType sfs)))
         | _ \<Rightarrow> Inr (Some (StructType [])))
      else if which = ''embedding'' then
        Inr (Some (EmbeddingType (int_field fs ''dimensions'') (str_field fs ''embedding_model'')))
      else if which = ''transcript'' then Inr (Some (TranscriptType (str_field fs ''format'')))
      else if which = ''document_path'' then Inr (Some (DocumentPathType (str_field fs ''format'')))
      else case map_of plain_types which of
             None \<Rightarrow> Inl DeserializationError | Some t \<Rightarrow> Inr (Some t))"
| "deserialize_data_type _ = Inl DeserializationError"
  by pat_completeness auto
termination
proof (relation "measure size", goal_cases)
  case (2 which fs rest v)
  then show ?case using size_field [of fs "''element_type''" v] by simp
next
  case (3 which fs rest v ps p f q)
  then show ?case
    using size_field [of fs "''fields''" v] size_repeated [of p ps] size_field [of f "''data_type''" q] by simp
qed simp

section \<open>Schemas\<close>

definition serialize_fenic_schema :: "Schema \<Rightarrow> ProtoValue res" where
  "serialize_fenic_schema s =
     at_path (bind_res (map_res (\<lambda>f. bind_res (at_path (serialize_data_type (cf_type f)))
        (\<lambda>p. Inr (MsgV [(''name'', StrV (cf_name f)), (''data_type'', p)]))) (column_fields s))
      (\<lambda>ps. Inr (MsgV [(''column_fields'', RepV ps)])))"

definition deserialize_fenic_schema :: "ProtoValue \<Rightarrow> Schema res" where
  "deserialize_fenic_schema p =
     (case p of
        MsgV fs \<Rightarrow>
          at_path (bind_res (map_res (\<lambda>q.
              case q of
                MsgV f \<Rightarrow> bind_res (at_path (deserialize_data_type (MsgV (msg_field f ''data_type'')))) (\<lambda>t.
                  bind_res (required t) (\<lambda>t. Inr (mk_field (str_field f ''name'') t)))
              | _ \<Rightarrow> Inl DeserializationError) (rep_field fs ''column_fields''))
            (\<lambda>cols. Inr (mk_schema cols)))
      | _ \<Rightarrow> Inl DeserializationError)"

section \<open>Enumerations and literals\<close>

text \<open>The values of an enumeration are the positions of its names.\<close>

fun index_of :: "'a \<Rightarrow> 'a list \<Rightarrow> nat option" where
  "index_of x [] = None"
| "index_of x (y # ys) = (if x = y then Some 0 else map_option Suc (index_of x ys))"

definition upper_char :: "char \<Rightarrow> char" where
  "upper_char c = (if 97 \<le> (of_char c :: nat) \<and> (of_char c :: nat) \<le> 122 then char_of (of_char c - (32 :: nat)) else c)"

definition serialize_enum_value :: "string list \<Rightarrow> string \<Rightarrow> ProtoValue res" where
  "serialize_enum_value names v =
     (case index_of v names of None \<Rightarrow> Inl SerializationError | Some i \<Rightarrow> Inr (IntV (int i)))"

definition deserialize_enum_value :: "string list \<Rightarrow> string list \<Rightarrow> int \<Rightarrow> string res" where
  "deserialize_enum_value members names i =
     (if 0 \<le> i \<and> nat i < length names
      then if names ! nat i \<in> set members then Inr (names ! nat i) else Inl DeserializationError
      else Inl DeserializationError)"

definition serialize_python_literal :: "string list \<Rightarrow> string \<Rightarrow> ProtoValue res" where
  "serialize_python_literal names v = serialize_enum_value names (map upper_char v)"

definition deserialize_python_literal :: "string list \<Rightarrow> string list \<Rightarrow> int \<Rightarrow> string res" where
  "deserialize_python_literal literals names i =
     (if 0 \<le> i \<and> nat i < length names
      then let v = map lower_char (names ! nat i)
           in if v \<in> set literals then Inr v else Inl DeserializationError
      else Inl DeserializationError)"

lemma index_of_Some: "x \<in> set xs \<Longrightarrow> \<exists>i < length xs. index_of x xs = Some i \<and> xs ! i = x"
  by (induction xs) auto

lemma enum_roundtrip:
  assumes "v \<in> set names" "v \<in> set members"
  shows "\<exists>i. serialize_enum_value names v = Inr (IntV i) \<and> deserialize_enum_value members names i = Inr v"
  using index_of_Some [OF assms(1)] assms(2)
  by (auto simp: serialize_enum_value_def deserialize_enum_value_def)

text \<open>A literal survives when its upper-case name is in the enumeration and gives it back.\<close>

definition literal_ok :: "string list \<Rightarrow> string list \<Rightarrow> string \<Rightarrow> bool" where
  "literal_ok literals names v \<longleftrightarrow>
     v \<in> set literals \<and> map upper_char v \<in> set names \<and> map lower_char (map upper_char v) = v"

lemma literal_roundtrip:
  assumes "literal_ok literals names v"
  shows "\<exists>i. serialize_python_literal names v = Inr (IntV i) \<and> deserialize_python_literal literals names i = Inr v"
  using assms index_of_Some [of "map upper_char v" names]
  by (auto simp: literal_ok_def serialize_python_literal_def serialize_enum_value_def deserialize_python_literal_def
      simp del: map_map)

section \<open>Values, aliases, classes and formats\<close>

text \<open>
  What is not modelled of a conversion: values that are no None, boolean, integer, float or
  string, the JSON schema of a response format, the parser of templates, and which patterns
  are regular expressions.
\<close>

record SerdeEnv =
  other_to_proto :: "string \<Rightarrow> ProtoValue res"
  other_of_proto :: "ProtoValue \<Rightarrow> PyVal res"
  schema_text :: "ResponseFormat \<Rightarrow> string res"
  prompt_definition :: "ResponseFormat \<Rightarrow> string"
  format_of_schema :: "string \<Rightarrow> DataType option \<Rightarrow> string \<Rightarrow> ResponseFormat res"
  template_ast :: "string \<Rightarrow> JNode res"
  valid_regex :: "string \<Rightarrow> bool"

fun serialize_scalar_value :: "SerdeEnv \<Rightarrow> PyVal \<Rightarrow> ProtoValue res" where
  "serialize_scalar_value env PyNone = Inr (MsgV [])"
| "serialize_scalar_value env (PyStr s) = Inr (MsgV [(''string_value'', StrV s)])"
| "serialize_scalar_value env (PyBool b) = Inr (MsgV [(''bool_value'', BoolV b)])"
| "serialize_scalar_value env (PyInt i) =
     at_path (bind_res (int32 i) (\<lambda>p. Inr (MsgV [(''int_value'', p)])))"
| "serialize_scalar_value env (PyFloat s) = Inr (MsgV [(''double_value'', FloatV s)])"
| "serialize_scalar_value env (PyOther s) = at_path (other_to_proto env s)"

definition deserialize_scalar_value :: "SerdeEnv \<Rightarrow> ProtoValue \<Rightarrow> PyVal res" where
  "deserialize_scalar_value env p =
     (case p of
        MsgV [] \<Rightarrow> Inr PyNone
      | MsgV ((which, v) # rest) \<Rightarrow>
          if which = ''string_value'' then Inr (PyStr (str_field [(which, v)] which))
          else if which = ''int_value'' then Inr (PyInt (int_field [(which, v)] which))
          else if which = ''double_value'' then
            Inr (PyFloat (case v of FloatV s \<Rightarrow> s | _ \<Rightarrow> ''0.0''))
          else if which = ''bool_value'' then Inr (PyBool (bool_field [(which, v)] which))
          else at_path (other_of_proto env p)
      | _ \<Rightarrow> at_path (other_of_proto env p))"

definition serialize_resolved_model_alias :: "ResolvedModelAlias option \<Rightarrow> ProtoValue option" where
  "serialize_resolved_model_alias a =
     (case a of
        None \<Rightarrow> None
      | Some m \<Rightarrow> Some (MsgV ((''name'', StrV (alias_name m)) #
          opt_field ''profile'' (map_option StrV (alias_profile m)))))"

definition deserialize_resolved_model_alias :: "Fields \<Rightarrow> ResolvedModelAlias" where
  "deserialize_resolved_model_alias fs =
     \<lparr>alias_name = str_field fs ''name'',
      alias_profile = (if str_field fs ''profile'' = [] then None else Some (str_field fs ''profile''))\<rparr>"

definition serialize_resolved_class_definition :: "string \<times> string option \<Rightarrow> ProtoValue" where
  "serialize_resolved_class_definition c =
     MsgV ((''label'', StrV (fst c)) # opt_field ''description'' (map_option StrV (snd c)))"

definition deserialize_resolved_class_definition :: "Fields \<Rightarrow> string \<times> string option" where
  "deserialize_resolved_class_definition fs =
     (str_field fs ''label'',
      if str_field fs ''description'' = [] then None else Some (str_field fs ''description''))"

definition serialize_resolved_response_format :: "SerdeEnv \<Rightarrow> ResponseFormat \<Rightarrow> ProtoValue res" where
  "serialize_resolved_response_format env r = at_path
     (bind_res (schema_text env r) (\<lambda>t.
      bind_res (at_path (serialize_data_type (rf_struct_type r))) (\<lambda>d.
        Inr (MsgV [(''schema'', StrV t), (''struct_type'', d),
                   (''prompt_schema_definition'', StrV (prompt_definition env r))]))))"

definition deserialize_resolved_response_format :: "SerdeEnv \<Rightarrow> Fields \<Rightarrow> ResponseFormat res" where
  "deserialize_resolved_response_format env fs = at_path
     (bind_res (at_path (deserialize_data_type (MsgV (msg_field fs ''struct_type'')))) (\<lambda>d.
        format_of_schema env (str_field fs ''schema'') d (str_field fs ''prompt_schema_definition'')))"

section \<open>Round trips\<close>

text \<open>The dimensions of an embedding type must fit their field.\<close>

fun type_fits :: "DataType \<Rightarrow> bool" where
  "type_fits (ArrayType t) = type_fits t"
| "type_fits (StructType fs) = list_all (\<lambda>f. type_fits (sf_type f)) fs"
| "type_fits (EmbeddingType n m) = fits32 n"
| "type_fits _ = True"

lemma list_all2_map_res: "list_all2 (\<lambda>x y. f x = Inr y) xs ys \<Longrightarrow> map_res f xs = Inr ys"
  by (simp add: map_res_Inr_iff)

text \<open>Two loops in a row: what the first writes the second reads back.\<close>

lemma map_res_roundtrip:
  assumes "\<And>x. x \<in> set xs \<Longrightarrow> \<exists>p. f x = Inr p \<and> g p = Inr x"
  shows "\<exists>ps. map_res f xs = Inr ps \<and> map_res g ps = Inr xs"
  using assms
proof (induction xs)
  case (Cons x xs)
  then obtain p ps where "f x = Inr p" "g p = Inr x" "map_res f xs = Inr ps" "map_res g ps = Inr xs"
    by (metis list.set_intros)
  then show ?case by (intro exI [of _ "p # ps"]) simp
qed simp

lemma data_type_message:
  "serialize_data_type t = Inr p \<Longrightarrow> \<exists>n m. p = MsgV [(n, MsgV m)]"
  by (cases t) (auto simp: unit_type_def)

lemma data_type_roundtrip_lemma:
  assumes "type_fits t"
  shows "\<exists>p. serialize_data_type t = Inr p \<and> deserialize_data_type p = Inr (Some t)"
  using assms
proof (induction t rule: DataType_induct)
  case (Prim d)
  then show ?case
    by (cases d) (simp_all add: unit_type_def plain_types_def int32_fits str_field_def int_field_def)
next
  case (Array t)
  then obtain p where "serialize_data_type t = Inr p" "deserialize_data_type p = Inr (Some t)" by auto
  then show ?case by simp
next
  case (Struct fs)
  let ?w = "\<lambda>f. bind_res (at_path (serialize_data_type (sf_type f)))
      (\<lambda>p. Inr (MsgV [(''name'', StrV (sf_name f)), (''data_type'', p)]))"
  let ?r = "\<lambda>p. case p of
       MsgV f \<Rightarrow>
         (case map_of f ''data_type'' of
            None \<Rightarrow> Inl PyAttributeError
          | Some q \<Rightarrow> bind_res (at_path (deserialize_data_type q)) (\<lambda>t.
              bind_res (required t) (\<lambda>t. Inr (StructField (str_field f ''name'') t))))
     | _ \<Rightarrow> Inl DeserializationError"
  have "\<exists>ps. map_res ?w fs = Inr ps \<and> map_res ?r ps = Inr fs"
  proof (rule map_res_roundtrip)
    fix f assume f: "f \<in> set fs"
    then have "type_fits (sf_type f)" using Struct.prems by (simp add: list_all_iff)
    from Struct.IH [OF f this] obtain p where
      "serialize_data_type (sf_type f) = Inr p" "deserialize_data_type p = Inr (Some (sf_type f))" by auto
    then show "\<exists>p. ?w f = Inr p \<and> ?r p = Inr f"
      by (cases f) (simp add: str_field_def)
  qed
  then show ?case by (auto simp: rep_field_def)
qed

text \<open>Data types survive the protobuf message: every type whose embedding dimensions fit 32 bits
  is written, and read back as itself.\<close>

theorem data_type_roundtrip:
  assumes "type_fits t"
  shows "\<exists>p. serialize_data_type t = Inr p \<and> deserialize_data_type p = Inr (Some t)"
  using assms by (rule data_type_roundtrip_lemma)

theorem data_type_roundtrip_witness:
  "\<exists>p. serialize_data_type (ArrayType (StructType [StructField ''e'' (EmbeddingType 3 ''m'')])) = Inr p \<and>
     deserialize_data_type p = Inr (Some (ArrayType (StructType [StructField ''e'' (EmbeddingType 3 ''m'')])))"
  by (rule data_type_roundtrip) (simp add: fits32_def)

theorem schema_roundtrip:
  assumes "\<forall>f \<in> set (column_fields s). type_fits (cf_type f)"
  shows "\<exists>p. serialize_fenic_schema s = Inr p \<and> deserialize_fenic_schema p = Inr s"
proof -
  let ?w = "\<lambda>f. bind_res (at_path (serialize_data_type (cf_type f)))
        (\<lambda>p. Inr (MsgV [(''name'', StrV (cf_name f)), (''data_type'', p)]))"
  let ?r = "\<lambda>q. case q of
                MsgV f \<Rightarrow> bind_res (at_path (deserialize_data_type (MsgV (msg_field f ''data_type'')))) (\<lambda>t.
                  bind_res (required t) (\<lambda>t. Inr (mk_field (str_field f ''name'') t)))
              | _ \<Rightarrow> Inl DeserializationError"
  have "\<exists>ps. map_res ?w (column_fields s) = Inr ps \<and> map_res ?r ps = Inr (column_fields s)"
  proof (rule map_res_roundtrip)
    fix f assume "f \<in> set (column_fields s)"
    with assms data_type_roundtrip_lemma obtain p where
      p: "serialize_data_type (cf_type f) = Inr p" "deserialize_data_type p = Inr (Some (cf_type f))" by blast
    with data_type_message [OF p(1)] show "\<exists>p. ?w f = Inr p \<and> ?r p = Inr f"
      by (cases f) (auto simp: msg_field_def str_field_def mk_field_def)
  qed
  then show ?thesis
    by (auto simp: serialize_fenic_schema_def deserialize_fenic_schema_def rep_field_def)
qed

lemma alias_roundtrip:
  assumes "alias_profile m \<noteq> Some []"
  shows "\<exists>fs. serialize_resolved_model_alias (Some m) = Some (MsgV fs) \<and> deserialize_resolved_model_alias fs = m"
  using assms
  by (cases m; cases "alias_profile m")
    (auto simp: serialize_resolved_model_alias_def deserialize_resolved_model_alias_def opt_field_def str_field_def)

lemma class_roundtrip:
  assumes "snd c \<noteq> Some []"
  shows "\<exists>fs. serialize_resolved_class_definition c = MsgV fs \<and> deserialize_resolved_class_definition fs = c"
  using assms
  by (cases c; cases "snd c")
    (auto simp: serialize_resolved_class_definition_def deserialize_resolved_class_definition_def opt_field_def str_field_def)

text \<open>A value whose integer fits its field; other values as the environment converts them.\<close>

definition scalar_ok :: "SerdeEnv \<Rightarrow> PyVal \<Rightarrow> bool" where
  "scalar_ok env v =
     (case v of
        PyInt i \<Rightarrow> fits32 i
      | PyOther s \<Rightarrow>
          (\<exists>n x. other_to_proto env s = Inr (MsgV [(n, x)]) \<and>
             n \<notin> {''string_value'', ''int_value'', ''double_value'', ''bool_value''} \<and>
             other_of_proto env (MsgV [(n, x)]) = Inr v)
      | _ \<Rightarrow> True)"

lemma scalar_roundtrip:
  assumes "scalar_ok env v"
  shows "\<exists>fs. serialize_scalar_value env v = Inr (MsgV fs) \<and> deserialize_scalar_value env (MsgV fs) = Inr v"
  using assms
  by (cases v)
    (auto simp: scalar_ok_def deserialize_scalar_value_def int32_fits str_field_def int_field_def bool_field_def)

text \<open>
  A response format whose schema has a text, from which a format of the same fingerprint and
  struct type is made.
\<close>

definition format_ok :: "SerdeEnv \<Rightarrow> ResponseFormat \<Rightarrow> bool" where
  "format_ok env r \<longleftrightarrow> type_fits (rf_struct_type r) \<and>
     (\<exists>t. schema_text env r = Inr t \<and>
        format_of_schema env t (Some (rf_struct_type r)) (prompt_definition env r) = Inr r)"

lemma format_roundtrip:
  assumes "format_ok env r"
  shows "\<exists>fs. serialize_resolved_response_format env r = Inr (MsgV fs) \<and>
    deserialize_resolved_response_format env fs = Inr r"
proof -
  from assms obtain t where t: "schema_text env r = Inr t"
    "format_of_schema env t (Some (rf_struct_type r)) (prompt_definition env r) = Inr r"
    and fits: "type_fits (rf_struct_type r)" by (auto simp: format_ok_def)
  from data_type_roundtrip_lemma [OF fits] obtain p where
    p: "serialize_data_type (rf_struct_type r) = Inr p" "deserialize_data_type p = Inr (Some (rf_struct_type r))" by blast
  with data_type_message [OF p(1)] t show ?thesis
    by (auto simp: serialize_resolved_response_format_def deserialize_resolved_response_format_def
        str_field_def msg_field_def)
qed

end
