(* ===== verification/ExprSerde.thy ===== *)
theory ExprSerde
  imports ProtoSerde
begin

text \<open>
  The serialization of expressions (\<^verbatim>\<open>src/fenic/core/_serde/proto/expression_serde.py\<close> and the
  modules of \<^verbatim>\<open>expressions/\<close>).  A writer gives the message of an expression from the messages of
  its children; a reader, found by the name of the field that is set, makes the expression
  again through the constructor of its class.  A child that is missing from a message, where
  Python would build a node around None, is an error here; and where several parts fail at
  once the children's error is reported first.  The lemmas show that reading back what was
  written gives an equal expression, and what is lost on the way.
\<close>

section \<open>Messages of expressions\<close>

definition lep :: "string \<Rightarrow> Fields \<Rightarrow> ProtoValue" where
  "lep which fs = MsgV [(which, MsgV fs)]"

text \<open>Where the children go: one field each, or one repeated field.\<close>

datatype Kids = One "string list" | Many string

fun kid_fields :: "Kids \<Rightarrow> ProtoValue list \<Rightarrow> Fields" where
  "kid_fields (One ns) ps = zip ns ps"
| "kid_fields (Many n) ps = [(n, RepV ps)]"

subsection \<open>Functions: basic, aggregate, array, JSON, markdown, embedding\<close>

fun basic_message :: "FnClass \<Rightarrow> (string \<times> Kids) option" where
  "basic_message ArrayExpr = Some (''array'', Many ''exprs'')"
| "basic_message StructExpr = Some (''struct'', Many ''exprs'')"
| "basic_message CoalesceExpr = Some (''coalesce'', Many ''exprs'')"
| "basic_message FlattenExpr = Some (''flatten'', One [''expr''])"
| "basic_message GreatestExpr = Some (''greatest'', Many ''exprs'')"
| "basic_message LeastExpr = Some (''least'', Many ''exprs'')"
| "basic_message _ = None"

fun aggregate_message :: "FnClass \<Rightarrow> (string \<times> Kids) option" where
  "aggregate_message SumExpr = Some (''sum'', One [''expr''])"
| "aggregate_message AvgExpr = Some (''avg'', One [''expr''])"
| "aggregate_message MinExpr = Some (''min'', One [''expr''])"
| "aggregate_message MaxExpr = Some (''max'', One [''expr''])"
| "aggregate_message CountExpr = Some (''count'', One [''expr''])"
| "aggregate_message ListExpr = Some (''list'', One [''expr''])"
| "aggregate_message FirstExpr = Some (''first'', One [''expr''])"
| "aggregate_message StdDevExpr = Some (''std_dev'', One [''expr''])"
| "aggregate_message (CountDistinctExpr _) = Some (''count_distinct'', Many ''exprs'')"
| "aggregate_message ApproxCountDistinctExpr = Some (''approx_count_distinct'', One [''expr''])"
| "aggregate_message SumDistinctExpr = Some (''sum_distinct'', One [''expr''])"
| "aggregate_message _ = None"

fun array_message :: "FnClass \<Rightarrow> (string \<times> Kids) option" where
  "array_message ArrayLengthExpr = Some (''array_length'', One [''expr''])"
| "array_message ArrayDistinctExpr = Some (''array_distinct'', One [''expr''])"
| "array_message ArrayContainsExpr = Some (''array_contains'', One [''expr'', ''other''])"
| "array_message ArrayMaxExpr = Some (''array_max'', One [''expr''])"
| "array_message ArrayMinExpr = Some (''array_min'', One [''expr''])"
| "array_message ArraySortExpr = Some (''array_sort'', One [''expr''])"
| "array_message ArrayReverseExpr = Some (''array_reverse'', One [''expr''])"
| "array_message ArrayRemoveExpr = Some (''array_remove'', One [''expr'', ''element''])"
| "array_message ArrayUnionExpr = Some (''array_union'', One [''left'', ''right''])"
| "array_message ArrayIntersectExpr = Some (''array_intersect'', One [''left'', ''right''])"
| "array_message ArrayExceptExpr = Some (''array_except'', One [''left'', ''right''])"
| "array_message ArrayCompactExpr = Some (''array_compact'', One [''expr''])"
| "array_message ArrayRepeatExpr = Some (''array_repeat'', One [''element'', ''count''])"
| "array_message ArraySliceExpr = Some (''array_slice'', One [''expr'', ''start'', ''length''])"
| "array_message ElementAtExpr = Some (''element_at'', One [''expr'', ''index''])"
| "array_message ArraysOverlapExpr = Some (''arrays_overlap'', One [''left'', ''right''])"
| "array_message _ = None"

fun json_message :: "FnClass \<Rightarrow> (string \<times> Kids) option" where
  "json_message (JqExpr _) = Some (''jq'', One [''expr''])"
| "json_message JsonTypeExpr = Some (''json_type'', One [''expr''])"
| "json_message (JsonContainsExpr _) = Some (''json_contains'', One [''expr''])"
| "json_message _ = None"

fun markdown_message :: "FnClass \<Rightarrow> (string \<times> Kids) option" where
  "markdown_message MdToJsonExpr = Some (''md_to_json'', One [''expr''])"
| "markdown_message (MdGetCodeBlocksExpr _) = Some (''md_get_code_blocks'', One [''expr''])"
| "markdown_message (MdGenerateTocExpr _) = Some (''md_generate_toc'', One [''expr''])"
| "markdown_message (MdExtractHeaderChunks _) = Some (''md_extract_header_chunks'', One [''expr''])"
| "markdown_message _ = None"

fun embedding_message :: "FnClass \<Rightarrow> (string \<times> Kids) option" where
  "embedding_message EmbeddingNormalizeExpr = Some (''embedding_normalize'', One [''expr''])"
| "embedding_message (EmbeddingSimilarityExpr _ _) = Some (''embedding_similarity'', One [''expr'', ''other_expr''])"
| "embedding_message _ = None"

subsection \<open>Text\<close>

fun text_message :: "TextFn \<Rightarrow> string \<times> Kids" where
  "text_message (TextractExpr _ _) = (''textract'', One [''input_expr''])"
| "text_message (TextChunkExpr _) = (''text_chunk'', One [''expr''])"
| "text_message (RecursiveTextChunkExpr _) = (''recursive_text_chunk'', One [''input_expr''])"
| "text_message CountTokensExpr = (''count_tokens'', One [''input_expr''])"
| "text_message ConcatExpr = (''concat'', Many ''exprs'')"
| "text_message (ArrayJoinExpr _) = (''array_join'', One [''expr''])"
| "text_message ContainsExpr = (''contains'', One [''expr'', ''substr''])"
| "text_message (ContainsAnyExpr _ _) = (''contains_any'', One [''expr''])"
| "text_message RLikeExpr = (''rlike'', One [''expr'', ''pattern''])"
| "text_message LikeExpr = (''like'', One [''expr'', ''pattern''])"
| "text_message ILikeExpr = (''ilike'', One [''expr'', ''pattern''])"
| "text_message (TsParseExpr _) = (''ts_parse'', One [''expr''])"
| "text_message StartsWithExpr = (''starts_with'', One [''expr'', ''substr''])"
| "text_message EndsWithExpr = (''ends_with'', One [''expr'', ''substr''])"
| "text_message (RegexpSplitExpr _ _) = (''regexp_split'', One [''expr''])"
| "text_message RegexpCountExpr = (''regexp_count'', One [''expr'', ''pattern''])"
| "text_message (RegexpExtractExpr _) = (''regexp_extract'', One [''expr'', ''pattern''])"
| "text_message RegexpExtractAllExpr = (''regexp_extract_all'', One [''expr'', ''pattern'', ''idx''])"
| "text_message RegexpInstrExpr = (''regexp_instr'', One [''expr'', ''pattern'', ''idx''])"
| "text_message RegexpSubstrExpr = (''regexp_substr'', One [''expr'', ''pattern''])"
| "text_message SplitPartExpr = (''split_part'', One [''expr'', ''delimiter'', ''part_number''])"
| "text_message (StringCasingExpr _) = (''string_casing'', One [''expr''])"
| "text_message (StripCharsExpr _) = (''strip_chars'', One [''expr'', ''chars''])"
| "text_message (ReplaceExpr _) = (''replace'', One [''expr'', ''search'', ''replacement''])"
| "text_message StrLengthExpr = (''str_length'', One [''expr''])"
| "text_message ByteLengthExpr = (''byte_length'', One [''expr''])"
| "text_message (FuzzyRatioExpr _) = (''fuzzy_ratio'', One [''expr'', ''other''])"
| "text_message (FuzzyTokenSortRatioExpr _) = (''fuzzy_token_sort_ratio'', One [''expr'', ''other''])"
| "text_message (FuzzyTokenSetRatioExpr _) = (''fuzzy_token_set_ratio'', One [''expr'', ''other''])"

text \<open>The enumerations of the protos, and the literals of the types they stand for.\<close>

definition chunk_length_functions :: "string list" where
  "chunk_length_functions = [''CHARACTER'', ''WORD'', ''TOKEN'']"

definition chunk_character_sets :: "string list" where
  "chunk_character_sets = [''CUSTOM'', ''ASCII'', ''UNICODE'']"

definition transcript_format_names :: "string list" where
  "transcript_format_names = [''SRT'', ''GENERIC'', ''WEBVTT'']"

definition transcript_formats :: "string list" where
  "transcript_formats = [''srt'', ''generic'', ''webvtt'']"

definition casing_names :: "string list" where
  "casing_names = [''LOWER'', ''UPPER'', ''TITLE'']"

definition casings :: "string list" where
  "casings = [''lower'', ''upper'', ''title'']"

definition strip_side_names :: "string list" where
  "strip_side_names = [''LEFT'', ''RIGHT'', ''BOTH'']"

definition strip_sides :: "string list" where
  "strip_sides = [''left'', ''right'', ''both'']"

definition fuzzy_method_names :: "string list" where
  "fuzzy_method_names =
     [''INDEL'', ''LEVENSHTEIN'', ''DAMERAU_LEVENSHTEIN'', ''JARO_WINKLER'', ''JARO'', ''HAMMING'']"

definition fuzzy_methods :: "string list" where
  "fuzzy_methods =
     [''indel'', ''levenshtein'', ''damerau_levenshtein'', ''jaro_winkler'', ''jaro'', ''hamming'']"

definition literal_attr :: "string \<Rightarrow> string list \<Rightarrow> string \<Rightarrow> Fields res" where
  "literal_attr n names v = bind_res (at_path (serialize_python_literal names v)) (\<lambda>p. Inr [(n, p)])"

definition chunk_configuration_fields :: "('a) TextChunkConfig_scheme \<Rightarrow> Fields res" where
  "chunk_configuration_fields c =
     bind_res (int32 (desired_chunk_size c)) (\<lambda>sz.
     bind_res (int32 (chunk_overlap_percentage c)) (\<lambda>ov.
     bind_res (at_path (serialize_enum_value chunk_length_functions
         (length_function_name (chunk_length_function_name c)))) (\<lambda>fn.
       Inr [(''desired_chunk_size'', sz), (''chunk_overlap_percentage'', ov), (''chunk_length_function_name'', fn)])))"

definition recursive_chunk_configuration_fields :: "RecursiveTextChunkConfig \<Rightarrow> Fields res" where
  "recursive_chunk_configuration_fields c =
     bind_res (chunk_configuration_fields c) (\<lambda>fs.
     bind_res (at_path (serialize_enum_value chunk_character_sets
         (character_set_name (chunking_character_set_name c)))) (\<lambda>cs.
       Inr (fs @ (''chunking_character_set_name'', cs) #
         opt_field ''chunking_character_set_custom_characters''
           (map_option (\<lambda>xs. RepV (map StrV xs)) (chunking_character_set_custom_characters c)))))"

text \<open>The index of \<open>RegexpExtractExpr\<close> is a Python integer, but it is serialized as an expression.\<close>

fun text_attributes :: "TextFn \<Rightarrow> Fields res" where
  "text_attributes (TextractExpr t _) = Inr [(''template'', StrV t)]"
| "text_attributes (TextChunkExpr c) =
     bind_res (chunk_configuration_fields c) (\<lambda>fs. Inr [(''configuration'', MsgV fs)])"
| "text_attributes (RecursiveTextChunkExpr c) =
     bind_res (recursive_chunk_configuration_fields c) (\<lambda>fs. Inr [(''configuration'', MsgV fs)])"
| "text_attributes (ArrayJoinExpr d) = Inr [(''delimiter'', StrV d)]"
| "text_attributes (ContainsAnyExpr ss ci) =
     Inr [(''substrs'', RepV (map StrV ss)), (''case_insensitive'', BoolV ci)]"
| "text_attributes (TsParseExpr f) = literal_attr ''format'' transcript_format_names f"
| "text_attributes (RegexpSplitExpr pat l) =
     bind_res (int32 l) (\<lambda>p. Inr [(''pattern'', StrV pat), (''limit'', p)])"
| "text_attributes (RegexpExtractExpr _) = at_path (Inl SerializationError)"
| "text_attributes (StringCasingExpr c) = literal_attr ''case'' casing_names c"
| "text_attributes (StripCharsExpr s) = literal_attr ''side'' strip_side_names s"
| "text_attributes (ReplaceExpr l) = Inr [(''literal'', BoolV l)]"
| "text_attributes (FuzzyRatioExpr m) = literal_attr ''method'' fuzzy_method_names m"
| "text_attributes (FuzzyTokenSortRatioExpr m) = literal_attr ''method'' fuzzy_method_names m"
| "text_attributes (FuzzyTokenSetRatioExpr m) = literal_attr ''method'' fuzzy_method_names m"
| "text_attributes _ = Inr []"

text \<open>
  The attributes of the other functions.  The data type of a query vector is put into a string
  field as an object, which the message rejects.
\<close>

fun fn_attributes :: "FnClass \<Rightarrow> Fields res" where
  "fn_attributes (JqExpr q) = Inr [(''query'', StrV q)]"
| "fn_attributes (JsonContainsExpr v) = Inr [(''value'', StrV v)]"
| "fn_attributes (MdGetCodeBlocksExpr l) = Inr (opt_field ''language_filter'' (map_option StrV l))"
| "fn_attributes (MdGenerateTocExpr n) = bind_res (int32 n) (\<lambda>p. Inr [(''max_level'', p)])"
| "fn_attributes (MdExtractHeaderChunks n) = bind_res (int32 n) (\<lambda>p. Inr [(''header_level'', p)])"
| "fn_attributes (EmbeddingSimilarityExpr m v) =
     (case v of None \<Rightarrow> Inr [(''metric'', StrV m)] | Some _ \<Rightarrow> at_path (Inl PyTypeError))"
| "fn_attributes (TextExpr f) = text_attributes f"
| "fn_attributes _ = Inr []"

definition fn_message :: "FnClass \<Rightarrow> (string \<times> Kids) option" where
  "fn_message f =
     (case f of
        TextExpr t \<Rightarrow> Some (text_message t)
      | _ \<Rightarrow>
          (case basic_message f of Some m \<Rightarrow> Some m | None \<Rightarrow>
          (case aggregate_message f of Some m \<Rightarrow> Some m | None \<Rightarrow>
          (case array_message f of Some m \<Rightarrow> Some m | None \<Rightarrow>
          (case json_message f of Some m \<Rightarrow> Some m | None \<Rightarrow>
          (case markdown_message f of Some m \<Rightarrow> Some m | None \<Rightarrow> embedding_message f))))))"

definition serialize_function :: "FnClass \<Rightarrow> ProtoValue list \<Rightarrow> ProtoValue res" where
  "serialize_function f ps =
     (case fn_message f of
        None \<Rightarrow> Inl SerializationError
      | Some (which, kids) \<Rightarrow>
          bind_res (fn_attributes f) (\<lambda>attrs. Inr (lep which (kid_fields kids ps @ attrs))))"

subsection \<open>Dates\<close>

fun dt_message :: "DtFn \<Rightarrow> string \<times> string list" where
  "dt_message YearExpr = (''year'', [''expr''])"
| "dt_message MonthExpr = (''month'', [''expr''])"
| "dt_message DayExpr = (''day'', [''expr''])"
| "dt_message HourExpr = (''hour'', [''expr''])"
| "dt_message MinuteExpr = (''minute'', [''expr''])"
| "dt_message SecondExpr = (''second'', [''expr''])"
| "dt_message MilliSecondExpr = (''millisecond'', [''expr''])"
| "dt_message (ToDateExpr _ _) = (''to_date'', [''expr''])"
| "dt_message (ToTimestampExpr _ _) = (''to_timestamp'', [''expr''])"
| "dt_message (NowExpr _) = (''now'', [])"
| "dt_message (DateTruncExpr _ _) = (''date_trunc'', [''expr''])"
| "dt_message (DateAddExpr _) = (''date_add'', [''expr'', ''days''])"
| "dt_message (TimestampAddExpr _ _) = (''timestamp_add'', [''expr'', ''quantity''])"
| "dt_message (DateFormatExpr _ _) = (''date_format'', [''expr''])"
| "dt_message DateDiffExpr = (''date_diff'', [''start'', ''end''])"
| "dt_message (TimestampDiffExpr _) = (''timestamp_diff'', [''start'', ''end''])"
| "dt_message (ToUTCTimestampExpr _) = (''to_utc_timestamp'', [''expr''])"
| "dt_message (FromUTCTimestampExpr _) = (''from_utc_timestamp'', [''expr''])"

fun dt_attributes :: "DtFn \<Rightarrow> Fields" where
  "dt_attributes (ToDateExpr f _) = opt_field ''format'' (map_option StrV f)"
| "dt_attributes (ToTimestampExpr f _) = opt_field ''format'' (map_option StrV f)"
| "dt_attributes (NowExpr b) = [(''as_date'', BoolV b)]"
| "dt_attributes (DateTruncExpr u _) = [(''unit'', StrV u)]"
| "dt_attributes (DateAddExpr s) = [(''sub'', BoolV s)]"
| "dt_attributes (TimestampAddExpr u _) = [(''unit'', StrV u)]"
| "dt_attributes (DateFormatExpr f _) = [(''format'', StrV f)]"
| "dt_attributes (TimestampDiffExpr u) = [(''unit'', StrV u)]"
| "dt_attributes (ToUTCTimestampExpr z) = [(''timezone'', StrV z)]"
| "dt_attributes (FromUTCTimestampExpr z) = [(''timezone'', StrV z)]"
| "dt_attributes _ = []"

definition serialize_date :: "DtFn \<Rightarrow> ProtoValue list \<Rightarrow> ProtoValue" where
  "serialize_date f ps = lep (fst (dt_message f)) (zip (snd (dt_message f)) ps @ dt_attributes f)"

subsection \<open>Semantic operators\<close>

text \<open>No message has a field for the request timeout, nor that of PDF parsing for the output limit.\<close>

definition alias_attr :: "ResolvedModelAlias option \<Rightarrow> Fields" where
  "alias_attr a = opt_field ''model_alias'' (serialize_resolved_model_alias a)"

definition format_attr :: "SerdeEnv \<Rightarrow> ResponseFormat option \<Rightarrow> Fields res" where
  "format_attr env r =
     (case r of
        None \<Rightarrow> Inr []
      | Some f \<Rightarrow> bind_res (serialize_resolved_response_format env f) (\<lambda>p. Inr [(''response_format'', p)]))"

fun summary_format_field :: "SummaryFormat \<Rightarrow> ProtoValue res" where
  "summary_format_field (KeyPoints n) =
     bind_res (int32 n) (\<lambda>p. Inr (MsgV [(''key_points'', MsgV [(''max_points'', p)])]))"
| "summary_format_field (Paragraph n) =
     bind_res (int32 n) (\<lambda>p. Inr (MsgV [(''paragraph'', MsgV [(''max_words'', p)])]))"

fun serialize_semantic :: "SerdeEnv \<Rightarrow> SemFn \<Rightarrow> ProtoValue list \<Rightarrow> ProtoValue res" where
  "serialize_semantic env (SemanticMapExpr t strict _ m te a r _) ps =
     bind_res (format_attr env r) (\<lambda>fmt. bind_res (int32 m) (\<lambda>mt.
       Inr (lep ''semantic_map''
         ([(''template'', StrV t), (''strict'', BoolV strict), (''exprs'', RepV ps), (''max_tokens'', mt),
           (''temperature'', RealV te)] @ alias_attr a @ fmt))))"
| "serialize_semantic env (SemanticExtractExpr m te r a _) ps =
     bind_res (format_attr env (Some r)) (\<lambda>fmt. bind_res (int32 m) (\<lambda>mt.
       Inr (lep ''semantic_extract''
         (zip [''expr''] ps @ [(''max_tokens'', mt), (''temperature'', RealV te)] @ alias_attr a @ fmt))))"
| "serialize_semantic env (SemanticPredExpr t strict _ te a _) ps =
     Inr (lep ''semantic_pred''
       ([(''template'', StrV t), (''strict'', BoolV strict), (''exprs'', RepV ps), (''temperature'', RealV te)] @
        alias_attr a))"
| "serialize_semantic env (SemanticReduceExpr i _ names m te a _) ps =
     bind_res (int32 m) (\<lambda>mt.
       Inr (lep ''semantic_reduce''
         (zip [''input_expr''] ps @
          [(''instruction'', StrV i), (''group_context_exprs'', RepV (take (length names) (tl ps))),
           (''order_by_exprs'', RepV (drop (length names) (tl ps))), (''max_tokens'', mt),
           (''temperature'', RealV te)] @ alias_attr a)))"
| "serialize_semantic env (SemanticClassifyExpr cs te a _) ps =
     Inr (lep ''semantic_classify''
       (zip [''expr''] ps @ [(''classes'', RepV (map serialize_resolved_class_definition cs)),
         (''temperature'', RealV te)] @ alias_attr a))"
| "serialize_semantic env (AnalyzeSentimentExpr te a _) ps =
     Inr (lep ''analyze_sentiment'' (zip [''expr''] ps @ [(''temperature'', RealV te)] @ alias_attr a))"
| "serialize_semantic env (EmbeddingsExpr a) ps =
     Inr (lep ''embeddings'' (zip [''expr''] ps @ alias_attr a))"
| "serialize_semantic env (SemanticSummarizeExpr f te a _) ps =
     bind_res (summary_format_field f) (\<lambda>fp.
       Inr (lep ''semantic_summarize''
         (zip [''expr''] ps @ [(''format'', fp), (''temperature'', RealV te)] @ alias_attr a)))"
| "serialize_semantic env (SemanticParsePDFExpr a sep describe _ _) ps =
     Inr (lep ''semantic_parse_pdf''
       (zip [''expr''] ps @ alias_attr a @ opt_field ''page_separator'' (map_option StrV sep) @
        [(''describe_images'', BoolV describe)]))"

subsection \<open>Binary and basic expressions\<close>

definition operators :: "(string \<times> Operator) list" where
  "operators =
     [(''EQ'', EQ), (''NOT_EQ'', NOT_EQ), (''LT'', LT), (''LTEQ'', LTEQ), (''GT'', GT), (''GTEQ'', GTEQ),
      (''PLUS'', PLUS), (''MINUS'', MINUS), (''MULTIPLY'', MULTIPLY), (''DIVIDE'', DIVIDE),
      (''AND'', AND), (''OR'', OR)]"

fun operator_name :: "Operator \<Rightarrow> string" where
  "operator_name EQ = ''EQ''" | "operator_name NOT_EQ = ''NOT_EQ''" | "operator_name LT = ''LT''"
| "operator_name LTEQ = ''LTEQ''" | "operator_name GT = ''GT''" | "operator_name GTEQ = ''GTEQ''"
| "operator_name PLUS = ''PLUS''" | "operator_name MINUS = ''MINUS''"
| "operator_name MULTIPLY = ''MULTIPLY''" | "operator_name DIVIDE = ''DIVIDE''"
| "operator_name AND = ''AND''" | "operator_name OR = ''OR''"

fun binary_message :: "BinaryClass \<Rightarrow> string" where
  "binary_message ArithmeticExpr = ''arithmetic''"
| "binary_message BooleanExpr = ''boolean''"
| "binary_message NumericComparisonExpr = ''numeric_comparison''"
| "binary_message EqualityComparisonExpr = ''equality_comparison''"

definition serialize_binary :: "BinaryClass \<Rightarrow> Operator \<Rightarrow> ProtoValue list \<Rightarrow> ProtoValue res" where
  "serialize_binary c op ps =
     bind_res (at_path (serialize_enum_value (map fst operators) (operator_name op))) (\<lambda>oper.
       Inr (lep (binary_message c) (zip [''left'', ''right''] ps @ [(''operator'', oper)])))"

text \<open>A case without a preceding case writes an empty message for it.\<close>

definition serialize_when :: "LogicalExpr option \<Rightarrow> ProtoValue list \<Rightarrow> ProtoValue" where
  "serialize_when e ps =
     lep ''when'' (zip [''expr'', ''condition'', ''value''] (case e of None \<Rightarrow> MsgV [] # ps | Some _ \<Rightarrow> ps))"

fun serialize_node :: "SerdeEnv \<Rightarrow> LogicalExpr \<Rightarrow> ProtoValue list \<Rightarrow> ProtoValue res" where
  "serialize_node env (ColumnExpr n) ps = Inr (lep ''column'' [(''name'', StrV n)])"
| "serialize_node env (LiteralExpr v d) ps =
     bind_res (serialize_scalar_value env v) (\<lambda>p.
     bind_res (at_path (serialize_data_type d)) (\<lambda>t.
       Inr (lep ''literal'' [(''value'', p), (''data_type'', t)])))"
| "serialize_node env (UnresolvedLiteralExpr d n) ps =
     bind_res (at_path (serialize_data_type d)) (\<lambda>t.
       Inr (lep ''unresolved_literal'' [(''parameter_name'', StrV n), (''data_type'', t)]))"
| "serialize_node env (AliasExpr _ n) ps = Inr (lep ''alias'' (zip [''expr''] ps @ [(''name'', StrV n)]))"
| "serialize_node env (SortExpr _ asc nlast) ps =
     Inr (lep ''sort'' (zip [''expr''] ps @ [(''ascending'', BoolV asc), (''nulls_last'', BoolV nlast)]))"
| "serialize_node env (IndexExpr _ _) ps = Inr (lep ''index'' (zip [''expr'', ''index''] ps))"
| "serialize_node env (UDFExpr _ _ _) ps = Inl UnsupportedTypeError"
| "serialize_node env (AsyncUDFExpr _ _ _ _ _ _) ps = Inl UnsupportedTypeError"
| "serialize_node env (IsNullExpr _ b) ps = Inr (lep ''is_null'' (zip [''expr''] ps @ [(''is_null'', BoolV b)]))"
| "serialize_node env (CastExpr _ d) ps =
     bind_res (at_path (serialize_data_type d)) (\<lambda>t.
       Inr (lep ''cast'' (zip [''expr''] ps @ [(''dest_type'', t)])))"
| "serialize_node env (NotExpr _) ps = Inr (lep ''not_expr'' (zip [''expr''] ps))"
| "serialize_node env (InExpr _ _) ps = Inr (lep ''in_expr'' (zip [''expr'', ''other''] ps))"
| "serialize_node env (BinaryExpr c _ _ op) ps = serialize_binary c op ps"
| "serialize_node env (WhenExpr e _ _) ps = Inr (serialize_when e ps)"
| "serialize_node env (OtherwiseExpr _ _) ps = Inr (lep ''otherwise'' (zip [''expr'', ''value''] ps))"
| "serialize_node env (FunctionExpr f _) ps = serialize_function f ps"
| "serialize_node env (SemanticExpr f _) ps = serialize_semantic env f ps"
| "serialize_node env (DateTimeExpr f _) ps = Inr (serialize_date f ps)"
| "serialize_node env (JinjaExpr t strict _ _) ps =
     Inr (lep ''jinja'' [(''exprs'', RepV ps), (''template'', StrV t), (''strict'', BoolV strict)])"

text \<open>The user functions are rejected before their arguments are looked at.\<close>

definition is_udf :: "LogicalExpr \<Rightarrow> bool" where
  "is_udf e = (case e of UDFExpr _ _ _ \<Rightarrow> True | AsyncUDFExpr _ _ _ _ _ _ \<Rightarrow> True | _ \<Rightarrow> False)"

fun serialize_logical_expr :: "SerdeEnv \<Rightarrow> LogicalExpr \<Rightarrow> ProtoValue res" where
  "serialize_logical_expr env e =
     (if is_udf e then Inl UnsupportedTypeError
      else bind_res (map_res (\<lambda>c. at_path (serialize_logical_expr env c)) (expr_children e)) (serialize_node env e))"

declare serialize_logical_expr.simps [simp del]

section \<open>Readers\<close>

text \<open>What a reader has at hand: the fields, and the expressions of a field and of a repeated field.\<close>

record Reader =
  r_fields :: Fields
  r_expr :: "string \<Rightarrow> LogicalExpr option res"
  r_exprs :: "string \<Rightarrow> LogicalExpr list res"

definition child :: "Reader \<Rightarrow> string \<Rightarrow> LogicalExpr res" where
  "child r n = bind_res (r_expr r n) required"

text \<open>Expressions that are their children and nothing else, or functions of them.\<close>

definition read_kids :: "Kids \<Rightarrow> Reader \<Rightarrow> LogicalExpr list res" where
  "read_kids k r = (case k of One ns \<Rightarrow> map_res (child r) ns | Many n \<Rightarrow> r_exprs r n)"

definition plain :: "FnClass \<Rightarrow> Kids \<Rightarrow> Reader \<Rightarrow> LogicalExpr res" where
  "plain f k r = bind_res (read_kids k r) (\<lambda>es. Inr (FunctionExpr f es))"

definition text_plain :: "TextFn \<Rightarrow> Kids \<Rightarrow> Reader \<Rightarrow> LogicalExpr res" where
  "text_plain f k r = plain (TextExpr f) k r"

definition unary :: "(LogicalExpr \<Rightarrow> LogicalExpr res) \<Rightarrow> string \<Rightarrow> Reader \<Rightarrow> LogicalExpr res" where
  "unary mk n r = bind_res (child r n) mk"

definition binary :: "(LogicalExpr \<Rightarrow> LogicalExpr \<Rightarrow> LogicalExpr res) \<Rightarrow> string \<Rightarrow> string \<Rightarrow> Reader \<Rightarrow> LogicalExpr res" where
  "binary mk n m r = bind_res (child r n) (\<lambda>a. bind_res (child r m) (mk a))"

type_synonym ReaderTable = "(string \<times> (Reader \<Rightarrow> LogicalExpr res)) list"

definition read_type :: "Reader \<Rightarrow> string \<Rightarrow> DataType res" where
  "read_type r n = bind_res (at_path (deserialize_data_type (MsgV (msg_field (r_fields r) n)))) required"

definition value_readers :: "SerdeEnv \<Rightarrow> ReaderTable" where
  "value_readers env =
     [(''column'', \<lambda>r. Inr (ColumnExpr (str_field (r_fields r) ''name''))),
      (''literal'', \<lambda>r.
         bind_res (at_path (deserialize_scalar_value env (MsgV (msg_field (r_fields r) ''value'')))) (\<lambda>v.
         bind_res (read_type r ''data_type'') (\<lambda>t. Inr (LiteralExpr v t))))]"

definition reference_readers :: ReaderTable where
  "reference_readers =
     [(''unresolved_literal'', \<lambda>r. bind_res (read_type r ''data_type'') (\<lambda>t.
         Inr (UnresolvedLiteralExpr t (str_field (r_fields r) ''parameter_name'')))),
      (''alias'', \<lambda>r. unary (\<lambda>e. Inr (AliasExpr e (str_field (r_fields r) ''name''))) ''expr'' r),
      (''array'', plain ArrayExpr (Many ''exprs'')),
      (''not_expr'', unary (\<lambda>e. Inr (NotExpr e)) ''expr''),
      (''sort'', \<lambda>r. unary (\<lambda>e. Inr (SortExpr e (bool_field (r_fields r) ''ascending'')
          (bool_field (r_fields r) ''nulls_last''))) ''expr'' r)]"

definition access_readers :: ReaderTable where
  "access_readers =
     [(''index'', binary (\<lambda>e i. Inr (IndexExpr e i)) ''expr'' ''index''),
      (''struct'', plain StructExpr (Many ''exprs'')),
      (''cast'', \<lambda>r. unary (\<lambda>e. bind_res (read_type r ''dest_type'') (\<lambda>t. Inr (CastExpr e t))) ''expr'' r),
      (''coalesce'', plain CoalesceExpr (Many ''exprs''))]"

definition test_readers :: ReaderTable where
  "test_readers =
     [(''in_expr'', binary (\<lambda>e i. Inr (InExpr e i)) ''expr'' ''other''),
      (''is_null'', \<lambda>r. unary (\<lambda>e. Inr (IsNullExpr e (bool_field (r_fields r) ''is_null''))) ''expr'' r),
      (''flatten'', plain FlattenExpr (One [''expr''])),
      (''greatest'', plain GreatestExpr (Many ''exprs'')),
      (''least'', plain LeastExpr (Many ''exprs''))]"

definition basic_readers :: "SerdeEnv \<Rightarrow> ReaderTable" where
  "basic_readers env = value_readers env @ reference_readers @ access_readers @ test_readers"

lemmas basic_readers_defs = basic_readers_def value_readers_def reference_readers_def access_readers_def test_readers_def

definition read_binary :: "BinaryClass \<Rightarrow> Reader \<Rightarrow> LogicalExpr res" where
  "read_binary c r = binary (\<lambda>a b.
     bind_res (at_path (deserialize_enum_value (map fst operators) (map fst operators)
         (int_field (r_fields r) ''operator''))) (\<lambda>n.
       case map_of operators n of None \<Rightarrow> Inl DeserializationError | Some op \<Rightarrow> Inr (BinaryExpr c a b op)))
     ''left'' ''right'' r"

definition binary_readers :: ReaderTable where
  "binary_readers =
     [(''arithmetic'', read_binary ArithmeticExpr), (''boolean'', read_binary BooleanExpr),
      (''numeric_comparison'', read_binary NumericComparisonExpr),
      (''equality_comparison'', read_binary EqualityComparisonExpr)]"

definition case_readers :: ReaderTable where
  "case_readers =
     [(''when'', \<lambda>r. bind_res (r_expr r ''expr'') (\<lambda>e. binary (mk_when e) ''condition'' ''value'' r)),
      (''otherwise'', binary mk_otherwise ''expr'' ''value'')]"

definition sum_readers :: ReaderTable where
  "sum_readers =
     [(''sum'', plain SumExpr (One [''expr''])), (''avg'', plain AvgExpr (One [''expr''])),
      (''min'', plain MinExpr (One [''expr''])), (''max'', plain MaxExpr (One [''expr''])),
      (''count'', plain CountExpr (One [''expr''])), (''list'', unary mk_list_expr ''expr'')]"

definition first_readers :: ReaderTable where
  "first_readers =
     [(''first'', plain FirstExpr (One [''expr''])), (''std_dev'', plain StdDevExpr (One [''expr''])),
      (''count_distinct'', plain (CountDistinctExpr False) (Many ''exprs'')),
      (''approx_count_distinct'', plain ApproxCountDistinctExpr (One [''expr''])),
      (''sum_distinct'', plain SumDistinctExpr (One [''expr'']))]"

definition aggregate_readers :: ReaderTable where
  "aggregate_readers = sum_readers @ first_readers"

lemmas aggregate_readers_defs = aggregate_readers_def sum_readers_def first_readers_def

definition array_element_readers :: ReaderTable where
  "array_element_readers =
     [(''array_length'', plain ArrayLengthExpr (One [''expr''])),
      (''array_distinct'', plain ArrayDistinctExpr (One [''expr''])),
      (''array_contains'', plain ArrayContainsExpr (One [''expr'', ''other''])),
      (''array_max'', plain ArrayMaxExpr (One [''expr''])), (''array_min'', plain ArrayMinExpr (One [''expr''])),
      (''array_sort'', plain ArraySortExpr (One [''expr'']))]"

definition array_set_readers :: ReaderTable where
  "array_set_readers =
     [(''array_reverse'', plain ArrayReverseExpr (One [''expr''])),
      (''array_remove'', plain ArrayRemoveExpr (One [''expr'', ''element''])),
      (''array_union'', plain ArrayUnionExpr (One [''left'', ''right''])),
      (''array_intersect'', plain ArrayIntersectExpr (One [''left'', ''right''])),
      (''array_except'', plain ArrayExceptExpr (One [''left'', ''right''])),
      (''array_compact'', plain ArrayCompactExpr (One [''expr'']))]"

definition array_part_readers :: ReaderTable where
  "array_part_readers =
     [(''array_repeat'', plain ArrayRepeatExpr (One [''element'', ''count''])),
      (''array_slice'', plain ArraySliceExpr (One [''expr'', ''start'', ''length''])),
      (''element_at'', plain ElementAtExpr (One [''expr'', ''index''])),
      (''arrays_overlap'', plain ArraysOverlapExpr (One [''left'', ''right'']))]"

definition array_readers :: ReaderTable where
  "array_readers = array_element_readers @ array_set_readers @ array_part_readers"

lemmas array_readers_defs = array_readers_def array_element_readers_def array_set_readers_def array_part_readers_def

definition json_readers :: ReaderTable where
  "json_readers =
     [(''jq'', \<lambda>r. plain (JqExpr (str_field (r_fields r) ''query'')) (One [''expr'']) r),
      (''json_type'', plain JsonTypeExpr (One [''expr''])),
      (''json_contains'', \<lambda>r. plain (JsonContainsExpr (str_field (r_fields r) ''value'')) (One [''expr'']) r)]"

definition markdown_readers :: ReaderTable where
  "markdown_readers =
     [(''md_to_json'', plain MdToJsonExpr (One [''expr''])),
      (''md_generate_toc'', \<lambda>r.
         unary (\<lambda>e. Inr (mk_generate_toc e (Some (int_field (r_fields r) ''max_level'')))) ''expr'' r),
      (''md_extract_header_chunks'', \<lambda>r.
         plain (MdExtractHeaderChunks (int_field (r_fields r) ''header_level'')) (One [''expr'']) r),
      (''md_get_code_blocks'', \<lambda>r.
         plain (MdGetCodeBlocksExpr
           (if has_field (r_fields r) ''language_filter'' then Some (str_field (r_fields r) ''language_filter'')
            else None)) (One [''expr'']) r)]"

text \<open>A submessage is always true in Python, so the branch for a query vector is never taken.\<close>

definition embedding_readers :: ReaderTable where
  "embedding_readers =
     [(''embedding_normalize'', plain EmbeddingNormalizeExpr (One [''expr''])),
      (''embedding_similarity'', \<lambda>r.
         plain (EmbeddingSimilarityExpr (str_field (r_fields r) ''metric'') None) (One [''expr'', ''other_expr'']) r)]"

subsection \<open>Text\<close>

definition read_literal :: "string list \<Rightarrow> string list \<Rightarrow> string \<Rightarrow> Reader \<Rightarrow> string res" where
  "read_literal literals names n r =
     at_path (deserialize_python_literal literals names (int_field (r_fields r) n))"

definition read_enum :: "(string \<times> 'a) list \<Rightarrow> Fields \<Rightarrow> string \<Rightarrow> 'a res" where
  "read_enum table fs n =
     bind_res (at_path (deserialize_enum_value (map fst table) (map fst table) (int_field fs n))) (\<lambda>v.
       case map_of table v of None \<Rightarrow> Inl DeserializationError | Some x \<Rightarrow> Inr x)"

definition length_functions :: "(string \<times> ChunkLengthFunction) list" where
  "length_functions = [(''CHARACTER'', CHARACTER), (''WORD'', WORD), (''TOKEN'', TOKEN)]"

definition character_sets :: "(string \<times> ChunkCharacterSet) list" where
  "character_sets = [(''CUSTOM'', CUSTOM), (''ASCII'', ASCII), (''UNICODE'', UNICODE)]"

definition read_chunk_configuration :: "Fields \<Rightarrow> TextChunkConfig res" where
  "read_chunk_configuration fs =
     bind_res (read_enum length_functions fs ''chunk_length_function_name'') (\<lambda>fn.
       mk_TextChunkConfig (int_field fs ''desired_chunk_size'') (int_field fs ''chunk_overlap_percentage'') fn)"

definition read_recursive_chunk_configuration :: "Fields \<Rightarrow> RecursiveTextChunkConfig res" where
  "read_recursive_chunk_configuration fs =
     bind_res (read_enum character_sets fs ''chunking_character_set_name'') (\<lambda>cs.
     bind_res (read_enum length_functions fs ''chunk_length_function_name'') (\<lambda>fn.
       mk_RecursiveTextChunkConfig (int_field fs ''desired_chunk_size'') (int_field fs ''chunk_overlap_percentage'') fn
         cs (if cs = CUSTOM then Some (str_values (rep_field fs ''chunking_character_set_custom_characters'')) else None)))"

definition chunk_readers :: ReaderTable where
  "chunk_readers =
     [(''textract'', \<lambda>r. unary (\<lambda>e. mk_textract e (str_field (r_fields r) ''template'')) ''input_expr'' r),
      (''text_chunk'', \<lambda>r. unary (\<lambda>e.
         bind_res (read_chunk_configuration (msg_field (r_fields r) ''configuration'')) (\<lambda>c.
           Inr (mk_text_chunk e c))) ''expr'' r),
      (''recursive_text_chunk'', \<lambda>r. unary (\<lambda>e.
         bind_res (read_recursive_chunk_configuration (msg_field (r_fields r) ''configuration'')) (\<lambda>c.
           Inr (mk_recursive_text_chunk e c))) ''input_expr'' r)]"

definition join_readers :: ReaderTable where
  "join_readers =
     [(''count_tokens'', text_plain CountTokensExpr (One [''input_expr''])),
      (''concat'', text_plain ConcatExpr (Many ''exprs'')),
      (''array_join'', \<lambda>r. text_plain (ArrayJoinExpr (str_field (r_fields r) ''delimiter'')) (One [''expr'']) r)]"

definition text_chunk_readers :: ReaderTable where
  "text_chunk_readers = chunk_readers @ join_readers"

lemmas text_chunk_readers_defs = text_chunk_readers_def chunk_readers_def join_readers_def

definition pattern_readers :: "SerdeEnv \<Rightarrow> ReaderTable" where
  "pattern_readers env =
     [(''contains'', text_plain ContainsExpr (One [''expr'', ''substr''])),
      (''contains_any'', \<lambda>r.
         text_plain (ContainsAnyExpr (str_values (rep_field (r_fields r) ''substrs''))
           (bool_field (r_fields r) ''case_insensitive'')) (One [''expr'']) r),
      (''rlike'', binary (mk_rlike (valid_regex env)) ''expr'' ''pattern''),
      (''like'', binary (mk_like (valid_regex env)) ''expr'' ''pattern''),
      (''ilike'', binary (mk_ilike (valid_regex env)) ''expr'' ''pattern'')]"

definition affix_readers :: ReaderTable where
  "affix_readers =
     [(''ts_parse'', \<lambda>r. bind_res (read_literal transcript_formats transcript_format_names ''format'' r) (\<lambda>f.
         text_plain (TsParseExpr f) (One [''expr'']) r)),
      (''starts_with'', text_plain StartsWithExpr (One [''expr'', ''substr''])),
      (''ends_with'', text_plain EndsWithExpr (One [''expr'', ''substr''])),
      (''regexp_split'', \<lambda>r. text_plain (RegexpSplitExpr (str_field (r_fields r) ''pattern'')
         (int_field (r_fields r) ''limit'')) (One [''expr'']) r)]"

definition text_match_readers :: "SerdeEnv \<Rightarrow> ReaderTable" where
  "text_match_readers env = pattern_readers env @ affix_readers"

lemmas text_match_readers_defs = text_match_readers_def pattern_readers_def affix_readers_def

text \<open>The class has an integer index; the expression the reader would give it is an error here.\<close>

definition regexp_readers :: "SerdeEnv \<Rightarrow> ReaderTable" where
  "regexp_readers env =
     [(''regexp_count'', binary (mk_regexp_count (valid_regex env)) ''expr'' ''pattern''),
      (''regexp_extract'', \<lambda>r. Inl PyTypeError),
      (''regexp_extract_all'', \<lambda>r. bind_res (child r ''idx'') (\<lambda>i.
         binary (\<lambda>e p. mk_regexp_extract_all (valid_regex env) e p i) ''expr'' ''pattern'' r)),
      (''regexp_instr'', \<lambda>r. bind_res (child r ''idx'') (\<lambda>i.
         binary (\<lambda>e p. mk_regexp_instr (valid_regex env) e p i) ''expr'' ''pattern'' r)),
      (''regexp_substr'', binary (mk_regexp_substr (valid_regex env)) ''expr'' ''pattern'')]"

definition part_readers :: ReaderTable where
  "part_readers =
     [(''split_part'', text_plain SplitPartExpr (One [''expr'', ''delimiter'', ''part_number''])),
      (''string_casing'', \<lambda>r. bind_res (read_literal casings casing_names ''case'' r) (\<lambda>c.
         text_plain (StringCasingExpr c) (One [''expr'']) r)),
      (''strip_chars'', \<lambda>r. bind_res (r_expr r ''chars'') (\<lambda>chars.
         bind_res (read_literal strip_sides strip_side_names ''side'' r) (\<lambda>s.
           unary (\<lambda>e. Inr (mk_strip_chars e chars s)) ''expr'' r)))]"

definition replace_readers :: "SerdeEnv \<Rightarrow> ReaderTable" where
  "replace_readers env =
     [(''replace'', \<lambda>r. text_plain (ReplaceExpr (bool_field (r_fields r) ''literal''))
         (One [''expr'', ''search'', ''replacement'']) r),
      (''str_length'', text_plain StrLengthExpr (One [''expr''])),
      (''byte_length'', text_plain ByteLengthExpr (One [''expr''])),
      (''jinja'', \<lambda>r. bind_res (r_exprs r ''exprs'') (\<lambda>es.
         bind_res (template_ast env (str_field (r_fields r) ''template'')) (\<lambda>ast.
           mk_jinja (str_field (r_fields r) ''template'') ast (bool_field (r_fields r) ''strict'') es)))]"

definition text_edit_readers :: "SerdeEnv \<Rightarrow> ReaderTable" where
  "text_edit_readers env = part_readers @ replace_readers env"

lemmas text_edit_readers_defs = text_edit_readers_def part_readers_def replace_readers_def

definition fuzzy_readers :: ReaderTable where
  "fuzzy_readers =
     [(''fuzzy_ratio'', \<lambda>r. bind_res (read_literal fuzzy_methods fuzzy_method_names ''method'' r) (\<lambda>m.
         text_plain (FuzzyRatioExpr m) (One [''expr'', ''other'']) r)),
      (''fuzzy_token_sort_ratio'', \<lambda>r. bind_res (read_literal fuzzy_methods fuzzy_method_names ''method'' r) (\<lambda>m.
         text_plain (FuzzyTokenSortRatioExpr m) (One [''expr'', ''other'']) r)),
      (''fuzzy_token_set_ratio'', \<lambda>r. bind_res (read_literal fuzzy_methods fuzzy_method_names ''method'' r) (\<lambda>m.
         text_plain (FuzzyTokenSetRatioExpr m) (One [''expr'', ''other'']) r))]"

subsection \<open>Dates\<close>

definition read_date :: "DtFn \<Rightarrow> string list \<Rightarrow> Reader \<Rightarrow> LogicalExpr res" where
  "read_date f ns r = bind_res (map_res (child r) ns) (\<lambda>es. Inr (DateTimeExpr f es))"

definition date_readers :: ReaderTable where
  "date_readers =
     [(''year'', read_date YearExpr [''expr'']), (''month'', read_date MonthExpr [''expr'']),
      (''day'', read_date DayExpr [''expr'']), (''hour'', read_date HourExpr [''expr'']),
      (''minute'', read_date MinuteExpr [''expr'']), (''second'', read_date SecondExpr [''expr'']),
      (''millisecond'', read_date MilliSecondExpr [''expr''])]"

definition date_arithmetic_readers :: ReaderTable where
  "date_arithmetic_readers =
     [(''date_add'', \<lambda>r. binary (\<lambda>e d. Inr (mk_date_add e d (bool_field (r_fields r) ''sub''))) ''expr'' ''days'' r),
      (''timestamp_add'', \<lambda>r.
         binary (\<lambda>e q. mk_timestamp_add_expr e q (str_field (r_fields r) ''unit'')) ''expr'' ''quantity'' r),
      (''date_trunc'', \<lambda>r. unary (\<lambda>e. mk_date_trunc_expr e (str_field (r_fields r) ''unit'')) ''expr'' r),
      (''date_diff'', binary (\<lambda>stop start. Inr (mk_date_diff stop start)) ''end'' ''start''),
      (''timestamp_diff'', \<lambda>r.
         binary (\<lambda>start stop. Inr (mk_timestamp_diff start stop (str_field (r_fields r) ''unit''))) ''start'' ''end'' r)]"

definition date_format_readers :: ReaderTable where
  "date_format_readers =
     [(''now'', \<lambda>r. Inr (mk_now (bool_field (r_fields r) ''as_date''))),
      (''to_date'', \<lambda>r. unary (\<lambda>e. Inr (mk_to_date_expr e (Some (str_field (r_fields r) ''format'')))) ''expr'' r),
      (''to_timestamp'', \<lambda>r.
         unary (\<lambda>e. Inr (mk_to_timestamp_expr e (Some (str_field (r_fields r) ''format'')))) ''expr'' r),
      (''date_format'', \<lambda>r. unary (\<lambda>e. Inr (mk_date_format_expr e (str_field (r_fields r) ''format''))) ''expr'' r),
      (''to_utc_timestamp'', \<lambda>r.
         unary (\<lambda>e. Inr (mk_to_utc_timestamp e (str_field (r_fields r) ''timezone''))) ''expr'' r),
      (''from_utc_timestamp'', \<lambda>r.
         unary (\<lambda>e. Inr (mk_from_utc_timestamp e (str_field (r_fields r) ''timezone''))) ''expr'' r)]"

definition date_operation_readers :: ReaderTable where
  "date_operation_readers = date_arithmetic_readers @ date_format_readers"

lemmas date_operation_readers_defs = date_operation_readers_def date_arithmetic_readers_def date_format_readers_def

subsection \<open>Semantic operators\<close>

definition read_alias :: "Reader \<Rightarrow> ResolvedModelAlias option" where
  "read_alias r =
     (if has_field (r_fields r) ''model_alias''
      then Some (deserialize_resolved_model_alias (msg_field (r_fields r) ''model_alias'')) else None)"

definition read_format :: "SerdeEnv \<Rightarrow> Reader \<Rightarrow> ResponseFormat option res" where
  "read_format env r =
     (if has_field (r_fields r) ''response_format''
      then bind_res (deserialize_resolved_response_format env (msg_field (r_fields r) ''response_format''))
             (\<lambda>f. Inr (Some f))
      else Inr None)"

text \<open>The formats of a summary check their bounds when they are made.\<close>

definition read_summary_format :: "Fields \<Rightarrow> SummaryFormat res" where
  "read_summary_format fs =
     (if has_field fs ''key_points'' then
        (let n = int_field (msg_field fs ''key_points'') ''max_points''
         in if 0 < n then Inr (KeyPoints n) else Inl PyValueError)
      else if has_field fs ''paragraph'' then
        (let n = int_field (msg_field fs ''paragraph'') ''max_words''
         in if 10 < n then Inr (Paragraph n) else Inl PyValueError)
      else Inl PyValueError)"

definition read_semantic_map :: "SerdeEnv \<Rightarrow> Reader \<Rightarrow> LogicalExpr res" where
  "read_semantic_map env r =
     (let fs = r_fields r; t = str_field fs ''template''
      in bind_res (r_exprs r ''exprs'') (\<lambda>es.
         bind_res (read_format env r) (\<lambda>fmt.
         bind_res (template_ast env t) (\<lambda>ast.
           mk_semantic_map t ast (bool_field fs ''strict'') es (int_field fs ''max_tokens'')
             (real_field fs ''temperature'') (read_alias r) fmt None))))"

definition read_semantic_predicate :: "SerdeEnv \<Rightarrow> Reader \<Rightarrow> LogicalExpr res" where
  "read_semantic_predicate env r =
     (let fs = r_fields r; t = str_field fs ''template''
      in bind_res (r_exprs r ''exprs'') (\<lambda>es.
         bind_res (template_ast env t) (\<lambda>ast.
           mk_semantic_predicate t ast (bool_field fs ''strict'') es (real_field fs ''temperature'')
             (read_alias r) None)))"

definition read_semantic_reduce :: "SerdeEnv \<Rightarrow> Reader \<Rightarrow> LogicalExpr res" where
  "read_semantic_reduce env r =
     (let fs = r_fields r; t = str_field fs ''instruction''
      in bind_res (child r ''input_expr'') (\<lambda>e.
         bind_res (r_exprs r ''group_context_exprs'') (\<lambda>ctx.
         bind_res (r_exprs r ''order_by_exprs'') (\<lambda>order.
         bind_res (template_ast env t) (\<lambda>ast.
           mk_semantic_reduce t ast e (int_field fs ''max_tokens'') (real_field fs ''temperature'') ctx
             (Some order) (read_alias r) None)))))"

definition semantic_readers :: "SerdeEnv \<Rightarrow> ReaderTable" where
  "semantic_readers env =
     [(''semantic_map'', read_semantic_map env),
      (''semantic_extract'', \<lambda>r. unary (\<lambda>e.
         bind_res (deserialize_resolved_response_format env (msg_field (r_fields r) ''response_format'')) (\<lambda>f.
           Inr (SemanticExpr (SemanticExtractExpr (int_field (r_fields r) ''max_tokens'')
             (real_field (r_fields r) ''temperature'') f (read_alias r) None) [e]))) ''expr'' r),
      (''semantic_pred'', read_semantic_predicate env),
      (''semantic_reduce'', read_semantic_reduce env)]"

definition semantic_column_readers :: ReaderTable where
  "semantic_column_readers =
     [(''semantic_classify'', \<lambda>r. unary (\<lambda>e.
         Inr (SemanticExpr (SemanticClassifyExpr
           (map (\<lambda>v. deserialize_resolved_class_definition (case v of MsgV fs \<Rightarrow> fs | _ \<Rightarrow> []))
             (rep_field (r_fields r) ''classes''))
           (real_field (r_fields r) ''temperature'') (read_alias r) None) [e])) ''expr'' r),
      (''analyze_sentiment'', \<lambda>r. unary (\<lambda>e.
         Inr (SemanticExpr (AnalyzeSentimentExpr (real_field (r_fields r) ''temperature'') (read_alias r) None) [e]))
         ''expr'' r),
      (''embeddings'', \<lambda>r. unary (\<lambda>e. Inr (SemanticExpr (EmbeddingsExpr (read_alias r)) [e])) ''expr'' r),
      (''semantic_summarize'', \<lambda>r. unary (\<lambda>e.
         bind_res (read_summary_format (msg_field (r_fields r) ''format'')) (\<lambda>f.
           Inr (SemanticExpr (SemanticSummarizeExpr f (real_field (r_fields r) ''temperature'') (read_alias r) None) [e])))
         ''expr'' r),
      (''semantic_parse_pdf'', \<lambda>r. unary (\<lambda>e.
         Inr (SemanticExpr (SemanticParsePDFExpr (read_alias r) (Some (str_field (r_fields r) ''page_separator''))
           (bool_field (r_fields r) ''describe_images'') None None) [e])) ''expr'' r)]"

definition readers :: "SerdeEnv \<Rightarrow> ReaderTable" where
  "readers env =
     basic_readers env @ binary_readers @ case_readers @ aggregate_readers @ array_readers @ json_readers @
     markdown_readers @ embedding_readers @ text_chunk_readers @ text_match_readers env @ regexp_readers env @
     text_edit_readers env @ fuzzy_readers @ date_readers @ date_operation_readers @ semantic_readers env @
     semantic_column_readers"

section \<open>Reading a message\<close>

function (sequential) deserialize_logical_expr :: "SerdeEnv \<Rightarrow> ProtoValue \<Rightarrow> LogicalExpr option res" where
  "deserialize_logical_expr env (MsgV []) = Inr None"
| "deserialize_logical_expr env (MsgV ((which, MsgV fs) # rest)) =
     (case map_of (readers env) which of
        None \<Rightarrow> Inl DeserializationError
      | Some reader \<Rightarrow>
          bind_res (reader
            \<lparr>r_fields = fs,
             r_expr = (\<lambda>n. case map_of fs n of
                None \<Rightarrow> Inr None | Some v \<Rightarrow> at_path (deserialize_logical_expr env v)),
             r_exprs = (\<lambda>n. case map_of fs n of
                Some (RepV vs) \<Rightarrow>
                  map_res (\<lambda>v. bind_res (at_path (deserialize_logical_expr env v)) required) vs
              | _ \<Rightarrow> Inr [])\<rparr>) (\<lambda>e. Inr (Some e)))"
| "deserialize_logical_expr env _ = Inl DeserializationError"
  by pat_completeness auto
termination
proof (relation "measure (\<lambda>(env, p). size p)", goal_cases)
  case (2 env which fs rest reader n v)
  then show ?case using size_field [of fs n v] by simp
next
  case (3 env which fs rest reader n p vs v)
  then show ?case using size_field [of fs n p] size_repeated [of v vs] by simp
qed simp

declare deserialize_logical_expr.simps [simp del]

end
