(* ===== verification/ExprSerdeCorrect.thy ===== *)
theory ExprSerdeCorrect
  imports ExprSerde
begin

text \<open>
  What the serialization of expressions preserves (\<^verbatim>\<open>src/fenic/core/_serde/proto/expressions/\<close>):
  the expressions that survive being written and read back, the round trip, and the
  attributes that are lost.
\<close>

section \<open>Expressions that survive\<close>

text \<open>Aliases and class descriptions that are not the empty string.\<close>

definition alias_ok :: "ResolvedModelAlias option \<Rightarrow> bool" where
  "alias_ok a \<longleftrightarrow> (case a of None \<Rightarrow> True | Some m \<Rightarrow> alias_profile m \<noteq> Some [])"

definition format_opt_ok :: "SerdeEnv \<Rightarrow> ResponseFormat option \<Rightarrow> bool" where
  "format_opt_ok env r \<longleftrightarrow> (case r of None \<Rightarrow> True | Some f \<Rightarrow> format_ok env f)"

definition kids_ok :: "Kids \<Rightarrow> nat \<Rightarrow> bool" where
  "kids_ok k n \<longleftrightarrow> (case k of One ns \<Rightarrow> distinct ns \<and> length ns = n | Many _ \<Rightarrow> True)"

text \<open>The expressions are the variables of the template, in its order.\<close>

definition args_are :: "VariableTree \<Rightarrow> LogicalExpr list \<Rightarrow> bool" where
  "args_are v args \<longleftrightarrow> distinct (map fst v) \<and> map_res name_attr args = Inr (map fst v)"

definition tree_is :: "SerdeEnv \<Rightarrow> string \<Rightarrow> VariableTree \<Rightarrow> bool" where
  "tree_is env t v \<longleftrightarrow> bind_res (template_ast env t) from_jinja_template = Inr v"

definition chunk_config_ok :: "('a) TextChunkConfig_scheme \<Rightarrow> bool" where
  "chunk_config_ok c \<longleftrightarrow> fits32 (desired_chunk_size c) \<and> 0 < desired_chunk_size c \<and>
     0 \<le> chunk_overlap_percentage c \<and> chunk_overlap_percentage c < 100"

definition pattern_ok :: "SerdeEnv \<Rightarrow> LogicalExpr list \<Rightarrow> bool" where
  "pattern_ok env args \<longleftrightarrow> check_pattern (valid_regex env) (args ! 1) = Inr ()"

fun text_ok :: "SerdeEnv \<Rightarrow> TextFn \<Rightarrow> LogicalExpr list \<Rightarrow> bool" where
  "text_ok env (TextractExpr t fmt) args = (parse_template t = Inr fmt)"
| "text_ok env (TextChunkExpr c) args = chunk_config_ok c"
| "text_ok env (RecursiveTextChunkExpr c) args =
     (chunk_config_ok c \<and> (chunking_character_set_name c = CUSTOM \<longleftrightarrow> chunking_character_set_custom_characters c \<noteq> None))"
| "text_ok env (TsParseExpr f) args = literal_ok transcript_formats transcript_format_names f"
| "text_ok env RLikeExpr args = pattern_ok env args"
| "text_ok env LikeExpr args = pattern_ok env args"
| "text_ok env ILikeExpr args = pattern_ok env args"
| "text_ok env (RegexpSplitExpr _ l) args = fits32 l"
| "text_ok env RegexpCountExpr args = pattern_ok env args"
| "text_ok env (RegexpExtractExpr _) args = False"
| "text_ok env RegexpExtractAllExpr args = pattern_ok env args"
| "text_ok env RegexpInstrExpr args = pattern_ok env args"
| "text_ok env RegexpSubstrExpr args = pattern_ok env args"
| "text_ok env (StringCasingExpr c) args = literal_ok casings casing_names c"
| "text_ok env (StripCharsExpr s) args = literal_ok strip_sides strip_side_names s"
| "text_ok env (FuzzyRatioExpr m) args = literal_ok fuzzy_methods fuzzy_method_names m"
| "text_ok env (FuzzyTokenSortRatioExpr m) args = literal_ok fuzzy_methods fuzzy_method_names m"
| "text_ok env (FuzzyTokenSetRatioExpr m) args = literal_ok fuzzy_methods fuzzy_method_names m"
| "text_ok env _ args = True"

fun fn_ok :: "SerdeEnv \<Rightarrow> FnClass \<Rightarrow> LogicalExpr list \<Rightarrow> bool" where
  "fn_ok env (TextExpr (StripCharsExpr s)) args =
     ((length args = 1 \<or> length args = 2) \<and> text_ok env (StripCharsExpr s) args)"
| "fn_ok env (TextExpr f) args = (kids_ok (snd (text_message f)) (length args) \<and> text_ok env f args)"
| "fn_ok env ListExpr args = (length args = 1 \<and> (case args ! 0 of LiteralExpr _ _ \<Rightarrow> False | _ \<Rightarrow> True))"
| "fn_ok env (CountDistinctExpr b) args = (\<not> b)"
| "fn_ok env (MdGenerateTocExpr n) args = (length args = 1 \<and> fits32 n \<and> n \<noteq> 0)"
| "fn_ok env (MdExtractHeaderChunks n) args = (length args = 1 \<and> fits32 n)"
| "fn_ok env (EmbeddingSimilarityExpr m v) args = (length args = 2 \<and> v = None)"
| "fn_ok env f args = (case fn_message f of None \<Rightarrow> False | Some (_, k) \<Rightarrow> kids_ok k (length args))"

fun dt_ok :: "DtFn \<Rightarrow> LogicalExpr list \<Rightarrow> bool" where
  "dt_ok (DateTruncExpr u p) args = (length args = 1 \<and> mk_date_trunc u = Inr (DateTruncExpr u p))"
| "dt_ok (TimestampAddExpr u p) args = (length args = 2 \<and> mk_timestamp_add u = Inr (TimestampAddExpr u p))"
| "dt_ok (DateFormatExpr s c) args = (length args = 1 \<and> DateFormatExpr s c = mk_date_format s)"
| "dt_ok f args = (length args = length (snd (dt_message f)))"

fun summary_ok :: "SummaryFormat \<Rightarrow> bool" where
  "summary_ok (KeyPoints n) \<longleftrightarrow> 0 < n \<and> fits32 n"
| "summary_ok (Paragraph n) \<longleftrightarrow> 10 < n \<and> fits32 n"

text \<open>No request timeout, no output limit of a PDF parser, a page separator that is given.\<close>

fun sem_ok :: "SerdeEnv \<Rightarrow> SemFn \<Rightarrow> LogicalExpr list \<Rightarrow> bool" where
  "sem_ok env (SemanticMapExpr t s v m te a r to) args =
     (to = None \<and> alias_ok a \<and> fits32 m \<and> format_opt_ok env r \<and> tree_is env t v \<and> v \<noteq> [] \<and> args_are v args)"
| "sem_ok env (SemanticExtractExpr m te r a to) args =
     (to = None \<and> alias_ok a \<and> fits32 m \<and> format_ok env r \<and> length args = 1)"
| "sem_ok env (SemanticPredExpr t s v te a to) args =
     (to = None \<and> alias_ok a \<and> tree_is env t v \<and> v \<noteq> [] \<and> args_are v args)"
| "sem_ok env (SemanticReduceExpr i v ns m te a to) args =
     (to = None \<and> alias_ok a \<and> fits32 m \<and> tree_is env i v \<and> ns = map fst v \<and> distinct ns \<and> args \<noteq> [] \<and>
      take (length ns) (tl args) = map ColumnExpr ns \<and> list_all is_sort (drop (length ns) (tl args)))"
| "sem_ok env (SemanticClassifyExpr cs te a to) args =
     (to = None \<and> alias_ok a \<and> list_all (\<lambda>c. snd c \<noteq> Some []) cs \<and> length args = 1)"
| "sem_ok env (AnalyzeSentimentExpr te a to) args = (to = None \<and> alias_ok a \<and> length args = 1)"
| "sem_ok env (EmbeddingsExpr a) args = (alias_ok a \<and> length args = 1)"
| "sem_ok env (SemanticSummarizeExpr f te a to) args =
     (to = None \<and> alias_ok a \<and> summary_ok f \<and> length args = 1)"
| "sem_ok env (SemanticParsePDFExpr a sep d m to) args =
     (to = None \<and> m = None \<and> alias_ok a \<and> sep \<noteq> None \<and> length args = 1)"

fun node_ok :: "SerdeEnv \<Rightarrow> LogicalExpr \<Rightarrow> bool" where
  "node_ok env (LiteralExpr v d) = (scalar_ok env v \<and> type_fits d)"
| "node_ok env (UnresolvedLiteralExpr d p) = type_fits d"
| "node_ok env (CastExpr e d) = type_fits d"
| "node_ok env (UDFExpr f args d) = False"
| "node_ok env (AsyncUDFExpr f args d c t n) = False"
| "node_ok env (WhenExpr e c v) = (case e of None \<Rightarrow> True | Some w \<Rightarrow> is_when w)"
| "node_ok env (OtherwiseExpr e v) = is_when e"
| "node_ok env (FunctionExpr f args) = fn_ok env f args"
| "node_ok env (SemanticExpr f args) = sem_ok env f args"
| "node_ok env (DateTimeExpr f args) = dt_ok f args"
| "node_ok env (JinjaExpr t s v args) = (tree_is env t v \<and> args_are v args)"
| "node_ok env _ = True"

fun serializable :: "SerdeEnv \<Rightarrow> LogicalExpr \<Rightarrow> bool" where
  "serializable env e \<longleftrightarrow> node_ok env e \<and> list_all (serializable env) (expr_children e)"

declare serializable.simps [simp del]

section \<open>Finding the reader\<close>

lemma map_of_middle:
  assumes "distinct (map fst (xs @ T @ ys))" "n \<in> set (map fst T)"
  shows "map_of (xs @ T @ ys) n = map_of T n"
proof -
  have "n \<notin> fst ` set xs" "n \<notin> fst ` set ys" using assms by (auto simp: disjoint_iff)
  then have "map_of xs n = None" "map_of ys n = None" by (simp_all add: map_of_eq_None_iff)
  then show ?thesis by (simp add: map_add_def split: option.split)
qed

lemmas reader_tables = basic_readers_defs binary_readers_def case_readers_def aggregate_readers_defs
  array_readers_defs json_readers_def markdown_readers_def embedding_readers_def text_chunk_readers_defs
  text_match_readers_defs regexp_readers_def text_edit_readers_defs fuzzy_readers_def date_readers_def
  date_operation_readers_defs semantic_readers_def semantic_column_readers_def

lemma readers_distinct: "distinct (map fst (readers env))"
  by (simp add: readers_def reader_tables)

text \<open>A name of one of the tables is found in that table.\<close>

lemma find_reader:
  assumes "readers env = xs @ T @ ys" "n \<in> set (map fst T)"
  shows "map_of (readers env) n = map_of T n"
  using map_of_middle [of xs T ys n] readers_distinct [of env] assms by simp

lemma find_basic: "n \<in> set (map fst (basic_readers env)) \<Longrightarrow> map_of (readers env) n = map_of (basic_readers env) n"
  by (rule find_reader [of env "[]"]) (simp_all add: readers_def)

lemma find_binary: "n \<in> set (map fst binary_readers) \<Longrightarrow> map_of (readers env) n = map_of binary_readers n"
  by (rule find_reader [of env "basic_readers env"]) (simp_all add: readers_def)

lemma find_case: "n \<in> set (map fst case_readers) \<Longrightarrow> map_of (readers env) n = map_of case_readers n"
  by (rule find_reader [of env "basic_readers env @ binary_readers"]) (simp_all add: readers_def)

lemma find_aggregate:
  "n \<in> set (map fst aggregate_readers) \<Longrightarrow> map_of (readers env) n = map_of aggregate_readers n"
  by (rule find_reader [of env "basic_readers env @ binary_readers @ case_readers"]) (simp_all add: readers_def)

lemma find_array: "n \<in> set (map fst array_readers) \<Longrightarrow> map_of (readers env) n = map_of array_readers n"
  by (rule find_reader [of env "basic_readers env @ binary_readers @ case_readers @ aggregate_readers"])
    (simp_all add: readers_def)

definition functions_before :: "SerdeEnv \<Rightarrow> ReaderTable" where
  "functions_before env = basic_readers env @ binary_readers @ case_readers @ aggregate_readers @ array_readers"

lemma find_json: "n \<in> set (map fst json_readers) \<Longrightarrow> map_of (readers env) n = map_of json_readers n"
  by (rule find_reader [of env "functions_before env"]) (simp_all add: readers_def functions_before_def)

lemma find_markdown: "n \<in> set (map fst markdown_readers) \<Longrightarrow> map_of (readers env) n = map_of markdown_readers n"
  by (rule find_reader [of env "functions_before env @ json_readers"]) (simp_all add: readers_def functions_before_def)

lemma find_embedding: "n \<in> set (map fst embedding_readers) \<Longrightarrow> map_of (readers env) n = map_of embedding_readers n"
  by (rule find_reader [of env "functions_before env @ json_readers @ markdown_readers"])
    (simp_all add: readers_def functions_before_def)

definition texts_before :: "SerdeEnv \<Rightarrow> ReaderTable" where
  "texts_before env = functions_before env @ json_readers @ markdown_readers @ embedding_readers"

lemmas texts_before_defs = texts_before_def functions_before_def readers_def

lemma find_text_chunk:
  "n \<in> set (map fst text_chunk_readers) \<Longrightarrow> map_of (readers env) n = map_of text_chunk_readers n"
  by (rule find_reader [of env "texts_before env"]) (simp_all add: texts_before_defs)

lemma find_text_match:
  "n \<in> set (map fst (text_match_readers env)) \<Longrightarrow> map_of (readers env) n = map_of (text_match_readers env) n"
  by (rule find_reader [of env "texts_before env @ text_chunk_readers"]) (simp_all add: texts_before_defs)

lemma find_regexp:
  "n \<in> set (map fst (regexp_readers env)) \<Longrightarrow> map_of (readers env) n = map_of (regexp_readers env) n"
  by (rule find_reader [of env "texts_before env @ text_chunk_readers @ text_match_readers env"])
    (simp_all add: texts_before_defs)

lemma find_text_edit:
  "n \<in> set (map fst (text_edit_readers env)) \<Longrightarrow> map_of (readers env) n = map_of (text_edit_readers env) n"
  by (rule find_reader [of env "texts_before env @ text_chunk_readers @ text_match_readers env @ regexp_readers env"])
    (simp_all add: texts_before_defs)

definition dates_before :: "SerdeEnv \<Rightarrow> ReaderTable" where
  "dates_before env = texts_before env @ text_chunk_readers @ text_match_readers env @ regexp_readers env @ text_edit_readers env"

lemmas dates_before_defs = dates_before_def texts_before_defs

lemma find_fuzzy: "n \<in> set (map fst fuzzy_readers) \<Longrightarrow> map_of (readers env) n = map_of fuzzy_readers n"
  by (rule find_reader [of env "dates_before env"]) (simp_all add: dates_before_defs)

lemma find_date: "n \<in> set (map fst date_readers) \<Longrightarrow> map_of (readers env) n = map_of date_readers n"
  by (rule find_reader [of env "dates_before env @ fuzzy_readers"]) (simp_all add: dates_before_defs)

lemma find_date_operation:
  "n \<in> set (map fst date_operation_readers) \<Longrightarrow> map_of (readers env) n = map_of date_operation_readers n"
  by (rule find_reader [of env "dates_before env @ fuzzy_readers @ date_readers"]) (simp_all add: dates_before_defs)

lemma find_semantic:
  "n \<in> set (map fst (semantic_readers env)) \<Longrightarrow> map_of (readers env) n = map_of (semantic_readers env) n"
  by (rule find_reader [of env "dates_before env @ fuzzy_readers @ date_readers @ date_operation_readers"])
    (simp_all add: dates_before_defs)

lemma find_semantic_column:
  "n \<in> set (map fst semantic_column_readers) \<Longrightarrow> map_of (readers env) n = map_of semantic_column_readers n"
  by (rule find_reader [of env "dates_before env @ fuzzy_readers @ date_readers @ date_operation_readers @
      semantic_readers env" _ "[]"]) (simp_all add: dates_before_defs)

text \<open>The reader over the fields of a message.\<close>

definition over :: "SerdeEnv \<Rightarrow> Fields \<Rightarrow> Reader" where
  "over env fs =
     \<lparr>r_fields = fs,
      r_expr = (\<lambda>n. case map_of fs n of
         None \<Rightarrow> Inr None | Some v \<Rightarrow> at_path (deserialize_logical_expr env v)),
      r_exprs = (\<lambda>n. case map_of fs n of
         Some (RepV vs) \<Rightarrow> map_res (\<lambda>v. bind_res (at_path (deserialize_logical_expr env v)) required) vs
       | _ \<Rightarrow> Inr [])\<rparr>"

lemma r_fields_over [simp]: "r_fields (over env fs) = fs"
  by (simp add: over_def)

lemma read_lep:
  "deserialize_logical_expr env (lep which fs) =
     (case map_of (readers env) which of
        None \<Rightarrow> Inl DeserializationError
      | Some reader \<Rightarrow> bind_res (reader (over env fs)) (\<lambda>e. Inr (Some e)))"
  unfolding lep_def over_def deserialize_logical_expr.simps ..

text \<open>The messages of the children and what they are read back as.\<close>

definition reads :: "SerdeEnv \<Rightarrow> ProtoValue list \<Rightarrow> LogicalExpr list \<Rightarrow> bool" where
  "reads env ps es \<longleftrightarrow> list_all2 (\<lambda>p e. deserialize_logical_expr env p = Inr (Some e)) ps es"

lemma child_over:
  "map_of fs n = Some p \<Longrightarrow> deserialize_logical_expr env p = Inr (Some e) \<Longrightarrow> child (over env fs) n = Inr e"
  by (simp add: child_def over_def)

lemma exprs_over:
  assumes "map_of fs n = Some (RepV ps)" "reads env ps es"
  shows "r_exprs (over env fs) n = Inr es"
proof -
  have "list_all2 (\<lambda>p e. bind_res (at_path (deserialize_logical_expr env p)) required = Inr e) ps es"
    using assms(2) unfolding reads_def by (rule list_all2_mono) simp
  with assms(1) show ?thesis by (simp add: over_def map_res_Inr_iff)
qed

lemma read_kids_over:
  assumes "reads env ps es" "kids_ok k (length ps)"
  shows "read_kids k (over env (kid_fields k ps @ attrs)) = Inr es"
proof (cases k)
  case (Many n)
  with exprs_over [OF _ assms(1), of "kid_fields k ps @ attrs" n] show ?thesis by (simp add: read_kids_def)
next
  case (One ns)
  with assms have ns: "distinct ns" "length ns = length ps" by (simp_all add: kids_ok_def)
  have "list_all2 (\<lambda>n e. child (over env (zip ns ps @ attrs)) n = Inr e) ns es"
  proof (rule list_all2_all_nthI)
    show "length ns = length es" using ns assms(1) by (simp add: reads_def list_all2_lengthD)
    fix i assume i: "i < length ns"
    have "map_of (zip ns ps) (ns ! i) = Some (ps ! i)" using ns i by (simp add: map_of_zip_nth)
    then have "map_of (zip ns ps @ attrs) (ns ! i) = Some (ps ! i)" by simp
    moreover have "deserialize_logical_expr env (ps ! i) = Inr (Some (es ! i))"
      using list_all2_nthD [OF assms(1) [unfolded reads_def], of i] i ns by simp
    ultimately show "child (over env (zip ns ps @ attrs)) (ns ! i) = Inr (es ! i)" by (rule child_over)
  qed
  with One show ?thesis by (simp add: read_kids_def map_res_Inr_iff)
qed

section \<open>Every node is read back\<close>

definition node_reads :: "SerdeEnv \<Rightarrow> LogicalExpr \<Rightarrow> ProtoValue list \<Rightarrow> bool" where
  "node_reads env e ps \<longleftrightarrow>
     (\<exists>p e'. serialize_node env e ps = Inr p \<and> deserialize_logical_expr env p = Inr (Some e') \<and> erase e' = erase e)"

lemma node_readsI:
  assumes "serialize_node env e ps = Inr (lep which fs)"
    and "map_of (readers env) which = Some reader"
    and "reader (over env fs) = Inr e'" "erase e' = erase e"
  shows "node_reads env e ps"
  using assms by (auto simp: node_reads_def read_lep)

text \<open>A function that is its attributes and its children.\<close>

lemma function_reads:
  assumes "fn_message f = Some (which, k)" "fn_attributes f = Inr attrs"
    and "map_of (readers env) which = Some reader"
    and "reader (over env (kid_fields k ps @ attrs)) = plain f' k (over env (kid_fields k ps @ attrs))"
    and "compared_attributes f' = compared_attributes f"
    and "kids_ok k (length ps)" "reads env ps es" "map erase es = map erase args"
  shows "node_reads env (FunctionExpr f args) ps"
proof (rule node_readsI)
  show "serialize_node env (FunctionExpr f args) ps = Inr (lep which (kid_fields k ps @ attrs))"
    using assms(1,2) by (simp add: serialize_function_def)
  show "map_of (readers env) which = Some reader" by (rule assms(3))
  show "reader (over env (kid_fields k ps @ attrs)) = Inr (FunctionExpr f' es)"
    using assms(4) read_kids_over [OF assms(7,6)] by (simp add: plain_def)
  show "erase (FunctionExpr f' es) = erase (FunctionExpr f args)" using assms(5,8) by simp
qed

lemma plain_reads:
  assumes "fn_message f = Some m" "fn_attributes f = Inr []"
    and "map_of (readers env) (fst m) = Some (plain f (snd m))"
    and "kids_ok (snd m) (length ps)" "reads env ps es" "map erase es = map erase args"
  shows "node_reads env (FunctionExpr f args) ps"
  using function_reads [of f "fst m" "snd m" "[]" env _ ps f es args] assms by (cases m) simp

lemma array_reads:
  assumes m: "array_message f = Some m" and k: "kids_ok (snd m) (length ps)"
    and es: "reads env ps es" "map erase es = map erase args"
  shows "node_reads env (FunctionExpr f args) ps"
proof (rule plain_reads [OF _ _ _ k es])
  show "fn_message f = Some m" using m by (cases f) (auto simp: fn_message_def)
  show "fn_attributes f = Inr []" using m by (cases f) auto
  show "map_of (readers env) (fst m) = Some (plain f (snd m))"
    using m by (cases f) (auto simp: find_array array_readers_defs)
qed

lemma basic_reads:
  assumes m: "basic_message f = Some m" and k: "kids_ok (snd m) (length ps)"
    and es: "reads env ps es" "map erase es = map erase args"
  shows "node_reads env (FunctionExpr f args) ps"
proof (rule plain_reads [OF _ _ _ k es])
  show "fn_message f = Some m" using m by (cases f) (auto simp: fn_message_def)
  show "fn_attributes f = Inr []" using m by (cases f) auto
  show "map_of (readers env) (fst m) = Some (plain f (snd m))"
    using m by (cases f) (auto simp: find_basic basic_readers_defs)
qed

lemma aggregate_reads:
  assumes m: "aggregate_message f = Some m" "f \<noteq> ListExpr" "f \<noteq> CountDistinctExpr True"
    and k: "kids_ok (snd m) (length ps)"
    and es: "reads env ps es" "map erase es = map erase args"
  shows "node_reads env (FunctionExpr f args) ps"
proof (rule plain_reads [OF _ _ _ k es])
  show "fn_message f = Some m" using m by (cases f) (auto simp: fn_message_def)
  show "fn_attributes f = Inr []" using m by (cases f) auto
  show "map_of (readers env) (fst m) = Some (plain f (snd m))"
    using m by (cases f) (auto simp: find_aggregate aggregate_readers_defs)
qed

lemma reads_Cons [simp]: "reads env (p # ps) es \<longleftrightarrow>
    (\<exists>e es'. es = e # es' \<and> deserialize_logical_expr env p = Inr (Some e) \<and> reads env ps es')"
  by (auto simp: reads_def list_all2_Cons1)

lemma reads_Nil [simp]: "reads env [] es \<longleftrightarrow> es = []"
  by (simp add: reads_def)

lemma reads_length: "reads env ps es \<Longrightarrow> length ps = length es"
  by (simp add: reads_def list_all2_lengthD)

lemma unary_over:
  "map_of fs n = Some p \<Longrightarrow> deserialize_logical_expr env p = Inr (Some e) \<Longrightarrow> unary mk n (over env fs) = mk e"
  by (simp add: unary_def child_over)

lemma binary_over:
  "map_of fs n = Some p \<Longrightarrow> deserialize_logical_expr env p = Inr (Some e) \<Longrightarrow>
   map_of fs m = Some q \<Longrightarrow> deserialize_logical_expr env q = Inr (Some e') \<Longrightarrow>
   binary mk n m (over env fs) = mk e e'"
  by (simp add: binary_def child_over)

text \<open>What erased equality determines of an expression.\<close>

lemma erase_is_literal:
  "erase e = erase e' \<Longrightarrow> (case e of LiteralExpr v d \<Rightarrow> f v d | _ \<Rightarrow> g) = (case e' of LiteralExpr v d \<Rightarrow> f v d | _ \<Rightarrow> g)"
  by (cases e; cases e') auto

lemma erase_is_when: "erase e = erase e' \<Longrightarrow> is_when e = is_when e'"
  by (cases e; cases e') (auto simp: is_when_def)

lemma erase_is_sort: "erase e = erase e' \<Longrightarrow> is_sort e = is_sort e'"
  by (cases e; cases e') (auto simp: is_sort_def)

lemma erase_name_attr: "erase e = erase e' \<Longrightarrow> name_attr e = name_attr e'"
  by (cases e; cases e') (auto simp: name_attr_def)

lemma erase_check_pattern: "erase e = erase e' \<Longrightarrow> check_pattern v e = check_pattern v e'"
  unfolding check_pattern_def by (rule erase_is_literal)

lemma list_reads:
  assumes "fn_ok env ListExpr args" and es: "reads env ps es" "map erase es = map erase args"
  shows "node_reads env (FunctionExpr ListExpr args) ps"
proof -
  from assms(1) obtain a where a: "args = [a]" "\<not> (case a of LiteralExpr _ _ \<Rightarrow> True | _ \<Rightarrow> False)"
    by (auto simp: length_Suc_conv split: LogicalExpr.splits)
  with es(2) obtain e where e: "es = [e]" "erase e = erase a" by auto
  with es(1) obtain p where p: "ps = [p]" "deserialize_logical_expr env p = Inr (Some e)"
    using reads_length [OF es(1)] by (auto simp: length_Suc_conv)
  have "mk_list_expr e = Inr (FunctionExpr ListExpr [e])"
    using a(2) erase_is_literal [OF e(2), where f = "\<lambda>_ _. True" and g = False] by (auto simp: mk_list_expr_def split: LogicalExpr.splits)
  then show ?thesis
    using e a p
    by (intro node_readsI [of env _ _ "''list''" "[(''expr'', p)]" "unary mk_list_expr ''expr''" "FunctionExpr ListExpr [e]"])
      (simp_all add: serialize_function_def fn_message_def find_aggregate aggregate_readers_defs unary_over)
qed

end
