(* ===== verification/SerdeRoundTrip.thy ===== *)
theory SerdeRoundTrip
  imports ExprSerdeCorrect
begin

text \<open>
  The round trip of expressions through their messages
  (\<^verbatim>\<open>src/fenic/core/_serde/proto/expression_serde.py\<close> and \<^verbatim>\<open>expressions/\<close>): one lemma per
  group of node classes that a written node is read back as an equal one, their composition
  over the whole expression, and the attributes that are lost.
\<close>

section \<open>Functions\<close>

text \<open>Functions of one, two and three children with attributes that their reader takes from the message.\<close>

lemma attr_reads:
  assumes "fn_message f = Some (which, One ns)" "fn_attributes f = Inr attrs"
    and "map_of (readers env) which = Some reader"
    and "\<And>ks. length ks = length ns \<Longrightarrow> reader (over env (zip ns ks @ attrs)) = plain f (One ns) (over env (zip ns ks @ attrs))"
    and "kids_ok (One ns) (length args)" "reads env ps es" "map erase es = map erase args"
  shows "node_reads env (FunctionExpr f args) ps"
proof (rule function_reads [OF assms(1,2,3) _ refl _ assms(6,7)])
  have len: "length ps = length args"
    using reads_length [OF assms(6)] assms(7) by (metis length_map)
  show "kids_ok (One ns) (length ps)" using assms(5) len by simp
  show "reader (over env (kid_fields (One ns) ps @ attrs)) = plain f (One ns) (over env (kid_fields (One ns) ps @ attrs))"
    using assms(4) [of ps] assms(5) len by (simp add: kids_ok_def)
qed

lemmas kid_lists = length_Suc_conv numeral_2_eq_2 numeral_3_eq_3


text \<open>What a group of functions with attributes has to provide for \<open>attr_reads\<close>.\<close>

definition attr_function :: "SerdeEnv \<Rightarrow> FnClass \<Rightarrow> string list \<Rightarrow> bool" where
  "attr_function env f ns \<longleftrightarrow> (\<exists>which attrs reader.
     fn_message f = Some (which, One ns) \<and> fn_attributes f = Inr attrs \<and> map_of (readers env) which = Some reader \<and>
     (\<forall>ks. length ks = length ns \<longrightarrow>
        reader (over env (zip ns ks @ attrs)) = plain f (One ns) (over env (zip ns ks @ attrs))))"

lemma attr_functionI:
  assumes "fn_message f = Some (which, One ns)" "fn_attributes f = Inr attrs" "map_of (readers env) which = Some reader"
    and "\<And>ks. length ks = length ns \<Longrightarrow>
        reader (over env (zip ns ks @ attrs)) = plain f (One ns) (over env (zip ns ks @ attrs))"
  shows "attr_function env f ns"
  using assms unfolding attr_function_def by blast

lemma attr_function_reads:
  assumes "attr_function env f ns" "kids_ok (One ns) (length args)" "reads env ps es" "map erase es = map erase args"
  shows "node_reads env (FunctionExpr f args) ps"
  using assms attr_reads unfolding attr_function_def by blast

lemma json_functions:
  "attr_function env (JqExpr q) [''expr'']" "attr_function env JsonTypeExpr [''expr'']"
  "attr_function env (JsonContainsExpr q) [''expr'']"
  by (rule attr_functionI, simp add: fn_message_def, simp add: int32_fits,
      simp add: find_json json_readers_def, auto simp: kid_lists field_defs)+

lemma markdown_functions:
  "attr_function env MdToJsonExpr [''expr'']" "attr_function env (MdGetCodeBlocksExpr l) [''expr'']"
  "fits32 n \<Longrightarrow> attr_function env (MdExtractHeaderChunks n) [''expr'']"
  by (rule attr_functionI, simp add: fn_message_def, simp add: int32_fits,
      simp add: find_markdown markdown_readers_def, auto simp: kid_lists field_defs opt_field_def split: option.split)+

lemma embedding_functions:
  "attr_function env EmbeddingNormalizeExpr [''expr'']"
  "attr_function env (EmbeddingSimilarityExpr m None) [''expr'', ''other_expr'']"
  by (rule attr_functionI, simp add: fn_message_def, simp add: int32_fits,
      simp add: find_embedding embedding_readers_def, auto simp: kid_lists field_defs)+

subsection \<open>Text\<close>

lemma text_chunk_functions:
  "attr_function env (TextExpr CountTokensExpr) [''input_expr'']"
  "attr_function env (TextExpr (ArrayJoinExpr d)) [''expr'']"
  by (rule attr_functionI, simp add: fn_message_def, simp,
      simp add: find_text_chunk text_chunk_readers_defs, auto simp: kid_lists field_defs text_plain_def)+

lemma text_match_functions:
  "attr_function env (TextExpr ContainsExpr) [''expr'', ''substr'']"
  "attr_function env (TextExpr (ContainsAnyExpr ss ci)) [''expr'']"
  "attr_function env (TextExpr StartsWithExpr) [''expr'', ''substr'']"
  "attr_function env (TextExpr EndsWithExpr) [''expr'', ''substr'']"
  "fits32 l \<Longrightarrow> attr_function env (TextExpr (RegexpSplitExpr pat l)) [''expr'']"
  by (rule attr_functionI, simp add: fn_message_def, simp add: int32_fits,
      simp add: find_text_match text_match_readers_defs, auto simp: kid_lists field_defs text_plain_def)+

lemma text_edit_functions:
  "attr_function env (TextExpr SplitPartExpr) [''expr'', ''delimiter'', ''part_number'']"
  "attr_function env (TextExpr (ReplaceExpr b)) [''expr'', ''search'', ''replacement'']"
  "attr_function env (TextExpr StrLengthExpr) [''expr'']"
  "attr_function env (TextExpr ByteLengthExpr) [''expr'']"
  by (rule attr_functionI, simp add: fn_message_def, simp,
      simp add: find_text_edit text_edit_readers_defs, auto simp: kid_lists field_defs text_plain_def)+

text \<open>A literal attribute: the position of its upper-case name.\<close>

lemma literal_attr_Inr:
  assumes "literal_ok literals names v"
  obtains i where "\<And>n. literal_attr n names v = Inr [(n, IntV i)]"
    and "\<And>n fs env. map_of fs n = Some (IntV i) \<Longrightarrow> read_literal literals names n (over env fs) = Inr v"
  using literal_roundtrip [OF assms] that
  by (auto simp: literal_attr_def read_literal_def int_field_def)

lemma literal_function:
  assumes "literal_ok literals names v" "fn_message f = Some (which, One ns)" "n \<notin> set ns"
    and "fn_attributes f = literal_attr n names v"
    and "map_of (readers env) which = Some (\<lambda>r. bind_res (read_literal literals names n r) (\<lambda>v. plain (mk v) (One ns) r))"
    and "mk v = f"
  shows "attr_function env f ns"
proof -
  from literal_attr_Inr [OF assms(1)] obtain i where i: "literal_attr n names v = Inr [(n, IntV i)]"
    "\<And>fs env. map_of fs n = Some (IntV i) \<Longrightarrow> read_literal literals names n (over env fs) = Inr v" by metis
  have "map_of (zip ns ks @ [(n, IntV i)]) n = Some (IntV i)" for ks
    using assms(3) by (simp add: map_add_def map_of_eq_None_iff split: option.split)
      (metis in_set_zipE map_of_SomeD)
  with i(2) show ?thesis
    using assms i(1) by (intro attr_functionI [OF assms(2) _ assms(5)]) auto
qed

lemma transcript_function:
  "literal_ok transcript_formats transcript_format_names v \<Longrightarrow> attr_function env (TextExpr (TsParseExpr v)) [''expr'']"
  by (rule literal_function [where n = "''format''" and mk = "\<lambda>v. TextExpr (TsParseExpr v)"], assumption)
    (simp add: fn_message_def, simp, simp, simp add: find_text_match text_match_readers_defs, simp_all add: text_plain_def)

lemma casing_function:
  "literal_ok casings casing_names v \<Longrightarrow> attr_function env (TextExpr (StringCasingExpr v)) [''expr'']"
  by (rule literal_function [where n = "''case''" and mk = "\<lambda>v. TextExpr (StringCasingExpr v)"], assumption)
    (simp add: fn_message_def, simp, simp, simp add: find_text_edit text_edit_readers_defs, simp_all add: text_plain_def)

lemma fuzzy_functions:
  assumes "literal_ok fuzzy_methods fuzzy_method_names v"
  shows "attr_function env (TextExpr (FuzzyRatioExpr v)) [''expr'', ''other'']"
    and "attr_function env (TextExpr (FuzzyTokenSortRatioExpr v)) [''expr'', ''other'']"
    and "attr_function env (TextExpr (FuzzyTokenSetRatioExpr v)) [''expr'', ''other'']"
  using literal_function [OF assms, where n = "''method''" and mk = "\<lambda>v. TextExpr (FuzzyRatioExpr v)"]
    literal_function [OF assms, where n = "''method''" and mk = "\<lambda>v. TextExpr (FuzzyTokenSortRatioExpr v)"]
    literal_function [OF assms, where n = "''method''" and mk = "\<lambda>v. TextExpr (FuzzyTokenSetRatioExpr v)"]
  by (simp_all add: fn_message_def find_fuzzy fuzzy_readers_def text_plain_def)

text \<open>The classes whose constructor the reader calls.\<close>

definition made_by :: "SerdeEnv \<Rightarrow> FnClass \<Rightarrow> LogicalExpr list \<Rightarrow> string list \<Rightarrow> bool" where
  "made_by env f args ns \<longleftrightarrow> (\<exists>which attrs reader.
     fn_message f = Some (which, One ns) \<and> fn_attributes f = Inr attrs \<and> map_of (readers env) which = Some reader \<and>
     (\<forall>ps es. reads env ps es \<longrightarrow> length ps = length args \<longrightarrow> map erase es = map erase args \<longrightarrow>
        reader (over env (zip ns ps @ attrs)) = Inr (FunctionExpr f es)))"

lemma made_byI:
  assumes "fn_message f = Some (which, One ns)" "fn_attributes f = Inr attrs" "map_of (readers env) which = Some reader"
    and "\<And>ps es. reads env ps es \<Longrightarrow> length ps = length args \<Longrightarrow> map erase es = map erase args \<Longrightarrow>
        reader (over env (zip ns ps @ attrs)) = Inr (FunctionExpr f es)"
  shows "made_by env f args ns"
  using assms unfolding made_by_def by blast

lemma made_by_reads:
  assumes "made_by env f args ns" "reads env ps es" "map erase es = map erase args"
  shows "node_reads env (FunctionExpr f args) ps"
proof -
  from assms(1) obtain which attrs reader where w: "fn_message f = Some (which, One ns)"
    "fn_attributes f = Inr attrs" "map_of (readers env) which = Some reader"
    and r: "\<forall>ps es. reads env ps es \<longrightarrow> length ps = length args \<longrightarrow> map erase es = map erase args \<longrightarrow>
        reader (over env (zip ns ps @ attrs)) = Inr (FunctionExpr f es)" unfolding made_by_def by blast
  have "length ps = length args" using reads_length [OF assms(2)] assms(3) by (metis length_map)
  with w r assms show ?thesis
    by (intro node_readsI [of env _ _ which "zip ns ps @ attrs" reader "FunctionExpr f es"])
      (simp_all add: serialize_function_def)
qed

lemma textract_made:
  assumes "parse_template t = Inr fmt" "length args = 1"
  shows "made_by env (TextExpr (TextractExpr t fmt)) args [''input_expr'']"
  using assms
  by (intro made_byI)
    (auto simp: fn_message_def find_text_chunk text_chunk_readers_defs kid_lists unary_over field_defs mk_textract_def)

text \<open>Chunking: the enumerations and the bounds the configuration checks when it is made again.\<close>

lemma length_function_roundtrip:
  "\<exists>i. serialize_enum_value chunk_length_functions (length_function_name x) = Inr (IntV i) \<and>
     (\<forall>fs n. map_of fs n = Some (IntV i) \<longrightarrow> read_enum length_functions fs n = Inr x)"
  by (cases x)
    (simp_all add: chunk_length_functions_def serialize_enum_value_def read_enum_def length_functions_def
      deserialize_enum_value_def int_field_def)

lemma character_set_roundtrip:
  "\<exists>i. serialize_enum_value chunk_character_sets (character_set_name x) = Inr (IntV i) \<and>
     (\<forall>fs n. map_of fs n = Some (IntV i) \<longrightarrow> read_enum character_sets fs n = Inr x)"
  by (cases x)
    (simp_all add: chunk_character_sets_def serialize_enum_value_def read_enum_def character_sets_def
      deserialize_enum_value_def int_field_def)

lemma chunk_configuration_roundtrip:
  assumes "chunk_config_ok c"
  shows "\<exists>fs. chunk_configuration_fields c = Inr fs \<and> (\<forall>more. read_chunk_configuration (fs @ more) =
      Inr \<lparr>desired_chunk_size = desired_chunk_size c, chunk_overlap_percentage = chunk_overlap_percentage c,
           chunk_length_function_name = chunk_length_function_name c\<rparr>)"
proof -
  obtain i where "serialize_enum_value chunk_length_functions (length_function_name (chunk_length_function_name c)) = Inr (IntV i)"
    "\<forall>fs n. map_of fs n = Some (IntV i) \<longrightarrow> read_enum length_functions fs n = Inr (chunk_length_function_name c)"
    using length_function_roundtrip by blast
  with assms show ?thesis
    by (simp add: chunk_config_ok_def chunk_configuration_fields_def read_chunk_configuration_def int32_fits
        mk_TextChunkConfig_def chunk_bounds_def raise_if_def int_field_def fits32_def)
qed

lemma text_chunk_made:
  assumes "chunk_config_ok c" "length args = 1"
  shows "made_by env (TextExpr (TextChunkExpr c)) args [''expr'']"
proof -
  from chunk_configuration_roundtrip [OF assms(1)] obtain fs where
    fs: "chunk_configuration_fields c = Inr fs" "\<forall>more. read_chunk_configuration (fs @ more) = Inr c" by auto
  then have "read_chunk_configuration fs = Inr c" by (metis append_Nil2)
  with assms fs(1) show ?thesis
    by (intro made_byI)
      (auto simp: fn_message_def find_text_chunk text_chunk_readers_defs kid_lists unary_over field_defs mk_text_chunk_def)
qed

lemma recursive_configuration_roundtrip:
  assumes "chunk_config_ok c"
    "chunking_character_set_name c = CUSTOM \<longleftrightarrow> chunking_character_set_custom_characters c \<noteq> None"
  shows "\<exists>fs. recursive_chunk_configuration_fields c = Inr fs \<and> read_recursive_chunk_configuration fs = Inr c"
proof -
  obtain i where i: "serialize_enum_value chunk_length_functions (length_function_name (chunk_length_function_name c)) = Inr (IntV i)"
    "\<forall>fs n. map_of fs n = Some (IntV i) \<longrightarrow> read_enum length_functions fs n = Inr (chunk_length_function_name c)"
    using length_function_roundtrip by blast
  obtain j where j: "serialize_enum_value chunk_character_sets (character_set_name (chunking_character_set_name c)) = Inr (IntV j)"
    "\<forall>fs n. map_of fs n = Some (IntV j) \<longrightarrow> read_enum character_sets fs n = Inr (chunking_character_set_name c)"
    using character_set_roundtrip by blast
  show ?thesis
  proof (cases "chunking_character_set_custom_characters c")
    case None
    with assms i j show ?thesis
      by (simp add: chunk_config_ok_def recursive_chunk_configuration_fields_def chunk_configuration_fields_def
          read_recursive_chunk_configuration_def int32_fits mk_RecursiveTextChunkConfig_def chunk_bounds_def
          raise_if_def int_field_def opt_field_def fits32_def)
  next
    case (Some cs)
    with assms i j show ?thesis
      by (simp add: chunk_config_ok_def recursive_chunk_configuration_fields_def chunk_configuration_fields_def
          read_recursive_chunk_configuration_def int32_fits mk_RecursiveTextChunkConfig_def chunk_bounds_def
          raise_if_def int_field_def opt_field_def rep_field_def fits32_def)
  qed
qed

lemma recursive_text_chunk_made:
  assumes "chunk_config_ok c"
    "chunking_character_set_name c = CUSTOM \<longleftrightarrow> chunking_character_set_custom_characters c \<noteq> None" "length args = 1"
  shows "made_by env (TextExpr (RecursiveTextChunkExpr c)) args [''input_expr'']"
proof -
  from recursive_configuration_roundtrip [OF assms(1,2)] obtain fs where
    fs: "recursive_chunk_configuration_fields c = Inr fs" "read_recursive_chunk_configuration fs = Inr c" by auto
  with assms(3) show ?thesis
    by (intro made_byI)
      (auto simp: fn_message_def find_text_chunk text_chunk_readers_defs kid_lists unary_over field_defs
        mk_recursive_text_chunk_def)
qed

text \<open>Patterns: the check when the expression is made again sees an equal pattern.\<close>

lemma pattern_read:
  assumes "reads env ps es" "map erase es = map erase args" "length ps = length args" "pattern_ok env args" "2 \<le> length args"
  obtains e p es' where "es = e # p # es'" "check_pattern (valid_regex env) p = Inr ()"
proof -
  from assms(2,5) obtain e p es' where es: "es = e # p # es'"
    by (cases args; cases "tl args") auto
  moreover have "erase p = erase (args ! 1)" using assms(2,5) es by (cases args; cases "tl args") auto
  ultimately show ?thesis using that assms(4) erase_check_pattern unfolding pattern_ok_def by metis
qed

lemma pattern_match_made:
  assumes "length args = 2" "pattern_ok env args" "f = RLikeExpr \<or> f = LikeExpr \<or> f = ILikeExpr"
  shows "made_by env (TextExpr f) args [''expr'', ''pattern'']"
proof (rule made_byI [of _ "fst (text_message f)" _ "[]" _
      "binary (\<lambda>e p. mk_pattern_expr (valid_regex env) f e p []) ''expr'' ''pattern''"])
  show "fn_message (TextExpr f) = Some (fst (text_message f), One [''expr'', ''pattern''])"
    "fn_attributes (TextExpr f) = Inr []" using assms(3) by (auto simp: fn_message_def)
  show "map_of (readers env) (fst (text_message f)) =
      Some (binary (\<lambda>e p. mk_pattern_expr (valid_regex env) f e p []) ''expr'' ''pattern'')"
    using assms(3) by (elim disjE) (simp_all add: find_text_match text_match_readers_defs mk_rlike_def [abs_def]
        mk_like_def [abs_def] mk_ilike_def [abs_def])
  fix ps es assume es: "reads env ps es" "length ps = length args" "map erase es = map erase args"
  from pattern_read [OF es(1,3,2) assms(2)] assms(1) obtain e p es' where
    p: "es = e # p # es'" "check_pattern (valid_regex env) p = Inr ()" by auto
  with es assms(1) show "binary (\<lambda>e p. mk_pattern_expr (valid_regex env) f e p []) ''expr'' ''pattern''
      (over env (zip [''expr'', ''pattern''] ps @ [])) = Inr (FunctionExpr (TextExpr f) es)"
    by (auto simp: kid_lists binary_over mk_pattern_expr_def)
qed

lemma regexp_match_made:
  assumes "length args = 2" "pattern_ok env args" "f = RegexpCountExpr \<or> f = RegexpSubstrExpr"
  shows "made_by env (TextExpr f) args [''expr'', ''pattern'']"
proof (rule made_byI [of _ "fst (text_message f)" _ "[]" _
      "binary (\<lambda>e p. mk_pattern_expr (valid_regex env) f e p []) ''expr'' ''pattern''"])
  show "fn_message (TextExpr f) = Some (fst (text_message f), One [''expr'', ''pattern''])"
    "fn_attributes (TextExpr f) = Inr []" using assms(3) by (auto simp: fn_message_def)
  show "map_of (readers env) (fst (text_message f)) =
      Some (binary (\<lambda>e p. mk_pattern_expr (valid_regex env) f e p []) ''expr'' ''pattern'')"
    using assms(3) by (elim disjE) (simp_all add: find_regexp regexp_readers_def mk_regexp_count_def [abs_def]
        mk_regexp_substr_def [abs_def])
  fix ps es assume es: "reads env ps es" "length ps = length args" "map erase es = map erase args"
  from pattern_read [OF es(1,3,2) assms(2)] assms(1) obtain e p es' where
    p: "es = e # p # es'" "check_pattern (valid_regex env) p = Inr ()" by auto
  with es assms(1) show "binary (\<lambda>e p. mk_pattern_expr (valid_regex env) f e p []) ''expr'' ''pattern''
      (over env (zip [''expr'', ''pattern''] ps @ [])) = Inr (FunctionExpr (TextExpr f) es)"
    by (auto simp: kid_lists binary_over mk_pattern_expr_def)
qed

lemma regexp_index_made:
  assumes "length args = 3" "pattern_ok env args" "f = RegexpExtractAllExpr \<or> f = RegexpInstrExpr"
  shows "made_by env (TextExpr f) args [''expr'', ''pattern'', ''idx'']"
proof (rule made_byI [of _ "fst (text_message f)" _ "[]" _
      "\<lambda>r. bind_res (child r ''idx'') (\<lambda>i.
         binary (\<lambda>e p. mk_pattern_expr (valid_regex env) f e p [i]) ''expr'' ''pattern'' r)"])
  show "fn_message (TextExpr f) = Some (fst (text_message f), One [''expr'', ''pattern'', ''idx''])"
    "fn_attributes (TextExpr f) = Inr []" using assms(3) by (auto simp: fn_message_def)
  show "map_of (readers env) (fst (text_message f)) =
      Some (\<lambda>r. bind_res (child r ''idx'') (\<lambda>i.
         binary (\<lambda>e p. mk_pattern_expr (valid_regex env) f e p [i]) ''expr'' ''pattern'' r))"
    using assms(3) by (elim disjE) (simp_all add: find_regexp regexp_readers_def mk_regexp_extract_all_def [abs_def]
        mk_regexp_instr_def [abs_def])
  fix ps es assume es: "reads env ps es" "length ps = length args" "map erase es = map erase args"
  from pattern_read [OF es(1,3,2) assms(2)] assms(1) obtain e p es' where
    p: "es = e # p # es'" "check_pattern (valid_regex env) p = Inr ()" by auto
  with es assms(1) show "bind_res (child (over env (zip [''expr'', ''pattern'', ''idx''] ps @ [])) ''idx'') (\<lambda>i.
         binary (\<lambda>e p. mk_pattern_expr (valid_regex env) f e p [i]) ''expr'' ''pattern''
      (over env (zip [''expr'', ''pattern'', ''idx''] ps @ []))) = Inr (FunctionExpr (TextExpr f) es)"
    by (auto simp: kid_lists binary_over child_over mk_pattern_expr_def)
qed

text \<open>Stripping characters has an optional second child.\<close>

lemma r_expr_over:
  "map_of fs n = Some p \<Longrightarrow> deserialize_logical_expr env p = Inr (Some e) \<Longrightarrow> r_expr (over env fs) n = Inr (Some e)"
  by (simp add: over_def)

lemma r_expr_absent: "map_of fs n = None \<Longrightarrow> r_expr (over env fs) n = Inr None"
  by (simp add: over_def)

lemma strip_made:
  assumes "length args = 1 \<or> length args = 2" "literal_ok strip_sides strip_side_names s"
  shows "made_by env (TextExpr (StripCharsExpr s)) args [''expr'', ''chars'']"
proof -
  from literal_attr_Inr [OF assms(2)] obtain i where i: "literal_attr ''side'' strip_side_names s = Inr [(''side'', IntV i)]"
    "\<And>fs env. map_of fs ''side'' = Some (IntV i) \<Longrightarrow> read_literal strip_sides strip_side_names ''side'' (over env fs) = Inr s"
    by metis
  show ?thesis
  proof (rule made_byI [of _ "''strip_chars''" _ "[(''side'', IntV i)]" _
      "\<lambda>r. bind_res (r_expr r ''chars'') (\<lambda>chars.
         bind_res (read_literal strip_sides strip_side_names ''side'' r) (\<lambda>s.
           unary (\<lambda>e. Inr (mk_strip_chars e chars s)) ''expr'' r))"])
    fix ps es assume es: "reads env ps es" "length ps = length args" "map erase es = map erase args"
    from assms(1) es consider (one) p e where "ps = [p]" "es = [e]" "deserialize_logical_expr env p = Inr (Some e)"
      | (two) p e q c where "ps = [p, q]" "es = [e, c]" "deserialize_logical_expr env p = Inr (Some e)"
        "deserialize_logical_expr env q = Inr (Some c)"
      by (auto simp: kid_lists)
    then show "bind_res (r_expr (over env (zip [''expr'', ''chars''] ps @ [(''side'', IntV i)])) ''chars'') (\<lambda>chars.
         bind_res (read_literal strip_sides strip_side_names ''side'' (over env (zip [''expr'', ''chars''] ps @ [(''side'', IntV i)]))) (\<lambda>s.
           unary (\<lambda>e. Inr (mk_strip_chars e chars s)) ''expr'' (over env (zip [''expr'', ''chars''] ps @ [(''side'', IntV i)])))) =
        Inr (FunctionExpr (TextExpr (StripCharsExpr s)) es)"
      by cases (simp_all add: i(2) r_expr_over r_expr_absent unary_over mk_strip_chars_def)
  qed (simp_all add: fn_message_def i(1) find_text_edit text_edit_readers_defs)
qed

lemma concat_reads:
  assumes "reads env ps es" "map erase es = map erase args"
  shows "node_reads env (FunctionExpr (TextExpr ConcatExpr) args) ps"
  by (rule plain_reads [OF _ _ _ _ assms, of _ "(''concat'', Many ''exprs'')"])
    (simp_all add: fn_message_def find_text_chunk text_chunk_readers_defs text_plain_def [abs_def] kids_ok_def)

lemmas attr_functions = json_functions markdown_functions embedding_functions text_chunk_functions
  text_match_functions text_edit_functions transcript_function casing_function fuzzy_functions

lemmas made_text = textract_made text_chunk_made recursive_text_chunk_made strip_made
  pattern_match_made [OF _ _ disjI1 [OF refl]] pattern_match_made [OF _ _ disjI2 [OF disjI1 [OF refl]]]
  pattern_match_made [OF _ _ disjI2 [OF disjI2 [OF refl]]]
  regexp_match_made [OF _ _ disjI1 [OF refl]] regexp_match_made [OF _ _ disjI2 [OF refl]]
  regexp_index_made [OF _ _ disjI1 [OF refl]] regexp_index_made [OF _ _ disjI2 [OF refl]]

lemma text_node:
  assumes ok: "fn_ok env (TextExpr f) args" and es: "reads env ps es" "map erase es = map erase args"
  shows "node_reads env (FunctionExpr (TextExpr f) args) ps"
proof -
  have "(\<exists>ns. attr_function env (TextExpr f) ns \<and> kids_ok (One ns) (length args)) \<or>
      (\<exists>ns. made_by env (TextExpr f) args ns) \<or> f = ConcatExpr"
    using ok
    by (cases f) (simp_all add: kids_ok_def, (intro exI disjI1 conjI, rule attr_functions; simp; fail | intro exI disjI2,
        rule made_text; simp; fail)+)
  then show ?thesis using attr_function_reads made_by_reads concat_reads es by blast
qed

lemma toc_made:
  assumes "length args = 1" "fits32 n" "n \<noteq> 0"
  shows "made_by env (MdGenerateTocExpr n) args [''expr'']"
  by (rule made_byI, simp add: fn_message_def, simp add: assms int32_fits,
      simp add: find_markdown markdown_readers_def)
    (use assms in \<open>auto simp: kid_lists unary_over mk_generate_toc_def int_field_def\<close>)

text \<open>Every function is in one of the groups.\<close>

lemma function_node:
  assumes ok: "fn_ok env f args" and es: "reads env ps es" "map erase es = map erase args"
  shows "node_reads env (FunctionExpr f args) ps"
proof -
  have len: "length ps = length args" using reads_length [OF es(1)] es(2) by (metis length_map)
  have "(\<exists>t. f = TextExpr t) \<or> f = ListExpr \<or>
      (\<exists>ns. attr_function env f ns \<and> kids_ok (One ns) (length args)) \<or> (\<exists>ns. made_by env f args ns) \<or>
      (\<exists>m. basic_message f = Some m \<and> kids_ok (snd m) (length args)) \<or>
      (\<exists>m. aggregate_message f = Some m \<and> f \<noteq> ListExpr \<and> f \<noteq> CountDistinctExpr True \<and> kids_ok (snd m) (length args)) \<or>
      (\<exists>m. array_message f = Some m \<and> kids_ok (snd m) (length args))"
    using ok
    by (cases f) (simp_all add: fn_message_def, simp_all add: kids_ok_def,
      (intro exI disjI1 conjI, rule attr_functions; simp; fail | intro exI disjI2, rule toc_made; simp; fail)+)
  then show ?thesis
    using text_node [OF _ es] list_reads [OF _ es] attr_function_reads [OF _ _ es] made_by_reads [OF _ es]
      basic_reads [OF _ _ es] aggregate_reads [OF _ _ _ _ es] array_reads [OF _ _ es] ok len
    by metis
qed

section \<open>Dates\<close>

definition dt_made :: "SerdeEnv \<Rightarrow> DtFn \<Rightarrow> bool" where
  "dt_made env f \<longleftrightarrow> (\<exists>reader. map_of (readers env) (fst (dt_message f)) = Some reader \<and>
     (\<forall>ps es. reads env ps es \<longrightarrow> length ps = length (snd (dt_message f)) \<longrightarrow>
        (\<exists>g. reader (over env (zip (snd (dt_message f)) ps @ dt_attributes f)) = Inr (DateTimeExpr g es) \<and>
             dt_compared g = dt_compared f)))"

lemma dt_madeI:
  assumes "map_of (readers env) (fst (dt_message f)) = Some reader"
    and "\<And>ps es. reads env ps es \<Longrightarrow> length ps = length (snd (dt_message f)) \<Longrightarrow>
        \<exists>g. reader (over env (zip (snd (dt_message f)) ps @ dt_attributes f)) = Inr (DateTimeExpr g es) \<and>
            dt_compared g = dt_compared f"
  shows "dt_made env f"
  using assms unfolding dt_made_def by blast

lemma dt_made_reads:
  assumes "dt_made env f" "length args = length (snd (dt_message f))"
    and es: "reads env ps es" "map erase es = map erase args"
  shows "node_reads env (DateTimeExpr f args) ps"
proof -
  from assms(1) obtain reader where reader: "map_of (readers env) (fst (dt_message f)) = Some reader"
    and r: "\<And>ps es. reads env ps es \<Longrightarrow> length ps = length (snd (dt_message f)) \<Longrightarrow>
        \<exists>g. reader (over env (zip (snd (dt_message f)) ps @ dt_attributes f)) = Inr (DateTimeExpr g es) \<and>
            dt_compared g = dt_compared f" unfolding dt_made_def by blast
  have "length ps = length (snd (dt_message f))" using reads_length [OF es(1)] es(2) assms(2) by (metis length_map)
  from r [OF es(1) this] obtain g where
    "reader (over env (zip (snd (dt_message f)) ps @ dt_attributes f)) = Inr (DateTimeExpr g es)"
    "dt_compared g = dt_compared f" by blast
  with reader es(2) show ?thesis
    by (intro node_readsI [of env _ _ "fst (dt_message f)" "zip (snd (dt_message f)) ps @ dt_attributes f" reader
          "DateTimeExpr g es"]) (simp_all add: serialize_date_def)
qed

lemma dt_parts_made:
  "dt_made env YearExpr" "dt_made env MonthExpr" "dt_made env DayExpr" "dt_made env HourExpr"
  "dt_made env MinuteExpr" "dt_made env SecondExpr" "dt_made env MilliSecondExpr"
  by (rule dt_madeI, simp add: find_date date_readers_def, auto simp: kid_lists read_date_def child_over)+

lemma dt_operations_made:
  "dt_made env (ToDateExpr f c)" "dt_made env (ToTimestampExpr f c)" "dt_made env (NowExpr b)"
  "dt_made env (DateAddExpr b)" "dt_made env DateDiffExpr" "dt_made env (TimestampDiffExpr u)"
  "dt_made env (ToUTCTimestampExpr u)" "dt_made env (FromUTCTimestampExpr u)"
  "mk_date_trunc u = Inr (DateTruncExpr u p) \<Longrightarrow> dt_made env (DateTruncExpr u p)"
  "mk_timestamp_add u = Inr (TimestampAddExpr u p) \<Longrightarrow> dt_made env (TimestampAddExpr u p)"
  "dt_made env (DateFormatExpr u (java_like_to_chrono u))"
  by (rule dt_madeI, simp add: find_date_operation date_operation_readers_defs,
      auto simp: kid_lists unary_over binary_over mk_to_date_expr_def mk_to_timestamp_expr_def mk_now_def
        mk_date_add_def mk_date_diff_def mk_timestamp_diff_def mk_to_utc_timestamp_def mk_from_utc_timestamp_def
        mk_date_trunc_expr_def mk_timestamp_add_expr_def mk_date_format_expr_def mk_date_format_def mk_to_date_def mk_to_timestamp_def
        field_defs opt_field_def)+

lemma date_node:
  assumes ok: "dt_ok f args" and es: "reads env ps es" "map erase es = map erase args"
  shows "node_reads env (DateTimeExpr f args) ps"
proof -
  have "dt_made env f \<and> length args = length (snd (dt_message f))"
    using ok by (cases f) (auto simp: mk_date_format_def intro: dt_parts_made dt_operations_made)
  then show ?thesis using dt_made_reads es by blast
qed

section \<open>Templates and semantic operators\<close>

lemma template_exprs_all:
  assumes "distinct (map fst v)" "map_res name_attr es = Inr (map fst v)"
  shows "template_exprs v es = Inr (zip (map fst v) es)"
proof -
  have len: "length es = length (map fst v)" using map_res_Inr_length [OF assms(2)] by simp
  let ?kvs = "map (\<lambda>e. (fst e, e)) (zip (map fst v) es)"
  have keys: "map fst ?kvs = map fst v" using len by (simp add: comp_def)
  have d: "distinct (map fst ?kvs)" using keys assms(1) by metis
  then have "map_of (rev ?kvs) = map_of ?kvs" by (subst map_of_inject_set) (simp_all only: rev_map [symmetric] distinct_rev set_rev)
  moreover have "map_of ?kvs (map fst v ! i) = Some (zip (map fst v) es ! i)" if i: "i < length v" for i
  proof -
    have at: "?kvs ! i = (map fst v ! i, zip (map fst v) es ! i)" and "i < length ?kvs" using i len by simp_all
    from nth_mem [OF this(2)] have "(map fst v ! i, zip (map fst v) es ! i) \<in> set ?kvs" by (simp only: at)
    then show ?thesis by (rule map_of_is_SomeI [OF d])
  qed
  ultimately have "list_all2 (\<lambda>n y. (case map_of (dict_of ?kvs) n of None \<Rightarrow> Inl ValidationError | Some e \<Rightarrow> Inr e) = Inr y)
      (map fst v) (zip (map fst v) es)"
    using len by (simp add: list_all2_conv_all_nth)
  then have "map_res (\<lambda>n. case map_of (dict_of ?kvs) n of None \<Rightarrow> Inl ValidationError | Some e \<Rightarrow> Inr e) (map fst v) =
      Inr (zip (map fst v) es)" by (simp only: map_res_Inr_iff)
  then show ?thesis by (simp add: template_exprs_def filter_used_expressions_def assms(2))
qed

lemma erase_names: "map erase es = map erase args \<Longrightarrow> map_res name_attr es = map_res name_attr args"
proof (induction es arbitrary: args)
  case (Cons e es)
  then obtain a as where "args = a # as" "erase e = erase a" "map erase es = map erase as" by (cases args) auto
  with Cons.IH [of as] erase_name_attr [of e a] show ?case by simp
qed simp

lemma args_used:
  assumes "args_are v args" "map erase es = map erase args"
  shows "template_exprs v es = Inr (zip (map fst v) es)" "map snd (zip (map fst v) es) = es"
proof -
  have "map_res name_attr es = Inr (map fst v)" using assms(1) erase_names [OF assms(2)] by (simp add: args_are_def)
  then show "template_exprs v es = Inr (zip (map fst v) es)" "map snd (zip (map fst v) es) = es"
    using template_exprs_all [of v es] map_res_Inr_length [of name_attr es "map fst v"] assms(1)
    by (simp_all add: args_are_def)
qed

lemma tree_made:
  assumes "tree_is env t v"
  obtains ast where "template_ast env t = Inr ast" "from_jinja_template ast = Inr v"
  using assms that by (auto simp: tree_is_def)

lemma jinja_node:
  assumes ok: "tree_is env t v" "args_are v args" and es: "reads env ps es" "map erase es = map erase args"
  shows "node_reads env (JinjaExpr t s v args) ps"
proof -
  obtain ast where "template_ast env t = Inr ast" "from_jinja_template ast = Inr v" by (rule tree_made [OF ok(1)])
  then show ?thesis
    using es args_used [OF ok(2) es(2)]
    by (intro node_readsI [of env _ _ "''jinja''"
          "[(''exprs'', RepV ps), (''template'', StrV t), (''strict'', BoolV s)]"
          "\<lambda>r. bind_res (r_exprs r ''exprs'') (\<lambda>es.
             bind_res (template_ast env (str_field (r_fields r) ''template'')) (\<lambda>ast.
               mk_jinja (str_field (r_fields r) ''template'') ast (bool_field (r_fields r) ''strict'') es))"
          "JinjaExpr t s v es"])
      (simp_all add: find_text_edit text_edit_readers_defs exprs_over field_defs mk_jinja_def)
qed

text \<open>Aliases and formats among the fields of a message.\<close>

lemma alias_over:
  assumes "alias_ok a" "map_of fs ''model_alias'' = serialize_resolved_model_alias a"
  shows "read_alias (over env fs) = a"
proof (cases a)
  case None
  with assms show ?thesis by (simp add: read_alias_def has_field_def serialize_resolved_model_alias_def)
next
  case (Some m)
  with assms(1) have "alias_profile m \<noteq> Some []" by (simp add: alias_ok_def)
  from alias_roundtrip [OF this] Some assms(2) show ?thesis
    by (auto simp: read_alias_def has_field_def msg_field_def)
qed

lemma map_of_alias_attr:
  "map_of (alias_attr a) n = (if n = ''model_alias'' then serialize_resolved_model_alias a else None)"
  by (simp add: alias_attr_def opt_field_def split: option.split)

lemma format_over:
  assumes "format_opt_ok env r"
  obtains fs where "format_attr env r = Inr fs"
    "\<And>n. n \<noteq> ''response_format'' \<Longrightarrow> map_of fs n = None"
    "\<And>gs. map_of gs ''response_format'' = map_of fs ''response_format'' \<Longrightarrow> read_format env (over env gs) = Inr r"
    "\<And>gs f. r = Some f \<Longrightarrow> map_of gs ''response_format'' = map_of fs ''response_format'' \<Longrightarrow>
      deserialize_resolved_response_format env (msg_field gs ''response_format'') = Inr f"
proof (cases r)
  case None
  then show thesis using that [of "[]"] by (simp add: format_attr_def read_format_def has_field_def)
next
  case (Some f)
  with assms have "format_ok env f" by (simp add: format_opt_ok_def)
  from format_roundtrip [OF this] Some show thesis
    using that by (fastforce simp: format_attr_def read_format_def has_field_def msg_field_def)
qed

lemma map_node:
  assumes ok: "sem_ok env (SemanticMapExpr t s v m te a r to) args"
    and es: "reads env ps es" "map erase es = map erase args"
  shows "node_reads env (SemanticExpr (SemanticMapExpr t s v m te a r to) args) ps"
proof -
  from ok have o: "alias_ok a" "fits32 m" "format_opt_ok env r" "tree_is env t v" "v \<noteq> []" "args_are v args" "to = None"
    by simp_all
  obtain ast where ast: "template_ast env t = Inr ast" "from_jinja_template ast = Inr v" by (rule tree_made [OF o(4)])
  obtain fs where f: "format_attr env r = Inr fs" "\<And>n. n \<noteq> ''response_format'' \<Longrightarrow> map_of fs n = None"
    "\<And>gs. map_of gs ''response_format'' = map_of fs ''response_format'' \<Longrightarrow> read_format env (over env gs) = Inr r"
    by (rule format_over [OF o(3)]) blast
  let ?gs = "[(''template'', StrV t), (''strict'', BoolV s), (''exprs'', RepV ps), (''max_tokens'', IntV m),
           (''temperature'', RealV te)] @ alias_attr a @ fs"
  have "read_alias (over env ?gs) = a"
    by (rule alias_over [OF o(1)]) (simp add: map_add_def map_of_alias_attr f(2) split: option.split)
  moreover have "read_format env (over env ?gs) = Inr r"
    by (rule f(3)) (simp add: map_add_def map_of_alias_attr split: option.split)
  ultimately show ?thesis
    using o ast es f(1) args_used [OF o(6) es(2)]
    by (intro node_readsI [of env _ _ "''semantic_map''" ?gs "read_semantic_map env" "SemanticExpr (SemanticMapExpr t s v m te a r to) es"])
      (simp_all add: int32_fits find_semantic semantic_readers_def read_semantic_map_def exprs_over field_defs
        mk_semantic_map_def raise_if_def Suc_le_eq)
qed

lemma predicate_node:
  assumes ok: "sem_ok env (SemanticPredExpr t s v te a to) args"
    and es: "reads env ps es" "map erase es = map erase args"
  shows "node_reads env (SemanticExpr (SemanticPredExpr t s v te a to) args) ps"
proof -
  from ok have o: "alias_ok a" "tree_is env t v" "v \<noteq> []" "args_are v args" "to = None" by simp_all
  obtain ast where ast: "template_ast env t = Inr ast" "from_jinja_template ast = Inr v" by (rule tree_made [OF o(2)])
  let ?gs = "[(''template'', StrV t), (''strict'', BoolV s), (''exprs'', RepV ps), (''temperature'', RealV te)] @ alias_attr a"
  have "read_alias (over env ?gs) = a"
    by (rule alias_over [OF o(1)]) (simp add: map_add_def map_of_alias_attr split: option.split)
  then show ?thesis
    using o ast es args_used [OF o(4) es(2)]
    by (intro node_readsI [of env _ _ "''semantic_pred''" ?gs "read_semantic_predicate env" "SemanticExpr (SemanticPredExpr t s v te a to) es"])
      (simp_all add: find_semantic semantic_readers_def read_semantic_predicate_def exprs_over field_defs
        mk_semantic_predicate_def raise_if_def Suc_le_eq)
qed

lemma erase_column: "erase e = ColumnExpr n \<Longrightarrow> e = ColumnExpr n"
  by (cases e) auto

lemma erase_columns: "map erase es = map erase (map ColumnExpr ns) \<Longrightarrow> es = map ColumnExpr ns"
proof (induction ns arbitrary: es)
  case (Cons n ns)
  then obtain e es' where "es = e # es'" "erase e = ColumnExpr n" "map erase es' = map erase (map ColumnExpr ns)"
    by (cases es) auto
  with Cons.IH [of es'] erase_column [of e n] show ?case by simp
qed simp

lemma erase_sorts: "map erase es = map erase args \<Longrightarrow> list_all is_sort args \<Longrightarrow> list_all is_sort es"
proof (induction args arbitrary: es)
  case (Cons a args)
  from Cons.prems(1) obtain e es' where e: "es = e # es'" "erase e = erase a" "map erase es' = map erase args" by (cases es) simp_all
  have "is_sort a" "list_all is_sort args" using Cons.prems(2) by simp_all
  with Cons.IH [OF e(3)] erase_is_sort [OF e(2)] show ?case by (simp add: e(1))
qed simp

lemma sorts_kept: "list_all is_sort es \<Longrightarrow> map (\<lambda>e. if is_sort e then e else SortExpr e True False) es = es"
  by (induction es) auto

lemma reduce_node:
  assumes ok: "sem_ok env (SemanticReduceExpr i v ns m te a to) args"
    and es: "reads env ps es" "map erase es = map erase args"
  shows "node_reads env (SemanticExpr (SemanticReduceExpr i v ns m te a to) args) ps"
proof -
  from ok have o: "alias_ok a" "fits32 m" "tree_is env i v" "ns = map fst v" "distinct ns" "to = None"
    "take (length ns) (tl args) = map ColumnExpr ns" "list_all is_sort (drop (length ns) (tl args))" "args \<noteq> []"
    unfolding sem_ok.simps by blast+
  obtain ast where ast: "template_ast env i = Inr ast" "from_jinja_template ast = Inr v" by (rule tree_made [OF o(3)])
  obtain b bs where args: "args = b # bs" using o(9) by (cases args) auto
  obtain e es' where e: "es = e # es'" "map erase es' = map erase bs" using es(2) args by (cases es) auto
  obtain p ps' where p: "ps = p # ps'" using reads_length [OF es(1)] e(1) by (cases ps) auto
  have kids: "es = e # es'" "ps = p # ps'" "deserialize_logical_expr env p = Inr (Some e)"
    "reads env ps' es'" "map erase es' = map erase (tl args)"
    using es(1) e p args by simp_all
  have "map erase (take (length ns) es') = map erase (map ColumnExpr ns)"
    using kids(5) o(7) by (metis take_map)
  then have cols: "take (length ns) es' = map ColumnExpr ns" by (rule erase_columns)
  have "map erase (drop (length ns) es') = map erase (drop (length ns) (tl args))" using kids(5) by (metis drop_map)
  from sorts_kept [OF erase_sorts [OF this o(8)]]
  have sorts: "map (\<lambda>e. if is_sort e then e else SortExpr e True False) (drop (length ns) es') = drop (length ns) es'" .
  have "es' = map ColumnExpr ns @ drop (length ns) es'" using cols by (metis append_take_drop_id)
  moreover have "map_res name_attr (map ColumnExpr ns) = Inr ns"
    by (simp add: map_res_Inr_iff list_all2_conv_all_nth name_attr_def)
  then have "template_exprs v (map ColumnExpr ns) = Inr (zip ns (map ColumnExpr ns))"
    using template_exprs_all [of v "map ColumnExpr ns"] o(4,5) by simp
  moreover have "map (\<lambda>(n, e). case e of AliasExpr e' _ \<Rightarrow> e' | _ \<Rightarrow> e) (zip ns (map ColumnExpr ns)) = map ColumnExpr ns"
    by (simp add: list_eq_iff_nth_eq)
  ultimately have made: "mk_semantic_reduce i ast e m te (map ColumnExpr ns) (Some (drop (length ns) es')) a None =
      Inr (SemanticExpr (SemanticReduceExpr i v ns m te a None) (e # es'))"
    using ast(2) sorts by (simp add: mk_semantic_reduce_def)
  have ctx: "reads env (take (length ns) ps') (map ColumnExpr ns)" and order: "reads env (drop (length ns) ps') (drop (length ns) es')"
    using kids(4) list_all2_takeI [of _ ps' es' "length ns"] list_all2_dropI [of _ ps' es' "length ns"]
    unfolding reads_def cols [symmetric] by blast+
  let ?gs = "zip [''input_expr''] ps @
          [(''instruction'', StrV i), (''group_context_exprs'', RepV (take (length ns) (tl ps))),
           (''order_by_exprs'', RepV (drop (length ns) (tl ps))), (''max_tokens'', IntV m),
           (''temperature'', RealV te)] @ alias_attr a"
  have "read_alias (over env ?gs) = a"
    by (rule alias_over [OF o(1)]) (simp add: map_add_def map_of_alias_attr kids(2) split: option.split)
  then show ?thesis
    using o(2,6) ast(1) kids(1,2,3) made es(2) ctx order
    by (intro node_readsI [of env _ _ "''semantic_reduce''" ?gs "read_semantic_reduce env"
          "SemanticExpr (SemanticReduceExpr i v ns m te a None) es"])
      (simp_all add: int32_fits find_semantic semantic_readers_def read_semantic_reduce_def exprs_over child_over field_defs)
qed

text \<open>The operators of one column.\<close>

lemma single:
  assumes "length args = 1" "reads env ps es" "map erase es = map erase args"
  obtains p e where "ps = [p]" "es = [e]" "deserialize_logical_expr env p = Inr (Some e)"
proof -
  have "length ps = length es" "length es = length args"
    using reads_length [OF assms(2)] assms(3) by (auto dest: map_eq_imp_length_eq)
  with assms(1,2) that show thesis by (auto simp: kid_lists)
qed

lemma column_node:
  assumes "serialize_semantic env f ps = Inr (lep which fs)" "map_of (readers env) which = Some reader"
    and "reader (over env fs) = Inr (SemanticExpr f es)" "map erase es = map erase args"
  shows "node_reads env (SemanticExpr f args) ps"
  by (rule node_readsI [of env _ _ which fs reader "SemanticExpr f es"]) (use assms in simp_all)

lemma alias_last:
  assumes "alias_ok a" "map_of fs ''model_alias'' = None"
  shows "read_alias (over env (fs @ alias_attr a)) = a"
  using assms by (intro alias_over) (simp_all add: map_add_def map_of_alias_attr split: option.split)

lemma classes_roundtrip:
  assumes "list_all (\<lambda>c. snd c \<noteq> Some []) cs"
  shows "map (\<lambda>v. deserialize_resolved_class_definition (case v of MsgV fs \<Rightarrow> fs | _ \<Rightarrow> []))
    (map serialize_resolved_class_definition cs) = cs"
  using assms
proof (induction cs)
  case (Cons c cs)
  then obtain fs where "serialize_resolved_class_definition c = MsgV fs" "deserialize_resolved_class_definition fs = c"
    using class_roundtrip [of c] by auto
  with Cons show ?case by simp
qed simp

lemma summary_roundtrip:
  assumes "summary_ok f"
  obtains fs where "summary_format_field f = Inr (MsgV fs)" "read_summary_format fs = Inr f"
  using assms that
  by (cases f) (simp_all add: int32_fits read_summary_format_def field_defs)

lemma extract_node:
  assumes ok: "sem_ok env (SemanticExtractExpr m te r a to) args"
    and es: "reads env ps es" "map erase es = map erase args"
  shows "node_reads env (SemanticExpr (SemanticExtractExpr m te r a to) args) ps"
proof -
  from ok have o: "alias_ok a" "fits32 m" "format_ok env r" "length args = 1" "to = None" by simp_all
  obtain p e where k: "ps = [p]" "es = [e]" "deserialize_logical_expr env p = Inr (Some e)" by (rule single [OF o(4) es])
  have "format_opt_ok env (Some r)" using o(3) by (simp add: format_opt_ok_def)
  then obtain fs where f: "format_attr env (Some r) = Inr fs" "\<And>n. n \<noteq> ''response_format'' \<Longrightarrow> map_of fs n = None"
    "\<And>gs. map_of gs ''response_format'' = map_of fs ''response_format'' \<Longrightarrow>
      deserialize_resolved_response_format env (msg_field gs ''response_format'') = Inr r"
    by (rule format_over) blast
  let ?gs = "zip [''expr''] ps @ [(''max_tokens'', IntV m), (''temperature'', RealV te)] @ alias_attr a @ fs"
  have "read_alias (over env ?gs) = a"
    by (rule alias_over [OF o(1)]) (simp add: map_add_def map_of_alias_attr f(2) k(1) split: option.split)
  moreover have "deserialize_resolved_response_format env (msg_field ?gs ''response_format'') = Inr r"
    by (rule f(3)) (simp add: map_add_def map_of_alias_attr k(1) split: option.split)
  ultimately show ?thesis
    using o k es(2) f(1)
    by (intro column_node [of env _ _ "''semantic_extract''" ?gs _ es], simp add: int32_fits,
        simp add: find_semantic semantic_readers_def, simp_all add: unary_over int_field_def real_field_def)
qed

lemma column_operator_node:
  assumes ok: "sem_ok env f args" and es: "reads env ps es" "map erase es = map erase args"
    and f: "(\<exists>cs te a to. f = SemanticClassifyExpr cs te a to) \<or> (\<exists>te a to. f = AnalyzeSentimentExpr te a to) \<or>
      (\<exists>a. f = EmbeddingsExpr a)"
  shows "node_reads env (SemanticExpr f args) ps"
proof -
  have "length args = 1" using ok f by auto
  then obtain p e where k: "ps = [p]" "es = [e]" "deserialize_logical_expr env p = Inr (Some e)" by (rule single [OF _ es])
  from f show ?thesis
  proof (elim disjE exE)
    fix cs te a to assume f: "f = SemanticClassifyExpr cs te a to"
    let ?fs = "[(''expr'', p), (''classes'', RepV (map serialize_resolved_class_definition cs)), (''temperature'', RealV te)]"
    have "read_alias (over env (?fs @ alias_attr a)) = a" using ok f by (intro alias_last) simp_all
    then show ?thesis
      using ok f k es(2) classes_roundtrip [of cs]
      by (intro column_node [of env _ _ "''semantic_classify''" "?fs @ alias_attr a" _ es], simp,
          simp add: find_semantic_column semantic_column_readers_def, simp_all add: unary_over field_defs)
  next
    fix te a to assume f: "f = AnalyzeSentimentExpr te a to"
    let ?fs = "[(''expr'', p), (''temperature'', RealV te)]"
    have "read_alias (over env (?fs @ alias_attr a)) = a" using ok f by (intro alias_last) simp_all
    then show ?thesis
      using ok f k es(2)
      by (intro column_node [of env _ _ "''analyze_sentiment''" "?fs @ alias_attr a" _ es], simp add: opt_field_def,
        simp add: find_semantic_column semantic_column_readers_def, simp_all add: unary_over field_defs)
  next
    fix a assume f: "f = EmbeddingsExpr a"
    let ?fs = "[(''expr'', p)]"
    have "read_alias (over env (?fs @ alias_attr a)) = a" using ok f by (intro alias_last) simp_all
    then show ?thesis
      using ok f k es(2)
      by (intro column_node [of env _ _ "''embeddings''" "?fs @ alias_attr a" _ es], simp add: opt_field_def,
        simp add: find_semantic_column semantic_column_readers_def, simp_all add: unary_over field_defs)
  qed
qed

lemma summarize_node:
  assumes ok: "sem_ok env (SemanticSummarizeExpr f te a to) args"
    and es: "reads env ps es" "map erase es = map erase args"
  shows "node_reads env (SemanticExpr (SemanticSummarizeExpr f te a to) args) ps"
proof -
  from ok have o: "alias_ok a" "summary_ok f" "length args = 1" "to = None" by simp_all
  obtain p e where k: "ps = [p]" "es = [e]" "deserialize_logical_expr env p = Inr (Some e)" by (rule single [OF o(3) es])
  obtain fs where f: "summary_format_field f = Inr (MsgV fs)" "read_summary_format fs = Inr f" by (rule summary_roundtrip [OF o(2)])
  let ?fs = "[(''expr'', p), (''format'', MsgV fs), (''temperature'', RealV te)]"
  have "read_alias (over env (?fs @ alias_attr a)) = a" using o by (intro alias_last) simp_all
  then show ?thesis
    using o k es(2) f
    by (intro column_node [of env _ _ "''semantic_summarize''" "?fs @ alias_attr a" _ es], simp add: opt_field_def,
        simp add: find_semantic_column semantic_column_readers_def, simp_all add: unary_over field_defs)
qed

lemma parse_pdf_node:
  assumes ok: "sem_ok env (SemanticParsePDFExpr a sep d m to) args"
    and es: "reads env ps es" "map erase es = map erase args"
  shows "node_reads env (SemanticExpr (SemanticParsePDFExpr a sep d m to) args) ps"
proof -
  from ok obtain s where o: "alias_ok a" "sep = Some s" "length args = 1" "to = None" "m = None" by auto
  obtain p e where k: "ps = [p]" "es = [e]" "deserialize_logical_expr env p = Inr (Some e)" by (rule single [OF o(3) es])
  let ?gs = "(''expr'', p) # alias_attr a @ [(''page_separator'', StrV s), (''describe_images'', BoolV d)]"
  have "read_alias (over env ?gs) = a"
    by (rule alias_over [OF o(1)]) (simp add: map_add_def map_of_alias_attr split: option.split)
  then show ?thesis
    using o k es(2)
    by (intro column_node [of env _ _ "''semantic_parse_pdf''" ?gs _ es], simp add: opt_field_def,
        simp add: find_semantic_column semantic_column_readers_def,
        simp_all add: unary_over str_field_def bool_field_def map_add_def map_of_alias_attr)
qed

lemma semantic_node:
  assumes ok: "sem_ok env f args" and es: "reads env ps es" "map erase es = map erase args"
  shows "node_reads env (SemanticExpr f args) ps"
proof (cases f)
  case SemanticMapExpr
  then show ?thesis using map_node [OF _ es] ok by blast
next
  case SemanticExtractExpr
  then show ?thesis using extract_node [OF _ es] ok by blast
next
  case SemanticPredExpr
  then show ?thesis using predicate_node [OF _ es] ok by blast
next
  case SemanticReduceExpr
  then show ?thesis using reduce_node [OF _ es] ok by blast
next
  case SemanticSummarizeExpr
  then show ?thesis using summarize_node [OF _ es] ok by blast
next
  case SemanticParsePDFExpr
  then show ?thesis using parse_pdf_node [OF _ es] ok by blast
qed (rule column_operator_node [OF ok es]; blast)+

section \<open>The round trip\<close>

text \<open>The other nodes.\<close>

lemma type_over:
  assumes "type_fits d"
  obtains p where "serialize_data_type d = Inr (MsgV p)"
    "\<And>env fs n. map_of fs n = Some (MsgV p) \<Longrightarrow> read_type (over env fs) n = Inr d"
proof -
  from data_type_roundtrip_lemma [OF assms] obtain p where
    p: "serialize_data_type d = Inr p" "deserialize_data_type p = Inr (Some d)" by blast
  with data_type_message [OF p(1)] that show thesis by (auto simp: read_type_def msg_field_def)
qed

lemma operator_roundtrip:
  "\<exists>i. serialize_enum_value (map fst operators) (operator_name op) = Inr (IntV i) \<and>
     deserialize_enum_value (map fst operators) (map fst operators) i = Inr (operator_name op) \<and>
     map_of operators (operator_name op) = Some op"
  by (cases op) (simp_all add: operators_def serialize_enum_value_def deserialize_enum_value_def)

lemma binary_node:
  assumes es: "reads env ps [e, e']" "erase e = erase l" "erase e' = erase r"
  shows "node_reads env (BinaryExpr c l r op) ps"
proof -
  from es(1) obtain p q where k: "ps = [p, q]" "deserialize_logical_expr env p = Inr (Some e)"
    "deserialize_logical_expr env q = Inr (Some e')" using reads_length [OF es(1)] by (auto simp: kid_lists)
  obtain i where i: "serialize_enum_value (map fst operators) (operator_name op) = Inr (IntV i)"
    "deserialize_enum_value (map fst operators) (map fst operators) i = Inr (operator_name op)"
    "map_of operators (operator_name op) = Some op" using operator_roundtrip by blast
  have "map_of (readers env) (binary_message c) = Some (read_binary c)"
    by (cases c) (simp_all add: find_binary binary_readers_def)
  then show ?thesis
    using k i es(2,3)
    by (intro node_readsI [of env _ _ "binary_message c" "[(''left'', p), (''right'', q), (''operator'', IntV i)]"
          "read_binary c" "BinaryExpr c e e' op"])
      (simp_all add: serialize_binary_def read_binary_def binary_over int_field_def)
qed

lemma when_node:
  assumes ok: "case prev of None \<Rightarrow> True | Some w \<Rightarrow> is_when w"
    and es: "reads env ps es" "map erase es = map erase ((case prev of None \<Rightarrow> [] | Some w \<Rightarrow> [w]) @ [c, v])"
  shows "node_reads env (WhenExpr prev c v) ps"
proof -
  have lookup: "map_of (readers env) ''when'' =
      Some (\<lambda>r. bind_res (r_expr r ''expr'') (\<lambda>e. binary (mk_when e) ''condition'' ''value'' r))"
    by (simp add: find_case case_readers_def)
  have len: "length ps = length es" by (rule reads_length [OF es(1)])
  show ?thesis
  proof (cases prev)
    case None
    with es(2) obtain e e' where e: "es = [e, e']" "erase e = erase c" "erase e' = erase v" by auto
    with es(1) len obtain p q where k: "ps = [p, q]" "deserialize_logical_expr env p = Inr (Some e)"
      "deserialize_logical_expr env q = Inr (Some e')" by (auto simp: kid_lists)
    have "r_expr (over env [(''expr'', MsgV []), (''condition'', p), (''value'', q)]) ''expr'' = Inr None"
      by (simp add: over_def deserialize_logical_expr.simps)
    with None e k show ?thesis
      by (intro node_readsI [where fs = "[(''expr'', MsgV []), (''condition'', p), (''value'', q)]" and
            e' = "WhenExpr None e e'", OF _ lookup])
        (simp_all add: serialize_when_def binary_over mk_when_def raise_if_def)
  next
    case (Some w)
    with es(2) obtain x e e' where e: "es = [x, e, e']" "erase x = erase w" "erase e = erase c" "erase e' = erase v" by auto
    with es(1) len obtain r p q where k: "ps = [r, p, q]" "deserialize_logical_expr env r = Inr (Some x)"
      "deserialize_logical_expr env p = Inr (Some e)" "deserialize_logical_expr env q = Inr (Some e')"
      by (auto simp: kid_lists)
    have "is_when x" using ok Some erase_is_when [OF e(2)] by simp
    with Some e k show ?thesis
      by (intro node_readsI [where fs = "[(''expr'', r), (''condition'', p), (''value'', q)]" and
            e' = "WhenExpr (Some x) e e'", OF _ lookup])
        (simp_all add: serialize_when_def r_expr_over binary_over mk_when_def raise_if_def)
  qed
qed

lemma otherwise_node:
  assumes "is_when w" "reads env ps [e, e']" "erase e = erase w" "erase e' = erase v"
  shows "node_reads env (OtherwiseExpr w v) ps"
proof -
  have lookup: "map_of (readers env) ''otherwise'' = Some (binary mk_otherwise ''expr'' ''value'')"
    by (simp add: find_case case_readers_def)
  obtain p q where k: "ps = [p, q]" "deserialize_logical_expr env p = Inr (Some e)"
    "deserialize_logical_expr env q = Inr (Some e')" using assms(2) reads_length [OF assms(2)] by (auto simp: kid_lists)
  have "is_when e" using assms(1) erase_is_when [OF assms(3)] by simp
  with k assms(3,4) show ?thesis
    by (intro node_readsI [where fs = "[(''expr'', p), (''value'', q)]" and e' = "OtherwiseExpr e e'", OF _ lookup])
      (simp_all add: binary_over mk_otherwise_def raise_if_def)
qed

lemma literal_node:
  assumes "scalar_ok env v" "type_fits d"
  shows "node_reads env (LiteralExpr v d) []"
proof -
  have lookup: "map_of (readers env) ''literal'' = Some (\<lambda>r.
         bind_res (at_path (deserialize_scalar_value env (MsgV (msg_field (r_fields r) ''value'')))) (\<lambda>v.
         bind_res (read_type r ''data_type'') (\<lambda>t. Inr (LiteralExpr v t))))"
    by (simp add: find_basic basic_readers_defs)
  from scalar_roundtrip [OF assms(1)] obtain fs where
    fs: "serialize_scalar_value env v = Inr (MsgV fs)" "deserialize_scalar_value env (MsgV fs) = Inr v" by blast
  obtain p where p: "serialize_data_type d = Inr (MsgV p)"
    "\<And>fs n. map_of fs n = Some (MsgV p) \<Longrightarrow> read_type (over env fs) n = Inr d" by (rule type_over [OF assms(2)]) blast
  from fs p show ?thesis
    by (intro node_readsI [where fs = "[(''value'', MsgV fs), (''data_type'', MsgV p)]" and e' = "LiteralExpr v d", OF _ lookup])
      (simp_all add: msg_field_def)
qed

lemma typed_node:
  assumes "type_fits d"
  shows "node_reads env (UnresolvedLiteralExpr d n) []"
    and "reads env ps [e] \<Longrightarrow> erase e = erase a \<Longrightarrow> node_reads env (CastExpr a d) ps"
proof -
  obtain p where p: "serialize_data_type d = Inr (MsgV p)"
    "\<And>fs n. map_of fs n = Some (MsgV p) \<Longrightarrow> read_type (over env fs) n = Inr d" by (rule type_over [OF assms]) blast
  show "node_reads env (UnresolvedLiteralExpr d n) []"
    using p by (intro node_readsI [of env _ _ "''unresolved_literal''" "[(''parameter_name'', StrV n), (''data_type'', MsgV p)]"
          _ "UnresolvedLiteralExpr d n"], simp, simp add: find_basic basic_readers_defs, simp_all add: str_field_def)
  assume e: "reads env ps [e]" "erase e = erase a"
  then obtain q where q: "ps = [q]" "deserialize_logical_expr env q = Inr (Some e)"
    using reads_length [OF e(1)] by (auto simp: kid_lists)
  show "node_reads env (CastExpr a d) ps"
    using p q e(2) by (intro node_readsI [of env _ _ "''cast''" "[(''expr'', q), (''dest_type'', MsgV p)]"
          _ "CastExpr e d"], simp, simp add: find_basic basic_readers_defs, simp_all add: unary_over)
qed

lemma one_child_node:
  assumes "reads env ps [e]" "erase e = erase a"
  shows "node_reads env (AliasExpr a n) ps" "node_reads env (SortExpr a b c) ps"
    "node_reads env (IsNullExpr a b) ps" "node_reads env (NotExpr a) ps"
proof -
  obtain p where p: "ps = [p]" "deserialize_logical_expr env p = Inr (Some e)"
    using assms(1) reads_length [OF assms(1)] by (auto simp: kid_lists)
  show "node_reads env (AliasExpr a n) ps"
    using p assms(2) by (intro node_readsI [of env _ _ "''alias''" "[(''expr'', p), (''name'', StrV n)]" _ "AliasExpr e n"],
        simp, simp add: find_basic basic_readers_defs, simp_all add: unary_over field_defs)
  show "node_reads env (SortExpr a b c) ps"
    using p assms(2) by (intro node_readsI [of env _ _ "''sort''" "[(''expr'', p), (''ascending'', BoolV b), (''nulls_last'', BoolV c)]"
          _ "SortExpr e b c"], simp, simp add: find_basic basic_readers_defs, simp_all add: unary_over field_defs)
  show "node_reads env (IsNullExpr a b) ps"
    using p assms(2) by (intro node_readsI [of env _ _ "''is_null''" "[(''expr'', p), (''is_null'', BoolV b)]" _ "IsNullExpr e b"],
        simp, simp add: find_basic basic_readers_defs, simp_all add: unary_over field_defs)
  show "node_reads env (NotExpr a) ps"
    using p assms(2) by (intro node_readsI [of env _ _ "''not_expr''" "[(''expr'', p)]" _ "NotExpr e"],
        simp, simp add: find_basic basic_readers_defs, simp_all add: unary_over)
qed

lemma two_children_node:
  assumes "reads env ps [e, e']" "erase e = erase a" "erase e' = erase b"
  shows "node_reads env (IndexExpr a b) ps" "node_reads env (InExpr a b) ps"
proof -
  obtain p q where p: "ps = [p, q]" "deserialize_logical_expr env p = Inr (Some e)"
    "deserialize_logical_expr env q = Inr (Some e')" using assms(1) reads_length [OF assms(1)] by (auto simp: kid_lists)
  show "node_reads env (IndexExpr a b) ps"
    using p assms(2,3) by (intro node_readsI [of env _ _ "''index''" "[(''expr'', p), (''index'', q)]" _ "IndexExpr e e'"],
        simp, simp add: find_basic basic_readers_defs, simp_all add: binary_over)
  show "node_reads env (InExpr a b) ps"
    using p assms(2,3) by (intro node_readsI [of env _ _ "''in_expr''" "[(''expr'', p), (''other'', q)]" _ "InExpr e e'"],
        simp, simp add: find_basic basic_readers_defs, simp_all add: binary_over)
qed

lemma column_reads: "node_reads env (ColumnExpr n) []"
  by (intro node_readsI [of env _ _ "''column''" "[(''name'', StrV n)]" _ "ColumnExpr n"],
      simp, simp add: find_basic basic_readers_defs, simp_all add: str_field_def)

text \<open>Every node that survives is read back over the messages of its children.\<close>

lemma every_node_reads:
  assumes ok: "node_ok env e" and es: "reads env ps es" "map erase es = map erase (expr_children e)"
  shows "node_reads env e ps"
proof (cases e)
  case ColumnExpr
  with es column_reads show ?thesis by (auto simp: reads_def)
next
  case LiteralExpr
  with ok es literal_node show ?thesis by (auto simp: reads_def)
next
  case UnresolvedLiteralExpr
  with ok es typed_node(1) show ?thesis by (auto simp: reads_def)
next
  case (AliasExpr a n)
  with es obtain x where "es = [x]" "erase x = erase a" by auto
  with es AliasExpr one_child_node show ?thesis by blast
next
  case (SortExpr a b c)
  with es obtain x where "es = [x]" "erase x = erase a" by auto
  with es SortExpr one_child_node show ?thesis by blast
next
  case (IsNullExpr a b)
  with es obtain x where "es = [x]" "erase x = erase a" by auto
  with es IsNullExpr one_child_node show ?thesis by blast
next
  case (NotExpr a)
  with es obtain x where "es = [x]" "erase x = erase a" by auto
  with es NotExpr one_child_node show ?thesis by blast
next
  case (CastExpr a d)
  with es obtain x where "es = [x]" "erase x = erase a" by auto
  with ok es CastExpr typed_node(2) show ?thesis by auto
next
  case (IndexExpr a b)
  with es obtain x y where "es = [x, y]" "erase x = erase a" "erase y = erase b" by auto
  with es IndexExpr two_children_node show ?thesis by blast
next
  case (InExpr a b)
  with es obtain x y where "es = [x, y]" "erase x = erase a" "erase y = erase b" by auto
  with es InExpr two_children_node show ?thesis by blast
next
  case (BinaryExpr c l r op)
  with es obtain x y where "es = [x, y]" "erase x = erase l" "erase y = erase r" by auto
  with es BinaryExpr binary_node show ?thesis by blast
next
  case (WhenExpr prev c v)
  with ok es when_node [of prev env ps es c v] show ?thesis by simp
next
  case (OtherwiseExpr w v)
  with es obtain x y where "es = [x, y]" "erase x = erase w" "erase y = erase v" by auto
  with ok es OtherwiseExpr otherwise_node show ?thesis by auto
next
  case (FunctionExpr f args)
  with ok es function_node show ?thesis by simp
next
  case (SemanticExpr f args)
  with ok es semantic_node show ?thesis by simp
next
  case (DateTimeExpr f args)
  with ok es date_node show ?thesis by simp
next
  case (JinjaExpr t s v args)
  with ok es jinja_node show ?thesis by simp
qed (use ok in simp_all)

lemma children_written:
  assumes "\<And>c. c \<in> set cs \<Longrightarrow> \<exists>p e'. serialize_logical_expr env c = Inr p \<and>
      deserialize_logical_expr env p = Inr (Some e') \<and> erase e' = erase c"
  shows "\<exists>ps es. map_res (\<lambda>c. at_path (serialize_logical_expr env c)) cs = Inr ps \<and>
      reads env ps es \<and> map erase es = map erase cs"
  using assms
proof (induction cs)
  case (Cons c cs)
  from Cons.prems [of c] obtain p e where c: "serialize_logical_expr env c = Inr p"
    "deserialize_logical_expr env p = Inr (Some e)" "erase e = erase c" by auto
  have "\<exists>ps es. map_res (\<lambda>c. at_path (serialize_logical_expr env c)) cs = Inr ps \<and>
      reads env ps es \<and> map erase es = map erase cs" by (rule Cons.IH) (rule Cons.prems, simp)
  then obtain ps es where "map_res (\<lambda>c. at_path (serialize_logical_expr env c)) cs = Inr ps"
    "reads env ps es" "map erase es = map erase cs" by blast
  with c show ?case by (intro exI [of _ "p # ps"] exI [of _ "e # es"]) simp
qed simp

lemma expression_read_back:
  "serializable env e \<Longrightarrow>
   \<exists>p e'. serialize_logical_expr env e = Inr p \<and> deserialize_logical_expr env p = Inr (Some e') \<and> erase e' = erase e"
proof (induction env e rule: serializable.induct)
  case (1 env e)
  have ok: "node_ok env e" and kids: "c \<in> set (expr_children e) \<Longrightarrow> serializable env c" for c
    using 1(2) by (simp_all add: serializable.simps [of env e] list_all_iff)
  have "\<exists>ps es. map_res (\<lambda>c. at_path (serialize_logical_expr env c)) (expr_children e) = Inr ps \<and>
      reads env ps es \<and> map erase es = map erase (expr_children e)"
    by (rule children_written) (rule 1(1), assumption, rule kids)
  then obtain ps es where w: "map_res (\<lambda>c. at_path (serialize_logical_expr env c)) (expr_children e) = Inr ps"
    "reads env ps es" "map erase es = map erase (expr_children e)" by blast
  have "\<not> is_udf e" using ok by (cases e) (simp_all add: is_udf_def)
  with w(1) have "serialize_logical_expr env e = serialize_node env e ps"
    by (simp add: serialize_logical_expr.simps [of env e])
  with every_node_reads [OF ok w(2,3)] show ?case by (simp add: node_reads_def)
qed


definition plain_env :: SerdeEnv where
  "plain_env = \<lparr>other_to_proto = (\<lambda>_. Inl PyTypeError), other_of_proto = (\<lambda>_. Inl PyTypeError),
     schema_text = (\<lambda>_. Inl PyTypeError), prompt_definition = (\<lambda>_. []), format_of_schema = (\<lambda>_ _ _. Inl PyTypeError),
     template_ast = (\<lambda>_. Inl ValidationError), valid_regex = (\<lambda>_. True)\<rparr>"


section \<open>What is lost\<close>

text \<open>An index of a regular expression's group is an integer, which is written as an expression:
  no extraction can be written.\<close>

theorem regexp_extract_not_written:
  "serialize_logical_expr env (FunctionExpr (TextExpr (RegexpExtractExpr i)) args) \<noteq> Inr p"
  by (simp add: serialize_logical_expr.simps is_udf_def serialize_function_def fn_message_def at_path_def bind_res_def
      split: sum.splits)

text \<open>No message has a request timeout: the same message is written for every timeout.\<close>

fun without_timeout :: "SemFn \<Rightarrow> SemFn" where
  "without_timeout (SemanticMapExpr t s v m te a r _) = SemanticMapExpr t s v m te a r None"
| "without_timeout (SemanticExtractExpr m te r a _) = SemanticExtractExpr m te r a None"
| "without_timeout (SemanticPredExpr t s v te a _) = SemanticPredExpr t s v te a None"
| "without_timeout (SemanticReduceExpr i v ns m te a _) = SemanticReduceExpr i v ns m te a None"
| "without_timeout (SemanticClassifyExpr cs te a _) = SemanticClassifyExpr cs te a None"
| "without_timeout (AnalyzeSentimentExpr te a _) = AnalyzeSentimentExpr te a None"
| "without_timeout (EmbeddingsExpr a) = EmbeddingsExpr a"
| "without_timeout (SemanticSummarizeExpr f te a _) = SemanticSummarizeExpr f te a None"
| "without_timeout (SemanticParsePDFExpr a sep d _ _) = SemanticParsePDFExpr a sep d None None"

theorem timeout_not_written:
  "serialize_logical_expr env (SemanticExpr f args) = serialize_logical_expr env (SemanticExpr (without_timeout f) args)"
proof -
  have "serialize_node env (SemanticExpr f args) = serialize_node env (SemanticExpr (without_timeout f) args)"
    by (rule ext) (cases f; simp)
  then show ?thesis by (simp add: serialize_logical_expr.simps is_udf_def)
qed

text \<open>A PDF parsed without a page separator is read back with the empty separator.\<close>

theorem pdf_separator_changes:
  "\<exists>p e'. serialize_logical_expr env (SemanticExpr (SemanticParsePDFExpr None None d None None) [ColumnExpr n]) = Inr p \<and>
     deserialize_logical_expr env p = Inr (Some e') \<and>
     \<not> expr_eq e' (SemanticExpr (SemanticParsePDFExpr None None d None None) [ColumnExpr n])"
proof -
  let ?c = "lep ''column'' [(''name'', StrV n)]"
  have c: "deserialize_logical_expr env ?c = Inr (Some (ColumnExpr n))"
    by (simp add: read_lep find_basic basic_readers_defs str_field_def)
  show ?thesis
    by (simp add: serialize_logical_expr.simps is_udf_def alias_attr_def serialize_resolved_model_alias_def opt_field_def
        read_lep find_semantic_column semantic_column_readers_def unary_over [OF _ c] expr_eq_erase
        read_alias_def has_field_def str_field_def bool_field_def)
qed

text \<open>The flag of a distinct count is not written.\<close>

theorem count_distinct_flag_lost:
  "\<exists>p. serialize_logical_expr env (FunctionExpr (CountDistinctExpr True) [ColumnExpr n]) = Inr p \<and>
     deserialize_logical_expr env p = Inr (Some (FunctionExpr (CountDistinctExpr False) [ColumnExpr n]))"
proof -
  let ?c = "lep ''column'' [(''name'', StrV n)]"
  have c: "deserialize_logical_expr env ?c = Inr (Some (ColumnExpr n))"
    by (simp add: read_lep find_basic basic_readers_defs str_field_def)
  then have "r_exprs (over env [(''exprs'', RepV [?c])]) ''exprs'' = Inr [ColumnExpr n]"
    by (intro exprs_over [of _ _ "[?c]"]) simp_all
  then show ?thesis
    by (simp add: serialize_logical_expr.simps is_udf_def serialize_function_def fn_message_def read_lep
        find_aggregate aggregate_readers_defs plain_def read_kids_def)
qed

text \<open>Integers are 32 bits wide in the messages.\<close>

theorem large_integer_not_written:
  "2147483647 < i \<Longrightarrow> serialize_logical_expr env (LiteralExpr (PyInt i) IntegerType) = Inl PyRuntimeError"
  by (simp add: serialize_logical_expr.simps is_udf_def int32_def at_path_def isinstance_exn.simps)

theorem large_integer_not_written_witness:
  "serialize_logical_expr plain_env (LiteralExpr (PyInt 3000000000) IntegerType) = Inl PyRuntimeError"
  by (rule large_integer_not_written) simp

text \<open>A similarity to a vector cannot be written.\<close>

theorem query_vector_not_written:
  "serialize_logical_expr env (FunctionExpr (EmbeddingSimilarityExpr m (Some v)) args) \<noteq> Inr p"
  by (simp add: serialize_logical_expr.simps is_udf_def serialize_function_def fn_message_def at_path_def bind_res_def
      split: sum.splits)

end
