(* ===== verification/PlanSerde.thy ===== *)
theory PlanSerde
  imports Plans SerdeRoundTrip
begin

text \<open>
  Equality and serialization of plans (\<^verbatim>\<open>src/fenic/core/_logical_plan/plans/base.py\<close>,
  \<^verbatim>\<open>src/fenic/core/_serde/proto/plan_serde.py\<close> and \<^verbatim>\<open>plans/\<close>).  A plan is written as the
  message of its node over the messages of its children, with its schema and its cache
  information; it is read back through \<^verbatim>\<open>from_schema\<close> of its class.  The bytes of a data frame
  are a parameter.  The lemmas show that every constructed plan whose attributes the messages
  can hold is read back as an equal plan, and which attributes the messages cannot hold.
\<close>

section \<open>Equality of plans\<close>

fun node_eq_specific :: "Node \<Rightarrow> Node \<Rightarrow> bool" where
  "node_eq_specific (InMemorySource d) m = (case m of InMemorySource d' \<Rightarrow> d = d' | _ \<Rightarrow> False)"
| "node_eq_specific (FileSource ps f opts) m =
     (case m of FileSource ps' f' opts' \<Rightarrow> ps = ps' \<and> f = f' \<and> opts = opts' | _ \<Rightarrow> False)"
| "node_eq_specific (TableSource n) m = (case m of TableSource n' \<Rightarrow> n = n' | _ \<Rightarrow> False)"
| "node_eq_specific (DocSource ps c x r) m =
     (case m of DocSource ps' c' x' r' \<Rightarrow> ps = ps' \<and> c = c' \<and> x = x' \<and> r = r' | _ \<Rightarrow> False)"
| "node_eq_specific (Projection es) m = (case m of Projection es' \<Rightarrow> list_eq_with expr_eq es es' | _ \<Rightarrow> False)"
| "node_eq_specific (Filter p) m = (case m of Filter p' \<Rightarrow> expr_eq p p' | _ \<Rightarrow> False)"
| "node_eq_specific UnionAll m = (case m of UnionAll \<Rightarrow> True | _ \<Rightarrow> False)"
| "node_eq_specific (Limit n) m = (case m of Limit n' \<Rightarrow> n = n' | _ \<Rightarrow> False)"
| "node_eq_specific (Explode e keep) m = (case m of Explode e' keep' \<Rightarrow> expr_eq e e' \<and> keep = keep' | _ \<Rightarrow> False)"
| "node_eq_specific (ExplodeWithIndex e i v keep) m =
     (case m of ExplodeWithIndex e' i' v' keep' \<Rightarrow> expr_eq e e' \<and> i = i' \<and> v = v' \<and> keep = keep' | _ \<Rightarrow> False)"
| "node_eq_specific (DropDuplicates ns) m =
     (case m of DropDuplicates ns' \<Rightarrow> list_eq_with expr_eq (map ColumnExpr ns) (map ColumnExpr ns') | _ \<Rightarrow> False)"
| "node_eq_specific (Sort es) m = (case m of Sort es' \<Rightarrow> list_eq_with expr_eq es es' | _ \<Rightarrow> False)"
| "node_eq_specific (Unnest ns) m =
     (case m of Unnest ns' \<Rightarrow> list_eq_with expr_eq (map ColumnExpr ns) (map ColumnExpr ns') | _ \<Rightarrow> False)"
| "node_eq_specific (SQL ns q) m = (case m of SQL ns' q' \<Rightarrow> ns = ns' \<and> q = q' | _ \<Rightarrow> False)"
| "node_eq_specific (SemanticCluster e k mi ni l c t) m =
     (case m of SemanticCluster e' k' mi' ni' l' c' t' \<Rightarrow>
        expr_eq e e' \<and> k = k' \<and> mi = mi' \<and> ni = ni' \<and> l = l' \<and> c = c' \<and> t = t' | _ \<Rightarrow> False)"
| "node_eq_specific (Aggregate gs as) m =
     (case m of Aggregate gs' as' \<Rightarrow> list_eq_with expr_eq gs gs' \<and>
        list_eq_with (\<lambda>(e, n) (e', n'). expr_eq (AliasExpr e n) (AliasExpr e' n')) as as' | _ \<Rightarrow> False)"
| "node_eq_specific (Join ls rs how) m =
     (case m of Join ls' rs' how' \<Rightarrow> list_eq_with expr_eq ls ls' \<and> list_eq_with expr_eq rs rs' \<and> how = how' | _ \<Rightarrow> False)"
| "node_eq_specific (SemanticJoin l r t s te a to) m =
     (case m of SemanticJoin l' r' t' s' te' a' to' \<Rightarrow>
        expr_eq l l' \<and> expr_eq r r' \<and> t = t' \<and> s = s' \<and> te = te' \<and> a = a' \<and> to = to' | _ \<Rightarrow> False)"
| "node_eq_specific (SemanticSimilarityJoin l r k me sc to) m =
     (case m of SemanticSimilarityJoin l' r' k' me' sc' to' \<Rightarrow>
        expr_eq l l' \<and> expr_eq r r' \<and> k = k' \<and> me = me' \<and> sc = sc' \<and> to = to' | _ \<Rightarrow> False)"
| "node_eq_specific (FileSink t p mode) m =
     (case m of FileSink t' p' mode' \<Rightarrow> t = t' \<and> p = p' \<and> mode = mode' | _ \<Rightarrow> False)"
| "node_eq_specific (TableSink n mode) m = (case m of TableSink n' mode' \<Rightarrow> n = n' \<and> mode = mode' | _ \<Rightarrow> False)"

text \<open>The cache information is not compared.\<close>

fun plan_eq :: "LogicalPlan \<Rightarrow> LogicalPlan \<Rightarrow> bool" where
  "plan_eq p q \<longleftrightarrow> plan_schema p = plan_schema q \<and> node_eq_specific (plan_node p) (plan_node q) \<and>
     list_eq_with plan_eq (plan_children p) (plan_children q)"

declare plan_eq.simps [simp del]

text \<open>A node and a plan with its expressions reduced to what their equality compares.\<close>

fun erase_node :: "Node \<Rightarrow> Node" where
  "erase_node (Projection es) = Projection (map erase es)"
| "erase_node (Filter p) = Filter (erase p)"
| "erase_node (Explode e keep) = Explode (erase e) keep"
| "erase_node (ExplodeWithIndex e i v keep) = ExplodeWithIndex (erase e) i v keep"
| "erase_node (Sort es) = Sort (map erase es)"
| "erase_node (SemanticCluster e k mi ni l c t) = SemanticCluster (erase e) k mi ni l c t"
| "erase_node (Aggregate gs as) = Aggregate (map erase gs) (map (\<lambda>(e, n). (erase e, n)) as)"
| "erase_node (Join ls rs how) = Join (map erase ls) (map erase rs) how"
| "erase_node (SemanticJoin l r t s te a to) = SemanticJoin (erase l) (erase r) t s te a to"
| "erase_node (SemanticSimilarityJoin l r k me sc to) = SemanticSimilarityJoin (erase l) (erase r) k me sc to"
| "erase_node n = n"

fun erase_plan :: "LogicalPlan \<Rightarrow> LogicalPlan" where
  "erase_plan (Plan n cs s c) = Plan (erase_node n) (map erase_plan cs) s c"

lemma exprs_eq_erase: "list_eq_with expr_eq es es' \<longleftrightarrow> map erase es = map erase es'"
  by (rule list_eq_with_map) (simp add: expr_eq_erase)

lemma named_eq_erase:
  "list_eq_with (\<lambda>(e, n) (e', n'). erase e = erase e' \<and> n = n') as as' \<longleftrightarrow>
   map (\<lambda>(e, n). (erase e, n)) as = map (\<lambda>(e, n). (erase e, n)) as'"
  by (rule list_eq_with_map) auto

lemma columns_inj: "map (erase \<circ> ColumnExpr) ns = map (erase \<circ> ColumnExpr) ns' \<longleftrightarrow> ns = ns'"
  by (auto simp: list_eq_iff_nth_eq)

lemma node_eq_erase: "node_eq_specific n m \<longleftrightarrow> erase_node n = erase_node m"
  by (cases n; cases m) (simp_all add: exprs_eq_erase expr_eq_erase named_eq_erase columns_inj)

lemma plan_eq_erase: "erase_plan p = erase_plan q \<Longrightarrow> plan_eq p q"
proof (induction p q rule: plan_eq.induct)
  case (1 p q)
  obtain n cs s c where p: "p = Plan n cs s c" by (cases p)
  obtain m ds t d where q: "q = Plan m ds t d" by (cases q)
  have "list_all2 (=) (map erase_plan cs) (map erase_plan ds)" using 1(2) p q by (simp add: list.rel_eq)
  then have "list_all2 (\<lambda>a b. erase_plan a = erase_plan b) cs ds" by (simp only: list_all2_map1 list_all2_map2)
  then have "list_eq_with plan_eq cs ds"
    unfolding list_eq_with_iff using 1(1) 1(2) p q by (simp add: list_all2_conv_all_nth node_eq_erase)
  with 1(2) p q show ?case by (subst plan_eq.simps) (simp add: node_eq_erase)
qed

section \<open>Messages of plans\<close>

text \<open>
  The temperature of a semantic join is a field of single precision; the nearest number with
  24 significant bits, half-way cases to the even one.
\<close>

definition round_half_even :: "real \<Rightarrow> int" where
  "round_half_even y =
     (let n = \<lfloor>y\<rfloor>; d = y - of_int n
      in if d < 1 / 2 then n else if 1 / 2 < d then n + 1 else if even n then n else n + 1)"

definition float32 :: "real \<Rightarrow> real" where
  "float32 x =
     (if x = 0 then 0
      else let u = 2 powi (\<lfloor>log 2 \<bar>x\<bar>\<rfloor> - 23) in of_int (round_half_even (x / u)) * u)"

text \<open>The conversions of expressions, the session of the plans, and the bytes of a data frame.\<close>

record PlanSerdeEnv =
  expr_serde :: SerdeEnv
  plan_session :: PlanEnv
  frame_bytes :: "nat \<Rightarrow> string"
  frame_of_bytes :: "string \<Rightarrow> nat res"

definition doc_types :: "string list" where
  "doc_types = [''markdown'', ''json'', ''pdf'']"

definition doc_type_names :: "string list" where
  "doc_type_names = [''MARKDOWN'', ''JSON'', ''PDF'']"

definition similarity_metrics :: "string list" where
  "similarity_metrics = [''cosine'', ''l2'', ''dot'']"

definition similarity_metric_names :: "string list" where
  "similarity_metric_names = [''COSINE'', ''L2'', ''DOT'']"

fun plan_message :: "Node \<Rightarrow> string \<times> Kids" where
  "plan_message (InMemorySource _) = (''in_memory_source'', One [])"
| "plan_message (FileSource _ _ _) = (''file_source'', One [])"
| "plan_message (TableSource _) = (''table_source'', One [])"
| "plan_message (DocSource _ _ _ _) = (''doc_source'', One [])"
| "plan_message (Projection _) = (''projection'', One [''input''])"
| "plan_message (Filter _) = (''filter'', One [''input''])"
| "plan_message UnionAll = (''union'', Many ''inputs'')"
| "plan_message (Limit _) = (''limit'', One [''input''])"
| "plan_message (Explode _ _) = (''explode'', One [''input''])"
| "plan_message (ExplodeWithIndex _ _ _ _) = (''explode_with_index'', One [''input''])"
| "plan_message (DropDuplicates _) = (''drop_duplicates'', One [''input''])"
| "plan_message (Sort _) = (''sort'', One [''input''])"
| "plan_message (Unnest _) = (''unnest'', One [''input''])"
| "plan_message (SQL _ _) = (''sql'', Many ''inputs'')"
| "plan_message (SemanticCluster _ _ _ _ _ _ _) = (''semantic_cluster'', One [''input''])"
| "plan_message (Aggregate _ _) = (''aggregate'', One [''input''])"
| "plan_message (Join _ _ _) = (''join'', One [''left'', ''right''])"
| "plan_message (SemanticJoin _ _ _ _ _ _ _) = (''semantic_join'', One [''left'', ''right''])"
| "plan_message (SemanticSimilarityJoin _ _ _ _ _ _) = (''semantic_similarity_join'', One [''left'', ''right''])"
| "plan_message (FileSink _ _ _) = (''file_sink'', One [''child''])"
| "plan_message (TableSink _ _) = (''table_sink'', One [''child''])"

definition expr_value :: "SerdeEnv \<Rightarrow> LogicalExpr \<Rightarrow> ProtoValue res" where
  "expr_value env e = at_path (serialize_logical_expr env e)"

definition exprs_value :: "SerdeEnv \<Rightarrow> LogicalExpr list \<Rightarrow> ProtoValue res" where
  "exprs_value env es = bind_res (map_res (expr_value env) es) (\<lambda>ps. Inr (RepV ps))"

text \<open>Fields of which some can fail.\<close>

definition all_fields :: "(string \<times> ProtoValue res) list \<Rightarrow> Fields res" where
  "all_fields fs = map_res (\<lambda>(n, v). bind_res v (\<lambda>p. Inr (n, p))) fs"

fun source_attributes :: "PlanSerdeEnv \<Rightarrow> Node \<Rightarrow> Fields res" where
  "source_attributes env (InMemorySource d) = Inr [(''source'', StrV (frame_bytes env d))]"
| "source_attributes env (FileSource paths fmt opts) =
     bind_res (case read_schema opts of
         None \<Rightarrow> Inr []
       | Some s \<Rightarrow> bind_res (serialize_fenic_schema s) (\<lambda>p. Inr [(''options_schema'', p)])) (\<lambda>sch.
       Inr ([(''paths'', RepV (map StrV paths)), (''file_format'', StrV fmt)] @
            opt_field ''options_merge_schema'' (map_option BoolV (merge_schemas opts)) @ sch))"
| "source_attributes env (TableSource n) = Inr [(''table_name'', StrV n)]"
| "source_attributes env (DocSource paths c x r) =
     bind_res (literal_attr ''content_type'' doc_type_names c) (\<lambda>ct.
       Inr ([(''paths'', RepV (map StrV paths))] @ ct @ opt_field ''exclude'' (map_option StrV x) @
            [(''recursive'', BoolV r)]))"
| "source_attributes env _ = Inl SerializationError"

fun transform_attributes :: "SerdeEnv \<Rightarrow> Node \<Rightarrow> Fields res" where
  "transform_attributes env (Projection es) = all_fields [(''exprs'', exprs_value env es)]"
| "transform_attributes env (Filter p) = all_fields [(''predicate'', expr_value env p)]"
| "transform_attributes env UnionAll = Inr []"
| "transform_attributes env (Limit n) = all_fields [(''n'', int32 n)]"
| "transform_attributes env (Explode e keep) =
     all_fields [(''expr'', expr_value env e), (''keep_null_and_empty'', Inr (BoolV keep))]"
| "transform_attributes env (ExplodeWithIndex e i v keep) =
     all_fields [(''expr'', expr_value env e), (''index_name'', Inr (StrV i)), (''value_name'', Inr (StrV v)),
             (''keep_null_and_empty'', Inr (BoolV keep))]"
| "transform_attributes env (DropDuplicates ns) = all_fields [(''subset'', exprs_value env (map ColumnExpr ns))]"
| "transform_attributes env (Sort es) = all_fields [(''sort_exprs'', exprs_value env es)]"
| "transform_attributes env (Unnest ns) = all_fields [(''exprs'', exprs_value env (map ColumnExpr ns))]"
| "transform_attributes env (SQL ns q) =
     Inr [(''template_names'', RepV (map StrV ns)), (''templated_query'', StrV q)]"
| "transform_attributes env (SemanticCluster e k mi ni l c _) =
     bind_res (all_fields [(''by_expr'', expr_value env e), (''num_clusters'', int32 k), (''max_iter'', int32 mi),
             (''num_init'', int32 ni), (''label_column'', Inr (StrV l))]) (\<lambda>fs.
       Inr (fs @ opt_field ''centroid_column'' (map_option StrV c)))"
| "transform_attributes env _ = Inl SerializationError"

text \<open>Neither join with a model nor the clustering has a field for the request timeout.\<close>

fun join_attributes :: "SerdeEnv \<Rightarrow> Node \<Rightarrow> Fields res" where
  "join_attributes env (Aggregate gs as) =
     all_fields [(''group_exprs'', exprs_value env gs),
             (''agg_exprs'', exprs_value env (map (\<lambda>(e, n). AliasExpr e n) as))]"
| "join_attributes env (Join ls rs how) =
     all_fields [(''left_on'', exprs_value env ls), (''right_on'', exprs_value env rs), (''join_type'', Inr (StrV how))]"
| "join_attributes env (SemanticJoin l r t s te a _) =
     bind_res (all_fields [(''left_on'', expr_value env l), (''right_on'', expr_value env r),
             (''jinja_template'', Inr (StrV t)), (''strict'', Inr (BoolV s)),
             (''temperature'', Inr (RealV (float32 te)))]) (\<lambda>fs. Inr (fs @ alias_attr a))"
| "join_attributes env (SemanticSimilarityJoin l r k m sc _) =
     bind_res (all_fields [(''left_on'', expr_value env l), (''right_on'', expr_value env r), (''k'', int32 k),
             (''similarity_metric'', at_path (serialize_python_literal similarity_metric_names m))]) (\<lambda>fs.
       Inr (fs @ opt_field ''similarity_score_column'' (map_option StrV sc)))"
| "join_attributes env _ = Inl SerializationError"

fun sink_attributes :: "Node \<Rightarrow> Fields res" where
  "sink_attributes (FileSink t p m) = Inr [(''path'', StrV p), (''sink_type'', StrV t), (''mode'', StrV m)]"
| "sink_attributes (TableSink n m) = Inr [(''table_name'', StrV n), (''mode'', StrV m)]"
| "sink_attributes _ = Inl SerializationError"

fun is_sink :: "Node \<Rightarrow> bool" where
  "is_sink (FileSink _ _ _) = True"
| "is_sink (TableSink _ _) = True"
| "is_sink _ = False"

fun is_join :: "Node \<Rightarrow> bool" where
  "is_join (Aggregate _ _) = True"
| "is_join (Join _ _ _) = True"
| "is_join (SemanticJoin _ _ _ _ _ _ _) = True"
| "is_join (SemanticSimilarityJoin _ _ _ _ _ _) = True"
| "is_join _ = False"

definition plan_attributes :: "PlanSerdeEnv \<Rightarrow> Node \<Rightarrow> Fields res" where
  "plan_attributes env n =
     (if is_source n then source_attributes env n
      else if is_join n then join_attributes (expr_serde env) n
      else if is_sink n then sink_attributes n
      else transform_attributes (expr_serde env) n)"

text \<open>An absent key of the cache information is an unset field.\<close>

definition cache_info_field :: "string option option \<Rightarrow> Fields" where
  "cache_info_field c =
     opt_field ''cache_info'' (map_option (\<lambda>k. MsgV (opt_field ''cache_key'' (map_option StrV k))) c)"

fun serialize_logical_plan :: "PlanSerdeEnv \<Rightarrow> LogicalPlan \<Rightarrow> ProtoValue res" where
  "serialize_logical_plan env (Plan n cs s c) =
     bind_res (map_res (\<lambda>d. at_path (serialize_logical_plan env d)) cs) (\<lambda>ps.
     bind_res (plan_attributes env n) (\<lambda>attrs.
     bind_res (serialize_fenic_schema s) (\<lambda>sp.
       Inr (MsgV ((fst (plan_message n), MsgV (kid_fields (snd (plan_message n)) ps @ attrs)) #
                  (''schema'', sp) # cache_info_field c)))))"

declare serialize_logical_plan.simps [simp del]

section \<open>Reading plans\<close>

record PlanReader =
  p_fields :: Fields
  p_plan :: "string \<Rightarrow> LogicalPlan option res"
  p_plans :: "string \<Rightarrow> LogicalPlan list res"

definition plan_kids :: "Kids \<Rightarrow> PlanReader \<Rightarrow> LogicalPlan list res" where
  "plan_kids k r =
     (case k of One ns \<Rightarrow> map_res (\<lambda>n. bind_res (p_plan r n) required) ns | Many n \<Rightarrow> p_plans r n)"

definition read_expr :: "SerdeEnv \<Rightarrow> Fields \<Rightarrow> string \<Rightarrow> LogicalExpr res" where
  "read_expr env fs n =
     (case map_of fs n of
        None \<Rightarrow> Inl PyAttributeError
      | Some p \<Rightarrow> bind_res (at_path (deserialize_logical_expr env p)) required)"

definition read_exprs :: "SerdeEnv \<Rightarrow> Fields \<Rightarrow> string \<Rightarrow> LogicalExpr list res" where
  "read_exprs env fs n =
     map_res (\<lambda>p. bind_res (at_path (deserialize_logical_expr env p)) required) (rep_field fs n)"

text \<open>The columns of a node, which are column expressions, and its named aggregates.\<close>

definition column_names_of :: "LogicalExpr list \<Rightarrow> string list res" where
  "column_names_of es = map_res (\<lambda>e. case e of ColumnExpr n \<Rightarrow> Inr n | _ \<Rightarrow> Inl PyAttributeError) es"

definition named_of :: "LogicalExpr list \<Rightarrow> (LogicalExpr \<times> string) list res" where
  "named_of es = map_res (\<lambda>e. case e of AliasExpr a n \<Rightarrow> Inr (a, n) | _ \<Rightarrow> Inl PlanError) es"

definition opt_str :: "Fields \<Rightarrow> string \<Rightarrow> string option" where
  "opt_str fs n = (if has_field fs n then Some (str_field fs n) else None)"

definition read_plan_literal :: "string list \<Rightarrow> string list \<Rightarrow> Fields \<Rightarrow> string \<Rightarrow> string res" where
  "read_plan_literal literals names fs n = at_path (deserialize_python_literal literals names (int_field fs n))"

type_synonym PlanReaders = "(string \<times> Kids \<times> (Fields \<Rightarrow> Node res)) list"

definition source_readers :: "PlanSerdeEnv \<Rightarrow> PlanReaders" where
  "source_readers env =
     [(''in_memory_source'', One [], \<lambda>fs.
         bind_res (frame_of_bytes env (str_field fs ''source'')) (\<lambda>d. Inr (InMemorySource d))),
      (''file_source'', One [], \<lambda>fs.
         bind_res (if has_field fs ''options_schema''
                   then bind_res (deserialize_fenic_schema (MsgV (msg_field fs ''options_schema''))) (\<lambda>s. Inr (Some s))
                   else Inr None) (\<lambda>s.
           Inr (FileSource (str_values (rep_field fs ''paths'')) (str_field fs ''file_format'')
             \<lparr>merge_schemas = (if has_field fs ''options_merge_schema''
                               then Some (bool_field fs ''options_merge_schema'') else None), read_schema = s\<rparr>))),
      (''table_source'', One [], \<lambda>fs. Inr (TableSource (str_field fs ''table_name''))),
      (''doc_source'', One [], \<lambda>fs.
         bind_res (read_plan_literal doc_types doc_type_names fs ''content_type'') (\<lambda>c.
           Inr (DocSource (str_values (rep_field fs ''paths'')) c (opt_str fs ''exclude'') (bool_field fs ''recursive''))))]"

definition projection_readers :: "SerdeEnv \<Rightarrow> PlanReaders" where
  "projection_readers env =
     [(''projection'', One [''input''], \<lambda>fs. bind_res (read_exprs env fs ''exprs'') (\<lambda>es. Inr (Projection es))),
      (''filter'', One [''input''], \<lambda>fs. bind_res (read_expr env fs ''predicate'') (\<lambda>p. Inr (Filter p))),
      (''union'', Many ''inputs'', \<lambda>fs. Inr UnionAll),
      (''limit'', One [''input''], \<lambda>fs. Inr (Limit (int_field fs ''n''))),
      (''explode'', One [''input''], \<lambda>fs. bind_res (read_expr env fs ''expr'') (\<lambda>e.
         Inr (Explode e (bool_field fs ''keep_null_and_empty''))))]"

text \<open>An empty name of the value column becomes None, which no node of the model has.\<close>

definition transform_readers :: "SerdeEnv \<Rightarrow> PlanReaders" where
  "transform_readers env =
     [(''explode_with_index'', One [''input''], \<lambda>fs. bind_res (read_expr env fs ''expr'') (\<lambda>e.
         if str_field fs ''value_name'' = [] then Inl PyTypeError
         else Inr (ExplodeWithIndex e (str_field fs ''index_name'') (str_field fs ''value_name'')
                (bool_field fs ''keep_null_and_empty'')))),
      (''drop_duplicates'', One [''input''], \<lambda>fs. bind_res (read_exprs env fs ''subset'') (\<lambda>es.
         bind_res (column_names_of es) (\<lambda>ns. Inr (DropDuplicates ns)))),
      (''sort'', One [''input''], \<lambda>fs. bind_res (read_exprs env fs ''sort_exprs'') (\<lambda>es. Inr (Sort es))),
      (''unnest'', One [''input''], \<lambda>fs. bind_res (read_exprs env fs ''exprs'') (\<lambda>es.
         bind_res (column_names_of es) (\<lambda>ns. Inr (Unnest ns)))),
      (''sql'', Many ''inputs'', \<lambda>fs.
         Inr (SQL (str_values (rep_field fs ''template_names'')) (str_field fs ''templated_query''))),
      (''semantic_cluster'', One [''input''], \<lambda>fs. bind_res (read_expr env fs ''by_expr'') (\<lambda>e.
         Inr (SemanticCluster e (int_field fs ''num_clusters'') (int_field fs ''max_iter'') (int_field fs ''num_init'')
           (str_field fs ''label_column'')
           (if str_field fs ''centroid_column'' = [] then None else Some (str_field fs ''centroid_column'')) None)))]"

definition join_readers_of :: "SerdeEnv \<Rightarrow> PlanReaders" where
  "join_readers_of env =
     [(''aggregate'', One [''input''], \<lambda>fs. bind_res (read_exprs env fs ''group_exprs'') (\<lambda>gs.
         bind_res (read_exprs env fs ''agg_exprs'') (\<lambda>es.
         bind_res (named_of es) (\<lambda>as. Inr (Aggregate gs as))))),
      (''join'', One [''left'', ''right''], \<lambda>fs. bind_res (read_exprs env fs ''left_on'') (\<lambda>ls.
         bind_res (read_exprs env fs ''right_on'') (\<lambda>rs. Inr (Join ls rs (str_field fs ''join_type''))))),
      (''semantic_join'', One [''left'', ''right''], \<lambda>fs. bind_res (read_expr env fs ''left_on'') (\<lambda>l.
         bind_res (read_expr env fs ''right_on'') (\<lambda>r.
           Inr (SemanticJoin l r (str_field fs ''jinja_template'') (bool_field fs ''strict'')
             (real_field fs ''temperature'')
             (if has_field fs ''model_alias''
              then Some (deserialize_resolved_model_alias (msg_field fs ''model_alias'')) else None) None)))),
      (''semantic_similarity_join'', One [''left'', ''right''], \<lambda>fs. bind_res (read_expr env fs ''left_on'') (\<lambda>l.
         bind_res (read_expr env fs ''right_on'') (\<lambda>r.
         bind_res (read_plan_literal similarity_metrics similarity_metric_names fs ''similarity_metric'') (\<lambda>m.
           Inr (SemanticSimilarityJoin l r (int_field fs ''k'') m (opt_str fs ''similarity_score_column'') None)))))]"

definition sink_readers :: PlanReaders where
  "sink_readers =
     [(''file_sink'', One [''child''], \<lambda>fs.
         Inr (FileSink (str_field fs ''sink_type'') (str_field fs ''path'') (str_field fs ''mode''))),
      (''table_sink'', One [''child''], \<lambda>fs. Inr (TableSink (str_field fs ''table_name'') (str_field fs ''mode'')))]"

definition plan_readers :: "PlanSerdeEnv \<Rightarrow> PlanReaders" where
  "plan_readers env = source_readers env @ projection_readers (expr_serde env) @ transform_readers (expr_serde env) @
     join_readers_of (expr_serde env) @ sink_readers"

text \<open>The cache information is set on the finished plan.\<close>

definition read_cache_info :: "Fields \<Rightarrow> string option option" where
  "read_cache_info fs =
     (if has_field fs ''cache_info'' then Some (opt_str (msg_field fs ''cache_info'') ''cache_key'') else None)"

function (sequential) deserialize_logical_plan :: "PlanSerdeEnv \<Rightarrow> ProtoValue \<Rightarrow> LogicalPlan option res" where
  "deserialize_logical_plan env (MsgV ((which, MsgV fs) # rest)) =
     (case map_of (plan_readers env) which of
        None \<Rightarrow> Inr None
      | Some (kids, reader) \<Rightarrow>
          bind_res (deserialize_fenic_schema (MsgV (msg_field rest ''schema''))) (\<lambda>s.
          bind_res (plan_kids kids
            \<lparr>p_fields = fs,
             p_plan = (\<lambda>n. case map_of fs n of
                None \<Rightarrow> Inr None | Some v \<Rightarrow> at_path (deserialize_logical_plan env v)),
             p_plans = (\<lambda>n. case map_of fs n of
                Some (RepV vs) \<Rightarrow>
                  map_res (\<lambda>v. bind_res (at_path (deserialize_logical_plan env v)) required) vs
              | _ \<Rightarrow> Inr [])\<rparr>) (\<lambda>cs.
          bind_res (reader fs) (\<lambda>n.
          bind_res (from_schema (plan_session env) n cs s) (\<lambda>p.
            Inr (Some (set_cache_info (read_cache_info rest) p)))))))"
| "deserialize_logical_plan env _ = Inr None"
  by pat_completeness auto
termination
proof (relation "measure (\<lambda>(env, p). size p)", goal_cases)
  case (2 env which fs rest reader kids rd s n v)
  then show ?case using size_field [of fs n v] by simp
next
  case (3 env which fs rest reader kids rd s n p vs v)
  then show ?case using size_field [of fs n p] size_repeated [of v vs] by simp
qed simp

declare deserialize_logical_plan.simps [simp del]

section \<open>Plans that survive\<close>

definition schema_fits :: "Schema \<Rightarrow> bool" where
  "schema_fits s \<longleftrightarrow> (\<forall>f \<in> set (column_fields s). type_fits (cf_type f))"

fun plan_node_ok :: "PlanSerdeEnv \<Rightarrow> Node \<Rightarrow> bool" where
  "plan_node_ok env (InMemorySource d) = (frame_of_bytes env (frame_bytes env d) = Inr d)"
| "plan_node_ok env (FileSource _ _ opts) = (case read_schema opts of None \<Rightarrow> True | Some s \<Rightarrow> schema_fits s)"
| "plan_node_ok env (DocSource _ c _ _) = literal_ok doc_types doc_type_names c"
| "plan_node_ok env (Projection es) = list_all (serializable (expr_serde env)) es"
| "plan_node_ok env (Filter p) = serializable (expr_serde env) p"
| "plan_node_ok env (Limit n) = fits32 n"
| "plan_node_ok env (Explode e _) = serializable (expr_serde env) e"
| "plan_node_ok env (ExplodeWithIndex e _ v _) = (serializable (expr_serde env) e \<and> v \<noteq> [])"
| "plan_node_ok env (Sort es) = list_all (serializable (expr_serde env)) es"
| "plan_node_ok env (SemanticCluster e k mi ni _ c t) =
     (serializable (expr_serde env) e \<and> fits32 k \<and> fits32 mi \<and> fits32 ni \<and> c \<noteq> Some [])"
| "plan_node_ok env (Aggregate gs as) =
     (list_all (serializable (expr_serde env)) gs \<and> list_all (\<lambda>(e, n). serializable (expr_serde env) e) as)"
| "plan_node_ok env (Join ls rs _) =
     (list_all (serializable (expr_serde env)) ls \<and> list_all (serializable (expr_serde env)) rs)"
| "plan_node_ok env (SemanticJoin l r _ _ te a t) =
     (serializable (expr_serde env) l \<and> serializable (expr_serde env) r \<and> alias_ok a)"
| "plan_node_ok env (SemanticSimilarityJoin l r k m _ t) =
     (serializable (expr_serde env) l \<and> serializable (expr_serde env) r \<and> fits32 k \<and>
      literal_ok similarity_metrics similarity_metric_names m)"
| "plan_node_ok env _ = True"

fun plan_fits :: "PlanSerdeEnv \<Rightarrow> LogicalPlan \<Rightarrow> bool" where
  "plan_fits env (Plan n cs s c) \<longleftrightarrow> plan_node_ok env n \<and> schema_fits s \<and> list_all (plan_fits env) cs"

section \<open>The round trip\<close>

lemma expr_value_back:
  assumes "serializable env e"
  obtains p e' where "expr_value env e = Inr p" "erase e' = erase e"
    "\<And>fs n. map_of fs n = Some p \<Longrightarrow> read_expr env fs n = Inr e'"
  using expression_read_back [OF assms] that by (auto simp: expr_value_def read_expr_def)

lemma exprs_value_back:
  assumes "list_all (serializable env) es"
  obtains ps es' where "exprs_value env es = Inr (RepV ps)" "map erase es' = map erase es"
    "\<And>fs n. map_of fs n = Some (RepV ps) \<Longrightarrow> read_exprs env fs n = Inr es'"
proof -
  have "\<exists>ps es'. map_res (\<lambda>c. at_path (serialize_logical_expr env c)) es = Inr ps \<and>
      reads env ps es' \<and> map erase es' = map erase es"
    by (rule children_written) (rule expression_read_back, use assms in \<open>simp add: list_all_iff\<close>)
  then obtain ps es' where w: "map_res (\<lambda>c. at_path (serialize_logical_expr env c)) es = Inr ps"
    "reads env ps es'" "map erase es' = map erase es" by blast
  have "list_all2 (\<lambda>p e. bind_res (at_path (deserialize_logical_expr env p)) required = Inr e) ps es'"
    using w(2) unfolding reads_def by (rule list_all2_mono) simp
  then have "map_res (\<lambda>p. bind_res (at_path (deserialize_logical_expr env p)) required) ps = Inr es'"
    by (simp only: map_res_Inr_iff)
  with w that show thesis
    by (simp add: exprs_value_def expr_value_def [abs_def] read_exprs_def rep_field_def)
qed

lemma erase_columns_map: "map erase es = map erase (map ColumnExpr ns) \<Longrightarrow> column_names_of es = Inr ns"
  using erase_columns [of es ns]
  by (simp add: column_names_of_def map_res_Inr_iff list_all2_conv_all_nth)

lemma columns_serializable: "list_all (serializable env) (map ColumnExpr ns)"
proof -
  have "serializable env (ColumnExpr n)" for n by (subst serializable.simps) simp
  then show ?thesis by (simp add: list_all_iff)
qed

lemma columns_back:
  obtains ps es where "exprs_value env (map ColumnExpr ns) = Inr (RepV ps)" "column_names_of es = Inr ns"
    "\<And>fs n. map_of fs n = Some (RepV ps) \<Longrightarrow> read_exprs env fs n = Inr es"
proof -
  obtain ps es where "exprs_value env (map ColumnExpr ns) = Inr (RepV ps)"
    "map erase es = map erase (map ColumnExpr ns)"
    "\<And>fs n. map_of fs n = Some (RepV ps) \<Longrightarrow> read_exprs env fs n = Inr es"
    by (rule exprs_value_back [OF columns_serializable [of env ns]]) blast
  with that erase_columns_map [of es ns] show thesis by blast
qed

lemma erase_alias: "erase x = AliasExpr y n \<Longrightarrow> \<exists>a. x = AliasExpr a n \<and> erase a = y"
  by (cases x) auto

lemma named_back:
  "map erase es = map erase (map (\<lambda>(e, n). AliasExpr e n) as) \<Longrightarrow>
   \<exists>as'. named_of es = Inr as' \<and> map (\<lambda>(e, n). (erase e, n)) as' = map (\<lambda>(e, n). (erase e, n)) as"
proof (induction as arbitrary: es)
  case (Cons a as)
  obtain e n where a: "a = (e, n)" by (cases a)
  from Cons.prems a obtain x xs where es: "es = x # xs" "erase x = AliasExpr (erase e) n"
    "map erase xs = map erase (map (\<lambda>(e, n). AliasExpr e n) as)" by (cases es) auto
  from erase_alias [OF es(2)] obtain y where y: "x = AliasExpr y n" "erase y = erase e" by blast
  from Cons.IH [OF es(3)] obtain as' where "named_of xs = Inr as'"
    "map (\<lambda>(e, n). (erase e, n)) as' = map (\<lambda>(e, n). (erase e, n)) as" by blast
  with es(1) y a show ?case by (intro exI [of _ "(y, n) # as'"]) (simp add: named_of_def)
qed (simp add: named_of_def)

text \<open>
  What the messages do not keep: request timeouts, and a temperature beyond single precision.
\<close>

fun written_node :: "Node \<Rightarrow> Node" where
  "written_node (SemanticCluster e k mi ni l c _) = SemanticCluster e k mi ni l c None"
| "written_node (SemanticJoin l r t s te a _) = SemanticJoin l r t s (float32 te) a None"
| "written_node (SemanticSimilarityJoin l r k m sc _) = SemanticSimilarityJoin l r k m sc None"
| "written_node n = n"

fun written :: "LogicalPlan \<Rightarrow> LogicalPlan" where
  "written (Plan n cs s c) = Plan (written_node n) (map written cs) s c"

text \<open>A node is read back from its attributes after the messages of its children.\<close>

definition plan_node_reads :: "PlanSerdeEnv \<Rightarrow> Node \<Rightarrow> bool" where
  "plan_node_reads env n \<longleftrightarrow> (\<exists>attrs reader m.
     plan_attributes env n = Inr attrs \<and> erase_node m = erase_node (written_node n) \<and>
     map_of (plan_readers env) (fst (plan_message n)) = Some (snd (plan_message n), reader) \<and>
     (\<forall>ps. kids_ok (snd (plan_message n)) (length ps) \<longrightarrow>
        reader (kid_fields (snd (plan_message n)) ps @ attrs) = Inr m))"

lemma plan_node_readsI:
  assumes "plan_attributes env n = Inr attrs"
    and "map_of (plan_readers env) (fst (plan_message n)) = Some (snd (plan_message n), reader)"
    and "\<And>ps. kids_ok (snd (plan_message n)) (length ps) \<Longrightarrow> reader (kid_fields (snd (plan_message n)) ps @ attrs) = Inr m"
    and "erase_node m = erase_node (written_node n)"
  shows "plan_node_reads env n"
  using assms unfolding plan_node_reads_def by blast

lemmas plan_tables = plan_readers_def source_readers_def projection_readers_def transform_readers_def
  join_readers_of_def sink_readers_def

lemma plan_readers_distinct: "distinct (map fst (plan_readers env))"
  by (simp add: plan_tables)

text \<open>The readers of the four groups are found in their tables.\<close>

lemma find_plan_reader:
  assumes "plan_readers env = xs @ T @ ys" "n \<in> set (map fst T)"
  shows "map_of (plan_readers env) n = map_of T n"
  using map_of_middle [of xs T ys n] plan_readers_distinct [of env] assms by simp

lemma find_source_reader:
  "n \<in> set (map fst (source_readers env)) \<Longrightarrow> map_of (plan_readers env) n = map_of (source_readers env) n"
  by (rule find_plan_reader [of env "[]"]) (simp_all add: plan_readers_def)

lemma find_projection_reader:
  "n \<in> set (map fst (projection_readers (expr_serde env))) \<Longrightarrow>
   map_of (plan_readers env) n = map_of (projection_readers (expr_serde env)) n"
  by (rule find_plan_reader [of env "source_readers env"]) (simp_all add: plan_readers_def)

lemma find_transform_reader:
  "n \<in> set (map fst (transform_readers (expr_serde env))) \<Longrightarrow>
   map_of (plan_readers env) n = map_of (transform_readers (expr_serde env)) n"
  by (rule find_plan_reader [of env "source_readers env @ projection_readers (expr_serde env)"])
    (simp_all add: plan_readers_def)

lemma find_join_reader:
  "n \<in> set (map fst (join_readers_of (expr_serde env))) \<Longrightarrow>
   map_of (plan_readers env) n = map_of (join_readers_of (expr_serde env)) n"
  by (rule find_plan_reader [of env "source_readers env @ projection_readers (expr_serde env) @
        transform_readers (expr_serde env)"]) (simp_all add: plan_readers_def)

lemma find_sink_reader:
  "n \<in> set (map fst sink_readers) \<Longrightarrow> map_of (plan_readers env) n = map_of sink_readers n"
  by (rule find_plan_reader [of env "source_readers env @ projection_readers (expr_serde env) @
        transform_readers (expr_serde env) @ join_readers_of (expr_serde env)" _ "[]"]) (simp_all add: plan_readers_def)

text \<open>Sources.\<close>

lemma schema_back:
  assumes "schema_fits s"
  obtains fs where "serialize_fenic_schema s = Inr (MsgV fs)" "deserialize_fenic_schema (MsgV fs) = Inr s"
proof -
  from schema_roundtrip [of s] assms obtain p where
    p: "serialize_fenic_schema s = Inr p" "deserialize_fenic_schema p = Inr s" by (auto simp: schema_fits_def)
  then obtain fs where "p = MsgV fs" by (auto simp: deserialize_fenic_schema_def split: ProtoValue.splits)
  with p that show thesis by blast
qed

lemma plan_literal_back:
  assumes "literal_ok literals names v"
  obtains i where "\<And>n. literal_attr n names v = Inr [(n, IntV i)]"
    "at_path (serialize_python_literal names v) = Inr (IntV i)"
    "\<And>n fs. map_of fs n = Some (IntV i) \<Longrightarrow> read_plan_literal literals names fs n = Inr v"
  using literal_roundtrip [OF assms] that
  by (auto simp: literal_attr_def read_plan_literal_def int_field_def)

lemma source_node_reads:
  assumes "plan_node_ok env n" "is_source n"
  shows "plan_node_reads env n"
  using assms(2)
proof (cases n)
  case (InMemorySource d)
  with assms show ?thesis
    by (intro plan_node_readsI, simp add: plan_attributes_def, simp add: find_source_reader source_readers_def,
        simp add: kids_ok_def str_field_def, simp)
next
  case (FileSource paths fmt opts)
  obtain b sch where opts: "opts = \<lparr>merge_schemas = b, read_schema = sch\<rparr>" by (cases opts)
  show ?thesis
  proof (cases sch)
    case None
    with FileSource opts show ?thesis
      by (cases b) (intro plan_node_readsI, simp add: plan_attributes_def, simp add: find_source_reader source_readers_def,
          simp add: kids_ok_def field_defs opt_field_def, simp)+
  next
    case (Some s)
    with assms FileSource opts obtain fs where "serialize_fenic_schema s = Inr (MsgV fs)"
      "deserialize_fenic_schema (MsgV fs) = Inr s" using schema_back by auto
    with Some FileSource opts show ?thesis
      by (cases b) (intro plan_node_readsI, simp add: plan_attributes_def, simp add: find_source_reader source_readers_def,
          simp add: kids_ok_def field_defs opt_field_def, simp)+
  qed
next
  case (TableSource t)
  then show ?thesis
    by (intro plan_node_readsI, simp add: plan_attributes_def, simp add: find_source_reader source_readers_def,
        simp add: kids_ok_def str_field_def, simp)
next
  case (DocSource paths c x r)
  with assms have "literal_ok doc_types doc_type_names c" by simp
  then obtain i where "\<And>n. literal_attr n doc_type_names c = Inr [(n, IntV i)]"
    "\<And>n fs. map_of fs n = Some (IntV i) \<Longrightarrow> read_plan_literal doc_types doc_type_names fs n = Inr c"
    by (rule plan_literal_back) blast
  with DocSource show ?thesis
    by (cases x) (intro plan_node_readsI, simp add: plan_attributes_def, simp add: find_source_reader source_readers_def,
        simp add: kids_ok_def field_defs opt_field_def opt_str_def, simp)+
qed simp_all

text \<open>Nodes of one input.\<close>

lemma kids_counts: "kids_ok (One ns) n \<longleftrightarrow> distinct ns \<and> n = length ns" "kids_ok (Many m) n"
  by (auto simp: kids_ok_def)

lemmas one_input = kids_counts kid_lists all_fields_def plan_attributes_def

lemma exprs_node_reads:
  assumes "list_all (serializable (expr_serde env)) es"
  shows "plan_node_reads env (Projection es)" "plan_node_reads env (Sort es)"
proof -
  obtain ps es' where w: "exprs_value (expr_serde env) es = Inr (RepV ps)" "map erase es' = map erase es"
    "\<And>fs n. map_of fs n = Some (RepV ps) \<Longrightarrow> read_exprs (expr_serde env) fs n = Inr es'"
    by (rule exprs_value_back [OF assms]) blast
  show "plan_node_reads env (Projection es)"
    by (rule plan_node_readsI [where m = "Projection es'"], simp add: one_input w, simp add: find_projection_reader projection_readers_def)
      (use w in \<open>auto simp: one_input\<close>)
  show "plan_node_reads env (Sort es)"
    by (rule plan_node_readsI [where m = "Sort es'"], simp add: one_input w, simp add: find_transform_reader transform_readers_def)
      (use w in \<open>auto simp: one_input\<close>)
qed

lemma expr_node_reads:
  assumes "serializable (expr_serde env) e"
  shows "plan_node_reads env (Filter e)" "plan_node_reads env (Explode e keep)"
    "v \<noteq> [] \<Longrightarrow> plan_node_reads env (ExplodeWithIndex e i v keep)"
    "fits32 k \<Longrightarrow> fits32 mi \<Longrightarrow> fits32 ni \<Longrightarrow> c \<noteq> Some [] \<Longrightarrow> plan_node_reads env (SemanticCluster e k mi ni l c to)"
proof -
  obtain p e' where w: "expr_value (expr_serde env) e = Inr p" "erase e' = erase e"
    "\<And>fs n. map_of fs n = Some p \<Longrightarrow> read_expr (expr_serde env) fs n = Inr e'"
    by (rule expr_value_back [OF assms]) blast
  show "plan_node_reads env (Filter e)"
    by (rule plan_node_readsI [where m = "Filter e'"], simp add: one_input w, simp add: find_projection_reader projection_readers_def)
      (use w in \<open>auto simp: one_input\<close>)
  show "plan_node_reads env (Explode e keep)"
    by (rule plan_node_readsI [where m = "Explode e' keep"], simp add: one_input w, simp add: find_projection_reader projection_readers_def)
      (use w in \<open>auto simp: one_input bool_field_def\<close>)
  show "plan_node_reads env (ExplodeWithIndex e i v keep)" if "v \<noteq> []"
    by (rule plan_node_readsI [where m = "ExplodeWithIndex e' i v keep"], simp add: one_input w, simp add: find_transform_reader transform_readers_def)
      (use w that in \<open>auto simp: one_input field_defs\<close>)
  show "plan_node_reads env (SemanticCluster e k mi ni l c to)"
    if "fits32 k" "fits32 mi" "fits32 ni" "c \<noteq> Some []"
    by (cases c) (rule plan_node_readsI [where m = "SemanticCluster e' k mi ni l c None"], simp add: one_input w int32_fits that,
        simp add: find_transform_reader transform_readers_def,
        use w that in \<open>auto simp: one_input field_defs opt_field_def\<close>)+
qed

lemma column_names_node_reads:
  "plan_node_reads env (DropDuplicates ns)" "plan_node_reads env (Unnest ns)"
proof -
  obtain ps es where w: "exprs_value (expr_serde env) (map ColumnExpr ns) = Inr (RepV ps)" "column_names_of es = Inr ns"
    "\<And>fs n. map_of fs n = Some (RepV ps) \<Longrightarrow> read_exprs (expr_serde env) fs n = Inr es"
    by (rule columns_back) blast
  show "plan_node_reads env (DropDuplicates ns)"
    by (rule plan_node_readsI [where m = "DropDuplicates ns"], simp add: one_input w, simp add: find_transform_reader transform_readers_def)
      (use w in \<open>auto simp: one_input\<close>)
  show "plan_node_reads env (Unnest ns)"
    by (rule plan_node_readsI [where m = "Unnest ns"], simp add: one_input w, simp add: find_transform_reader transform_readers_def)
      (use w in \<open>auto simp: one_input\<close>)
qed

lemma plain_node_reads:
  "plan_node_reads env UnionAll" "fits32 n \<Longrightarrow> plan_node_reads env (Limit n)" "plan_node_reads env (SQL ns q)"
  "plan_node_reads env (FileSink t path mode)" "plan_node_reads env (TableSink t mode)"
proof -
  show "plan_node_reads env UnionAll"
    by (rule plan_node_readsI [where m = UnionAll], simp add: one_input,
        simp add: find_projection_reader projection_readers_def, simp_all)
  show "plan_node_reads env (Limit n)" if "fits32 n"
    by (rule plan_node_readsI [where m = "Limit n"], simp add: one_input int32_fits that,
        simp add: find_projection_reader projection_readers_def, auto simp: one_input int_field_def)
  show "plan_node_reads env (SQL ns q)"
    by (rule plan_node_readsI [where m = "SQL ns q"], simp add: one_input,
        simp add: find_transform_reader transform_readers_def, auto simp: one_input rep_field_def str_field_def)
  show "plan_node_reads env (FileSink t path mode)"
    by (rule plan_node_readsI [where m = "FileSink t path mode"], simp add: one_input,
        simp add: find_sink_reader sink_readers_def, auto simp: one_input str_field_def)
  show "plan_node_reads env (TableSink t mode)"
    by (rule plan_node_readsI [where m = "TableSink t mode"], simp add: one_input,
        simp add: find_sink_reader sink_readers_def, auto simp: one_input str_field_def)
qed

text \<open>Aggregates and joins.\<close>

lemma aggregate_node_reads:
  assumes "list_all (serializable (expr_serde env)) gs" "list_all (\<lambda>(e, n). serializable (expr_serde env) e) as"
  shows "plan_node_reads env (Aggregate gs as)"
proof -
  have "serializable (expr_serde env) (AliasExpr e n)" if "serializable (expr_serde env) e" for e n
    by (subst serializable.simps) (simp add: that)
  then have "list_all (serializable (expr_serde env)) (map (\<lambda>(e, n). AliasExpr e n) as)"
    using assms(2) by (auto simp: list_all_iff)
  then obtain qs es where a: "exprs_value (expr_serde env) (map (\<lambda>(e, n). AliasExpr e n) as) = Inr (RepV qs)"
    "map erase es = map erase (map (\<lambda>(e, n). AliasExpr e n) as)"
    "\<And>fs n. map_of fs n = Some (RepV qs) \<Longrightarrow> read_exprs (expr_serde env) fs n = Inr es"
    by (rule exprs_value_back) blast
  from named_back [OF a(2)] obtain as' where n: "named_of es = Inr as'"
    "map (\<lambda>(e, n). (erase e, n)) as' = map (\<lambda>(e, n). (erase e, n)) as" by blast
  obtain ps gs' where w: "exprs_value (expr_serde env) gs = Inr (RepV ps)" "map erase gs' = map erase gs"
    "\<And>fs n. map_of fs n = Some (RepV ps) \<Longrightarrow> read_exprs (expr_serde env) fs n = Inr gs'"
    by (rule exprs_value_back [OF assms(1)]) blast
  show ?thesis
    by (rule plan_node_readsI [where m = "Aggregate gs' as'"], simp add: one_input w(1) a(1), simp add: find_join_reader join_readers_of_def)
      (use w a n in \<open>auto simp: one_input\<close>)
qed

lemma join_node_reads:
  assumes "list_all (serializable (expr_serde env)) ls" "list_all (serializable (expr_serde env)) rs"
  shows "plan_node_reads env (Join ls rs how)"
proof -
  obtain ps ls' where l: "exprs_value (expr_serde env) ls = Inr (RepV ps)" "map erase ls' = map erase ls"
    "\<And>fs n. map_of fs n = Some (RepV ps) \<Longrightarrow> read_exprs (expr_serde env) fs n = Inr ls'"
    by (rule exprs_value_back [OF assms(1)]) blast
  obtain qs rs' where r: "exprs_value (expr_serde env) rs = Inr (RepV qs)" "map erase rs' = map erase rs"
    "\<And>fs n. map_of fs n = Some (RepV qs) \<Longrightarrow> read_exprs (expr_serde env) fs n = Inr rs'"
    by (rule exprs_value_back [OF assms(2)]) blast
  show ?thesis
    by (rule plan_node_readsI [where m = "Join ls' rs' how"], simp add: one_input l(1) r(1), simp add: find_join_reader join_readers_of_def)
      (use l r in \<open>auto simp: one_input str_field_def\<close>)
qed

lemma semantic_join_node_reads:
  assumes "serializable (expr_serde env) l" "serializable (expr_serde env) r"
  shows "alias_ok a \<Longrightarrow> plan_node_reads env (SemanticJoin l r t s te a to)"
    and "fits32 k \<Longrightarrow> literal_ok similarity_metrics similarity_metric_names m \<Longrightarrow>
      plan_node_reads env (SemanticSimilarityJoin l r k m sc to)"
proof -
  obtain p l' where l: "expr_value (expr_serde env) l = Inr p" "erase l' = erase l"
    "\<And>fs n. map_of fs n = Some p \<Longrightarrow> read_expr (expr_serde env) fs n = Inr l'"
    by (rule expr_value_back [OF assms(1)]) blast
  obtain q r' where r: "expr_value (expr_serde env) r = Inr q" "erase r' = erase r"
    "\<And>fs n. map_of fs n = Some q \<Longrightarrow> read_expr (expr_serde env) fs n = Inr r'"
    by (rule expr_value_back [OF assms(2)]) blast
  show "plan_node_reads env (SemanticJoin l r t s te a to)" if a: "alias_ok a"
  proof (cases a)
    case None
    then show ?thesis
      by (intro plan_node_readsI [where m = "SemanticJoin l' r' t s (float32 te) None None"], simp add: one_input l(1) r(1), simp add: find_join_reader join_readers_of_def)
        (use l r in \<open>auto simp: one_input field_defs alias_attr_def opt_field_def serialize_resolved_model_alias_def\<close>)
  next
    case (Some x)
    with a alias_roundtrip [of x] obtain fs where x: "serialize_resolved_model_alias (Some x) = Some (MsgV fs)"
      "deserialize_resolved_model_alias fs = x" by (auto simp: alias_ok_def)
    show ?thesis
      by (intro plan_node_readsI [where m = "SemanticJoin l' r' t s (float32 te) (Some x) None"], simp add: one_input l(1) r(1), simp add: find_join_reader join_readers_of_def)
        (use l r x Some in \<open>auto simp: one_input field_defs alias_attr_def opt_field_def\<close>)
  qed
  show "plan_node_reads env (SemanticSimilarityJoin l r k m sc to)"
    if k: "fits32 k" and m: "literal_ok similarity_metrics similarity_metric_names m"
  proof -
    obtain i where i: "at_path (serialize_python_literal similarity_metric_names m) = Inr (IntV i)"
      "\<And>n fs. map_of fs n = Some (IntV i) \<Longrightarrow> read_plan_literal similarity_metrics similarity_metric_names fs n = Inr m"
      by (rule plan_literal_back [OF m]) blast
    show ?thesis
      by (cases sc) (intro plan_node_readsI [where m = "SemanticSimilarityJoin l' r' k m sc None"], simp add: one_input l(1) r(1) int32_fits k i(1) del: at_path_Inr,
          simp add: find_join_reader join_readers_of_def,
          use l r i in \<open>auto simp: one_input field_defs opt_field_def opt_str_def\<close>)+
  qed
qed

lemma node_back:
  assumes ok: "plan_node_ok env n"
  shows "plan_node_reads env n"
proof (cases "is_source n")
  case True
  with ok show ?thesis by (rule source_node_reads)
next
  case False
  then show ?thesis
    using ok exprs_node_reads expr_node_reads column_names_node_reads plain_node_reads aggregate_node_reads
      join_node_reads semantic_join_node_reads
    by (cases n) simp_all
qed

text \<open>What the constructors check is the same for equal expressions.\<close>

lemma erase_is_aggregate: "erase e = erase e' \<Longrightarrow> is_aggregate e = is_aggregate e'"
proof -
  have f: "is_aggregate_fn (compared_attributes f) = is_aggregate_fn f" for f by (cases f) simp_all
  have "is_aggregate (erase e) = is_aggregate e" for e
  proof (cases e)
    case (SemanticExpr g args)
    then show ?thesis by (cases g) (simp_all add: is_aggregate_def)
  qed (simp_all add: is_aggregate_def f)
  then show "erase e = erase e' \<Longrightarrow> is_aggregate e = is_aggregate e'" by metis
qed

lemma erase_scalar: "erase e = erase e' \<Longrightarrow> validate_scalar_expr e = validate_scalar_expr e'"
  using erase_is_sort [of e e'] erase_is_aggregate [of e e'] by (simp add: validate_scalar_expr_def)

lemma each_res_map_eq:
  assumes "map f xs = map f ys" "\<And>x y. x \<in> set xs \<Longrightarrow> f x = f y \<Longrightarrow> g x = g y"
  shows "each_res g xs = each_res g ys"
  using assms
proof (induction xs arbitrary: ys)
  case (Cons x xs)
  from Cons.prems(1) obtain y ys' where ys: "ys = y # ys'" "f x = f y" "map f xs = map f ys'" by (cases ys) auto
  have "each_res g xs = each_res g ys'" by (rule Cons.IH [OF ys(3)]) (use Cons.prems(2) in simp)
  with Cons.prems(2) [of x y] ys show ?case by simp
qed simp

lemma erase_groupby: "erase e = erase e' \<Longrightarrow> validate_groupby_expr e = validate_groupby_expr e'"
proof (induction e arbitrary: e' rule: validate_groupby_expr.induct)
  case (1 e)
  have kids: "map erase (expr_children e) = map erase (expr_children e')"
    using 1(2) by (metis children_erase)
  show ?case
  proof (cases "is_aggregate e \<or> is_sort e")
    case True
    with erase_is_aggregate [OF 1(2)] erase_is_sort [OF 1(2)] show ?thesis
      by (auto simp: validate_groupby_expr.simps [of e] validate_groupby_expr.simps [of e'] raise_if_def)
  next
    case False
    have "each_res validate_groupby_expr (expr_children e) = each_res validate_groupby_expr (expr_children e')"
      by (rule each_res_map_eq [OF kids]) (use 1(1) False in \<open>auto simp: raise_if_def\<close>)
    with erase_is_aggregate [OF 1(2)] erase_is_sort [OF 1(2)] show ?thesis
      by (simp add: validate_groupby_expr.simps [of e] validate_groupby_expr.simps [of e'])
  qed
qed

lemma scalars_erase: "map erase es = map erase es' \<Longrightarrow> each_res validate_scalar_expr es = each_res validate_scalar_expr es'"
  by (rule each_res_map_eq [where f = erase]) (auto intro: erase_scalar)

lemma init_check_erase:
  assumes "erase_node m = erase_node n"
  shows "init_check env m k = init_check env n k"
proof (cases n)
  case (Aggregate gs as)
  with assms obtain gs' as' where m: "m = Aggregate gs' as'" "map erase gs' = map erase gs"
    "map (\<lambda>(e, n). (erase e, n)) as' = map (\<lambda>(e, n). (erase e, n)) as" by (cases m) auto
  have "each_res (\<lambda>(e, n). raise_if (\<not> is_aggregate e) PlanError) as' =
      each_res (\<lambda>(e, n). raise_if (\<not> is_aggregate e) PlanError) as"
    by (rule each_res_map_eq [OF m(3)]) (auto dest: erase_is_aggregate)
  moreover have "each_res validate_groupby_expr gs' = each_res validate_groupby_expr gs"
    by (rule each_res_map_eq [OF m(2)]) (auto dest: erase_groupby)
  ultimately show ?thesis using Aggregate m(1) by simp
next
  case Projection
  with assms show ?thesis by (cases m) (auto intro: scalars_erase)
next
  case Filter
  with assms show ?thesis by (cases m) (auto intro: erase_scalar)
next
  case Explode
  with assms show ?thesis by (cases m) (auto intro: erase_scalar)
next
  case ExplodeWithIndex
  with assms show ?thesis by (cases m) (auto intro: erase_scalar)
next
  case SemanticCluster
  with assms show ?thesis by (cases m) (auto intro: erase_scalar)
next
  case (Join ls rs how)
  with assms obtain ls' rs' where "m = Join ls' rs' how" "map erase ls' = map erase ls" "map erase rs' = map erase rs"
    by (cases m) auto
  with Join scalars_erase [of ls' ls] scalars_erase [of rs' rs] show ?thesis by simp
next
  case (SemanticJoin l r t s te a to)
  with assms obtain l' r' where "m = SemanticJoin l' r' t s te a to" "erase l' = erase l" "erase r' = erase r"
    by (cases m) auto
  with SemanticJoin erase_scalar [of l' l] erase_scalar [of r' r] show ?thesis by simp
next
  case (SemanticSimilarityJoin l r k' me sc to)
  with assms obtain l' r' where "m = SemanticSimilarityJoin l' r' k' me sc to" "erase l' = erase l" "erase r' = erase r"
    by (cases m) auto
  with SemanticSimilarityJoin erase_scalar [of l' l] erase_scalar [of r' r] show ?thesis by simp
qed (use assms in \<open>cases m; simp\<close>)+

lemma init_check_written: "init_check env (written_node n) k = init_check env n k"
  by (cases n) simp_all

text \<open>The number of children a constructor accepts is the number its message has fields for.\<close>

lemma child_count_kids: "child_count_check n k = Inr () \<Longrightarrow> kids_ok (snd (plan_message n)) k"
  by (cases n) (auto simp: kids_counts raise_if_def split: if_splits)

text \<open>Children read back one by one.\<close>

definition reads_plans :: "PlanSerdeEnv \<Rightarrow> ProtoValue list \<Rightarrow> LogicalPlan list \<Rightarrow> bool" where
  "reads_plans env ps qs \<longleftrightarrow> list_all2 (\<lambda>p q. deserialize_logical_plan env p = Inr (Some q)) ps qs"

definition plan_over :: "PlanSerdeEnv \<Rightarrow> Fields \<Rightarrow> PlanReader" where
  "plan_over env fs =
     \<lparr>p_fields = fs,
      p_plan = (\<lambda>n. case map_of fs n of
         None \<Rightarrow> Inr None | Some v \<Rightarrow> at_path (deserialize_logical_plan env v)),
      p_plans = (\<lambda>n. case map_of fs n of
         Some (RepV vs) \<Rightarrow> map_res (\<lambda>v. bind_res (at_path (deserialize_logical_plan env v)) required) vs
       | _ \<Rightarrow> Inr [])\<rparr>"

lemma read_plan_message:
  "deserialize_logical_plan env (MsgV ((which, MsgV fs) # rest)) =
     (case map_of (plan_readers env) which of
        None \<Rightarrow> Inr None
      | Some (kids, reader) \<Rightarrow>
          bind_res (deserialize_fenic_schema (MsgV (msg_field rest ''schema''))) (\<lambda>s.
          bind_res (plan_kids kids (plan_over env fs)) (\<lambda>cs.
          bind_res (reader fs) (\<lambda>n.
          bind_res (from_schema (plan_session env) n cs s) (\<lambda>p.
            Inr (Some (set_cache_info (read_cache_info rest) p)))))))"
  unfolding plan_over_def deserialize_logical_plan.simps ..

lemma plan_kids_over:
  assumes "reads_plans env ps qs" "kids_ok k (length ps)"
  shows "plan_kids k (plan_over env (kid_fields k ps @ attrs)) = Inr qs"
proof (cases k)
  case (Many n)
  have "list_all2 (\<lambda>p q. bind_res (at_path (deserialize_logical_plan env p)) required = Inr q) ps qs"
    using assms(1) unfolding reads_plans_def by (rule list_all2_mono) simp
  with Many show ?thesis by (simp add: plan_kids_def plan_over_def map_res_Inr_iff)
next
  case (One ns)
  with assms have ns: "distinct ns" "length ns = length ps" by (simp_all add: kids_ok_def)
  have "list_all2 (\<lambda>n q. bind_res (p_plan (plan_over env (zip ns ps @ attrs)) n) required = Inr q) ns qs"
  proof (rule list_all2_all_nthI)
    show "length ns = length qs" using ns assms(1) by (simp add: reads_plans_def list_all2_lengthD)
    fix i assume i: "i < length ns"
    have "map_of (zip ns ps) (ns ! i) = Some (ps ! i)" using ns i by (simp add: map_of_zip_nth)
    moreover have "deserialize_logical_plan env (ps ! i) = Inr (Some (qs ! i))"
      using list_all2_nthD [OF assms(1) [unfolded reads_plans_def], of i] i ns by simp
    ultimately show "bind_res (p_plan (plan_over env (zip ns ps @ attrs)) (ns ! i)) required = Inr (qs ! i)"
      by (simp add: plan_over_def)
  qed
  with One show ?thesis by (simp add: plan_kids_def map_res_Inr_iff)
qed

lemma cache_info_back: "read_cache_info ((''schema'', sp) # cache_info_field c) = c"
proof (cases c)
  case (Some k)
  then show ?thesis
    by (cases k) (simp_all add: read_cache_info_def cache_info_field_def opt_field_def opt_str_def field_defs)
qed (simp add: read_cache_info_def cache_info_field_def opt_field_def has_field_def)

lemma erase_plan_parts:
  "erase_plan q = Plan n cs s c \<longleftrightarrow>
   erase_node (plan_node q) = n \<and> map erase_plan (plan_children q) = cs \<and> plan_schema q = s \<and> cache_info q = c"
  by (cases q) auto

lemma plan_children_written:
  assumes "\<And>c. c \<in> set cs \<Longrightarrow> \<exists>m q. serialize_logical_plan env c = Inr m \<and>
      deserialize_logical_plan env m = Inr (Some q) \<and> erase_plan q = erase_plan (written c)"
  shows "\<exists>ps qs. map_res (\<lambda>d. at_path (serialize_logical_plan env d)) cs = Inr ps \<and>
      reads_plans env ps qs \<and> map erase_plan qs = map erase_plan (map written cs)"
  using assms
proof (induction cs)
  case (Cons c cs)
  from Cons.prems [of c] obtain p q where c: "serialize_logical_plan env c = Inr p"
    "deserialize_logical_plan env p = Inr (Some q)" "erase_plan q = erase_plan (written c)" by auto
  have "\<exists>ps qs. map_res (\<lambda>d. at_path (serialize_logical_plan env d)) cs = Inr ps \<and>
      reads_plans env ps qs \<and> map erase_plan qs = map erase_plan (map written cs)" by (rule Cons.IH) (rule Cons.prems, simp)
  then obtain ps qs where "map_res (\<lambda>d. at_path (serialize_logical_plan env d)) cs = Inr ps"
    "reads_plans env ps qs" "map erase_plan qs = map erase_plan (map written cs)" by blast
  with c show ?case by (intro exI [of _ "p # ps"] exI [of _ "q # qs"]) (simp add: reads_plans_def)
qed (simp add: reads_plans_def)

text \<open>The plans \<^verbatim>\<open>from_schema\<close> accepts, among them those a session has built.\<close>

fun from_schema_ok :: "PlanEnv \<Rightarrow> LogicalPlan \<Rightarrow> bool" where
  "from_schema_ok env (Plan n cs s c) \<longleftrightarrow>
     child_count_check n (length cs) = Inr () \<and> init_check env n (length cs) = Inr () \<and>
     distinct (column_names s) \<and> list_all (from_schema_ok env) cs"

lemma well_built_from_schema: "well_built env p \<Longrightarrow> from_schema_ok env p"
proof (induction env p rule: from_schema_ok.induct)
  case (1 env n cs s c)
  then have "list_all (from_schema_ok env) cs" by (auto simp: list_all_iff)
  moreover have "init_check env n (length cs) = Inr ()"
    using 1(2) by (cases "is_source n") (simp_all add: child_count_source from_session_Inr)
  ultimately show ?case using 1(2) well_built_distinct [OF 1(2)] by simp
qed

lemma plan_read_back:
  "from_schema_ok (plan_session env) p \<Longrightarrow> plan_fits env p \<Longrightarrow>
   \<exists>m q. serialize_logical_plan env p = Inr m \<and> deserialize_logical_plan env m = Inr (Some q) \<and>
     erase_plan q = erase_plan (written p)"
proof (induction env p rule: plan_fits.induct)
  case (1 env n cs s c)
  have fits: "plan_node_ok env n" "schema_fits s" "\<And>d. d \<in> set cs \<Longrightarrow> plan_fits env d"
    using 1(3) by (simp_all add: list_all_iff)
  have wb: "\<And>d. d \<in> set cs \<Longrightarrow> from_schema_ok (plan_session env) d"
    and count: "child_count_check n (length cs) = Inr ()"
    and init: "init_check (plan_session env) n (length cs) = Inr ()"
    and unique: "distinct (column_names s)"
    using 1(2) by (simp_all add: list_all_iff)
  have "\<exists>ps qs. map_res (\<lambda>d. at_path (serialize_logical_plan env d)) cs = Inr ps \<and>
      reads_plans env ps qs \<and> map erase_plan qs = map erase_plan (map written cs)"
    by (rule plan_children_written) (use 1(1) wb fits(3) in blast)
  then obtain ps qs where kids: "map_res (\<lambda>d. at_path (serialize_logical_plan env d)) cs = Inr ps"
    "reads_plans env ps qs" "map erase_plan qs = map erase_plan (map written cs)" by blast
  have len: "length ps = length cs" "length qs = length cs"
    using map_res_Inr_length [OF kids(1)] kids(2) by (simp_all add: reads_plans_def list_all2_lengthD)
  from node_back [OF fits(1)] obtain attrs reader m where a: "plan_attributes env n = Inr attrs"
    "erase_node m = erase_node (written_node n)"
    "map_of (plan_readers env) (fst (plan_message n)) = Some (snd (plan_message n), reader)"
    "\<And>ps. kids_ok (snd (plan_message n)) (length ps) \<Longrightarrow> reader (kid_fields (snd (plan_message n)) ps @ attrs) = Inr m"
    unfolding plan_node_reads_def by blast
  obtain sp where sp: "serialize_fenic_schema s = Inr (MsgV sp)" "deserialize_fenic_schema (MsgV sp) = Inr s"
    by (rule schema_back [OF fits(2)])
  have ok: "kids_ok (snd (plan_message n)) (length ps)" using child_count_kids [OF count] len by simp
  let ?fs = "kid_fields (snd (plan_message n)) ps @ attrs"
  let ?m = "MsgV ((fst (plan_message n), MsgV ?fs) # (''schema'', MsgV sp) # cache_info_field c)"
  have "serialize_logical_plan env (Plan n cs s c) = Inr ?m"
    by (simp add: serialize_logical_plan.simps kids(1) a(1) sp(1))
  moreover have "from_schema (plan_session env) m qs s = Inr (Plan m qs s None)"
    using init init_check_erase [OF a(2)] init_check_written unique len by (simp add: from_schema_def)
  then have "deserialize_logical_plan env ?m = Inr (Some (Plan m qs s c))"
    using plan_kids_over [OF kids(2) ok, of attrs] a(4) [OF ok]
    by (simp add: read_plan_message a(3) msg_field_def sp(2) cache_info_back)
  ultimately show ?case using a(2) kids(3) by auto
qed


definition example_plan_serde :: PlanSerdeEnv where
  "example_plan_serde = \<lparr>expr_serde = plain_env, plan_session = example_plan_env,
     frame_bytes = (\<lambda>d. if d = 0 then ''a'' else ''b''),
     frame_of_bytes = (\<lambda>b. if b = ''a'' then Inr 0 else Inr 1)\<rparr>"

definition example_join :: "real \<Rightarrow> LogicalPlan" where
  "example_join te = Plan (SemanticJoin (ColumnExpr ''id'') (ColumnExpr ''name'') ''t'' True te None (Some 60))
     [example_left, Plan (InMemorySource 1) [] (mk_schema [mk_field ''name'' StringType]) None]
     (mk_schema [mk_field ''id'' IntegerType, mk_field ''ok'' BooleanType, mk_field ''name'' StringType]) (Some None)"

lemmas join_evals = example_join_def example_plan_serde_def example_left_def example_plan_env_def mk_schema_def
  mk_field_def schema_fits_def serializable.simps column_names_def validate_scalar_expr_def is_sort_def is_aggregate_def
  alias_ok_def raise_if_def


section \<open>What is lost\<close>

text \<open>A tenth is no binary fraction.\<close>

lemma float32_tenth: "float32 (1 / 10) \<noteq> 1 / 10"
proof
  assume *: "float32 (1 / 10) = 1 / 10"
  have "\<lfloor>log 2 (1 / 10 :: real)\<rfloor> = -4"
    by (simp add: floor_eq_iff le_log_iff log_less_iff powr_minus powr_numeral)
  then have "float32 (1 / 10) = of_int (round_half_even (1 / 10 / (2 powi (-27)))) * 2 powi (-27)"
    by (simp add: float32_def Let_def)
  then obtain n :: int where "of_int n * 2 powi (-27) = (1 / 10 :: real)" using * by metis
  then have "of_int (n * 10) = (of_int (2 ^ 27) :: real)" by (simp add: power_int_minus field_simps)
  then have "n * 10 = 134217728" by (simp only: of_int_eq_iff) simp
  then show False by presburger
qed

text \<open>A semantic join at temperature 0.1 is read back at another temperature: what is read is not
  equal to what was written.\<close>

theorem join_temperature_changes:
  assumes "from_schema_ok (plan_session env) p" "plan_fits env p"
    and "plan_node p = SemanticJoin l r t s (1 / 10) a to"
  shows "\<exists>m q. serialize_logical_plan env p = Inr m \<and> deserialize_logical_plan env m = Inr (Some q) \<and> \<not> plan_eq q p"
proof -
  from plan_read_back [OF assms(1,2)] obtain m q where w: "serialize_logical_plan env p = Inr m"
    "deserialize_logical_plan env m = Inr (Some q)" "erase_plan q = erase_plan (written p)" by blast
  from w(3) assms(3) have "erase_node (plan_node q) = SemanticJoin (erase l) (erase r) t s (float32 (1 / 10)) a None"
    by (cases p; cases q) simp
  with float32_tenth assms(3) have "erase_node (plan_node q) \<noteq> erase_node (plan_node p)" by simp
  then have "\<not> plan_eq q p" by (subst plan_eq.simps) (simp add: node_eq_erase)
  with w show ?thesis by blast
qed

theorem join_temperature_changes_witness:
  "\<exists>m q. serialize_logical_plan example_plan_serde (example_join (1 / 10)) = Inr m \<and>
    deserialize_logical_plan example_plan_serde m = Inr (Some q) \<and> \<not> plan_eq q (example_join (1 / 10))"
  by (rule join_temperature_changes [of _ _ "ColumnExpr ''id''" "ColumnExpr ''name''" "''t''" True None "Some 60"])
    (simp_all add: join_evals)

end
