(* ===== verification/TypeInference.thy ===== *)
theory TypeInference
  imports DataTypes "HOL-Library.List_Lexorder" "HOL-Library.Char_ord"
begin

text \<open>
  Types of Python values (\<^verbatim>\<open>src/fenic/core/_utils/type_inference.py\<close>): the values a user
  passes as literals, the type inferred for each, and the common supertype of the elements of a
  list.  Keys of dictionaries are strings.  The lemmas show that the supertype is a least upper
  bound for the order in which a number may widen and a struct may gain fields.
\<close>

section \<open>Values\<close>

text \<open>
  A float carries its text, a point in time its \<^verbatim>\<open>str\<close> and its \<^verbatim>\<open>repr\<close>.  \<open>PForeign\<close> stands for a value of any other class.
\<close>

datatype PyObj =
    PNone
  | PBool bool
  | PInt int
  | PFloat string
  | PStr string
  | PDatetime string string
  | PDate string string
  | PList "PyObj list"
  | PDict "(string \<times> PyObj) list"
  | PForeign string

lemma size_dict_value [termination_simp]:
  "(k, v) \<in> set kvs \<Longrightarrow> size v < Suc (size_list (size_prod (\<lambda>_. 0) size) kvs)"
  by (induction kvs) auto

section \<open>Common supertypes (\<open>_find_common_supertype\<close>)\<close>

definition numeric_order :: "DataType list" where
  "numeric_order = [IntegerType, FloatType, DoubleType]"

fun index_of :: "'a list \<Rightarrow> 'a \<Rightarrow> nat" where
  "index_of [] x = 0"
| "index_of (y # ys) x = (if x = y then 0 else Suc (index_of ys x))"

text \<open>\<^verbatim>\<open>next((f for f in fields if f.name == name), None)\<close>\<close>

definition find_sf :: "string \<Rightarrow> DataType StructField list \<Rightarrow> DataType StructField option" where
  "find_sf n fs = List.find (\<lambda>f. sf_name f = n) fs"

lemma find_sf_Some: "find_sf n fs = Some f \<Longrightarrow> f \<in> set fs \<and> sf_name f = n"
  by (auto simp: find_sf_def find_Some_iff)

lemma find_sf_None: "find_sf n fs = None \<longleftrightarrow> n \<notin> sf_name ` set fs"
  by (auto simp: find_sf_def find_None_iff)

lemma size_find_sf [termination_simp]:
  "find_sf n fs = Some f \<Longrightarrow> size (sf_type f) < Suc (size_list (size_StructField size) fs)"
  by (auto dest: find_sf_Some intro: size_sf_type)

lemma size_element_type [termination_simp]: "is_ArrayType d \<Longrightarrow> size (element_type d) < size d"
  by (cases d) auto

lemma size_find_struct [termination_simp]:
  "is_StructType d \<Longrightarrow> find_sf n (struct_fields d) = Some f \<Longrightarrow> size (sf_type f) < size d"
  by (cases d) (auto simp: size_find_sf)

definition merged_names :: "DataType StructField list \<Rightarrow> DataType StructField list \<Rightarrow> string list" where
  "merged_names fs gs = sorted_list_of_set (sf_name ` set fs \<union> sf_name ` set gs)"

function find_common_supertype :: "DataType \<Rightarrow> DataType \<Rightarrow> DataType res" where
  "find_common_supertype t1 t2 =
     (if dtype_eq t1 t2 then Inr t1
      else if t1 \<in> set numeric_order \<and> t2 \<in> set numeric_order then
        Inr (numeric_order ! max (index_of numeric_order t1) (index_of numeric_order t2))
      else if isinstance t1 ArrayCls \<and> isinstance t2 ArrayCls then
        bind_res (find_common_supertype (element_type t1) (element_type t2)) (\<lambda>e. Inr (ArrayType e))
      else if isinstance t1 StructCls \<and> isinstance t2 StructCls then
        bind_res
          (map_res (\<lambda>n.
             case find_sf n (struct_fields t1) of
               Some f1 \<Rightarrow>
                 (case find_sf n (struct_fields t2) of
                    Some f2 \<Rightarrow> bind_res (find_common_supertype (sf_type f1) (sf_type f2))
                                 (\<lambda>t. Inr (StructField n t))
                  | None \<Rightarrow> Inr (StructField n (sf_type f1)))
             | None \<Rightarrow>
                 (case find_sf n (struct_fields t2) of
                    Some f2 \<Rightarrow> Inr (StructField n (sf_type f2))
                  | None \<Rightarrow> Inl PyAttributeError))
             (merged_names (struct_fields t1) (struct_fields t2)))
          (\<lambda>fs. Inr (StructType fs))
      else Inl TypeInferenceError)"
  by pat_completeness auto
termination
  by (relation "measure (\<lambda>(a, b). size a)") (auto simp: size_element_type size_find_struct)

declare find_common_supertype.simps [simp del]

section \<open>The type of a value (\<open>infer_dtype_from_pyobj\<close>)\<close>

fun fold_res :: "('a \<Rightarrow> 'a \<Rightarrow> 'e + 'a) \<Rightarrow> 'a \<Rightarrow> 'a list \<Rightarrow> 'e + 'a" where
  "fold_res f acc [] = Inr acc"
| "fold_res f acc (x # xs) = bind_res (f acc x) (\<lambda>y. fold_res f y xs)"

fun infer_dtype_from_pyobj :: "PyObj \<Rightarrow> DataType res" where
  "infer_dtype_from_pyobj (PBool _) = Inr BooleanType"
| "infer_dtype_from_pyobj (PInt _) = Inr IntegerType"
| "infer_dtype_from_pyobj (PFloat _) = Inr FloatType"
| "infer_dtype_from_pyobj (PStr _) = Inr StringType"
| "infer_dtype_from_pyobj (PDatetime _ _) = Inr TimestampType"
| "infer_dtype_from_pyobj (PDate _ _) = Inr DateType"
| "infer_dtype_from_pyobj PNone = Inl TypeInferenceError"
| "infer_dtype_from_pyobj (PList vs) =
     (if vs = [] then Inl TypeInferenceError
      else bind_res (map_res infer_dtype_from_pyobj vs) (\<lambda>ts.
           bind_res (fold_res find_common_supertype (hd ts) (tl ts)) (\<lambda>t. Inr (ArrayType t))))"
| "infer_dtype_from_pyobj (PDict kvs) =
     bind_res (map_res (\<lambda>(k, v). bind_res (infer_dtype_from_pyobj v) (\<lambda>t. Inr (StructField k t))) kvs)
       (\<lambda>fs. Inr (StructType fs))"
| "infer_dtype_from_pyobj (PForeign _) = Inl TypeInferenceError"

section \<open>Types that cover others\<close>

text \<open>
  A type covers another when each value of the other has a place in it: a number type covers the
  narrower ones, an array covers element-wise, a struct covers one whose fields it has.
\<close>

function covers :: "DataType \<Rightarrow> DataType \<Rightarrow> bool" where
  "covers d u =
     (if is_ArrayType d then is_ArrayType u \<and> covers (element_type d) (element_type u)
      else if is_StructType d then
        is_StructType u \<and>
        list_all (\<lambda>n. case find_sf n (struct_fields d) of None \<Rightarrow> True
                     | Some f \<Rightarrow> (case find_sf n (struct_fields u) of None \<Rightarrow> False
                                  | Some g \<Rightarrow> covers (sf_type f) (sf_type g)))
          (map sf_name (struct_fields d))
      else d = u \<or> d \<in> set numeric_order \<and> u \<in> set numeric_order \<and>
             index_of numeric_order d \<le> index_of numeric_order u)"
  by pat_completeness auto
termination
  by (relation "measure (\<lambda>(a, b). size a)") (auto simp: size_element_type size_find_struct)

declare covers.simps [simp del]

lemma covers_array [simp]:
  "covers (ArrayType d) u \<longleftrightarrow> is_ArrayType u \<and> covers d (element_type u)"
  by (subst covers.simps) simp

lemma covers_struct [simp]:
  "covers (StructType fs) u \<longleftrightarrow> is_StructType u \<and>
     (\<forall>n f. find_sf n fs = Some f \<longrightarrow>
        (\<exists>g. find_sf n (struct_fields u) = Some g \<and> covers (sf_type f) (sf_type g)))"
proof -
  have "list_all (\<lambda>n. case find_sf n fs of None \<Rightarrow> True
                     | Some f \<Rightarrow> (case find_sf n (struct_fields u) of None \<Rightarrow> False
                                  | Some g \<Rightarrow> covers (sf_type f) (sf_type g))) (map sf_name fs) \<longleftrightarrow>
     (\<forall>n f. find_sf n fs = Some f \<longrightarrow>
        (\<exists>g. find_sf n (struct_fields u) = Some g \<and> covers (sf_type f) (sf_type g)))" (is "?l = ?r")
  proof
    assume l: ?l
    show ?r
    proof (intro allI impI)
      fix n f
      assume f: "find_sf n fs = Some f"
      then have "n \<in> sf_name ` set fs" using find_sf_None [of n fs] by fastforce
      with l f show "\<exists>g. find_sf n (struct_fields u) = Some g \<and> covers (sf_type f) (sf_type g)"
        by (force simp: list_all_iff split: option.splits)
    qed
  next
    assume ?r
    then show ?l by (fastforce simp: list_all_iff split: option.splits)
  qed
  then show ?thesis by (subst covers.simps) simp
qed

lemma covers_prim:
  "\<not> is_ArrayType d \<Longrightarrow> \<not> is_StructType d \<Longrightarrow>
     covers d u \<longleftrightarrow> d = u \<or> d \<in> set numeric_order \<and> u \<in> set numeric_order \<and>
        index_of numeric_order d \<le> index_of numeric_order u"
  by (subst covers.simps) simp

lemma numeric_not_nested [simp]:
  "d \<in> set numeric_order \<Longrightarrow> \<not> is_ArrayType d" "d \<in> set numeric_order \<Longrightarrow> \<not> is_StructType d"
  by (auto simp: numeric_order_def)

lemma index_of_inj:
  "d \<in> set numeric_order \<Longrightarrow> u \<in> set numeric_order \<Longrightarrow>
     index_of numeric_order d = index_of numeric_order u \<longleftrightarrow> d = u"
  by (auto simp: numeric_order_def)

lemma covers_refl [simp]: "covers d d"
proof (induction d rule: DataType_induct)
  case (Struct fs)
  then show ?case by (auto dest: find_sf_Some)
qed (auto simp: covers_prim)

lemma covers_trans: "covers a b \<Longrightarrow> covers b c \<Longrightarrow> covers a c"
proof (induction a arbitrary: b c rule: DataType_induct)
  case (Prim d)
  then show ?case by (cases "b = d") (auto simp: covers_prim)
next
  case (Array t)
  then show ?case by (cases b; cases c) auto
next
  case (Struct fs)
  from Struct.prems(1) obtain gs where b: "b = StructType gs" by (auto simp: is_StructType_def)
  with Struct.prems(2) obtain hs where c: "c = StructType hs" by (auto simp: is_StructType_def)
  have "\<exists>h. find_sf n hs = Some h \<and> covers (sf_type f) (sf_type h)" if f: "find_sf n fs = Some f" for n f
  proof -
    from Struct.prems(1) f b obtain g where "find_sf n gs = Some g" "covers (sf_type f) (sf_type g)" by auto
    moreover from this Struct.prems(2) b c obtain h where "find_sf n hs = Some h" "covers (sf_type g) (sf_type h)"
      by auto
    ultimately show ?thesis using Struct.IH [of f] f by (auto dest: find_sf_Some)
  qed
  with c show ?case by simp
qed

text \<open>A number type is covered by, and covers, number types only.\<close>

lemma covers_numeric:
  "d \<in> set numeric_order \<Longrightarrow> covers d u \<longleftrightarrow>
     u \<in> set numeric_order \<and> index_of numeric_order d \<le> index_of numeric_order u"
  by (auto simp: covers_prim)

lemma covers_shape:
  "covers d u \<Longrightarrow> is_ArrayType u = is_ArrayType d"
  "covers d u \<Longrightarrow> is_StructType u = is_StructType d"
  by (subst (asm) covers.simps, auto simp: is_StructType_def is_ArrayType_def numeric_order_def split: if_splits)+

section \<open>Joins that may fail\<close>

text \<open>
  An operation that gives the least element above two, when there is one above both: folding it
  over a list gives the least element above all of them.
\<close>

locale partial_join =
  fixes below :: "'a \<Rightarrow> 'a \<Rightarrow> bool" and join :: "'a \<Rightarrow> 'a \<Rightarrow> 'e + 'a"
  assumes below_refl: "below x x"
    and below_trans: "below x y \<Longrightarrow> below y z \<Longrightarrow> below x z"
    and join_upper: "join x y = Inr z \<Longrightarrow> below x z \<and> below y z"
    and join_least: "below x u \<Longrightarrow> below y u \<Longrightarrow> \<exists>z. join x y = Inr z \<and> below z u"
begin

lemma fold_upper: "fold_res join a xs = Inr z \<Longrightarrow> below a z \<and> (\<forall>x \<in> set xs. below x z)"
proof (induction xs arbitrary: a)
  case Nil
  then show ?case by (simp add: below_refl)
next
  case (Cons x xs)
  then obtain b where "join a x = Inr b" "fold_res join b xs = Inr z" by auto
  with Cons.IH [of b] show ?case by (auto dest: join_upper intro: below_trans)
qed

lemma fold_least:
  "below a u \<Longrightarrow> \<forall>x \<in> set xs. below x u \<Longrightarrow> \<exists>z. fold_res join a xs = Inr z \<and> below z u"
proof (induction xs arbitrary: a)
  case (Cons x xs)
  then obtain b where "join a x = Inr b" "below b u" using join_least [of a u x] by auto
  with Cons.IH [of b] Cons.prems show ?case by auto
qed simp

lemma fold_decides:
  assumes "xs \<noteq> []"
  shows "(\<exists>z. fold_res join (hd xs) (tl xs) = Inr z) \<longleftrightarrow> (\<exists>u. \<forall>x \<in> set xs. below x u)"
proof
  assume "\<exists>z. fold_res join (hd xs) (tl xs) = Inr z"
  then obtain z where "below (hd xs) z \<and> (\<forall>x \<in> set (tl xs). below x z)" using fold_upper by blast
  with assms show "\<exists>u. \<forall>x \<in> set xs. below x u" by (cases xs) auto
next
  assume "\<exists>u. \<forall>x \<in> set xs. below x u"
  then obtain u where "below (hd xs) u" "\<forall>x \<in> set (tl xs). below x u" using assms by (cases xs) auto
  then show "\<exists>z. fold_res join (hd xs) (tl xs) = Inr z" using fold_least by blast
qed

end

lemma find_sf_map_res:
  assumes "map_res F ns = Inr hs" and "\<And>n h. n \<in> set ns \<Longrightarrow> F n = Inr h \<Longrightarrow> sf_name h = n"
  shows "find_sf n hs = (if n \<in> set ns then Some (projr (F n)) else None)"
  using assms
proof (induction ns arbitrary: hs)
  case Nil
  then show ?case by (simp add: find_sf_def)
next
  case (Cons m ns)
  then obtain h hs' where h: "F m = Inr h" "map_res F ns = Inr hs'" "hs = h # hs'" by auto
  with Cons.prems(2) have "sf_name h = m" by auto
  moreover have "find_sf n hs' = (if n \<in> set ns then Some (projr (F n)) else None)"
    by (rule Cons.IH [OF h(2)]) (use Cons.prems(2) in auto)
  ultimately show ?case using h by (auto simp: find_sf_def)
qed

text \<open>The merge of the fields of two structs, one name at a time.\<close>

definition merge_sf ::
  "DataType StructField list \<Rightarrow> DataType StructField list \<Rightarrow> string \<Rightarrow> DataType StructField res" where
  "merge_sf fs gs n =
     (case find_sf n fs of
        Some f1 \<Rightarrow>
          (case find_sf n gs of
             Some f2 \<Rightarrow> bind_res (find_common_supertype (sf_type f1) (sf_type f2))
                          (\<lambda>t. Inr (StructField n t))
           | None \<Rightarrow> Inr (StructField n (sf_type f1)))
      | None \<Rightarrow>
          (case find_sf n gs of
             Some f2 \<Rightarrow> Inr (StructField n (sf_type f2))
           | None \<Rightarrow> Inl PyAttributeError))"

lemma merged_names_set: "set (merged_names fs gs) = sf_name ` set fs \<union> sf_name ` set gs"
  by (simp add: merged_names_def)

lemma supertype_struct:
  "find_common_supertype (StructType fs) (StructType gs) =
     (if fs = gs then Inr (StructType fs)
      else bind_res (map_res (merge_sf fs gs) (merged_names fs gs)) (\<lambda>hs. Inr (StructType hs)))"
proof -
  have "\<not> StructType fs \<in> set numeric_order" by (simp add: numeric_order_def)
  then show ?thesis
    by (subst find_common_supertype.simps) (simp add: dtype_eq_iff_eq merge_sf_def [abs_def] cong: option.case_cong)
qed

lemma merge_sf_name: "merge_sf fs gs n = Inr h \<Longrightarrow> sf_name h = n"
  by (auto simp: merge_sf_def split: option.splits)

lemma find_sf_merged:
  assumes "map_res (merge_sf fs gs) (merged_names fs gs) = Inr hs"
  shows "find_sf n hs =
     (if n \<in> sf_name ` set fs \<union> sf_name ` set gs then Some (projr (merge_sf fs gs n)) else None)"
  using find_sf_map_res [OF assms] merge_sf_name by (auto simp: merged_names_set)

lemma merge_sf_Inr:
  assumes "map_res (merge_sf fs gs) (merged_names fs gs) = Inr hs"
    and "n \<in> sf_name ` set fs \<union> sf_name ` set gs"
  shows "\<exists>h. merge_sf fs gs n = Inr h"
proof -
  from assms(1) have "list_all2 (\<lambda>n h. merge_sf fs gs n = Inr h) (merged_names fs gs) hs"
    by (simp add: map_res_Inr_iff)
  moreover have "n \<in> set (merged_names fs gs)" using assms(2) by (simp add: merged_names_set)
  ultimately show ?thesis by (induction rule: list_all2_induct) auto
qed

lemma supertype_array:
  "find_common_supertype (ArrayType s) (ArrayType t) =
     (if s = t then Inr (ArrayType s) else bind_res (find_common_supertype s t) (\<lambda>e. Inr (ArrayType e)))"
  by (subst find_common_supertype.simps) (simp add: dtype_eq_iff_eq numeric_order_def)

lemma supertype_flat:
  assumes "\<not> (is_ArrayType a \<and> is_ArrayType b)" and "\<not> (is_StructType a \<and> is_StructType b)"
  shows "find_common_supertype a b =
     (if a = b then Inr a
      else if a \<in> set numeric_order \<and> b \<in> set numeric_order then
        Inr (numeric_order ! max (index_of numeric_order a) (index_of numeric_order b))
      else Inl TypeInferenceError)"
  using assms by (subst find_common_supertype.simps) (auto simp: dtype_eq_iff_eq)

lemma numeric_max:
  assumes "a \<in> set numeric_order" "b \<in> set numeric_order"
  shows "numeric_order ! max (index_of numeric_order a) (index_of numeric_order b) \<in> set numeric_order \<and>
     index_of numeric_order (numeric_order ! max (index_of numeric_order a) (index_of numeric_order b)) =
       max (index_of numeric_order a) (index_of numeric_order b)"
  using assms by (auto simp: numeric_order_def max_def)

lemma supertype_upper: "find_common_supertype a b = Inr c \<Longrightarrow> covers a c \<and> covers b c"
proof (induction a arbitrary: b c rule: DataType_induct)
  case (Prim d)
  then show ?case by (auto simp: supertype_flat covers_numeric numeric_max split: if_splits)
next
  case (Array s)
  show ?case
  proof (cases "is_ArrayType b")
    case True
    with Array show ?thesis by (auto simp: is_ArrayType_def supertype_array split: if_splits)
  next
    case False
    with Array.prems show ?thesis by (auto simp: supertype_flat numeric_order_def split: if_splits)
  qed
next
  case (Struct fs)
  show ?case
  proof (cases "is_StructType b")
    case False
    with Struct.prems show ?thesis by (auto simp: supertype_flat numeric_order_def split: if_splits)
  next
    case True
    then obtain gs where b: "b = StructType gs" by (auto simp: is_StructType_def)
    show ?thesis
    proof (cases "fs = gs")
      case True
      with Struct.prems b show ?thesis by (auto simp: supertype_struct)
    next
      case False
      with Struct.prems b obtain hs where hs: "map_res (merge_sf fs gs) (merged_names fs gs) = Inr hs"
        and c: "c = StructType hs" by (auto simp: supertype_struct)
      have "\<exists>h. find_sf n hs = Some h \<and>
          (\<forall>f. find_sf n fs = Some f \<longrightarrow> covers (sf_type f) (sf_type h)) \<and>
          (\<forall>g. find_sf n gs = Some g \<longrightarrow> covers (sf_type g) (sf_type h))"
        if "find_sf n fs = Some f \<or> find_sf n gs = Some g" for n f g
      proof -
        from that have n: "n \<in> sf_name ` set fs \<union> sf_name ` set gs"
          using find_sf_None [of n fs] find_sf_None [of n gs] by (cases "find_sf n fs"; cases "find_sf n gs") auto
        from merge_sf_Inr [OF hs n] obtain h where h: "merge_sf fs gs n = Inr h" by blast
        with find_sf_merged [OF hs, of n] n have "find_sf n hs = Some h" by simp
        moreover have "\<forall>f. find_sf n fs = Some f \<longrightarrow> covers (sf_type f) (sf_type h)"
          "\<forall>g. find_sf n gs = Some g \<longrightarrow> covers (sf_type g) (sf_type h)"
          using h Struct.IH by (auto simp: merge_sf_def split: option.splits dest!: find_sf_Some)
        ultimately show ?thesis by blast
      qed
      with b c show ?thesis by fastforce
    qed
  qed
qed

lemma supertype_least:
  "covers a u \<Longrightarrow> covers b u \<Longrightarrow> \<exists>c. find_common_supertype a b = Inr c \<and> covers c u"
proof (induction a arbitrary: b u rule: DataType_induct)
  case (Prim d)
  have "\<not> is_ArrayType b" "\<not> is_StructType b"
    using Prim covers_shape [of d u] covers_shape [of b u] by simp_all
  with Prim show ?case by (auto simp: supertype_flat covers_prim numeric_max)
next
  case (Array s)
  then have "is_ArrayType u" "is_ArrayType b" using covers_shape [of b u] by simp_all
  then obtain t v where "b = ArrayType t" "u = ArrayType v" by (auto simp: is_ArrayType_def)
  with Array.prems Array.IH [of v t] show ?case by (auto simp: supertype_array)
next
  case (Struct fs)
  then have "is_StructType u" "is_StructType b" using covers_shape [of b u] by simp_all
  then obtain gs us where bu: "b = StructType gs" "u = StructType us" by (auto simp: is_StructType_def)
  show ?case
  proof (cases "fs = gs")
    case True
    with Struct.prems bu show ?thesis by (auto simp: supertype_struct)
  next
    case False
    have F: "\<exists>h. merge_sf fs gs n = Inr h \<and> (\<exists>v. find_sf n us = Some v \<and> covers (sf_type h) (sf_type v))"
      if n: "n \<in> sf_name ` set fs \<union> sf_name ` set gs" for n
    proof (cases "find_sf n fs")
      case None
      with n obtain g where g: "find_sf n gs = Some g"
        using find_sf_None [of n fs] find_sf_None [of n gs] by (cases "find_sf n gs") auto
      with None Struct.prems(2) bu show ?thesis by (auto simp: merge_sf_def)
    next
      case (Some f)
      with Struct.prems(1) bu obtain v where v: "find_sf n us = Some v" "covers (sf_type f) (sf_type v)"
        by auto
      show ?thesis
      proof (cases "find_sf n gs")
        case None
        with Some v show ?thesis by (auto simp: merge_sf_def)
      next
        case (Some g)
        with Struct.prems(2) bu v have "covers (sf_type g) (sf_type v)" by force
        with Struct.IH [of f] \<open>find_sf n fs = Some f\<close> v obtain c
          where "find_common_supertype (sf_type f) (sf_type g) = Inr c" "covers c (sf_type v)"
          by (auto dest: find_sf_Some)
        with Some \<open>find_sf n fs = Some f\<close> v show ?thesis by (auto simp: merge_sf_def)
      qed
    qed
    then have "map_res (merge_sf fs gs) (merged_names fs gs) =
        Inr (map (\<lambda>n. projr (merge_sf fs gs n)) (merged_names fs gs))"
      by (intro map_res_total) (fastforce simp: merged_names_set)
    then obtain hs where hs: "map_res (merge_sf fs gs) (merged_names fs gs) = Inr hs" by blast
    have "\<exists>v. find_sf n us = Some v \<and> covers (sf_type h) (sf_type v)" if "find_sf n hs = Some h" for n h
      using that F [of n] find_sf_merged [OF hs, of n] by (auto split: if_splits)
    with hs bu False show ?thesis by (auto simp: supertype_struct)
  qed
qed

interpretation supertype: partial_join covers find_common_supertype
  by unfold_locales (auto intro: covers_trans dest: supertype_upper supertype_least)

section \<open>Properties\<close>

lemma list_type_fold:
  assumes "vs \<noteq> []" and "map_res infer_dtype_from_pyobj vs = Inr ts"
  shows "infer_dtype_from_pyobj (PList vs) =
     bind_res (fold_res find_common_supertype (hd ts) (tl ts)) (\<lambda>t. Inr (ArrayType t))"
    and "set ts = insert (hd ts) (set (tl ts))" and "ts \<noteq> []"
  using assms by (cases vs; cases ts; simp)+

text \<open>C36. Inference succeeds on a list exactly when the list is not empty, every element has a type
  and some type covers them all; the element type it gives is then the least type that covers the
  types of all elements.\<close>

theorem list_type_least:
  "((\<exists>d. infer_dtype_from_pyobj (PList vs) = Inr d) \<longleftrightarrow>
      vs \<noteq> [] \<and> (\<exists>ts u. map_res infer_dtype_from_pyobj vs = Inr ts \<and> (\<forall>s \<in> set ts. covers s u))) \<and>
   (\<forall>d ts. infer_dtype_from_pyobj (PList vs) = Inr d \<longrightarrow> map_res infer_dtype_from_pyobj vs = Inr ts \<longrightarrow>
      (\<exists>t. d = ArrayType t \<and> (\<forall>s \<in> set ts. covers s t) \<and> (\<forall>u. (\<forall>s \<in> set ts. covers s u) \<longrightarrow> covers t u)))"
proof (cases "vs \<noteq> [] \<and> (\<exists>ts. map_res infer_dtype_from_pyobj vs = Inr ts)")
  case False
  then show ?thesis by auto
next
  case True
  then obtain ts where vs: "vs \<noteq> []" and ts: "map_res infer_dtype_from_pyobj vs = Inr ts" by blast
  note fold = list_type_fold [OF vs ts]
  have "(\<forall>s \<in> set ts. covers s t) \<and> (\<forall>u. (\<forall>s \<in> set ts. covers s u) \<longrightarrow> covers t u)"
    if t: "fold_res find_common_supertype (hd ts) (tl ts) = Inr t" for t
    using supertype.fold_upper [OF t] supertype.fold_least [of "hd ts" _ "tl ts"] t fold(2) by fastforce
  with vs ts fold(1) supertype.fold_decides [OF fold(3)] show ?thesis by auto
qed

theorem list_type_least_witness:
  "infer_dtype_from_pyobj (PList [PInt 1, PFloat ''2.5'']) = Inr (ArrayType FloatType) \<and>
     covers IntegerType FloatType"
proof -
  have i: "infer_dtype_from_pyobj (PList [PInt 1, PFloat ''2.5'']) = Inr (ArrayType FloatType)"
    by (simp add: supertype_flat numeric_order_def)
  have m: "map_res infer_dtype_from_pyobj [PInt 1, PFloat ''2.5''] = Inr [IntegerType, FloatType]" by simp
  from list_type_least [of "[PInt 1, PFloat ''2.5'']"] i m show ?thesis by auto
qed

text \<open>The type of a list of structs is that of the first when all are equal, and sorts the field
  names when they are not: the order of the fields depends on the values.\<close>

theorem merged_fields_sorted:
  assumes "fs \<noteq> gs" and "find_common_supertype (StructType fs) (StructType gs) = Inr (StructType hs)"
  shows "map sf_name hs = merged_names fs gs \<and> sorted (map sf_name hs) \<and> distinct (map sf_name hs)"
proof -
  from assms have m: "map_res (merge_sf fs gs) (merged_names fs gs) = Inr hs"
    by (auto simp: supertype_struct)
  have "map sf_name hs = ns" if "map_res (merge_sf fs gs) ns = Inr hs" for ns
    using that by (induction ns arbitrary: hs) (auto dest: merge_sf_name)
  with m have "map sf_name hs = merged_names fs gs" by blast
  then show ?thesis by (simp add: merged_names_def)
qed

end
