(* ===== verification/ColumnAPI.thy ===== *)
theory ColumnAPI
  imports TypeInference ExprTyping
begin

text \<open>
  Columns, the expressions of the public API (\<^verbatim>\<open>src/fenic/api/column.py\<close> and
  \<^verbatim>\<open>src/fenic/api/functions/core.py\<close>).  A column holds one logical expression and is that
  expression here; building one checks that sort orders and aggregates stay at the root.  The
  arguments have the types the annotations demand, which the decorator of each function checks.
  The lemmas show what every column guarantees and where the check does not look.
\<close>

section \<open>Arguments\<close>

text \<open>\<^verbatim>\<open>ColumnOrName\<close>, and the arguments that are a column or a Python value.\<close>

datatype ColumnOrName = ACol LogicalExpr | AName string

datatype ColumnOrValue = VCol LogicalExpr | VObj PyObj

datatype ColumnOrStr = SCol LogicalExpr | SStr string

datatype ListOrColumn = InList "PyObj list" | InCol ColumnOrName

section \<open>The text of a value\<close>

definition hex_digit :: "nat \<Rightarrow> char" where
  "hex_digit n = (if n < 10 then char_of (48 + n) else char_of (87 + n))"

definition printable :: "char \<Rightarrow> bool" where
  "printable c \<longleftrightarrow> (let n = of_char c :: nat in 32 \<le> n \<and> n < 127 \<or> 161 \<le> n \<and> n \<noteq> 173)"

definition repr_char :: "char \<Rightarrow> char \<Rightarrow> string" where
  "repr_char q c =
     (let n = of_char c :: nat in
      if c = q \<or> c = CHR 0x5C then [CHR 0x5C, c]
      else if n = 9 then [CHR 0x5C, CHR ''t'']
      else if n = 10 then [CHR 0x5C, CHR ''n'']
      else if n = 13 then [CHR 0x5C, CHR ''r'']
      else if printable c then [c]
      else [CHR 0x5C, CHR ''x'', hex_digit (n div 16), hex_digit (n mod 16)])"

text \<open>\<^verbatim>\<open>repr\<close> of a string: double quotes when it has single quotes and no double ones.\<close>

definition repr_str :: "string \<Rightarrow> string" where
  "repr_str s =
     (let q = (if CHR 0x27 \<in> set s \<and> CHR 0x22 \<notin> set s then CHR 0x22 else CHR 0x27)
      in q # concat (map (repr_char q) s) @ [q])"

fun py_repr :: "PyObj \<Rightarrow> string" where
  "py_repr PNone = ''None''"
| "py_repr (PBool b) = py_bool_str b"
| "py_repr (PInt i) = str_int i"
| "py_repr (PFloat s) = s"
| "py_repr (PStr s) = repr_str s"
| "py_repr (PDatetime s r) = r"
| "py_repr (PDate s r) = r"
| "py_repr (PList vs) = ''['' @ str_join '', '' (map py_repr vs) @ '']''"
| "py_repr (PDict kvs) =
     ''{'' @ str_join '', '' (map (\<lambda>(k, v). repr_str k @ '': '' @ py_repr v) kvs) @ ''}''"
| "py_repr (PForeign r) = r"

text \<open>The value of a literal expression.\<close>

fun literal_of :: "PyObj \<Rightarrow> PyVal" where
  "literal_of PNone = PyNone"
| "literal_of (PBool b) = PyBool b"
| "literal_of (PInt i) = PyInt i"
| "literal_of (PFloat s) = PyFloat s"
| "literal_of (PStr s) = PyStr s"
| "literal_of (PDatetime s r) = PyOther s"
| "literal_of (PDate s r) = PyOther s"
| "literal_of v = PyOther (py_repr v)"

section \<open>Columns\<close>

definition is_reduce :: "LogicalExpr \<Rightarrow> bool" where
  "is_reduce e = (case e of SemanticExpr (SemanticReduceExpr i v ns m te a to) _ \<Rightarrow> True | _ \<Rightarrow> False)"

definition is_alias :: "LogicalExpr \<Rightarrow> bool" where
  "is_alias e = (case e of AliasExpr _ _ \<Rightarrow> True | _ \<Rightarrow> False)"

definition from_logical_expr :: "LogicalExpr \<Rightarrow> LogicalExpr res" where
  "from_logical_expr e =
     bind_res
       (each_res (\<lambda>c.
          bind_res (raise_if (is_sort c \<and> \<not> is_reduce e) PlanError) (\<lambda>_.
            raise_if (\<not> is_alias e \<and> is_aggregate c) PlanError)) (expr_children e))
       (\<lambda>_. Inr e)"

definition from_column_name :: "string \<Rightarrow> LogicalExpr" where
  "from_column_name n = ColumnExpr n"

fun from_col_or_name :: "ColumnOrName \<Rightarrow> LogicalExpr" where
  "from_col_or_name (ACol e) = e"
| "from_col_or_name (AName n) = from_column_name n"

section \<open>Core functions\<close>

definition col_fn :: "string \<Rightarrow> LogicalExpr" where
  "col_fn n = from_column_name n"

definition null_fn :: "DataType \<Rightarrow> LogicalExpr res" where
  "null_fn d = from_logical_expr (LiteralExpr (literal_of PNone) d)"

definition empty_fn :: "DataType \<Rightarrow> LogicalExpr res" where
  "empty_fn d =
     (if isinstance d ArrayCls then from_logical_expr (LiteralExpr (literal_of (PList [])) d)
      else if isinstance d StructCls then from_logical_expr (LiteralExpr (literal_of (PDict [])) d)
      else null_fn d)"

definition lit :: "PyObj \<Rightarrow> LogicalExpr res" where
  "lit v =
     (if v = PNone then Inl ValidationError
      else if v = PList [] then Inl ValidationError
      else if v = PDict [] then Inl ValidationError
      else case infer_dtype_from_pyobj v of
             Inl e \<Rightarrow> if isinstance_exn e TypeInferenceError then Inl ValidationError else Inl e
           | Inr d \<Rightarrow> from_logical_expr (LiteralExpr (literal_of v) d))"

definition tool_param :: "string \<Rightarrow> DataType \<Rightarrow> LogicalExpr res" where
  "tool_param p d =
     bind_res (raise_if (isinstance d LogicalCls) ValidationError) (\<lambda>_.
       from_logical_expr (UnresolvedLiteralExpr d p))"

section \<open>Methods\<close>

fun column_get_item :: "LogicalExpr \<Rightarrow> ColumnOrValue \<Rightarrow> LogicalExpr res" where
  "column_get_item e (VCol k) = from_logical_expr (IndexExpr e k)"
| "column_get_item e (VObj (PStr s)) = from_logical_expr (IndexExpr e (LiteralExpr (PyStr s) StringType))"
| "column_get_item e (VObj (PInt i)) = from_logical_expr (IndexExpr e (LiteralExpr (PyInt i) IntegerType))"
| "column_get_item e (VObj _) = Inl PyValueError"

text \<open>A truth value is an integer to \<^verbatim>\<open>isinstance\<close>, but not to the strict check of \<open>get_item\<close>.\<close>

fun column_getitem :: "LogicalExpr \<Rightarrow> PyObj \<Rightarrow> LogicalExpr res" where
  "column_getitem e (PStr s) = column_get_item e (VObj (PStr s))"
| "column_getitem e (PInt i) = column_get_item e (VObj (PInt i))"
| "column_getitem e (PBool b) = column_get_item e (VObj (PBool b))"
| "column_getitem e _ = Inl PyTypeError"

definition column_getattr :: "LogicalExpr \<Rightarrow> string \<Rightarrow> LogicalExpr res" where
  "column_getattr e n = column_get_item e (VObj (PStr n))"

definition column_alias :: "LogicalExpr \<Rightarrow> string \<Rightarrow> LogicalExpr res" where
  "column_alias e n = from_logical_expr (AliasExpr e n)"

definition column_cast :: "LogicalExpr \<Rightarrow> DataType \<Rightarrow> LogicalExpr res" where
  "column_cast e d = from_logical_expr (CastExpr e d)"

definition column_desc :: "LogicalExpr \<Rightarrow> LogicalExpr res" where
  "column_desc e = from_logical_expr (SortExpr e False False)"

definition column_desc_nulls_first :: "LogicalExpr \<Rightarrow> LogicalExpr res" where
  "column_desc_nulls_first e = column_desc e"

definition column_desc_nulls_last :: "LogicalExpr \<Rightarrow> LogicalExpr res" where
  "column_desc_nulls_last e = from_logical_expr (SortExpr e False True)"

definition column_asc :: "LogicalExpr \<Rightarrow> LogicalExpr res" where
  "column_asc e = from_logical_expr (SortExpr e True False)"

definition column_asc_nulls_first :: "LogicalExpr \<Rightarrow> LogicalExpr res" where
  "column_asc_nulls_first e = column_asc e"

definition column_asc_nulls_last :: "LogicalExpr \<Rightarrow> LogicalExpr res" where
  "column_asc_nulls_last e = from_logical_expr (SortExpr e True True)"

text \<open>The other operand of a text test: a string becomes a literal.\<close>

fun str_operand :: "ColumnOrStr \<Rightarrow> LogicalExpr" where
  "str_operand (SStr s) = LiteralExpr (PyStr s) StringType"
| "str_operand (SCol e) = e"

definition column_contains :: "LogicalExpr \<Rightarrow> ColumnOrStr \<Rightarrow> LogicalExpr res" where
  "column_contains e other = from_logical_expr (mk_contains e (str_operand other))"

definition column_contains_any :: "LogicalExpr \<Rightarrow> string list \<Rightarrow> bool \<Rightarrow> LogicalExpr res" where
  "column_contains_any e others ci = from_logical_expr (mk_contains_any e others ci)"

definition column_starts_with :: "LogicalExpr \<Rightarrow> ColumnOrStr \<Rightarrow> LogicalExpr res" where
  "column_starts_with e other =
     bind_res (raise_if (case other of SStr s \<Rightarrow> take 1 s = ''^'' | SCol _ \<Rightarrow> False) ValidationError)
       (\<lambda>_. from_logical_expr (mk_starts_with e (str_operand other)))"

definition column_ends_with :: "LogicalExpr \<Rightarrow> ColumnOrStr \<Rightarrow> LogicalExpr res" where
  "column_ends_with e other =
     bind_res (raise_if (case other of SStr s \<Rightarrow> s \<noteq> [] \<and> last s = CHR ''$'' | SCol _ \<Rightarrow> False) ValidationError)
       (\<lambda>_. from_logical_expr (mk_ends_with e (str_operand other)))"

definition column_rlike :: "(string \<Rightarrow> bool) \<Rightarrow> LogicalExpr \<Rightarrow> ColumnOrStr \<Rightarrow> LogicalExpr res" where
  "column_rlike valid_regex e other =
     bind_res (mk_rlike valid_regex e (str_operand other)) from_logical_expr"

definition column_like :: "(string \<Rightarrow> bool) \<Rightarrow> LogicalExpr \<Rightarrow> ColumnOrStr \<Rightarrow> LogicalExpr res" where
  "column_like valid_regex e other =
     bind_res (mk_like valid_regex e (str_operand other)) from_logical_expr"

definition column_ilike :: "(string \<Rightarrow> bool) \<Rightarrow> LogicalExpr \<Rightarrow> ColumnOrStr \<Rightarrow> LogicalExpr res" where
  "column_ilike valid_regex e other =
     bind_res (mk_ilike valid_regex e (str_operand other)) from_logical_expr"

definition column_is_null :: "LogicalExpr \<Rightarrow> LogicalExpr res" where
  "column_is_null e = from_logical_expr (IsNullExpr e True)"

definition column_is_not_null :: "LogicalExpr \<Rightarrow> LogicalExpr res" where
  "column_is_not_null e = from_logical_expr (IsNullExpr e False)"

definition column_when :: "LogicalExpr \<Rightarrow> LogicalExpr \<Rightarrow> LogicalExpr \<Rightarrow> LogicalExpr res" where
  "column_when e c v = bind_res (mk_when (Some e) c v) from_logical_expr"

definition column_otherwise :: "LogicalExpr \<Rightarrow> LogicalExpr \<Rightarrow> LogicalExpr res" where
  "column_otherwise e v = bind_res (mk_otherwise e v) from_logical_expr"

text \<open>A column name passes the check of the argument, but has no expression.\<close>

fun column_is_in :: "LogicalExpr \<Rightarrow> ListOrColumn \<Rightarrow> LogicalExpr res" where
  "column_is_in e (InList vs) =
     (case infer_dtype_from_pyobj (PList vs) of
        Inl x \<Rightarrow> if isinstance_exn x TypeInferenceError then Inl ValidationError else Inl x
      | Inr d \<Rightarrow> from_logical_expr (InExpr e (LiteralExpr (literal_of (PList vs)) d)))"
| "column_is_in e (InCol (ACol c)) = from_logical_expr (InExpr e c)"
| "column_is_in e (InCol (AName n)) = Inl PyAttributeError"

section \<open>Operators\<close>

definition create_binary_expr ::
  "LogicalExpr \<Rightarrow> ColumnOrValue \<Rightarrow> Operator \<Rightarrow> BinaryClass \<Rightarrow> bool \<Rightarrow> LogicalExpr res" where
  "create_binary_expr e other op cls reverse =
     bind_res (case other of
                 VCol c \<Rightarrow> Inr c
               | VObj v \<Rightarrow> bind_res (infer_dtype_from_pyobj v) (\<lambda>d. Inr (LiteralExpr (literal_of v) d)))
       (\<lambda>r. if reverse then from_logical_expr (BinaryExpr cls r e op)
            else from_logical_expr (BinaryExpr cls e r op))"

definition column_invert :: "LogicalExpr \<Rightarrow> LogicalExpr res" where
  "column_invert e = from_logical_expr (NotExpr e)"

definition column_gt :: "LogicalExpr \<Rightarrow> ColumnOrValue \<Rightarrow> LogicalExpr res" where
  "column_gt e other = create_binary_expr e other GT NumericComparisonExpr False"

definition column_ge :: "LogicalExpr \<Rightarrow> ColumnOrValue \<Rightarrow> LogicalExpr res" where
  "column_ge e other = create_binary_expr e other GTEQ NumericComparisonExpr False"

definition column_lt :: "LogicalExpr \<Rightarrow> ColumnOrValue \<Rightarrow> LogicalExpr res" where
  "column_lt e other = create_binary_expr e other LT NumericComparisonExpr False"

definition column_le :: "LogicalExpr \<Rightarrow> ColumnOrValue \<Rightarrow> LogicalExpr res" where
  "column_le e other = create_binary_expr e other LTEQ NumericComparisonExpr False"

definition column_eq :: "LogicalExpr \<Rightarrow> ColumnOrValue \<Rightarrow> LogicalExpr res" where
  "column_eq e other = create_binary_expr e other EQ EqualityComparisonExpr False"

definition column_ne :: "LogicalExpr \<Rightarrow> ColumnOrValue \<Rightarrow> LogicalExpr res" where
  "column_ne e other = create_binary_expr e other NOT_EQ EqualityComparisonExpr False"

definition column_and :: "LogicalExpr \<Rightarrow> ColumnOrValue \<Rightarrow> LogicalExpr res" where
  "column_and e other = create_binary_expr e other AND BooleanExpr False"

definition column_rand :: "LogicalExpr \<Rightarrow> ColumnOrValue \<Rightarrow> LogicalExpr res" where
  "column_rand e other = column_and e other"

definition column_or :: "LogicalExpr \<Rightarrow> ColumnOrValue \<Rightarrow> LogicalExpr res" where
  "column_or e other = create_binary_expr e other OR BooleanExpr False"

definition column_ror :: "LogicalExpr \<Rightarrow> ColumnOrValue \<Rightarrow> LogicalExpr res" where
  "column_ror e other = column_or e other"

definition column_add :: "LogicalExpr \<Rightarrow> ColumnOrValue \<Rightarrow> LogicalExpr res" where
  "column_add e other = create_binary_expr e other PLUS ArithmeticExpr False"

definition column_radd :: "LogicalExpr \<Rightarrow> ColumnOrValue \<Rightarrow> LogicalExpr res" where
  "column_radd e other = create_binary_expr e other PLUS ArithmeticExpr True"

definition column_sub :: "LogicalExpr \<Rightarrow> ColumnOrValue \<Rightarrow> LogicalExpr res" where
  "column_sub e other = create_binary_expr e other MINUS ArithmeticExpr False"

definition column_rsub :: "LogicalExpr \<Rightarrow> ColumnOrValue \<Rightarrow> LogicalExpr res" where
  "column_rsub e other = create_binary_expr e other MINUS ArithmeticExpr True"

definition column_mul :: "LogicalExpr \<Rightarrow> ColumnOrValue \<Rightarrow> LogicalExpr res" where
  "column_mul e other = create_binary_expr e other MULTIPLY ArithmeticExpr False"

definition column_rmul :: "LogicalExpr \<Rightarrow> ColumnOrValue \<Rightarrow> LogicalExpr res" where
  "column_rmul e other = column_mul e other"

definition column_truediv :: "LogicalExpr \<Rightarrow> ColumnOrValue \<Rightarrow> LogicalExpr res" where
  "column_truediv e other = create_binary_expr e other DIVIDE ArithmeticExpr False"

definition column_rtruediv :: "LogicalExpr \<Rightarrow> ColumnOrValue \<Rightarrow> LogicalExpr res" where
  "column_rtruediv e other = create_binary_expr e other DIVIDE ArithmeticExpr True"

definition column_bool :: "LogicalExpr \<Rightarrow> bool res" where
  "column_bool e = Inl PyTypeError"

section \<open>Sort orders stay at the root\<close>

text \<open>
  The expressions built by the API: columns, literals, and whatever passes the check of
  \<open>from_logical_expr\<close> with such parts.  A reduction adds sort orders to expressions.
\<close>

inductive api_column :: "LogicalExpr \<Rightarrow> bool" where
  name: "api_column (ColumnExpr n)"
| literal: "api_column (LiteralExpr v d)"
| parameter: "api_column (UnresolvedLiteralExpr d p)"
| built: "from_logical_expr e = Inr e \<Longrightarrow>
     (\<And>c. c \<in> set (expr_children e) \<Longrightarrow> api_column c) \<Longrightarrow> api_column e"
| ordered: "api_column e \<Longrightarrow> \<not> is_sort e \<Longrightarrow> api_column (SortExpr e a l)"

fun sorts_at_root :: "LogicalExpr \<Rightarrow> bool" where
  "sorts_at_root e \<longleftrightarrow>
     list_all (\<lambda>c. (is_sort c \<longrightarrow> is_reduce e) \<and> (is_aggregate c \<longrightarrow> is_alias e \<or> is_sort e) \<and> sorts_at_root c)
       (expr_children e)"

declare sorts_at_root.simps [simp del]

lemma from_logical_expr_Inr:
  "from_logical_expr e = Inr c \<longleftrightarrow> c = e \<and>
     (\<forall>c \<in> set (expr_children e). (is_sort c \<longrightarrow> is_reduce e) \<and> (is_aggregate c \<longrightarrow> is_alias e))"
  by (auto simp: from_logical_expr_def)

text \<open>In the expression of any column a sort order below the root belongs to a reduction, and an
  aggregate below the root has an alias or a sort order directly above it.\<close>

theorem api_column_sorts_at_root:
  assumes "api_column e"
  shows "sorts_at_root e"
  using assms
proof (induction rule: api_column.induct)
  case (built e)
  then show ?case by (subst sorts_at_root.simps) (simp add: list_all_iff from_logical_expr_Inr)
next
  case (ordered e a l)
  then show ?case by (subst sorts_at_root.simps) (simp add: is_sort_def)
qed (subst sorts_at_root.simps, simp)+

theorem api_column_sorts_at_root_witness:
  "sorts_at_root (AliasExpr (FunctionExpr SumExpr [ColumnExpr ''a'']) ''s'')"
proof (rule api_column_sorts_at_root)
  have s: "api_column (FunctionExpr SumExpr [ColumnExpr ''a''])"
    by (rule api_column.built) (auto simp: from_logical_expr_Inr is_sort_def is_aggregate_def intro: api_column.name)
  show "api_column (AliasExpr (FunctionExpr SumExpr [ColumnExpr ''a'']) ''s'')"
    by (rule api_column.built) (use s in \<open>simp_all add: from_logical_expr_Inr is_sort_def is_alias_def\<close>)
qed

section \<open>What goes wrong\<close>

text \<open>Under an alias an aggregate can be nested in any other expression.\<close>

theorem nested_aggregate_accepted:
  "bind_res (column_alias (FunctionExpr SumExpr [ColumnExpr a]) n) (\<lambda>c. column_add c (VObj (PInt 1))) =
     Inr (BinaryExpr ArithmeticExpr (AliasExpr (FunctionExpr SumExpr [ColumnExpr a]) n)
       (LiteralExpr (PyInt 1) IntegerType) PLUS) \<and>
   column_add (FunctionExpr SumExpr [ColumnExpr a]) (VObj (PInt 1)) = Inl PlanError"
  by (simp add: column_alias_def column_add_def create_binary_expr_def from_logical_expr_def is_sort_def
      is_alias_def is_aggregate_def)

text \<open>A column name is an accepted argument of a membership test, and raises AttributeError.\<close>

theorem is_in_name_crashes: "column_is_in e (InCol (AName n)) = Inl PyAttributeError"
  by simp

end
