(* ===== verification/FunctionAPI.thy ===== *)
theory FunctionAPI
  imports ColumnAPI Plans
begin

text \<open>
  The functions of the public API (\<^verbatim>\<open>src/fenic/api/functions/\<close>: \<^verbatim>\<open>builtin.py\<close>,
  \<^verbatim>\<open>array.py\<close>, \<^verbatim>\<open>text.py\<close>, \<^verbatim>\<open>dt.py\<close>, \<^verbatim>\<open>json.py\<close>, \<^verbatim>\<open>markdown.py\<close>,
  \<^verbatim>\<open>embedding.py\<close>, \<^verbatim>\<open>semantic.py\<close>): each turns its arguments into expressions, checks
  them and builds a column.  Arguments have the types of the annotations, which pydantic checks
  before the body runs.
\<close>

section \<open>Environment\<close>

text \<open>
  Beside the environment of plans: the checks of the Rust plugin and of the JSON library on texts,
  the conversion of the numbers of a vector to 32 bits and its test for NaN, and what
  resolving a pydantic class as a response format gives, if it is a valid one.
\<close>

record ApiEnv = PlanEnv +
  valid_regex :: "string \<Rightarrow> bool"
  valid_jq :: "string \<Rightarrow> bool"
  valid_json :: "string \<Rightarrow> bool"
  as_float32 :: "string \<Rightarrow> string"
  is_nan :: "string \<Rightarrow> bool"
  resolve_format :: "nat \<Rightarrow> ResponseFormat option"

abbreviation plan_env :: "ApiEnv \<Rightarrow> PlanEnv" where
  "plan_env env \<equiv> PlanEnv.truncate env"

abbreviation column_of :: "LogicalExpr \<Rightarrow> LogicalExpr res" where
  "column_of e \<equiv> from_logical_expr e"

abbreviation expr_of :: "ColumnOrName \<Rightarrow> LogicalExpr" where
  "expr_of c \<equiv> from_col_or_name c"

text \<open>A column or a value that becomes a literal (\<^verbatim>\<open>x if isinstance(x, Column) else lit(x)\<close>).\<close>

fun col_or_lit :: "ColumnOrValue \<Rightarrow> LogicalExpr res" where
  "col_or_lit (VCol e) = Inr e"
| "col_or_lit (VObj v) = lit v"

fun col_or_str :: "ColumnOrStr \<Rightarrow> LogicalExpr res" where
  "col_or_str (SCol e) = Inr e"
| "col_or_str (SStr s) = lit (PStr s)"

section \<open>Built-in functions\<close>

definition sum_fn :: "ColumnOrName \<Rightarrow> LogicalExpr res" where
  "sum_fn c = column_of (FunctionExpr SumExpr [expr_of c])"

definition sum_distinct_fn :: "ColumnOrName \<Rightarrow> LogicalExpr res" where
  "sum_distinct_fn c = column_of (FunctionExpr SumDistinctExpr [expr_of c])"

definition avg_fn :: "ColumnOrName \<Rightarrow> LogicalExpr res" where
  "avg_fn c = column_of (FunctionExpr AvgExpr [expr_of c])"

definition mean_fn :: "ColumnOrName \<Rightarrow> LogicalExpr res" where
  "mean_fn c = column_of (FunctionExpr AvgExpr [expr_of c])"

definition min_fn :: "ColumnOrName \<Rightarrow> LogicalExpr res" where
  "min_fn c = column_of (FunctionExpr MinExpr [expr_of c])"

definition max_fn :: "ColumnOrName \<Rightarrow> LogicalExpr res" where
  "max_fn c = column_of (FunctionExpr MaxExpr [expr_of c])"

definition count_fn :: "ColumnOrName \<Rightarrow> LogicalExpr res" where
  "count_fn c =
     (if c = AName ''*'' then bind_res (lit (PStr ''*'')) (\<lambda>e. column_of (FunctionExpr CountExpr [e]))
      else column_of (FunctionExpr CountExpr [expr_of c]))"

definition count_distinct_fn :: "ColumnOrName list \<Rightarrow> LogicalExpr res" where
  "count_distinct_fn cs =
     bind_res (raise_if (cs = []) ValidationError) (\<lambda>_.
       column_of (FunctionExpr (CountDistinctExpr False) (map expr_of cs)))"

definition collect_list_fn :: "ColumnOrName \<Rightarrow> LogicalExpr res" where
  "collect_list_fn c = bind_res (mk_list_expr (expr_of c)) column_of"

definition approx_count_distinct_fn :: "ColumnOrName \<Rightarrow> LogicalExpr res" where
  "approx_count_distinct_fn c = column_of (FunctionExpr ApproxCountDistinctExpr [expr_of c])"

definition array_agg_fn :: "ColumnOrName \<Rightarrow> LogicalExpr res" where
  "array_agg_fn c = collect_list_fn c"

definition first_fn :: "ColumnOrName \<Rightarrow> LogicalExpr res" where
  "first_fn c = column_of (FunctionExpr FirstExpr [expr_of c])"

definition stddev_fn :: "ColumnOrName \<Rightarrow> LogicalExpr res" where
  "stddev_fn c = column_of (FunctionExpr StdDevExpr [expr_of c])"

datatype ArgOrList = OneArg ColumnOrName | ManyArgs "ColumnOrName list"

fun flatten_arg :: "ArgOrList \<Rightarrow> ColumnOrName list" where
  "flatten_arg (OneArg c) = [c]"
| "flatten_arg (ManyArgs cs) = cs"

definition struct_fn :: "ArgOrList list \<Rightarrow> LogicalExpr res" where
  "struct_fn args = column_of (FunctionExpr StructExpr (map expr_of (concat (map flatten_arg args))))"

definition array_fn :: "ArgOrList list \<Rightarrow> LogicalExpr res" where
  "array_fn args = column_of (FunctionExpr ArrayExpr (map expr_of (concat (map flatten_arg args))))"

text \<open>
  A user function becomes a function of columns; whether it is a coroutine function is an
  argument of the asynchronous one.
\<close>

definition udf_fn :: "Callable \<Rightarrow> DataType \<Rightarrow> (ColumnOrName list \<Rightarrow> LogicalExpr res) res" where
  "udf_fn f result_type =
     bind_res (raise_if (is_logical_type result_type) PyNotImplementedError) (\<lambda>_.
       Inr (\<lambda>cs. column_of (UDFExpr f (map expr_of cs) result_type)))"

definition async_udf_fn ::
  "Callable \<Rightarrow> bool \<Rightarrow> DataType \<Rightarrow> int \<Rightarrow> real \<Rightarrow> int \<Rightarrow> (ColumnOrName list \<Rightarrow> LogicalExpr res) res" where
  "async_udf_fn f is_coroutine result_type max_concurrency timeout_seconds num_retries =
     bind_res (raise_if (is_logical_type result_type) PyNotImplementedError) (\<lambda>_.
     bind_res (raise_if (\<not> is_coroutine) ValidationError) (\<lambda>_.
       Inr (\<lambda>cs. column_of
         (AsyncUDFExpr f (map expr_of cs) result_type max_concurrency timeout_seconds num_retries))))"

definition asc_fn :: "ColumnOrName \<Rightarrow> LogicalExpr res" where
  "asc_fn c = column_asc (expr_of c)"

definition asc_nulls_first_fn :: "ColumnOrName \<Rightarrow> LogicalExpr res" where
  "asc_nulls_first_fn c = column_asc_nulls_first (expr_of c)"

definition asc_nulls_last_fn :: "ColumnOrName \<Rightarrow> LogicalExpr res" where
  "asc_nulls_last_fn c = column_asc_nulls_last (expr_of c)"

definition desc_fn :: "ColumnOrName \<Rightarrow> LogicalExpr res" where
  "desc_fn c = column_desc (expr_of c)"

definition desc_nulls_first_fn :: "ColumnOrName \<Rightarrow> LogicalExpr res" where
  "desc_nulls_first_fn c = column_desc_nulls_first (expr_of c)"

definition desc_nulls_last_fn :: "ColumnOrName \<Rightarrow> LogicalExpr res" where
  "desc_nulls_last_fn c = column_desc_nulls_last (expr_of c)"

definition flatten_fn :: "ColumnOrName \<Rightarrow> LogicalExpr res" where
  "flatten_fn c = column_of (FunctionExpr FlattenExpr [expr_of c])"

definition when_fn :: "LogicalExpr \<Rightarrow> LogicalExpr \<Rightarrow> LogicalExpr res" where
  "when_fn c v = bind_res (mk_when None c v) column_of"

definition coalesce_fn :: "ColumnOrName list \<Rightarrow> LogicalExpr res" where
  "coalesce_fn cs =
     bind_res (raise_if (cs = []) ValidationError) (\<lambda>_.
       column_of (FunctionExpr CoalesceExpr (map expr_of cs)))"

definition greatest_fn :: "ColumnOrName list \<Rightarrow> LogicalExpr res" where
  "greatest_fn cs =
     bind_res (raise_if (length cs < 2) ValidationError) (\<lambda>_.
       column_of (FunctionExpr GreatestExpr (map expr_of cs)))"

definition least_fn :: "ColumnOrName list \<Rightarrow> LogicalExpr res" where
  "least_fn cs =
     bind_res (raise_if (length cs < 2) ValidationError) (\<lambda>_.
       column_of (FunctionExpr LeastExpr (map expr_of cs)))"

section \<open>Arrays\<close>

definition arr_size :: "ColumnOrName \<Rightarrow> LogicalExpr res" where
  "arr_size c = column_of (FunctionExpr ArrayLengthExpr [expr_of c])"

definition arr_distinct :: "ColumnOrName \<Rightarrow> LogicalExpr res" where
  "arr_distinct c = column_of (FunctionExpr ArrayDistinctExpr [expr_of c])"

definition arr_contains :: "ColumnOrName \<Rightarrow> ColumnOrValue \<Rightarrow> LogicalExpr res" where
  "arr_contains c v =
     bind_res (col_or_lit v) (\<lambda>e. column_of (FunctionExpr ArrayContainsExpr [expr_of c, e]))"

definition arr_max :: "ColumnOrName \<Rightarrow> LogicalExpr res" where
  "arr_max c = column_of (FunctionExpr ArrayMaxExpr [expr_of c])"

definition arr_min :: "ColumnOrName \<Rightarrow> LogicalExpr res" where
  "arr_min c = column_of (FunctionExpr ArrayMinExpr [expr_of c])"

definition arr_sort :: "ColumnOrName \<Rightarrow> LogicalExpr res" where
  "arr_sort c = column_of (FunctionExpr ArraySortExpr [expr_of c])"

definition arr_reverse :: "ColumnOrName \<Rightarrow> LogicalExpr res" where
  "arr_reverse c = column_of (FunctionExpr ArrayReverseExpr [expr_of c])"

definition arr_remove :: "ColumnOrName \<Rightarrow> ColumnOrValue \<Rightarrow> LogicalExpr res" where
  "arr_remove c v =
     bind_res (col_or_lit v) (\<lambda>e. column_of (FunctionExpr ArrayRemoveExpr [expr_of c, e]))"

definition arr_union :: "ColumnOrName \<Rightarrow> ColumnOrName \<Rightarrow> LogicalExpr res" where
  "arr_union c d = column_of (FunctionExpr ArrayUnionExpr [expr_of c, expr_of d])"

definition arr_intersect :: "ColumnOrName \<Rightarrow> ColumnOrName \<Rightarrow> LogicalExpr res" where
  "arr_intersect c d = column_of (FunctionExpr ArrayIntersectExpr [expr_of c, expr_of d])"

definition arr_except :: "ColumnOrName \<Rightarrow> ColumnOrName \<Rightarrow> LogicalExpr res" where
  "arr_except c d = column_of (FunctionExpr ArrayExceptExpr [expr_of c, expr_of d])"

definition arr_compact :: "ColumnOrName \<Rightarrow> LogicalExpr res" where
  "arr_compact c = column_of (FunctionExpr ArrayCompactExpr [expr_of c])"

definition arr_repeat :: "ColumnOrName \<Rightarrow> ColumnOrValue \<Rightarrow> LogicalExpr res" where
  "arr_repeat c n =
     bind_res (col_or_lit n) (\<lambda>e. column_of (FunctionExpr ArrayRepeatExpr [expr_of c, e]))"

definition arr_slice :: "ColumnOrName \<Rightarrow> ColumnOrValue \<Rightarrow> ColumnOrValue \<Rightarrow> LogicalExpr res" where
  "arr_slice c start len =
     bind_res (col_or_lit start) (\<lambda>s. bind_res (col_or_lit len) (\<lambda>l.
       column_of (FunctionExpr ArraySliceExpr [expr_of c, s, l])))"

definition arr_element_at :: "ColumnOrName \<Rightarrow> ColumnOrValue \<Rightarrow> LogicalExpr res" where
  "arr_element_at c i =
     bind_res (col_or_lit i) (\<lambda>e. column_of (FunctionExpr ElementAtExpr [expr_of c, e]))"

definition arr_overlap :: "ColumnOrName \<Rightarrow> ColumnOrName \<Rightarrow> LogicalExpr res" where
  "arr_overlap c d = column_of (FunctionExpr ArraysOverlapExpr [expr_of c, expr_of d])"

section \<open>Text\<close>

definition text_extract :: "ColumnOrName \<Rightarrow> string \<Rightarrow> LogicalExpr res" where
  "text_extract c template = bind_res (mk_textract (expr_of c) template) column_of"

definition recursive_chunk ::
  "ChunkLengthFunction \<Rightarrow> ColumnOrName \<Rightarrow> int \<Rightarrow> int \<Rightarrow> string list option \<Rightarrow> LogicalExpr res" where
  "recursive_chunk fn c chunk_size overlap custom =
     bind_res (mk_RecursiveTextChunkConfig chunk_size overlap fn
                 (if custom = None then ASCII else CUSTOM) custom)
       (\<lambda>config. column_of (mk_recursive_text_chunk (expr_of c) config))"

definition recursive_character_chunk ::
  "ColumnOrName \<Rightarrow> int \<Rightarrow> int \<Rightarrow> string list option \<Rightarrow> LogicalExpr res" where
  "recursive_character_chunk = recursive_chunk CHARACTER"

definition recursive_word_chunk ::
  "ColumnOrName \<Rightarrow> int \<Rightarrow> int \<Rightarrow> string list option \<Rightarrow> LogicalExpr res" where
  "recursive_word_chunk = recursive_chunk WORD"

definition recursive_token_chunk ::
  "ColumnOrName \<Rightarrow> int \<Rightarrow> int \<Rightarrow> string list option \<Rightarrow> LogicalExpr res" where
  "recursive_token_chunk = recursive_chunk TOKEN"

definition plain_chunk :: "ChunkLengthFunction \<Rightarrow> ColumnOrName \<Rightarrow> int \<Rightarrow> int \<Rightarrow> LogicalExpr res" where
  "plain_chunk fn c chunk_size overlap =
     bind_res (mk_TextChunkConfig chunk_size overlap fn)
       (\<lambda>config. column_of (mk_text_chunk (expr_of c) config))"

definition character_chunk :: "ColumnOrName \<Rightarrow> int \<Rightarrow> int \<Rightarrow> LogicalExpr res" where
  "character_chunk = plain_chunk CHARACTER"

definition word_chunk :: "ColumnOrName \<Rightarrow> int \<Rightarrow> int \<Rightarrow> LogicalExpr res" where
  "word_chunk = plain_chunk WORD"

definition token_chunk :: "ColumnOrName \<Rightarrow> int \<Rightarrow> int \<Rightarrow> LogicalExpr res" where
  "token_chunk = plain_chunk TOKEN"

definition count_tokens_fn :: "ColumnOrName \<Rightarrow> LogicalExpr res" where
  "count_tokens_fn c = column_of (mk_count_tokens (expr_of c))"

definition concat_fn :: "ColumnOrName list \<Rightarrow> LogicalExpr res" where
  "concat_fn cs =
     bind_res (raise_if (cs = []) ValidationError) (\<lambda>_. column_of (mk_concat (map expr_of cs)))"

definition parse_transcript :: "ColumnOrName \<Rightarrow> string \<Rightarrow> LogicalExpr res" where
  "parse_transcript c format = column_of (mk_ts_parse (expr_of c) format)"

text \<open>A separator after every argument, and the last one taken off again.\<close>

definition concat_ws :: "string \<Rightarrow> ColumnOrName list \<Rightarrow> LogicalExpr res" where
  "concat_ws separator cs =
     bind_res (raise_if (cs = []) ValidationError) (\<lambda>_.
     bind_res (map_res (\<lambda>c. bind_res (lit (PStr separator)) (\<lambda>s. Inr [expr_of c, s])) cs)
       (\<lambda>parts. column_of (mk_concat (butlast (concat parts)))))"

definition array_join_fn :: "ColumnOrName \<Rightarrow> string \<Rightarrow> LogicalExpr res" where
  "array_join_fn c delimiter = column_of (mk_array_join (expr_of c) delimiter)"

definition replace_fn :: "ColumnOrName \<Rightarrow> ColumnOrStr \<Rightarrow> ColumnOrStr \<Rightarrow> LogicalExpr res" where
  "replace_fn src search replacement =
     bind_res (col_or_str search) (\<lambda>s. bind_res (col_or_str replacement) (\<lambda>r.
       column_of (mk_replace (expr_of src) s r True)))"

definition regexp_replace :: "ColumnOrName \<Rightarrow> ColumnOrStr \<Rightarrow> ColumnOrStr \<Rightarrow> LogicalExpr res" where
  "regexp_replace src pattern replacement =
     bind_res (col_or_str pattern) (\<lambda>p. bind_res (col_or_str replacement) (\<lambda>r.
       column_of (mk_replace (expr_of src) p r False)))"

definition regexp_count_fn :: "ApiEnv \<Rightarrow> ColumnOrName \<Rightarrow> ColumnOrStr \<Rightarrow> LogicalExpr res" where
  "regexp_count_fn env src pattern =
     bind_res (col_or_str pattern) (\<lambda>p.
     bind_res (mk_regexp_count (valid_regex env) (expr_of src) p) column_of)"

definition regexp_extract_fn :: "ApiEnv \<Rightarrow> ColumnOrName \<Rightarrow> ColumnOrStr \<Rightarrow> int \<Rightarrow> LogicalExpr res" where
  "regexp_extract_fn env src pattern idx =
     bind_res (col_or_str pattern) (\<lambda>p.
     bind_res (mk_regexp_extract (valid_regex env) (expr_of src) p idx) column_of)"

definition regexp_extract_all_fn ::
  "ApiEnv \<Rightarrow> ColumnOrName \<Rightarrow> ColumnOrStr \<Rightarrow> ColumnOrValue \<Rightarrow> LogicalExpr res" where
  "regexp_extract_all_fn env src pattern idx =
     bind_res (col_or_str pattern) (\<lambda>p. bind_res (col_or_lit idx) (\<lambda>i.
     bind_res (mk_regexp_extract_all (valid_regex env) (expr_of src) p i) column_of))"

definition regexp_instr_fn ::
  "ApiEnv \<Rightarrow> ColumnOrName \<Rightarrow> ColumnOrStr \<Rightarrow> ColumnOrValue \<Rightarrow> LogicalExpr res" where
  "regexp_instr_fn env src pattern idx =
     bind_res (col_or_str pattern) (\<lambda>p. bind_res (col_or_lit idx) (\<lambda>i.
     bind_res (mk_regexp_instr (valid_regex env) (expr_of src) p i) column_of))"

definition regexp_substr_fn :: "ApiEnv \<Rightarrow> ColumnOrName \<Rightarrow> ColumnOrStr \<Rightarrow> LogicalExpr res" where
  "regexp_substr_fn env src pattern =
     bind_res (col_or_str pattern) (\<lambda>p.
     bind_res (mk_regexp_substr (valid_regex env) (expr_of src) p) column_of)"

definition split_fn :: "ColumnOrName \<Rightarrow> string \<Rightarrow> int \<Rightarrow> LogicalExpr res" where
  "split_fn src pattern limit = column_of (mk_regexp_split (expr_of src) pattern limit)"

definition split_part_fn :: "ColumnOrName \<Rightarrow> ColumnOrStr \<Rightarrow> ColumnOrValue \<Rightarrow> LogicalExpr res" where
  "split_part_fn src delimiter part_number =
     bind_res (raise_if (part_number = VObj (PInt 0)) ValidationError) (\<lambda>_.
     bind_res (col_or_lit part_number) (\<lambda>n.
     bind_res (col_or_str delimiter) (\<lambda>d.
       column_of (mk_split_part (expr_of src) d n))))"

definition upper_fn :: "ColumnOrName \<Rightarrow> LogicalExpr res" where
  "upper_fn c = column_of (mk_string_casing (expr_of c) ''upper'')"

definition lower_fn :: "ColumnOrName \<Rightarrow> LogicalExpr res" where
  "lower_fn c = column_of (mk_string_casing (expr_of c) ''lower'')"

definition title_case_fn :: "ColumnOrName \<Rightarrow> LogicalExpr res" where
  "title_case_fn c = column_of (mk_string_casing (expr_of c) ''title'')"

definition trim_fn :: "ColumnOrName \<Rightarrow> LogicalExpr res" where
  "trim_fn c = column_of (mk_strip_chars (expr_of c) None ''both'')"

definition btrim_fn :: "ColumnOrName \<Rightarrow> ColumnOrStr option \<Rightarrow> LogicalExpr res" where
  "btrim_fn c trim =
     bind_res (case trim of None \<Rightarrow> Inr None | Some t \<Rightarrow> bind_res (col_or_str t) (\<lambda>e. Inr (Some e)))
       (\<lambda>t. column_of (mk_strip_chars (expr_of c) t ''both''))"

definition ltrim_fn :: "ColumnOrName \<Rightarrow> LogicalExpr res" where
  "ltrim_fn c = column_of (mk_strip_chars (expr_of c) None ''left'')"

definition rtrim_fn :: "ColumnOrName \<Rightarrow> LogicalExpr res" where
  "rtrim_fn c = column_of (mk_strip_chars (expr_of c) None ''right'')"

definition length_fn :: "ColumnOrName \<Rightarrow> LogicalExpr res" where
  "length_fn c = column_of (mk_str_length (expr_of c))"

definition byte_length_fn :: "ColumnOrName \<Rightarrow> LogicalExpr res" where
  "byte_length_fn c = column_of (mk_byte_length (expr_of c))"

text \<open>
  Keyword arguments name template variables: a column of that very name is used as it is, any
  other expression under an alias.
\<close>

definition named_expr :: "string \<times> LogicalExpr \<Rightarrow> LogicalExpr res" where
  "named_expr = (\<lambda>(n, e). if e = ColumnExpr n then Inr e else column_alias e n)"

definition jinja_fn :: "ApiEnv \<Rightarrow> string \<Rightarrow> bool \<Rightarrow> (string, LogicalExpr) dict \<Rightarrow> LogicalExpr res" where
  "jinja_fn env template strict columns =
     bind_res (map_res named_expr columns) (\<lambda>exprs.
     bind_res (PlanEnv.parse_template env template) (\<lambda>ast.
     bind_res (mk_jinja template ast strict exprs) column_of))"

definition compute_fuzzy_ratio :: "ColumnOrName \<Rightarrow> ColumnOrStr \<Rightarrow> string \<Rightarrow> LogicalExpr res" where
  "compute_fuzzy_ratio c other method = column_of (mk_fuzzy_ratio (expr_of c) (str_operand other) method)"

definition compute_fuzzy_token_sort_ratio :: "ColumnOrName \<Rightarrow> ColumnOrStr \<Rightarrow> string \<Rightarrow> LogicalExpr res" where
  "compute_fuzzy_token_sort_ratio c other method =
     column_of (mk_fuzzy_token_sort_ratio (expr_of c) (str_operand other) method)"

definition compute_fuzzy_token_set_ratio :: "ColumnOrName \<Rightarrow> ColumnOrStr \<Rightarrow> string \<Rightarrow> LogicalExpr res" where
  "compute_fuzzy_token_set_ratio c other method =
     column_of (mk_fuzzy_token_set_ratio (expr_of c) (str_operand other) method)"

section \<open>Dates\<close>

datatype IntOrColumn = IInt int | ICol ColumnOrName

text \<open>A number of days or units: an integer becomes a literal, a name names a column.\<close>

fun int_operand :: "IntOrColumn \<Rightarrow> LogicalExpr" where
  "int_operand (IInt i) = LiteralExpr (PyInt i) IntegerType"
| "int_operand (ICol c) = expr_of c"

definition year_fn :: "ColumnOrName \<Rightarrow> LogicalExpr res" where
  "year_fn c = column_of (mk_year (expr_of c))"

definition month_fn :: "ColumnOrName \<Rightarrow> LogicalExpr res" where
  "month_fn c = column_of (mk_month (expr_of c))"

definition day_fn :: "ColumnOrName \<Rightarrow> LogicalExpr res" where
  "day_fn c = column_of (mk_day (expr_of c))"

definition hour_fn :: "ColumnOrName \<Rightarrow> LogicalExpr res" where
  "hour_fn c = column_of (mk_hour (expr_of c))"

definition minute_fn :: "ColumnOrName \<Rightarrow> LogicalExpr res" where
  "minute_fn c = column_of (mk_minute (expr_of c))"

definition second_fn :: "ColumnOrName \<Rightarrow> LogicalExpr res" where
  "second_fn c = column_of (mk_second (expr_of c))"

definition millisecond_fn :: "ColumnOrName \<Rightarrow> LogicalExpr res" where
  "millisecond_fn c = column_of (mk_millisecond (expr_of c))"

definition to_date_fn :: "ColumnOrName \<Rightarrow> string option \<Rightarrow> LogicalExpr res" where
  "to_date_fn c fmt = column_of (mk_to_date_expr (expr_of c) fmt)"

definition to_timestamp_fn :: "ColumnOrName \<Rightarrow> string option \<Rightarrow> LogicalExpr res" where
  "to_timestamp_fn c fmt = column_of (mk_to_timestamp_expr (expr_of c) fmt)"

definition now_fn :: "LogicalExpr res" where
  "now_fn = column_of (mk_now False)"

definition current_timestamp_fn :: "LogicalExpr res" where
  "current_timestamp_fn = column_of (mk_now False)"

definition current_date_fn :: "LogicalExpr res" where
  "current_date_fn = column_of (mk_now True)"

definition date_trunc_fn :: "ColumnOrName \<Rightarrow> string \<Rightarrow> LogicalExpr res" where
  "date_trunc_fn c u = bind_res (mk_date_trunc_expr (expr_of c) u) column_of"

definition date_add_fn :: "ColumnOrName \<Rightarrow> IntOrColumn \<Rightarrow> LogicalExpr res" where
  "date_add_fn c days = column_of (mk_date_add (expr_of c) (int_operand days) False)"

definition date_sub_fn :: "ColumnOrName \<Rightarrow> IntOrColumn \<Rightarrow> LogicalExpr res" where
  "date_sub_fn c days = column_of (mk_date_add (expr_of c) (int_operand days) True)"

definition timestamp_add_fn :: "ColumnOrName \<Rightarrow> IntOrColumn \<Rightarrow> string \<Rightarrow> LogicalExpr res" where
  "timestamp_add_fn c quantity u =
     bind_res (mk_timestamp_add_expr (expr_of c) (int_operand quantity) u) column_of"

definition date_format_fn :: "ColumnOrName \<Rightarrow> string \<Rightarrow> LogicalExpr res" where
  "date_format_fn c fmt = column_of (mk_date_format_expr (expr_of c) fmt)"

definition datediff_fn :: "ColumnOrName \<Rightarrow> ColumnOrName \<Rightarrow> LogicalExpr res" where
  "datediff_fn stop start = column_of (mk_date_diff (expr_of stop) (expr_of start))"

definition timestamp_diff_fn :: "ColumnOrName \<Rightarrow> ColumnOrName \<Rightarrow> string \<Rightarrow> LogicalExpr res" where
  "timestamp_diff_fn start stop u = column_of (mk_timestamp_diff (expr_of start) (expr_of stop) u)"

definition to_utc_timestamp_fn :: "ColumnOrName \<Rightarrow> string \<Rightarrow> LogicalExpr res" where
  "to_utc_timestamp_fn c tz = column_of (mk_to_utc_timestamp (expr_of c) tz)"

definition from_utc_timestamp_fn :: "ColumnOrName \<Rightarrow> string \<Rightarrow> LogicalExpr res" where
  "from_utc_timestamp_fn c tz = column_of (mk_from_utc_timestamp (expr_of c) tz)"

section \<open>JSON, Markdown and embeddings\<close>

definition mk_jq :: "ApiEnv \<Rightarrow> LogicalExpr \<Rightarrow> string \<Rightarrow> LogicalExpr res" where
  "mk_jq env e query =
     bind_res (raise_if (\<not> valid_jq env query) ValidationError) (\<lambda>_. Inr (FunctionExpr (JqExpr query) [e]))"

definition mk_json_contains :: "ApiEnv \<Rightarrow> LogicalExpr \<Rightarrow> string \<Rightarrow> LogicalExpr res" where
  "mk_json_contains env e v =
     bind_res (raise_if (\<not> valid_json env v) ValidationError)
       (\<lambda>_. Inr (FunctionExpr (JsonContainsExpr v) [e]))"

definition jq_fn :: "ApiEnv \<Rightarrow> ColumnOrName \<Rightarrow> string \<Rightarrow> LogicalExpr res" where
  "jq_fn env c query = bind_res (mk_jq env (expr_of c) query) column_of"

definition json_get_type :: "ColumnOrName \<Rightarrow> LogicalExpr res" where
  "json_get_type c = column_of (FunctionExpr JsonTypeExpr [expr_of c])"

definition json_contains_fn :: "ApiEnv \<Rightarrow> ColumnOrName \<Rightarrow> string \<Rightarrow> LogicalExpr res" where
  "json_contains_fn env c v = bind_res (mk_json_contains env (expr_of c) v) column_of"

definition md_to_json :: "ColumnOrName \<Rightarrow> LogicalExpr res" where
  "md_to_json c = column_of (FunctionExpr MdToJsonExpr [expr_of c])"

definition md_get_code_blocks :: "ColumnOrName \<Rightarrow> string option \<Rightarrow> LogicalExpr res" where
  "md_get_code_blocks c language_filter =
     column_of (FunctionExpr (MdGetCodeBlocksExpr language_filter) [expr_of c])"

definition md_generate_toc :: "ColumnOrName \<Rightarrow> int option \<Rightarrow> LogicalExpr res" where
  "md_generate_toc c max_level =
     bind_res (raise_if (truthy_int max_level \<and> (the max_level < 1 \<or> 6 < the max_level)) ValidationError)
       (\<lambda>_. column_of (mk_generate_toc (expr_of c) max_level))"

definition md_extract_header_chunks :: "ColumnOrName \<Rightarrow> int \<Rightarrow> LogicalExpr res" where
  "md_extract_header_chunks c header_level =
     bind_res (raise_if (header_level < 1 \<or> 6 < header_level) ValidationError)
       (\<lambda>_. column_of (FunctionExpr (MdExtractHeaderChunks header_level) [expr_of c]))"

definition emb_normalize :: "ColumnOrName \<Rightarrow> LogicalExpr res" where
  "emb_normalize c = column_of (FunctionExpr EmbeddingNormalizeExpr [expr_of c])"

datatype ColumnOrVector = QCol ColumnOrName | QVec "string list"

fun compute_similarity :: "ApiEnv \<Rightarrow> ColumnOrName \<Rightarrow> ColumnOrVector \<Rightarrow> string \<Rightarrow> LogicalExpr res" where
  "compute_similarity env c (QCol other) metric =
     column_of (FunctionExpr (EmbeddingSimilarityExpr metric None) [expr_of c, expr_of other])"
| "compute_similarity env c (QVec xs) metric =
     (let query = map (as_float32 env) xs in
      bind_res (raise_if (list_ex (is_nan env) query) ValidationError)
        (\<lambda>_. column_of (FunctionExpr (EmbeddingSimilarityExpr metric (Some query)) [expr_of c])))"

section \<open>Semantic functions\<close>

text \<open>A model is named by a string or an alias with a profile (\<^verbatim>\<open>_resolve_model_alias\<close>).\<close>

datatype ModelAliasArg = ModelName string | ModelAlias string "string option"

fun resolve_model_alias :: "ModelAliasArg option \<Rightarrow> ResolvedModelAlias option" where
  "resolve_model_alias None = None"
| "resolve_model_alias (Some (ModelName n)) = Some \<lparr>alias_name = n, alias_profile = None\<rparr>"
| "resolve_model_alias (Some (ModelAlias n p)) = Some \<lparr>alias_name = n, alias_profile = p\<rparr>"

definition MAX_MODEL_CLIENT_TIMEOUT :: real where
  "MAX_MODEL_CLIENT_TIMEOUT = 600"

definition validate_timeout :: "real option \<Rightarrow> real option res" where
  "validate_timeout v =
     bind_res (raise_if (case v of None \<Rightarrow> False | Some t \<Rightarrow> t \<le> 0) ValidationError) (\<lambda>_.
     bind_res (raise_if (case v of None \<Rightarrow> False | Some t \<Rightarrow> t > MAX_MODEL_CLIENT_TIMEOUT) ValidationError) (\<lambda>_.
       Inr v))"

definition resolve_response_format :: "ApiEnv \<Rightarrow> nat \<Rightarrow> ResponseFormat res" where
  "resolve_response_format env cls =
     (case resolve_format env cls of None \<Rightarrow> Inl ValidationError | Some r \<Rightarrow> Inr r)"

definition sem_map_fn ::
  "ApiEnv \<Rightarrow> string \<Rightarrow> bool \<Rightarrow> nat option \<Rightarrow> ModelAliasArg option \<Rightarrow> real \<Rightarrow> int \<Rightarrow> real option \<Rightarrow>
     (string, LogicalExpr) dict \<Rightarrow> LogicalExpr res" where
  "sem_map_fn env prompt strict response_format model temperature max_tok timeout columns =
     bind_res (validate_timeout timeout) (\<lambda>to.
     bind_res (raise_if (prompt = []) ValidationError) (\<lambda>_.
     bind_res (raise_if (columns = []) ValidationError) (\<lambda>_.
     bind_res (case response_format of
                 None \<Rightarrow> Inr None
               | Some cls \<Rightarrow> bind_res (resolve_response_format env cls) (\<lambda>r. Inr (Some r))) (\<lambda>fmt.
     bind_res (map_res named_expr columns) (\<lambda>exprs.
     bind_res (PlanEnv.parse_template env prompt) (\<lambda>ast.
     bind_res (mk_semantic_map prompt ast strict exprs max_tok temperature
                 (resolve_model_alias model) fmt to) column_of))))))"

definition sem_extract_fn ::
  "ApiEnv \<Rightarrow> ColumnOrName \<Rightarrow> nat \<Rightarrow> int \<Rightarrow> real \<Rightarrow> ModelAliasArg option \<Rightarrow> real option \<Rightarrow> LogicalExpr res" where
  "sem_extract_fn env c response_format max_tok temperature model timeout =
     bind_res (validate_timeout timeout) (\<lambda>to.
     bind_res (resolve_response_format env response_format) (\<lambda>fmt.
       column_of (SemanticExpr (SemanticExtractExpr max_tok temperature fmt
         (resolve_model_alias model) to) [expr_of c])))"

definition sem_predicate_fn ::
  "ApiEnv \<Rightarrow> string \<Rightarrow> bool \<Rightarrow> ModelAliasArg option \<Rightarrow> real \<Rightarrow> real option \<Rightarrow>
     (string, LogicalExpr) dict \<Rightarrow> LogicalExpr res" where
  "sem_predicate_fn env predicate strict model temperature timeout columns =
     bind_res (validate_timeout timeout) (\<lambda>to.
     bind_res (raise_if (predicate = []) ValidationError) (\<lambda>_.
     bind_res (raise_if (columns = []) ValidationError) (\<lambda>_.
     bind_res (map_res named_expr columns) (\<lambda>exprs.
     bind_res (PlanEnv.parse_template env predicate) (\<lambda>ast.
     bind_res (mk_semantic_predicate predicate ast strict exprs temperature
                 (resolve_model_alias model) to) column_of)))))"

text \<open>
  The test for a column of the variable's name compares the wrong class and never holds, so
  every context expression is aliased.
\<close>

definition sem_reduce_fn ::
  "ApiEnv \<Rightarrow> string \<Rightarrow> ColumnOrName \<Rightarrow> (string, LogicalExpr) dict option \<Rightarrow> ColumnOrName list option \<Rightarrow>
     ModelAliasArg option \<Rightarrow> real \<Rightarrow> int \<Rightarrow> real option \<Rightarrow> LogicalExpr res" where
  "sem_reduce_fn env prompt c group_context order_by model temperature max_tok timeout =
     bind_res (validate_timeout timeout) (\<lambda>to.
     bind_res (raise_if (prompt = []) ValidationError) (\<lambda>_.
     bind_res (map_res (\<lambda>(n, e). column_alias e n) (case group_context of None \<Rightarrow> [] | Some d \<Rightarrow> d)) (\<lambda>ctx.
     bind_res (PlanEnv.parse_template env prompt) (\<lambda>ast.
     bind_res (mk_semantic_reduce prompt ast (expr_of c) max_tok temperature ctx
                 (Some (case order_by of None \<Rightarrow> [] | Some cs \<Rightarrow> map expr_of cs))
                 (resolve_model_alias model) to) column_of))))"

datatype Classes = ClassNames "string list" | ClassDefinitions "(string \<times> string) list"

fun resolved_classes :: "Classes \<Rightarrow> (string \<times> string option) list" where
  "resolved_classes (ClassNames ls) = map (\<lambda>l. (l, None)) ls"
| "resolved_classes (ClassDefinitions ds) = map (\<lambda>(l, d). (l, Some d)) ds"

text \<open>\<^verbatim>\<open>labels.count(label)\<close>\<close>

definition label_count :: "string list \<Rightarrow> string \<Rightarrow> nat" where
  "label_count labels l = length (filter (\<lambda>l'. l' = l) labels)"

definition sem_classify_fn ::
  "ColumnOrName \<Rightarrow> Classes \<Rightarrow> ModelAliasArg option \<Rightarrow> real \<Rightarrow> real option \<Rightarrow> LogicalExpr res" where
  "sem_classify_fn c cls model temperature timeout =
     bind_res (validate_timeout timeout) (\<lambda>to.
     let classes = resolved_classes cls; labels = map fst classes in
     bind_res (raise_if (length classes < 2) ValidationError) (\<lambda>_.
     bind_res (raise_if (list_ex (\<lambda>l. 1 < label_count labels l) labels) ValidationError) (\<lambda>_.
       column_of (SemanticExpr (SemanticClassifyExpr classes temperature (resolve_model_alias model) to)
         [expr_of c]))))"

definition sem_analyze_sentiment_fn ::
  "ColumnOrName \<Rightarrow> ModelAliasArg option \<Rightarrow> real \<Rightarrow> real option \<Rightarrow> LogicalExpr res" where
  "sem_analyze_sentiment_fn c model temperature timeout =
     bind_res (validate_timeout timeout) (\<lambda>to.
       column_of (SemanticExpr (AnalyzeSentimentExpr temperature (resolve_model_alias model) to) [expr_of c]))"

definition sem_embed_fn :: "ColumnOrName \<Rightarrow> ModelAliasArg option \<Rightarrow> LogicalExpr res" where
  "sem_embed_fn c model = column_of (SemanticExpr (EmbeddingsExpr (resolve_model_alias model)) [expr_of c])"

text \<open>The bounds of the formats, which their model classes check.\<close>

definition mk_KeyPoints :: "int \<Rightarrow> SummaryFormat res" where
  "mk_KeyPoints n = bind_res (raise_if (\<not> 0 < n) PyValueError) (\<lambda>_. Inr (KeyPoints n))"

definition mk_Paragraph :: "int \<Rightarrow> SummaryFormat res" where
  "mk_Paragraph n = bind_res (raise_if (\<not> 10 < n) PyValueError) (\<lambda>_. Inr (Paragraph n))"

definition sem_summarize_fn ::
  "ColumnOrName \<Rightarrow> SummaryFormat option \<Rightarrow> real \<Rightarrow> ModelAliasArg option \<Rightarrow> real option \<Rightarrow> LogicalExpr res" where
  "sem_summarize_fn c format temperature model timeout =
     bind_res (validate_timeout timeout) (\<lambda>to.
     bind_res (case format of None \<Rightarrow> mk_Paragraph 120 | Some f \<Rightarrow> Inr f) (\<lambda>f.
       column_of (SemanticExpr (SemanticSummarizeExpr f temperature (resolve_model_alias model) to)
         [expr_of c])))"

definition sem_parse_pdf_fn ::
  "ColumnOrName \<Rightarrow> ModelAliasArg option \<Rightarrow> string option \<Rightarrow> bool \<Rightarrow> int option \<Rightarrow> real option \<Rightarrow>
     LogicalExpr res" where
  "sem_parse_pdf_fn c model page_separator describe_images max_tok timeout =
     bind_res (validate_timeout timeout) (\<lambda>to.
       column_of (SemanticExpr (SemanticParsePDFExpr (resolve_model_alias model) page_separator
         describe_images max_tok to) [expr_of c]))"

section \<open>Properties\<close>

lemma from_logical_expr_args:
  "from_logical_expr (FunctionExpr f es) = Inr c \<longleftrightarrow>
     c = FunctionExpr f es \<and> (\<forall>e \<in> set es. \<not> is_sort e \<and> \<not> is_aggregate e)"
  by (auto simp: from_logical_expr_Inr is_reduce_def is_alias_def)

text \<open>The expressions of a joined text: the arguments with the separator between them.\<close>

fun interleaved :: "LogicalExpr \<Rightarrow> LogicalExpr list \<Rightarrow> LogicalExpr list" where
  "interleaved s [] = []"
| "interleaved s [e] = [e]"
| "interleaved s (e # f # es) = e # s # interleaved s (f # es)"

lemma butlast_separated: "butlast (concat (map (\<lambda>e. [e, s]) es)) = interleaved s es"
proof (induction s es rule: interleaved.induct)
  case (3 s e f es)
  then show ?case by simp
qed simp_all

lemma interleaved_length: "es \<noteq> [] \<Longrightarrow> length (interleaved s es) = 2 * length es - 1"
  by (induction s es rule: interleaved.induct) auto

lemma interleaved_set: "set es \<subseteq> set (interleaved s es) \<and> set (interleaved s es) \<subseteq> insert s (set es)"
  by (induction s es rule: interleaved.induct) auto

lemma lit_str [simp]: "lit (PStr s) = Inr (LiteralExpr (PyStr s) StringType)"
  by (simp add: lit_def from_logical_expr_def)

lemma literal_scalar [simp]: "\<not> is_sort (LiteralExpr v d)" "\<not> is_aggregate (LiteralExpr v d)"
  by (simp_all add: is_sort_def is_aggregate_def)

text \<open>Joining texts with a separator is a concatenation of the arguments in order with one literal
  separator between any two, and is refused exactly without arguments or when one of them is a sort
  order or an aggregate.\<close>

theorem concat_ws_interleaves:
  "concat_ws separator cs = Inr e \<longleftrightarrow>
     cs \<noteq> [] \<and> (\<forall>c \<in> set cs. \<not> is_sort (from_col_or_name c) \<and> \<not> is_aggregate (from_col_or_name c)) \<and>
     e = mk_concat (interleaved (LiteralExpr (PyStr separator) StringType) (map from_col_or_name cs))"
proof -
  let ?s = "LiteralExpr (PyStr separator) StringType"
  have "map_res (\<lambda>c. bind_res (lit (PStr separator)) (\<lambda>s. Inr [from_col_or_name c, s])) cs =
      Inr (map (\<lambda>c. [from_col_or_name c, ?s]) cs)"
    by (rule map_res_total) simp
  moreover have "butlast (concat (map (\<lambda>c. [from_col_or_name c, ?s]) cs)) = interleaved ?s (map from_col_or_name cs)"
    using butlast_separated [of ?s "map from_col_or_name cs"] by (simp add: comp_def)
  moreover have "(\<forall>e \<in> set (interleaved ?s (map from_col_or_name cs)). \<not> is_sort e \<and> \<not> is_aggregate e) \<longleftrightarrow>
      (\<forall>c \<in> set cs. \<not> is_sort (from_col_or_name c) \<and> \<not> is_aggregate (from_col_or_name c))"
    using interleaved_set [of "map from_col_or_name cs" ?s] by auto
  ultimately show ?thesis
    by (auto simp: concat_ws_def mk_concat_def from_logical_expr_args)
qed

lemma label_count_zero [simp]: "label_count ls l = 0 \<longleftrightarrow> l \<notin> set ls"
  by (auto simp: label_count_def filter_empty_conv)

lemma label_count_Cons: "label_count (x # ls) l = label_count ls l + of_bool (x = l)"
  by (simp add: label_count_def)

lemma label_counts_distinct: "(\<forall>l. label_count ls l \<le> 1) \<longleftrightarrow> distinct ls"
proof (induction ls)
  case (Cons x ls)
  have "(\<forall>l. label_count (x # ls) l \<le> 1) \<longleftrightarrow> label_count ls x = 0 \<and> (\<forall>l. label_count ls l \<le> 1)"
    by (auto simp del: label_count_zero simp: label_count_Cons of_bool_def intro: add_leD1 split: if_splits)
  with Cons.IH show ?case by simp
qed (simp add: label_count_def)

lemma repeated_label: "list_ex (\<lambda>l. 1 < label_count ls l) ls \<longleftrightarrow> \<not> distinct ls"
proof -
  have "1 < label_count ls l \<Longrightarrow> l \<in> set ls" for l
    using label_count_zero [of ls l] by linarith
  then show ?thesis unfolding label_counts_distinct [symmetric] list_ex_iff by (auto simp: not_le)
qed

text \<open>A classification is built exactly when its time limit is in range and it has two or more
  labels, all different, over a scalar expression.\<close>

theorem classify_decides:
  "(\<exists>e. sem_classify_fn c cls model temperature timeout = Inr e) \<longleftrightarrow>
     (\<forall>t. timeout = Some t \<longrightarrow> 0 < t \<and> t \<le> 600) \<and>
     2 \<le> length (resolved_classes cls) \<and> distinct (map fst (resolved_classes cls)) \<and>
     \<not> is_sort (from_col_or_name c) \<and> \<not> is_aggregate (from_col_or_name c)"
  by (auto simp: sem_classify_fn_def validate_timeout_def MAX_MODEL_CLIENT_TIMEOUT_def Let_def
      repeated_label [simplified] from_logical_expr_Inr is_reduce_def is_alias_def not_less
      split: option.splits)

theorem classify_decides_witness:
  "\<exists>e. sem_classify_fn (AName ''t'') (ClassNames [''a'', ''b'']) None 0 (Some 30) = Inr e"
  using classify_decides [of "AName ''t''" "ClassNames [''a'', ''b'']" None 0 "Some 30"]
  by (simp add: from_column_name_def is_sort_def is_aggregate_def)

section \<open>What goes wrong\<close>

lemma get_element_at: "get_signature function_registry ''element_at'' = Inr
    \<lparr>function_name = ''element_at'', type_signature = VariadicAny 2, return_type = DYNAMIC\<rparr>"
proof (rule get_signature_registered)
  have "(''element_at'', ''element_at'', VariadicAny 2, DYNAMIC) \<in> set all_registrations"
    by (simp add: all_registrations_def array_signatures_def)
  then have "signature_of (''element_at'', ''element_at'', VariadicAny 2, DYNAMIC) \<in> set function_registry"
    unfolding function_registry_def set_map by (rule imageI)
  then show "(''element_at'', \<lparr>function_name = ''element_at'', type_signature = VariadicAny 2,
      return_type = DYNAMIC\<rparr>) \<in> set function_registry"
    by simp
qed

text \<open>The name of a column, allowed as the index of an array element, becomes a text literal, and typing
  accepts the text as an index.\<close>

theorem element_at_name_is_literal:
  assumes "to_column_field env s (ColumnExpr c) = Inr f" and "cf_type f = ArrayType t"
  shows "\<exists>e g. arr_element_at (AName c) (VObj (PStr n)) = Inr e \<and>
     e = FunctionExpr ElementAtExpr [ColumnExpr c, LiteralExpr (PyStr n) StringType] \<and>
     to_column_field env s e = Inr g \<and> cf_type g = t"
proof -
  have "arr_element_at (AName c) (VObj (PStr n)) =
      Inr (FunctionExpr ElementAtExpr [ColumnExpr c, LiteralExpr (PyStr n) StringType])"
    by (simp add: arr_element_at_def from_logical_expr_def is_sort_def is_aggregate_def from_column_name_def)
  moreover have "\<exists>g. to_column_field env s (FunctionExpr ElementAtExpr [ColumnExpr c, LiteralExpr (PyStr n) StringType]) = Inr g \<and>
      cf_type g = t"
    using assms
    by (simp add: fn_pre_check_def fn_post_check_def validator_infer_def get_element_at
        validate_and_infer_type_def VariadicAny_validate_def dynamic_return_type_def element_return_type_def field_type_def)
  ultimately show ?thesis by blast
qed

theorem element_at_name_is_literal_witness:
  "\<exists>e. arr_element_at (AName ''xs'') (VObj (PStr ''i'')) = Inr e \<and>
     e = FunctionExpr ElementAtExpr [ColumnExpr ''xs'', LiteralExpr (PyStr ''i'') StringType]"
  using element_at_name_is_literal [of example_env "mk_schema [mk_field ''xs'' (ArrayType IntegerType)]" "''xs''"
      "mk_field ''xs'' (ArrayType IntegerType)" IntegerType "''i''"]
  by (simp add: column_field_def find_field_def)

text \<open>Level 0 of a table of contents is refused nowhere and means the default of 6.\<close>

theorem toc_level_zero:
  "md_generate_toc c (Some 0) = md_generate_toc c None \<and> md_extract_header_chunks c 0 = Inl ValidationError"
  by (simp add: md_generate_toc_def mk_generate_toc_def md_extract_header_chunks_def)

end
