(* ===== verification/DataFrameAPI.thy ===== *)
theory DataFrameAPI
  imports FunctionAPI
begin

text \<open>
  Data frames of the public API (\<^verbatim>\<open>src/fenic/api/dataframe/\<close>, \<^verbatim>\<open>src/fenic/api/io/\<close> and
  the constructions of \<^verbatim>\<open>src/fenic/api/session/session.py\<close>): a data frame is a logical plan
  with the session it belongs to, and each method checks its arguments and builds a plan over it.
  Every session has its own environment.  The actions that run a plan and series as columns are not
  modelled.  The lemmas show that every data frame a user can reach holds a plan built in its own
  session, and what the methods do to the columns.
\<close>

section \<open>Data frames\<close>

record DataFrame =
  df_plan :: LogicalPlan
  df_session :: nat

type_synonym Sessions = "nat \<Rightarrow> ApiEnv"

definition df_schema :: "DataFrame \<Rightarrow> Schema" where
  "df_schema df = plan_schema (df_plan df)"

definition df_columns :: "DataFrame \<Rightarrow> string list" where
  "df_columns df = column_names (df_schema df)"

definition df_from_plan :: "LogicalPlan \<Rightarrow> nat \<Rightarrow> DataFrame" where
  "df_from_plan p s = \<lparr>df_plan = p, df_session = s\<rparr>"

text \<open>A node built in the session of a data frame.\<close>

definition df_build :: "Sessions \<Rightarrow> nat \<Rightarrow> Node \<Rightarrow> LogicalPlan list \<Rightarrow> DataFrame res" where
  "df_build S s node cs =
     bind_res (from_session_state (plan_env (S s)) node cs) (\<lambda>p. Inr (df_from_plan p s))"

definition df_over :: "Sessions \<Rightarrow> DataFrame \<Rightarrow> Node \<Rightarrow> DataFrame res" where
  "df_over S df node = df_build S (df_session df) node [df_plan df]"

definition ensure_same_session :: "nat \<Rightarrow> nat list \<Rightarrow> unit res" where
  "ensure_same_session s others = each_res (\<lambda>t. raise_if (s \<noteq> t) SessionError) others"

definition df_getitem :: "DataFrame \<Rightarrow> string \<Rightarrow> LogicalExpr res" where
  "df_getitem df n =
     bind_res (raise_if (n \<notin> set (df_columns df)) PyKeyError) (\<lambda>_. Inr (col_fn n))"

definition df_getattr :: "DataFrame \<Rightarrow> string \<Rightarrow> LogicalExpr res" where
  "df_getattr df n =
     bind_res (raise_if (n \<notin> set (df_columns df)) PyKeyError) (\<lambda>_. Inr (col_fn n))"

text \<open>
  Marking for the cache changes the plan the receiver holds too: the result is the receiver and
  the new data frame.
\<close>

definition df_persist :: "string \<Rightarrow> DataFrame \<Rightarrow> DataFrame \<times> DataFrame" where
  "df_persist key df =
     (let p = set_cache_info (Some (Some key)) (df_plan df)
      in (df\<lparr>df_plan := p\<rparr>, df_from_plan p (df_session df)))"

section \<open>Columns\<close>

definition df_select :: "Sessions \<Rightarrow> DataFrame \<Rightarrow> ColumnOrName list \<Rightarrow> DataFrame res" where
  "df_select S df cols =
     (if cols = [] then Inr df
      else df_over S df (Projection (concat (map (\<lambda>c. case c of
             AName n \<Rightarrow> if n = ''*'' then map col_fn (df_columns df) else [col_fn n]
           | ACol e \<Rightarrow> [e]) cols))))"

definition df_filter :: "Sessions \<Rightarrow> DataFrame \<Rightarrow> LogicalExpr \<Rightarrow> DataFrame res" where
  "df_filter S df condition = df_over S df (Filter condition)"

definition df_where :: "Sessions \<Rightarrow> DataFrame \<Rightarrow> LogicalExpr \<Rightarrow> DataFrame res" where
  "df_where S df condition = df_filter S df condition"

definition df_with_column :: "Sessions \<Rightarrow> DataFrame \<Rightarrow> string \<Rightarrow> ColumnOrValue \<Rightarrow> DataFrame res" where
  "df_with_column S df n v =
     bind_res (col_or_lit v) (\<lambda>e.
     bind_res (column_alias e n) (\<lambda>a.
       df_over S df (Projection (map from_column_name (filter (\<lambda>c. c \<noteq> n) (df_columns df)) @ [a]))))"

definition df_with_columns ::
  "Sessions \<Rightarrow> DataFrame \<Rightarrow> (string, ColumnOrValue) dict \<Rightarrow> DataFrame res" where
  "df_with_columns S df cols_map =
     (if cols_map = [] then Inr df
      else bind_res (map_res (\<lambda>(n, v). bind_res (col_or_lit v) (\<lambda>e. column_alias e n)) cols_map) (\<lambda>as.
        df_over S df (Projection
          (map from_column_name (filter (\<lambda>c. c \<notin> fst ` set cols_map) (df_columns df)) @ as))))"

definition df_with_column_renamed :: "Sessions \<Rightarrow> DataFrame \<Rightarrow> string \<Rightarrow> string \<Rightarrow> DataFrame res" where
  "df_with_column_renamed S df n new =
     bind_res (map_res (\<lambda>c. if c = n then column_alias (col_fn c) new else Inr (col_fn c)) (df_columns df))
       (\<lambda>es. if n \<notin> set (df_columns df) then Inr df else df_over S df (Projection es))"

definition df_drop :: "Sessions \<Rightarrow> DataFrame \<Rightarrow> string list \<Rightarrow> DataFrame res" where
  "df_drop S df ns =
     (if ns = [] then Inr df
      else if set ns - set (df_columns df) \<noteq> {} then Inl PyValueError
      else let remaining = filter (\<lambda>c. c \<notin> set ns) (df_columns df)
           in if remaining = [] then Inl PyValueError
              else df_over S df (Projection (map col_fn remaining)))"

definition df_unnest :: "Sessions \<Rightarrow> DataFrame \<Rightarrow> string list \<Rightarrow> DataFrame res" where
  "df_unnest S df ns =
     (if ns = [] then Inr df
      else bind_res (each_res (\<lambda>n. raise_if (n \<notin> set (df_columns df)) PyTypeError) ns)
             (\<lambda>_. df_over S df (Unnest ns)))"

section \<open>Rows\<close>

definition df_union :: "Sessions \<Rightarrow> DataFrame \<Rightarrow> DataFrame \<Rightarrow> DataFrame res" where
  "df_union S df other =
     bind_res (ensure_same_session (df_session df) [df_session other]) (\<lambda>_.
       df_build S (df_session df) UnionAll [df_plan df, df_plan other])"

definition df_limit :: "Sessions \<Rightarrow> DataFrame \<Rightarrow> int \<Rightarrow> DataFrame res" where
  "df_limit S df n = df_over S df (Limit n)"

definition df_explode :: "Sessions \<Rightarrow> DataFrame \<Rightarrow> ColumnOrName \<Rightarrow> DataFrame res" where
  "df_explode S df c = df_over S df (Explode (from_col_or_name c) False)"

definition df_explode_outer :: "Sessions \<Rightarrow> DataFrame \<Rightarrow> ColumnOrName \<Rightarrow> DataFrame res" where
  "df_explode_outer S df c = df_over S df (Explode (from_col_or_name c) True)"

definition df_explode_with_index ::
  "Sessions \<Rightarrow> DataFrame \<Rightarrow> ColumnOrName \<Rightarrow> string \<Rightarrow> string \<Rightarrow> bool \<Rightarrow> DataFrame res" where
  "df_explode_with_index S df c index_name value_name keep =
     df_over S df (ExplodeWithIndex (from_col_or_name c) index_name value_name keep)"

definition df_posexplode :: "Sessions \<Rightarrow> DataFrame \<Rightarrow> ColumnOrName \<Rightarrow> DataFrame res" where
  "df_posexplode S df c = df_explode_with_index S df c ''pos'' ''col'' False"

definition df_posexplode_outer :: "Sessions \<Rightarrow> DataFrame \<Rightarrow> ColumnOrName \<Rightarrow> DataFrame res" where
  "df_posexplode_outer S df c = df_explode_with_index S df c ''pos'' ''col'' True"

definition df_drop_duplicates :: "Sessions \<Rightarrow> DataFrame \<Rightarrow> string list option \<Rightarrow> DataFrame res" where
  "df_drop_duplicates S df names =
     (let ns = (if truthy names then the names else []) in
      bind_res (each_res (\<lambda>n. raise_if (n \<notin> set (df_columns df)) PyTypeError) ns)
        (\<lambda>_. df_over S df (DropDuplicates ns)))"

definition df_distinct :: "Sessions \<Rightarrow> DataFrame \<Rightarrow> DataFrame res" where
  "df_distinct S df = df_drop_duplicates S df None"

section \<open>Sorting\<close>

datatype 'a OneOrMany = JustOne 'a | Several "'a list"

fun as_list :: "'a OneOrMany \<Rightarrow> 'a list" where
  "as_list (JustOne x) = [x]"
| "as_list (Several xs) = xs"

datatype Ascending = AscDefault | AscAll bool | AscEach "bool list"

text \<open>
  The length of a list of directions is compared with \<^verbatim>\<open>len(cols)\<close> also when \<^verbatim>\<open>cols\<close> is one
  name, which has as many elements as characters, or one column, which has no length.
\<close>

fun python_len :: "ColumnOrName OneOrMany \<Rightarrow> nat res" where
  "python_len (Several cs) = Inr (length cs)"
| "python_len (JustOne (AName n)) = Inr (length n)"
| "python_len (JustOne (ACol e)) = Inl PyTypeError"

fun sort_directions :: "ColumnOrName OneOrMany \<Rightarrow> Ascending \<Rightarrow> bool list res" where
  "sort_directions cols AscDefault = Inr (replicate (length (as_list cols)) True)"
| "sort_directions cols (AscAll b) = Inr (replicate (length (as_list cols)) b)"
| "sort_directions cols (AscEach bs) =
     bind_res (python_len cols) (\<lambda>n. bind_res (raise_if (length bs \<noteq> n) PyValueError) (\<lambda>_. Inr bs))"

definition sort_expr :: "Ascending \<Rightarrow> ColumnOrName \<times> bool \<Rightarrow> LogicalExpr res" where
  "sort_expr ascending = (\<lambda>(c, b).
     let e = from_col_or_name c in
     if is_sort e then bind_res (raise_if (ascending \<noteq> AscDefault) PyTypeError) (\<lambda>_. Inr e)
     else Inr (SortExpr e b False))"

definition df_sort :: "Sessions \<Rightarrow> DataFrame \<Rightarrow> ColumnOrName OneOrMany option \<Rightarrow> Ascending \<Rightarrow> DataFrame res" where
  "df_sort S df cols ascending =
     (case cols of
        None \<Rightarrow> df_over S df (Sort [])
      | Some cs \<Rightarrow>
          bind_res (sort_directions cs ascending) (\<lambda>bs.
          bind_res (map_res (sort_expr ascending) (zip (as_list cs) bs)) (\<lambda>es.
          bind_res (raise_if (length (as_list cs) \<noteq> length bs) PyValueError) (\<lambda>_.
            df_over S df (Sort es)))))"

definition df_order_by :: "Sessions \<Rightarrow> DataFrame \<Rightarrow> ColumnOrName OneOrMany option \<Rightarrow> Ascending \<Rightarrow> DataFrame res" where
  "df_order_by S df cols ascending = df_sort S df cols ascending"

section \<open>Joins\<close>

definition has_join_conditions :: "'a OneOrMany option \<Rightarrow> 'b OneOrMany option \<Rightarrow> 'c OneOrMany option \<Rightarrow> bool" where
  "has_join_conditions on left_on right_on \<longleftrightarrow>
     (case on of None \<Rightarrow> False | Some (JustOne _) \<Rightarrow> True | Some (Several xs) \<Rightarrow> 0 < length xs) \<or>
     left_on \<noteq> None \<or> right_on \<noteq> None"

definition validate_join_condition_lengths :: "'a OneOrMany \<Rightarrow> 'b OneOrMany \<Rightarrow> unit res" where
  "validate_join_condition_lengths left_on right_on =
     raise_if (length (as_list left_on) \<noteq> length (as_list right_on)) ValidationError"

definition validate_join_parameters ::
  "string OneOrMany option \<Rightarrow> ColumnOrName OneOrMany option \<Rightarrow> ColumnOrName OneOrMany option \<Rightarrow> string \<Rightarrow> unit res" where
  "validate_join_parameters on left_on right_on how =
     bind_res (raise_if (on \<noteq> None \<and> (left_on \<noteq> None \<or> right_on \<noteq> None)) ValidationError) (\<lambda>_.
     bind_res (raise_if ((left_on \<noteq> None) \<noteq> (right_on \<noteq> None)) ValidationError) (\<lambda>_.
     bind_res (if how = ''cross'' then raise_if (has_join_conditions on left_on right_on) ValidationError
               else raise_if (\<not> has_join_conditions on left_on right_on) ValidationError) (\<lambda>_.
       case (left_on, right_on) of
         (Some l, Some r) \<Rightarrow> validate_join_condition_lengths l r
       | _ \<Rightarrow> Inr ())))"

fun build_join_conditions ::
  "string OneOrMany option \<Rightarrow> ColumnOrName OneOrMany option \<Rightarrow> ColumnOrName OneOrMany option \<Rightarrow>
     LogicalExpr list \<times> LogicalExpr list" where
  "build_join_conditions on (Some l) (Some r) =
     (map from_col_or_name (as_list l), map from_col_or_name (as_list r))"
| "build_join_conditions (Some on) _ _ =
     (let conditions = map from_column_name (as_list on) in (conditions, conditions))"
| "build_join_conditions None _ _ = ([], [])"

definition df_join ::
  "Sessions \<Rightarrow> DataFrame \<Rightarrow> DataFrame \<Rightarrow> string OneOrMany option \<Rightarrow> ColumnOrName OneOrMany option \<Rightarrow>
     ColumnOrName OneOrMany option \<Rightarrow> string \<Rightarrow> DataFrame res" where
  "df_join S df other on left_on right_on how =
     bind_res (validate_join_parameters on left_on right_on how) (\<lambda>_.
       let (ls, rs) = build_join_conditions on left_on right_on in
       bind_res (ensure_same_session (df_session df) [df_session other]) (\<lambda>_.
         df_build S (df_session df) (Join ls rs how) [df_plan df, df_plan other]))"

section \<open>Grouping\<close>

record GroupedData =
  gd_df :: DataFrame
  gd_by :: "LogicalExpr list"

definition is_literal :: "LogicalExpr \<Rightarrow> bool" where
  "is_literal e = (case e of LiteralExpr _ _ \<Rightarrow> True | _ \<Rightarrow> False)"

definition df_group_by :: "DataFrame \<Rightarrow> ColumnOrName list \<Rightarrow> GroupedData res" where
  "df_group_by df cols =
     bind_res (map_res (\<lambda>c. case c of
          AName n \<Rightarrow> Inr (col_fn n)
        | ACol e \<Rightarrow> bind_res (raise_if (is_literal e) PyValueError) (\<lambda>_. Inr e)) cols)
       (\<lambda>es. Inr \<lparr>gd_df = df, gd_by = es\<rparr>)"

datatype AggArg = AggCol LogicalExpr | AggDict "(string, string) dict"

definition agg_funcs :: "(string \<times> (ColumnOrName \<Rightarrow> LogicalExpr res)) list" where
  "agg_funcs =
     [(''sum'', sum_fn), (''avg'', avg_fn), (''min'', min_fn), (''max'', max_fn), (''count'', count_fn),
      (''mean'', avg_fn), (''count_distinct'', \<lambda>c. count_distinct_fn [c]),
      (''approx_count_distinct'', approx_count_distinct_fn), (''sum_distinct'', sum_distinct_fn)]"

definition process_agg_dict :: "(string, string) dict \<Rightarrow> LogicalExpr list res" where
  "process_agg_dict d =
     map_res (\<lambda>(n, f). case map_of agg_funcs f of
          None \<Rightarrow> Inl PyValueError
        | Some agg \<Rightarrow> bind_res (agg (ACol (col_fn n))) (\<lambda>e. column_alias e (f @ ''('' @ n @ '')''))) d"

text \<open>An aggregate expression, aliased by its text unless the user has aliased it.\<close>

definition process_agg_exprs :: "Env \<Rightarrow> LogicalExpr list \<Rightarrow> (LogicalExpr \<times> string) list res" where
  "process_agg_exprs env es =
     map_res (\<lambda>e.
       if is_aggregate e then bind_res (column_alias e (expr_str env e)) (\<lambda>_. Inr (e, expr_str env e))
       else case e of
              AliasExpr e' n \<Rightarrow> if is_aggregate e' then Inr (e', n) else Inl PyValueError
            | _ \<Rightarrow> Inl PyValueError) es"

fun is_agg_dict :: "AggArg \<Rightarrow> bool" where
  "is_agg_dict (AggDict _) = True"
| "is_agg_dict (AggCol _) = False"

definition validate_agg_exprs :: "AggArg list \<Rightarrow> unit res" where
  "validate_agg_exprs args =
     bind_res (raise_if (args = []) PyValueError) (\<lambda>_.
       if length args = 1 \<and> is_agg_dict (hd args) then Inr ()
       else each_res (\<lambda>a. raise_if (is_agg_dict a) PyTypeError) args)"

definition agg_columns :: "Sessions \<Rightarrow> GroupedData \<Rightarrow> LogicalExpr list \<Rightarrow> DataFrame res" where
  "agg_columns S g es =
     bind_res (validate_agg_exprs (map AggCol es)) (\<lambda>_.
     bind_res (process_agg_exprs (expr_env (plan_env (S (df_session (gd_df g))))) es) (\<lambda>aggs.
       df_over S (gd_df g) (Aggregate (gd_by g) aggs)))"

definition gd_agg :: "Sessions \<Rightarrow> GroupedData \<Rightarrow> AggArg list \<Rightarrow> DataFrame res" where
  "gd_agg S g args =
     bind_res (validate_agg_exprs args) (\<lambda>_.
       case args of
         [AggDict d] \<Rightarrow> bind_res (process_agg_dict d) (agg_columns S g)
       | _ \<Rightarrow> agg_columns S g (concat (map (\<lambda>a. case a of AggCol e \<Rightarrow> [e] | AggDict _ \<Rightarrow> []) args)))"

definition df_agg :: "Sessions \<Rightarrow> DataFrame \<Rightarrow> AggArg list \<Rightarrow> DataFrame res" where
  "df_agg S df args = bind_res (df_group_by df []) (\<lambda>g. gd_agg S g args)"

section \<open>Semantic operations\<close>

definition df_with_cluster_labels ::
  "Sessions \<Rightarrow> DataFrame \<Rightarrow> ColumnOrName \<Rightarrow> int \<Rightarrow> int \<Rightarrow> int \<Rightarrow> string \<Rightarrow> string option \<Rightarrow> real option \<Rightarrow>
     DataFrame res" where
  "df_with_cluster_labels S df c num_clusters max_iter num_init label centroid timeout =
     bind_res (validate_timeout timeout) (\<lambda>to.
     bind_res (raise_if (num_clusters \<le> 0) ValidationError) (\<lambda>_.
     bind_res (raise_if (max_iter \<le> 0) ValidationError) (\<lambda>_.
     bind_res (raise_if (num_init \<le> 0) ValidationError) (\<lambda>_.
     bind_res (raise_if (label = []) ValidationError) (\<lambda>_.
     bind_res (raise_if (centroid = Some []) ValidationError) (\<lambda>_.
     bind_res (raise_if (is_literal (from_col_or_name c)) ValidationError) (\<lambda>_.
       df_over S df (SemanticCluster (from_col_or_name c) num_clusters max_iter num_init label centroid to))))))))"

definition df_semantic_join ::
  "Sessions \<Rightarrow> DataFrame \<Rightarrow> DataFrame \<Rightarrow> string \<Rightarrow> LogicalExpr \<Rightarrow> LogicalExpr \<Rightarrow> bool \<Rightarrow>
     ModelAliasArg option \<Rightarrow> real option \<Rightarrow> DataFrame res" where
  "df_semantic_join S df other predicate left_on right_on strict model timeout =
     bind_res (validate_timeout timeout) (\<lambda>to.
     bind_res (ensure_same_session (df_session df) [df_session other]) (\<lambda>_.
       df_build S (df_session df)
         (SemanticJoin left_on right_on predicate strict 0 (resolve_model_alias model) to)
         [df_plan df, df_plan other]))"

definition df_sim_join ::
  "Sessions \<Rightarrow> DataFrame \<Rightarrow> DataFrame \<Rightarrow> ColumnOrName \<Rightarrow> ColumnOrName \<Rightarrow> int \<Rightarrow> string \<Rightarrow> string option \<Rightarrow>
     real option \<Rightarrow> DataFrame res" where
  "df_sim_join S df other left_on right_on k metric score timeout =
     bind_res (raise_if (\<not> 0 < k) ValidationError) (\<lambda>_.
     bind_res (raise_if (metric \<notin> set [''cosine'', ''l2'', ''dot'']) ValidationError) (\<lambda>_.
     bind_res (validate_timeout timeout) (\<lambda>to.
     bind_res (ensure_same_session (df_session df) [df_session other]) (\<lambda>_.
       df_build S (df_session df)
         (SemanticSimilarityJoin (from_col_or_name left_on) (from_col_or_name right_on) k metric score to)
         [df_plan df, df_plan other]))))"

section \<open>Readers, writers and sessions\<close>

definition ends_with :: "string \<Rightarrow> string \<Rightarrow> bool" where
  "ends_with s suffix \<longleftrightarrow> length suffix \<le> length s \<and> drop (length s - length suffix) s = suffix"

definition read_file ::
  "Sessions \<Rightarrow> nat \<Rightarrow> string OneOrMany \<Rightarrow> string \<Rightarrow> string \<Rightarrow> FileOptions \<Rightarrow> DataFrame res" where
  "read_file S s paths file_format extension options =
     bind_res (each_res (\<lambda>p. raise_if (\<not> ends_with p extension) ValidationError) (as_list paths)) (\<lambda>_.
       df_build S s (FileSource (as_list paths) file_format options) [])"

definition read_csv ::
  "Sessions \<Rightarrow> nat \<Rightarrow> string OneOrMany \<Rightarrow> Schema option \<Rightarrow> bool \<Rightarrow> DataFrame res" where
  "read_csv S s paths schema merge =
     bind_res (raise_if (schema \<noteq> None \<and> merge) ValidationError) (\<lambda>_.
     bind_res (case schema of
                 None \<Rightarrow> Inr ()
               | Some sc \<Rightarrow> each_res (\<lambda>f. raise_if (\<not> isinstance (cf_type f) PrimitiveCls) ValidationError)
                              (column_fields sc)) (\<lambda>_.
       read_file S s paths ''csv'' ''.csv'' \<lparr>merge_schemas = Some merge, read_schema = schema\<rparr>))"

definition read_parquet :: "Sessions \<Rightarrow> nat \<Rightarrow> string OneOrMany \<Rightarrow> bool \<Rightarrow> DataFrame res" where
  "read_parquet S s paths merge =
     read_file S s paths ''parquet'' ''.parquet'' \<lparr>merge_schemas = Some merge, read_schema = None\<rparr>"

definition read_docs ::
  "Sessions \<Rightarrow> nat \<Rightarrow> string OneOrMany \<Rightarrow> string \<Rightarrow> string option \<Rightarrow> bool \<Rightarrow> DataFrame res" where
  "read_docs S s paths content_type exclude recursive =
     bind_res (raise_if (content_type \<notin> set [''markdown'', ''json'']) UnsupportedFileTypeError) (\<lambda>_.
       df_build S s (DocSource (as_list paths) content_type exclude recursive) [])"

definition read_pdf_metadata ::
  "Sessions \<Rightarrow> nat \<Rightarrow> string OneOrMany \<Rightarrow> string option \<Rightarrow> bool \<Rightarrow> DataFrame res" where
  "read_pdf_metadata S s paths exclude recursive =
     df_build S s (DocSource (as_list paths) ''pdf'' exclude recursive) []"

text \<open>The plans the writers hand to the execution.\<close>

definition write_table :: "Sessions \<Rightarrow> DataFrame \<Rightarrow> string \<Rightarrow> string \<Rightarrow> DataFrame res" where
  "write_table S df table mode = df_over S df (TableSink table mode)"

definition write_csv :: "Sessions \<Rightarrow> DataFrame \<Rightarrow> string \<Rightarrow> string \<Rightarrow> DataFrame res" where
  "write_csv S df path mode =
     bind_res (raise_if (\<not> ends_with path ''.csv'') ValidationError) (\<lambda>_.
       df_over S df (FileSink ''csv'' path mode))"

definition write_parquet :: "Sessions \<Rightarrow> DataFrame \<Rightarrow> string \<Rightarrow> string \<Rightarrow> DataFrame res" where
  "write_parquet S df path mode =
     bind_res (raise_if (\<not> ends_with path ''.parquet'') ValidationError) (\<lambda>_.
       df_over S df (FileSink ''parquet'' path mode))"

definition session_table :: "Sessions \<Rightarrow> nat \<Rightarrow> string \<Rightarrow> DataFrame res" where
  "session_table S s table =
     bind_res (raise_if (\<not> does_table_exist (S s) table) PyValueError) (\<lambda>_.
       df_build S s (TableSource table) [])"

text \<open>The placeholders of a query, found as the replacement finds them.\<close>

definition query_placeholders :: "string \<Rightarrow> string list" where
  "query_placeholders query = map fst (snd (replace_placeholders (\<lambda>_. []) query []))"

definition session_sql :: "Sessions \<Rightarrow> nat \<Rightarrow> string \<Rightarrow> (string, DataFrame) dict \<Rightarrow> DataFrame res" where
  "session_sql S s query tables =
     (let q = py_strip query in
      bind_res (raise_if (q = []) ValidationError) (\<lambda>_.
      let placeholders = query_placeholders q in
      bind_res (raise_if (set placeholders - fst ` set tables \<noteq> {}) ValidationError) (\<lambda>_.
      let used = filter (\<lambda>(n, t). n \<in> set placeholders) tables in
      bind_res (ensure_same_session s (map (\<lambda>(n, t). df_session t) used)) (\<lambda>_.
        df_build S s (SQL (map fst used) q) (map (\<lambda>(n, t). df_plan t) used)))))"

section \<open>What users can build\<close>

text \<open>
  A data frame is in order when its plan is well built in its own session.
\<close>

definition df_ok :: "Sessions \<Rightarrow> DataFrame \<Rightarrow> bool" where
  "df_ok S df \<longleftrightarrow> well_built (plan_env (S (df_session df))) (df_plan df)"

lemma df_from_plan_sel [simp]:
  "df_plan (df_from_plan p s) = p" "df_session (df_from_plan p s) = s"
  by (simp_all add: df_from_plan_def)

lemma df_build_ok:
  assumes "df_build S s node cs = Inr df" and "list_all (well_built (plan_env (S s))) cs"
    and "child_count_check node (length cs) = Inr ()"
  shows "df_ok S df"
  using assms by (auto simp: df_build_def df_ok_def intro: from_session_well_built)

lemma df_over_ok:
  "df_over S df node = Inr df' \<Longrightarrow> df_ok S df \<Longrightarrow> child_count_check node 1 = Inr () \<Longrightarrow> df_ok S df'"
  unfolding df_over_def by (erule df_build_ok) (simp_all add: df_ok_def)

lemma df_pair_ok:
  assumes "ensure_same_session (df_session df) [df_session other] = Inr ()"
    and "df_build S (df_session df) node [df_plan df, df_plan other] = Inr df'"
    and "df_ok S df" "df_ok S other" "child_count_check node 2 = Inr ()"
  shows "df_ok S df'"
proof (rule df_build_ok [OF assms(2)])
  from assms(1) have "df_session other = df_session df" by (simp add: ensure_same_session_def)
  with assms(3, 4) show "list_all (well_built (plan_env (S (df_session df)))) [df_plan df, df_plan other]"
    by (simp add: df_ok_def)
qed (use assms(5) in \<open>simp add: numeral_2_eq_2\<close>)

lemma set_cache_info_well_built: "well_built env (set_cache_info c p) = well_built env p"
  by (cases p) simp

text \<open>Every data frame a program can hold, by the calls that made it.\<close>

inductive reachable :: "Sessions \<Rightarrow> DataFrame \<Rightarrow> bool" for S where
  create: "df_build S s (InMemorySource d) [] = Inr df \<Longrightarrow> reachable S df"
| csv: "read_csv S s paths schema merge = Inr df \<Longrightarrow> reachable S df"
| parquet: "read_parquet S s paths merge = Inr df \<Longrightarrow> reachable S df"
| docs: "read_docs S s paths content_type exclude recursive = Inr df \<Longrightarrow> reachable S df"
| pdfs: "read_pdf_metadata S s paths exclude recursive = Inr df \<Longrightarrow> reachable S df"
| table: "session_table S s name = Inr df \<Longrightarrow> reachable S df"
| sql: "session_sql S s query tables = Inr df \<Longrightarrow> query_placeholders (py_strip query) \<noteq> [] \<Longrightarrow>
        (\<And>n t. (n, t) \<in> set tables \<Longrightarrow> reachable S t) \<Longrightarrow> reachable S df"
| persist: "reachable S df \<Longrightarrow> reachable S (snd (df_persist key df))"
| persisted: "reachable S df \<Longrightarrow> reachable S (fst (df_persist key df))"
| select: "reachable S df \<Longrightarrow> df_select S df cols = Inr df' \<Longrightarrow> reachable S df'"
| filter: "reachable S df \<Longrightarrow> df_filter S df e = Inr df' \<Longrightarrow> reachable S df'"
| with_column: "reachable S df \<Longrightarrow> df_with_column S df n v = Inr df' \<Longrightarrow> reachable S df'"
| with_columns: "reachable S df \<Longrightarrow> df_with_columns S df m = Inr df' \<Longrightarrow> reachable S df'"
| renamed: "reachable S df \<Longrightarrow> df_with_column_renamed S df n n' = Inr df' \<Longrightarrow> reachable S df'"
| drop: "reachable S df \<Longrightarrow> df_drop S df ns = Inr df' \<Longrightarrow> reachable S df'"
| unnest: "reachable S df \<Longrightarrow> df_unnest S df ns = Inr df' \<Longrightarrow> reachable S df'"
| union: "reachable S df \<Longrightarrow> reachable S other \<Longrightarrow> df_union S df other = Inr df' \<Longrightarrow> reachable S df'"
| limit: "reachable S df \<Longrightarrow> df_limit S df k = Inr df' \<Longrightarrow> reachable S df'"
| explode: "reachable S df \<Longrightarrow> df_explode S df c = Inr df' \<Longrightarrow> reachable S df'"
| explode_outer: "reachable S df \<Longrightarrow> df_explode_outer S df c = Inr df' \<Longrightarrow> reachable S df'"
| explode_with_index: "reachable S df \<Longrightarrow> df_explode_with_index S df c i v b = Inr df' \<Longrightarrow> reachable S df'"
| drop_duplicates: "reachable S df \<Longrightarrow> df_drop_duplicates S df names = Inr df' \<Longrightarrow> reachable S df'"
| sort: "reachable S df \<Longrightarrow> df_sort S df cs a = Inr df' \<Longrightarrow> reachable S df'"
| join: "reachable S df \<Longrightarrow> reachable S other \<Longrightarrow> df_join S df other on l r how = Inr df' \<Longrightarrow> reachable S df'"
| aggregate: "reachable S df \<Longrightarrow> df_group_by df cols = Inr g \<Longrightarrow> gd_agg S g args = Inr df' \<Longrightarrow> reachable S df'"
| cluster: "reachable S df \<Longrightarrow> df_with_cluster_labels S df c k mi ni lbl cen to = Inr df' \<Longrightarrow> reachable S df'"
| semantic_join: "reachable S df \<Longrightarrow> reachable S other \<Longrightarrow>
     df_semantic_join S df other pr le re st model to = Inr df' \<Longrightarrow> reachable S df'"
| sim_join: "reachable S df \<Longrightarrow> reachable S other \<Longrightarrow>
     df_sim_join S df other lc rc k metric score to = Inr df' \<Longrightarrow> reachable S df'"

lemmas reader_defs = read_csv_def read_parquet_def read_file_def read_docs_def read_pdf_metadata_def
  session_table_def

lemma sql_ok:
  assumes "session_sql S s query tables = Inr df" and "query_placeholders (py_strip query) \<noteq> []"
    and "\<And>n t. (n, t) \<in> set tables \<Longrightarrow> df_ok S t"
  shows "df_ok S df"
proof -
  define ps where "ps = query_placeholders (py_strip query)"
  define used where "used = filter (\<lambda>(n, t). n \<in> set ps) tables"
  from assms(1) have sub: "set ps \<subseteq> fst ` set tables"
    and same: "ensure_same_session s (map (\<lambda>(n, t). df_session t) used) = Inr ()"
    and b: "df_build S s (SQL (map fst used) (py_strip query)) (map (\<lambda>(n, t). df_plan t) used) = Inr df"
    by (auto simp: session_sql_def Let_def ps_def used_def)
  from assms(2) sub obtain n t where "(n, t) \<in> set used"
    by (cases ps) (force simp: ps_def used_def)+
  then have "used \<noteq> []" by auto
  moreover have "well_built (plan_env (S s)) (df_plan t)" if "(n, t) \<in> set used" for n t
    using that same assms(3) by (auto simp: ensure_same_session_def used_def df_ok_def)
  ultimately show ?thesis
    by (intro df_build_ok [OF b]) (auto simp: list_all_iff)
qed

lemma agg_columns_ok: "agg_columns S g es = Inr df \<Longrightarrow> df_ok S (gd_df g) \<Longrightarrow> df_ok S df"
  by (auto simp: agg_columns_def intro: df_over_ok)

lemma gd_agg_ok: "gd_agg S g args = Inr df \<Longrightarrow> df_ok S (gd_df g) \<Longrightarrow> df_ok S df"
  by (auto simp: gd_agg_def split: list.splits AggArg.splits intro: agg_columns_ok)

lemma reachable_ok: "reachable S df \<Longrightarrow> df_ok S df"
proof (induction rule: reachable.induct)
  case (sql s query tables df)
  then show ?case by (blast intro: sql_ok)
next
  case (aggregate df cols g args df')
  then have "gd_df g = df" by (auto simp: df_group_by_def)
  with aggregate show ?case by (auto intro: gd_agg_ok)
next
  case (union df other df')
  then show ?case by (auto simp: df_union_def intro: df_pair_ok)
next
  case (join df other on l r how df')
  then show ?case by (auto simp: df_join_def split: prod.splits intro: df_pair_ok)
next
  case (semantic_join df other pr le re st model to df')
  then show ?case by (auto simp: df_semantic_join_def intro: df_pair_ok)
next
  case (sim_join df other lc rc k metric score to df')
  then show ?case by (auto simp: df_sim_join_def intro: df_pair_ok)
next
  case (sort df cs a df')
  then show ?case by (auto simp: df_sort_def split: option.splits intro: df_over_ok)
next
  case (persist df key)
  then show ?case by (simp add: df_persist_def Let_def df_ok_def set_cache_info_well_built)
next
  case (persisted df key)
  then show ?case by (simp add: df_persist_def Let_def df_ok_def set_cache_info_well_built)
qed (auto simp: reader_defs df_select_def df_filter_def df_with_column_def df_with_columns_def
  df_with_column_renamed_def df_drop_def df_unnest_def df_limit_def df_explode_def df_explode_outer_def
  df_explode_with_index_def df_drop_duplicates_def df_with_cluster_labels_def Let_def
  split: if_splits intro: df_build_ok df_over_ok)

section \<open>What projections do to columns\<close>

text \<open>The name a column or an alias gives its field.\<close>

fun given_name :: "LogicalExpr \<Rightarrow> string" where
  "given_name (ColumnExpr n) = n"
| "given_name (AliasExpr _ n) = n"
| "given_name _ = []"

fun has_given_name :: "LogicalExpr \<Rightarrow> bool" where
  "has_given_name (ColumnExpr _) = True"
| "has_given_name (AliasExpr _ _) = True"
| "has_given_name _ = False"

lemma given_name_field: "has_given_name e \<Longrightarrow> to_column_field env s e = Inr f \<Longrightarrow> cf_name f = given_name e"
  by (cases e) (auto simp: column_field_def dest: find_field_Some split: option.splits)

lemma projection_fields:
  assumes "df_over S df (Projection es) = Inr df'"
  shows "list_all2 (\<lambda>e f. to_column_field (expr_env (plan_env (S (df_session df)))) (df_schema df) e = Inr f)
      es (column_fields (df_schema df')) \<and> distinct (df_columns df')"
  using assms
  by (auto simp: df_over_def df_build_def from_session_Inr df_schema_def df_columns_def map_res_Inr_iff)

lemma projection_columns:
  assumes "df_over S df (Projection es) = Inr df'" and "list_all has_given_name es"
  shows "df_columns df' = map given_name es"
proof -
  from projection_fields [OF assms(1)] obtain P where
    "list_all2 (\<lambda>e f. to_column_field P (df_schema df) e = Inr f) es (column_fields (df_schema df'))" by blast
  then have "map cf_name (column_fields (df_schema df')) = map given_name es"
    using assms(2) by (induction rule: list_all2_induct) (auto dest: given_name_field)
  then show ?thesis by (simp add: df_columns_def column_names_def)
qed

text \<open>A column that a projection keeps keeps its type.\<close>

lemma projection_keeps:
  assumes "df_over S df (Projection es) = Inr df'" and "ColumnExpr n \<in> set es"
  shows "find_field (df_schema df') n = find_field (df_schema df) n"
proof -
  from projection_fields [OF assms(1)] obtain P where
    l: "list_all2 (\<lambda>e f. to_column_field P (df_schema df) e = Inr f) es (column_fields (df_schema df'))"
    and d: "distinct (column_names (df_schema df'))" by (auto simp: df_columns_def)
  from l assms(2) obtain f where f: "f \<in> set (column_fields (df_schema df'))"
    "to_column_field P (df_schema df) (ColumnExpr n) = Inr f"
    by (induction rule: list_all2_induct) auto
  then have "find_field (df_schema df) n = Some f" "cf_name f = n"
    by (auto simp: column_field_def dest: find_field_Some split: option.splits)
  with find_field_unique [OF d f(1)] show ?thesis by simp
qed

lemma col_names_given [simp]:
  "given_name \<circ> from_column_name = id" "list_all has_given_name (map from_column_name ns)"
  "given_name \<circ> col_fn = id" "list_all has_given_name (map col_fn ns)"
  by (auto simp: from_column_name_def col_fn_def list_all_iff)

lemma column_alias_Inr: "column_alias e n = Inr a \<Longrightarrow> a = AliasExpr e n"
  by (auto simp: column_alias_def from_logical_expr_def)

section \<open>Properties\<close>


text \<open>Adding columns keeps the other columns with their types in their order and puts the new ones
  behind them in the order of the dictionary, also those that replace a column.\<close>

theorem with_columns_columns:
  assumes "df_with_columns S df m = Inr df'" and "m \<noteq> []"
  shows "df_columns df' = filter (\<lambda>c. c \<notin> fst ` set m) (df_columns df) @ map fst m \<and>
     (\<forall>c \<in> set (df_columns df) - fst ` set m. find_field (df_schema df') c = find_field (df_schema df) c)"
proof -
  from assms obtain as where
    as: "map_res (\<lambda>(n, v). bind_res (col_or_lit v) (\<lambda>e. column_alias e n)) m = Inr as" and
    p: "df_over S df (Projection
      (map from_column_name (filter (\<lambda>c. c \<notin> fst ` set m) (df_columns df)) @ as)) = Inr df'"
    by (auto simp: df_with_columns_def)
  from as have l: "list_all2 (\<lambda>nv a. \<exists>e. a = AliasExpr e (fst nv)) m as"
    by (auto simp: map_res_Inr_iff split_beta elim!: list_all2_mono dest: column_alias_Inr)
  then have "map given_name as = map fst m" "list_all has_given_name as"
    by (induction rule: list_all2_induct) auto
  with projection_columns [OF p]
  have "df_columns df' = filter (\<lambda>c. c \<notin> fst ` set m) (df_columns df) @ map fst m" by simp
  moreover have "find_field (df_schema df') c = find_field (df_schema df) c"
    if "c \<in> set (df_columns df) - fst ` set m" for c
    using that by (intro projection_keeps [OF p]) (auto simp: from_column_name_def)
  ultimately show ?thesis by blast
qed

text \<open>Renaming a column keeps the place of every column, dropping columns keeps the order and types
  of the others, and neither does anything else.\<close>

theorem rename_drop_columns:
  assumes "df_with_column_renamed S df n new = Inr df1" and "df_drop S df1 ns = Inr df2" and "ns \<noteq> []"
  shows "df_columns df1 = map (\<lambda>c. if c = n then new else c) (df_columns df) \<and>
     df_columns df2 = filter (\<lambda>c. c \<notin> set ns) (df_columns df1) \<and> df_columns df2 \<noteq> [] \<and>
     (\<forall>c \<in> set (df_columns df2). find_field (df_schema df2) c = find_field (df_schema df1) c)"
proof -
  have 1: "df_columns df1 = map (\<lambda>c. if c = n then new else c) (df_columns df)"
  proof (cases "n \<in> set (df_columns df)")
    case False
    with assms(1) have "df1 = df" by (auto simp: df_with_column_renamed_def)
    moreover have "map (\<lambda>c. if c = n then new else c) (df_columns df) = df_columns df"
      using False by (induction "df_columns df") (auto intro: map_idI)
    ultimately show ?thesis by simp
  next
    case True
    with assms(1) obtain es where
      es: "map_res (\<lambda>c. if c = n then column_alias (col_fn c) new else Inr (col_fn c)) (df_columns df) = Inr es"
      and p: "df_over S df (Projection es) = Inr df1"
      by (auto simp: df_with_column_renamed_def)
    have "map given_name es = map (\<lambda>c. if c = n then new else c) cs \<and> list_all has_given_name es"
      if "map_res (\<lambda>c. if c = n then column_alias (col_fn c) new else Inr (col_fn c)) cs = Inr es" for cs
      using that
      by (induction cs arbitrary: es)
        (auto dest!: column_alias_Inr simp: col_fn_def from_column_name_def split: if_splits)
    from this [OF es] projection_columns [OF p] show ?thesis by simp
  qed
  from assms(2,3) have ne: "filter (\<lambda>c. c \<notin> set ns) (df_columns df1) \<noteq> []"
    and p: "df_over S df1 (Projection (map col_fn (filter (\<lambda>c. c \<notin> set ns) (df_columns df1)))) = Inr df2"
    by (auto simp: df_drop_def Let_def split: if_splits)
  have 2: "df_columns df2 = filter (\<lambda>c. c \<notin> set ns) (df_columns df1)"
    using projection_columns [OF p] by simp
  have "find_field (df_schema df2) c = find_field (df_schema df1) c" if "c \<in> set (df_columns df2)" for c
    using that 2 by (intro projection_keeps [OF p]) (auto simp: col_fn_def from_column_name_def)
  with 1 2 ne show ?thesis by simp
qed


section \<open>Examples\<close>

definition example_sessions :: Sessions where
  "example_sessions = (\<lambda>s. PlanEnv.extend example_plan_env
     (ApiEnv.fields (\<lambda>_. True) (\<lambda>_. True) (\<lambda>_. True) (\<lambda>x. x) (\<lambda>_. False) (\<lambda>_. None)))"

lemma example_sessions_env [simp]: "plan_env (example_sessions s) = example_plan_env"
  by (simp add: example_sessions_def PlanEnv.defs ApiEnv.defs)

definition example_df :: DataFrame where
  "example_df = df_from_plan example_left 0"

lemma example_df_build: "df_build example_sessions 0 (InMemorySource 0) [] = Inr example_df"
  by (simp add: df_build_def example_df_def plan_evals)

lemma example_df_sel [simp]:
  "df_columns example_df = [''id'', ''ok'']" "df_session example_df = 0"
  "df_schema example_df = polars_schema example_plan_env 0" "df_plan example_df = example_left"
  by (simp_all add: df_columns_def df_schema_def example_df_def plan_evals)

lemma example_df_reachable: "reachable example_sessions example_df"
  by (rule reachable.create [OF example_df_build])

lemma example_projection:
  assumes "map_res (to_column_field (expr_env example_plan_env) (plan_schema example_left)) es = Inr fs"
    and "distinct (map cf_name fs)" and "list_all (\<lambda>e. \<not> is_sort e \<and> \<not> is_aggregate e) es"
  shows "df_over example_sessions example_df (Projection es) =
     Inr (df_from_plan (Plan (Projection es) [example_left] (mk_schema fs) None) 0)"
  using assms by (simp add: df_over_def df_build_def from_session_state_def validate_scalar_expr_def
      validate_schema_def list_all_iff)


lemma example_with_columns:
  "\<exists>df'. df_with_columns example_sessions example_df [(''id'', VObj (PStr ''x''))] = Inr df'"
proof -
  have "df_over example_sessions example_df (Projection [ColumnExpr ''ok'',
      AliasExpr (LiteralExpr (PyStr ''x'') StringType) ''id'']) =
    Inr (df_from_plan (Plan (Projection [ColumnExpr ''ok'', AliasExpr (LiteralExpr (PyStr ''x'') StringType) ''id''])
      [example_left] (mk_schema [mk_field ''ok'' BooleanType, mk_field ''id'' StringType]) None) 0)"
    by (rule example_projection) (simp_all add: plan_evals)
  then show ?thesis
    by (simp add: df_with_columns_def lit_def from_logical_expr_def column_alias_def is_sort_def is_aggregate_def
        from_column_name_def)
qed

theorem with_columns_columns_witness:
  "\<exists>df'. df_with_columns example_sessions example_df [(''id'', VObj (PStr ''x''))] = Inr df' \<and>
     df_columns df' = [''ok'', ''id'']"
proof -
  obtain df' where d: "df_with_columns example_sessions example_df [(''id'', VObj (PStr ''x''))] = Inr df'"
    using example_with_columns by blast
  from with_columns_columns [OF d] d show ?thesis by simp
qed


theorem rename_drop_columns_witness:
  "\<exists>df1 df2. df_with_column_renamed example_sessions example_df ''id'' ''key'' = Inr df1 \<and>
     df_drop example_sessions df1 [''ok''] = Inr df2 \<and> df_columns df2 = [''key'']"
proof -
  define q where "q = Plan (Projection [AliasExpr (ColumnExpr ''id'') ''key'', ColumnExpr ''ok'']) [example_left]
      (mk_schema [mk_field ''key'' IntegerType, mk_field ''ok'' BooleanType]) None"
  have "df_over example_sessions example_df (Projection [AliasExpr (ColumnExpr ''id'') ''key'', ColumnExpr ''ok'']) =
      Inr (df_from_plan q 0)"
    unfolding q_def by (rule example_projection) (simp_all add: plan_evals)
  then have 1: "df_with_column_renamed example_sessions example_df ''id'' ''key'' = Inr (df_from_plan q 0)"
    by (simp add: df_with_column_renamed_def column_alias_def from_logical_expr_def col_fn_def
        from_column_name_def is_sort_def is_aggregate_def is_alias_def)
  have "\<exists>df2. df_drop example_sessions (df_from_plan q 0) [''ok''] = Inr df2"
    by (simp add: df_drop_def df_over_def df_build_def df_columns_def df_schema_def q_def col_fn_def
        from_column_name_def plan_evals from_session_state_def)
  then obtain df2 where 2: "df_drop example_sessions (df_from_plan q 0) [''ok''] = Inr df2" by blast
  from rename_drop_columns [OF 1 2] have "df_columns df2 = [''key'']" by simp
  with 1 2 show ?thesis by blast
qed

section \<open>What goes wrong\<close>

text \<open>A query without placeholders is accepted, but the plan it makes cannot be copied, which
  every optimization does.\<close>

theorem sql_without_tables_not_copied:
  assumes "session_sql S s query tables = Inr df" and "query_placeholders (py_strip query) = []"
  shows "with_children (plan_env (S s)) (df_plan df) (plan_children (df_plan df)) = Inl InternalError"
  using assms by (auto simp: session_sql_def Let_def df_build_def from_session_Inr)

theorem sql_without_tables_not_copied_witness:
  "\<exists>S df. session_sql S 0 '' SELECT 1'' [] = Inr df \<and> with_children (plan_env (S 0)) (df_plan df) [] = Inl InternalError"
proof -
  define S where "S = (\<lambda>s :: nat. PlanEnv.extend (example_plan_env \<lparr>plan_query := \<lambda>_ _. Some (mk_schema [mk_field ''1'' IntegerType])\<rparr>)
     (ApiEnv.fields (\<lambda>_. True) (\<lambda>_. True) (\<lambda>_. True) (\<lambda>x. x) (\<lambda>_. False) (\<lambda>_. None)))"
  have env: "plan_env (S 0) = example_plan_env \<lparr>plan_query := \<lambda>_ _. Some (mk_schema [mk_field ''1'' IntegerType])\<rparr>"
    by (simp add: S_def PlanEnv.defs ApiEnv.defs)
  have q: "py_strip '' SELECT 1'' = ''SELECT 1''" by (simp add: py_strip_def py_space_def)
  have p: "query_placeholders ''SELECT 1'' = []"
    by (simp add: query_placeholders_def word_char_def)
  obtain df where d: "session_sql S 0 '' SELECT 1'' [] = Inr df"
    by (simp add: session_sql_def q p ensure_same_session_def df_build_def from_session_Inr env
        replace_query_placeholders_def word_char_def split_beta)
  have "plan_children (df_plan df) = []"
    using d by (auto simp: session_sql_def q p Let_def df_build_def from_session_Inr)
  with sql_without_tables_not_copied [OF d] q p d show ?thesis by auto
qed

text \<open>One column name with a list of one direction is rejected unless the name is one character long,
  because the length of the name is compared with that of the list.\<close>

theorem sort_one_name_with_list:
  assumes "length n \<noteq> 1"
  shows "df_sort S df (Some (JustOne (AName n))) (AscEach [b]) = Inl PyValueError"
  using assms by (simp add: df_sort_def)

theorem sort_one_name_with_list_witness:
  "df_sort example_sessions example_df (Some (JustOne (AName ''id''))) (AscEach [True]) = Inl PyValueError"
  by (rule sort_one_name_with_list) simp

text \<open>An inner join without keys is rejected when \<^verbatim>\<open>on\<close> is empty and accepted when both key
  lists are.\<close>

theorem empty_key_lists_accepted:
  "validate_join_parameters (Some (Several [])) None None ''inner'' = Inl ValidationError \<and>
   validate_join_parameters None (Some (Several [])) (Some (Several [])) ''inner'' = Inr ()"
  by (simp add: validate_join_parameters_def has_join_conditions_def validate_join_condition_lengths_def)

text \<open>An aggregate is no scalar expression and cannot be selected, but under an alias it passes the
  same check.\<close>

theorem alias_hides_aggregate:
  assumes "is_aggregate e"
  shows "df_over S df (Projection [e]) = Inl PlanError \<and>
     column_alias e n = Inr (AliasExpr e n) \<and> validate_scalar_expr (AliasExpr e n) = Inr ()"
  using assms
  by (auto simp: df_over_def df_build_def from_session_state_def validate_scalar_expr_def is_sort_def
      is_aggregate_def column_alias_def from_logical_expr_def is_alias_def raise_if_def
      split: LogicalExpr.splits)

theorem alias_hides_aggregate_witness:
  "df_select example_sessions example_df [ACol (FunctionExpr CountExpr [ColumnExpr ''id''])] = Inl PlanError \<and>
   validate_scalar_expr (AliasExpr (FunctionExpr CountExpr [ColumnExpr ''id'']) ''n'') = Inr ()"
  using alias_hides_aggregate [of "FunctionExpr CountExpr [ColumnExpr ''id'']" example_sessions example_df "''n''"]
  by (simp add: df_select_def is_aggregate_def)

end
