(* ===== verification/ModelCatalog.thy ===== *)
theory ModelCatalog
  imports TokenLimits
begin

text \<open>
  The classes and operations of the model catalog
  (\<^verbatim>\<open>src/fenic/core/_inference/model_catalog.py\<close>): parameters of models and their
  constructors, the collection of a provider, adding models, lookups with their lazy loading of
  dynamic providers, and the cost of a request.  The table itself is in theory \<^verbatim>\<open>ModelTable\<close>.
  A catalog is a record that every lookup may change, because a lookup can load models; the
  loaders, which call a service, are an argument.  Costs are real numbers instead of floats, and
  Python sets of names are lists of which only the members count.
\<close>

section \<open>Parameters of models\<close>

record TieredTokenCost =
  tier_input_token_cost :: real
  tier_cached_input_token_read_cost :: real
  tier_output_token_cost :: real
  tier_cached_input_token_write_cost :: real

text \<open>The constructor, whose write cost defaults to zero.\<close>

definition tiered_token_cost :: "real \<Rightarrow> real \<Rightarrow> real \<Rightarrow> TieredTokenCost" where
  "tiered_token_cost inp cached_read outp =
     \<lparr>tier_input_token_cost = inp, tier_cached_input_token_read_cost = cached_read,
      tier_output_token_cost = outp, tier_cached_input_token_write_cost = 0\<rparr>"

text \<open>The parameters the output budgets read, extended by all others.\<close>

record CatalogParameters = CompletionModelParameters +
  input_token_cost :: real
  output_token_cost :: real
  context_window_length :: int
  cached_input_token_write_cost :: real
  cached_input_token_read_cost :: real
  tiered_input_token_costs :: "(int, TieredTokenCost) dict option"
  supports_profiles :: bool
  supports_xhigh_reasoning :: bool
  supports_max_reasoning :: bool
  supported_reasoning_efforts :: "string list option"
  requires_adaptive_thinking :: bool
  supports_custom_temperature :: bool
  supports_verbosity :: bool
  supports_media_resolution :: bool
  supported_parameters :: "string list"

text \<open>The constructor with its defaults; keyword arguments are record updates of its result.\<close>

definition completion_model :: "real \<Rightarrow> real \<Rightarrow> int \<Rightarrow> int \<Rightarrow> CatalogParameters" where
  "completion_model inp outp context_length max_out =
     \<lparr>max_output_tokens = max_out, max_temperature = 1, supports_reasoning = False,
      supports_minimal_reasoning = False, supports_disabled_reasoning = True,
      default_reasoning_effort = None, supported_thinking_levels = None,
      uses_adaptive_thinking = False, supports_pdf_parsing = False, input_token_cost = inp,
      output_token_cost = outp, context_window_length = context_length,
      cached_input_token_write_cost = 0, cached_input_token_read_cost = 0,
      tiered_input_token_costs = None, supports_profiles = True,
      supports_xhigh_reasoning = False, supports_max_reasoning = False,
      supported_reasoning_efforts = None, requires_adaptive_thinking = False,
      supports_custom_temperature = True, supports_verbosity = False,
      supports_media_resolution = False, supported_parameters = []\<rparr>"

datatype Dimensions = FixedDimensions int | DimensionOptions "int list"

record CatalogEmbedding = EmbeddingModelParameters +
  embedding_token_cost :: real
  output_dimensions :: Dimensions
  max_input_size :: int

text \<open>
  A default of zero is as good as none.  Without a default the last option is taken, which an
  empty list does not have.
\<close>

definition embedding_model ::
  "real \<Rightarrow> Dimensions \<Rightarrow> int \<Rightarrow> int option \<Rightarrow> CatalogEmbedding res" where
  "embedding_model cost dims max_size dflt =
     bind_res
       (case dims of
          FixedDimensions n \<Rightarrow> Inr (if truthy_int dflt then the dflt else n)
        | DimensionOptions ns \<Rightarrow>
            if \<not> truthy_int dflt then (if ns = [] then Inl PyIndexError else Inr (last ns))
            else if the dflt \<notin> set ns then Inl InternalError
            else Inr (the dflt))
       (\<lambda>d. Inr \<lparr>default_dimensions = d, embedding_token_cost = cost, output_dimensions = dims,
                 max_input_size = max_size\<rparr>)"

definition get_possible_dimensions :: "CatalogEmbedding \<Rightarrow> int list" where
  "get_possible_dimensions e =
     (case output_dimensions e of FixedDimensions n \<Rightarrow> [n] | DimensionOptions ns \<Rightarrow> ns)"

definition supports_dimensions :: "CatalogEmbedding \<Rightarrow> int \<Rightarrow> bool" where
  "supports_dimensions e requested =
     (case output_dimensions e of
        FixedDimensions n \<Rightarrow> requested = n
      | DimensionOptions ns \<Rightarrow> requested \<in> set ns)"

datatype ModelParameters = Completion CatalogParameters | Embedding CatalogEmbedding

section \<open>The collection of a provider\<close>

record ProviderModelCollection =
  completion_models :: "(string, CatalogParameters) dict"
  provider_embedding_models :: "(string, CatalogEmbedding) dict"

text \<open>
  The name and then its snapshots go into the dictionary one by one, so that a name that is
  there already leaves the ones before it behind: the state comes with the error.
\<close>

fun add_names :: "(string, 'p) dict \<Rightarrow> 'p \<Rightarrow> string list \<Rightarrow> exn option \<times> (string, 'p) dict" where
  "add_names d p [] = (None, d)"
| "add_names d p (n # ns) =
     (if n \<in> fst ` set d then (Some InternalError, d) else add_names (d @ [(n, p)]) p ns)"

definition collection_add_model ::
  "ProviderModelCollection \<Rightarrow> string \<Rightarrow> ModelParameters \<Rightarrow> string list \<Rightarrow>
     exn option \<times> ProviderModelCollection" where
  "collection_add_model c name parameters snapshots =
     (case parameters of
        Embedding e \<Rightarrow>
          (let (r, d) = add_names (provider_embedding_models c) e (name # snapshots)
           in (r, c\<lparr>provider_embedding_models := d\<rparr>))
      | Completion m \<Rightarrow>
          (let (r, d) = add_names (completion_models c) m (name # snapshots)
           in (r, c\<lparr>completion_models := d\<rparr>)))"

section \<open>The catalog\<close>

record ModelCatalog =
  provider_model_collections :: "ModelProvider \<Rightarrow> ProviderModelCollection"
  dynamic_loaded :: "ModelProvider list"

text \<open>The loaders registered for the dynamic providers: each changes the catalog and may raise.\<close>

type_synonym 'a loaders =
  "ModelProvider \<Rightarrow> ('a ModelCatalog_scheme \<Rightarrow> exn option \<times> 'a ModelCatalog_scheme) option"

definition empty_catalog :: ModelCatalog where
  "empty_catalog =
     \<lparr>provider_model_collections = (\<lambda>_. \<lparr>completion_models = [], provider_embedding_models = []\<rparr>),
      dynamic_loaded = []\<rparr>"

definition add_model_to_catalog ::
  "'a ModelCatalog_scheme \<Rightarrow> ModelProvider \<Rightarrow> string \<Rightarrow> ModelParameters \<Rightarrow> string list \<Rightarrow>
     exn option \<times> 'a ModelCatalog_scheme" where
  "add_model_to_catalog cat provider name parameters snapshots =
     (let (r, c) = collection_add_model (provider_model_collections cat provider) name parameters snapshots
      in (r, cat\<lparr>provider_model_collections := (provider_model_collections cat)(provider := c)\<rparr>))"

text \<open>The public operation logs an InternalError and goes on; nothing else is raised.\<close>

definition add_model ::
  "'a ModelCatalog_scheme \<Rightarrow> ModelProvider \<Rightarrow> string \<Rightarrow> ModelParameters \<Rightarrow> string list \<Rightarrow>
     'a ModelCatalog_scheme" where
  "add_model cat provider name parameters snapshots =
     snd (add_model_to_catalog cat provider name parameters snapshots)"

definition register_dynamic_provider ::
  "'a loaders \<Rightarrow> ModelProvider \<Rightarrow> ('a ModelCatalog_scheme \<Rightarrow> exn option \<times> 'a ModelCatalog_scheme) \<Rightarrow>
     'a loaders" where
  "register_dynamic_provider ls provider loader = ls(provider := Some loader)"

text \<open>
  An empty collection of a provider with a loader that has not succeeded yet is loaded; a
  failure is logged and the next lookup tries again.  The result is the live dictionary, so
  models added before a failure are visible.
\<close>

definition get_supported_completions ::
  "'a loaders \<Rightarrow> 'a ModelCatalog_scheme \<Rightarrow> ModelProvider \<Rightarrow>
     (string, CatalogParameters) dict \<times> 'a ModelCatalog_scheme" where
  "get_supported_completions ls cat provider =
     (if completion_models (provider_model_collections cat provider) = [] then
        (case ls provider of
           Some loader \<Rightarrow>
             if provider \<in> set (dynamic_loaded cat) then ([], cat)
             else (case loader cat of
                     (None, cat') \<Rightarrow>
                       (completion_models (provider_model_collections cat' provider),
                        cat'\<lparr>dynamic_loaded := provider # dynamic_loaded cat'\<rparr>)
                   | (Some _, cat') \<Rightarrow>
                       (completion_models (provider_model_collections cat' provider), cat'))
         | None \<Rightarrow> ([], cat))
      else (completion_models (provider_model_collections cat provider), cat))"

definition get_supported_embeddings ::
  "'a ModelCatalog_scheme \<Rightarrow> ModelProvider \<Rightarrow> (string, CatalogEmbedding) dict" where
  "get_supported_embeddings cat provider =
     provider_embedding_models (provider_model_collections cat provider)"

definition get_completion_model_parameters ::
  "'a loaders \<Rightarrow> 'a ModelCatalog_scheme \<Rightarrow> ModelProvider \<Rightarrow> string \<Rightarrow>
     CatalogParameters option \<times> 'a ModelCatalog_scheme" where
  "get_completion_model_parameters ls cat provider name =
     (let (d, cat') = get_supported_completions ls cat provider in (map_of d name, cat'))"

definition get_embedding_model_parameters ::
  "'a ModelCatalog_scheme \<Rightarrow> ModelProvider \<Rightarrow> string \<Rightarrow> CatalogEmbedding option" where
  "get_embedding_model_parameters cat provider name =
     map_of (get_supported_embeddings cat provider) name"

text \<open>The models that meet a criterion, over the providers in the order of the enumeration.\<close>

definition all_providers :: "ModelProvider list" where
  "all_providers = [OPENAI, ANTHROPIC, GOOGLE_DEVELOPER, GOOGLE_VERTEX, COHERE, OPENROUTER]"

fun models_for_criteria ::
  "'a loaders \<Rightarrow> 'a ModelCatalog_scheme \<Rightarrow> (CatalogParameters \<Rightarrow> bool) \<Rightarrow> ModelProvider list \<Rightarrow>
     (ModelProvider \<times> string) list \<times> 'a ModelCatalog_scheme" where
  "models_for_criteria ls cat criteria [] = ([], cat)"
| "models_for_criteria ls cat criteria (provider # ps) =
     (let (d, cat') = get_supported_completions ls cat provider;
          (rest, cat'') = models_for_criteria ls cat' criteria ps
      in (map (\<lambda>(n, m). (provider, n)) (filter (\<lambda>(n, m). criteria m) d) @ rest, cat''))"

section \<open>Costs\<close>

text \<open>
  The tiers are tried from the smallest threshold up and the first one reached is taken.  The
  cost of written cache tokens has no tier.
\<close>

definition reached_tier :: "CatalogParameters \<Rightarrow> int \<Rightarrow> TieredTokenCost option" where
  "reached_tier m uncached =
     (case tiered_input_token_costs m of
        None \<Rightarrow> None
      | Some tiers \<Rightarrow>
          (case find (\<lambda>threshold. uncached \<ge> threshold) (sort (map fst tiers)) of
             None \<Rightarrow> None
           | Some threshold \<Rightarrow> map_of tiers threshold))"

definition completion_cost :: "CatalogParameters \<Rightarrow> int \<Rightarrow> int \<Rightarrow> int \<Rightarrow> int \<Rightarrow> real" where
  "completion_cost m uncached cached_read outp written =
     (let (i, r, oc) =
        (case reached_tier m uncached of
           Some t \<Rightarrow> (tier_input_token_cost t, tier_cached_input_token_read_cost t, tier_output_token_cost t)
         | None \<Rightarrow> (input_token_cost m, cached_input_token_read_cost m, output_token_cost m))
      in of_int uncached * i + of_int cached_read * r
         + of_int written * cached_input_token_write_cost m + of_int outp * oc)"

definition calculate_completion_model_cost ::
  "'a loaders \<Rightarrow> 'a ModelCatalog_scheme \<Rightarrow> ModelProvider \<Rightarrow> string \<Rightarrow> int \<Rightarrow> int \<Rightarrow> int \<Rightarrow> int \<Rightarrow>
     real res \<times> 'a ModelCatalog_scheme" where
  "calculate_completion_model_cost ls cat provider name uncached cached_read outp written =
     (case get_completion_model_parameters ls cat provider name of
        (None, cat') \<Rightarrow> (Inl PyValueError, cat')
      | (Some m, cat') \<Rightarrow> (Inr (completion_cost m uncached cached_read outp written), cat'))"

definition calculate_embedding_model_cost ::
  "'a ModelCatalog_scheme \<Rightarrow> ModelProvider \<Rightarrow> string \<Rightarrow> int \<Rightarrow> real res" where
  "calculate_embedding_model_cost cat provider name billable =
     (case get_embedding_model_parameters cat provider name of
        None \<Rightarrow> Inl PyValueError
      | Some e \<Rightarrow> Inr (of_int billable * embedding_token_cost e))"

section \<open>Filling the catalog\<close>

text \<open>
  One call of the initialization: the provider, the name, the parameters, whose construction
  may raise, and the snapshots.
\<close>

type_synonym CatalogEntry = "ModelProvider \<times> string \<times> ModelParameters res \<times> string list"

definition CompletionParams :: "CatalogParameters \<Rightarrow> ModelParameters res" where
  "CompletionParams m = Inr (Completion m)"

definition EmbeddingParams ::
  "real \<Rightarrow> Dimensions \<Rightarrow> int \<Rightarrow> int option \<Rightarrow> ModelParameters res" where
  "EmbeddingParams cost dims max_size dflt =
     bind_res (embedding_model cost dims max_size dflt) (\<lambda>e. Inr (Embedding e))"

fun initialize_entries ::
  "CatalogEntry list \<Rightarrow> 'a ModelCatalog_scheme \<Rightarrow> exn option \<times> 'a ModelCatalog_scheme" where
  "initialize_entries [] cat = (None, cat)"
| "initialize_entries ((provider, name, parameters, snapshots) # es) cat =
     (case parameters of
        Inl e \<Rightarrow> (Some e, cat)
      | Inr p \<Rightarrow>
          (case add_model_to_catalog cat provider name p snapshots of
             (None, cat') \<Rightarrow> initialize_entries es cat'
           | (Some e, cat') \<Rightarrow> (Some e, cat')))"

text \<open>The rows the entries of a provider make.\<close>

fun completion_rows :: "ModelProvider \<Rightarrow> CatalogEntry list \<Rightarrow> (string, CatalogParameters) dict" where
  "completion_rows p [] = []"
| "completion_rows p ((q, n, r, s) # es) =
     (case r of
        Inr (Completion m) \<Rightarrow> if q = p then map (\<lambda>x. (x, m)) (n # s) else []
      | _ \<Rightarrow> []) @ completion_rows p es"

fun embedding_rows :: "ModelProvider \<Rightarrow> CatalogEntry list \<Rightarrow> (string, CatalogEmbedding) dict" where
  "embedding_rows p [] = []"
| "embedding_rows p ((q, n, r, s) # es) =
     (case r of
        Inr (Embedding m) \<Rightarrow> if q = p then map (\<lambda>x. (x, m)) (n # s) else []
      | _ \<Rightarrow> []) @ embedding_rows p es"

lemma add_names_distinct:
  "distinct (map fst d @ ns) \<Longrightarrow> add_names d p ns = (None, d @ map (\<lambda>x. (x, p)) ns)"
proof (induction ns arbitrary: d)
  case (Cons n ns)
  then have "n \<notin> fst ` set d" "distinct (map fst (d @ [(n, p)]) @ ns)" by auto
  with Cons.IH [OF this(2)] show ?case by simp
qed simp

lemma completion_rows_append [simp]:
  "completion_rows p (es @ fs) = completion_rows p es @ completion_rows p fs"
  by (induction p es rule: completion_rows.induct) auto

lemma embedding_rows_append [simp]:
  "embedding_rows p (es @ fs) = embedding_rows p es @ embedding_rows p fs"
  by (induction p es rule: embedding_rows.induct) auto

definition entry_ok :: "CatalogEntry \<Rightarrow> bool" where
  "entry_ok e \<longleftrightarrow> (case e of (q, n, r, s) \<Rightarrow> (\<exists>p. r = Inr p))"

lemma add_model_to_catalog_Completion:
  assumes "distinct (map fst (completion_models (provider_model_collections cat q)) @ n # s)"
  shows "\<exists>cat'. add_model_to_catalog cat q n (Completion m) s = (None, cat') \<and>
     (\<forall>p. completion_models (provider_model_collections cat' p) =
            completion_models (provider_model_collections cat p) @
              (if q = p then map (\<lambda>x. (x, m)) (n # s) else []) \<and>
          provider_embedding_models (provider_model_collections cat' p) =
            provider_embedding_models (provider_model_collections cat p)) \<and>
     dynamic_loaded cat' = dynamic_loaded cat"
  using add_names_distinct [OF assms, of m]
  by (simp add: add_model_to_catalog_def collection_add_model_def del: add_names.simps)

lemma add_model_to_catalog_Embedding:
  assumes "distinct (map fst (provider_embedding_models (provider_model_collections cat q)) @ n # s)"
  shows "\<exists>cat'. add_model_to_catalog cat q n (Embedding m) s = (None, cat') \<and>
     (\<forall>p. provider_embedding_models (provider_model_collections cat' p) =
            provider_embedding_models (provider_model_collections cat p) @
              (if q = p then map (\<lambda>x. (x, m)) (n # s) else []) \<and>
          completion_models (provider_model_collections cat' p) =
            completion_models (provider_model_collections cat p)) \<and>
     dynamic_loaded cat' = dynamic_loaded cat"
  using add_names_distinct [OF assms, of m]
  by (simp add: add_model_to_catalog_def collection_add_model_def del: add_names.simps)

text \<open>
  Initialization succeeds when no name occurs twice in a provider, and the collections are the
  rows.
\<close>

lemma initialize_entries_ok:
  assumes "list_all entry_ok es"
    and "\<And>p. distinct (map fst (completion_models (provider_model_collections cat p) @ completion_rows p es))"
    and "\<And>p. distinct (map fst (provider_embedding_models (provider_model_collections cat p) @ embedding_rows p es))"
  shows "\<exists>cat'. initialize_entries es cat = (None, cat') \<and>
     (\<forall>p. completion_models (provider_model_collections cat' p) =
            completion_models (provider_model_collections cat p) @ completion_rows p es \<and>
          provider_embedding_models (provider_model_collections cat' p) =
            provider_embedding_models (provider_model_collections cat p) @ embedding_rows p es) \<and>
     dynamic_loaded cat' = dynamic_loaded cat"
  using assms
proof (induction es arbitrary: cat)
  case (Cons e es)
  obtain q n r s where e: "e = (q, n, r, s)" by (metis prod_cases4)
  with Cons.prems(1) obtain p where r: "r = Inr p" by (auto simp: entry_ok_def)
  have step: "\<exists>cat'. add_model_to_catalog cat q n p s = (None, cat') \<and>
      (\<forall>x. completion_models (provider_model_collections cat' x) =
             completion_models (provider_model_collections cat x) @ completion_rows x [e] \<and>
           provider_embedding_models (provider_model_collections cat' x) =
             provider_embedding_models (provider_model_collections cat x) @ embedding_rows x [e]) \<and>
      dynamic_loaded cat' = dynamic_loaded cat"
  proof (cases p)
    case (Completion m)
    have "distinct (map fst (completion_models (provider_model_collections cat q)) @ n # s)"
      using Cons.prems(2) [of q] e r Completion by (auto simp: comp_def)
    from add_model_to_catalog_Completion [OF this, of m] show ?thesis
      using e r Completion by (auto split: if_splits)
  next
    case (Embedding m)
    have "distinct (map fst (provider_embedding_models (provider_model_collections cat q)) @ n # s)"
      using Cons.prems(3) [of q] e r Embedding by (auto simp: comp_def)
    from add_model_to_catalog_Embedding [OF this, of m] show ?thesis
      using e r Embedding by (auto split: if_splits)
  qed
  then obtain cat' where c: "add_model_to_catalog cat q n p s = (None, cat')"
    "\<And>x. completion_models (provider_model_collections cat' x) =
        completion_models (provider_model_collections cat x) @ completion_rows x [e]"
    "\<And>x. provider_embedding_models (provider_model_collections cat' x) =
        provider_embedding_models (provider_model_collections cat x) @ embedding_rows x [e]"
    "dynamic_loaded cat' = dynamic_loaded cat" by blast
  have rows: "completion_rows x (e # es) = completion_rows x [e] @ completion_rows x es"
    "embedding_rows x (e # es) = embedding_rows x [e] @ embedding_rows x es" for x
    using completion_rows_append [of x "[e]" es] embedding_rows_append [of x "[e]" es] by simp_all
  have "list_all entry_ok es" using Cons.prems(1) by simp
  moreover have "distinct (map fst (completion_models (provider_model_collections cat' x) @ completion_rows x es))"
    "distinct (map fst (provider_embedding_models (provider_model_collections cat' x) @ embedding_rows x es))" for x
    using Cons.prems(2,3) [of x] by (simp_all add: rows c(2,3))
  ultimately obtain cat'' where "initialize_entries es cat' = (None, cat'')"
    "\<forall>x. completion_models (provider_model_collections cat'' x) =
        completion_models (provider_model_collections cat' x) @ completion_rows x es \<and>
      provider_embedding_models (provider_model_collections cat'' x) =
        provider_embedding_models (provider_model_collections cat' x) @ embedding_rows x es"
    "dynamic_loaded cat'' = dynamic_loaded cat'"
    using Cons.IH by blast
  then show ?case by (simp add: e r c(1) c(4) rows [unfolded e r] c(2,3) [unfolded e r])
qed simp

section \<open>Lookups\<close>

lemma get_supported_completions_nonempty:
  "completion_models (provider_model_collections cat p) \<noteq> [] \<Longrightarrow>
   get_supported_completions ls cat p = (completion_models (provider_model_collections cat p), cat)"
  by (simp add: get_supported_completions_def)

lemma get_supported_completions_no_loader:
  "ls p = None \<Longrightarrow>
   get_supported_completions ls cat p = (completion_models (provider_model_collections cat p), cat)"
  by (simp add: get_supported_completions_def)

text \<open>A lookup that found models, or whose loader succeeded, is not repeated.\<close>

lemma lookup_idempotent:
  assumes "get_supported_completions ls cat p = (d, cat')" and "d \<noteq> [] \<or> p \<in> set (dynamic_loaded cat')"
  shows "get_supported_completions ls cat' p = (d, cat')"
  using assms
  by (auto simp: get_supported_completions_def split: if_splits option.splits prod.splits)

section \<open>Tiers and costs\<close>

lemma find_reached:
  fixes u :: int
  shows "find (\<lambda>t. u \<ge> t) (sort xs) =
     (if xs \<noteq> [] \<and> Min (set xs) \<le> u then Some (Min (set xs)) else None)"
proof (cases "sort xs")
  case (Cons y ys)
  have "set xs = set (y # ys)" using Cons by (metis set_sort)
  moreover have "\<forall>z \<in> set ys. y \<le> z" using sorted_sort [of xs] Cons by simp
  ultimately have "Min (set xs) = y" by (metis List.finite_set Min_eqI insert_iff list.simps(15) order_refl)
  moreover have "xs \<noteq> []" using Cons by auto
  moreover have "find (\<lambda>t. u \<ge> t) (y # ys) = None" if "\<not> y \<le> u"
    using that \<open>\<forall>z \<in> set ys. y \<le> z\<close> by (auto simp: find_None_iff)
  ultimately show ?thesis using Cons by auto
next
  case Nil
  then have "xs = []" by (metis length_0_conv length_sort)
  then show ?thesis by simp
qed

text \<open>Only the tier with the smallest threshold is ever taken, however many are reached.\<close>

lemma reached_tier_lowest:
  assumes "tiered_input_token_costs m = Some tiers" "tiers \<noteq> []"
  shows "reached_tier m u =
     (if Min (fst ` set tiers) \<le> u then map_of tiers (Min (fst ` set tiers)) else None)"
  using assms by (simp add: reached_tier_def find_reached)

definition tier_above_base :: "CatalogParameters \<Rightarrow> TieredTokenCost \<Rightarrow> bool" where
  "tier_above_base m t \<longleftrightarrow>
     input_token_cost m \<le> tier_input_token_cost t \<and>
     cached_input_token_read_cost m \<le> tier_cached_input_token_read_cost t \<and>
     output_token_cost m \<le> tier_output_token_cost t"

definition costs_ordered :: "CatalogParameters \<Rightarrow> bool" where
  "costs_ordered m \<longleftrightarrow>
     0 \<le> input_token_cost m \<and> 0 \<le> output_token_cost m \<and> 0 \<le> cached_input_token_read_cost m \<and>
     0 \<le> cached_input_token_write_cost m \<and>
     (case tiered_input_token_costs m of
        None \<Rightarrow> True | Some tiers \<Rightarrow> list_all (\<lambda>(threshold, t). tier_above_base m t) tiers)"

definition effective_costs :: "CatalogParameters \<Rightarrow> int \<Rightarrow> real \<times> real \<times> real" where
  "effective_costs m u =
     (case reached_tier m u of
        Some t \<Rightarrow> (tier_input_token_cost t, tier_cached_input_token_read_cost t, tier_output_token_cost t)
      | None \<Rightarrow> (input_token_cost m, cached_input_token_read_cost m, output_token_cost m))"

lemma completion_cost_effective:
  "effective_costs m u = (i, r, oc) \<Longrightarrow>
   completion_cost m u cr out wr =
     of_int u * i + of_int cr * r + of_int wr * cached_input_token_write_cost m + of_int out * oc"
  by (auto simp: completion_cost_def effective_costs_def split: option.splits)

lemma reached_tier_keeps:
  assumes "reached_tier m u = Some t" "u \<le> v"
  shows "reached_tier m v = Some t"
proof (cases "tiered_input_token_costs m")
  case (Some tiers)
  show ?thesis
  proof (cases "tiers = []")
    case False
    with assms Some show ?thesis by (auto simp: reached_tier_lowest split: if_splits)
  qed (use assms Some in \<open>simp add: reached_tier_def\<close>)
qed (use assms in \<open>simp add: reached_tier_def\<close>)

lemma reached_tier_above_base:
  assumes "costs_ordered m" "reached_tier m u = Some t"
  shows "tier_above_base m t"
  using assms
  by (auto simp: costs_ordered_def reached_tier_def list_all_iff split: option.splits dest!: map_of_SomeD)

lemma effective_costs_mono:
  assumes "costs_ordered m" "u \<le> v" "effective_costs m u = (i, r, oc)" "effective_costs m v = (i', r', oc')"
  shows "0 \<le> i \<and> i \<le> i' \<and> 0 \<le> r \<and> r \<le> r' \<and> 0 \<le> oc \<and> oc \<le> oc'"
proof (cases "reached_tier m u")
  case (Some t)
  with reached_tier_keeps [OF Some assms(2)] reached_tier_above_base [OF assms(1) Some] assms
  show ?thesis by (auto simp: effective_costs_def tier_above_base_def costs_ordered_def)
next
  case None
  with reached_tier_above_base [OF assms(1), of v] assms show ?thesis
    by (auto simp: effective_costs_def tier_above_base_def costs_ordered_def split: option.splits)
qed

lemma completion_cost_mono:
  assumes "costs_ordered m" "0 \<le> u" "u \<le> u'" "0 \<le> r" "r \<le> r'" "0 \<le> w" "w \<le> w'" "0 \<le> x" "x \<le> x'"
  shows "0 \<le> completion_cost m u r x w \<and> completion_cost m u r x w \<le> completion_cost m u' r' x' w'"
proof -
  obtain i rc oc i' rc' oc' where e: "effective_costs m u = (i, rc, oc)" "effective_costs m u' = (i', rc', oc')"
    by (metis prod_cases3)
  have le: "of_int a * p \<le> of_int b * q" if "0 \<le> a" "a \<le> b" "0 \<le> p" "p \<le> q" for a b :: int and p q :: real
    using that by (intro mult_mono) auto
  have nonneg: "0 \<le> of_int a * (p :: real)" if "0 \<le> a" "0 \<le> p" for a :: int and p
    using that by simp
  have c: "0 \<le> i" "i \<le> i'" "0 \<le> rc" "rc \<le> rc'" "0 \<le> oc" "oc \<le> oc'" "0 \<le> cached_input_token_write_cost m"
    using effective_costs_mono [OF assms(1,3) e] assms(1) by (simp_all add: costs_ordered_def)
  have "of_int u * i \<le> of_int u' * i'" "of_int r * rc \<le> of_int r' * rc'" "of_int x * oc \<le> of_int x' * oc'"
    "of_int w * cached_input_token_write_cost m \<le> of_int w' * cached_input_token_write_cost m"
    using c assms by (auto intro!: le)
  moreover have "0 \<le> of_int u * i" "0 \<le> of_int r * rc" "0 \<le> of_int x * oc"
    "0 \<le> of_int w * cached_input_token_write_cost m"
    using c assms by (auto intro!: nonneg)
  ultimately show ?thesis
    unfolding completion_cost_effective [OF e(1)] completion_cost_effective [OF e(2)] by linarith
qed

end
