(* ===== verification/ModelTable.thy ===== *)
theory ModelTable
  imports ModelCatalog
begin

text \<open>
  The table the catalog is built from (\<^verbatim>\<open>ModelCatalog._initialize_models\<close> in
  \<^verbatim>\<open>src/fenic/core/_inference/model_catalog.py\<close>): one definition per call that adds a model,
  under the name of the model with underscores, and one list per provider; then the names the
  annotations of the configuration allow.  The lemmas show that the initialization raises no
  error, that the catalog knows exactly the annotated names, and what holds of every entry:
  ordered costs, limits within the context window, efforts and levels that the token estimates know.
\<close>

section \<open>Named sets\<close>

definition GEMINI_3X_PRO_THINKING_LEVELS :: "string list" where
  "GEMINI_3X_PRO_THINKING_LEVELS = [''high'', ''medium'', ''low'']"

definition GEMINI_3X_FLASH_THINKING_LEVELS :: "string list" where
  "GEMINI_3X_FLASH_THINKING_LEVELS = [''high'', ''medium'', ''low'', ''minimal'']"

definition GEMINI_3_7_FLASH_THINKING_LEVELS :: "string list" where
  "GEMINI_3_7_FLASH_THINKING_LEVELS = [''high'', ''medium'', ''low'']"

definition ANTHROPIC_OPUS_4_7_PLUS_EFFORTS :: "string list" where
  "ANTHROPIC_OPUS_4_7_PLUS_EFFORTS = [''low'', ''medium'', ''high'', ''xhigh'', ''max'']"

definition ANTHROPIC_4_6_EFFORTS :: "string list" where
  "ANTHROPIC_4_6_EFFORTS = [''low'', ''medium'', ''high'', ''max'']"

definition ANTHROPIC_OPUS_4_5_EFFORTS :: "string list" where
  "ANTHROPIC_OPUS_4_5_EFFORTS = [''low'', ''medium'', ''high'']"

section \<open>Models\<close>

definition claude_opus_5 :: CatalogEntry where
  "claude_opus_5 = (ANTHROPIC, ''claude-opus-5'',
     CompletionParams
       ((completion_model (5 / 1000000) (25 / 1000000) 1000000 128000)
        \<lparr>cached_input_token_write_cost := 6.25 / 1000000,
          cached_input_token_read_cost := 0.5 / 1000000, supports_reasoning := False,
          supported_reasoning_efforts := Some ANTHROPIC_OPUS_4_7_PLUS_EFFORTS,
          uses_adaptive_thinking := True, supports_custom_temperature := False\<rparr>),
     [])"

definition claude_fable_5 :: CatalogEntry where
  "claude_fable_5 = (ANTHROPIC, ''claude-fable-5'',
     CompletionParams
       ((completion_model (10 / 1000000) (50 / 1000000) 1000000 128000)
        \<lparr>cached_input_token_write_cost := 12.5 / 1000000,
          cached_input_token_read_cost := 1 / 1000000, supports_reasoning := False,
          supported_reasoning_efforts := Some ANTHROPIC_OPUS_4_7_PLUS_EFFORTS,
          uses_adaptive_thinking := True, requires_adaptive_thinking := True,
          supports_custom_temperature := False\<rparr>),
     [])"

definition claude_sonnet_5 :: CatalogEntry where
  "claude_sonnet_5 = (ANTHROPIC, ''claude-sonnet-5'',
     CompletionParams
       ((completion_model (3 / 1000000) (15 / 1000000) 1000000 128000)
        \<lparr>cached_input_token_write_cost := 3.75 / 1000000,
          cached_input_token_read_cost := 0.3 / 1000000, supports_reasoning := False,
          supported_reasoning_efforts := Some ANTHROPIC_OPUS_4_7_PLUS_EFFORTS,
          uses_adaptive_thinking := True, supports_custom_temperature := False\<rparr>),
     [])"

definition claude_opus_4_8 :: CatalogEntry where
  "claude_opus_4_8 = (ANTHROPIC, ''claude-opus-4-8'',
     CompletionParams
       ((completion_model (5 / 1000000) (25 / 1000000) 1000000 128000)
        \<lparr>cached_input_token_write_cost := 6.25 / 1000000,
          cached_input_token_read_cost := 0.5 / 1000000, supports_reasoning := False,
          supported_reasoning_efforts := Some ANTHROPIC_OPUS_4_7_PLUS_EFFORTS,
          uses_adaptive_thinking := True, supports_custom_temperature := False\<rparr>),
     [])"

definition claude_opus_4_7 :: CatalogEntry where
  "claude_opus_4_7 = (ANTHROPIC, ''claude-opus-4-7'',
     CompletionParams
       ((completion_model (5 / 1000000) (25 / 1000000) 1000000 128000)
        \<lparr>cached_input_token_write_cost := 6.25 / 1000000,
          cached_input_token_read_cost := 0.5 / 1000000, supports_reasoning := False,
          supported_reasoning_efforts := Some ANTHROPIC_OPUS_4_7_PLUS_EFFORTS,
          uses_adaptive_thinking := True, supports_custom_temperature := False\<rparr>),
     [])"

definition claude_opus_4_6 :: CatalogEntry where
  "claude_opus_4_6 = (ANTHROPIC, ''claude-opus-4-6'',
     CompletionParams
       ((completion_model (5 / 1000000) (25 / 1000000) 200000 128000)
        \<lparr>cached_input_token_write_cost := 6.25 / 1000000,
          cached_input_token_read_cost := 0.5 / 1000000, supports_reasoning := True,
          supported_reasoning_efforts := Some ANTHROPIC_4_6_EFFORTS, uses_adaptive_thinking := True\<rparr>),
     [])"

definition claude_sonnet_4_6 :: CatalogEntry where
  "claude_sonnet_4_6 = (ANTHROPIC, ''claude-sonnet-4-6'',
     CompletionParams
       ((completion_model (3 / 1000000) (15 / 1000000) 200000 64000)
        \<lparr>cached_input_token_write_cost := 3.75 / 1000000,
          cached_input_token_read_cost := 0.3 / 1000000, supports_reasoning := True,
          supported_reasoning_efforts := Some ANTHROPIC_4_6_EFFORTS, uses_adaptive_thinking := True\<rparr>),
     [])"

definition claude_opus_4_5 :: CatalogEntry where
  "claude_opus_4_5 = (ANTHROPIC, ''claude-opus-4-5'',
     CompletionParams
       ((completion_model (5 / 1000000) (25 / 1000000) 200000 64000)
        \<lparr>cached_input_token_write_cost := 6.25 / 1000000,
          cached_input_token_read_cost := 0.5 / 1000000, supports_reasoning := True,
          supported_reasoning_efforts := Some ANTHROPIC_OPUS_4_5_EFFORTS\<rparr>),
     [''claude-opus-4-5-20251101''])"

definition claude_haiku_4_5 :: CatalogEntry where
  "claude_haiku_4_5 = (ANTHROPIC, ''claude-haiku-4-5'',
     CompletionParams
       ((completion_model (1 / 1000000) (5 / 1000000) 200000 64000)
        \<lparr>cached_input_token_write_cost := 1.25 / 1000000,
          cached_input_token_read_cost := 0.1 / 1000000, supports_reasoning := True\<rparr>),
     [''claude-haiku-4-5-20251001''])"

definition claude_sonnet_4_5 :: CatalogEntry where
  "claude_sonnet_4_5 = (ANTHROPIC, ''claude-sonnet-4-5'',
     CompletionParams
       ((completion_model (3 / 1000000) (15 / 1000000) 200000 64000)
        \<lparr>cached_input_token_write_cost := 3.75 / 1000000,
          cached_input_token_read_cost := 0.3 / 1000000, supports_reasoning := True\<rparr>),
     [''claude-sonnet-4-5-20250929''])"

definition gpt_5_6_sol :: CatalogEntry where
  "gpt_5_6_sol = (OPENAI, ''gpt-5.6-sol'',
     CompletionParams
       ((completion_model (5 / 1000000) (30 / 1000000) 1050000 128000)
        \<lparr>cached_input_token_write_cost := 6.25 / 1000000,
          cached_input_token_read_cost := 0.5 / 1000000,
          tiered_input_token_costs := Some [(272000, tiered_token_cost (10 / 1000000) (1 / 1000000) (45 / 1000000))],
          supports_reasoning := True, supports_minimal_reasoning := False,
          supports_disabled_reasoning := True, supports_xhigh_reasoning := True,
          supports_max_reasoning := True, supports_custom_temperature := True,
          supports_verbosity := True, supports_pdf_parsing := True\<rparr>),
     [])"

definition gpt_5_6_terra :: CatalogEntry where
  "gpt_5_6_terra = (OPENAI, ''gpt-5.6-terra'',
     CompletionParams
       ((completion_model (2.5 / 1000000) (15 / 1000000) 1050000 128000)
        \<lparr>cached_input_token_write_cost := 3.125 / 1000000,
          cached_input_token_read_cost := 0.25 / 1000000,
          tiered_input_token_costs := Some [(272000, tiered_token_cost (5 / 1000000) (0.5 / 1000000) (22.5 / 1000000))],
          supports_reasoning := True, supports_minimal_reasoning := False,
          supports_disabled_reasoning := True, supports_xhigh_reasoning := True,
          supports_max_reasoning := True, supports_custom_temperature := True,
          supports_verbosity := True, supports_pdf_parsing := True\<rparr>),
     [])"

definition gpt_5_6_luna :: CatalogEntry where
  "gpt_5_6_luna = (OPENAI, ''gpt-5.6-luna'',
     CompletionParams
       ((completion_model (1 / 1000000) (6 / 1000000) 1050000 128000)
        \<lparr>cached_input_token_write_cost := 1.25 / 1000000,
          cached_input_token_read_cost := 0.1 / 1000000,
          tiered_input_token_costs := Some [(272000, tiered_token_cost (2 / 1000000) (0.2 / 1000000) (9 / 1000000))],
          supports_reasoning := True, supports_minimal_reasoning := False,
          supports_disabled_reasoning := True, supports_xhigh_reasoning := True,
          supports_max_reasoning := True, supports_custom_temperature := True,
          supports_verbosity := True, supports_pdf_parsing := True\<rparr>),
     [])"

definition gpt_4 :: CatalogEntry where
  "gpt_4 = (OPENAI, ''gpt-4'',
     CompletionParams
       ((completion_model (30 / 1000000) (60 / 1000000) 8192 8192)
        \<lparr>max_temperature := 2, cached_input_token_read_cost := 0, supports_profiles := False\<rparr>),
     [''gpt-4-0613''])"

definition gpt_4_turbo :: CatalogEntry where
  "gpt_4_turbo = (OPENAI, ''gpt-4-turbo'',
     CompletionParams
       ((completion_model (10 / 1000000) (30 / 1000000) 128000 4096)
        \<lparr>max_temperature := 2, cached_input_token_read_cost := 0, supports_profiles := False\<rparr>),
     [''gpt-4-turbo-2024-04-09''])"

definition gpt_4o_mini :: CatalogEntry where
  "gpt_4o_mini = (OPENAI, ''gpt-4o-mini'',
     CompletionParams
       ((completion_model (0.15 / 1000000) (0.6 / 1000000) 128000 16384)
        \<lparr>max_temperature := 2, cached_input_token_read_cost := 0.075 / 1000000,
          supports_profiles := False, supports_pdf_parsing := True\<rparr>),
     [''gpt-4o-mini-2024-07-18''])"

definition gpt_4o :: CatalogEntry where
  "gpt_4o = (OPENAI, ''gpt-4o'',
     CompletionParams
       ((completion_model (2.5 / 1000000) (10 / 1000000) 128000 16384)
        \<lparr>max_temperature := 2, cached_input_token_read_cost := 1.25 / 1000000,
          supports_profiles := False, supports_pdf_parsing := True\<rparr>),
     [''gpt-4o-2024-05-13'', ''gpt-4o-2024-08-06'', ''gpt-4o-2024-11-20''])"

definition gpt_4_1_nano :: CatalogEntry where
  "gpt_4_1_nano = (OPENAI, ''gpt-4.1-nano'',
     CompletionParams
       ((completion_model (0.1 / 1000000) (0.4 / 1000000) 1000000 32768)
        \<lparr>max_temperature := 2, cached_input_token_read_cost := 0.025 / 1000000,
          supports_profiles := False\<rparr>),
     [''gpt-4.1-nano-2025-04-14''])"

definition gpt_4_1_mini :: CatalogEntry where
  "gpt_4_1_mini = (OPENAI, ''gpt-4.1-mini'',
     CompletionParams
       ((completion_model (0.4 / 1000000) (1.6 / 1000000) 1000000 32768)
        \<lparr>max_temperature := 2, cached_input_token_read_cost := 0.1 / 1000000,
          supports_profiles := False\<rparr>),
     [''gpt-4.1-mini-2025-04-14''])"

definition gpt_4_1 :: CatalogEntry where
  "gpt_4_1 = (OPENAI, ''gpt-4.1'',
     CompletionParams
       ((completion_model (2 / 1000000) (8 / 1000000) 1000000 32768)
        \<lparr>max_temperature := 2, cached_input_token_read_cost := 0.5 / 1000000,
          supports_profiles := False\<rparr>),
     [''gpt-4.1-2025-04-14''])"

definition o1 :: CatalogEntry where
  "o1 = (OPENAI, ''o1'',
     CompletionParams
       ((completion_model (15 / 1000000) (60 / 1000000) 200000 100000)
        \<lparr>max_temperature := 2, cached_input_token_read_cost := 7.5 / 1000000,
          supports_reasoning := True, supports_custom_temperature := False\<rparr>),
     [])"

definition o3 :: CatalogEntry where
  "o3 = (OPENAI, ''o3'',
     CompletionParams
       ((completion_model (2 / 1000000) (8 / 1000000) 200000 100000)
        \<lparr>max_temperature := 2, cached_input_token_read_cost := 0.5 / 1000000,
          supports_reasoning := True, supports_custom_temperature := False,
          supports_pdf_parsing := True\<rparr>),
     [])"

definition o3_mini :: CatalogEntry where
  "o3_mini = (OPENAI, ''o3-mini'',
     CompletionParams
       ((completion_model (1.1 / 1000000) (4.4 / 1000000) 200000 100000)
        \<lparr>max_temperature := 2, cached_input_token_read_cost := 0.55 / 1000000,
          supports_reasoning := True, supports_custom_temperature := False\<rparr>),
     [])"

definition o4_mini :: CatalogEntry where
  "o4_mini = (OPENAI, ''o4-mini'',
     CompletionParams
       ((completion_model (1.1 / 1000000) (4.4 / 1000000) 200000 100000)
        \<lparr>max_temperature := 2, cached_input_token_read_cost := 0.275 / 1000000,
          supports_reasoning := True, supports_pdf_parsing := True\<rparr>),
     [])"

definition gpt_5 :: CatalogEntry where
  "gpt_5 = (OPENAI, ''gpt-5'',
     CompletionParams
       ((completion_model (1.25 / 1000000) (10 / 1000000) 400000 128000)
        \<lparr>cached_input_token_read_cost := 0.125 / 1000000, supports_reasoning := True,
          supports_minimal_reasoning := True, supports_disabled_reasoning := False,
          supports_custom_temperature := False, supports_verbosity := True,
          supports_pdf_parsing := True\<rparr>),
     [''gpt-5-2025-08-07''])"

definition gpt_5_mini :: CatalogEntry where
  "gpt_5_mini = (OPENAI, ''gpt-5-mini'',
     CompletionParams
       ((completion_model (0.25 / 1000000) (2 / 1000000) 400000 128000)
        \<lparr>cached_input_token_read_cost := 0.025 / 1000000, supports_reasoning := True,
          supports_minimal_reasoning := True, supports_disabled_reasoning := False,
          supports_custom_temperature := False, supports_verbosity := True,
          supports_pdf_parsing := True\<rparr>),
     [''gpt-5-mini-2025-08-07''])"

definition gpt_5_nano :: CatalogEntry where
  "gpt_5_nano = (OPENAI, ''gpt-5-nano'',
     CompletionParams
       ((completion_model (0.05 / 1000000) (0.4 / 1000000) 400000 128000)
        \<lparr>cached_input_token_read_cost := 0.005 / 1000000, supports_reasoning := True,
          supports_minimal_reasoning := True, supports_disabled_reasoning := False,
          supports_custom_temperature := False, supports_verbosity := True,
          supports_pdf_parsing := True\<rparr>),
     [''gpt-5-nano-2025-08-07''])"

definition gpt_5_1 :: CatalogEntry where
  "gpt_5_1 = (OPENAI, ''gpt-5.1'',
     CompletionParams
       ((completion_model (1.25 / 1000000) (10 / 1000000) 400000 128000)
        \<lparr>cached_input_token_read_cost := 0.125 / 1000000, supports_reasoning := True,
          supports_minimal_reasoning := False, supports_disabled_reasoning := True,
          supports_custom_temperature := True, supports_verbosity := True,
          supports_pdf_parsing := True\<rparr>),
     [''gpt-5.1-2025-11-13''])"

definition gpt_5_2 :: CatalogEntry where
  "gpt_5_2 = (OPENAI, ''gpt-5.2'',
     CompletionParams
       ((completion_model (1.75 / 1000000) (14 / 1000000) 400000 128000)
        \<lparr>cached_input_token_read_cost := 0.175 / 1000000, supports_reasoning := True,
          supports_minimal_reasoning := False, supports_disabled_reasoning := True,
          supports_custom_temperature := True, supports_verbosity := True,
          supports_pdf_parsing := True\<rparr>),
     [])"

definition gpt_5_5 :: CatalogEntry where
  "gpt_5_5 = (OPENAI, ''gpt-5.5'',
     CompletionParams
       ((completion_model (5 / 1000000) (30 / 1000000) 1050000 128000)
        \<lparr>cached_input_token_read_cost := 0.5 / 1000000,
          tiered_input_token_costs := Some [(272000, tiered_token_cost (10 / 1000000) (1 / 1000000) (45 / 1000000))],
          supports_reasoning := True, supports_minimal_reasoning := False,
          supports_disabled_reasoning := True, supports_xhigh_reasoning := True,
          default_reasoning_effort := Some ''medium'', supports_custom_temperature := True,
          supports_verbosity := True, supports_pdf_parsing := True\<rparr>),
     [''gpt-5.5-2026-04-23''])"

definition gpt_5_4 :: CatalogEntry where
  "gpt_5_4 = (OPENAI, ''gpt-5.4'',
     CompletionParams
       ((completion_model (2.5 / 1000000) (15 / 1000000) 1050000 128000)
        \<lparr>cached_input_token_read_cost := 0.25 / 1000000,
          tiered_input_token_costs := Some [(272000, tiered_token_cost (5 / 1000000) (0.5 / 1000000) (22.5 / 1000000))],
          supports_reasoning := True, supports_minimal_reasoning := False,
          supports_disabled_reasoning := True, supports_xhigh_reasoning := True,
          supports_custom_temperature := True, supports_verbosity := True,
          supports_pdf_parsing := True\<rparr>),
     [''gpt-5.4-2026-03-05''])"

definition gpt_5_4_mini :: CatalogEntry where
  "gpt_5_4_mini = (OPENAI, ''gpt-5.4-mini'',
     CompletionParams
       ((completion_model (0.75 / 1000000) (4.5 / 1000000) 400000 128000)
        \<lparr>cached_input_token_read_cost := 0.075 / 1000000, supports_reasoning := True,
          supports_minimal_reasoning := False, supports_disabled_reasoning := True,
          supports_xhigh_reasoning := True, supports_custom_temperature := True,
          supports_verbosity := True, supports_pdf_parsing := True\<rparr>),
     [''gpt-5.4-mini-2026-03-17''])"

definition gpt_5_4_nano :: CatalogEntry where
  "gpt_5_4_nano = (OPENAI, ''gpt-5.4-nano'',
     CompletionParams
       ((completion_model (0.2 / 1000000) (1.25 / 1000000) 400000 128000)
        \<lparr>cached_input_token_read_cost := 0.02 / 1000000, supports_reasoning := True,
          supports_minimal_reasoning := False, supports_disabled_reasoning := True,
          supports_xhigh_reasoning := True, supports_custom_temperature := True,
          supports_verbosity := True, supports_pdf_parsing := True\<rparr>),
     [''gpt-5.4-nano-2026-03-17''])"

definition text_embedding_3_small :: CatalogEntry where
  "text_embedding_3_small = (OPENAI, ''text-embedding-3-small'',
     EmbeddingParams (0.02 / 1000000) (FixedDimensions 1536) 8192 None,
     [])"

definition text_embedding_3_large :: CatalogEntry where
  "text_embedding_3_large = (OPENAI, ''text-embedding-3-large'',
     EmbeddingParams (0.13 / 1000000) (FixedDimensions 3072) 8192 None,
     [])"

definition gemini_3_7_flash_vertex :: CatalogEntry where
  "gemini_3_7_flash_vertex = (GOOGLE_VERTEX, ''gemini-3.7-flash'',
     CompletionParams
       ((completion_model (0.75 / 1000000) (3.75 / 1000000) 1048576 65536)
        \<lparr>max_temperature := 2, cached_input_token_read_cost := 0.075 / 1000000,
          supports_reasoning := True, supports_disabled_reasoning := False,
          supported_thinking_levels := Some GEMINI_3_7_FLASH_THINKING_LEVELS,
          supports_custom_temperature := False, supports_pdf_parsing := True,
          supports_media_resolution := True\<rparr>),
     [])"

definition gemini_3_6_flash_vertex :: CatalogEntry where
  "gemini_3_6_flash_vertex = (GOOGLE_VERTEX, ''gemini-3.6-flash'',
     CompletionParams
       ((completion_model (1.5 / 1000000) (7.5 / 1000000) 1048576 65536)
        \<lparr>max_temperature := 2, cached_input_token_read_cost := 0.15 / 1000000,
          supports_reasoning := True, supports_disabled_reasoning := False,
          supported_thinking_levels := Some GEMINI_3X_FLASH_THINKING_LEVELS,
          supports_custom_temperature := False, supports_pdf_parsing := True,
          supports_media_resolution := True\<rparr>),
     [])"

definition gemini_3_5_flash_lite_vertex :: CatalogEntry where
  "gemini_3_5_flash_lite_vertex = (GOOGLE_VERTEX, ''gemini-3.5-flash-lite'',
     CompletionParams
       ((completion_model (0.3 / 1000000) (2.5 / 1000000) 1048576 65536)
        \<lparr>max_temperature := 2, cached_input_token_read_cost := 0.03 / 1000000,
          supports_reasoning := True, supports_disabled_reasoning := False,
          supported_thinking_levels := Some GEMINI_3X_FLASH_THINKING_LEVELS,
          supports_custom_temperature := False, supports_pdf_parsing := True,
          supports_media_resolution := True\<rparr>),
     [])"

definition gemini_3_5_flash_vertex :: CatalogEntry where
  "gemini_3_5_flash_vertex = (GOOGLE_VERTEX, ''gemini-3.5-flash'',
     CompletionParams
       ((completion_model (1.5 / 1000000) (9 / 1000000) 1048576 65536)
        \<lparr>max_temperature := 2, cached_input_token_read_cost := 0.15 / 1000000,
          supports_reasoning := True, supports_disabled_reasoning := False,
          supported_thinking_levels := Some GEMINI_3X_FLASH_THINKING_LEVELS,
          supports_pdf_parsing := True, supports_media_resolution := True\<rparr>),
     [])"

definition gemini_3_1_pro_preview_vertex :: CatalogEntry where
  "gemini_3_1_pro_preview_vertex = (GOOGLE_VERTEX, ''gemini-3.1-pro-preview'',
     CompletionParams
       ((completion_model (2 / 1000000) (12 / 1000000) 1048576 65536)
        \<lparr>max_temperature := 2, cached_input_token_read_cost := 0.2 / 1000000,
          tiered_input_token_costs := Some [(200000, tiered_token_cost (4 / 1000000) (0.4 / 1000000) (18 / 1000000))],
          supports_reasoning := True, supports_disabled_reasoning := False,
          supported_thinking_levels := Some GEMINI_3X_PRO_THINKING_LEVELS,
          supports_pdf_parsing := True, supports_media_resolution := True\<rparr>),
     [''gemini-3.1-pro-preview-customtools''])"

definition gemini_3_1_flash_lite_vertex :: CatalogEntry where
  "gemini_3_1_flash_lite_vertex = (GOOGLE_VERTEX, ''gemini-3.1-flash-lite'',
     CompletionParams
       ((completion_model (0.25 / 1000000) (1.5 / 1000000) 1048576 65536)
        \<lparr>max_temperature := 2, cached_input_token_read_cost := 0.025 / 1000000,
          supports_reasoning := True, supports_disabled_reasoning := False,
          supported_thinking_levels := Some GEMINI_3X_FLASH_THINKING_LEVELS,
          supports_pdf_parsing := True, supports_media_resolution := True\<rparr>),
     [])"

definition gemini_3_flash_preview_vertex :: CatalogEntry where
  "gemini_3_flash_preview_vertex = (GOOGLE_VERTEX, ''gemini-3-flash-preview'',
     CompletionParams
       ((completion_model (0.5 / 1000000) (3 / 1000000) 1048576 65536)
        \<lparr>max_temperature := 2, cached_input_token_read_cost := 0.05 / 1000000,
          supports_reasoning := True, supports_disabled_reasoning := False,
          supported_thinking_levels := Some GEMINI_3X_FLASH_THINKING_LEVELS,
          supports_pdf_parsing := True, supports_media_resolution := True\<rparr>),
     [])"

definition gemini_2_5_pro_vertex :: CatalogEntry where
  "gemini_2_5_pro_vertex = (GOOGLE_VERTEX, ''gemini-2.5-pro'',
     CompletionParams
       ((completion_model (1.25 / 1000000) (10 / 1000000) 1048576 65536)
        \<lparr>max_temperature := 2, cached_input_token_read_cost := 0.03125 / 1000000,
          tiered_input_token_costs := Some [(200000, tiered_token_cost (2.5 / 1000000) (0.0625 / 1000000) (15 / 1000000))],
          supports_reasoning := True, supports_disabled_reasoning := False,
          supports_pdf_parsing := True\<rparr>),
     [])"

definition gemini_2_5_flash_vertex :: CatalogEntry where
  "gemini_2_5_flash_vertex = (GOOGLE_VERTEX, ''gemini-2.5-flash'',
     CompletionParams
       ((completion_model (0.3 / 1000000) (2.5 / 1000000) 1048576 65536)
        \<lparr>max_temperature := 2, cached_input_token_read_cost := 0.075 / 1000000,
          supports_reasoning := True, supports_pdf_parsing := True\<rparr>),
     [])"

definition gemini_2_5_flash_lite_vertex :: CatalogEntry where
  "gemini_2_5_flash_lite_vertex = (GOOGLE_VERTEX, ''gemini-2.5-flash-lite'',
     CompletionParams
       ((completion_model (0.1 / 1000000) (0.4 / 1000000) 1000000 64000)
        \<lparr>max_temperature := 2, supports_reasoning := True, supports_pdf_parsing := True\<rparr>),
     [])"

definition gemini_embedding_2_vertex :: CatalogEntry where
  "gemini_embedding_2_vertex = (GOOGLE_VERTEX, ''gemini-embedding-2'',
     EmbeddingParams (0.2 / 1000000) (DimensionOptions [128, 256, 512, 768, 1536, 3072]) 8192 (Some 3072),
     [])"

definition gemini_embedding_2_preview_vertex :: CatalogEntry where
  "gemini_embedding_2_preview_vertex = (GOOGLE_VERTEX, ''gemini-embedding-2-preview'',
     EmbeddingParams (0.2 / 1000000) (DimensionOptions [768, 1536, 3072]) 8192 (Some 3072),
     [])"

definition gemini_embedding_001_vertex :: CatalogEntry where
  "gemini_embedding_001_vertex = (GOOGLE_VERTEX, ''gemini-embedding-001'',
     EmbeddingParams (0.00015 / 1000) (DimensionOptions [768, 1536, 3072]) 2048 (Some 3072),
     [])"

definition text_embedding_005_vertex :: CatalogEntry where
  "text_embedding_005_vertex = (GOOGLE_VERTEX, ''text-embedding-005'',
     EmbeddingParams (0.000025 / 250) (DimensionOptions [256, 512, 768]) 2048 (Some 768),
     [])"

definition text_multilingual_embedding_002_vertex :: CatalogEntry where
  "text_multilingual_embedding_002_vertex = (GOOGLE_VERTEX, ''text-multilingual-embedding-002'',
     EmbeddingParams (0.000025 / 250) (DimensionOptions [256, 512, 768]) 2048 None,
     [])"

definition gemini_3_7_flash :: CatalogEntry where
  "gemini_3_7_flash = (GOOGLE_DEVELOPER, ''gemini-3.7-flash'',
     CompletionParams
       ((completion_model (0.75 / 1000000) (3.75 / 1000000) 1048576 65536)
        \<lparr>max_temperature := 2, cached_input_token_read_cost := 0.075 / 1000000,
          supports_reasoning := True, supports_disabled_reasoning := False,
          supported_thinking_levels := Some GEMINI_3_7_FLASH_THINKING_LEVELS,
          supports_custom_temperature := False, supports_pdf_parsing := True,
          supports_media_resolution := True\<rparr>),
     [])"

definition gemini_3_6_flash :: CatalogEntry where
  "gemini_3_6_flash = (GOOGLE_DEVELOPER, ''gemini-3.6-flash'',
     CompletionParams
       ((completion_model (1.5 / 1000000) (7.5 / 1000000) 1048576 65536)
        \<lparr>max_temperature := 2, cached_input_token_read_cost := 0.15 / 1000000,
          supports_reasoning := True, supports_disabled_reasoning := False,
          supported_thinking_levels := Some GEMINI_3X_FLASH_THINKING_LEVELS,
          supports_custom_temperature := False, supports_pdf_parsing := True,
          supports_media_resolution := True\<rparr>),
     [])"

definition gemini_3_5_flash_lite :: CatalogEntry where
  "gemini_3_5_flash_lite = (GOOGLE_DEVELOPER, ''gemini-3.5-flash-lite'',
     CompletionParams
       ((completion_model (0.3 / 1000000) (2.5 / 1000000) 1048576 65536)
        \<lparr>max_temperature := 2, cached_input_token_read_cost := 0.03 / 1000000,
          supports_reasoning := True, supports_disabled_reasoning := False,
          supported_thinking_levels := Some GEMINI_3X_FLASH_THINKING_LEVELS,
          supports_custom_temperature := False, supports_pdf_parsing := True,
          supports_media_resolution := True\<rparr>),
     [])"

definition gemini_3_5_flash :: CatalogEntry where
  "gemini_3_5_flash = (GOOGLE_DEVELOPER, ''gemini-3.5-flash'',
     CompletionParams
       ((completion_model (1.5 / 1000000) (9 / 1000000) 1048576 65536)
        \<lparr>max_temperature := 2, cached_input_token_read_cost := 0.15 / 1000000,
          supports_reasoning := True, supports_disabled_reasoning := False,
          supported_thinking_levels := Some GEMINI_3X_FLASH_THINKING_LEVELS,
          supports_pdf_parsing := True, supports_media_resolution := True\<rparr>),
     [])"

definition gemini_3_1_pro_preview :: CatalogEntry where
  "gemini_3_1_pro_preview = (GOOGLE_DEVELOPER, ''gemini-3.1-pro-preview'',
     CompletionParams
       ((completion_model (2 / 1000000) (12 / 1000000) 1048576 65536)
        \<lparr>max_temperature := 2, cached_input_token_read_cost := 0.2 / 1000000,
          tiered_input_token_costs := Some [(200000, tiered_token_cost (4 / 1000000) (0.4 / 1000000) (18 / 1000000))],
          supports_reasoning := True, supports_disabled_reasoning := False,
          supported_thinking_levels := Some GEMINI_3X_PRO_THINKING_LEVELS,
          supports_pdf_parsing := True, supports_media_resolution := True\<rparr>),
     [''gemini-3.1-pro-preview-customtools''])"

definition gemini_3_1_flash_lite :: CatalogEntry where
  "gemini_3_1_flash_lite = (GOOGLE_DEVELOPER, ''gemini-3.1-flash-lite'',
     CompletionParams
       ((completion_model (0.25 / 1000000) (1.5 / 1000000) 1048576 65536)
        \<lparr>max_temperature := 2, cached_input_token_read_cost := 0.025 / 1000000,
          supports_reasoning := True, supports_disabled_reasoning := False,
          supported_thinking_levels := Some GEMINI_3X_FLASH_THINKING_LEVELS,
          supports_pdf_parsing := True, supports_media_resolution := True\<rparr>),
     [])"

definition gemini_3_flash_preview :: CatalogEntry where
  "gemini_3_flash_preview = (GOOGLE_DEVELOPER, ''gemini-3-flash-preview'',
     CompletionParams
       ((completion_model (0.5 / 1000000) (3 / 1000000) 1048576 65536)
        \<lparr>max_temperature := 2, cached_input_token_read_cost := 0.05 / 1000000,
          supports_reasoning := True, supports_disabled_reasoning := False,
          supported_thinking_levels := Some GEMINI_3X_FLASH_THINKING_LEVELS,
          supports_pdf_parsing := True, supports_media_resolution := True\<rparr>),
     [])"

definition gemini_2_5_pro :: CatalogEntry where
  "gemini_2_5_pro = (GOOGLE_DEVELOPER, ''gemini-2.5-pro'',
     CompletionParams
       ((completion_model (1.25 / 1000000) (10 / 1000000) 1048576 65536)
        \<lparr>max_temperature := 2, cached_input_token_read_cost := 0.03125 / 1000000,
          tiered_input_token_costs := Some [(200000, tiered_token_cost (2.5 / 1000000) (0.0625 / 1000000) (15 / 1000000))],
          supports_reasoning := True, supports_disabled_reasoning := False,
          supports_pdf_parsing := True\<rparr>),
     [])"

definition gemini_2_5_flash :: CatalogEntry where
  "gemini_2_5_flash = (GOOGLE_DEVELOPER, ''gemini-2.5-flash'',
     CompletionParams
       ((completion_model (0.15 / 1000000) (2.5 / 1000000) 1048576 65536)
        \<lparr>max_temperature := 2, cached_input_token_read_cost := 0.075 / 1000000,
          supports_reasoning := True, supports_pdf_parsing := True\<rparr>),
     [])"

definition gemini_2_5_flash_lite :: CatalogEntry where
  "gemini_2_5_flash_lite = (GOOGLE_DEVELOPER, ''gemini-2.5-flash-lite'',
     CompletionParams
       ((completion_model (0.1 / 1000000) (0.4 / 1000000) 1000000 64000)
        \<lparr>max_temperature := 2, supports_reasoning := True, supports_pdf_parsing := True\<rparr>),
     [])"

definition gemini_embedding_2 :: CatalogEntry where
  "gemini_embedding_2 = (GOOGLE_DEVELOPER, ''gemini-embedding-2'',
     EmbeddingParams (0.2 / 1000000) (DimensionOptions [128, 256, 512, 768, 1536, 3072]) 8192 (Some 3072),
     [])"

definition gemini_embedding_2_preview :: CatalogEntry where
  "gemini_embedding_2_preview = (GOOGLE_DEVELOPER, ''gemini-embedding-2-preview'',
     EmbeddingParams (0.2 / 1000000) (DimensionOptions [768, 1536, 3072]) 8192 (Some 3072),
     [])"

definition gemini_embedding_001 :: CatalogEntry where
  "gemini_embedding_001 = (GOOGLE_DEVELOPER, ''gemini-embedding-001'',
     EmbeddingParams (0.15 / 1000000) (DimensionOptions [768, 1536, 3072]) 2048 (Some 3072),
     [])"

definition embed_v4_0 :: CatalogEntry where
  "embed_v4_0 = (COHERE, ''embed-v4.0'',
     EmbeddingParams (0.12 / 1000000) (DimensionOptions [256, 512, 1024, 1536]) 128000 (Some 1536),
     [])"

definition embed_english_v3_0 :: CatalogEntry where
  "embed_english_v3_0 = (COHERE, ''embed-english-v3.0'',
     EmbeddingParams (0.1 / 1000000) (FixedDimensions 1024) 512 None,
     [])"

definition embed_english_light_v3_0 :: CatalogEntry where
  "embed_english_light_v3_0 = (COHERE, ''embed-english-light-v3.0'',
     EmbeddingParams (0.1 / 1000000) (FixedDimensions 384) 512 None,
     [])"

definition embed_multilingual_v3_0 :: CatalogEntry where
  "embed_multilingual_v3_0 = (COHERE, ''embed-multilingual-v3.0'',
     EmbeddingParams (0.1 / 1000000) (FixedDimensions 1024) 512 None,
     [])"

definition embed_multilingual_light_v3_0 :: CatalogEntry where
  "embed_multilingual_light_v3_0 = (COHERE, ''embed-multilingual-light-v3.0'',
     EmbeddingParams (0.1 / 1000000) (FixedDimensions 384) 512 None,
     [])"

definition anthropic_models :: "CatalogEntry list" where
  "anthropic_models =
    [claude_opus_5, claude_fable_5, claude_sonnet_5, claude_opus_4_8, claude_opus_4_7,
     claude_opus_4_6, claude_sonnet_4_6, claude_opus_4_5, claude_haiku_4_5, claude_sonnet_4_5]"

definition openai_models :: "CatalogEntry list" where
  "openai_models =
    [gpt_5_6_sol, gpt_5_6_terra, gpt_5_6_luna, gpt_4, gpt_4_turbo, gpt_4o_mini, gpt_4o,
     gpt_4_1_nano, gpt_4_1_mini, gpt_4_1, o1, o3, o3_mini, o4_mini, gpt_5, gpt_5_mini, gpt_5_nano,
     gpt_5_1, gpt_5_2, gpt_5_5, gpt_5_4, gpt_5_4_mini, gpt_5_4_nano, text_embedding_3_small,
     text_embedding_3_large]"

definition google_vertex_models :: "CatalogEntry list" where
  "google_vertex_models =
    [gemini_3_7_flash_vertex, gemini_3_6_flash_vertex, gemini_3_5_flash_lite_vertex,
     gemini_3_5_flash_vertex, gemini_3_1_pro_preview_vertex, gemini_3_1_flash_lite_vertex,
     gemini_3_flash_preview_vertex, gemini_2_5_pro_vertex, gemini_2_5_flash_vertex,
     gemini_2_5_flash_lite_vertex, gemini_embedding_2_vertex, gemini_embedding_2_preview_vertex,
     gemini_embedding_001_vertex, text_embedding_005_vertex, text_multilingual_embedding_002_vertex]"

definition google_gla_models :: "CatalogEntry list" where
  "google_gla_models =
    [gemini_3_7_flash, gemini_3_6_flash, gemini_3_5_flash_lite, gemini_3_5_flash,
     gemini_3_1_pro_preview, gemini_3_1_flash_lite, gemini_3_flash_preview, gemini_2_5_pro,
     gemini_2_5_flash, gemini_2_5_flash_lite, gemini_embedding_2, gemini_embedding_2_preview,
     gemini_embedding_001]"

definition cohere_models :: "CatalogEntry list" where
  "cohere_models =
    [embed_v4_0, embed_english_v3_0, embed_english_light_v3_0, embed_multilingual_v3_0,
     embed_multilingual_light_v3_0]"

lemmas entry_defs =
  claude_opus_5_def claude_fable_5_def claude_sonnet_5_def claude_opus_4_8_def
  claude_opus_4_7_def claude_opus_4_6_def claude_sonnet_4_6_def claude_opus_4_5_def
  claude_haiku_4_5_def claude_sonnet_4_5_def gpt_5_6_sol_def gpt_5_6_terra_def
  gpt_5_6_luna_def gpt_4_def gpt_4_turbo_def gpt_4o_mini_def gpt_4o_def gpt_4_1_nano_def
  gpt_4_1_mini_def gpt_4_1_def o1_def o3_def o3_mini_def o4_mini_def gpt_5_def
  gpt_5_mini_def gpt_5_nano_def gpt_5_1_def gpt_5_2_def gpt_5_5_def gpt_5_4_def
  gpt_5_4_mini_def gpt_5_4_nano_def text_embedding_3_small_def text_embedding_3_large_def
  gemini_3_7_flash_vertex_def gemini_3_6_flash_vertex_def gemini_3_5_flash_lite_vertex_def
  gemini_3_5_flash_vertex_def gemini_3_1_pro_preview_vertex_def
  gemini_3_1_flash_lite_vertex_def gemini_3_flash_preview_vertex_def gemini_2_5_pro_vertex_def
  gemini_2_5_flash_vertex_def gemini_2_5_flash_lite_vertex_def gemini_embedding_2_vertex_def
  gemini_embedding_2_preview_vertex_def gemini_embedding_001_vertex_def
  text_embedding_005_vertex_def text_multilingual_embedding_002_vertex_def
  gemini_3_7_flash_def gemini_3_6_flash_def gemini_3_5_flash_lite_def gemini_3_5_flash_def
  gemini_3_1_pro_preview_def gemini_3_1_flash_lite_def gemini_3_flash_preview_def
  gemini_2_5_pro_def gemini_2_5_flash_def gemini_2_5_flash_lite_def gemini_embedding_2_def
  gemini_embedding_2_preview_def gemini_embedding_001_def embed_v4_0_def
  embed_english_v3_0_def embed_english_light_v3_0_def embed_multilingual_v3_0_def
  embed_multilingual_light_v3_0_def

definition catalog_entries :: "CatalogEntry list" where
  "catalog_entries =
     anthropic_models @ openai_models @ google_gla_models @ google_vertex_models @ cohere_models"

definition initialized :: "exn option \<times> ModelCatalog" where
  "initialized = initialize_entries catalog_entries empty_catalog"

definition model_catalog :: ModelCatalog where
  "model_catalog = snd initialized"

section \<open>Names of the annotations\<close>

definition OpenAILanguageModelName :: "string list" where
  "OpenAILanguageModelName =
    [''gpt-5.6-sol'', ''gpt-5.6-terra'', ''gpt-5.6-luna'', ''gpt-5.5'', ''gpt-5.5-2026-04-23'',
     ''gpt-5.4'', ''gpt-5.4-2026-03-05'', ''gpt-5.4-mini'', ''gpt-5.4-mini-2026-03-17'',
     ''gpt-5.4-nano'', ''gpt-5.4-nano-2026-03-17'', ''gpt-5.2'', ''gpt-5.1'',
     ''gpt-5.1-2025-11-13'', ''gpt-5'', ''gpt-5-2025-08-07'', ''gpt-5-mini'',
     ''gpt-5-mini-2025-08-07'', ''gpt-5-nano'', ''gpt-5-nano-2025-08-07'', ''gpt-4.1'',
     ''gpt-4.1-mini'', ''gpt-4.1-nano'', ''gpt-4.1-2025-04-14'', ''gpt-4.1-mini-2025-04-14'',
     ''gpt-4.1-nano-2025-04-14'', ''gpt-4o'', ''gpt-4o-2024-11-20'', ''gpt-4o-2024-08-06'',
     ''gpt-4o-2024-05-13'', ''gpt-4o-mini'', ''gpt-4o-mini-2024-07-18'', ''gpt-4-turbo'',
     ''gpt-4-turbo-2024-04-09'', ''gpt-4'', ''gpt-4-0613'', ''o1'', ''o3'', ''o3-mini'',
     ''o4-mini'']"

definition OpenAIEmbeddingModelName :: "string list" where
  "OpenAIEmbeddingModelName =
    [''text-embedding-3-small'', ''text-embedding-3-large'']"

definition GoogleVertexEmbeddingModelName :: "string list" where
  "GoogleVertexEmbeddingModelName =
    [''gemini-embedding-2'', ''gemini-embedding-2-preview'', ''gemini-embedding-001'',
     ''text-multilingual-embedding-002'', ''text-embedding-005'']"

definition GoogleDeveloperEmbeddingModelName :: "string list" where
  "GoogleDeveloperEmbeddingModelName =
    [''gemini-embedding-2'', ''gemini-embedding-2-preview'', ''gemini-embedding-001'']"

definition AnthropicLanguageModelName :: "string list" where
  "AnthropicLanguageModelName =
    [''claude-fable-5'', ''claude-sonnet-5'', ''claude-opus-5'', ''claude-opus-4-8'',
     ''claude-opus-4-7'', ''claude-opus-4-6'', ''claude-sonnet-4-6'', ''claude-opus-4-5'',
     ''claude-opus-4-5-20251101'', ''claude-sonnet-4-5'', ''claude-sonnet-4-5-20250929'',
     ''claude-haiku-4-5'', ''claude-haiku-4-5-20251001'']"

definition CohereEmbeddingModelName :: "string list" where
  "CohereEmbeddingModelName =
    [''embed-v4.0'', ''embed-english-v3.0'', ''embed-english-light-v3.0'',
     ''embed-multilingual-v3.0'', ''embed-multilingual-light-v3.0'']"

definition GoogleDeveloperLanguageModelName :: "string list" where
  "GoogleDeveloperLanguageModelName =
    [''gemini-3.7-flash'', ''gemini-3.6-flash'', ''gemini-3.5-flash-lite'', ''gemini-3.5-flash'',
     ''gemini-3.1-pro-preview'', ''gemini-3.1-pro-preview-customtools'', ''gemini-3.1-flash-lite'',
     ''gemini-3-flash-preview'', ''gemini-2.5-pro'', ''gemini-2.5-flash'',
     ''gemini-2.5-flash-lite'']"

definition annotated_completions :: "ModelProvider \<Rightarrow> string list" where
  "annotated_completions p =
     (case p of
        OPENAI \<Rightarrow> OpenAILanguageModelName
      | ANTHROPIC \<Rightarrow> AnthropicLanguageModelName
      | GOOGLE_DEVELOPER \<Rightarrow> GoogleDeveloperLanguageModelName
      | GOOGLE_VERTEX \<Rightarrow> GoogleDeveloperLanguageModelName
      | _ \<Rightarrow> [])"

definition annotated_embeddings :: "ModelProvider \<Rightarrow> string list" where
  "annotated_embeddings p =
     (case p of
        OPENAI \<Rightarrow> OpenAIEmbeddingModelName
      | GOOGLE_DEVELOPER \<Rightarrow> GoogleDeveloperEmbeddingModelName
      | GOOGLE_VERTEX \<Rightarrow> GoogleVertexEmbeddingModelName
      | COHERE \<Rightarrow> CohereEmbeddingModelName
      | _ \<Rightarrow> [])"

section \<open>Facts of the table\<close>

lemmas list_defs = anthropic_models_def openai_models_def google_gla_models_def
  google_vertex_models_def cohere_models_def

text \<open>Names only: the parameters are not unfolded.\<close>

fun completion_names :: "ModelProvider \<Rightarrow> CatalogEntry list \<Rightarrow> string list" where
  "completion_names p [] = []"
| "completion_names p ((q, n, r, s) # es) =
     (case r of Inr (Completion m) \<Rightarrow> if q = p then n # s else [] | _ \<Rightarrow> []) @ completion_names p es"

fun embedding_names :: "ModelProvider \<Rightarrow> CatalogEntry list \<Rightarrow> string list" where
  "embedding_names p [] = []"
| "embedding_names p ((q, n, r, s) # es) =
     (case r of Inr (Embedding m) \<Rightarrow> if q = p then n # s else [] | _ \<Rightarrow> []) @ embedding_names p es"

lemma map_fst_completion_rows: "map fst (completion_rows p es) = completion_names p es"
  by (induction p es rule: completion_rows.induct) (auto split: sum.splits ModelParameters.splits simp: comp_def)

lemma map_fst_embedding_rows: "map fst (embedding_rows p es) = embedding_names p es"
  by (induction p es rule: embedding_rows.induct) (auto split: sum.splits ModelParameters.splits simp: comp_def)

lemma completion_names_append [simp]:
  "completion_names p (es @ fs) = completion_names p es @ completion_names p fs"
  by (induction p es rule: completion_names.induct) auto

lemma embedding_names_append [simp]:
  "embedding_names p (es @ fs) = embedding_names p es @ embedding_names p fs"
  by (induction p es rule: embedding_names.induct) auto

lemma case_CompletionParams [simp]: "case_sum f g (CompletionParams m) = g (Completion m)"
  by (simp add: CompletionParams_def)

lemma EmbeddingParams_simps [simp]:
  "EmbeddingParams c (FixedDimensions n) k d =
     Inr (Embedding \<lparr>default_dimensions = (if truthy_int d then the d else n), embedding_token_cost = c,
       output_dimensions = FixedDimensions n, max_input_size = k\<rparr>)"
  "EmbeddingParams c (DimensionOptions ns) k None =
     (if ns = [] then Inl PyIndexError else
      Inr (Embedding \<lparr>default_dimensions = last ns, embedding_token_cost = c,
        output_dimensions = DimensionOptions ns, max_input_size = k\<rparr>))"
  "EmbeddingParams c (DimensionOptions ns) k (Some x) =
     (if x = 0 then EmbeddingParams c (DimensionOptions ns) k None
      else if x \<notin> set ns then Inl InternalError
      else Inr (Embedding \<lparr>default_dimensions = x, embedding_token_cost = c,
        output_dimensions = DimensionOptions ns, max_input_size = k\<rparr>))"
  by (simp_all add: EmbeddingParams_def embedding_model_def)

lemma entry_ok_simps [simp]:
  "entry_ok (q, n, CompletionParams m, s)" "entry_ok (q, n, Inr p, s)"
  by (simp_all add: entry_ok_def CompletionParams_def)

lemma catalog_entries_ok: "list_all entry_ok catalog_entries"
  by (simp add: catalog_entries_def list_defs entry_defs)

lemmas name_defs = OpenAILanguageModelName_def OpenAIEmbeddingModelName_def
  GoogleVertexEmbeddingModelName_def GoogleDeveloperEmbeddingModelName_def
  AnthropicLanguageModelName_def CohereEmbeddingModelName_def GoogleDeveloperLanguageModelName_def

lemma completion_names_distinct: "distinct (completion_names p catalog_entries)"
  by (cases p) (simp_all add: catalog_entries_def list_defs entry_defs)

lemma embedding_names_distinct: "distinct (embedding_names p catalog_entries)"
  by (cases p) (simp_all add: catalog_entries_def list_defs entry_defs)

lemma subset_by_list: "list_all (\<lambda>x. x \<in> set ys) xs \<Longrightarrow> set xs \<subseteq> set ys"
  by (auto simp: list_all_iff)

lemma completion_names_annotated:
  "set (completion_names p catalog_entries) = set (annotated_completions p)"
proof
  show "set (completion_names p catalog_entries) \<subseteq> set (annotated_completions p)"
    by (rule subset_by_list, cases p)
      (simp_all add: catalog_entries_def list_defs entry_defs annotated_completions_def name_defs)
  show "set (annotated_completions p) \<subseteq> set (completion_names p catalog_entries)"
    by (rule subset_by_list, cases p)
      (simp_all add: catalog_entries_def list_defs entry_defs annotated_completions_def name_defs)
qed

lemma embedding_names_annotated:
  "set (embedding_names p catalog_entries) = set (annotated_embeddings p)"
proof
  show "set (embedding_names p catalog_entries) \<subseteq> set (annotated_embeddings p)"
    by (rule subset_by_list, cases p)
      (simp_all add: catalog_entries_def list_defs entry_defs annotated_embeddings_def name_defs)
  show "set (annotated_embeddings p) \<subseteq> set (embedding_names p catalog_entries)"
    by (rule subset_by_list, cases p)
      (simp_all add: catalog_entries_def list_defs entry_defs annotated_embeddings_def name_defs)
qed

lemma initialized_eq:
  "fst initialized = None"
  "completion_models (provider_model_collections model_catalog p) = completion_rows p catalog_entries"
  "provider_embedding_models (provider_model_collections model_catalog p) = embedding_rows p catalog_entries"
  "dynamic_loaded model_catalog = []"
proof -
  have "\<exists>cat'. initialize_entries catalog_entries empty_catalog = (None, cat') \<and>
     (\<forall>p. completion_models (provider_model_collections cat' p) =
            completion_models (provider_model_collections empty_catalog p) @ completion_rows p catalog_entries \<and>
          provider_embedding_models (provider_model_collections cat' p) =
            provider_embedding_models (provider_model_collections empty_catalog p) @ embedding_rows p catalog_entries) \<and>
     dynamic_loaded cat' = dynamic_loaded empty_catalog"
    using completion_names_distinct embedding_names_distinct
    by (intro initialize_entries_ok catalog_entries_ok)
      (simp_all add: empty_catalog_def map_fst_completion_rows map_fst_embedding_rows)
  then show "fst initialized = None"
    "completion_models (provider_model_collections model_catalog p) = completion_rows p catalog_entries"
    "provider_embedding_models (provider_model_collections model_catalog p) = embedding_rows p catalog_entries"
    "dynamic_loaded model_catalog = []"
    by (auto simp: model_catalog_def initialized_def empty_catalog_def)
qed

text \<open>What holds of the parameters of every completion model.\<close>

definition limits_sane :: "CatalogParameters \<Rightarrow> bool" where
  "limits_sane m \<longleftrightarrow>
     0 < max_output_tokens m \<and> max_output_tokens m \<le> context_window_length m \<and>
     0 < max_temperature m"

definition efforts_known :: "CatalogParameters \<Rightarrow> bool" where
  "efforts_known m \<longleftrightarrow>
     known OPENAI_REASONING_TOKEN_ESTIMATES (default_reasoning_effort m) \<and>
     (case supported_reasoning_efforts m of
        None \<Rightarrow> True
      | Some es \<Rightarrow> list_all (\<lambda>e. e \<in> fst ` set ANTHROPIC_ADAPTIVE_THINKING_EFFORT_RATIOS) es) \<and>
     (case supported_thinking_levels m of
        None \<Rightarrow> True
      | Some ls \<Rightarrow> ''low'' \<in> set ls \<and>
          list_all (\<lambda>l. l \<in> fst ` set GOOGLE_THINKING_LEVEL_TOKEN_ESTIMATES) ls)"

definition flags_consistent :: "CatalogParameters \<Rightarrow> bool" where
  "flags_consistent m \<longleftrightarrow>
     (requires_adaptive_thinking m \<longrightarrow> uses_adaptive_thinking m) \<and>
     (uses_adaptive_thinking m \<longrightarrow> supported_reasoning_efforts m \<noteq> None)"

definition entry_sane :: "CatalogEntry \<Rightarrow> bool" where
  "entry_sane e \<longleftrightarrow>
     (case e of (q, n, r, s) \<Rightarrow>
        (case r of
           Inr (Completion m) \<Rightarrow> costs_ordered m \<and> limits_sane m \<and> efforts_known m \<and> flags_consistent m
         | Inr (Embedding d) \<Rightarrow>
             0 \<le> embedding_token_cost d \<and> default_dimensions d \<in> set (get_possible_dimensions d) \<and>
             0 < default_dimensions d \<and> 0 < max_input_size d
         | Inl _ \<Rightarrow> False))"

lemmas sane_defs = entry_sane_def costs_ordered_def tier_above_base_def limits_sane_def efforts_known_def
  flags_consistent_def completion_model_def tiered_token_cost_def known_def get_possible_dimensions_def
  GEMINI_3X_PRO_THINKING_LEVELS_def GEMINI_3X_FLASH_THINKING_LEVELS_def
  GEMINI_3_7_FLASH_THINKING_LEVELS_def ANTHROPIC_OPUS_4_7_PLUS_EFFORTS_def ANTHROPIC_4_6_EFFORTS_def
  ANTHROPIC_OPUS_4_5_EFFORTS_def OPENAI_REASONING_TOKEN_ESTIMATES_def
  ANTHROPIC_ADAPTIVE_THINKING_EFFORT_RATIOS_def GOOGLE_THINKING_LEVEL_TOKEN_ESTIMATES_def

lemma anthropic_sane: "list_all entry_sane anthropic_models"
  by (simp add: anthropic_models_def entry_defs sane_defs)

lemma openai_sane: "list_all entry_sane openai_models"
  by (simp add: openai_models_def entry_defs sane_defs)

lemma google_gla_sane: "list_all entry_sane google_gla_models"
  by (simp add: google_gla_models_def entry_defs sane_defs)

lemma google_vertex_sane: "list_all entry_sane google_vertex_models"
  by (simp add: google_vertex_models_def entry_defs sane_defs)

lemma cohere_sane: "list_all entry_sane cohere_models"
  by (simp add: cohere_models_def entry_defs sane_defs)

lemma entries_sane: "list_all entry_sane catalog_entries"
  by (simp add: catalog_entries_def anthropic_sane openai_sane google_gla_sane google_vertex_sane cohere_sane)

lemma completion_rows_sane:
  "list_all entry_sane es \<Longrightarrow> (n, m) \<in> set (completion_rows p es) \<Longrightarrow>
   costs_ordered m \<and> limits_sane m \<and> efforts_known m \<and> flags_consistent m"
  by (induction p es rule: completion_rows.induct)
    (auto simp: entry_sane_def split: sum.splits ModelParameters.splits if_splits)

lemma embedding_rows_sane:
  "list_all entry_sane es \<Longrightarrow> (n, d) \<in> set (embedding_rows p es) \<Longrightarrow>
   0 \<le> embedding_token_cost d \<and> default_dimensions d \<in> set (get_possible_dimensions d) \<and>
   0 < default_dimensions d"
  by (induction p es rule: embedding_rows.induct)
    (auto simp: entry_sane_def split: sum.splits ModelParameters.splits if_splits)

section \<open>Properties\<close>

text \<open>The loaders of the program: only OpenRouter has one.\<close>

abbreviation openrouter_loaders ::
  "('a ModelCatalog_scheme \<Rightarrow> exn option \<times> 'a ModelCatalog_scheme) \<Rightarrow> 'a loaders" where
  "openrouter_loaders loader \<equiv> register_dynamic_provider (\<lambda>_. None) OPENROUTER loader"

lemma static_lookup:
  assumes "p \<noteq> OPENROUTER"
  shows "get_completion_model_parameters (openrouter_loaders loader) model_catalog p n =
     (map_of (completion_rows p catalog_entries) n, model_catalog)"
  using assms
  by (simp add: get_completion_model_parameters_def register_dynamic_provider_def
      get_supported_completions_no_loader initialized_eq)

lemma lookup_rows:
  "map_of (completion_rows p es) n \<noteq> None \<longleftrightarrow> n \<in> set (completion_names p es)"
  "map_of (embedding_rows p es) n \<noteq> None \<longleftrightarrow> n \<in> set (embedding_names p es)"
  by (simp_all add: map_of_eq_None_iff map_fst_completion_rows [symmetric] map_fst_embedding_rows [symmetric])

text \<open>The catalog is built without an error and, for every provider with fixed models, a lookup
  finds parameters for exactly the names that the annotations of the configuration classes allow, for
  completions and for embeddings alike; it never calls the loader of a dynamic provider.\<close>

theorem catalog_serves_annotated:
  assumes "p \<noteq> OPENROUTER"
  shows "fst initialized = None \<and>
    (\<exists>r. get_completion_model_parameters (openrouter_loaders loader) model_catalog p n = (r, model_catalog) \<and>
       (r \<noteq> None \<longleftrightarrow> n \<in> set (annotated_completions p))) \<and>
    (get_embedding_model_parameters model_catalog p n \<noteq> None \<longleftrightarrow> n \<in> set (annotated_embeddings p))"
  using static_lookup [OF assms, of loader n] lookup_rows [of p catalog_entries n]
    completion_names_annotated [of p] embedding_names_annotated [of p]
  by (simp add: initialized_eq get_embedding_model_parameters_def get_supported_embeddings_def)

theorem catalog_serves_annotated_witness:
  "fst (get_completion_model_parameters (openrouter_loaders (\<lambda>cat. (Some PyRuntimeError, cat))) model_catalog
     OPENAI ''gpt-4o-2024-05-13'') \<noteq> None \<and>
   get_embedding_model_parameters model_catalog COHERE ''embed-v5'' = None"
  using catalog_serves_annotated [of OPENAI "\<lambda>cat. (Some PyRuntimeError, cat)" "''gpt-4o-2024-05-13''"]
    catalog_serves_annotated [of COHERE "\<lambda>cat. (Some PyRuntimeError, cat)" "''embed-v5''"]
  by (auto simp: annotated_completions_def annotated_embeddings_def name_defs)



text \<open>Of two tiers the lower one is charged even when the higher one is reached.\<close>

theorem higher_tier_ignored:
  "completion_cost ((completion_model 1 0 1000 100)
     \<lparr>tiered_input_token_costs := Some [(10, tiered_token_cost 2 0 0), (100, tiered_token_cost 3 0 0)]\<rparr>)
     200 0 0 0 = 400"
  by (simp add: completion_cost_def reached_tier_def completion_model_def tiered_token_cost_def)

end
