(* ===== verification/SessionConfig.thy ===== *)
theory SessionConfig
  imports ModelTable ExprTyping
begin

text \<open>
  The session configuration a user writes (\<^verbatim>\<open>src/fenic/api/session/config.py\<close>): the model classes
  with the bounds of their fields, the defaults filled in after construction, the validation of
  language and embedding models against the catalog, and the resolved configuration the session
  runs with (\<^verbatim>\<open>src/fenic/core/_resolved_session_config.py\<close>).  The catalog is an argument: what its
  lookups answer.  pydantic reports a violated bound with a ValidationError of its own, which is a
  ValueError here; texts, descriptions and the coercion of values to the annotated types are not
  modelled.  The lemmas show that a configuration the validation accepts gives a session whose
  parameter checks raise nothing but the documented error.
\<close>

section \<open>Model classes\<close>

text \<open>What all model classes with profiles have in common.\<close>

record 'p Profiled =
  cfg_name :: string
  cfg_profiles :: "(string, 'p) dict option"
  cfg_default :: "string option"

datatype OpenAILanguageProfile =
  OpenAILanguageProfile (ol_effort: "string option") (ol_verbosity: "string option")

datatype AnthropicLanguageProfile =
  AnthropicLanguageProfile (al_budget: "int option") (al_effort: "string option")

datatype GoogleLanguageProfile =
  GoogleLanguageProfile (gl_budget: "int option") (gl_level: "string option")
    (gl_resolution: "string option")

datatype OpenRouterLanguageProfile =
  OpenRouterLanguageProfile (rl_effort: "string option") (rl_max_tokens: "int option")
    (rl_models: "string list option") (rl_provider: "ProviderRouting option")
    (rl_engine: "string option")

datatype GoogleEmbeddingProfile =
  GoogleEmbeddingProfile (ge_dimensionality: "int option") (ge_task_type: string)

datatype CohereEmbeddingProfile =
  CohereEmbeddingProfile (ce_dimensionality: "int option") (ce_input_type: string)

datatype LanguageModel =
    OpenAILanguageModel "OpenAILanguageProfile Profiled" int int "string option"
  | AnthropicLanguageModel "AnthropicLanguageProfile Profiled" int int int "string option"
  | GoogleDeveloperLanguageModel "GoogleLanguageProfile Profiled" int int
  | GoogleVertexLanguageModel "GoogleLanguageProfile Profiled" int int
  | OpenRouterLanguageModel "OpenRouterLanguageProfile Profiled" "string option"

text \<open>The Google classes have a provider field that a user can set.\<close>

datatype EmbeddingModel =
    OpenAIEmbeddingModel string int int "string option"
  | GoogleVertexEmbeddingModel "GoogleEmbeddingProfile Profiled" ModelProvider int int
  | GoogleDeveloperEmbeddingModel "GoogleEmbeddingProfile Profiled" ModelProvider int int
  | CohereEmbeddingModel "CohereEmbeddingProfile Profiled" int int

section \<open>Bounds of fields\<close>

definition ReasoningEffort :: "string list" where
  "ReasoningEffort = [''none'', ''minimal'', ''low'', ''medium'', ''high'', ''xhigh'', ''max'']"

definition OpenRouterReasoningEffort :: "string list" where
  "OpenRouterReasoningEffort = [''none'', ''minimal'', ''low'', ''medium'', ''high'', ''xhigh'', ''max'']"

definition Verbosity :: "string list" where
  "Verbosity = [''low'', ''medium'', ''high'']"

definition ThinkingLevelType :: "string list" where
  "ThinkingLevelType = [''high'', ''medium'', ''low'', ''minimal'']"

definition MediaResolutionType :: "string list" where
  "MediaResolutionType = [''low'', ''medium'', ''high'']"

definition AnthropicReasoningEffortType :: "string list" where
  "AnthropicReasoningEffortType = [''low'', ''medium'', ''high'', ''xhigh'', ''max'']"

definition GoogleEmbeddingTaskType :: "string list" where
  "GoogleEmbeddingTaskType =
     [''SEMANTIC_SIMILARITY'', ''CLASSIFICATION'', ''CLUSTERING'', ''RETRIEVAL_DOCUMENT'',
      ''RETRIEVAL_QUERY'', ''CODE_RETRIEVAL_QUERY'', ''QUESTION_ANSWERING'', ''FACT_VERIFICATION'']"

definition CohereEmbeddingTaskType :: "string list" where
  "CohereEmbeddingTaskType = [''search_document'', ''search_query'', ''classification'', ''clustering'']"

definition ParsingEngine :: "string list" where
  "ParsingEngine = [''mistral-ocr'', ''cloudflare-ai'', ''pdf-text'', ''native'']"

definition ProviderSort :: "string list" where
  "ProviderSort = [''price'', ''throughput'', ''latency'']"

definition DataCollection :: "string list" where
  "DataCollection = [''allow'', ''deny'']"

definition ModelQuantization :: "string list" where
  "ModelQuantization =
     [''int4'', ''int8'', ''fp4'', ''fp6'', ''fp8'', ''fp16'', ''bf16'', ''fp32'', ''unknown'']"

definition StructuredOutputStrategy :: "string list" where
  "StructuredOutputStrategy = [''prefer_tools'', ''prefer_response_format'']"

text \<open>An optional field with a literal type, and an optional field with bounds.\<close>

definition opt_literal :: "string list \<Rightarrow> string option \<Rightarrow> bool" where
  "opt_literal allowed v \<longleftrightarrow> (case v of None \<Rightarrow> True | Some s \<Rightarrow> s \<in> set allowed)"

definition opt_int :: "(int \<Rightarrow> bool) \<Rightarrow> int option \<Rightarrow> bool" where
  "opt_int P v \<longleftrightarrow> (case v of None \<Rightarrow> True | Some n \<Rightarrow> P n)"

definition openai_profile_fields :: "OpenAILanguageProfile \<Rightarrow> bool" where
  "openai_profile_fields p \<longleftrightarrow>
     opt_literal ReasoningEffort (ol_effort p) \<and> opt_literal Verbosity (ol_verbosity p)"

definition anthropic_profile_fields :: "AnthropicLanguageProfile \<Rightarrow> bool" where
  "anthropic_profile_fields p \<longleftrightarrow>
     opt_int (\<lambda>n. 1024 \<le> n) (al_budget p) \<and> opt_literal AnthropicReasoningEffortType (al_effort p)"

definition google_profile_fields :: "GoogleLanguageProfile \<Rightarrow> bool" where
  "google_profile_fields p \<longleftrightarrow>
     opt_int (\<lambda>n. -1 \<le> n \<and> n < 32768) (gl_budget p) \<and> opt_literal ThinkingLevelType (gl_level p) \<and>
     opt_literal MediaResolutionType (gl_resolution p)"

definition provider_fields :: "ProviderRouting \<Rightarrow> bool" where
  "provider_fields r \<longleftrightarrow>
     opt_literal ProviderSort (pr_sort r) \<and> opt_literal DataCollection (pr_data_collection r) \<and>
     (case pr_quantizations r of
        None \<Rightarrow> True | Some qs \<Rightarrow> list_all (\<lambda>q. q \<in> set ModelQuantization) qs)"

definition openrouter_profile_fields :: "OpenRouterLanguageProfile \<Rightarrow> bool" where
  "openrouter_profile_fields p \<longleftrightarrow>
     opt_literal OpenRouterReasoningEffort (rl_effort p) \<and> opt_int (\<lambda>n. 0 < n) (rl_max_tokens p) \<and>
     (case rl_models p of None \<Rightarrow> True | Some ms \<Rightarrow> length ms \<le> 3) \<and>
     (case rl_provider p of None \<Rightarrow> True | Some r \<Rightarrow> provider_fields r) \<and>
     opt_literal ParsingEngine (rl_engine p)"

definition google_embedding_profile_fields :: "int \<Rightarrow> GoogleEmbeddingProfile \<Rightarrow> bool" where
  "google_embedding_profile_fields low p \<longleftrightarrow>
     opt_int (\<lambda>n. low \<le> n \<and> n \<le> 3072) (ge_dimensionality p) \<and>
     ge_task_type p \<in> set GoogleEmbeddingTaskType"

definition cohere_profile_fields :: "CohereEmbeddingProfile \<Rightarrow> bool" where
  "cohere_profile_fields p \<longleftrightarrow>
     opt_int (\<lambda>n. 0 < n \<and> n \<le> 1536) (ce_dimensionality p) \<and>
     ce_input_type p \<in> set CohereEmbeddingTaskType"

definition profiled_fields :: "string list option \<Rightarrow> ('p \<Rightarrow> bool) \<Rightarrow> 'p Profiled \<Rightarrow> bool" where
  "profiled_fields names P c \<longleftrightarrow>
     (case names of None \<Rightarrow> True | Some ns \<Rightarrow> cfg_name c \<in> set ns) \<and>
     (case cfg_profiles c of None \<Rightarrow> True | Some ps \<Rightarrow> list_all (\<lambda>(k, p). P p) ps)"

text \<open>One definition per model class; its profiles are above.\<close>

definition openai_language_fields :: "OpenAILanguageProfile Profiled \<Rightarrow> int \<Rightarrow> int \<Rightarrow> bool" where
  "openai_language_fields c rpm tpm \<longleftrightarrow>
     profiled_fields (Some OpenAILanguageModelName) openai_profile_fields c \<and> 0 < rpm \<and> 0 < tpm"

definition anthropic_language_fields ::
  "AnthropicLanguageProfile Profiled \<Rightarrow> int \<Rightarrow> int \<Rightarrow> int \<Rightarrow> bool" where
  "anthropic_language_fields c rpm input_tpm output_tpm \<longleftrightarrow>
     profiled_fields (Some AnthropicLanguageModelName) anthropic_profile_fields c \<and>
     0 < rpm \<and> 0 < input_tpm \<and> 0 < output_tpm"

definition google_developer_language_fields ::
  "GoogleLanguageProfile Profiled \<Rightarrow> int \<Rightarrow> int \<Rightarrow> bool" where
  "google_developer_language_fields c rpm tpm \<longleftrightarrow>
     profiled_fields (Some GoogleDeveloperLanguageModelName) google_profile_fields c \<and> 0 < rpm \<and> 0 < tpm"

definition google_vertex_language_fields ::
  "GoogleLanguageProfile Profiled \<Rightarrow> int \<Rightarrow> int \<Rightarrow> bool" where
  "google_vertex_language_fields c rpm tpm \<longleftrightarrow>
     profiled_fields (Some GoogleDeveloperLanguageModelName) google_profile_fields c \<and> 0 < rpm \<and> 0 < tpm"

definition openrouter_language_fields ::
  "OpenRouterLanguageProfile Profiled \<Rightarrow> string option \<Rightarrow> bool" where
  "openrouter_language_fields c strategy \<longleftrightarrow>
     profiled_fields None openrouter_profile_fields c \<and> opt_literal StructuredOutputStrategy strategy"

definition openai_embedding_fields :: "string \<Rightarrow> int \<Rightarrow> int \<Rightarrow> bool" where
  "openai_embedding_fields name rpm tpm \<longleftrightarrow> name \<in> set OpenAIEmbeddingModelName \<and> 0 < rpm \<and> 0 < tpm"

definition google_vertex_embedding_fields ::
  "GoogleEmbeddingProfile Profiled \<Rightarrow> int \<Rightarrow> int \<Rightarrow> bool" where
  "google_vertex_embedding_fields c rpm tpm \<longleftrightarrow>
     profiled_fields (Some GoogleVertexEmbeddingModelName) (google_embedding_profile_fields 768) c \<and>
     0 < rpm \<and> 0 < tpm"

definition google_developer_embedding_fields ::
  "GoogleEmbeddingProfile Profiled \<Rightarrow> int \<Rightarrow> int \<Rightarrow> bool" where
  "google_developer_embedding_fields c rpm tpm \<longleftrightarrow>
     profiled_fields (Some GoogleDeveloperEmbeddingModelName) (google_embedding_profile_fields 1) c \<and>
     0 < rpm \<and> 0 < tpm"

definition cohere_embedding_fields :: "CohereEmbeddingProfile Profiled \<Rightarrow> int \<Rightarrow> int \<Rightarrow> bool" where
  "cohere_embedding_fields c rpm tpm \<longleftrightarrow>
     profiled_fields (Some CohereEmbeddingModelName) cohere_profile_fields c \<and> 0 < rpm \<and> 0 < tpm"

fun language_model_fields :: "LanguageModel \<Rightarrow> unit res" where
  "language_model_fields (OpenAILanguageModel c rpm tpm url) =
     raise_if (\<not> openai_language_fields c rpm tpm) PyValueError"
| "language_model_fields (AnthropicLanguageModel c rpm input_tpm output_tpm url) =
     raise_if (\<not> anthropic_language_fields c rpm input_tpm output_tpm) PyValueError"
| "language_model_fields (GoogleDeveloperLanguageModel c rpm tpm) =
     raise_if (\<not> google_developer_language_fields c rpm tpm) PyValueError"
| "language_model_fields (GoogleVertexLanguageModel c rpm tpm) =
     raise_if (\<not> google_vertex_language_fields c rpm tpm) PyValueError"
| "language_model_fields (OpenRouterLanguageModel c strategy) =
     raise_if (\<not> openrouter_language_fields c strategy) PyValueError"

fun embedding_model_fields :: "EmbeddingModel \<Rightarrow> unit res" where
  "embedding_model_fields (OpenAIEmbeddingModel name rpm tpm url) =
     raise_if (\<not> openai_embedding_fields name rpm tpm) PyValueError"
| "embedding_model_fields (GoogleVertexEmbeddingModel c provider rpm tpm) =
     raise_if (\<not> google_vertex_embedding_fields c rpm tpm) PyValueError"
| "embedding_model_fields (GoogleDeveloperEmbeddingModel c provider rpm tpm) =
     raise_if (\<not> google_developer_embedding_fields c rpm tpm) PyValueError"
| "embedding_model_fields (CohereEmbeddingModel c rpm tpm) =
     raise_if (\<not> cohere_embedding_fields c rpm tpm) PyValueError"

lemmas model_fields_defs [simp] =
  openai_language_fields_def anthropic_language_fields_def google_developer_language_fields_def
  google_vertex_language_fields_def openrouter_language_fields_def openai_embedding_fields_def
  google_vertex_embedding_fields_def google_developer_embedding_fields_def cohere_embedding_fields_def

section \<open>Semantic configuration\<close>

datatype CacheBackend = CacheLocal

record LLMResponseCacheConfig =
  cache_backend :: CacheBackend
  cache_ttl :: string
  cache_max_size_mb :: int
  cache_namespace :: string

record AdaptiveTokenEstimationConfig =
  estimation_enabled :: bool
  estimation_safety_margin :: real

record SemanticConfig =
  sc_language_models :: "(string, LanguageModel) dict option"
  sc_default_language_model :: "string option"
  sc_embedding_models :: "(string, EmbeddingModel) dict option"
  sc_default_embedding_model :: "string option"
  sc_llm_response_cache :: "LLMResponseCacheConfig option"
  sc_adaptive_token_estimation :: "AdaptiveTokenEstimationConfig option"

text \<open>What the lookups of the catalog answer.\<close>

record CatalogLookups =
  find_completion :: "ModelProvider \<Rightarrow> string \<Rightarrow> CatalogParameters option"
  find_embedding :: "ModelProvider \<Rightarrow> string \<Rightarrow> CatalogEmbedding option"

fun language_provider :: "LanguageModel \<Rightarrow> ModelProvider" where
  "language_provider (OpenAILanguageModel _ _ _ _) = OPENAI"
| "language_provider (AnthropicLanguageModel _ _ _ _ _) = ANTHROPIC"
| "language_provider (GoogleDeveloperLanguageModel _ _ _) = GOOGLE_DEVELOPER"
| "language_provider (GoogleVertexLanguageModel _ _ _) = GOOGLE_VERTEX"
| "language_provider (OpenRouterLanguageModel _ _) = OPENROUTER"

fun embedding_provider :: "EmbeddingModel \<Rightarrow> ModelProvider" where
  "embedding_provider (OpenAIEmbeddingModel _ _ _ _) = OPENAI"
| "embedding_provider (GoogleVertexEmbeddingModel _ _ _ _) = GOOGLE_VERTEX"
| "embedding_provider (GoogleDeveloperEmbeddingModel _ _ _ _) = GOOGLE_DEVELOPER"
| "embedding_provider (CohereEmbeddingModel _ _ _) = COHERE"

fun language_name :: "LanguageModel \<Rightarrow> string" where
  "language_name (OpenAILanguageModel c _ _ _) = cfg_name c"
| "language_name (AnthropicLanguageModel c _ _ _ _) = cfg_name c"
| "language_name (GoogleDeveloperLanguageModel c _ _) = cfg_name c"
| "language_name (GoogleVertexLanguageModel c _ _) = cfg_name c"
| "language_name (OpenRouterLanguageModel c _) = cfg_name c"

fun embedding_name :: "EmbeddingModel \<Rightarrow> string" where
  "embedding_name (OpenAIEmbeddingModel n _ _ _) = n"
| "embedding_name (GoogleVertexEmbeddingModel c _ _ _) = cfg_name c"
| "embedding_name (GoogleDeveloperEmbeddingModel c _ _ _) = cfg_name c"
| "embedding_name (CohereEmbeddingModel c _ _) = cfg_name c"

section \<open>Defaults\<close>

definition single_default :: "(string, 'a) dict \<Rightarrow> string option \<Rightarrow> string option" where
  "single_default d dflt = (if dflt = None \<and> length d = 1 then Some (fst (hd d)) else dflt)"

text \<open>Profiles for the thinking levels of a Google model that has none of its own.\<close>

definition auto_profiles ::
  "CatalogLookups \<Rightarrow> ModelProvider \<Rightarrow> GoogleLanguageProfile Profiled \<Rightarrow> GoogleLanguageProfile Profiled" where
  "auto_profiles cat provider c =
     (case find_completion cat provider (cfg_name c) of
        Some m \<Rightarrow>
          if truthy (supported_thinking_levels m) \<and> cfg_profiles c = None
          then c\<lparr>cfg_profiles := Some (map (\<lambda>level. (level, GoogleLanguageProfile None (Some level) None))
                                    (the (supported_thinking_levels m))),
                 cfg_default := Some ''low''\<rparr>
          else c
      | None \<Rightarrow> c)"

definition profile_default :: "'p Profiled \<Rightarrow> 'p Profiled" where
  "profile_default c =
     (case cfg_profiles c of
        None \<Rightarrow> c
      | Some ps \<Rightarrow> c\<lparr>cfg_default := single_default ps (cfg_default c)\<rparr>)"

fun language_defaults :: "CatalogLookups \<Rightarrow> LanguageModel \<Rightarrow> LanguageModel" where
  "language_defaults cat (OpenAILanguageModel c rpm tpm url) = OpenAILanguageModel (profile_default c) rpm tpm url"
| "language_defaults cat (AnthropicLanguageModel c rpm i out url) =
     AnthropicLanguageModel (profile_default c) rpm i out url"
| "language_defaults cat (GoogleDeveloperLanguageModel c rpm tpm) =
     GoogleDeveloperLanguageModel (profile_default (auto_profiles cat GOOGLE_DEVELOPER c)) rpm tpm"
| "language_defaults cat (GoogleVertexLanguageModel c rpm tpm) =
     GoogleVertexLanguageModel (profile_default (auto_profiles cat GOOGLE_VERTEX c)) rpm tpm"
| "language_defaults cat (OpenRouterLanguageModel c strategy) = OpenRouterLanguageModel (profile_default c) strategy"

fun embedding_defaults :: "EmbeddingModel \<Rightarrow> EmbeddingModel" where
  "embedding_defaults (OpenAIEmbeddingModel n rpm tpm url) = OpenAIEmbeddingModel n rpm tpm url"
| "embedding_defaults (GoogleVertexEmbeddingModel c p rpm tpm) =
     GoogleVertexEmbeddingModel (profile_default c) p rpm tpm"
| "embedding_defaults (GoogleDeveloperEmbeddingModel c p rpm tpm) =
     GoogleDeveloperEmbeddingModel (profile_default c) p rpm tpm"
| "embedding_defaults (CohereEmbeddingModel c rpm tpm) = CohereEmbeddingModel (profile_default c) rpm tpm"

definition model_post_init :: "CatalogLookups \<Rightarrow> SemanticConfig \<Rightarrow> SemanticConfig" where
  "model_post_init cat sc =
     (let sc1 = (if truthy (sc_language_models sc)
                 then sc\<lparr>sc_default_language_model :=
                            single_default (the (sc_language_models sc)) (sc_default_language_model sc),
                         sc_language_models :=
                            Some (map (\<lambda>(a, m). (a, language_defaults cat m)) (the (sc_language_models sc)))\<rparr>
                 else sc)
      in if truthy (sc_embedding_models sc1)
         then sc1\<lparr>sc_default_embedding_model :=
                     single_default (the (sc_embedding_models sc1)) (sc_default_embedding_model sc1),
                  sc_embedding_models :=
                     Some (map (\<lambda>(a, m). (a, embedding_defaults m)) (the (sc_embedding_models sc1)))\<rparr>
         else sc1)"

section \<open>Validation\<close>

text \<open>A default has to be set when there are several candidates, and has to be one of them.\<close>

definition validate_default_model :: "(string, 'a) dict \<Rightarrow> string option \<Rightarrow> unit res" where
  "validate_default_model models dflt =
     bind_res (raise_if (dflt = None \<and> length models > 1) ConfigurationError) (\<lambda>_.
       raise_if (dflt \<noteq> None \<and> the dflt \<notin> fst ` set models) ConfigurationError)"

definition validate_default_profile :: "(string, 'p) dict \<Rightarrow> string option \<Rightarrow> unit res" where
  "validate_default_profile ps dflt =
     bind_res (raise_if (dflt = None \<and> ps \<noteq> []) ConfigurationError) (\<lambda>_.
       raise_if (dflt \<noteq> None \<and> the dflt \<notin> fst ` set ps) ConfigurationError)"

definition validate_openai_profile :: "CatalogParameters \<Rightarrow> OpenAILanguageProfile \<Rightarrow> unit res" where
  "validate_openai_profile m p =
     bind_res (raise_if (\<not> supports_disabled_reasoning m \<and> ol_effort p = Some ''none'') ConfigurationError) (\<lambda>_.
     bind_res (raise_if (\<not> supports_minimal_reasoning m \<and> ol_effort p = Some ''minimal'') ConfigurationError) (\<lambda>_.
     bind_res (raise_if (\<not> supports_xhigh_reasoning m \<and> ol_effort p = Some ''xhigh'') ConfigurationError) (\<lambda>_.
     bind_res (raise_if (\<not> supports_max_reasoning m \<and> ol_effort p = Some ''max'') ConfigurationError) (\<lambda>_.
       raise_if (\<not> supports_verbosity m \<and> ol_verbosity p \<noteq> None) ConfigurationError))))"

definition validate_anthropic_profile :: "CatalogParameters \<Rightarrow> AnthropicLanguageProfile \<Rightarrow> unit res" where
  "validate_anthropic_profile m p =
     bind_res (raise_if (truthy_int (al_budget p) \<and> uses_adaptive_thinking m) ConfigurationError) (\<lambda>_.
     bind_res (raise_if (truthy_int (al_budget p) \<and> \<not> supports_reasoning m) ConfigurationError) (\<lambda>_.
       case al_effort p of
         None \<Rightarrow> Inr ()
       | Some e \<Rightarrow>
           bind_res (raise_if (\<not> truthy (supported_reasoning_efforts m)) ConfigurationError) (\<lambda>_.
             raise_if (e \<notin> set (the (supported_reasoning_efforts m))) ConfigurationError)))"

definition validate_google_profile :: "CatalogParameters \<Rightarrow> GoogleLanguageProfile \<Rightarrow> unit res" where
  "validate_google_profile m p =
     bind_res (raise_if (gl_resolution p \<noteq> None \<and> \<not> supports_media_resolution m) ConfigurationError) (\<lambda>_.
       if truthy (supported_thinking_levels m) then
         bind_res (raise_if (gl_budget p \<noteq> None) ConfigurationError) (\<lambda>_.
           raise_if (truthy (gl_level p) \<and> the (gl_level p) \<notin> set (the (supported_thinking_levels m)))
             ConfigurationError)
       else
         bind_res (raise_if (gl_level p \<noteq> None) ConfigurationError) (\<lambda>_.
           raise_if (\<not> truthy_int (gl_budget p) \<and> \<not> supports_disabled_reasoning m) ConfigurationError))"

definition validate_openrouter_profile :: "CatalogParameters \<Rightarrow> OpenRouterLanguageProfile \<Rightarrow> unit res" where
  "validate_openrouter_profile m p =
     raise_if ((truthy (rl_effort p) \<or> truthy_int (rl_max_tokens p)) \<and> \<not> supports_reasoning m)
       ConfigurationError"

definition validate_profiled ::
  "CatalogParameters \<Rightarrow> (CatalogParameters \<Rightarrow> 'p \<Rightarrow> unit res) \<Rightarrow> 'p Profiled \<Rightarrow> unit res" where
  "validate_profiled m check c =
     (case cfg_profiles c of
        None \<Rightarrow> Inr ()
      | Some ps \<Rightarrow>
          bind_res (raise_if (\<not> supports_profiles m) ConfigurationError) (\<lambda>_.
          bind_res (validate_default_profile ps (cfg_default c)) (\<lambda>_.
            each_res (\<lambda>(k, p). check m p) ps)))"

fun validate_language_profiles :: "CatalogParameters \<Rightarrow> LanguageModel \<Rightarrow> unit res" where
  "validate_language_profiles m (OpenAILanguageModel c _ _ _) = validate_profiled m validate_openai_profile c"
| "validate_language_profiles m (AnthropicLanguageModel c _ _ _ _) =
     validate_profiled m validate_anthropic_profile c"
| "validate_language_profiles m (GoogleDeveloperLanguageModel c _ _) =
     validate_profiled m validate_google_profile c"
| "validate_language_profiles m (GoogleVertexLanguageModel c _ _) =
     validate_profiled m validate_google_profile c"
| "validate_language_profiles m (OpenRouterLanguageModel c _) =
     validate_profiled m validate_openrouter_profile c"

definition validate_language_model :: "CatalogLookups \<Rightarrow> LanguageModel \<Rightarrow> unit res" where
  "validate_language_model cat model =
     (case find_completion cat (language_provider model) (language_name model) of
        None \<Rightarrow> Inl ConfigurationError
      | Some m \<Rightarrow> validate_language_profiles m model)"

definition validate_dimensionality :: "CatalogEmbedding \<Rightarrow> int option \<Rightarrow> unit res" where
  "validate_dimensionality e requested =
     raise_if (requested \<noteq> None \<and> \<not> supports_dimensions e (the requested)) ConfigurationError"

definition validate_embedding_profiled ::
  "CatalogEmbedding \<Rightarrow> ('p \<Rightarrow> int option) \<Rightarrow> 'p Profiled \<Rightarrow> unit res" where
  "validate_embedding_profiled e dims_of c =
     (case cfg_profiles c of
        None \<Rightarrow> Inr ()
      | Some ps \<Rightarrow>
          if ps = [] then Inr ()
          else bind_res (validate_default_profile ps (cfg_default c)) (\<lambda>_.
            each_res (\<lambda>(k, p). validate_dimensionality e (dims_of p)) ps))"

fun validate_embedding_profiles :: "CatalogEmbedding \<Rightarrow> EmbeddingModel \<Rightarrow> unit res" where
  "validate_embedding_profiles e (OpenAIEmbeddingModel _ _ _ _) = Inr ()"
| "validate_embedding_profiles e (GoogleVertexEmbeddingModel c _ _ _) =
     validate_embedding_profiled e ge_dimensionality c"
| "validate_embedding_profiles e (GoogleDeveloperEmbeddingModel c _ _ _) =
     validate_embedding_profiled e ge_dimensionality c"
| "validate_embedding_profiles e (CohereEmbeddingModel c _ _) =
     validate_embedding_profiled e ce_dimensionality c"

definition validate_embedding_model :: "CatalogLookups \<Rightarrow> EmbeddingModel \<Rightarrow> unit res" where
  "validate_embedding_model cat model =
     (case find_embedding cat (embedding_provider model) (embedding_name model) of
        None \<Rightarrow> Inl ConfigurationError
      | Some e \<Rightarrow> validate_embedding_profiles e model)"

definition validate_models :: "CatalogLookups \<Rightarrow> SemanticConfig \<Rightarrow> unit res" where
  "validate_models cat sc =
     (if \<not> truthy (sc_language_models sc) \<and> \<not> truthy (sc_embedding_models sc) then Inr ()
      else
        bind_res
          (if truthy (sc_language_models sc) then
             (let models = the (sc_language_models sc) in
              bind_res (validate_default_model models (sc_default_language_model sc)) (\<lambda>_.
                each_res (\<lambda>(a, m). validate_language_model cat m) models))
           else Inr ()) (\<lambda>_.
        case sc_embedding_models sc of
          None \<Rightarrow> Inr ()
        | Some models \<Rightarrow>
            bind_res (validate_default_model models (sc_default_embedding_model sc)) (\<lambda>_.
              each_res (\<lambda>(a, m). validate_embedding_model cat m) models)))"

section \<open>Durations of the cache\<close>

definition is_digit :: "char \<Rightarrow> bool" where
  "is_digit c \<longleftrightarrow> c \<in> set ''0123456789''"

definition digit_value :: "char \<Rightarrow> int" where
  "digit_value c = of_char c - 48"

definition number_value :: "string \<Rightarrow> int" where
  "number_value s = foldl (\<lambda>n c. 10 * n + digit_value c) 0 s"

text \<open>
  The match of \<^verbatim>\<open>^(\d+)([smhd])$\<close> on the lower-cased text: a number and a unit, and the dollar
  also matches before one newline at the end.  Texts are ASCII.
\<close>

definition match_ttl :: "string \<Rightarrow> (int \<times> char) option" where
  "match_ttl ttl =
     (let s = map lower_char ttl; ds = takeWhile is_digit s; rest = dropWhile is_digit s
      in if ds = [] then None
         else case rest of
           [u] \<Rightarrow> if u \<in> set ''smhd'' then Some (number_value ds, u) else None
         | [u, nl] \<Rightarrow> if u \<in> set ''smhd'' \<and> nl = CHR 0x0A then Some (number_value ds, u) else None
         | _ \<Rightarrow> None)"

definition validate_ttl :: "string \<Rightarrow> string res" where
  "validate_ttl v =
     (case match_ttl v of
        None \<Rightarrow> Inl PyValueError
      | Some (n, u) \<Rightarrow>
          bind_res (raise_if (u = CHR ''s'' \<and> n < 1) PyValueError) (\<lambda>_.
          bind_res (raise_if (u = CHR ''h'' \<and> n > 720) PyValueError) (\<lambda>_.
          bind_res (raise_if (u = CHR ''d'' \<and> n > 30) PyValueError) (\<lambda>_. Inr v))))"

definition unit_multipliers :: "(char, int) dict" where
  "unit_multipliers = [(CHR ''s'', 1), (CHR ''m'', 60), (CHR ''h'', 3600), (CHR ''d'', 86400)]"

definition ttl_seconds :: "string \<Rightarrow> int res" where
  "ttl_seconds ttl =
     (case match_ttl ttl of
        None \<Rightarrow> Inl PyValueError
      | Some (n, u) \<Rightarrow> bind_res (dict_get unit_multipliers u) (\<lambda>k. Inr (n * k)))"

definition cache_config_fields :: "LLMResponseCacheConfig \<Rightarrow> unit res" where
  "cache_config_fields c =
     bind_res (validate_ttl (cache_ttl c)) (\<lambda>_.
       raise_if (\<not> (0 < cache_max_size_mb c \<and> cache_max_size_mb c \<le> 100000)) PyValueError)"

definition estimation_fields :: "AdaptiveTokenEstimationConfig \<Rightarrow> unit res" where
  "estimation_fields a =
     raise_if (\<not> (1 \<le> estimation_safety_margin a \<and> estimation_safety_margin a \<le> 4)) PyValueError"

text \<open>
  Making a semantic configuration: the parts are checked when they are made, then the defaults
  are filled in and the models validated.
\<close>

definition mk_semantic_config :: "CatalogLookups \<Rightarrow> SemanticConfig \<Rightarrow> SemanticConfig res" where
  "mk_semantic_config cat raw =
     bind_res (case sc_language_models raw of
                 None \<Rightarrow> Inr () | Some ms \<Rightarrow> each_res (\<lambda>(a, m). language_model_fields m) ms) (\<lambda>_.
     bind_res (case sc_embedding_models raw of
                 None \<Rightarrow> Inr () | Some ms \<Rightarrow> each_res (\<lambda>(a, m). embedding_model_fields m) ms) (\<lambda>_.
     bind_res (case sc_llm_response_cache raw of None \<Rightarrow> Inr () | Some c \<Rightarrow> cache_config_fields c) (\<lambda>_.
     bind_res (case sc_adaptive_token_estimation raw of None \<Rightarrow> Inr () | Some a \<Rightarrow> estimation_fields a) (\<lambda>_.
       let sc = model_post_init cat raw
       in bind_res (validate_models cat sc) (\<lambda>_. Inr sc)))))"

section \<open>Resolution\<close>

text \<open>An empty dictionary of profiles becomes none.\<close>

definition resolve_profiles :: "('p \<Rightarrow> 'q) \<Rightarrow> 'p Profiled \<Rightarrow> (string, 'q) dict option" where
  "resolve_profiles f c =
     (if truthy (cfg_profiles c) then Some (map (\<lambda>(k, p). (k, f p)) (the (cfg_profiles c))) else None)"

fun resolve_language_model :: "LanguageModel \<Rightarrow> ResolvedModelConfig" where
  "resolve_language_model (OpenAILanguageModel c rpm tpm url) =
     \<lparr>config_class = OpenAIModelConfig (resolve_profiles (\<lambda>p. OpenAIProfile (ol_effort p) (ol_verbosity p)) c),
      model_name = cfg_name c, model_provider = OPENAI, default_profile = cfg_default c,
      model_limits = TokenLimit rpm tpm, config_base_url = url\<rparr>"
| "resolve_language_model (GoogleDeveloperLanguageModel c rpm tpm) =
     \<lparr>config_class = GoogleModelConfig (resolve_profiles
        (\<lambda>p. GoogleProfile (gl_budget p) (gl_level p) None None (gl_resolution p)) c),
      model_name = cfg_name c, model_provider = GOOGLE_DEVELOPER, default_profile = cfg_default c,
      model_limits = TokenLimit rpm tpm, config_base_url = None\<rparr>"
| "resolve_language_model (GoogleVertexLanguageModel c rpm tpm) =
     \<lparr>config_class = GoogleModelConfig (resolve_profiles
        (\<lambda>p. GoogleProfile (gl_budget p) (gl_level p) None None (gl_resolution p)) c),
      model_name = cfg_name c, model_provider = GOOGLE_VERTEX, default_profile = cfg_default c,
      model_limits = TokenLimit rpm tpm, config_base_url = None\<rparr>"
| "resolve_language_model (AnthropicLanguageModel c rpm i out url) =
     \<lparr>config_class = AnthropicModelConfig (resolve_profiles (\<lambda>p. AnthropicProfile (al_budget p) (al_effort p)) c),
      model_name = cfg_name c, model_provider = ANTHROPIC, default_profile = cfg_default c,
      model_limits = SplitTokenLimit rpm i out, config_base_url = url\<rparr>"
| "resolve_language_model (OpenRouterLanguageModel c strategy) =
     \<lparr>config_class = OpenRouterModelConfig (resolve_profiles
        (\<lambda>p. OpenRouterProfile (rl_effort p) (rl_max_tokens p) (rl_models p) (rl_provider p) strategy (rl_engine p)) c),
      model_name = cfg_name c, model_provider = OPENROUTER, default_profile = cfg_default c,
      model_limits = NoLimit, config_base_url = None\<rparr>"

fun resolve_embedding_model :: "EmbeddingModel \<Rightarrow> ResolvedModelConfig" where
  "resolve_embedding_model (OpenAIEmbeddingModel n rpm tpm url) =
     \<lparr>config_class = OpenAIModelConfig None, model_name = n, model_provider = OPENAI,
      default_profile = None, model_limits = TokenLimit rpm tpm, config_base_url = url\<rparr>"
| "resolve_embedding_model (GoogleVertexEmbeddingModel c p rpm tpm) =
     \<lparr>config_class = GoogleModelConfig (resolve_profiles
        (\<lambda>q. GoogleProfile None None (ge_dimensionality q) (Some (ge_task_type q)) None) c),
      model_name = cfg_name c, model_provider = p, default_profile = cfg_default c,
      model_limits = TokenLimit rpm tpm, config_base_url = None\<rparr>"
| "resolve_embedding_model (GoogleDeveloperEmbeddingModel c p rpm tpm) =
     \<lparr>config_class = GoogleModelConfig (resolve_profiles
        (\<lambda>q. GoogleProfile None None (ge_dimensionality q) (Some (ge_task_type q)) None) c),
      model_name = cfg_name c, model_provider = p, default_profile = cfg_default c,
      model_limits = TokenLimit rpm tpm, config_base_url = None\<rparr>"
| "resolve_embedding_model (CohereEmbeddingModel c rpm tpm) =
     \<lparr>config_class = CohereModelConfig (resolve_profiles
        (\<lambda>q. CohereProfile (ce_dimensionality q) (Some (ce_input_type q))) c),
      model_name = cfg_name c, model_provider = COHERE, default_profile = cfg_default c,
      model_limits = TokenLimit rpm tpm, config_base_url = None\<rparr>"

datatype CloudExecutorSize = SMALL | MEDIUM | LARGE | XLARGE

record SessionConfig =
  app_name :: string
  db_path :: "string option"
  semantic :: "SemanticConfig option"
  cloud :: "CloudExecutorSize option option"

record ResolvedCacheConfig =
  rc_backend :: CacheBackend
  rc_ttl :: string
  rc_ttl_seconds :: int
  rc_max_size_mb :: int
  rc_namespace :: string

record ResolvedSemanticConfig =
  rs_language_models :: "ResolvedLanguageModelConfig option"
  rs_embedding_models :: "ResolvedLanguageModelConfig option"
  rs_llm_response_cache :: "ResolvedCacheConfig option"
  rs_adaptive_token_estimation :: AdaptiveTokenEstimationConfig

record ResolvedSessionConfig =
  resolved_app_name :: string
  resolved_db_path :: "string option"
  resolved_semantic :: ResolvedSemanticConfig
  resolved_cloud :: "CloudExecutorSize option option"

text \<open>The default of a validated configuration is set, so taking it is defined.\<close>

definition resolve_models ::
  "('m \<Rightarrow> ResolvedModelConfig) \<Rightarrow> (string, 'm) dict option \<Rightarrow> string option \<Rightarrow>
     ResolvedLanguageModelConfig option" where
  "resolve_models f models dflt =
     (if truthy models
      then Some \<lparr>model_configs = map (\<lambda>(a, m). (a, f m)) (the models), default_model = the dflt\<rparr>
      else None)"

definition resolve_cache :: "LLMResponseCacheConfig \<Rightarrow> ResolvedCacheConfig res" where
  "resolve_cache c =
     bind_res (ttl_seconds (cache_ttl c)) (\<lambda>n.
       Inr \<lparr>rc_backend = cache_backend c, rc_ttl = cache_ttl c, rc_ttl_seconds = n,
            rc_max_size_mb = cache_max_size_mb c, rc_namespace = cache_namespace c\<rparr>)"

definition default_estimation :: AdaptiveTokenEstimationConfig where
  "default_estimation = \<lparr>estimation_enabled = True, estimation_safety_margin = 1.15\<rparr>"

definition resolve_semantic :: "SemanticConfig option \<Rightarrow> ResolvedSemanticConfig res" where
  "resolve_semantic s =
     (case s of
        None \<Rightarrow> Inr \<lparr>rs_language_models = None, rs_embedding_models = None,
                      rs_llm_response_cache = None, rs_adaptive_token_estimation = default_estimation\<rparr>
      | Some sc \<Rightarrow>
          bind_res (case sc_llm_response_cache sc of
                      None \<Rightarrow> Inr None
                    | Some c \<Rightarrow> bind_res (resolve_cache c) (\<lambda>r. Inr (Some r))) (\<lambda>cache.
            Inr \<lparr>rs_language_models =
                   resolve_models resolve_language_model (sc_language_models sc) (sc_default_language_model sc),
                 rs_embedding_models =
                   resolve_models resolve_embedding_model (sc_embedding_models sc) (sc_default_embedding_model sc),
                 rs_llm_response_cache = cache,
                 rs_adaptive_token_estimation =
                   (case sc_adaptive_token_estimation sc of None \<Rightarrow> default_estimation | Some a \<Rightarrow> a)\<rparr>))"

definition to_resolved_config :: "SessionConfig \<Rightarrow> ResolvedSessionConfig res" where
  "to_resolved_config cfg =
     bind_res (resolve_semantic (semantic cfg)) (\<lambda>s.
       Inr \<lparr>resolved_app_name = app_name cfg, resolved_db_path = db_path cfg,
            resolved_semantic = s, resolved_cloud = cloud cfg\<rparr>)"

text \<open>The session state the checks of expressions read.\<close>

definition session_view :: "CatalogLookups \<Rightarrow> ResolvedSemanticConfig \<Rightarrow> SessionState" where
  "session_view cat rs =
     \<lparr>language_models = rs_language_models rs, embedding_models = rs_embedding_models rs,
      completion_catalog = (\<lambda>p n. map_option CompletionModelParameters.truncate (find_completion cat p n)),
      embedding_catalog = (\<lambda>p n. map_option EmbeddingModelParameters.truncate (find_embedding cat p n))\<rparr>"

section \<open>What an accepted configuration guarantees\<close>

definition catalog_sane :: "CatalogLookups \<Rightarrow> bool" where
  "catalog_sane cat \<longleftrightarrow>
     (\<forall>p n m. find_completion cat p n = Some m \<longrightarrow> 0 \<le> max_output_tokens m \<and> efforts_known m)"

lemma opt_literal_known: "opt_literal A e \<Longrightarrow> set A \<subseteq> fst ` set T \<Longrightarrow> known T e"
  by (cases e) (auto simp: opt_literal_def known_def)

lemma literals_known:
  "set ReasoningEffort \<subseteq> fst ` set OPENAI_REASONING_TOKEN_ESTIMATES"
  "set OpenRouterReasoningEffort \<subseteq> fst ` set OPENROUTER_REASONING_EFFORT_RATIOS"
  "set ThinkingLevelType \<subseteq> fst ` set GOOGLE_THINKING_LEVEL_TOKEN_ESTIMATES"
  "set AnthropicReasoningEffortType \<subseteq> fst ` set ANTHROPIC_ADAPTIVE_THINKING_EFFORT_RATIOS"
  by (simp_all add: ReasoningEffort_def OpenRouterReasoningEffort_def ThinkingLevelType_def
      AnthropicReasoningEffortType_def OPENAI_REASONING_TOKEN_ESTIMATES_def
      OPENROUTER_REASONING_EFFORT_RATIOS_def GOOGLE_THINKING_LEVEL_TOKEN_ESTIMATES_def
      ANTHROPIC_ADAPTIVE_THINKING_EFFORT_RATIOS_def)

lemma opt_int_nonneg: "opt_int P b \<Longrightarrow> (\<And>n. P n \<Longrightarrow> 0 \<le> n) \<Longrightarrow> nonneg_budget b"
  by (cases b) (auto simp: opt_int_def nonneg_budget_def)

lemma profile_default_simps [simp]:
  "cfg_name (profile_default c) = cfg_name c" "cfg_profiles (profile_default c) = cfg_profiles c"
  by (simp_all add: profile_default_def split: option.splits)

lemma auto_profiles_name [simp]: "cfg_name (auto_profiles cat p c) = cfg_name c"
  by (simp add: auto_profiles_def split: option.splits)

lemma language_defaults_simps [simp]:
  "language_name (language_defaults cat m) = language_name m"
  "language_provider (language_defaults cat m) = language_provider m"
  by (cases m; simp)+

lemma embedding_defaults_simps [simp]:
  "embedding_name (embedding_defaults m) = embedding_name m"
  "embedding_provider (embedding_defaults m) = embedding_provider m"
  by (cases m; simp)+

lemma profiled_fields_all:
  "profiled_fields ns P c \<Longrightarrow> cfg_profiles c = Some ps \<Longrightarrow> list_all (\<lambda>(k, p). P p) ps"
  by (simp add: profiled_fields_def)

lemma auto_profiles_all:
  assumes "catalog_sane cat" "profiled_fields ns google_profile_fields c"
    and "cfg_profiles (auto_profiles cat prov c) = Some ps"
  shows "list_all (\<lambda>(k, p). known GOOGLE_THINKING_LEVEL_TOKEN_ESTIMATES (gl_level p)) ps"
proof (cases "cfg_profiles (auto_profiles cat prov c) = cfg_profiles c")
  case True
  with profiled_fields_all [OF assms(2)] assms(3)
  have "list_all (\<lambda>(k, p). google_profile_fields p) ps" by simp
  then show ?thesis
    using opt_literal_known [OF _ literals_known(3)]
    by (auto simp: list_all_iff google_profile_fields_def)
next
  case False
  then obtain m where m: "find_completion cat prov (cfg_name c) = Some m" "truthy (supported_thinking_levels m)"
    "ps = map (\<lambda>level. (level, GoogleLanguageProfile None (Some level) None)) (the (supported_thinking_levels m))"
    using assms(3) by (auto simp: auto_profiles_def split: option.splits if_splits)
  then have "efforts_known m" using assms(1) by (auto simp: catalog_sane_def)
  with m show ?thesis
    by (cases "supported_thinking_levels m") (auto simp: efforts_known_def list_all_iff known_def)
qed

lemma resolve_profiles_all:
  "resolve_profiles f c = Some d \<Longrightarrow> \<exists>ps. cfg_profiles c = Some ps \<and> d = map (\<lambda>(k, p). (k, f p)) ps"
  by (cases "cfg_profiles c") (auto simp: resolve_profiles_def split: if_splits)

lemma resolved_profiles_ok:
  assumes "language_model_fields m = Inr ()" "catalog_sane cat"
  shows "config_profiles_ok (resolve_language_model (language_defaults cat m))"
proof (cases m)
  case (OpenAILanguageModel c rpm tpm url)
  with assms(1) have "profiled_fields (Some OpenAILanguageModelName) openai_profile_fields c" by simp
  from profiled_fields_all [OF this] OpenAILanguageModel show ?thesis
    using opt_literal_known [OF _ literals_known(1)]
    by (fastforce simp: config_profiles_ok_def list_all_iff openai_profile_fields_def
        dest!: resolve_profiles_all)
next
  case (AnthropicLanguageModel c rpm i out url)
  with assms(1) have "profiled_fields (Some AnthropicLanguageModelName) anthropic_profile_fields c" by simp
  from profiled_fields_all [OF this] AnthropicLanguageModel show ?thesis
    using opt_literal_known [OF _ literals_known(4)]
    by (fastforce simp: config_profiles_ok_def list_all_iff anthropic_profile_fields_def
        dest!: resolve_profiles_all intro: opt_int_nonneg)
next
  case (GoogleDeveloperLanguageModel c rpm tpm)
  with assms(1) have "profiled_fields (Some GoogleDeveloperLanguageModelName) google_profile_fields c" by simp
  from auto_profiles_all [OF assms(2) this] GoogleDeveloperLanguageModel show ?thesis
    by (fastforce simp: config_profiles_ok_def list_all_iff dest!: resolve_profiles_all)
next
  case (GoogleVertexLanguageModel c rpm tpm)
  with assms(1) have "profiled_fields (Some GoogleDeveloperLanguageModelName) google_profile_fields c" by simp
  from auto_profiles_all [OF assms(2) this] GoogleVertexLanguageModel show ?thesis
    by (fastforce simp: config_profiles_ok_def list_all_iff dest!: resolve_profiles_all)
next
  case (OpenRouterLanguageModel c strategy)
  with assms(1) have "profiled_fields None openrouter_profile_fields c" by simp
  from profiled_fields_all [OF this] OpenRouterLanguageModel show ?thesis
    using opt_literal_known [OF _ literals_known(2)]
    by (fastforce simp: config_profiles_ok_def list_all_iff openrouter_profile_fields_def
        dest!: resolve_profiles_all intro: opt_int_nonneg)
qed

lemma resolved_provider [simp]:
  "provider_of_config (resolve_language_model m) = language_provider m"
  "model_name (resolve_language_model m) = language_name m"
  by (cases m; simp add: provider_of_config_def)+

lemma raise_default_Inr:
  assumes "validate_default_model models dflt = Inr ()" "models \<noteq> []" "length models = 1 \<longrightarrow> dflt \<noteq> None"
  shows "dflt \<noteq> None \<and> the dflt \<in> fst ` set models"
  using assms by (cases models) (auto simp: validate_default_model_def)

lemma single_default_None: "single_default d dflt = None \<Longrightarrow> length d \<noteq> 1"
  by (auto simp: single_default_def split: if_splits)

text \<open>What the language half of an accepted configuration is.\<close>

lemma accepted_language:
  assumes "mk_semantic_config cat raw = Inr sc" "truthy (sc_language_models sc)"
  obtains ms where "sc_language_models raw = Some ms"
    and "sc_language_models sc = Some (map (\<lambda>(a, m). (a, language_defaults cat m)) ms)"
    and "\<forall>(a, m) \<in> set ms. language_model_fields m = Inr () \<and>
           validate_language_model cat (language_defaults cat m) = Inr ()"
    and "\<exists>d. sc_default_language_model sc = Some d \<and> d \<in> fst ` set ms"
proof -
  have sc: "sc = model_post_init cat raw" and v: "validate_models cat sc = Inr ()"
    and f: "(case sc_language_models raw of None \<Rightarrow> Inr () | Some ms \<Rightarrow> each_res (\<lambda>(a, m). language_model_fields m) ms) = Inr ()"
    using assms(1) by (auto simp: mk_semantic_config_def Let_def)
  have "truthy (sc_language_models raw)"
    using assms(2) sc by (auto simp: model_post_init_def Let_def split: if_splits)
  then obtain ms where ms: "sc_language_models raw = Some ms" "ms \<noteq> []"
    by (cases "sc_language_models raw") auto
  have s: "sc_language_models sc = Some (map (\<lambda>(a, m). (a, language_defaults cat m)) ms)"
    "sc_default_language_model sc = single_default ms (sc_default_language_model raw)"
    using ms by (simp_all add: sc model_post_init_def Let_def)
  let ?ms = "map (\<lambda>(a, m). (a, language_defaults cat m)) ms"
  have v': "validate_default_model ?ms (sc_default_language_model sc) = Inr ()"
    "\<forall>(a, m) \<in> set ?ms. validate_language_model cat m = Inr ()"
    using v s ms by (auto simp: validate_models_def Let_def)
  have "sc_default_language_model sc \<noteq> None \<and> the (sc_default_language_model sc) \<in> fst ` set ?ms"
    using ms s single_default_None by (intro raise_default_Inr [OF v'(1)]) auto
  moreover have "fst ` set ?ms = fst ` set ms" by force
  ultimately have "\<exists>d. sc_default_language_model sc = Some d \<and> d \<in> fst ` set ms"
    by (cases "sc_default_language_model sc") simp_all
  moreover have "\<forall>(a, m) \<in> set ms. language_model_fields m = Inr () \<and>
      validate_language_model cat (language_defaults cat m) = Inr ()"
    using f v'(2) ms by auto
  ultimately show thesis using that ms s by blast
qed

lemma resolve_semantic_models:
  assumes "resolve_semantic (Some sc) = Inr rs"
  shows "rs_language_models rs = resolve_models resolve_language_model (sc_language_models sc) (sc_default_language_model sc)"
    "rs_embedding_models rs = resolve_models resolve_embedding_model (sc_embedding_models sc) (sc_default_embedding_model sc)"
  using assms by (auto simp: resolve_semantic_def)

lemma validated_in_catalog:
  "validate_language_model cat m = Inr () \<Longrightarrow>
   \<exists>p. find_completion cat (language_provider m) (language_name m) = Some p"
  by (auto simp: validate_language_model_def split: option.splits)

lemma sane_parameters:
  "catalog_sane cat \<Longrightarrow> find_completion cat p n = Some m \<Longrightarrow>
   parameters_ok (CompletionModelParameters.truncate m)"
  by (auto simp: catalog_sane_def efforts_known_def parameters_ok_def CompletionModelParameters.truncate_def)

lemma accepted_session_ok:
  assumes "catalog_sane cat" "mk_semantic_config cat raw = Inr sc" "resolve_semantic (Some sc) = Inr rs"
  shows "session_ok (session_view cat rs)"
proof (cases "truthy (sc_language_models sc)")
  case True
  obtain ms where ms: "sc_language_models sc = Some (map (\<lambda>(a, m). (a, language_defaults cat m)) ms)"
    "\<forall>(a, m) \<in> set ms. language_model_fields m = Inr () \<and>
       validate_language_model cat (language_defaults cat m) = Inr ()"
    by (rule accepted_language [OF assms(2) True])
  have "config_profiles_ok (resolve_language_model (language_defaults cat m)) \<and>
      (\<exists>p. completion_catalog (session_view cat rs) (language_provider m) (language_name m) = Some p \<and>
        parameters_ok p)" if "(a, m) \<in> set ms" for a m
    using that ms(2) resolved_profiles_ok [OF _ assms(1)] sane_parameters [OF assms(1)]
      validated_in_catalog [of cat "language_defaults cat m"]
    by (fastforce simp: session_view_def)
  then show ?thesis
    using ms(1) True
    by (auto simp: session_ok_def session_view_def resolve_semantic_models [OF assms(3)] resolve_models_def list_all_iff)
next
  case False
  then show ?thesis
    by (simp add: session_ok_def session_view_def resolve_semantic_models [OF assms(3)] resolve_models_def)
qed

text \<open>A check of a sound session raises nothing but the documented error.\<close>

lemma check_errors:
  assumes "session_ok ss"
  shows "validate_completion_parameters a ss t n \<in> {Inr (), Inl ValidationError}"
proof (cases "fetch_model_and_completion_parameters a ss")
  case (Inl e)
  then show ?thesis by (simp add: validate_completion_parameters_def fetch_Inl)
next
  case (Inr r)
  obtain c prov params where r: "r = (c, prov, params)" by (cases r)
  from session_ok_fetch [OF assms Inr [unfolded r]] obtain p where p: "params = Some p" "parameters_ok p" "config_profiles_ok c"
    by blast
  obtain est where "estimate_reasoning_tokens c p (case a of None \<Rightarrow> None | Some al \<Rightarrow> alias_profile al) = Inr est"
    using estimate_ok [OF p(2,3)] by blast
  then show ?thesis
    using Inr r p(1)
    by (cases n; cases t)
      (auto simp: validate_completion_parameters_def validate_effective_output_token_limit_def
        Let_def raise_if_def split: if_splits)
qed

lemma map_of_mapped: "map_of (map (\<lambda>(a, m). (a, f m)) ms) k = map_option f (map_of ms k)"
  by (induction ms) auto

text \<open>The model a configuration names as its default can be used without further limits.\<close>

lemma default_model_usable:
  assumes "catalog_sane cat" "mk_semantic_config cat raw = Inr sc" "resolve_semantic (Some sc) = Inr rs"
    and "truthy (sc_language_models sc)"
  shows "validate_completion_parameters None (session_view cat rs) None None = Inr ()"
proof -
  obtain ms where ms: "sc_language_models sc = Some (map (\<lambda>(a, m). (a, language_defaults cat m)) ms)"
    "\<forall>(a, m) \<in> set ms. language_model_fields m = Inr () \<and>
       validate_language_model cat (language_defaults cat m) = Inr ()"
    "\<exists>d. sc_default_language_model sc = Some d \<and> d \<in> fst ` set ms"
    by (rule accepted_language [OF assms(2,4)])
  obtain d where d: "sc_default_language_model sc = Some d" "d \<in> fst ` set ms" using ms(3) by blast
  then obtain m where m: "map_of ms d = Some m" by (metis map_of_eq_None_iff not_None_eq)
  with ms(2) have "validate_language_model cat (language_defaults cat m) = Inr ()"
    by (auto dest!: map_of_SomeD)
  from validated_in_catalog [OF this] obtain p
    where "find_completion cat (language_provider m) (language_name m) = Some p" by auto
  then show ?thesis
    using ms(1) d m assms(4)
    by (simp add: validate_completion_parameters_def fetch_model_and_completion_parameters_def session_view_def
        resolve_semantic_models [OF assms(3)] resolve_models_def map_of_mapped
        validate_effective_output_token_limit_def Let_def del: map_map)
qed

text \<open>The catalog the program is built with; what OpenRouter reports is an argument.\<close>

definition program_lookups :: "(string \<Rightarrow> CatalogParameters option) \<Rightarrow> CatalogLookups" where
  "program_lookups openrouter =
     \<lparr>find_completion = (\<lambda>p n. if p = OPENROUTER then openrouter n
                               else fst (get_completion_model_parameters (\<lambda>_. None) model_catalog p n)),
      find_embedding = get_embedding_model_parameters model_catalog\<rparr>"

lemma program_lookups_sane:
  assumes "\<And>n m. openrouter n = Some m \<Longrightarrow> 0 \<le> max_output_tokens m \<and> efforts_known m"
  shows "catalog_sane (program_lookups openrouter)"
proof -
  have "0 \<le> max_output_tokens m \<and> efforts_known m"
    if "p \<noteq> OPENROUTER" "fst (get_completion_model_parameters (\<lambda>_. None) model_catalog p n) = Some m" for p n m
  proof -
    have "map_of (completion_rows p catalog_entries) n = Some m"
      using that by (simp add: get_completion_model_parameters_def get_supported_completions_no_loader initialized_eq)
    from completion_rows_sane [OF entries_sane map_of_SomeD [OF this]]
    show ?thesis by (simp add: limits_sane_def)
  qed
  with assms show ?thesis by (auto simp: catalog_sane_def program_lookups_def)
qed

section \<open>Embedding types\<close>

fun provider_field_default :: "EmbeddingModel \<Rightarrow> bool" where
  "provider_field_default (GoogleVertexEmbeddingModel _ p _ _) \<longleftrightarrow> p = GOOGLE_VERTEX"
| "provider_field_default (GoogleDeveloperEmbeddingModel _ p _ _) \<longleftrightarrow> p = GOOGLE_DEVELOPER"
| "provider_field_default _ \<longleftrightarrow> True"

lemma resolved_embedding [simp]:
  "model_name (resolve_embedding_model m) = embedding_name m"
  "provider_field_default m \<Longrightarrow> model_provider (resolve_embedding_model m) = embedding_provider m"
  by (cases m; simp)+

lemma provider_field_defaults [simp]: "provider_field_default (embedding_defaults m) = provider_field_default m"
  by (cases m) simp_all

lemma accepted_embedding:
  assumes "mk_semantic_config cat raw = Inr sc" "truthy (sc_embedding_models sc)"
  obtains ms where "sc_embedding_models raw = Some ms"
    and "sc_embedding_models sc = Some (map (\<lambda>(a, m). (a, embedding_defaults m)) ms)"
    and "\<forall>(a, m) \<in> set ms. embedding_model_fields m = Inr () \<and>
           validate_embedding_model cat (embedding_defaults m) = Inr ()"
    and "\<exists>d. sc_default_embedding_model sc = Some d \<and> d \<in> fst ` set ms"
proof -
  have sc: "sc = model_post_init cat raw" and v: "validate_models cat sc = Inr ()"
    and f: "(case sc_embedding_models raw of None \<Rightarrow> Inr () | Some ms \<Rightarrow> each_res (\<lambda>(a, m). embedding_model_fields m) ms) = Inr ()"
    using assms(1) by (auto simp: mk_semantic_config_def Let_def)
  have "truthy (sc_embedding_models raw)"
    using assms(2) sc by (auto simp: model_post_init_def Let_def split: if_splits)
  then obtain ms where ms: "sc_embedding_models raw = Some ms" "ms \<noteq> []"
    by (cases "sc_embedding_models raw") auto
  have s: "sc_embedding_models sc = Some (map (\<lambda>(a, m). (a, embedding_defaults m)) ms)"
    "sc_default_embedding_model sc = single_default ms (sc_default_embedding_model raw)"
    using ms by (simp_all add: sc model_post_init_def Let_def)
  let ?ms = "map (\<lambda>(a, m). (a, embedding_defaults m)) ms"
  have v': "validate_default_model ?ms (sc_default_embedding_model sc) = Inr ()"
    "\<forall>(a, m) \<in> set ?ms. validate_embedding_model cat m = Inr ()"
    using v s ms by (auto simp: validate_models_def Let_def split: if_splits)
  have "sc_default_embedding_model sc \<noteq> None \<and> the (sc_default_embedding_model sc) \<in> fst ` set ?ms"
    using ms s single_default_None by (intro raise_default_Inr [OF v'(1)]) auto
  moreover have "fst ` set ?ms = fst ` set ms" by force
  ultimately have "\<exists>d. sc_default_embedding_model sc = Some d \<and> d \<in> fst ` set ms"
    by (cases "sc_default_embedding_model sc") simp_all
  moreover have "\<forall>(a, m) \<in> set ms. embedding_model_fields m = Inr () \<and>
      validate_embedding_model cat (embedding_defaults m) = Inr ()"
    using f v'(2) ms by auto
  ultimately show thesis using that ms s by blast
qed

text \<open>The dimensions a Google model with validated profiles gets without a profile in the alias.\<close>

definition google_dimensions ::
  "(string, GoogleProfile) dict option \<Rightarrow> string option \<Rightarrow> CatalogEmbedding \<Rightarrow> int option" where
  "google_dimensions profiles dflt e =
     (case profiles of
        None \<Rightarrow> Some (default_dimensions e)
      | Some ps \<Rightarrow>
          if ps = [] then Some (default_dimensions e)
          else (case dflt of
                  None \<Rightarrow> None
                | Some n \<Rightarrow> (case map_of ps n of
                     None \<Rightarrow> None
                   | Some pr \<Rightarrow> Some (if truthy_int (go_dimensionality pr) then the (go_dimensionality pr)
                                      else default_dimensions e))))"

definition config_dimensions :: "ResolvedModelConfig \<Rightarrow> CatalogEmbedding \<Rightarrow> int option" where
  "config_dimensions c e =
     (case config_class c of
        GoogleModelConfig ps \<Rightarrow> google_dimensions ps (default_profile c) e
      | _ \<Rightarrow> Some (default_dimensions e))"

lemma validated_dimensions:
  assumes "validate_embedding_profiled e dims_of c = Inr ()" "resolve_profiles f c = Some ps" "ps \<noteq> []"
    and "\<And>q. go_dimensionality (f q) = dims_of q"
  shows "\<exists>n pr. cfg_default c = Some n \<and> map_of ps n = Some pr \<and>
    (truthy_int (go_dimensionality pr) \<longrightarrow> supports_dimensions e (the (go_dimensionality pr)))"
proof -
  obtain qs where qs: "cfg_profiles c = Some qs" "ps = map (\<lambda>(k, p). (k, f p)) qs"
    using resolve_profiles_all [OF assms(2)] by blast
  with assms(1,3) have v: "validate_default_profile qs (cfg_default c) = Inr ()"
    "\<forall>(k, p) \<in> set qs. validate_dimensionality e (dims_of p) = Inr ()" and ne: "qs \<noteq> []"
    by (auto simp: validate_embedding_profiled_def)
  from v(1) ne obtain n where n: "cfg_default c = Some n" "n \<in> fst ` set qs"
    by (cases "cfg_default c") (auto simp: validate_default_profile_def)
  then obtain q where q: "map_of qs n = Some q" by (metis map_of_eq_None_iff not_None_eq)
  with v(2) have "validate_dimensionality e (dims_of q) = Inr ()" by (auto dest!: map_of_SomeD)
  with n(1) q qs(2) assms(4) show ?thesis
    by (cases "dims_of q") (auto simp: map_of_mapped validate_dimensionality_def)
qed

lemma validated_config_dimensions:
  assumes "validate_embedding_profiles e m = Inr ()"
    and "default_dimensions e \<in> set (get_possible_dimensions e)"
  shows "\<exists>d. config_dimensions (resolve_embedding_model m) e = Some d \<and> d \<in> set (get_possible_dimensions e)"
proof -
  have sup: "supports_dimensions e d \<longleftrightarrow> d \<in> set (get_possible_dimensions e)" for d
    by (simp add: supports_dimensions_def get_possible_dimensions_def split: Dimensions.splits)
  have google: "\<exists>d. google_dimensions
        (resolve_profiles (\<lambda>q. GoogleProfile None None (ge_dimensionality q) (Some (ge_task_type q)) None) c)
        (cfg_default c) e = Some d \<and> d \<in> set (get_possible_dimensions e)" (is "\<exists>d. google_dimensions ?Q _ _ = _ \<and> _")
    if "validate_embedding_profiled e ge_dimensionality c = Inr ()" for c
  proof (cases ?Q)
    case (Some ps)
    show ?thesis
    proof (cases "ps = []")
      case False
      from validated_dimensions [OF that Some False] Some False assms(2)
      show ?thesis by (auto simp: sup google_dimensions_def)
    qed (use Some assms(2) in \<open>simp add: google_dimensions_def\<close>)
  qed (use assms(2) in \<open>simp add: google_dimensions_def\<close>)
  show ?thesis
    using assms google by (cases m) (auto simp: config_dimensions_def)
qed

lemma embedding_type_default:
  assumes "embedding_models env = Some em" "map_of (model_configs em) (default_model em) = Some c"
    and "embedding_catalog env (model_provider c) (model_name c) = Some (EmbeddingModelParameters.truncate e)"
    and "config_dimensions c e = Some d"
  shows "embedding_type_from_config env None =
     Inr (EmbeddingType d (provider_value (model_provider c) @ ''/'' @ model_name c))"
  using assms
  by (auto simp: embedding_type_from_config_def config_dimensions_def google_dimensions_def Let_def
      EmbeddingModelParameters.truncate_def split: ConfigClass.splits option.splits if_splits)

lemma default_embedding_type:
  assumes "mk_semantic_config cat raw = Inr sc" "resolve_semantic (Some sc) = Inr rs"
    and "truthy (sc_embedding_models sc)"
    and "\<And>a m. (a, m) \<in> set (the (sc_embedding_models sc)) \<Longrightarrow> provider_field_default m"
    and "\<And>p n e. find_embedding cat p n = Some e \<Longrightarrow> default_dimensions e \<in> set (get_possible_dimensions e)"
    and "embedding_models env = rs_embedding_models rs"
    and "\<And>p n. embedding_catalog env p n = map_option EmbeddingModelParameters.truncate (find_embedding cat p n)"
  shows "\<exists>p n e d. find_embedding cat p n = Some e \<and> d \<in> set (get_possible_dimensions e) \<and>
     embedding_type_from_config env None = Inr (EmbeddingType d (provider_value p @ ''/'' @ n))"
proof -
  obtain ms where ms: "sc_embedding_models sc = Some (map (\<lambda>(a, m). (a, embedding_defaults m)) ms)"
    "\<forall>(a, m) \<in> set ms. embedding_model_fields m = Inr () \<and>
       validate_embedding_model cat (embedding_defaults m) = Inr ()"
    "\<exists>d. sc_default_embedding_model sc = Some d \<and> d \<in> fst ` set ms"
    by (rule accepted_embedding [OF assms(1,3)])
  obtain a where a: "sc_default_embedding_model sc = Some a" "a \<in> fst ` set ms" using ms(3) by blast
  then obtain m0 where m0: "map_of ms a = Some m0" by (metis map_of_eq_None_iff not_None_eq)
  define m where "m = embedding_defaults m0"
  have v: "validate_embedding_model cat m = Inr ()" and prov: "provider_field_default m"
    using ms(2) m0 assms(4) [of a m] ms(1) by (force dest!: map_of_SomeD simp: m_def)+
  from v obtain e where e: "find_embedding cat (embedding_provider m) (embedding_name m) = Some e"
    "validate_embedding_profiles e m = Inr ()"
    by (auto simp: validate_embedding_model_def split: option.splits)
  obtain d where d: "config_dimensions (resolve_embedding_model m) e = Some d" "d \<in> set (get_possible_dimensions e)"
    using validated_config_dimensions [OF e(2) assms(5) [OF e(1)]] by blast
  have "embedding_models env = Some \<lparr>model_configs = map (\<lambda>(a, m). (a, resolve_embedding_model m))
      (map (\<lambda>(a, m). (a, embedding_defaults m)) ms), default_model = a\<rparr>"
    using assms(3) ms(1) a(1) by (simp add: assms(6) resolve_semantic_models [OF assms(2)] resolve_models_def)
  then have "embedding_type_from_config env None =
     Inr (EmbeddingType d (provider_value (embedding_provider m) @ ''/'' @ embedding_name m))"
    using embedding_type_default [of env _ "resolve_embedding_model m" e d] e(1) d(1) prov m0
    by (simp add: assms(7) map_of_mapped m_def del: map_map)
  with e(1) d(2) show ?thesis by blast
qed

section \<open>Properties\<close>

lemma program_embedding_dimensions:
  "find_embedding (program_lookups openrouter) p n = Some e \<Longrightarrow>
   default_dimensions e \<in> set (get_possible_dimensions e)"
  using embedding_rows_sane [OF entries_sane]
  by (auto simp: program_lookups_def get_embedding_model_parameters_def get_supported_embeddings_def
      initialized_eq dest!: map_of_SomeD)

text \<open>C18. With the catalog of the program, a session configuration that the validation accepts is a
  sound one: whatever model alias, temperature and limit an operator names, the check of its
  completion parameters passes or raises a ValidationError, never a KeyError or an AttributeError,
  and the default model without limits always passes.\<close>

theorem accepted_config_checks:
  assumes "\<And>n m. openrouter n = Some m \<Longrightarrow> 0 \<le> max_output_tokens m \<and> efforts_known m"
    and "mk_semantic_config (program_lookups openrouter) raw = Inr sc"
    and "to_resolved_config \<lparr>app_name = app, db_path = db, semantic = Some sc, cloud = cl\<rparr> = Inr resolved"
    and "ss = session_view (program_lookups openrouter) (resolved_semantic resolved)"
  shows "validate_completion_parameters a ss temperature max_tokens \<in> {Inr (), Inl ValidationError} \<and>
    (truthy (sc_language_models sc) \<longrightarrow> validate_completion_parameters None ss None None = Inr ())"
proof -
  note sane = program_lookups_sane [of openrouter, OF assms(1)]
  have rs: "resolve_semantic (Some sc) = Inr (resolved_semantic resolved)"
    using assms(3) by (auto simp: to_resolved_config_def)
  show ?thesis
    using check_errors [OF accepted_session_ok [OF sane assms(2) rs]] default_model_usable [OF sane assms(2) rs]
    by (simp add: assms(4))
qed

text \<open>C39. With the catalog of the program and the provider fields of the embedding models left at
  their defaults, the default embedding model of an accepted configuration always types an
  embedding, and its dimensionality is one the catalog lists for a model.\<close>

theorem accepted_embedding_typed:
  assumes "mk_semantic_config (program_lookups openrouter) raw = Inr sc" and "truthy (sc_embedding_models sc)"
    and "list_all (\<lambda>(a, m). provider_field_default m) (the (sc_embedding_models sc))"
    and "resolve_semantic (Some sc) = Inr rs"
    and "embedding_models env = embedding_models (session_view (program_lookups openrouter) rs)"
    and "embedding_catalog env = embedding_catalog (session_view (program_lookups openrouter) rs)"
  shows "\<exists>p n e d. get_embedding_model_parameters model_catalog p n = Some e \<and> supports_dimensions e d \<and>
     embedding_type_from_config env None = Inr (EmbeddingType d (provider_value p @ ''/'' @ n))"
proof -
  have sup: "supports_dimensions e d \<longleftrightarrow> d \<in> set (get_possible_dimensions e)" for e d
    by (simp add: supports_dimensions_def get_possible_dimensions_def split: Dimensions.splits)
  have "\<exists>p n e d. find_embedding (program_lookups openrouter) p n = Some e \<and> d \<in> set (get_possible_dimensions e) \<and>
     embedding_type_from_config env None = Inr (EmbeddingType d (provider_value p @ ''/'' @ n))"
    using assms(3,5,6) program_embedding_dimensions
    by (intro default_embedding_type [OF assms(1,4,2)]) (auto simp: session_view_def list_all_iff)
  then show ?thesis by (auto simp: program_lookups_def sup)
qed



definition example_raw :: SemanticConfig where
  "example_raw =
     \<lparr>sc_language_models = Some [(''mini'', OpenAILanguageModel
        \<lparr>cfg_name = ''gpt-5-mini'', cfg_profiles = Some [(''deep'', OpenAILanguageProfile (Some ''low'') None)],
         cfg_default = None\<rparr> 100 1000 None)],
      sc_default_language_model = None,
      sc_embedding_models = Some [(''emb'', GoogleVertexEmbeddingModel
        \<lparr>cfg_name = ''gemini-embedding-001'',
         cfg_profiles = Some [(''small'', GoogleEmbeddingProfile (Some 768) ''CLASSIFICATION'')],
         cfg_default = None\<rparr> GOOGLE_VERTEX 100 1000)],
      sc_default_embedding_model = None,
      sc_llm_response_cache = Some \<lparr>cache_backend = CacheLocal, cache_ttl = ''15m'',
        cache_max_size_mb = 128, cache_namespace = ''default''\<rparr>,
      sc_adaptive_token_estimation = None\<rparr>"

lemmas table_lookup = program_lookups_def get_completion_model_parameters_def
  get_supported_completions_no_loader get_embedding_model_parameters_def get_supported_embeddings_def
  initialized_eq catalog_entries_def list_defs entry_defs completion_model_def

lemma example_lookup_mini:
  "\<exists>m. find_completion (program_lookups orc) OPENAI ''gpt-5-mini'' = Some m \<and> supports_profiles m"
  by (simp add: table_lookup)

lemma example_lookup_emb:
  "\<exists>e. find_embedding (program_lookups orc) GOOGLE_VERTEX ''gemini-embedding-001'' = Some e \<and>
     supports_dimensions e 768 \<and> default_dimensions e = 3072"
  by (simp add: table_lookup supports_dimensions_def)

lemmas ttl_evals = validate_ttl_def match_ttl_def is_digit_def lower_char_def number_value_def
  digit_value_def ttl_seconds_def unit_multipliers_def dict_get_def

definition example_sc :: SemanticConfig where
  "example_sc = model_post_init (program_lookups (\<lambda>_. None)) example_raw"

lemma example_accepted: "mk_semantic_config (program_lookups (\<lambda>_. None)) example_raw = Inr example_sc"
proof -
  obtain m where m: "find_completion (program_lookups (\<lambda>_. None)) OPENAI ''gpt-5-mini'' = Some m" "supports_profiles m"
    using example_lookup_mini by blast
  obtain e where e: "find_embedding (program_lookups (\<lambda>_. None)) GOOGLE_VERTEX ''gemini-embedding-001'' = Some e"
    "supports_dimensions e 768" using example_lookup_emb by blast
  have v: "validate_models (program_lookups (\<lambda>_. None)) example_sc = Inr ()"
    using m e
    by (simp add: example_sc_def example_raw_def model_post_init_def Let_def single_default_def profile_default_def
        validate_models_def validate_default_model_def validate_language_model_def validate_profiled_def
        validate_default_profile_def validate_openai_profile_def validate_embedding_model_def
        validate_embedding_profiled_def validate_dimensionality_def)
  have "validate_ttl ''15m'' = Inr ''15m''" by (simp add: ttl_evals)
  then show ?thesis
    using v
    by (simp add: mk_semantic_config_def example_sc_def [symmetric])
      (simp add: example_raw_def cache_config_fields_def profiled_fields_def openai_profile_fields_def opt_literal_def
        opt_int_def google_embedding_profile_fields_def name_defs ReasoningEffort_def GoogleEmbeddingTaskType_def)
qed

lemma example_resolved: "\<exists>rs. resolve_semantic (Some example_sc) = Inr rs"
  by (simp add: example_sc_def example_raw_def model_post_init_def Let_def resolve_semantic_def resolve_cache_def ttl_evals)

theorem accepted_config_checks_witness:
  "\<exists>resolved. to_resolved_config \<lparr>app_name = ''a'', db_path = None, semantic = Some example_sc, cloud = None\<rparr> = Inr resolved \<and>
     validate_completion_parameters None
       (session_view (program_lookups (\<lambda>_. None)) (resolved_semantic resolved)) None None = Inr ()"
proof -
  obtain resolved where r: "to_resolved_config
      \<lparr>app_name = ''a'', db_path = None, semantic = Some example_sc, cloud = None\<rparr> = Inr resolved"
    using example_resolved by (auto simp: to_resolved_config_def)
  have "truthy (sc_language_models example_sc)"
    by (simp add: example_sc_def example_raw_def model_post_init_def Let_def)
  with accepted_config_checks [OF _ example_accepted r refl] r show ?thesis by auto
qed

definition example_env :: "ResolvedSemanticConfig \<Rightarrow> Env" where
  "example_env rs =
     \<lparr>language_models = None,
      embedding_models = embedding_models (session_view (program_lookups (\<lambda>_. None)) rs),
      completion_catalog = (\<lambda>_ _. None),
      embedding_catalog = embedding_catalog (session_view (program_lookups (\<lambda>_. None)) rs),
      get_content_hash = (\<lambda>_. [])\<rparr>"

theorem accepted_embedding_typed_witness:
  "\<exists>rs d m. resolve_semantic (Some example_sc) = Inr rs \<and>
     embedding_type_from_config (example_env rs) None = Inr (EmbeddingType d m)"
proof -
  obtain rs where rs: "resolve_semantic (Some example_sc) = Inr rs" using example_resolved by blast
  have "truthy (sc_embedding_models example_sc)"
    "list_all (\<lambda>(a, m). provider_field_default m) (the (sc_embedding_models example_sc))"
    by (simp_all add: example_sc_def example_raw_def model_post_init_def Let_def)
  from accepted_embedding_typed [OF example_accepted this rs, where env = "example_env rs"] rs
  show ?thesis by (auto simp: example_env_def)
qed

section \<open>Where the code departs from its documentation\<close>

text \<open>
  The documented example of profiles is rejected: neither of its two models takes them.
\<close>

lemma documented_lookups:
  "\<exists>m. find_completion (program_lookups orc) OPENAI ''gpt-4o-mini'' = Some m \<and> \<not> supports_profiles m"
  "\<exists>m. find_completion (program_lookups orc) ANTHROPIC ''claude-haiku-4-5'' = Some m \<and>
     supported_reasoning_efforts m = None \<and> supports_profiles m"
  by (simp_all add: table_lookup)

theorem documented_profiles_rejected:
  "validate_language_model (program_lookups orc) (OpenAILanguageModel
     \<lparr>cfg_name = ''gpt-4o-mini'', cfg_profiles = Some [(''fast'', OpenAILanguageProfile (Some ''low'') None),
        (''thorough'', OpenAILanguageProfile (Some ''high'') None)], cfg_default = Some ''fast''\<rparr> 100 100 None) =
     Inl ConfigurationError \<and>
   validate_language_model (program_lookups orc) (AnthropicLanguageModel
     \<lparr>cfg_name = ''claude-haiku-4-5'', cfg_profiles = Some [(''fast'', AnthropicLanguageProfile None (Some ''low'')),
        (''thorough'', AnthropicLanguageProfile None (Some ''high''))], cfg_default = Some ''fast''\<rparr> 100 100 100 None) =
     Inl ConfigurationError"
  using documented_lookups [of orc]
  by (auto simp: validate_language_model_def validate_profiled_def validate_default_profile_def
      validate_anthropic_profile_def)

text \<open>Minutes have no bounds: a duration of zero and one of a hundred days are accepted.\<close>

theorem minutes_unbounded:
  "validate_ttl ''0m'' = Inr ''0m'' \<and> ttl_seconds ''0m'' = Inr 0 \<and>
   validate_ttl ''144000m'' = Inr ''144000m'' \<and> ttl_seconds ''144000m'' = Inr (100 * 86400)"
  by (simp add: ttl_evals)

text \<open>A provider field that is not the one of the class passes the validation, but the model is then
  looked up elsewhere.\<close>

definition foreign_provider_sc :: SemanticConfig where
  "foreign_provider_sc =
     \<lparr>sc_language_models = None, sc_default_language_model = None,
      sc_embedding_models = Some [(''emb'', GoogleVertexEmbeddingModel
        \<lparr>cfg_name = ''gemini-embedding-001'', cfg_profiles = None, cfg_default = None\<rparr> OPENAI 100 1000)],
      sc_default_embedding_model = Some ''emb'', sc_llm_response_cache = None,
      sc_adaptive_token_estimation = None\<rparr>"

theorem embedding_provider_unchecked:
  "mk_semantic_config (program_lookups (\<lambda>_. None)) foreign_provider_sc = Inr foreign_provider_sc \<and>
   (\<exists>rs. resolve_semantic (Some foreign_provider_sc) = Inr rs \<and>
      embedding_type_from_config (example_env rs) None = Inl PyAttributeError)"
proof -
  obtain e where e: "find_embedding (program_lookups (\<lambda>_. None)) GOOGLE_VERTEX ''gemini-embedding-001'' = Some e"
    using example_lookup_emb by blast
  have n: "find_embedding (program_lookups (\<lambda>_. None)) OPENAI ''gemini-embedding-001'' = None"
    by (simp add: table_lookup)
  show ?thesis
    using e n
    by (simp add: foreign_provider_sc_def mk_semantic_config_def Let_def model_post_init_def single_default_def
        profile_default_def validate_models_def validate_default_model_def validate_embedding_model_def
        validate_embedding_profiled_def profiled_fields_def name_defs resolve_semantic_def resolve_models_def
        resolve_profiles_def embedding_type_from_config_def example_env_def session_view_def)
qed

text \<open>The dimensionality of a Cohere profile is validated and sent, but not used for the type.\<close>

definition cohere_sc :: SemanticConfig where
  "cohere_sc =
     \<lparr>sc_language_models = None, sc_default_language_model = None,
      sc_embedding_models = Some [(''emb'', CohereEmbeddingModel
        \<lparr>cfg_name = ''embed-v4.0'', cfg_profiles = Some [(''small'', CohereEmbeddingProfile (Some 256) ''classification'')],
         cfg_default = Some ''small''\<rparr> 100 1000)],
      sc_default_embedding_model = Some ''emb'', sc_llm_response_cache = None,
      sc_adaptive_token_estimation = None\<rparr>"

theorem cohere_dimension_ignored:
  "mk_semantic_config (program_lookups (\<lambda>_. None)) cohere_sc = Inr cohere_sc \<and>
   (\<exists>rs. resolve_semantic (Some cohere_sc) = Inr rs \<and>
      embedding_type_from_config (example_env rs) None = Inr (EmbeddingType 1536 ''cohere/embed-v4.0''))"
proof -
  have "\<exists>e. find_embedding (program_lookups (\<lambda>_. None)) COHERE ''embed-v4.0'' = Some e \<and>
      supports_dimensions e 256 \<and> default_dimensions e = 1536"
    by (simp add: table_lookup supports_dimensions_def)
  then obtain e where e: "find_embedding (program_lookups (\<lambda>_. None)) COHERE ''embed-v4.0'' = Some e"
    "supports_dimensions e 256" "default_dimensions e = 1536" by blast
  then show ?thesis
    by (simp add: cohere_sc_def mk_semantic_config_def Let_def model_post_init_def single_default_def
        profile_default_def validate_models_def validate_default_model_def validate_embedding_model_def
        validate_embedding_profiled_def validate_default_profile_def validate_dimensionality_def profiled_fields_def
        cohere_profile_fields_def opt_int_def CohereEmbeddingTaskType_def name_defs resolve_semantic_def
        resolve_models_def resolve_profiles_def embedding_type_from_config_def example_env_def session_view_def
        EmbeddingModelParameters.truncate_def provider_value_def)
qed

text \<open>The strategy for structured outputs belongs to the model, but only its profiles keep it.\<close>

theorem strategy_lost_without_profiles:
  "resolve_language_model (OpenRouterLanguageModel
     \<lparr>cfg_name = n, cfg_profiles = None, cfg_default = None\<rparr> (Some ''prefer_tools'')) =
   resolve_language_model (OpenRouterLanguageModel
     \<lparr>cfg_name = n, cfg_profiles = None, cfg_default = None\<rparr> None)"
  by (simp add: resolve_profiles_def)

end
