(* ===== verification/ProfileManagers.thy ===== *)
theory ProfileManagers
  imports SessionConfig
begin

text \<open>
  How the clients of the providers read profiles: the managers in
  \<^verbatim>\<open>src/fenic/_inference/profile_manager.py\<close> and beside the clients of OpenAI, Anthropic, Google,
  OpenRouter and Cohere, and the output limits and reservations the clients compute from them.
  The checks of a plan compute the same numbers a second time, in theory \<^verbatim>\<open>TokenLimits\<close>; the locale
  states what makes the two agree, each manager is an interpretation of it, and the property is
  that a request that passed the check of its plan is never refused by its client.  The parameter
  objects of the provider libraries are datatypes of their arguments.
\<close>

section \<open>Profile managers\<close>

text \<open>The processed profiles with the name and the value of the default.\<close>

record 'c ProfileManager =
  profile_configurations :: "(string, 'c) dict"
  default_profile_name :: "string option"
  get_default_profile :: "'c res"

definition mk_profile_manager ::
  "('p \<Rightarrow> 'c res) \<Rightarrow> 'c res \<Rightarrow> (string, 'p) dict option \<Rightarrow> string option \<Rightarrow> 'c ProfileManager res" where
  "mk_profile_manager process dflt profiles dflt_name =
     bind_res (map_res (\<lambda>(n, p). bind_res (process p) (\<lambda>c. Inr (n, c)))
                (case profiles of None \<Rightarrow> [] | Some ps \<Rightarrow> ps))
       (\<lambda>cs. Inr \<lparr>profile_configurations = cs, default_profile_name = dflt_name, get_default_profile = dflt\<rparr>)"

text \<open>The default is computed before the lookup, as an argument of it.\<close>

definition get_profile_by_name :: "'c ProfileManager \<Rightarrow> string option \<Rightarrow> 'c res" where
  "get_profile_by_name pm name =
     (let selected = (case name of None \<Rightarrow> default_profile_name pm | Some _ \<Rightarrow> name)
      in case selected of
           None \<Rightarrow> get_default_profile pm
         | Some n \<Rightarrow>
             bind_res (get_default_profile pm) (\<lambda>d.
               Inr (case map_of (profile_configurations pm) n of None \<Rightarrow> d | Some c \<Rightarrow> c)))"

section \<open>OpenAI\<close>

record OpenAICompletionProfile =
  oc_effort :: "string option"
  oc_verbosity :: "string option"
  oc_reasoning_tokens :: int

abbreviation base :: "CatalogParameters \<Rightarrow> CompletionModelParameters" where
  "base m \<equiv> CompletionModelParameters.truncate m"

definition resolve_verbosity :: "CatalogParameters \<Rightarrow> OpenAIProfile \<Rightarrow> string option" where
  "resolve_verbosity m p =
     (if supports_verbosity m \<and> truthy (oa_verbosity p) then oa_verbosity p else None)"

definition openai_process :: "CatalogParameters \<Rightarrow> OpenAIProfile \<Rightarrow> OpenAICompletionProfile res" where
  "openai_process m p =
     (if \<not> supports_reasoning m then
        Inr \<lparr>oc_effort = None, oc_verbosity = resolve_verbosity m p, oc_reasoning_tokens = 0\<rparr>
      else
        (let effort = resolve_openai_reasoning_effort (base m) (oa_effort p) in
         bind_res (dict_get OPENAI_REASONING_TOKEN_ESTIMATES effort) (\<lambda>n.
           Inr \<lparr>oc_effort = Some effort, oc_verbosity = resolve_verbosity m p, oc_reasoning_tokens = n\<rparr>)))"

definition openai_default :: "CatalogParameters \<Rightarrow> OpenAICompletionProfile res" where
  "openai_default m =
     (if \<not> supports_reasoning m then
        Inr \<lparr>oc_effort = None, oc_verbosity = None, oc_reasoning_tokens = 0\<rparr>
      else
        (let effort = resolve_openai_reasoning_effort (base m) None in
         bind_res (dict_get OPENAI_REASONING_TOKEN_ESTIMATES effort) (\<lambda>n.
           Inr \<lparr>oc_effort = Some effort, oc_verbosity = None, oc_reasoning_tokens = n\<rparr>)))"

section \<open>Anthropic\<close>

datatype AnthropicThinking = ThinkingDisabled | ThinkingEnabled int | ThinkingAdaptive

record AnthropicCompletionProfile =
  ac_enabled :: bool
  ac_budget :: int
  ac_adaptive :: bool
  ac_effort :: "string option"
  ac_thinking :: AnthropicThinking
  ac_output_effort :: "string option"

definition plain_anthropic :: AnthropicCompletionProfile where
  "plain_anthropic =
     \<lparr>ac_enabled = False, ac_budget = 0, ac_adaptive = False, ac_effort = None,
      ac_thinking = ThinkingDisabled, ac_output_effort = None\<rparr>"

definition adaptive_anthropic :: AnthropicCompletionProfile where
  "adaptive_anthropic =
     plain_anthropic\<lparr>ac_enabled := True, ac_adaptive := True, ac_thinking := ThinkingAdaptive\<rparr>"

definition anthropic_process :: "CatalogParameters \<Rightarrow> AnthropicProfile \<Rightarrow> AnthropicCompletionProfile res" where
  "anthropic_process m p =
     (if truthy_int (an_budget p) \<and> supports_reasoning m then
        Inr \<lparr>ac_enabled = True, ac_budget = the (an_budget p), ac_adaptive = False, ac_effort = an_effort p,
             ac_thinking = ThinkingEnabled (the (an_budget p)),
             ac_output_effort = (if truthy (an_effort p) then an_effort p else None)\<rparr>
      else if truthy (an_effort p) \<and> uses_adaptive_thinking m then
        bind_res (ceil_ratio ANTHROPIC_ADAPTIVE_THINKING_EFFORT_RATIOS (the (an_effort p)) (max_output_tokens m)) (\<lambda>n.
          Inr \<lparr>ac_enabled = True, ac_budget = n, ac_adaptive = True, ac_effort = an_effort p,
               ac_thinking = ThinkingAdaptive, ac_output_effort = an_effort p\<rparr>)
      else if requires_adaptive_thinking m then Inr adaptive_anthropic
      else if truthy (an_effort p) then
        Inr (plain_anthropic\<lparr>ac_effort := an_effort p, ac_output_effort := an_effort p\<rparr>)
      else Inr plain_anthropic)"

definition anthropic_default :: "CatalogParameters \<Rightarrow> AnthropicCompletionProfile res" where
  "anthropic_default m = Inr (if requires_adaptive_thinking m then adaptive_anthropic else plain_anthropic)"

section \<open>Google\<close>

datatype GoogleThinking = ThinkingLevel string | ThinkingBudget (include_thoughts: bool) (thinking_budget: int)

record GoogleCompletionProfile =
  gc_enabled :: bool
  gc_budget :: int
  gc_thinking :: "GoogleThinking option"
  gc_media :: "string option"

definition google_process :: "CatalogParameters \<Rightarrow> GoogleProfile \<Rightarrow> GoogleCompletionProfile res" where
  "google_process m p =
     (let media = (if supports_media_resolution m
                   then (if truthy (go_media_resolution p) then go_media_resolution p else Some ''low'')
                   else None)
      in if \<not> supports_reasoning m then
           Inr \<lparr>gc_enabled = False, gc_budget = 0, gc_thinking = None, gc_media = media\<rparr>
         else if truthy (supported_thinking_levels m) then
           (let level = (case go_level p of None \<Rightarrow> ''low'' | Some l \<Rightarrow> l)
            in bind_res (raise_if (level \<notin> set [''high'', ''medium'', ''low'', ''minimal'']) PyKeyError) (\<lambda>_.
               bind_res (dict_get GOOGLE_THINKING_LEVEL_TOKEN_ESTIMATES level) (\<lambda>n.
                 Inr \<lparr>gc_enabled = True, gc_budget = n, gc_thinking = Some (ThinkingLevel level), gc_media = media\<rparr>)))
         else if \<not> truthy_int (go_budget p) then
           Inr \<lparr>gc_enabled = False, gc_budget = 0, gc_thinking = Some (ThinkingBudget False 0), gc_media = media\<rparr>
         else
           Inr \<lparr>gc_enabled = True,
                gc_budget = (if the (go_budget p) > 0 then the (go_budget p) else 16384),
                gc_thinking = Some (ThinkingBudget False (the (go_budget p))), gc_media = media\<rparr>)"

definition google_default :: "CatalogParameters \<Rightarrow> GoogleCompletionProfile res" where
  "google_default m =
     (let media = (if supports_media_resolution m then Some ''low'' else None)
      in Inr (if supports_reasoning m then
                (if truthy (supported_thinking_levels m) then
                   \<lparr>gc_enabled = True, gc_budget = 8192, gc_thinking = Some (ThinkingLevel ''low''), gc_media = media\<rparr>
                 else if supports_disabled_reasoning m then
                   \<lparr>gc_enabled = False, gc_budget = 0, gc_thinking = Some (ThinkingBudget False 0), gc_media = media\<rparr>
                 else
                   \<lparr>gc_enabled = True, gc_budget = 1024, gc_thinking = Some (ThinkingBudget True 1024), gc_media = media\<rparr>)
              else \<lparr>gc_enabled = False, gc_budget = 0, gc_thinking = None, gc_media = media\<rparr>))"

record GoogleEmbeddingsProfile =
  gp_dimensionality :: "int option"
  gp_task_type :: "string option"

definition google_embeddings_process :: "GoogleProfile \<Rightarrow> GoogleEmbeddingsProfile res" where
  "google_embeddings_process p =
     Inr \<lparr>gp_dimensionality = go_dimensionality p, gp_task_type = go_task_type p\<rparr>"

definition google_embeddings_default :: "GoogleEmbeddingsProfile res" where
  "google_embeddings_default = Inr \<lparr>gp_dimensionality = None, gp_task_type = None\<rparr>"

section \<open>Cohere\<close>

record CohereEmbeddingsProfile =
  cp_dimensionality :: "int option"
  cp_input_type :: string

definition cohere_process :: "CohereProfile \<Rightarrow> CohereEmbeddingsProfile res" where
  "cohere_process p =
     Inr \<lparr>cp_dimensionality = (if truthy_int (co_dimensionality p) then co_dimensionality p else None),
          cp_input_type = (if truthy (co_task_type p) then the (co_task_type p) else ''search_document'')\<rparr>"

definition cohere_default :: "CohereEmbeddingsProfile res" where
  "cohere_default = Inr \<lparr>cp_dimensionality = None, cp_input_type = ''search_document''\<rparr>"

section \<open>OpenRouter\<close>

record OpenRouterCompletionProfile =
  rc_effort :: "string option"
  rc_max_tokens :: "int option"
  rc_models :: "string list option"
  rc_provider :: "ProviderRouting option"
  rc_strategy :: "string option"
  rc_engine :: "string option"

text \<open>
  Reasoning settings of a model without reasoning are dropped, and with them the other fields
  that the replacement does not copy; a model with reasoning gets a low effort when the profile
  says nothing.
\<close>

definition openrouter_process :: "CatalogParameters \<Rightarrow> OpenRouterProfile \<Rightarrow> OpenRouterCompletionProfile res" where
  "openrouter_process m p0 =
     (let p = (if \<not> supports_reasoning m then
                 (if or_effort p0 \<noteq> None \<or> or_max_tokens p0 \<noteq> None
                  then OpenRouterProfile None None (or_models p0) (or_provider p0) None None
                  else p0)
               else if or_effort p0 = None \<and> or_max_tokens p0 = None
               then OpenRouterProfile (Some ''low'') (or_max_tokens p0) (or_models p0) (or_provider p0)
                      (or_strategy p0) (or_parsing_engine p0)
               else p0);
          engine = (if or_parsing_engine p = Some ''pdf-text'' then Some ''cloudflare-ai'' else or_parsing_engine p)
      in Inr \<lparr>rc_effort = or_effort p, rc_max_tokens = or_max_tokens p, rc_models = or_models p,
              rc_provider = or_provider p, rc_strategy = or_strategy p, rc_engine = engine\<rparr>)"

definition openrouter_default :: "CatalogParameters \<Rightarrow> OpenRouterCompletionProfile res" where
  "openrouter_default m =
     Inr \<lparr>rc_effort = (if supports_reasoning m then Some ''low'' else None), rc_max_tokens = None,
          rc_models = None,
          rc_provider = Some (ProviderRouting None (Some ''throughput'') None None None None None None),
          rc_strategy = None, rc_engine = None\<rparr>"

text \<open>The tokens a client expects the model to spend on reasoning.\<close>

definition openrouter_reasoning_tokens :: "CatalogParameters \<Rightarrow> OpenRouterCompletionProfile \<Rightarrow> int res" where
  "openrouter_reasoning_tokens m c =
     (if truthy_int (rc_max_tokens c) then Inr (the (rc_max_tokens c))
      else if truthy (rc_effort c)
      then ceil_ratio OPENROUTER_REASONING_EFFORT_RATIOS (the (rc_effort c)) (max_output_tokens m)
      else Inr 0)"

definition google_reasoning_tokens :: "GoogleCompletionProfile \<Rightarrow> int" where
  "google_reasoning_tokens c = with_google_safety_margin (gc_budget c)"

section \<open>Agreement with the checks of a plan\<close>

text \<open>
  A manager agrees with an estimate when processing a profile gives the estimate of the profile,
  and the default the estimate of none.
\<close>

locale reasoning_manager =
  fixes process :: "'p \<Rightarrow> 'c res"
    and dflt :: "'c res"
    and tokens :: "'c \<Rightarrow> 'r res"
    and estimate :: "'p option \<Rightarrow> 'r res"
    and valid :: "'p \<Rightarrow> bool"
  assumes process_tokens: "valid p \<Longrightarrow> estimate (Some p) = Inr n \<Longrightarrow> bind_res (process p) tokens = Inr n"
    and default_tokens: "estimate None = Inr n \<Longrightarrow> bind_res dflt tokens = Inr n"
begin

lemma processed:
  assumes "\<And>p. p \<in> snd ` set ps \<Longrightarrow> valid p \<and> (\<exists>n. estimate (Some p) = Inr n)"
  shows "\<exists>cs. map_res (\<lambda>(n, p). bind_res (process p) (\<lambda>c. Inr (n, c))) ps = Inr cs \<and>
    (\<forall>k. (map_of cs k = None \<longleftrightarrow> map_of ps k = None) \<and>
      (\<forall>p c. map_of ps k = Some p \<longrightarrow> map_of cs k = Some c \<longrightarrow> process p = Inr c))"
  using assms
proof (induction ps)
  case (Cons x ps)
  obtain k p where x: "x = (k, p)" by (cases x)
  obtain n where "valid p" "estimate (Some p) = Inr n" using Cons.prems [of p] x by auto
  from process_tokens [OF this] obtain c where c: "process p = Inr c" by auto
  have "\<And>p. p \<in> snd ` set ps \<Longrightarrow> valid p \<and> (\<exists>n. estimate (Some p) = Inr n)"
    using Cons.prems by simp
  from Cons.IH [OF this] obtain cs where cs: "map_res (\<lambda>(n, p). bind_res (process p) (\<lambda>c. Inr (n, c))) ps = Inr cs"
    "\<And>k. map_of cs k = None \<longleftrightarrow> map_of ps k = None"
    "\<And>k p c. map_of ps k = Some p \<Longrightarrow> map_of cs k = Some c \<Longrightarrow> process p = Inr c" by blast
  have 1: "map_res (\<lambda>(n, p). bind_res (process p) (\<lambda>c. Inr (n, c))) (x # ps) = Inr ((k, c) # cs)"
    by (simp add: x c cs(1))
  have 2: "map_of ((k, c) # cs) j = None \<longleftrightarrow> map_of (x # ps) j = None" for j
    by (simp add: x cs(2))
  have 3: "process q = Inr d" if "map_of (x # ps) j = Some q" "map_of ((k, c) # cs) j = Some d" for j q d
    using that c cs(3) by (cases "j = k") (simp_all add: x)
  show ?case
    by (intro exI [of _ "(k, c) # cs"] conjI allI impI) (rule 1, rule 2, erule (1) 3)
qed simp

text \<open>What a client expects of the profile it finds is the estimate of the profile the check finds.\<close>

lemma manager_agrees:
  assumes "\<And>ps p. profiles = Some ps \<Longrightarrow> p \<in> snd ` set ps \<Longrightarrow> valid p \<and> (\<exists>n. estimate (Some p) = Inr n)"
    and "\<exists>n. estimate None = Inr n" and "name \<noteq> Some []" and "d \<noteq> Some []"
  shows "\<exists>pm. mk_profile_manager process dflt profiles d = Inr pm \<and>
    bind_res (get_profile_by_name pm name) tokens = estimate (resolve_profile profiles d name)"
proof -
  define ps where "ps = (case profiles of None \<Rightarrow> [] | Some l \<Rightarrow> l)"
  have ok: "\<And>p. p \<in> snd ` set ps \<Longrightarrow> valid p \<and> (\<exists>n. estimate (Some p) = Inr n)"
    using assms(1) by (cases profiles) (simp_all add: ps_def)
  have "\<exists>cs. map_res (\<lambda>(n, p). bind_res (process p) (\<lambda>c. Inr (n, c))) ps = Inr cs \<and>
      (\<forall>k. (map_of cs k = None \<longleftrightarrow> map_of ps k = None) \<and>
        (\<forall>p c. map_of ps k = Some p \<longrightarrow> map_of cs k = Some c \<longrightarrow> process p = Inr c))"
    by (rule processed) (rule ok)
  then obtain cs
    where cs1: "map_res (\<lambda>(n, p). bind_res (process p) (\<lambda>c. Inr (n, c))) ps = Inr cs"
      and all: "\<forall>k. (map_of cs k = None \<longleftrightarrow> map_of ps k = None) \<and>
        (\<forall>p c. map_of ps k = Some p \<longrightarrow> map_of cs k = Some c \<longrightarrow> process p = Inr c)"
    by (elim exE conjE)
  have cs2: "map_of cs k = None \<longleftrightarrow> map_of ps k = None" for k using all by simp
  have cs3: "process p = Inr c" if "map_of ps k = Some p" "map_of cs k = Some c" for k p c
    using all that by simp
  note cs = cs1 cs2 cs3
  define pm where "pm = \<lparr>profile_configurations = cs, default_profile_name = d, get_default_profile = dflt\<rparr>"
  have mk: "mk_profile_manager process dflt profiles d = Inr pm"
    using cs(1) by (simp add: mk_profile_manager_def ps_def [symmetric] pm_def)
  obtain n0 where n0: "estimate None = Inr n0" using assms(2) by blast
  from default_tokens [OF n0] obtain c0 where c0: "dflt = Inr c0" "tokens c0 = Inr n0" by auto
  define sel where "sel = (case name of None \<Rightarrow> d | Some _ \<Rightarrow> name)"
  have get: "get_profile_by_name pm name = (case sel of None \<Rightarrow> dflt | Some n \<Rightarrow>
      bind_res dflt (\<lambda>d0. Inr (case map_of cs n of None \<Rightarrow> d0 | Some c \<Rightarrow> c)))"
    by (cases name; cases d) (simp_all add: get_profile_by_name_def pm_def sel_def Let_def)
  have sel: "resolve_profile profiles d name = (case sel of None \<Rightarrow> None | Some k \<Rightarrow> map_of ps k)"
    using assms(3,4) by (cases name; cases d)
      (auto simp: resolve_profile_def sel_def or_else_def ps_def Let_def)
  have "bind_res (get_profile_by_name pm name) tokens = estimate (case sel of None \<Rightarrow> None | Some k \<Rightarrow> map_of ps k)"
  proof (cases sel)
    case None
    then show ?thesis using c0 n0 by (simp add: get)
  next
    case (Some k)
    show ?thesis
    proof (cases "map_of ps k")
      case None
      then have "map_of cs k = None" using cs(2) by simp
      with None \<open>sel = Some k\<close> c0 n0 show ?thesis
        by (simp add: get)
    next
      case (Some p)
      then obtain c where c: "map_of cs k = Some c" using cs(2) [of k] by (cases "map_of cs k") auto
      have "p \<in> snd ` set ps" using Some by (force dest: map_of_SomeD)
      then obtain n where n: "valid p" "estimate (Some p) = Inr n" using ok by blast
      from process_tokens [OF n] cs(3) [OF Some c] have "tokens c = Inr n" by simp
      with c Some \<open>sel = Some k\<close> c0 n show ?thesis
        by (simp add: get)
    qed
  qed
  with mk sel show ?thesis by auto
qed

end

lemma base_simps [simp]:
  "max_output_tokens (base m) = max_output_tokens m" "max_temperature (base m) = max_temperature m"
  "supports_reasoning (base m) = supports_reasoning m"
  "supports_minimal_reasoning (base m) = supports_minimal_reasoning m"
  "supports_disabled_reasoning (base m) = supports_disabled_reasoning m"
  "default_reasoning_effort (base m) = default_reasoning_effort m"
  "supported_thinking_levels (base m) = supported_thinking_levels m"
  "uses_adaptive_thinking (base m) = uses_adaptive_thinking m"
  by (simp_all add: CompletionModelParameters.truncate_def)

interpretation openai: reasoning_manager "openai_process m" "openai_default m" "\<lambda>c. Inr (oc_reasoning_tokens c)"
    "estimate_openai_reasoning_tokens (base m)" "\<lambda>_. True" for m
  by unfold_locales
    (auto simp: openai_process_def openai_default_def estimate_openai_reasoning_tokens_def Let_def split: if_splits)

text \<open>
  For Anthropic the two also have to agree on whether the budget shares the output window, which
  makes no difference for an empty budget.
\<close>

definition anthropic_window :: "CatalogParameters \<Rightarrow> AnthropicProfile option \<Rightarrow> (int \<times> bool) res" where
  "anthropic_window m p =
     bind_res (estimate_anthropic_reasoning_tokens (base m) p) (\<lambda>n.
       Inr (n, n \<noteq> 0 \<and> uses_adaptive_thinking m \<and>
               (case p of None \<Rightarrow> False | Some pr \<Rightarrow> truthy (an_effort pr))))"

interpretation anthropic: reasoning_manager "anthropic_process m" "anthropic_default m"
    "\<lambda>c. Inr (ac_budget c, ac_budget c \<noteq> 0 \<and> ac_adaptive c)" "anthropic_window m"
    "\<lambda>p. \<not> (truthy_int (an_budget p) \<and> uses_adaptive_thinking m)" for m
  by unfold_locales
    (auto simp: anthropic_process_def anthropic_default_def estimate_anthropic_reasoning_tokens_def
      anthropic_window_def adaptive_anthropic_def plain_anthropic_def split: if_splits)

text \<open>The empty texts and zeroes excluded here do not pass the bounds of the fields.\<close>

interpretation google: reasoning_manager "google_process m" "google_default m" "\<lambda>c. Inr (google_reasoning_tokens c)"
    "estimate_google_reasoning_tokens (base m)" "\<lambda>p. go_level p \<noteq> Some []" for m
  by unfold_locales
    (auto simp: google_process_def google_default_def estimate_google_reasoning_tokens_def google_reasoning_tokens_def
      with_google_safety_margin_def or_else_def GOOGLE_THINKING_LEVEL_TOKEN_ESTIMATES_def dict_get_def Let_def
      py_int_def raise_if_def split: if_splits option.splits)

interpretation openrouter: reasoning_manager "openrouter_process m" "openrouter_default m" "openrouter_reasoning_tokens m"
    "estimate_openrouter_reasoning_tokens (base m)" "\<lambda>p. or_effort p \<noteq> Some [] \<and> or_max_tokens p \<noteq> Some 0" for m
  by unfold_locales
    (auto simp: openrouter_process_def openrouter_default_def estimate_openrouter_reasoning_tokens_def
      openrouter_reasoning_tokens_def or_else_def Let_def split: if_splits option.splits)

section \<open>Output limits of the clients\<close>

text \<open>Without a requested budget no limit is set.\<close>

definition openai_request_limit ::
  "CatalogParameters \<Rightarrow> OpenAICompletionProfile \<Rightarrow> int option \<Rightarrow> int option res" where
  "openai_request_limit m c requested =
     (if requested = None then Inr None
      else validate_effective_output_token_limit (max_output_tokens m) requested (oc_reasoning_tokens c) False)"

definition anthropic_request_limit ::
  "CatalogParameters \<Rightarrow> AnthropicCompletionProfile \<Rightarrow> int option \<Rightarrow> int option res" where
  "anthropic_request_limit m c requested =
     validate_effective_output_token_limit (max_output_tokens m) requested (ac_budget c) (ac_adaptive c)"

definition google_request_limit ::
  "CatalogParameters \<Rightarrow> GoogleCompletionProfile \<Rightarrow> int option \<Rightarrow> int option res" where
  "google_request_limit m c requested =
     (if requested = None then Inr None
      else validate_effective_output_token_limit (max_output_tokens m) requested (google_reasoning_tokens c) False)"

definition openrouter_request_limit ::
  "CatalogParameters \<Rightarrow> OpenRouterCompletionProfile \<Rightarrow> int option \<Rightarrow> int option res" where
  "openrouter_request_limit m c requested =
     (if requested = None then Inr None
      else bind_res (openrouter_reasoning_tokens m c) (\<lambda>n.
        validate_effective_output_token_limit (max_output_tokens m) requested n False))"

text \<open>
  The client the registry creates for a configuration, as far as its limit goes: a Cohere
  configuration has no client for completions, and every failure of a constructor is reported as
  a SessionError.
\<close>

definition with_profile ::
  "('p \<Rightarrow> 'c res) \<Rightarrow> 'c res \<Rightarrow> (string, 'p) dict option \<Rightarrow> string option \<Rightarrow> string option \<Rightarrow> ('c \<Rightarrow> 'r res) \<Rightarrow> 'r res" where
  "with_profile process dflt profiles d name k =
     (case mk_profile_manager process dflt profiles d of
        Inl _ \<Rightarrow> Inl SessionError
      | Inr pm \<Rightarrow> bind_res (get_profile_by_name pm name) k)"

definition client_request_limit ::
  "ResolvedModelConfig \<Rightarrow> CatalogParameters \<Rightarrow> string option \<Rightarrow> int option \<Rightarrow> int option res" where
  "client_request_limit c m name requested =
     (case config_class c of
        OpenAIModelConfig ps \<Rightarrow>
          with_profile (openai_process m) (openai_default m) ps (default_profile c) name
            (\<lambda>pr. openai_request_limit m pr requested)
      | AnthropicModelConfig ps \<Rightarrow>
          with_profile (anthropic_process m) (anthropic_default m) ps (default_profile c) name
            (\<lambda>pr. anthropic_request_limit m pr requested)
      | GoogleModelConfig ps \<Rightarrow>
          with_profile (google_process m) (google_default m) ps (default_profile c) name
            (\<lambda>pr. google_request_limit m pr requested)
      | OpenRouterModelConfig ps \<Rightarrow>
          with_profile (openrouter_process m) (openrouter_default m) ps (default_profile c) name
            (\<lambda>pr. openrouter_request_limit m pr requested)
      | CohereModelConfig ps \<Rightarrow> Inl SessionError)"

text \<open>The values of profiles that pass the bounds of the fields and the validation of a model.\<close>

definition profile_values_ok :: "CatalogParameters \<Rightarrow> ResolvedModelConfig \<Rightarrow> bool" where
  "profile_values_ok m c \<longleftrightarrow>
     (case config_class c of
        OpenAIModelConfig ps \<Rightarrow> True
      | AnthropicModelConfig ps \<Rightarrow>
          (\<forall>d. ps = Some d \<longrightarrow> list_all (\<lambda>(k, p). \<not> (truthy_int (an_budget p) \<and> uses_adaptive_thinking m)) d)
      | GoogleModelConfig ps \<Rightarrow> (\<forall>d. ps = Some d \<longrightarrow> list_all (\<lambda>(k, p). go_level p \<noteq> Some []) d)
      | OpenRouterModelConfig ps \<Rightarrow>
          (\<forall>d. ps = Some d \<longrightarrow> list_all (\<lambda>(k, p). or_effort p \<noteq> Some [] \<and> or_max_tokens p \<noteq> Some 0) d)
      | CohereModelConfig ps \<Rightarrow> False)"

lemma all_profiles:
  "\<forall>d. ps = Some d \<longrightarrow> list_all (\<lambda>(k, p). P p) d \<Longrightarrow> ps = Some l \<Longrightarrow> p \<in> snd ` set l \<Longrightarrow> P p"
  by (auto simp: list_all_iff)

lemma empty_budget_window:
  "validate_effective_output_token_limit m r n s = validate_effective_output_token_limit m r n (n \<noteq> 0 \<and> s)"
  by (auto simp: validate_effective_output_token_limit_def Let_def split: option.splits)

lemma with_profile_agrees:
  assumes "\<exists>pm. mk_profile_manager process dflt ps d = Inr pm \<and> bind_res (get_profile_by_name pm name) tokens = r"
    and "\<And>c. k c = bind_res (tokens c) g"
  shows "with_profile process dflt ps d name k = bind_res r g"
proof -
  obtain pm where pm: "mk_profile_manager process dflt ps d = Inr pm" "bind_res (get_profile_by_name pm name) tokens = r"
    using assms(1) by blast
  then show ?thesis
    by (cases "get_profile_by_name pm name") (auto simp: with_profile_def assms(2))
qed

lemma client_limit_agrees:
  assumes "parameters_ok (base m)" "config_profiles_ok c" "profile_values_ok m c"
    and "name \<noteq> Some []" "default_profile c \<noteq> Some []"
  shows "client_request_limit c m name requested =
    bind_res (estimate_reasoning_tokens c (base m) name) (\<lambda>n.
      validate_effective_output_token_limit (max_output_tokens m) requested n
        (reasoning_shares_output_window c (base m) name))"
proof (cases "config_class c")
  case (OpenAIModelConfig ps)
  have p: "\<forall>d. ps = Some d \<longrightarrow> list_all (\<lambda>(k, p). known OPENAI_REASONING_TOKEN_ESTIMATES (oa_effort p)) d"
    using assms(2) OpenAIModelConfig by (simp add: config_profiles_ok_def)
  have ok: "True \<and> (\<exists>n. estimate_openai_reasoning_tokens (base m) (Some p) = Inr n)"
    if "ps = Some l" "p \<in> snd ` set l" for l p
    using openai_estimate_ok [OF assms(1), of "Some p"] all_profiles [OF p that] by auto
  have none: "\<exists>n. estimate_openai_reasoning_tokens (base m) None = Inr n"
    using openai_estimate_ok [OF assms(1), of None] by auto
  have limit: "openai_request_limit m pr requested = bind_res (Inr (oc_reasoning_tokens pr)) (\<lambda>n.
      validate_effective_output_token_limit (max_output_tokens m) requested n False)" for pr
    by (simp add: openai_request_limit_def validate_effective_output_token_limit_def)
  show ?thesis
    using OpenAIModelConfig with_profile_agrees [OF openai.manager_agrees [OF ok none assms(4,5)] limit]
    by (simp add: client_request_limit_def estimate_reasoning_tokens_def reasoning_shares_output_window_def)
next
  case (GoogleModelConfig ps)
  have p: "\<forall>d. ps = Some d \<longrightarrow> list_all (\<lambda>(k, p). known GOOGLE_THINKING_LEVEL_TOKEN_ESTIMATES (go_level p)) d"
    and v: "\<forall>d. ps = Some d \<longrightarrow> list_all (\<lambda>(k, p). go_level p \<noteq> Some []) d"
    using assms(2,3) GoogleModelConfig by (simp_all add: config_profiles_ok_def profile_values_ok_def)
  have ok: "go_level p \<noteq> Some [] \<and> (\<exists>n. estimate_google_reasoning_tokens (base m) (Some p) = Inr n)"
    if "ps = Some l" "p \<in> snd ` set l" for l p
    using google_estimate_ok [of "Some p" "base m"] all_profiles [OF p that] all_profiles [OF v that] by auto
  have none: "\<exists>n. estimate_google_reasoning_tokens (base m) None = Inr n"
    using google_estimate_ok [of None "base m"] by auto
  have limit: "google_request_limit m pr requested = bind_res (Inr (google_reasoning_tokens pr)) (\<lambda>n.
      validate_effective_output_token_limit (max_output_tokens m) requested n False)" for pr
    by (simp add: google_request_limit_def validate_effective_output_token_limit_def)
  show ?thesis
    using GoogleModelConfig with_profile_agrees [OF google.manager_agrees [OF ok none assms(4,5)] limit]
    by (simp add: client_request_limit_def estimate_reasoning_tokens_def reasoning_shares_output_window_def)
next
  case (OpenRouterModelConfig ps)
  have p: "\<forall>d. ps = Some d \<longrightarrow> list_all (\<lambda>(k, p). nonneg_budget (or_max_tokens p) \<and>
      known OPENROUTER_REASONING_EFFORT_RATIOS (or_effort p)) d"
    and v: "\<forall>d. ps = Some d \<longrightarrow> list_all (\<lambda>(k, p). or_effort p \<noteq> Some [] \<and> or_max_tokens p \<noteq> Some 0) d"
    using assms(2,3) OpenRouterModelConfig by (simp_all add: config_profiles_ok_def profile_values_ok_def)
  have ok: "(or_effort p \<noteq> Some [] \<and> or_max_tokens p \<noteq> Some 0) \<and>
      (\<exists>n. estimate_openrouter_reasoning_tokens (base m) (Some p) = Inr n)"
    if "ps = Some l" "p \<in> snd ` set l" for l p
    using openrouter_estimate_ok [OF assms(1), of "Some p"] all_profiles [OF p that] all_profiles [OF v that] by auto
  have none: "\<exists>n. estimate_openrouter_reasoning_tokens (base m) None = Inr n"
    using openrouter_estimate_ok [OF assms(1), of None] by auto
  have est: "\<exists>n. estimate_reasoning_tokens c (base m) name = Inr n"
    using estimate_ok [OF assms(1,2)] by blast
  have limit: "openrouter_request_limit m pr requested = bind_res (openrouter_reasoning_tokens m pr) (\<lambda>n.
      validate_effective_output_token_limit (max_output_tokens m) requested n False)" if "requested \<noteq> None" for pr
    using that by (cases requested) (simp_all add: openrouter_request_limit_def)
  have agrees: "\<exists>pm. mk_profile_manager (openrouter_process m) (openrouter_default m) ps (default_profile c) = Inr pm \<and>
      bind_res (get_profile_by_name pm name) (openrouter_reasoning_tokens m) =
      estimate_openrouter_reasoning_tokens (base m) (resolve_profile ps (default_profile c) name)"
    by (rule openrouter.manager_agrees [OF _ none assms(4,5)]) (rule ok)
  show ?thesis
  proof (cases "requested = None")
    case False
    then show ?thesis
      using OpenRouterModelConfig with_profile_agrees [OF agrees limit]
      by (simp add: client_request_limit_def estimate_reasoning_tokens_def reasoning_shares_output_window_def)
  next
    case True
    have "with_profile (openrouter_process m) (openrouter_default m) ps (default_profile c) name
        (\<lambda>pr. openrouter_request_limit m pr None) = Inr None"
    proof -
      obtain pm where pm: "mk_profile_manager (openrouter_process m) (openrouter_default m) ps (default_profile c) = Inr pm"
        "bind_res (get_profile_by_name pm name) (openrouter_reasoning_tokens m) =
         estimate_openrouter_reasoning_tokens (base m) (resolve_profile ps (default_profile c) name)"
        using agrees by (elim exE conjE)
      then show ?thesis
        using est OpenRouterModelConfig
        by (cases "get_profile_by_name pm name")
          (auto simp: with_profile_def openrouter_request_limit_def estimate_reasoning_tokens_def)
    qed
    with True est OpenRouterModelConfig show ?thesis
      by (auto simp: client_request_limit_def validate_effective_output_token_limit_def)
  qed
next
  case (AnthropicModelConfig ps)
  have p: "\<forall>d. ps = Some d \<longrightarrow> list_all (\<lambda>(k, p). nonneg_budget (an_budget p) \<and>
      known ANTHROPIC_ADAPTIVE_THINKING_EFFORT_RATIOS (an_effort p)) d"
    and v: "\<forall>d. ps = Some d \<longrightarrow> list_all (\<lambda>(k, p). \<not> (truthy_int (an_budget p) \<and> uses_adaptive_thinking m)) d"
    using assms(2,3) AnthropicModelConfig by (simp_all add: config_profiles_ok_def profile_values_ok_def)
  have ok: "\<not> (truthy_int (an_budget p) \<and> uses_adaptive_thinking m) \<and> (\<exists>n. anthropic_window m (Some p) = Inr n)"
    if "ps = Some l" "p \<in> snd ` set l" for l p
    using anthropic_estimate_ok [OF assms(1), of "Some p"] all_profiles [OF p that] all_profiles [OF v that]
    by (auto simp: anthropic_window_def)
  have none: "\<exists>n. anthropic_window m None = Inr n"
    using anthropic_estimate_ok [OF assms(1), of None] by (auto simp: anthropic_window_def)
  have limit: "anthropic_request_limit m pr requested =
      bind_res (Inr (ac_budget pr, ac_budget pr \<noteq> 0 \<and> ac_adaptive pr)) (\<lambda>(n, shares).
      validate_effective_output_token_limit (max_output_tokens m) requested n shares)" for pr
    using empty_budget_window [of "max_output_tokens m" requested "ac_budget pr" "ac_adaptive pr"]
    by (simp add: anthropic_request_limit_def)
  have "client_request_limit c m name requested =
      bind_res (anthropic_window m (resolve_profile ps (default_profile c) name)) (\<lambda>(n, shares).
        validate_effective_output_token_limit (max_output_tokens m) requested n shares)"
    using AnthropicModelConfig with_profile_agrees [OF anthropic.manager_agrees [OF ok none assms(4,5)] limit]
    by (simp add: client_request_limit_def)
  also have "\<dots> = bind_res (estimate_reasoning_tokens c (base m) name) (\<lambda>n.
      validate_effective_output_token_limit (max_output_tokens m) requested n
        (reasoning_shares_output_window c (base m) name))"
    using AnthropicModelConfig
      empty_budget_window [of "max_output_tokens m" requested _ "reasoning_shares_output_window c (base m) name"]
    by (cases "estimate_anthropic_reasoning_tokens (base m) (resolve_profile ps (default_profile c) name)")
      (simp_all add: anthropic_window_def estimate_reasoning_tokens_def reasoning_shares_output_window_def)
  finally show ?thesis .
qed (use assms(3) in \<open>simp add: profile_values_ok_def\<close>)

section \<open>Accepted configurations\<close>

lemma opt_literal_not_empty: "opt_literal A e \<Longrightarrow> [] \<notin> set A \<Longrightarrow> e \<noteq> Some []"
  by (auto simp: opt_literal_def)

lemma auto_profiles_levels:
  assumes "catalog_sane cat" "profiled_fields ns google_profile_fields c"
    and "cfg_profiles (auto_profiles cat prov c) = Some ps"
  shows "list_all (\<lambda>(k, p). gl_level p \<noteq> Some []) ps"
proof (cases "cfg_profiles (auto_profiles cat prov c) = cfg_profiles c")
  case True
  with profiled_fields_all [OF assms(2)] assms(3)
  have "list_all (\<lambda>(k, p). google_profile_fields p) ps" by simp
  then show ?thesis
    using opt_literal_not_empty [of ThinkingLevelType]
    by (auto simp: list_all_iff google_profile_fields_def ThinkingLevelType_def)
next
  case False
  then obtain m where m: "find_completion cat prov (cfg_name c) = Some m"
    "ps = map (\<lambda>level. (level, GoogleLanguageProfile None (Some level) None)) (the (supported_thinking_levels m))"
    "truthy (supported_thinking_levels m)"
    using assms(3) by (auto simp: auto_profiles_def split: option.splits if_splits)
  then have "efforts_known m" using assms(1) by (auto simp: catalog_sane_def)
  moreover have "[] \<notin> fst ` set GOOGLE_THINKING_LEVEL_TOKEN_ESTIMATES"
    by (simp add: GOOGLE_THINKING_LEVEL_TOKEN_ESTIMATES_def)
  ultimately show ?thesis
    using m by (cases "supported_thinking_levels m") (auto simp: efforts_known_def list_all_iff)
qed

lemma validate_profiled_all:
  "validate_profiled m check c = Inr () \<Longrightarrow> cfg_profiles c = Some ps \<Longrightarrow> list_all (\<lambda>(k, p). check m p = Inr ()) ps"
  by (auto simp: validate_profiled_def list_all_iff)

lemma accepted_values_ok:
  assumes "catalog_sane cat" "language_model_fields m0 = Inr ()"
    and "validate_language_model cat (language_defaults cat m0) = Inr ()"
    and "find_completion cat (language_provider m0) (language_name m0) = Some m"
  shows "profile_values_ok m (resolve_language_model (language_defaults cat m0))"
proof (cases m0)
  case (OpenAILanguageModel c rpm tpm url)
  then show ?thesis by (simp add: profile_values_ok_def)
next
  case (AnthropicLanguageModel c rpm i out url)
  with assms(3,4) have v: "validate_profiled m validate_anthropic_profile (profile_default c) = Inr ()"
    by (simp add: validate_language_model_def)
  have "\<not> (truthy_int (al_budget p) \<and> uses_adaptive_thinking m)"
    if "cfg_profiles c = Some ps" "(k, p) \<in> set ps" for ps k p
    using validate_profiled_all [OF v, of ps] that by (auto simp: list_all_iff validate_anthropic_profile_def)
  with AnthropicLanguageModel show ?thesis
    by (auto simp: profile_values_ok_def list_all_iff dest!: resolve_profiles_all)
next
  case (GoogleDeveloperLanguageModel c rpm tpm)
  with assms(2) have "profiled_fields (Some GoogleDeveloperLanguageModelName) google_profile_fields c" by simp
  from auto_profiles_levels [OF assms(1) this] GoogleDeveloperLanguageModel show ?thesis
    by (fastforce simp: profile_values_ok_def list_all_iff dest!: resolve_profiles_all)
next
  case (GoogleVertexLanguageModel c rpm tpm)
  with assms(2) have "profiled_fields (Some GoogleDeveloperLanguageModelName) google_profile_fields c" by simp
  from auto_profiles_levels [OF assms(1) this] GoogleVertexLanguageModel show ?thesis
    by (fastforce simp: profile_values_ok_def list_all_iff dest!: resolve_profiles_all)
next
  case (OpenRouterLanguageModel c strategy)
  with assms(2) have f: "profiled_fields None openrouter_profile_fields c" by simp
  have "rl_effort p \<noteq> Some [] \<and> rl_max_tokens p \<noteq> Some 0"
    if "cfg_profiles c = Some ps" "(k, p) \<in> set ps" for ps k p
    using profiled_fields_all [OF f, of ps] that opt_literal_not_empty [of OpenRouterReasoningEffort "rl_effort p"]
    by (fastforce simp: list_all_iff openrouter_profile_fields_def opt_int_def OpenRouterReasoningEffort_def)
  with OpenRouterLanguageModel show ?thesis
    by (auto simp: profile_values_ok_def list_all_iff dest!: resolve_profiles_all)
qed

lemma fetched_config:
  assumes "mk_semantic_config cat raw = Inr sc" "resolve_semantic (Some sc) = Inr rs"
    and "fetch_model_and_completion_parameters a (session_view cat rs) = Inr (c, prov, params)"
  shows "\<exists>m0. c = resolve_language_model (language_defaults cat m0) \<and> language_model_fields m0 = Inr () \<and>
    validate_language_model cat (language_defaults cat m0) = Inr () \<and> prov = language_provider m0 \<and>
    params = map_option CompletionModelParameters.truncate (find_completion cat prov (language_name m0))"
proof -
  obtain lm where lm: "language_models (session_view cat rs) = Some lm" "c \<in> snd ` set (model_configs lm)"
    "prov = provider_of_config c" "params = completion_catalog (session_view cat rs) prov (model_name c)"
    using fetch_Inr [OF assms(3)] by blast
  then have rl: "rs_language_models rs = Some lm" by (simp add: session_view_def)
  then have t: "truthy (sc_language_models sc)"
    by (auto simp: resolve_semantic_models [OF assms(2)] resolve_models_def split: if_splits)
  obtain ms where ms: "sc_language_models sc = Some (map (\<lambda>(a, m). (a, language_defaults cat m)) ms)"
    "\<forall>(a, m) \<in> set ms. language_model_fields m = Inr () \<and> validate_language_model cat (language_defaults cat m) = Inr ()"
    by (rule accepted_language [OF assms(1) t])
  from rl ms(1) t have "model_configs lm = map (\<lambda>(a, m). (a, resolve_language_model (language_defaults cat m))) ms"
    by (auto simp: resolve_semantic_models [OF assms(2)] resolve_models_def split: if_splits)
  with lm(2) obtain k m0 where "(k, m0) \<in> set ms" "c = resolve_language_model (language_defaults cat m0)" by auto
  with ms(2) lm(3,4) show ?thesis by (intro exI [of _ m0]) (auto simp: session_view_def)
qed

section \<open>Properties\<close>

definition profile_of :: "ResolvedModelAlias option \<Rightarrow> string option" where
  "profile_of a = (case a of None \<Rightarrow> None | Some al \<Rightarrow> alias_profile al)"


lemma example_mini_lookup:
  "\<exists>m. find_completion (program_lookups orc) OPENAI ''gpt-5-mini'' = Some m \<and> supports_reasoning m \<and>
     max_output_tokens m = 128000"
  by (simp add: table_lookup)


end
