(* ===== verification/AsyncUDF.thy ===== *)
theory AsyncUDF
  imports TypeInference
begin

text \<open>
  The engine of asynchronous user functions (\<^verbatim>\<open>_backends/local/async_udf_stream.py\<close>) as a step
  relation.  A state holds the tasks with the phase each is in, the buffered results and where the
  generator is suspended; the steps are those of the tasks, of the generator and of its consumer.
  What an attempt on an item answers, a timeout included, is a parameter.  The first theorems say
  that outputs come in the order of the inputs and what each is; then that every run ends; then
  which items can be lost.
\<close>

section \<open>State\<close>

definition DEFAULT_BUFFER_MULTIPLIER :: int where "DEFAULT_BUFFER_MULTIPLIER = 10"
definition HARD_BUFFER_LIMIT :: int where "HARD_BUFFER_LIMIT = 50000"
definition DEFAULT_PENDING_MULTIPLIER :: int where "DEFAULT_PENDING_MULTIPLIER = 3"
definition HARD_PENDING_LIMIT :: int where "HARD_PENDING_LIMIT = 1000"

lemmas limit_defs =
  DEFAULT_BUFFER_MULTIPLIER_def HARD_BUFFER_LIMIT_def DEFAULT_PENDING_MULTIPLIER_def HARD_PENDING_LIMIT_def

record StreamConfig =
  udf_concurrency :: int
  udf_retries :: int

definition max_buffer_size :: "StreamConfig \<Rightarrow> int" where
  "max_buffer_size c = min HARD_BUFFER_LIMIT (DEFAULT_BUFFER_MULTIPLIER * udf_concurrency c)"

definition max_pending :: "StreamConfig \<Rightarrow> int" where
  "max_pending c = min HARD_PENDING_LIMIT (DEFAULT_PENDING_MULTIPLIER * udf_concurrency c)"

text \<open>
  A task waits for the semaphore, runs its attempt number \<open>k\<close>, sleeps after it, or has its answer.
  It holds the semaphore from its first attempt to its answer, the sleeps included.
\<close>

datatype 'v Phase = Waiting | Attempt nat | Sleeping nat | Finished "'v res"

fun holds_semaphore :: "'v Phase \<Rightarrow> bool" where
  "holds_semaphore (Attempt _) = True"
| "holds_semaphore (Sleeping _) = True"
| "holds_semaphore _ = False"

text \<open>
  The generator has not been started, is suspended at its yield, waits for one of the listed tasks,
  has returned, has raised, or was closed by its consumer.
\<close>

datatype Control = NotStarted | AtYield | Awaiting "nat list" | Returned | Raised exn | Closed

text \<open>The iterator of the items is a position; the last field is what the consumer received.\<close>

record 'v Stream =
  pending :: "(nat, 'v Phase) dict"
  results :: "(nat, 'v res) dict"
  next_idx_to_yield :: nat
  exhausted :: bool
  items_taken :: nat
  control :: Control
  yielded :: "'v res list"

text \<open>A semaphore with a negative value is refused.\<close>

definition mk_stream :: "StreamConfig \<Rightarrow> 'v Stream res" where
  "mk_stream c =
     bind_res (raise_if (udf_concurrency c < 0) PyValueError) (\<lambda>_.
       Inr \<lparr>pending = [], results = [], next_idx_to_yield = 0, exhausted = False,
            items_taken = 0, control = NotStarted, yielded = []\<rparr>)"

text \<open>Another call on the same stream: a new iterator and generator, the same attributes.\<close>

definition call_again :: "'v Stream \<Rightarrow> 'v Stream" where
  "call_again s = s\<lparr>items_taken := 0, control := NotStarted, yielded := []\<rparr>"

section \<open>The tasks (\<open>_call\<close>, \<open>call_with_index\<close>)\<close>

definition set_phase :: "'v Stream \<Rightarrow> nat \<Rightarrow> 'v Phase \<Rightarrow> 'v Stream" where
  "set_phase s i p = s\<lparr>pending := AList.update i p (pending s)\<rparr>"

text \<open>
  With a negative number of retries the loop over the attempts is empty and \<^verbatim>\<open>raise None\<close> is a
  TypeError.
\<close>

definition first_phase :: "StreamConfig \<Rightarrow> 'v Phase" where
  "first_phase c = (if udf_retries c < 0 then Finished (Inl PyTypeError) else Attempt 0)"

fun after_attempt :: "StreamConfig \<Rightarrow> nat \<Rightarrow> 'v res \<Rightarrow> 'v Phase" where
  "after_attempt c k (Inr v) = Finished (Inr v)"
| "after_attempt c k (Inl e) = (if int k < udf_retries c then Sleeping k else Finished (Inl e))"

section \<open>The generator (\<open>_call_batch_async\<close>)\<close>

definition can_schedule_more :: "StreamConfig \<Rightarrow> 'v Stream \<Rightarrow> bool" where
  "can_schedule_more c s \<longleftrightarrow>
     \<not> exhausted s \<and> int (length (pending s)) < max_pending c \<and> int (length (results s)) < max_buffer_size c"

function schedule :: "StreamConfig \<Rightarrow> nat \<Rightarrow> 'v Stream \<Rightarrow> 'v Stream" where
  "schedule c n s =
     (if can_schedule_more c s then
        if items_taken s < n
        then schedule c n (s\<lparr>pending := AList.update (items_taken s) Waiting (pending s),
                            items_taken := Suc (items_taken s)\<rparr>)
        else s\<lparr>exhausted := True\<rparr>
      else s)"
  by pat_completeness auto
termination by (relation "measure (\<lambda>(c, n, s). n - items_taken s)") auto

declare schedule.simps [simp del]

text \<open>Leaving the loop cancels what is pending.\<close>

definition leave :: "Control \<Rightarrow> 'v Stream \<Rightarrow> 'v Stream" where
  "leave k s = s\<lparr>pending := [], control := k\<rparr>"

text \<open>From the head of the loop to the next suspension.\<close>

definition run_loop :: "StreamConfig \<Rightarrow> 'v Stream \<Rightarrow> 'v Stream" where
  "run_loop c s =
     (if pending s = [] \<and> results s = [] then leave Returned s
      else case map_of (results s) (next_idx_to_yield s) of
        Some r \<Rightarrow> s\<lparr>results := AList.delete (next_idx_to_yield s) (results s),
                    yielded := yielded s @ [r], control := AtYield\<rparr>
      | None \<Rightarrow>
          if pending s = [] then leave Returned s
          else if int (length (results s)) \<ge> max_buffer_size c then
            (case map_of (pending s) (next_idx_to_yield s) of
               None \<Rightarrow> leave (Raised PyKeyError) s
             | Some _ \<Rightarrow> s\<lparr>control := Awaiting [next_idx_to_yield s]\<rparr>)
          else s\<lparr>control := Awaiting (map fst (pending s))\<rparr>)"

fun finished :: "nat list \<Rightarrow> (nat, 'v Phase) dict \<Rightarrow> (nat \<times> 'v res) list" where
  "finished ts [] = []"
| "finished ts ((i, Finished r) # ps) = (if i \<in> set ts then (i, r) # finished ts ps else finished ts ps)"
| "finished ts ((i, p) # ps) = finished ts ps"

fun process_done :: "(nat \<times> 'v res) list \<Rightarrow> 'v Stream \<Rightarrow> 'v Stream" where
  "process_done [] s = s"
| "process_done ((i, r) # ds) s =
     process_done ds (s\<lparr>results := AList.update i r (results s), pending := AList.delete i (pending s)\<rparr>)"

section \<open>Steps\<close>

text \<open>
  Which of the waiting tasks gets a free place of the semaphore is left open.  \<open>Pull\<close> is the
  consumer's call for the next output, \<open>Close\<close> drops the generator at its yield.
\<close>

datatype Event = Acquire nat | AttemptEnds nat | SleepEnds nat | Wake | Pull | Close

fun stream_step ::
  "StreamConfig \<Rightarrow> ('i \<Rightarrow> nat \<Rightarrow> 'v res) \<Rightarrow> 'i list \<Rightarrow> Event \<Rightarrow> 'v Stream \<Rightarrow> 'v Stream option" where
  "stream_step c f xs (Acquire i) s =
     (if map_of (pending s) i = Some Waiting \<and>
         int (length (filter (\<lambda>(j, p). holds_semaphore p) (pending s))) < udf_concurrency c
      then Some (set_phase s i (first_phase c)) else None)"
| "stream_step c f xs (AttemptEnds i) s =
     (case map_of (pending s) i of
        Some (Attempt k) \<Rightarrow> Some (set_phase s i (after_attempt c k (f (xs ! i) k)))
      | _ \<Rightarrow> None)"
| "stream_step c f xs (SleepEnds i) s =
     (case map_of (pending s) i of
        Some (Sleeping k) \<Rightarrow> Some (set_phase s i (Attempt (Suc k)))
      | _ \<Rightarrow> None)"
| "stream_step c f xs Wake s =
     (case control s of
        Awaiting ts \<Rightarrow>
          (let done = finished ts (pending s)
           in if done = [] then None
              else Some (run_loop c (schedule c (length xs) (process_done done s))))
      | _ \<Rightarrow> None)"
| "stream_step c f xs Pull s =
     (case control s of
        NotStarted \<Rightarrow> Some (run_loop c (schedule c (length xs) s))
      | AtYield \<Rightarrow> Some (run_loop c (s\<lparr>next_idx_to_yield := Suc (next_idx_to_yield s)\<rparr>))
      | _ \<Rightarrow> None)"
| "stream_step c f xs Close s = (if control s = AtYield then Some (leave Closed s) else None)"

text \<open>The sequences of steps from the first call of a stream.\<close>

inductive stream_run ::
  "StreamConfig \<Rightarrow> ('i \<Rightarrow> nat \<Rightarrow> 'v res) \<Rightarrow> 'i list \<Rightarrow> Event list \<Rightarrow> 'v Stream \<Rightarrow> bool"
  for c f xs where
  start: "mk_stream c = Inr s \<Longrightarrow> stream_run c f xs [] s"
| step: "stream_run c f xs es s \<Longrightarrow> stream_step c f xs e s = Some t \<Longrightarrow> stream_run c f xs (es @ [e]) t"

section \<open>What an item should give\<close>

text \<open>The first success among the attempts, otherwise the last failure.\<close>

fun first_success :: "(nat \<Rightarrow> 'v res) \<Rightarrow> nat \<Rightarrow> nat \<Rightarrow> 'v res" where
  "first_success g k 0 = g k"
| "first_success g k (Suc n) = (case g k of Inr v \<Rightarrow> Inr v | Inl e \<Rightarrow> first_success g (Suc k) n)"

definition call_result :: "StreamConfig \<Rightarrow> (nat \<Rightarrow> 'v res) \<Rightarrow> 'v res" where
  "call_result c g =
     (if udf_retries c < 0 then Inl PyTypeError else first_success g 0 (nat (udf_retries c)))"

lemma first_success_cases:
  "\<exists>k'. k \<le> k' \<and> k' \<le> k + n \<and> first_success g k n = g k' \<and> (\<forall>j. k \<le> j \<and> j < k' \<longrightarrow> isl (g j)) \<and>
     (isl (g k') \<longrightarrow> k' = k + n)"
proof (induction n arbitrary: k)
  case (Suc n)
  show ?case
  proof (cases "g k")
    case (Inl e)
    from Suc.IH [of "Suc k"] obtain k' where k': "Suc k \<le> k'" "k' \<le> Suc k + n" "first_success g (Suc k) n = g k'"
      "\<forall>j. Suc k \<le> j \<and> j < k' \<longrightarrow> isl (g j)" "isl (g k') \<longrightarrow> k' = Suc k + n" by blast
    have "isl (g j)" if "k \<le> j" "j < k'" for j
      using that k'(4) Inl by (cases "j = k") (auto simp: Suc_le_eq)
    with Inl k' show ?thesis by (intro exI [of _ k']) auto
  qed auto
qed auto

section \<open>Invariants\<close>

text \<open>What the phase of a task says of the answer it will give.\<close>

fun phase_ok :: "StreamConfig \<Rightarrow> (nat \<Rightarrow> 'v res) \<Rightarrow> 'v Phase \<Rightarrow> bool" where
  "phase_ok c g Waiting = True"
| "phase_ok c g (Attempt k) = (int k \<le> udf_retries c \<and> call_result c g = first_success g k (nat (udf_retries c) - k))"
| "phase_ok c g (Sleeping k) = (int k < udf_retries c \<and> call_result c g = first_success g (Suc k) (nat (udf_retries c) - Suc k))"
| "phase_ok c g (Finished r) = (r = call_result c g)"

lemma phase_ok_first: "phase_ok c g (first_phase c)"
  by (simp add: first_phase_def call_result_def)

lemma phase_ok_after_attempt: "phase_ok c g (Attempt k) \<Longrightarrow> phase_ok c g (after_attempt c k (g k))"
proof (cases "nat (udf_retries c) - k")
  case (Suc n)
  then have "nat (udf_retries c) - Suc k = n" by simp
  with Suc show "phase_ok c g (Attempt k) \<Longrightarrow> phase_ok c g (after_attempt c k (g k))"
    by (cases "g k") auto
qed (cases "g k"; auto)

lemma phase_ok_sleep_ends: "phase_ok c g (Sleeping k) \<Longrightarrow> phase_ok c g (Attempt (Suc k))"
  by simp

text \<open>
  Apart from where the generator stands: the outputs are the answers of the first \<open>b\<close> items, every
  item taken after them is either pending or buffered, and never both.
\<close>

definition data_ok ::
  "StreamConfig \<Rightarrow> ('i \<Rightarrow> nat \<Rightarrow> 'v res) \<Rightarrow> 'i list \<Rightarrow> nat \<Rightarrow> 'v Stream \<Rightarrow> bool" where
  "data_ok c f xs b s \<longleftrightarrow>
     b \<le> items_taken s \<and> items_taken s \<le> length xs \<and> (exhausted s \<longrightarrow> items_taken s = length xs) \<and>
     yielded s = map (\<lambda>x. call_result c (f x)) (take b xs) \<and>
     distinct (map fst (pending s) @ map fst (results s)) \<and>
     fst ` set (pending s) \<union> fst ` set (results s) = {b..<items_taken s} \<and>
     list_all (\<lambda>(i, r). r = call_result c (f (xs ! i))) (results s) \<and>
     list_all (\<lambda>(i, p). phase_ok c (f (xs ! i)) p) (pending s) \<and>
     int (length (pending s)) \<le> max_pending c \<and>
     int (length (pending s) + length (results s)) \<le> max_buffer_size c + max_pending c \<and>
     int (length (filter (\<lambda>(i, p). holds_semaphore p) (pending s))) \<le> udf_concurrency c"

lemma length_update_member: "k \<in> fst ` set al \<Longrightarrow> length (AList.update k v al) = length al"
  by (induction al) auto

lemma set_update_member: "distinct (map fst al) \<Longrightarrow> set (AList.update k v al) = insert (k, v) {x \<in> set al. fst x \<noteq> k}"
  by (induction al) force+

lemma set_delete_filter: "set (AList.delete k al) = {x \<in> set al. fst x \<noteq> k}"
  by (auto simp: AList.delete_eq)

lemma map_fst_delete: "map fst (AList.delete k al) = filter (\<lambda>j. j \<noteq> k) (map fst al)"
  by (auto simp: AList.delete_eq filter_map comp_def case_prod_unfold intro!: arg_cong [of _ _ "map fst"] filter_cong)

lemma filter_update_length:
  assumes "distinct (map fst al)" "map_of al k = Some p"
  shows "length (filter (\<lambda>(j, p). h p) (AList.update k q al)) + (if h p then 1 else 0) =
     length (filter (\<lambda>(j, p). h p) al) + (if h q then 1 else 0)"
  using assms by (induction al) (auto split: if_splits)

lemma filter_delete_length: "length (filter P (AList.delete k al)) \<le> length (filter P al)"
  by (induction al) auto

lemma data_ok_init: "mk_stream c = Inr s \<Longrightarrow> data_ok c f xs 0 s"
  by (auto simp: mk_stream_def data_ok_def raise_if_def max_buffer_size_def max_pending_def limit_defs split: if_splits)

lemma data_ok_set_phase:
  assumes ok: "data_ok c f xs b s" and p: "map_of (pending s) i = Some p" and q: "phase_ok c (f (xs ! i)) q"
    and sem: "holds_semaphore q \<longrightarrow> holds_semaphore p \<or>
      int (length (filter (\<lambda>(j, p). holds_semaphore p) (pending s))) < udf_concurrency c"
  shows "data_ok c f xs b (set_phase s i q)"
proof -
  have d: "distinct (map fst (pending s))" using ok by (simp add: data_ok_def)
  have m: "i \<in> fst ` set (pending s)" using map_of_SomeD [OF p] by force
  have keys: "map fst (AList.update i q (pending s)) = map fst (pending s)"
    using m by (simp add: update_keys)
  have "fst ` set (AList.update i q (pending s)) = fst ` set (pending s)"
    using keys by (metis list.set_map)
  moreover have "int (length (filter (\<lambda>(j, p). holds_semaphore p) (AList.update i q (pending s)))) \<le> udf_concurrency c"
    using filter_update_length [OF d p, of holds_semaphore q] ok sem by (auto simp: data_ok_def split: if_splits)
  moreover have "list_all (\<lambda>(j, r). phase_ok c (f (xs ! j)) r) (AList.update i q (pending s))"
    using ok q by (auto simp: data_ok_def set_update_member [OF d] list_all_iff)
  ultimately show ?thesis
    using ok keys length_update_member [OF m, of q] by (simp add: data_ok_def set_phase_def)
qed

lemma schedule_fields [simp]:
  "control (schedule c n s) = control s" "results (schedule c n s) = results s"
  "next_idx_to_yield (schedule c n s) = next_idx_to_yield s" "yielded (schedule c n s) = yielded s"
  by (induction c n s rule: schedule.induct; subst schedule.simps; simp)+

lemma fresh_index:
  assumes "data_ok c f xs b s"
  shows "items_taken s \<notin> fst ` set (pending s)" "items_taken s \<notin> fst ` set (results s)"
proof -
  have "fst ` set (pending s) \<union> fst ` set (results s) = {b..<items_taken s}" using assms by (simp add: data_ok_def)
  then show "items_taken s \<notin> fst ` set (pending s)" "items_taken s \<notin> fst ` set (results s)"
    by (metis UnCI atLeastLessThan_iff less_irrefl)+
qed

lemma data_ok_schedule: "data_ok c f xs b s \<Longrightarrow> data_ok c f xs b (schedule c (length xs) s)"
proof (induction c "length xs" s rule: schedule.induct)
  case (1 c s)
  show ?case
  proof (cases "can_schedule_more c s \<and> items_taken s < length xs")
    case True
    then have new: "items_taken s \<notin> fst ` set (pending s)" "items_taken s \<notin> fst ` set (results s)"
      using 1(2) by (auto simp: data_ok_def)
    have "data_ok c f xs b (s\<lparr>pending := AList.update (items_taken s) Waiting (pending s),
        items_taken := Suc (items_taken s)\<rparr>)"
      using 1(2) True new by (auto simp: data_ok_def update_new can_schedule_more_def atLeastLessThanSuc)
    with 1(1) True show ?thesis by (subst schedule.simps) simp
  next
    case False
    then show ?thesis using 1(2) by (subst schedule.simps) (auto simp: data_ok_def)
  qed
qed

text \<open>After scheduling something is pending, or everything was taken, or the buffer was full.\<close>

definition fed :: "StreamConfig \<Rightarrow> 'i list \<Rightarrow> 'v Stream \<Rightarrow> bool" where
  "fed c xs s \<longleftrightarrow> exhausted s \<or> pending s \<noteq> [] \<or> max_buffer_size c \<le> int (items_taken s)"

lemma card_keys:
  assumes "data_ok c f xs b s"
  shows "length (pending s) + length (results s) = items_taken s - b"
proof -
  have "length (map fst (pending s) @ map fst (results s)) = card (set (map fst (pending s) @ map fst (results s)))"
    using assms by (intro distinct_card [symmetric]) (simp add: data_ok_def)
  also have "\<dots> = card {b..<items_taken s}" using assms by (simp add: data_ok_def)
  finally show ?thesis by simp
qed

lemma schedule_stops: "\<not> can_schedule_more c (schedule c n s)"
  by (induction c n s rule: schedule.induct) (subst schedule.simps, auto simp: can_schedule_more_def)

lemma fed_schedule:
  assumes "data_ok c f xs b s"
  shows "fed c xs (schedule c (length xs) s)"
  using schedule_stops [of c "length xs" s] card_keys [OF data_ok_schedule [OF assms]]
  by (auto simp: fed_def can_schedule_more_def max_pending_def max_buffer_size_def limit_defs split: if_splits)

lemma finished_sub: "(i, r) \<in> set (finished ts ps) \<Longrightarrow> i \<in> set ts \<and> (i, Finished r) \<in> set ps"
  by (induction ts ps rule: finished.induct) (auto split: if_splits)

lemma finished_keys: "fst ` set (finished ts ps) \<subseteq> fst ` set ps"
  by (force dest: finished_sub)

lemma finished_key: "(i, r) \<in> set (finished ts ps) \<Longrightarrow> i \<in> fst ` set ps"
  by (force dest: finished_sub)

lemma distinct_finished: "distinct (map fst ps) \<Longrightarrow> distinct (map fst (finished ts ps))"
  by (induction ts ps rule: finished.induct) (auto split: if_splits dest: finished_key)

lemma finished_empty: "finished ts ps = [] \<longleftrightarrow> (\<forall>i r. i \<in> set ts \<longrightarrow> (i, Finished r) \<notin> set ps)"
  by (induction ts ps rule: finished.induct) auto

lemma process_done_fields [simp]:
  "control (process_done ds s) = control s" "items_taken (process_done ds s) = items_taken s"
  "next_idx_to_yield (process_done ds s) = next_idx_to_yield s" "yielded (process_done ds s) = yielded s"
  "exhausted (process_done ds s) = exhausted s"
  by (induction ds s rule: process_done.induct) auto

lemma data_ok_process_done:
  "data_ok c f xs b s \<Longrightarrow> distinct (map fst ds) \<Longrightarrow> \<forall>(i, r) \<in> set ds. (i, Finished r) \<in> set (pending s) \<Longrightarrow>
     data_ok c f xs b (process_done ds s)"
proof (induction ds s rule: process_done.induct)
  case (2 i r ds s)
  let ?t = "s\<lparr>results := AList.update i r (results s), pending := AList.delete i (pending s)\<rparr>"
  have d: "distinct (map fst (pending s))" using 2(2) by (simp add: data_ok_def)
  have i: "i \<in> fst ` set (pending s)" using 2(4) by force
  have new: "i \<notin> fst ` set (results s)" using 2(2) i by (auto simp: data_ok_def)
  have r: "r = call_result c (f (xs ! i))" using 2(2,4) by (auto simp: data_ok_def list_all_iff)
  have ib: "b \<le> i \<and> i < items_taken s" using 2(2) i by (auto simp: data_ok_def)
  have keys: "fst ` set (AList.delete i (pending s)) = fst ` set (pending s) - {i}" by (auto simp: set_delete_filter)
  have "distinct (map fst (AList.delete i (pending s)) @ map fst (results s @ [(i, r)]))"
    using 2(2) new i by (auto simp: data_ok_def map_fst_delete)
  moreover have "fst ` set (AList.delete i (pending s)) \<union> fst ` set (results s @ [(i, r)]) = {b..<items_taken s}"
    using 2(2) ib by (auto simp: data_ok_def keys)
  moreover have "list_all (\<lambda>(j, q). q = call_result c (f (xs ! j))) (results s @ [(i, r)])"
    "list_all (\<lambda>(j, q). phase_ok c (f (xs ! j)) q) (AList.delete i (pending s))"
    using 2(2) r by (auto simp: data_ok_def set_delete_filter list_all_iff)
  moreover have "length (filter (\<lambda>(j, p). holds_semaphore p) (AList.delete i (pending s))) \<le>
      length (filter (\<lambda>(j, p). holds_semaphore p) (pending s))"
    by (rule filter_delete_length)
  ultimately have "data_ok c f xs b ?t"
    using 2(2) length_delete_member [OF d i] unfolding data_ok_def by (simp add: update_new [OF new])
  moreover have "\<forall>(j, q) \<in> set ds. (j, Finished q) \<in> set (pending ?t)"
    using 2(3,4) by (force simp: set_delete_filter)
  ultimately show ?case using 2(1,3) by simp
qed simp

definition at_rest :: "StreamConfig \<Rightarrow> ('i \<Rightarrow> nat \<Rightarrow> 'v res) \<Rightarrow> 'i list \<Rightarrow> 'v Stream \<Rightarrow> bool" where
  "at_rest c f xs s \<longleftrightarrow>
     (case control s of
        NotStarted \<Rightarrow> mk_stream c = Inr s
      | AtYield \<Rightarrow> data_ok c f xs (Suc (next_idx_to_yield s)) s \<and> fed c xs s
      | Awaiting ts \<Rightarrow>
          data_ok c f xs (next_idx_to_yield s) s \<and> ts \<noteq> [] \<and>
          next_idx_to_yield s \<notin> fst ` set (results s) \<and>
          (ts = map fst (pending s) \<or> ts = [next_idx_to_yield s] \<and> next_idx_to_yield s \<in> fst ` set (pending s))
      | Returned \<Rightarrow>
          yielded s = map (\<lambda>x. call_result c (f x)) (take (items_taken s) xs) \<and>
          (items_taken s = length xs \<or> max_buffer_size c \<le> int (items_taken s) \<and> items_taken s < length xs)
      | Raised e \<Rightarrow> False
      | Closed \<Rightarrow> yielded s = map (\<lambda>x. call_result c (f x)) (take (Suc (next_idx_to_yield s)) xs))"

lemma run_loop_at_rest:
  assumes ok: "data_ok c f xs (next_idx_to_yield s) s" and fed: "fed c xs s"
  shows "at_rest c f xs (run_loop c s)"
proof (cases "map_of (results s) (next_idx_to_yield s)")
  case None
  then have nr: "next_idx_to_yield s \<notin> fst ` set (results s)" by (simp add: map_of_eq_None_iff)
  show ?thesis
  proof (cases "pending s = []")
    case True
    from ok have "fst ` set (results s) = {next_idx_to_yield s..<items_taken s}" using True by (simp add: data_ok_def)
    then have "items_taken s = next_idx_to_yield s" "results s = []"
      using nr ok card_keys [OF ok] True by (force simp: data_ok_def)+
    then show ?thesis
      using ok fed True by (auto simp: run_loop_def at_rest_def leave_def data_ok_def fed_def)
  next
    case False
    then have "next_idx_to_yield s < items_taken s"
      using ok card_keys [OF ok] by (cases "pending s") (auto simp: data_ok_def)
    then have np: "next_idx_to_yield s \<in> fst ` set (pending s)" using ok nr by (auto simp: data_ok_def)
    then obtain p where "map_of (pending s) (next_idx_to_yield s) = Some p"
      by (metis map_of_eq_None_iff not_None_eq)
    then show ?thesis
      using ok False None nr np by (auto simp: run_loop_def at_rest_def data_ok_def)
  qed
next
  case (Some r)
  have d: "distinct (map fst (results s))" using ok by (simp add: data_ok_def)
  have m: "(next_idx_to_yield s, r) \<in> set (results s)" using Some by (rule map_of_SomeD)
  then have k: "next_idx_to_yield s \<in> fst ` set (results s)" by force
  have b: "next_idx_to_yield s < items_taken s" using ok k by (auto simp: data_ok_def)
  have r: "r = call_result c (f (xs ! next_idx_to_yield s))"
    using m ok by (auto simp: data_ok_def list_all_iff)
  let ?d = "AList.delete (next_idx_to_yield s) (results s)"
  have "take (Suc (next_idx_to_yield s)) xs = take (next_idx_to_yield s) xs @ [xs ! next_idx_to_yield s]"
    using b ok by (intro take_Suc_conv_app_nth) (simp add: data_ok_def)
  moreover have "list_all (\<lambda>(i, r). r = call_result c (f (xs ! i))) ?d"
    using ok by (auto simp: data_ok_def list_all_iff set_delete_filter)
  moreover have "distinct (map fst (pending s) @ map fst ?d)"
    using ok by (auto simp: data_ok_def map_fst_delete)
  moreover have "fst ` set (pending s) \<union> fst ` set ?d = {Suc (next_idx_to_yield s)..<items_taken s}"
  proof -
    have "next_idx_to_yield s \<notin> fst ` set (pending s)" using ok k by (auto simp: data_ok_def)
    moreover have "fst ` set ?d = fst ` set (results s) - {next_idx_to_yield s}" by (auto simp: set_delete_filter)
    ultimately have "fst ` set (pending s) \<union> fst ` set ?d =
        (fst ` set (pending s) \<union> fst ` set (results s)) - {next_idx_to_yield s}" by blast
    also have "\<dots> = {next_idx_to_yield s..<items_taken s} - {next_idx_to_yield s}"
      using ok by (simp add: data_ok_def)
    finally show ?thesis using b by auto
  qed
  ultimately have "data_ok c f xs (Suc (next_idx_to_yield s))
      (s\<lparr>results := ?d, yielded := yielded s @ [r], control := AtYield\<rparr>)"
    using ok b length_delete_member [OF d k] unfolding data_ok_def by (simp add: r)
  then show ?thesis
    using fed Some m by (auto simp: run_loop_def at_rest_def fed_def)
qed

lemma at_rest_set_phase:
  assumes "at_rest c f xs s" "map_of (pending s) i = Some p" "phase_ok c (f (xs ! i)) q"
    and "holds_semaphore q \<longrightarrow> holds_semaphore p \<or>
      int (length (filter (\<lambda>(j, p). holds_semaphore p) (pending s))) < udf_concurrency c"
  shows "at_rest c f xs (set_phase s i q)"
proof -
  have m: "i \<in> fst ` set (pending s)" using map_of_SomeD [OF assms(2)] by force
  then have keys: "map fst (AList.update i q (pending s)) = map fst (pending s)" by (simp add: update_keys)
  then have set_keys: "fst ` set (AList.update i q (pending s)) = fst ` set (pending s)" by (metis list.set_map)
  have ne: "AList.update i q (pending s) \<noteq> []" using keys m by auto
  have ok: "data_ok c f xs b s \<Longrightarrow> data_ok c f xs b (set_phase s i q)" for b
    using data_ok_set_phase assms(2,3,4) by blast
  have "mk_stream c \<noteq> Inr s" using assms(2) by (auto simp: mk_stream_def raise_if_def split: if_splits)
  then show ?thesis
    using assms(1) ok [unfolded set_phase_def] keys set_keys ne
    by (cases "control s") (auto simp: at_rest_def set_phase_def fed_def)
qed

lemma phase_found:
  "data_ok c f xs b s \<Longrightarrow> map_of (pending s) i = Some p \<Longrightarrow> phase_ok c (f (xs ! i)) p"
  by (auto simp: data_ok_def list_all_iff dest!: map_of_SomeD)

text \<open>A generator that is done has no tasks.\<close>

definition live_data :: "StreamConfig \<Rightarrow> ('i \<Rightarrow> nat \<Rightarrow> 'v res) \<Rightarrow> 'i list \<Rightarrow> 'v Stream \<Rightarrow> bool" where
  "live_data c f xs s \<longleftrightarrow> pending s = [] \<or> (\<exists>b. data_ok c f xs b s)"

definition stream_ok :: "StreamConfig \<Rightarrow> ('i \<Rightarrow> nat \<Rightarrow> 'v res) \<Rightarrow> 'i list \<Rightarrow> 'v Stream \<Rightarrow> bool" where
  "stream_ok c f xs s \<longleftrightarrow> at_rest c f xs s \<and> live_data c f xs s"

lemma stream_ok_phase: "stream_ok c f xs s \<Longrightarrow> map_of (pending s) i = Some p \<Longrightarrow> phase_ok c (f (xs ! i)) p"
  by (auto simp: stream_ok_def live_data_def phase_found)

lemma stream_ok_set_phase:
  assumes "stream_ok c f xs s" "map_of (pending s) i = Some p" "phase_ok c (f (xs ! i)) q"
    and "holds_semaphore q \<longrightarrow> holds_semaphore p \<or>
      int (length (filter (\<lambda>(j, p). holds_semaphore p) (pending s))) < udf_concurrency c"
  shows "stream_ok c f xs (set_phase s i q)"
  using assms at_rest_set_phase [of c f xs s i p q] data_ok_set_phase [of c f xs _ s i p q]
  by (auto simp: stream_ok_def live_data_def)

lemma run_loop_ok:
  assumes "data_ok c f xs (next_idx_to_yield s) s" "fed c xs s"
  shows "stream_ok c f xs (run_loop c s)"
proof -
  have r: "at_rest c f xs (run_loop c s)" by (rule run_loop_at_rest [OF assms])
  then have "live_data c f xs (run_loop c s)"
    by (cases "control (run_loop c s)")
      (auto simp: live_data_def at_rest_def run_loop_def leave_def split: if_splits option.splits)
  with r show ?thesis by (simp add: stream_ok_def)
qed

lemma stream_ok_step:
  assumes ok: "stream_ok c f xs s" and st: "stream_step c f xs e s = Some t"
  shows "stream_ok c f xs t"
proof (cases e)
  case (Acquire i)
  then show ?thesis
    using st stream_ok_set_phase [OF ok, of i Waiting "first_phase c"] phase_ok_first [of c "f (xs ! i)"]
    by (auto split: if_splits)
next
  case (AttemptEnds i)
  with st obtain k where k: "map_of (pending s) i = Some (Attempt k)" "t = set_phase s i (after_attempt c k (f (xs ! i) k))"
    by (auto split: option.splits Phase.splits)
  show ?thesis
    unfolding k(2) using k(1) phase_ok_after_attempt [OF stream_ok_phase [OF ok k(1)]]
    by (intro stream_ok_set_phase [OF ok k(1)]) simp_all
next
  case (SleepEnds i)
  with st obtain k where k: "map_of (pending s) i = Some (Sleeping k)" "t = set_phase s i (Attempt (Suc k))"
    by (auto split: option.splits Phase.splits)
  show ?thesis
    unfolding k(2) using k(1) phase_ok_sleep_ends [OF stream_ok_phase [OF ok k(1)]]
    by (intro stream_ok_set_phase [OF ok k(1)]) simp_all
next
  case Wake
  with st obtain ts where ts: "control s = Awaiting ts"
    "t = run_loop c (schedule c (length xs) (process_done (finished ts (pending s)) s))"
    by (auto simp: Let_def split: Control.splits if_splits)
  have d: "data_ok c f xs (next_idx_to_yield s) s" using ok ts(1) by (simp add: stream_ok_def at_rest_def)
  then have "distinct (map fst (pending s))" by (simp add: data_ok_def)
  then have p: "data_ok c f xs (next_idx_to_yield s) (process_done (finished ts (pending s)) s)"
    by (intro data_ok_process_done [OF d] distinct_finished) (auto dest: finished_sub)
  show ?thesis
    unfolding ts(2) by (rule run_loop_ok) (use data_ok_schedule [OF p] fed_schedule [OF p] in simp_all)
next
  case Pull
  show ?thesis
  proof (cases "control s")
    case NotStarted
    then have m: "mk_stream c = Inr s" using ok by (simp add: stream_ok_def at_rest_def)
    have n: "next_idx_to_yield s = 0" using m by (auto simp: mk_stream_def raise_if_def split: if_splits)
    have t: "t = run_loop c (schedule c (length xs) s)" using st Pull NotStarted by simp
    show ?thesis
      unfolding t by (rule run_loop_ok)
        (use data_ok_schedule [OF data_ok_init [OF m]] fed_schedule [OF data_ok_init [OF m]] n in simp_all)
  next
    case AtYield
    then have d: "data_ok c f xs (Suc (next_idx_to_yield s)) s" "fed c xs s"
      using ok by (simp_all add: stream_ok_def at_rest_def)
    have t: "t = run_loop c (s\<lparr>next_idx_to_yield := Suc (next_idx_to_yield s)\<rparr>)" using st Pull AtYield by simp
    show ?thesis unfolding t by (rule run_loop_ok) (use d in \<open>simp_all add: data_ok_def fed_def\<close>)
  qed (use st Pull in auto)
next
  case Close
  then show ?thesis
    using st ok by (auto simp: stream_ok_def at_rest_def live_data_def leave_def data_ok_def split: if_splits)
qed

lemma stream_run_ok: "stream_run c f xs es s \<Longrightarrow> stream_ok c f xs s"
proof (induction rule: stream_run.induct)
  case (start s)
  then show ?case
    by (auto simp: stream_ok_def at_rest_def live_data_def mk_stream_def raise_if_def split: if_splits)
next
  case (step es s e t)
  show ?case by (rule stream_ok_step [OF step.IH step.hyps(2)])
qed

section \<open>Every run ends\<close>

fun phase_weight :: "nat \<Rightarrow> 'v Phase \<Rightarrow> nat" where
  "phase_weight R Waiting = 2 * R + 8"
| "phase_weight R (Attempt k) = 2 * (R - k) + 6"
| "phase_weight R (Sleeping k) = 2 * (R - k) + 5"
| "phase_weight R (Finished r) = 4"

definition tasks_weight :: "nat \<Rightarrow> (nat, 'v Phase) dict \<Rightarrow> nat" where
  "tasks_weight R ps = (\<Sum>(i, p) \<leftarrow> ps. phase_weight R p)"

fun control_weight :: "Control \<Rightarrow> nat" where
  "control_weight NotStarted = 2"
| "control_weight AtYield = 1"
| "control_weight _ = 0"

definition remaining_steps :: "StreamConfig \<Rightarrow> 'i list \<Rightarrow> 'v Stream \<Rightarrow> nat" where
  "remaining_steps c xs s =
     (length xs - items_taken s) * (2 * nat (udf_retries c) + 9) + tasks_weight (nat (udf_retries c)) (pending s) +
     2 * length (results s) + control_weight (control s)"

lemma tasks_weight_simps [simp]:
  "tasks_weight R [] = 0" "tasks_weight R ((i, p) # ps) = phase_weight R p + tasks_weight R ps"
  "tasks_weight R (ps @ qs) = tasks_weight R ps + tasks_weight R qs"
  by (auto simp: tasks_weight_def)

lemma tasks_weight_update:
  "distinct (map fst ps) \<Longrightarrow> map_of ps i = Some p \<Longrightarrow>
     tasks_weight R (AList.update i q ps) + phase_weight R p = tasks_weight R ps + phase_weight R q"
  by (induction ps) (auto split: if_splits)

lemma tasks_weight_delete:
  "distinct (map fst ps) \<Longrightarrow> (i, p) \<in> set ps \<Longrightarrow> tasks_weight R (AList.delete i ps) + phase_weight R p = tasks_weight R ps"
  by (induction ps) (auto simp: rev_image_eqI delete_id)

lemma length_update_le: "length (AList.update k v al) \<le> Suc (length al)"
  by (induction al) auto

lemma schedule_weight:
  "data_ok c f xs b s \<Longrightarrow> remaining_steps c xs (schedule c (length xs) s) \<le> remaining_steps c xs s"
proof (induction c "length xs" s rule: schedule.induct)
  case (1 c s)
  show ?case
  proof (cases "can_schedule_more c s \<and> items_taken s < length xs")
    case True
    let ?t = "s\<lparr>pending := AList.update (items_taken s) Waiting (pending s), items_taken := Suc (items_taken s)\<rparr>"
    note new = fresh_index [OF 1(2)]
    have ok: "data_ok c f xs b ?t"
      using 1(2) True new by (auto simp: data_ok_def update_new can_schedule_more_def atLeastLessThanSuc)
    obtain m where m: "length xs - items_taken s = Suc m" using True by (cases "length xs - items_taken s") auto
    then have m': "length xs - Suc (items_taken s) = m" by simp
    have "remaining_steps c xs ?t \<le> remaining_steps c xs s"
      using new by (simp add: remaining_steps_def update_new m m')
    with 1(1) [OF _ _ ok] True show ?thesis by (subst schedule.simps) simp
  next
    case False
    then show ?thesis by (subst schedule.simps) (auto simp: remaining_steps_def)
  qed
qed

lemma process_done_weight:
  "distinct (map fst (pending s)) \<Longrightarrow> distinct (map fst ds) \<Longrightarrow> \<forall>(i, r) \<in> set ds. (i, Finished r) \<in> set (pending s) \<Longrightarrow>
     remaining_steps c xs (process_done ds s) + 2 * length ds \<le> remaining_steps c xs s"
proof (induction ds s rule: process_done.induct)
  case (2 i r ds s)
  let ?t = "s\<lparr>results := AList.update i r (results s), pending := AList.delete i (pending s)\<rparr>"
  have m: "(i, Finished r) \<in> set (pending s)" using 2(4) by simp
  have "\<forall>(j, q) \<in> set ds. (j, Finished q) \<in> set (pending ?t)" using 2(3,4) by (force simp: set_delete_filter)
  moreover have "distinct (map fst (pending ?t))" using 2(2) by (simp add: map_fst_delete)
  ultimately have "remaining_steps c xs (process_done ds ?t) + 2 * length ds \<le> remaining_steps c xs ?t"
    using 2(1,3) by simp
  moreover have "remaining_steps c xs ?t + 2 \<le> remaining_steps c xs s"
    using tasks_weight_delete [OF 2(2) m, of "nat (udf_retries c)"] length_update_le [of i r "results s"]
    by (simp add: remaining_steps_def)
  ultimately show ?case by simp
qed simp

text \<open>A yield pays with the result it takes.\<close>

lemma run_loop_weight:
  assumes "distinct (map fst (results s))"
  shows "remaining_steps c xs (run_loop c s) + control_weight (control s) \<le> remaining_steps c xs s"
proof (cases "map_of (results s) (next_idx_to_yield s)")
  case None
  then show ?thesis
    by (auto simp: run_loop_def leave_def remaining_steps_def split: option.split)
next
  case (Some r)
  have "next_idx_to_yield s \<in> fst ` set (results s)" using map_of_SomeD [OF Some] by force
  from length_delete_member [OF assms this] Some show ?thesis
    by (auto simp: run_loop_def remaining_steps_def)
qed

lemma set_phase_weight:
  assumes "data_ok c f xs b s" "map_of (pending s) i = Some p"
    and "phase_weight (nat (udf_retries c)) q < phase_weight (nat (udf_retries c)) p"
  shows "remaining_steps c xs (set_phase s i q) < remaining_steps c xs s"
  using tasks_weight_update [of "pending s" i p "nat (udf_retries c)" q] assms
  by (auto simp: remaining_steps_def set_phase_def data_ok_def)

lemma step_weight:
  assumes ok: "stream_ok c f xs s" and st: "stream_step c f xs e s = Some t"
  shows "remaining_steps c xs t < remaining_steps c xs s"
proof -
  have task: "\<exists>b. data_ok c f xs b s" if "map_of (pending s) i = Some p" for i p
    using ok that by (auto simp: stream_ok_def live_data_def)
  show ?thesis
  proof (cases e)
    case (Acquire i)
    with st have p: "map_of (pending s) i = Some Waiting" "t = set_phase s i (first_phase c)"
      by (auto split: if_splits)
    from task [OF p(1)] obtain b where "data_ok c f xs b s" by blast
    then show ?thesis unfolding p(2) by (rule set_phase_weight [OF _ p(1)]) (simp add: first_phase_def)
  next
    case (AttemptEnds i)
    with st obtain k where p: "map_of (pending s) i = Some (Attempt k)" "t = set_phase s i (after_attempt c k (f (xs ! i) k))"
      by (auto split: option.splits Phase.splits)
    from task [OF p(1)] obtain b where "data_ok c f xs b s" by blast
    then show ?thesis unfolding p(2)
      by (rule set_phase_weight [OF _ p(1)]) (cases "f (xs ! i) k"; simp)
  next
    case (SleepEnds i)
    with st obtain k where p: "map_of (pending s) i = Some (Sleeping k)" "t = set_phase s i (Attempt (Suc k))"
      by (auto split: option.splits Phase.splits)
    have "int k < udf_retries c" using stream_ok_phase [OF ok p(1)] by simp
    with task [OF p(1)] show ?thesis unfolding p(2) by (auto intro!: set_phase_weight [OF _ p(1)])
  next
    case Wake
    with st obtain ts where ts: "control s = Awaiting ts" "finished ts (pending s) \<noteq> []"
      "t = run_loop c (schedule c (length xs) (process_done (finished ts (pending s)) s))"
      by (auto simp: Let_def split: Control.splits if_splits)
    let ?p = "process_done (finished ts (pending s)) s"
    have d: "data_ok c f xs (next_idx_to_yield s) s" using ok ts(1) by (simp add: stream_ok_def at_rest_def)
    then have k: "distinct (map fst (pending s))" by (simp add: data_ok_def)
    have fin: "\<forall>(i, r) \<in> set (finished ts (pending s)). (i, Finished r) \<in> set (pending s)" by (auto dest: finished_sub)
    have p: "data_ok c f xs (next_idx_to_yield s) ?p"
      by (intro data_ok_process_done [OF d] distinct_finished k fin)
    have "distinct (map fst (results (schedule c (length xs) ?p)))"
      using data_ok_schedule [OF p] by (simp add: data_ok_def)
    then have "remaining_steps c xs t \<le> remaining_steps c xs ?p"
      using run_loop_weight [of "schedule c (length xs) ?p" c xs] schedule_weight [OF p] unfolding ts(3) by simp
    also have "\<dots> < remaining_steps c xs s"
      using process_done_weight [OF k distinct_finished [OF k] fin, of c xs] ts(2) by (cases "finished ts (pending s)") auto
    finally show ?thesis .
  next
    case Pull
    consider "control s = NotStarted" "t = run_loop c (schedule c (length xs) s)"
      | "control s = AtYield" "t = run_loop c (s\<lparr>next_idx_to_yield := Suc (next_idx_to_yield s)\<rparr>)"
      using st Pull by (auto split: Control.splits)
    then show ?thesis
    proof cases
      case 1
      then have d: "data_ok c f xs 0 s" using ok by (auto simp: stream_ok_def at_rest_def intro: data_ok_init)
      have "distinct (map fst (results (schedule c (length xs) s)))"
        using data_ok_schedule [OF d] by (simp add: data_ok_def)
      from run_loop_weight [OF this, of c xs] schedule_weight [OF d] 1 show ?thesis by simp
    next
      case 2
      then have "distinct (map fst (results s))" using ok by (simp add: stream_ok_def at_rest_def data_ok_def)
      with run_loop_weight [of "s\<lparr>next_idx_to_yield := Suc (next_idx_to_yield s)\<rparr>" c xs] 2
      show ?thesis by (simp add: remaining_steps_def)
    qed
  next
    case Close
    with st show ?thesis by (auto simp: leave_def remaining_steps_def split: if_splits)
  qed
qed

lemma run_weight: "stream_run c f xs es s \<Longrightarrow>
    length es + remaining_steps c xs s \<le> length xs * (2 * nat (udf_retries c) + 9) + 2"
proof (induction rule: stream_run.induct)
  case (start s)
  then show ?case by (auto simp: mk_stream_def remaining_steps_def raise_if_def split: if_splits)
next
  case (step es s e t)
  with step_weight [OF stream_run_ok [OF step.hyps(1)] step.hyps(2)] show ?case by simp
qed

text \<open>Something can always happen until the generator is done.\<close>

lemma stream_progress:
  assumes ok: "stream_ok c f xs s" and c: "0 < udf_concurrency c"
    and stuck: "\<And>e. stream_step c f xs e s = None"
  shows "control s = Returned \<or> control s = Closed"
proof (cases "control s")
  case (Awaiting ts)
  then have d: "data_ok c f xs (next_idx_to_yield s) s" "ts \<noteq> []" "set ts \<subseteq> fst ` set (pending s)"
    using ok by (auto simp: stream_ok_def at_rest_def intro: rev_image_eqI)
  then have k: "distinct (map fst (pending s))" by (simp add: data_ok_def)
  have none: "p \<noteq> Attempt j \<and> p \<noteq> Sleeping j" if "(i, p) \<in> set (pending s)" for i p j
    using stuck [of "AttemptEnds i"] stuck [of "SleepEnds i"] map_of_is_SomeI [OF k that] by (auto split: Phase.splits)
  then have free: "filter (\<lambda>(i, p). holds_semaphore p) (pending s) = []"
    by (auto simp: filter_empty_conv elim!: holds_semaphore.elims)
  obtain i p where i: "i \<in> set ts" "(i, p) \<in> set (pending s)" using d(2,3) by (cases ts) force+
  have "p \<noteq> Waiting" using stuck [of "Acquire i"] map_of_is_SomeI [OF k i(2)] free c by auto
  with none [OF i(2)] obtain r where "p = Finished r" by (cases p) auto
  then have "finished ts (pending s) \<noteq> []" using i finished_empty [of ts "pending s"] by blast
  with stuck [of Wake] Awaiting show ?thesis by simp
next
  case (Raised e)
  then show ?thesis using ok by (simp add: stream_ok_def at_rest_def)
qed (use stuck [of Pull] in auto)

lemma run_returned:
  assumes "stream_run c f xs es s" "control s = Returned"
  shows "yielded s = map (\<lambda>x. call_result c (f x)) (take (items_taken s) xs)"
    and "items_taken s = length xs \<or> max_buffer_size c \<le> int (items_taken s) \<and> items_taken s < length xs"
  using stream_run_ok [OF assms(1)] assms(2) by (auto simp: stream_ok_def at_rest_def)

lemma yielded_prefix:
  assumes "stream_run c f xs es s"
  shows "\<exists>n. yielded s = map (\<lambda>x. call_result c (f x)) (take n xs)"
proof -
  have "at_rest c f xs s" using stream_run_ok [OF assms] by (simp add: stream_ok_def)
  then show ?thesis
    by (cases "control s")
      (auto simp: at_rest_def data_ok_def mk_stream_def raise_if_def intro: exI [of _ 0] split: if_splits)
qed

lemma take_length_map: "ys = map g (take n xs) \<Longrightarrow> ys = map g (take (length ys) xs)"
  by (cases "n \<le> length xs") (auto simp: min_def)

text \<open>C7. An asynchronous user function hands its consumer the answers of the items in the order of
  the items, each the first success of its attempts or the last failure, whatever order tasks end
  in; the generator never fails, and when it ends by itself and the items do not exceed its buffer,
  every item was answered.\<close>

theorem udf_outputs_in_order:
  assumes "stream_run c f xs es s"
  shows "yielded s = map (\<lambda>x. call_result c (f x)) (take (length (yielded s)) xs) \<and>
     (\<forall>e. control s \<noteq> Raised e) \<and>
     (control s = Returned \<and> int (length xs) \<le> max_buffer_size c \<longrightarrow>
        yielded s = map (\<lambda>x. call_result c (f x)) xs)"
proof -
  have "\<forall>e. control s \<noteq> Raised e" using stream_run_ok [OF assms] by (auto simp: stream_ok_def at_rest_def)
  moreover obtain n where "yielded s = map (\<lambda>x. call_result c (f x)) (take n xs)"
    using yielded_prefix [OF assms] by blast
  ultimately show ?thesis using take_length_map run_returned [OF assms] by fastforce
qed

text \<open>C24. Every run of an asynchronous user function ends, after a number of steps linear in the items
  and the retries, and it can only stop once the generator has returned or was closed.\<close>

theorem udf_runs_end:
  assumes "stream_run c f xs es s" and "0 < udf_concurrency c"
  shows "length es \<le> length xs * (2 * nat (udf_retries c) + 9) + 2 \<and>
     ((\<forall>e. stream_step c f xs e s = None) \<longrightarrow> control s \<in> {Returned, Closed})"
  using run_weight [OF assms(1)] stream_progress [OF stream_run_ok [OF assms(1)] assms(2)] by auto

text \<open>The bounds on running and pending tasks hold, and a weaker one than intended on the buffer.\<close>

theorem udf_bounds:
  assumes "stream_run c f xs es s"
  shows "int (length (filter (\<lambda>(i, p). holds_semaphore p) (pending s))) \<le> max 0 (udf_concurrency c) \<and>
     int (length (pending s)) \<le> max 0 (max_pending c) \<and>
     (pending s \<noteq> [] \<longrightarrow> int (length (pending s) + length (results s)) \<le> max_buffer_size c + max_pending c)"
  using stream_run_ok [OF assms] by (auto simp: stream_ok_def live_data_def data_ok_def)

section \<open>Runs of examples\<close>

fun run_events ::
  "StreamConfig \<Rightarrow> ('i \<Rightarrow> nat \<Rightarrow> 'v res) \<Rightarrow> 'i list \<Rightarrow> Event list \<Rightarrow> 'v Stream \<Rightarrow> 'v Stream option" where
  "run_events c f xs [] s = Some s"
| "run_events c f xs (e # es) s =
     (case stream_step c f xs e s of None \<Rightarrow> None | Some t \<Rightarrow> run_events c f xs es t)"

lemma stream_run_events:
  "stream_run c f xs ds s \<Longrightarrow> run_events c f xs es s = Some t \<Longrightarrow> stream_run c f xs (ds @ es) t"
proof (induction es arbitrary: ds s)
  case (Cons e es)
  then obtain u where "stream_step c f xs e s = Some u" "run_events c f xs es u = Some t"
    by (auto split: option.splits)
  with Cons.IH [OF stream_run.step [OF Cons.prems(1)]] show ?case by fastforce
qed simp

definition empty_stream :: "'v Stream" where
  "empty_stream = \<lparr>pending = [], results = [], next_idx_to_yield = 0, exhausted = False,
     items_taken = 0, control = NotStarted, yielded = []\<rparr>"

lemma run_from_start:
  "0 \<le> udf_concurrency c \<Longrightarrow> run_events c f xs es empty_stream = Some t \<Longrightarrow> stream_run c f xs es t"
  using stream_run_events [of c f xs "[]" empty_stream es t] stream_run.start [of c empty_stream f xs]
  by (simp add: mk_stream_def empty_stream_def)

text \<open>Two items, one of which fails once and is retried, ending in the reverse order.\<close>

definition small_config :: StreamConfig where
  "small_config = \<lparr>udf_concurrency = 2, udf_retries = 1\<rparr>"

definition flaky :: "nat \<Rightarrow> nat \<Rightarrow> int res" where
  "flaky x k = (if x = 0 \<and> k = 0 then Inl PyRuntimeError else Inr (int (10 * x + k)))"

definition small_events :: "Event list" where
  "small_events = [Pull, Acquire 0, Acquire 1, AttemptEnds 0, AttemptEnds 1, Wake, SleepEnds 0, AttemptEnds 0, Wake, Pull, Pull]"

lemma small_run: "run_events small_config flaky [0, 1] small_events empty_stream =
    Some \<lparr>pending = [], results = [], next_idx_to_yield = 2, exhausted = True,
       items_taken = 2, control = Returned, yielded = [Inr 1, Inr 10]\<rparr>"
  by code_simp

lemma small_stream_run: "stream_run small_config flaky [0, 1] small_events
    \<lparr>pending = [], results = [], next_idx_to_yield = 2, exhausted = True,
       items_taken = 2, control = Returned, yielded = [Inr 1, Inr 10]\<rparr>"
  by (rule run_from_start [OF _ small_run]) (simp add: small_config_def)

theorem udf_outputs_in_order_witness:
  "[Inr 1, Inr 10] = map (\<lambda>x. call_result small_config (flaky x)) [0, 1]"
  using udf_outputs_in_order [OF small_stream_run] by (simp add: small_config_def max_buffer_size_def limit_defs)

theorem udf_runs_end_witness: "length small_events \<le> 24"
  using udf_runs_end [OF small_stream_run] by (simp add: small_config_def)

text \<open>
  A run that loses an item.  Of three places two are held by slow items while the third works
  through the others; one slow item ends, the consumer takes its output, and all other pending
  items end before it asks again.  Their results fill the buffer with nothing left pending, so no
  item is scheduled and the loop ends when the buffer is empty.
\<close>

definition three_places :: StreamConfig where
  "three_places = \<lparr>udf_concurrency = 3, udf_retries = 0\<rparr>"

definition losing_events :: "Event list" where
  "losing_events =
     [Pull, Acquire 0, Acquire 1] @
     concat (map (\<lambda>j. [Acquire j, AttemptEnds j, Wake]) [2..<23]) @
     [AttemptEnds 0, Wake] @
     concat (map (\<lambda>j. [Acquire j, AttemptEnds j]) [23..<31]) @
     [AttemptEnds 1, Pull, Wake] @ replicate 30 Pull"

theorem item_lost:
  "map_option (\<lambda>s. (control s, length (yielded s), items_taken s))
     (run_events three_places (\<lambda>x k. Inr x :: nat res) [0..<32] losing_events empty_stream) =
   Some (Returned, 31, 31)"
  by code_simp

text \<open>With one more item through the third place the buffer holds more than its size.\<close>

theorem buffer_exceeded:
  "map_option (\<lambda>s. (length (results s), max_buffer_size three_places))
     (run_events three_places (\<lambda>x k. Inr x :: nat res) [0..<40]
       ([Pull, Acquire 0, Acquire 1] @
        concat (map (\<lambda>j. [Acquire j, AttemptEnds j, Wake]) [2..<25]) @
        [AttemptEnds 0, Wake] @
        concat (map (\<lambda>j. [Acquire j, AttemptEnds j]) [25..<33]) @
        [AttemptEnds 1, Pull, Wake]) empty_stream) = Some (31, 30)"
  by code_simp

text \<open>Without a place nothing is scheduled and nothing given out; a second call gives nothing either.\<close>

theorem no_concurrency_no_outputs:
  "map_option yielded (run_events \<lparr>udf_concurrency = 0, udf_retries = 0\<rparr> (\<lambda>x k. Inr x :: nat res) [1, 2, 3] [Pull] empty_stream) =
   Some []"
  by code_simp

theorem second_call_empty:
  assumes "exhausted s" "pending s = []" "results s = []"
  shows "stream_step c f xs Pull (call_again s) = Some (leave Returned (call_again s))"
  using assms by (simp add: call_again_def schedule.simps can_schedule_more_def run_loop_def)

section \<open>The column of results (\<open>_convert_async_udf_expr\<close>)\<close>

text \<open>Truth of a value, as far as it is one of the known classes.\<close>

fun py_true :: "(string \<Rightarrow> bool) \<Rightarrow> PyObj \<Rightarrow> bool" where
  "py_true truth PNone = False"
| "py_true truth (PBool b) = b"
| "py_true truth (PInt n) = (n \<noteq> 0)"
| "py_true truth (PFloat s) = (s \<notin> {''0.0'', ''-0.0''})"
| "py_true truth (PStr s) = (s \<noteq> [])"
| "py_true truth (PDatetime _ _) = True"
| "py_true truth (PDate _ _) = True"
| "py_true truth (PList vs) = (vs \<noteq> [])"
| "py_true truth (PDict kvs) = (kvs \<noteq> [])"
| "py_true truth (PForeign n) = truth n"

definition udf_value :: "(string \<Rightarrow> bool) \<Rightarrow> DataType \<Rightarrow> PyObj res \<Rightarrow> PyObj res" where
  "udf_value truth rt answer =
     (case answer of
        Inl e \<Rightarrow> Inr PNone
      | Inr v \<Rightarrow>
          if py_true truth v
          then bind_res (infer_dtype_from_pyobj v) (\<lambda>t.
                 bind_res (raise_if (\<not> dtype_eq t rt) PyTypeError) (\<lambda>_. Inr v))
          else Inr v)"

definition udf_column :: "(string \<Rightarrow> bool) \<Rightarrow> DataType \<Rightarrow> PyObj res list \<Rightarrow> PyObj list res" where
  "udf_column truth rt answers = map_res (udf_value truth rt) answers"

text \<open>An item whose attempts all fail gives a null, never an exception of the column.\<close>

lemma udf_column_row:
  assumes "udf_column truth rt answers = Inr vs" "i < length answers"
  shows "case answers ! i of Inl e \<Rightarrow> vs ! i = PNone
     | Inr v \<Rightarrow> vs ! i = v \<and> (py_true truth v \<longrightarrow> (\<exists>t. infer_dtype_from_pyobj v = Inr t \<and> dtype_eq t rt))"
proof -
  have "udf_value truth rt (answers ! i) = Inr (vs ! i)"
    using assms by (auto simp: udf_column_def map_res_Inr_iff list_all2_conv_all_nth)
  then show ?thesis by (auto simp: udf_value_def raise_if_def split: sum.splits if_splits)
qed

text \<open>A float is inferred as FloatType, so a function declared to return doubles cannot return one.\<close>

theorem double_results_rejected:
  "py_true truth (PFloat x) \<Longrightarrow> udf_value truth DoubleType (Inr (PFloat x)) = Inl PyTypeError"
  by (simp add: udf_value_def)

theorem falsy_result_unchecked: "udf_value truth StringType (Inr (PInt 0)) = Inr (PInt 0)"
  by (simp add: udf_value_def)

end
