(* ===== verification/EventLoop.thy ===== *)
theory EventLoop
  imports Fenic_Prelude
begin

text \<open>
  The shared event loop (\<^verbatim>\<open>_backends/local/async_utils.py\<close>): a manager creates a loop on a thread
  for its first client, counts its clients and stops the loop when the last one releases it.  Each
  operation runs under the manager's lock and is one step; stopping a loop happens outside of the
  lock and is a step of its own.
\<close>

section \<open>The manager\<close>

text \<open>Loops are numbered in the order they are made; those that were stopped are listed.\<close>

record LoopManager =
  current_loop :: "nat option"
  client_count :: int
  loops_created :: nat
  loops_stopped :: "nat list"
  shutdown_handler :: bool

definition init_manager :: LoopManager where
  "init_manager = \<lparr>current_loop = None, client_count = 0, loops_created = 0, loops_stopped = [],
     shutdown_handler = False\<rparr>"

definition is_running :: "LoopManager \<Rightarrow> nat \<Rightarrow> bool" where
  "is_running m l \<longleftrightarrow> l < loops_created m \<and> l \<notin> set (loops_stopped m)"

definition create_event_loop :: "LoopManager \<Rightarrow> LoopManager" where
  "create_event_loop m =
     m\<lparr>current_loop := Some (loops_created m), loops_created := Suc (loops_created m), shutdown_handler := True\<rparr>"

definition get_or_create_loop :: "LoopManager \<Rightarrow> nat \<times> LoopManager" where
  "get_or_create_loop m =
     (let m' = (case current_loop m of
                  None \<Rightarrow> create_event_loop m
                | Some l \<Rightarrow> if is_running m l then m else create_event_loop m)
      in (the (current_loop m'), m'\<lparr>client_count := client_count m' + 1\<rparr>))"

text \<open>The second component is the loop the caller has to stop.\<close>

definition release_loop :: "LoopManager \<Rightarrow> LoopManager \<times> nat option" where
  "release_loop m =
     (let m' = m\<lparr>client_count := client_count m - 1\<rparr>
      in case current_loop m' of
           Some l \<Rightarrow>
             if client_count m' \<le> 0 \<and> is_running m' l
             then (m'\<lparr>current_loop := None, client_count := 0, shutdown_handler := False\<rparr>, Some l)
             else (m', None)
         | None \<Rightarrow> (m', None))"

definition shutdown_loop :: "nat \<Rightarrow> LoopManager \<Rightarrow> LoopManager" where
  "shutdown_loop l m = m\<lparr>loops_stopped := l # loops_stopped m\<rparr>"

section \<open>Clients\<close>

text \<open>
  Which client holds which loop, and the loops somebody has taken out of the manager to stop.  A
  client acquires the loop once and releases what it holds.
\<close>

record Clients =
  manager :: LoopManager
  holdings :: "(nat, nat) dict"
  to_stop :: "nat list"

datatype LoopEvent = Get nat | Release nat | Stop nat

fun loop_step :: "LoopEvent \<Rightarrow> Clients \<Rightarrow> Clients option" where
  "loop_step (Get k) s =
     (if k \<in> fst ` set (holdings s) then None
      else let (l, m) = get_or_create_loop (manager s) in Some (s\<lparr>manager := m, holdings := (k, l) # holdings s\<rparr>))"
| "loop_step (Release k) s =
     (if k \<notin> fst ` set (holdings s) then None
      else let (m, l) = release_loop (manager s)
           in Some (s\<lparr>manager := m, holdings := AList.delete k (holdings s),
                      to_stop := (case l of None \<Rightarrow> to_stop s | Some l \<Rightarrow> l # to_stop s)\<rparr>))"
| "loop_step (Stop l) s =
     (if l \<in> set (to_stop s)
      then Some (s\<lparr>manager := shutdown_loop l (manager s), to_stop := remove1 l (to_stop s)\<rparr>) else None)"

inductive reachable_clients :: "Clients \<Rightarrow> bool" where
  init: "reachable_clients \<lparr>manager = init_manager, holdings = [], to_stop = []\<rparr>"
| step: "reachable_clients s \<Longrightarrow> loop_step e s = Some t \<Longrightarrow> reachable_clients t"

definition clients_ok :: "Clients \<Rightarrow> bool" where
  "clients_ok s \<longleftrightarrow>
     distinct (map fst (holdings s)) \<and> client_count (manager s) = int (length (holdings s)) \<and>
     (\<forall>l \<in> snd ` set (holdings s). current_loop (manager s) = Some l) \<and>
     (holdings s = [] \<longleftrightarrow> current_loop (manager s) = None) \<and>
     (\<forall>l. current_loop (manager s) = Some l \<longrightarrow> is_running (manager s) l \<and> l \<notin> set (to_stop s)) \<and>
     (\<forall>l \<in> set (to_stop s) \<union> set (loops_stopped (manager s)). l < loops_created (manager s)) \<and>
     (shutdown_handler (manager s) \<longleftrightarrow> current_loop (manager s) \<noteq> None)"

lemma clients_ok_get:
  assumes "clients_ok s" "loop_step (Get k) s = Some t"
  shows "clients_ok t"
  using assms
  by (cases "current_loop (manager s)")
    (auto simp: clients_ok_def get_or_create_loop_def create_event_loop_def is_running_def Let_def ball_Un less_SucI
      split: if_splits)

lemma clients_ok_release:
  assumes ok: "clients_ok s" and st: "loop_step (Release k) s = Some t"
  shows "clients_ok t"
proof -
  have k: "k \<in> fst ` set (holdings s)" using st by (auto split: if_splits)
  then obtain l where l: "current_loop (manager s) = Some l" "is_running (manager s) l"
    using ok by (cases "holdings s") (auto simp: clients_ok_def)
  have d: "distinct (map fst (holdings s))" using ok by (simp add: clients_ok_def)
  have len: "Suc (length (AList.delete k (holdings s))) = length (holdings s)" by (rule length_delete_member [OF d k])
  have sub: "set (AList.delete k (holdings s)) \<subseteq> set (holdings s)" by (auto simp: AList.delete_eq)
  have dist: "distinct (map fst (AList.delete k (holdings s)))" using d by (rule distinct_delete)
  show ?thesis
  proof (cases "AList.delete k (holdings s) = []")
    case True
    then show ?thesis
      using ok st k l len by (auto simp: clients_ok_def release_loop_def is_running_def Let_def)
  next
    case False
    then have "1 < client_count (manager s)" using ok len by (cases "AList.delete k (holdings s)") (auto simp: clients_ok_def)
    then show ?thesis
      using ok st k l len dist False subsetD [OF sub]
      by (auto simp: clients_ok_def release_loop_def is_running_def Let_def) (metis snd_conv)
  qed
qed

lemma clients_ok_stop:
  assumes "clients_ok s" "loop_step (Stop l) s = Some t"
  shows "clients_ok t"
  using assms
  by (auto simp: clients_ok_def shutdown_loop_def is_running_def ball_Un split: if_splits dest!: set_remove1_subset [THEN subsetD])

text \<open>C25. Every client of the shared event loop holds one that is running until it releases it,
  the same for all of them, however acquiring, releasing and stopping interleave; the loop exists
  exactly while it has clients.\<close>

theorem held_loop_runs:
  assumes "reachable_clients s"
  shows "(\<forall>(k, l) \<in> set (holdings s). current_loop (manager s) = Some l \<and> is_running (manager s) l \<and> l \<notin> set (to_stop s)) \<and>
     client_count (manager s) = int (length (holdings s)) \<and> (current_loop (manager s) = None \<longleftrightarrow> holdings s = [])"
proof -
  have "clients_ok s"
    using assms
  proof (induction rule: reachable_clients.induct)
    case init
    then show ?case by (simp add: clients_ok_def init_manager_def is_running_def)
  next
    case (step s e t)
    then show ?case
      using clients_ok_get clients_ok_release clients_ok_stop by (cases e) blast+
  qed
  then show ?thesis by (fastforce simp: clients_ok_def)
qed

lemma example_clients:
  "reachable_clients \<lparr>manager = \<lparr>current_loop = Some 1, client_count = 1, loops_created = 2, loops_stopped = [],
     shutdown_handler = True\<rparr>, holdings = [(2, 1)], to_stop = [0]\<rparr>"
  (is "reachable_clients ?s")
proof -
  have "reachable_clients \<lparr>manager = \<lparr>current_loop = Some 0, client_count = 1, loops_created = 1, loops_stopped = [],
     shutdown_handler = True\<rparr>, holdings = [(1, 0)], to_stop = []\<rparr>" (is "reachable_clients ?a")
    by (rule reachable_clients.step [OF reachable_clients.init, of "Get 1"]) code_simp
  then have "reachable_clients \<lparr>manager = \<lparr>current_loop = None, client_count = 0, loops_created = 1, loops_stopped = [],
     shutdown_handler = False\<rparr>, holdings = [], to_stop = [0]\<rparr>"
    by (rule reachable_clients.step [of _ "Release 1"]) code_simp
  then show ?thesis by (rule reachable_clients.step [of _ "Get 2"]) code_simp
qed

theorem held_loop_runs_witness:
  "is_running \<lparr>current_loop = Some 1, client_count = 1, loops_created = 2, loops_stopped = [],
     shutdown_handler = True\<rparr> 1"
  using held_loop_runs [OF example_clients] by simp

text \<open>A release without a matching acquisition takes the loop from another client.\<close>

theorem unbalanced_release_stops_shared_loop:
  "snd (release_loop (snd (get_or_create_loop (snd (get_or_create_loop (fst (release_loop init_manager))))))) = Some 0"
  by code_simp

end
