(* ===== verification/SchemaSerde.thy ===== *)
theory SchemaSerde
  imports DataTypes
begin

text \<open>
  The JSON form of schemas in the system tables (\<^verbatim>\<open>_backends/schema_serde.py\<close>).  The text of a
  JSON value and its parser belong to the library, so a stored schema is the value itself.
\<close>

datatype Json = JStr string | JInt int | JList "Json list" | JDict "(string, Json) dict"

definition json_dict :: "Json \<Rightarrow> (string, Json) dict" where
  "json_dict j = (case j of JDict d \<Rightarrow> d | _ \<Rightarrow> [])"

text \<open>\<^verbatim>\<open>d[k]\<close>\<close>

definition json_get :: "(string, Json) dict \<Rightarrow> string \<Rightarrow> Json res" where
  "json_get d k = (case map_of d k of None \<Rightarrow> Inl PyKeyError | Some j \<Rightarrow> Inr j)"

definition json_list :: "Json \<Rightarrow> Json list" where
  "json_list j = (case j of JList js \<Rightarrow> js | _ \<Rightarrow> [])"

definition json_str :: "Json \<Rightarrow> string" where
  "json_str j = (case j of JStr s \<Rightarrow> s | _ \<Rightarrow> [])"

definition json_int :: "Json \<Rightarrow> int" where
  "json_int j = (case j of JInt n \<Rightarrow> n | _ \<Rightarrow> 0)"

section \<open>Types\<close>

fun reverse_type_mapping :: "DataType \<Rightarrow> string" where
  "reverse_type_mapping StringType = ''StringType''"
| "reverse_type_mapping IntegerType = ''IntegerType''"
| "reverse_type_mapping FloatType = ''FloatType''"
| "reverse_type_mapping DoubleType = ''DoubleType''"
| "reverse_type_mapping BooleanType = ''BooleanType''"
| "reverse_type_mapping DateType = ''DateType''"
| "reverse_type_mapping TimestampType = ''TimestampType''"
| "reverse_type_mapping (ArrayType _) = ''ArrayType''"
| "reverse_type_mapping (StructType _) = ''StructType''"
| "reverse_type_mapping (EmbeddingType _ _) = ''EmbeddingType''"
| "reverse_type_mapping MarkdownType = ''MarkdownType''"
| "reverse_type_mapping HtmlType = ''HtmlType''"
| "reverse_type_mapping JsonType = ''JsonType''"
| "reverse_type_mapping (TranscriptType _) = ''TranscriptType''"
| "reverse_type_mapping (DocumentPathType _) = ''DocumentPathType''"

fun data_type_json :: "DataType \<Rightarrow> Json" where
  "data_type_json (ArrayType t) =
     JDict [(''type'', JStr ''ArrayType''), (''element_type'', data_type_json t)]"
| "data_type_json (StructType fs) =
     JDict [(''type'', JStr ''StructType''),
            (''struct_fields'', JList (map (\<lambda>f. JDict [(''name'', JStr (sf_name f)),
                                                    (''data_type'', data_type_json (sf_type f))]) fs))]"
| "data_type_json (EmbeddingType n m) =
     JDict [(''type'', JStr ''EmbeddingType''), (''dimensions'', JInt n), (''embedding_model'', JStr m)]"
| "data_type_json (TranscriptType f) = JDict [(''type'', JStr ''TranscriptType''), (''format'', JStr f)]"
| "data_type_json (DocumentPathType f) = JDict [(''type'', JStr ''DocumentPathType''), (''format'', JStr f)]"
| "data_type_json d = JDict [(''type'', JStr (reverse_type_mapping d))]"

text \<open>The classes that are made without arguments.\<close>

definition plain_classes :: "(string, DataType) dict" where
  "plain_classes = map (\<lambda>d. (reverse_type_mapping d, d))
     [StringType, IntegerType, FloatType, DoubleType, BooleanType, DateType, TimestampType,
      MarkdownType, HtmlType, JsonType]"

lemma json_dict_size [termination_simp]:
  "map_of (json_dict j) k = Some x \<Longrightarrow> size x < size j"
proof -
  have "map_of d k = Some x \<Longrightarrow> size x < Suc (size_list (size_prod (\<lambda>_. 0) size) d)" for d :: "(string, Json) dict"
    by (induction d) (auto split: if_splits)
  then show "map_of (json_dict j) k = Some x \<Longrightarrow> size x < size j"
    by (cases j) (auto simp: json_dict_def)
qed

lemma json_list_size [termination_simp]: "x \<in> set (json_list j) \<Longrightarrow> size x < size j"
  by (cases j) (auto simp: json_list_def dest: size_list_estimation' [OF _ order_refl] split: Json.splits
      intro: le_imp_less_Suc)

function json_data_type :: "Json \<Rightarrow> DataType res" where
  "json_data_type j =
     (case map_of (json_dict j) ''type'' of
        None \<Rightarrow> Inl PyValueError
      | Some t \<Rightarrow>
          if json_str t = '''' then Inl PyValueError
          else if json_str t = ''ArrayType'' then
            (case map_of (json_dict j) ''element_type'' of
               None \<Rightarrow> Inl PyKeyError
             | Some e \<Rightarrow> bind_res (json_data_type e) (\<lambda>d. Inr (ArrayType d)))
          else if json_str t = ''StructType'' then
            (case map_of (json_dict j) ''struct_fields'' of
               None \<Rightarrow> Inl PyKeyError
             | Some fs \<Rightarrow>
                 bind_res (map_res (\<lambda>f.
                     bind_res (json_get (json_dict f) ''name'') (\<lambda>n.
                       case map_of (json_dict f) ''data_type'' of
                         None \<Rightarrow> Inl PyKeyError
                       | Some d \<Rightarrow> bind_res (json_data_type d) (\<lambda>u. Inr (StructField (json_str n) u))))
                   (json_list fs)) (\<lambda>us. Inr (StructType us)))
          else if json_str t = ''EmbeddingType'' then
            bind_res (json_get (json_dict j) ''dimensions'') (\<lambda>n.
            bind_res (json_get (json_dict j) ''embedding_model'') (\<lambda>m.
              Inr (EmbeddingType (json_int n) (json_str m))))
          else if json_str t = ''TranscriptType'' then
            bind_res (json_get (json_dict j) ''format'') (\<lambda>f. Inr (TranscriptType (json_str f)))
          else if json_str t = ''DocumentPathType'' then
            bind_res (json_get (json_dict j) ''format'') (\<lambda>f. Inr (DocumentPathType (json_str f)))
          else (case map_of plain_classes (json_str t) of None \<Rightarrow> Inl PyValueError | Some d \<Rightarrow> Inr d))"
  by pat_completeness auto
termination
proof (relation "measure size")
  fix j fs f d
  assume "map_of (json_dict j) ''struct_fields'' = Some fs" "f \<in> set (json_list fs)"
    "map_of (json_dict f) ''data_type'' = Some d"
  from json_dict_size [OF this(1)] json_list_size [OF this(2)] json_dict_size [OF this(3)]
  show "(d, j) \<in> measure size" by simp
qed (auto dest: json_dict_size)

declare json_data_type.simps [simp del]

section \<open>Schemas\<close>

definition serialize_schema :: "Schema \<Rightarrow> Json" where
  "serialize_schema s =
     JDict [(''column_fields'',
       JList (map (\<lambda>f. JDict [(''name'', JStr (cf_name f)), (''data_type'', data_type_json (cf_type f))])
         (column_fields s)))]"

definition deserialize_column_field :: "Json \<Rightarrow> ColumnField res" where
  "deserialize_column_field j =
     bind_res (json_get (json_dict j) ''name'') (\<lambda>n.
     bind_res (json_get (json_dict j) ''data_type'') (\<lambda>d.
     bind_res (json_data_type d) (\<lambda>t. Inr (mk_field (json_str n) t))))"

definition deserialize_schema :: "Json \<Rightarrow> Schema res" where
  "deserialize_schema j =
     bind_res (map_res deserialize_column_field
       (case map_of (json_dict j) ''column_fields'' of None \<Rightarrow> [] | Some fs \<Rightarrow> json_list fs)) (\<lambda>fs.
       Inr (mk_schema fs))"

section \<open>Round trips\<close>

lemma json_sel [simp]:
  "json_dict (JDict d) = d" "json_list (JList js) = js" "json_str (JStr s) = s" "json_int (JInt n) = n"
  by (simp_all add: json_dict_def json_list_def json_str_def json_int_def)

lemma data_type_json_roundtrip [simp]: "json_data_type (data_type_json d) = Inr d"
proof (induction d rule: DataType_induct)
  case (Prim d)
  then show ?case by (cases d) (simp_all add: json_data_type.simps plain_classes_def json_get_def)
next
  case (Array t)
  then show ?case by (simp add: json_data_type.simps)
next
  case (Struct fs)
  have "map_res (\<lambda>f. bind_res (json_get (json_dict f) ''name'') (\<lambda>n.
        case map_of (json_dict f) ''data_type'' of None \<Rightarrow> Inl PyKeyError
        | Some d \<Rightarrow> bind_res (json_data_type d) (\<lambda>u. Inr (StructField (json_str n) u))))
      (map (\<lambda>f. JDict [(''name'', JStr (sf_name f)), (''data_type'', data_type_json (sf_type f))]) fs) = Inr fs"
    using Struct by (induction fs) (auto simp: json_get_def)
  then show ?case by (simp add: json_data_type.simps)
qed

lemma schema_json_roundtrip [simp]: "deserialize_schema (serialize_schema s) = Inr s"
proof -
  have "map_res deserialize_column_field
      (map (\<lambda>f. JDict [(''name'', JStr (cf_name f)), (''data_type'', data_type_json (cf_type f))]) fs) = Inr fs" for fs
    by (induction fs) (auto simp: deserialize_column_field_def json_get_def mk_field_def)
  then show ?thesis by (simp add: deserialize_schema_def serialize_schema_def)
qed

end
