(* ===== verification/CatalogNames.thy ===== *)
theory CatalogNames
  imports Fenic_Prelude
begin

text \<open>
  Names of catalogs, databases and tables (\<^verbatim>\<open>_backends/utils/catalog_utils.py\<close>): splitting a
  qualified name at its dots outside of quotes, and the identifiers made of the parts.  Names are
  ASCII, where \<^verbatim>\<open>casefold\<close> lowers letters.
\<close>

definition normalize_object_name :: "string \<Rightarrow> string" where
  "normalize_object_name name = map lower_char name"

definition compare_object_names :: "string \<Rightarrow> string \<Rightarrow> bool" where
  "compare_object_names a b \<longleftrightarrow> map lower_char a = map lower_char b"

section \<open>Splitting a name\<close>

text \<open>The loop of \<open>_split\<close>; the current token is kept reversed.\<close>

definition close_part :: "string \<Rightarrow> string res" where
  "close_part current =
     (let part = py_strip (rev current)
      in bind_res (raise_if (part = '''') PyValueError) (\<lambda>_. Inr part))"

fun split_from :: "bool \<Rightarrow> string \<Rightarrow> string \<Rightarrow> string list res" where
  "split_from in_quote current [] =
     bind_res (raise_if in_quote PyValueError) (\<lambda>_.
     bind_res (close_part current) (\<lambda>part. Inr [part]))"
| "split_from in_quote current (ch # name) =
     (if ch = CHR 0x22 then split_from (\<not> in_quote) current name
      else if ch = CHR ''.'' \<and> \<not> in_quote then
        bind_res (close_part current) (\<lambda>part.
        bind_res (split_from in_quote [] name) (\<lambda>parts. Inr (part # parts)))
      else split_from in_quote (ch # current) name)"

definition split_name :: "string \<Rightarrow> string list res" where
  "split_name name = split_from False [] name"

section \<open>Identifiers\<close>

record TableIdentifier =
  ti_table :: string
  ti_db :: "string option"
  ti_catalog :: "string option"

definition table_from_string :: "string \<Rightarrow> TableIdentifier res" where
  "table_from_string full =
     bind_res (split_name full) (\<lambda>parts.
       case map normalize_object_name parts of
         [t] \<Rightarrow> Inr \<lparr>ti_table = t, ti_db = None, ti_catalog = None\<rparr>
       | [d, t] \<Rightarrow> Inr \<lparr>ti_table = t, ti_db = Some d, ti_catalog = None\<rparr>
       | [c, d, t] \<Rightarrow> Inr \<lparr>ti_table = t, ti_db = Some d, ti_catalog = Some c\<rparr>
       | _ \<Rightarrow> Inl ValidationError)"

definition table_enrich :: "TableIdentifier \<Rightarrow> string \<Rightarrow> string \<Rightarrow> TableIdentifier" where
  "table_enrich t catalog db =
     \<lparr>ti_table = ti_table t, ti_db = Some (if truthy (ti_db t) then the (ti_db t) else db),
      ti_catalog = Some (if truthy (ti_catalog t) then the (ti_catalog t) else catalog)\<rparr>"

record DBIdentifier =
  di_db :: string
  di_catalog :: "string option"

definition db_from_string :: "string \<Rightarrow> DBIdentifier res" where
  "db_from_string full =
     bind_res (split_name full) (\<lambda>parts.
       case map normalize_object_name parts of
         [d] \<Rightarrow> Inr \<lparr>di_db = d, di_catalog = None\<rparr>
       | [c, d] \<Rightarrow> Inr \<lparr>di_db = d, di_catalog = Some c\<rparr>
       | _ \<Rightarrow> Inl ValidationError)"

definition db_enrich :: "DBIdentifier \<Rightarrow> string \<Rightarrow> DBIdentifier" where
  "db_enrich d catalog = (if truthy (di_catalog d) then d else d\<lparr>di_catalog := Some catalog\<rparr>)"

text \<open>An absent part is equal to anything.\<close>

definition name_equal :: "string option \<Rightarrow> string \<Rightarrow> bool" where
  "name_equal part name \<longleftrightarrow> (truthy part \<and> name \<noteq> '''' \<longrightarrow> compare_object_names (the part) name)"

definition qualified_table_name :: "TableIdentifier \<Rightarrow> string" where
  "qualified_table_name t =
     [CHR 0x22] @ the (ti_db t) @ [CHR 0x22, CHR ''.'', CHR 0x22] @ ti_table t @ [CHR 0x22]"

section \<open>What the parts look like\<close>

definition plain_part :: "string \<Rightarrow> bool" where
  "plain_part p \<longleftrightarrow> p \<noteq> '''' \<and> CHR 0x22 \<notin> set p \<and> py_strip p = p"

lemma set_py_strip: "set (py_strip s) \<subseteq> set s"
  by (auto simp: py_strip_def dest!: set_dropWhileD)

lemma py_strip_idem [simp]: "py_strip (py_strip s) = py_strip s"
  by (rule py_strip_stripped) (rule stripped_py_strip)

lemma close_part_plain: "close_part current = Inr p \<Longrightarrow> CHR 0x22 \<notin> set current \<Longrightarrow> plain_part p"
  using set_py_strip [of "rev current"] by (auto simp: close_part_def Let_def raise_if_def plain_part_def split: if_splits)

lemma split_from_plain:
  "split_from q current name = Inr parts \<Longrightarrow> CHR 0x22 \<notin> set current \<Longrightarrow> list_all plain_part parts"
  by (induction q current name arbitrary: parts rule: split_from.induct)
    (auto split: if_splits dest: close_part_plain)

lemma split_name_plain: "split_name name = Inr parts \<Longrightarrow> list_all plain_part parts"
  by (rule split_from_plain) (auto simp: split_name_def)

lemma split_name_nonempty: "split_name name = Inr parts \<Longrightarrow> parts \<noteq> []"
proof -
  have "split_from q current name = Inr parts \<Longrightarrow> parts \<noteq> []" for q current
    by (induction q current name arbitrary: parts rule: split_from.induct) (auto split: if_splits)
  then show "split_name name = Inr parts \<Longrightarrow> parts \<noteq> []" by (simp add: split_name_def)
qed

end
