(* ===== verification/ToolBinding.thy ===== *)
theory ToolBinding
  imports ColumnAPI PlanSerde
begin

text \<open>
  Tools of the MCP server (\<^verbatim>\<open>src/fenic/core/mcp/\<close>): a query with placeholders is bound to the
  parameters that describe them (\<^verbatim>\<open>_tools.py\<close>), a call replaces the placeholders by the values
  it is given (\<^verbatim>\<open>_binder.py\<close>), the tool is stored as a message
  (\<^verbatim>\<open>core/_serde/proto/serde_context.py\<close>), and the server cuts the rows of the answer
  (\<^verbatim>\<open>_server.py\<close>).  The placeholders are found by the walk of
  \<^verbatim>\<open>core/_logical_plan/walker.py\<close>.  The lemmas show that a bound tool has exactly the
  parameters of its placeholders, that a call succeeds exactly when every placeholder has a
  value of its type or a default and leaves no placeholder, and that a tool survives its
  storage.
\<close>

section \<open>The walk over a plan\<close>

text \<open>
  The stack of \<^verbatim>\<open>_iter_expr_tree\<close> takes the last child first.  Objects that occur twice are
  visited once there; here each occurrence is visited.
\<close>

fun expr_tree :: "LogicalExpr \<Rightarrow> LogicalExpr list" where
  "expr_tree e = e # concat (map expr_tree (rev (expr_children e)))"

declare expr_tree.simps [simp del]

fun plan_expressions :: "LogicalPlan \<Rightarrow> LogicalExpr list" where
  "plan_expressions (Plan n cs s c) =
     concat (map expr_tree (node_exprs n)) @ concat (map plan_expressions cs)"

definition find_expressions :: "LogicalPlan \<Rightarrow> (LogicalExpr \<Rightarrow> bool) \<Rightarrow> LogicalExpr list" where
  "find_expressions plan P = filter P (plan_expressions plan)"

fun is_placeholder :: "LogicalExpr \<Rightarrow> bool" where
  "is_placeholder (UnresolvedLiteralExpr _ _) = True"
| "is_placeholder _ = False"

fun parameter_name :: "LogicalExpr \<Rightarrow> string" where
  "parameter_name (UnresolvedLiteralExpr _ p) = p"
| "parameter_name _ = ''''"

fun placeholder_type :: "LogicalExpr \<Rightarrow> DataType" where
  "placeholder_type (UnresolvedLiteralExpr d _) = d"
| "placeholder_type _ = StringType"

definition placeholders :: "LogicalPlan \<Rightarrow> LogicalExpr list" where
  "placeholders plan = find_expressions plan is_placeholder"

text \<open>\<^verbatim>\<open>{expr.parameter_name: expr for expr in expressions}\<close>\<close>

definition collect_unresolved_parameters :: "LogicalPlan \<Rightarrow> (string, LogicalExpr) dict" where
  "collect_unresolved_parameters plan =
     dict_of (map (\<lambda>e. (parameter_name e, e)) (placeholders plan))"

section \<open>Parameters and tools\<close>

record ToolParam =
  tp_name :: string
  tp_description :: string
  tp_allowed :: "PyObj list option"
  tp_has_default :: bool
  tp_default :: PyObj

text \<open>A default other than None is a default.\<close>

definition mk_tool_param :: "string \<Rightarrow> string \<Rightarrow> PyObj list option \<Rightarrow> bool \<Rightarrow> PyObj \<Rightarrow> ToolParam" where
  "mk_tool_param name description allowed has_default val =
     \<lparr>tp_name = name, tp_description = description, tp_allowed = allowed,
      tp_has_default = (has_default \<or> val \<noteq> PNone), tp_default = val\<rparr>"

text \<open>A bound parameter keeps its values as literals are kept in expressions.\<close>

record BoundToolParam =
  bp_name :: string
  bp_description :: string
  bp_type :: DataType
  bp_required :: bool
  bp_has_default :: bool
  bp_default :: PyVal
  bp_allowed :: "PyVal list option"

record UserDefinedTool =
  ut_name :: string
  ut_description :: string
  ut_params :: "BoundToolParam list"
  ut_limit :: int
  ut_view :: LogicalPlan

section \<open>Binding a tool\<close>

text \<open>
  Equality of Python values.  Booleans compare as integers; how floats compare to numbers is a
  parameter, for a float is its text.
\<close>

fun int_value :: "PyObj \<Rightarrow> int option" where
  "int_value (PBool b) = Some (of_bool b)"
| "int_value (PInt i) = Some i"
| "int_value _ = None"

fun is_float :: "PyObj \<Rightarrow> bool" where
  "is_float (PFloat _) = True"
| "is_float _ = False"

definition is_number :: "PyObj \<Rightarrow> bool" where
  "is_number v \<longleftrightarrow> is_float v \<or> int_value v \<noteq> None"

function (sequential) py_eq :: "(PyObj \<Rightarrow> PyObj \<Rightarrow> bool) \<Rightarrow> PyObj \<Rightarrow> PyObj \<Rightarrow> bool" where
  "py_eq float_eq (PList vs) w =
     (case w of PList ws \<Rightarrow> list_eq_with (py_eq float_eq) vs ws | _ \<Rightarrow> False)"
| "py_eq float_eq (PDict kvs) w =
     (case w of
        PDict kws \<Rightarrow> length kvs = length kws \<and>
          list_all (\<lambda>(k, v). case map_of kws k of None \<Rightarrow> False | Some x \<Rightarrow> py_eq float_eq v x) kvs
      | _ \<Rightarrow> False)"
| "py_eq float_eq v w =
     (if is_number v \<and> is_number w then
        if is_float v \<or> is_float w then float_eq v w else int_value v = int_value w
      else v = w)"
  by pat_completeness auto
termination
  by (relation "measure (\<lambda>(f, v, w). size v)")
    (auto simp: less_Suc_eq_le size_list_estimation' size_dict_value)

text \<open>\<^verbatim>\<open>isinstance(value, type(default))\<close>: a boolean is an integer, a point in time a date.\<close>

fun class_of_value :: "PyObj \<Rightarrow> string" where
  "class_of_value PNone = ''NoneType''"
| "class_of_value (PBool _) = ''bool''"
| "class_of_value (PInt _) = ''int''"
| "class_of_value (PFloat _) = ''float''"
| "class_of_value (PStr _) = ''str''"
| "class_of_value (PDatetime _ _) = ''datetime''"
| "class_of_value (PDate _ _) = ''date''"
| "class_of_value (PList _) = ''list''"
| "class_of_value (PDict _) = ''dict''"
| "class_of_value (PForeign _) = ''object''"

definition same_class :: "PyObj \<Rightarrow> PyObj \<Rightarrow> bool" where
  "same_class v w \<longleftrightarrow>
     class_of_value v = class_of_value w \<or>
     (class_of_value v, class_of_value w) \<in> {(''bool'', ''int''), (''datetime'', ''date'')}"

definition check_default :: "(PyObj \<Rightarrow> PyObj \<Rightarrow> bool) \<Rightarrow> ToolParam \<Rightarrow> unit res" where
  "check_default float_eq p =
     (case tp_allowed p of
        None \<Rightarrow> Inr ()
      | Some vs \<Rightarrow>
          if tp_has_default p \<and> tp_default p \<noteq> PNone then
            bind_res (raise_if (\<not> list_ex (\<lambda>v. py_eq float_eq (tp_default p) v) vs) PlanError) (\<lambda>_.
              raise_if (\<not> list_all (\<lambda>v. same_class v (tp_default p)) vs) PlanError)
          else Inr ())"

definition bound_param :: "ToolParam \<Rightarrow> DataType \<Rightarrow> BoundToolParam" where
  "bound_param p d =
     \<lparr>bp_name = tp_name p, bp_description = tp_description p, bp_type = d,
      bp_required = (\<not> tp_has_default p), bp_has_default = tp_has_default p,
      bp_default = literal_of (tp_default p), bp_allowed = map_option (map literal_of) (tp_allowed p)\<rparr>"

definition bind_tool ::
  "(PyObj \<Rightarrow> PyObj \<Rightarrow> bool) \<Rightarrow> string \<Rightarrow> string \<Rightarrow> ToolParam list \<Rightarrow> int \<Rightarrow> LogicalPlan \<Rightarrow> UserDefinedTool res" where
  "bind_tool float_eq name description params result_limit query =
     (let exprs = placeholders query;
          by_name = collect_unresolved_parameters query;
          by_param = dict_of (map (\<lambda>p. (tp_name p, p)) params)
      in bind_res
           (each_res (\<lambda>(n, _).
              let group = filter (\<lambda>e. parameter_name e = n) exprs
              in raise_if (\<not> list_all (\<lambda>e. expr_eq e (hd group)) group) PlanError) by_name) (\<lambda>_.
         bind_res (raise_if (list_ex (\<lambda>(n, _). map_of by_param n = None) by_name) PlanError) (\<lambda>_.
         bind_res
           (map_res (\<lambda>(n, e).
              let p = the (map_of by_param n)
              in bind_res (check_default float_eq p) (\<lambda>_. Inr (bound_param p (placeholder_type e)))) by_name)
           (\<lambda>bound.
             Inr \<lparr>ut_name = name, ut_description = description, ut_params = bound,
                  ut_limit = result_limit, ut_view = query\<rparr>))))"

section \<open>Binding the parameters of a call\<close>

text \<open>The attributes that hold the children of an expression, set to new ones.\<close>

fun set_children :: "LogicalExpr \<Rightarrow> LogicalExpr list \<Rightarrow> LogicalExpr" where
  "set_children (AliasExpr _ n) es = AliasExpr (es ! 0) n"
| "set_children (SortExpr _ a l) es = SortExpr (es ! 0) a l"
| "set_children (IndexExpr _ _) es = IndexExpr (es ! 0) (es ! 1)"
| "set_children (UDFExpr f _ t) es = UDFExpr f es t"
| "set_children (AsyncUDFExpr f _ t c to n) es = AsyncUDFExpr f es t c to n"
| "set_children (IsNullExpr _ b) es = IsNullExpr (es ! 0) b"
| "set_children (CastExpr _ t) es = CastExpr (es ! 0) t"
| "set_children (NotExpr _) es = NotExpr (es ! 0)"
| "set_children (InExpr _ _) es = InExpr (es ! 0) (es ! 1)"
| "set_children (BinaryExpr c _ _ op) es = BinaryExpr c (es ! 0) (es ! 1) op"
| "set_children (WhenExpr None _ _) es = WhenExpr None (es ! 0) (es ! 1)"
| "set_children (WhenExpr (Some _) _ _) es = WhenExpr (Some (es ! 0)) (es ! 1) (es ! 2)"
| "set_children (OtherwiseExpr _ _) es = OtherwiseExpr (es ! 0) (es ! 1)"
| "set_children (FunctionExpr f _) es = FunctionExpr f es"
| "set_children (SemanticExpr f _) es = SemanticExpr f es"
| "set_children (DateTimeExpr f _) es = DateTimeExpr f es"
| "set_children (JinjaExpr t s v _) es = JinjaExpr t s v es"
| "set_children e es = e"

type_synonym Arguments = "(string, PyObj) dict"
type_synonym ParamTable = "(string, BoundToolParam) dict"

text \<open>The literal that takes the place of a placeholder.\<close>

definition bound_literal :: "Arguments \<Rightarrow> ParamTable \<Rightarrow> DataType \<Rightarrow> string \<Rightarrow> LogicalExpr res" where
  "bound_literal args configs d p =
     (case map_of args p of
        None \<Rightarrow>
          (case map_of configs p of
             None \<Rightarrow> Inl PlanError
           | Some c \<Rightarrow>
               bind_res (raise_if (\<not> bp_has_default c) PlanError) (\<lambda>_. Inr (LiteralExpr (bp_default c) d)))
      | Some v \<Rightarrow>
          (case infer_dtype_from_pyobj v of
             Inl e \<Rightarrow> if isinstance_exn e TypeInferenceError then Inl PlanError else Inl e
           | Inr t \<Rightarrow>
               bind_res (raise_if (\<not> dtype_eq t d) TypeMismatchError) (\<lambda>_. Inr (LiteralExpr (literal_of v) d))))"

text \<open>The attributes are taken in the order of the children.\<close>

fun transform_expr :: "Arguments \<Rightarrow> ParamTable \<Rightarrow> LogicalExpr \<Rightarrow> LogicalExpr res" where
  "transform_expr args configs e =
     (if is_placeholder e then bound_literal args configs (placeholder_type e) (parameter_name e)
      else bind_res (map_res (transform_expr args configs) (expr_children e)) (\<lambda>es. Inr (set_children e es)))"

declare transform_expr.simps [simp del]

fun transform_node :: "(LogicalExpr \<Rightarrow> LogicalExpr res) \<Rightarrow> Node \<Rightarrow> Node res" where
  "transform_node f (Projection es) = bind_res (map_res f es) (\<lambda>es'. Inr (Projection es'))"
| "transform_node f (Filter p) = bind_res (f p) (\<lambda>p'. Inr (Filter p'))"
| "transform_node f (Explode e keep) = bind_res (f e) (\<lambda>e'. Inr (Explode e' keep))"
| "transform_node f (ExplodeWithIndex e i v keep) = bind_res (f e) (\<lambda>e'. Inr (ExplodeWithIndex e' i v keep))"
| "transform_node f (Sort es) = bind_res (map_res f es) (\<lambda>es'. Inr (Sort es'))"
| "transform_node f (SemanticCluster e k mi ni l c t) =
     bind_res (f e) (\<lambda>e'. Inr (SemanticCluster e' k mi ni l c t))"
| "transform_node f (Aggregate gs as) =
     bind_res (map_res f gs) (\<lambda>gs'.
     bind_res (map_res (\<lambda>(e, n). bind_res (f e) (\<lambda>e'. Inr (e', n))) as) (\<lambda>as'.
       Inr (Aggregate gs' as')))"
| "transform_node f (Join ls rs how) =
     bind_res (map_res f ls) (\<lambda>ls'. bind_res (map_res f rs) (\<lambda>rs'. Inr (Join ls' rs' how)))"
| "transform_node f (SemanticJoin l r t s te a to) =
     bind_res (f l) (\<lambda>l'. bind_res (f r) (\<lambda>r'. Inr (SemanticJoin l' r' t s te a to)))"
| "transform_node f (SemanticSimilarityJoin l r k m sc to) =
     bind_res (f l) (\<lambda>l'. bind_res (f r) (\<lambda>r'. Inr (SemanticSimilarityJoin l' r' k m sc to)))"
| "transform_node f n = Inr n"

fun transform_plan :: "Arguments \<Rightarrow> ParamTable \<Rightarrow> LogicalPlan \<Rightarrow> LogicalPlan res" where
  "transform_plan args configs (Plan n cs s c) =
     bind_res (transform_node (transform_expr args configs) n) (\<lambda>m.
     bind_res (map_res (transform_plan args configs) cs) (\<lambda>ds. Inr (Plan m ds s c)))"

definition param_table :: "BoundToolParam list \<Rightarrow> ParamTable" where
  "param_table ps = dict_of (map (\<lambda>p. (bp_name p, p)) ps)"

definition bind_parameters :: "LogicalPlan \<Rightarrow> Arguments \<Rightarrow> BoundToolParam list \<Rightarrow> LogicalPlan res" where
  "bind_parameters plan args tool_params =
     (let configs = param_table tool_params;
          missing = filter (\<lambda>(n, _). map_of args n = None) (collect_unresolved_parameters plan);
          without_default = filter (\<lambda>(n, _).
            case map_of configs n of None \<Rightarrow> True | Some c \<Rightarrow> \<not> bp_has_default c) missing
      in bind_res (raise_if (without_default \<noteq> []) PlanError) (\<lambda>_. transform_plan args configs plan))"

section \<open>Placeholders of expressions\<close>

lemma set_children_same [simp]: "set_children e (expr_children e) = e"
  by (cases e) (auto split: option.splits)

lemma children_set:
  "length es = length (expr_children e) \<Longrightarrow> expr_children (set_children e es) = es"
  by (cases "(e, es)" rule: set_children.cases) (auto simp: length_Suc_conv numeral_2_eq_2)

lemma placeholder_set_children [simp]: "is_placeholder (set_children e es) = is_placeholder e"
  by (cases "(e, es)" rule: set_children.cases) auto

definition no_holes :: "LogicalExpr \<Rightarrow> bool" where
  "no_holes e \<longleftrightarrow> list_all (\<lambda>x. \<not> is_placeholder x) (expr_tree e)"

lemma no_holes_iff: "no_holes e \<longleftrightarrow> \<not> is_placeholder e \<and> list_all no_holes (expr_children e)"
  unfolding no_holes_def by (subst expr_tree.simps) (auto simp: list_all_iff)

lemma no_holes_simps [simp]:
  "no_holes (LiteralExpr v d)" "no_holes (ColumnExpr n)" "no_holes (AliasExpr e n) = no_holes e"
  by (subst no_holes_iff; simp)+

text \<open>The placeholders a call can replace: those given a value of their type, or left to a default.\<close>

definition supplies :: "Arguments \<Rightarrow> ParamTable \<Rightarrow> LogicalExpr \<Rightarrow> bool" where
  "supplies args configs e \<longleftrightarrow>
     (case map_of args (parameter_name e) of
        Some v \<Rightarrow> infer_dtype_from_pyobj v = Inr (placeholder_type e)
      | None \<Rightarrow> (case map_of configs (parameter_name e) of None \<Rightarrow> False | Some c \<Rightarrow> bp_has_default c))"

lemma bound_literal_iff:
  "(\<exists>l. bound_literal args configs (placeholder_type e) (parameter_name e) = Inr l) \<longleftrightarrow> supplies args configs e"
  by (auto simp: bound_literal_def supplies_def raise_if_def dtype_eq_iff_eq split: option.splits sum.splits)

lemma bound_literal_no_holes: "bound_literal args configs d p = Inr l \<Longrightarrow> no_holes l"
  by (auto simp: bound_literal_def split: option.splits sum.splits if_splits)

lemma map_res_succeeds: "(\<exists>ys. map_res f xs = Inr ys) \<longleftrightarrow> list_all (\<lambda>x. \<exists>y. f x = Inr y) xs"
  by (induction xs) auto

lemma map_res_all:
  "map_res f xs = Inr ys \<Longrightarrow> (\<And>x y. x \<in> set xs \<Longrightarrow> f x = Inr y \<Longrightarrow> P y) \<Longrightarrow> list_all P ys"
proof (induction xs arbitrary: ys)
  case (Cons x xs)
  from Cons.prems(1) obtain y zs where ys: "f x = Inr y" "map_res f xs = Inr zs" "ys = y # zs" by auto
  from ys(2) have "list_all P zs" by (rule Cons.IH) (rule Cons.prems(2), simp_all)
  moreover have "P y" using Cons.prems(2) [of x y] ys(1) by simp
  ultimately show ?case using ys(3) by simp
qed simp

lemma transform_expr_no_holes: "transform_expr args configs e = Inr e' \<Longrightarrow> no_holes e'"
proof (induction args configs e arbitrary: e' rule: transform_expr.induct)
  case (1 args configs e)
  show ?case
  proof (cases "is_placeholder e")
    case True
    with 1(2) show ?thesis by (subst (asm) transform_expr.simps) (auto intro: bound_literal_no_holes)
  next
    case False
    with 1(2) obtain es where es: "map_res (transform_expr args configs) (expr_children e) = Inr es"
      "e' = set_children e es" by (subst (asm) transform_expr.simps) auto
    have "list_all no_holes es" using es(1) by (rule map_res_all) (rule 1(1) [OF False])
    with False es show ?thesis by (subst no_holes_iff) (simp add: children_set map_res_Inr_length)
  qed
qed

text \<open>What holds of every placeholder of an expression.\<close>

definition all_holes :: "(LogicalExpr \<Rightarrow> bool) \<Rightarrow> LogicalExpr \<Rightarrow> bool" where
  "all_holes P e \<longleftrightarrow> list_all (\<lambda>x. is_placeholder x \<longrightarrow> P x) (expr_tree e)"

lemma all_holes_iff:
  "all_holes P e \<longleftrightarrow> (is_placeholder e \<longrightarrow> P e) \<and> list_all (all_holes P) (expr_children e)"
  unfolding all_holes_def by (subst expr_tree.simps) (auto simp: list_all_iff)

lemma all_holes_simps [simp]:
  "all_holes P (ColumnExpr n)" "all_holes P (AliasExpr e n) = all_holes P e"
  by (subst all_holes_iff; simp)+

lemma placeholder_children: "is_placeholder e \<Longrightarrow> expr_children e = []"
  by (cases e) auto

lemma transform_expr_iff:
  "(\<exists>e'. transform_expr args configs e = Inr e') \<longleftrightarrow> all_holes (supplies args configs) e"
proof (induction args configs e rule: transform_expr.induct)
  case (1 args configs e)
  show ?case
  proof (cases "is_placeholder e")
    case True
    then show ?thesis
      by (subst transform_expr.simps, subst all_holes_iff) (simp add: placeholder_children bound_literal_iff)
  next
    case False
    then have "(\<exists>e'. transform_expr args configs e = Inr e') \<longleftrightarrow>
        (\<exists>es. map_res (transform_expr args configs) (expr_children e) = Inr es)"
      by (subst transform_expr.simps) auto
    also have "\<dots> \<longleftrightarrow> list_all (all_holes (supplies args configs)) (expr_children e)"
      using 1 [OF False] by (auto simp: map_res_succeeds list_all_iff)
    also have "\<dots> \<longleftrightarrow> all_holes (supplies args configs) e" using False by (subst all_holes_iff [of _ e]) simp
    finally show ?thesis .
  qed
qed

section \<open>Placeholders of plans\<close>

lemma transform_node_exprs:
  assumes "transform_node (transform_expr args configs) n = Inr m"
  shows "list_all no_holes (node_exprs m)"
proof -
  have one: "\<And>e e'. transform_expr args configs e = Inr e' \<Longrightarrow> no_holes e'" by (rule transform_expr_no_holes)
  have many: "\<And>es es'. map_res (transform_expr args configs) es = Inr es' \<Longrightarrow> list_all no_holes es'"
    by (erule map_res_all) (rule one)
  have named: "\<And>as as'. map_res (\<lambda>(e, n). bind_res (transform_expr args configs e) (\<lambda>e'. Inr (e', n))) as = Inr as' \<Longrightarrow>
      \<forall>p \<in> set as'. no_holes (fst p)"
    unfolding list_all_iff [symmetric] by (erule map_res_all) (auto intro: one)
  show ?thesis
  proof (cases n)
    case (Aggregate gs as)
    with assms obtain gs' as' where "m = Aggregate gs' as'" "list_all no_holes gs'"
      "\<forall>p \<in> set as'. no_holes (fst p)" by (auto dest: many named)
    then show ?thesis by (simp add: list_all_iff case_prod_unfold ball_Un)
  qed (use assms in \<open>auto dest!: one many simp: list_all_iff\<close>)
qed

lemma transform_node_iff:
  "(\<exists>m. transform_node (transform_expr args configs) n = Inr m) \<longleftrightarrow>
   list_all (all_holes (supplies args configs)) (node_exprs n)" (is "?l \<longleftrightarrow> ?r")
proof -
  let ?t = "transform_expr args configs" and ?h = "all_holes (supplies args configs)"
  have one: "\<And>e. ?h e \<longleftrightarrow> (\<exists>e'. ?t e = Inr e')" by (simp add: transform_expr_iff)
  have many: "\<And>es. list_all ?h es \<longleftrightarrow> (\<exists>es'. map_res ?t es = Inr es')"
    by (simp add: map_res_succeeds transform_expr_iff)
  have named: "\<And>as. list_all ?h (map (\<lambda>(e, n). AliasExpr e n) as) \<longleftrightarrow>
      (\<exists>as'. map_res (\<lambda>(e, n). bind_res (?t e) (\<lambda>e'. Inr (e', n))) as = Inr as')"
    by (auto simp: map_res_succeeds list.pred_map o_def case_prod_unfold one)
  have columns: "\<And>ns. list_all ?h (map ColumnExpr ns)" by (simp add: list_all_iff)
  show ?thesis
  proof (cases n)
    case (Projection es)
    then show ?thesis using many [of es] by auto
  next
    case (Sort es)
    then show ?thesis using many [of es] by auto
  next
    case (Aggregate gs as)
    then show ?thesis using many [of gs] named [of as] by auto
  next
    case (Join ls rs how)
    then show ?thesis using many [of ls] many [of rs] by auto
  qed (auto simp: columns one)
qed

text \<open>All placeholders of a plan.\<close>

lemma placeholders_iff:
  "list_all P (placeholders (Plan n cs s c)) \<longleftrightarrow>
   list_all (all_holes P) (node_exprs n) \<and> list_all (\<lambda>d. list_all P (placeholders d)) cs"
  by (auto simp: placeholders_def find_expressions_def all_holes_def list_all_iff)

lemma transform_plan_iff:
  "(\<exists>q. transform_plan args configs p = Inr q) \<longleftrightarrow> list_all (supplies args configs) (placeholders p)"
proof (induction args configs p rule: transform_plan.induct)
  case (1 args configs n cs s c)
  have "(\<exists>q. transform_plan args configs (Plan n cs s c) = Inr q) \<longleftrightarrow>
      (\<exists>m. transform_node (transform_expr args configs) n = Inr m) \<and>
      (\<exists>ds. map_res (transform_plan args configs) cs = Inr ds)" by auto
  also have "\<dots> \<longleftrightarrow> (\<exists>m. transform_node (transform_expr args configs) n = Inr m) \<and>
      list_all (\<lambda>d. list_all (supplies args configs) (placeholders d)) cs"
    by (rule conj_cong [OF refl]) (use 1 in \<open>auto simp: map_res_succeeds intro!: list.pred_cong\<close>)
  finally show ?case by (simp only: placeholders_iff transform_node_iff)
qed

lemma transform_plan_no_holes: "transform_plan args configs p = Inr q \<Longrightarrow> placeholders q = []"
proof (induction args configs p arbitrary: q rule: transform_plan.induct)
  case (1 args configs n cs s c)
  from 1(2) obtain m ds where q: "transform_node (transform_expr args configs) n = Inr m"
    "map_res (transform_plan args configs) cs = Inr ds" "q = Plan m ds s c" by auto
  have "list_all (\<lambda>d. placeholders d = []) ds" using q(2) by (rule map_res_all) (rule 1(1) [OF q(1)])
  moreover have "list_all no_holes (node_exprs m)" using q(1) by (rule transform_node_exprs)
  ultimately have "list_all (\<lambda>x. False) (placeholders q)"
    unfolding q(3) placeholders_iff by (auto simp: no_holes_def all_holes_def list_all_iff)
  then show ?case by (cases "placeholders q") simp_all
qed

lemma lookup_named: "map_of (map (\<lambda>x. (name x, x)) xs) n = Some x \<Longrightarrow> x \<in> set xs \<and> name x = n"
  by (induction xs) (auto split: if_splits)

lemma lookup_dict_of: "map_of (dict_of (map (\<lambda>x. (name x, x)) xs)) n = Some x \<Longrightarrow> x \<in> set xs \<and> name x = n"
  using lookup_named [of name "rev xs" n x] by (simp add: rev_map)

lemma dict_of_names: "fst ` set (dict_of (map (\<lambda>x. (name x, x)) xs)) = name ` set xs"
  by (force simp: keys_dict_of)

text \<open>A call of a tool binds exactly when each of its placeholders is supplied: given a value whose
  inferred type is its type, or not given at all and left to a default.\<close>

theorem bind_parameters_iff:
  "(\<exists>q. bind_parameters plan args tool_params = Inr q) \<longleftrightarrow>
   list_all (supplies args (param_table tool_params)) (placeholders plan)"
proof -
  let ?configs = "param_table tool_params"
  let ?missing = "filter (\<lambda>(n, _). map_of args n = None) (collect_unresolved_parameters plan)"
  let ?bad = "filter (\<lambda>(n, _). case map_of ?configs n of None \<Rightarrow> True | Some c \<Rightarrow> \<not> bp_has_default c) ?missing"
  have "?bad = []" if all: "list_all (supplies args ?configs) (placeholders plan)"
  proof -
    have "\<exists>c. map_of ?configs n = Some c \<and> bp_has_default c"
      if "(n, e) \<in> set (collect_unresolved_parameters plan)" "map_of args n = None" for n e
    proof -
      have "n \<in> fst ` set (collect_unresolved_parameters plan)" using that(1) by (rule rev_image_eqI) simp
      then have "n \<in> parameter_name ` set (placeholders plan)"
        unfolding collect_unresolved_parameters_def dict_of_names .
      then obtain h where "h \<in> set (placeholders plan)" "n = parameter_name h" by blast
      with all that(2) show ?thesis by (auto simp: list_all_iff supplies_def split: option.splits)
    qed
    then show ?thesis by (simp add: filter_empty_conv case_prod_unfold split: option.splits) fastforce
  qed
  then show ?thesis
    unfolding bind_parameters_def Let_def transform_plan_iff [symmetric]
    by (cases "?bad = []") (simp_all add: raise_if_def, blast)
qed

theorem bind_parameters_iff_witness:
  "\<exists>q. bind_parameters (Plan (Filter (BinaryExpr EqualityComparisonExpr (ColumnExpr ''a'')
       (UnresolvedLiteralExpr IntegerType ''x'') EQ)) [] (mk_schema []) None) [(''x'', PInt 3)] [] = Inr q"
  unfolding bind_parameters_iff by code_simp

theorem bind_parameters_no_holes:
  "bind_parameters plan args tool_params = Inr q \<Longrightarrow> placeholders q = []"
  by (auto simp: bind_parameters_def Let_def raise_if_def split: if_splits intro: transform_plan_no_holes)

section \<open>Bound tools\<close>

lemma expr_eq_placeholders:
  "is_placeholder e \<Longrightarrow> is_placeholder e' \<Longrightarrow> expr_eq e e' \<Longrightarrow>
   parameter_name e = parameter_name e' \<and> placeholder_type e = placeholder_type e'"
  by (cases e; cases e') (simp_all add: expr_eq.simps dtype_eq_iff_eq)

lemma placeholders_are: "e \<in> set (placeholders plan) \<Longrightarrow> is_placeholder e"
  by (simp add: placeholders_def find_expressions_def)

lemma map_res_images:
  "map_res f xs = Inr ys \<Longrightarrow> (\<And>x y. x \<in> set xs \<Longrightarrow> f x = Inr y \<Longrightarrow> g y = h x \<and> P y) \<Longrightarrow>
   map g ys = map h xs \<and> list_all P ys"
proof (induction xs arbitrary: ys)
  case (Cons x xs)
  from Cons.prems(1) obtain y zs where ys: "f x = Inr y" "map_res f xs = Inr zs" "ys = y # zs" by auto
  from ys(2) have "map g zs = map h xs \<and> list_all P zs" by (rule Cons.IH) (rule Cons.prems(2), simp_all)
  moreover have "g y = h x \<and> P y" using Cons.prems(2) [of x y] ys(1) by simp
  ultimately show ?case using ys(3) by simp
qed simp

text \<open>
  What a bound tool is: a parameter for the name of each placeholder, of the type that all the
  placeholders of the name have.
\<close>

lemma bind_tool_params:
  assumes "bind_tool float_eq name description params l query = Inr t"
  shows "ut_view t = query \<and> map bp_name (ut_params t) = map fst (collect_unresolved_parameters query) \<and>
    list_all (\<lambda>p. list_all (\<lambda>e. parameter_name e = bp_name p \<longrightarrow> placeholder_type e = bp_type p)
      (placeholders query)) (ut_params t)"
proof -
  let ?names = "collect_unresolved_parameters query" and ?table = "dict_of (map (\<lambda>p. (tp_name p, p)) params)"
  let ?group = "\<lambda>n. filter (\<lambda>e. parameter_name e = n) (placeholders query)"
  have group: "\<forall>(n, _) \<in> set ?names. list_all (\<lambda>e. expr_eq e (hd (?group n))) (?group n)"
    and known: "\<forall>(n, _) \<in> set ?names. map_of ?table n \<noteq> None"
    and view: "ut_view t = query"
    and bound: "map_res (\<lambda>(n, e). let p = the (map_of ?table n)
        in bind_res (check_default float_eq p) (\<lambda>_. Inr (bound_param p (placeholder_type e)))) ?names = Inr (ut_params t)"
    using assms by (auto simp: bind_tool_def Let_def raise_if_def list_ex_iff case_prod_unfold split: if_splits)
  have one: "bp_name p = n \<and> list_all (\<lambda>e'. parameter_name e' = n \<longrightarrow> placeholder_type e' = bp_type p) (placeholders query)"
    if ne: "(n, e) \<in> set ?names" and p: "p = bound_param (the (map_of ?table n)) (placeholder_type e)" for n e p
  proof -
    from known ne obtain tp where tp: "map_of ?table n = Some tp" by auto
    with p lookup_dict_of [OF tp] have name: "bp_name p = n" by (simp add: bound_param_def)
    from ne have e: "e \<in> set (placeholders query)" "parameter_name e = n"
      using lookup_dict_of [OF map_of_is_SomeI [OF distinct_dict_of], of n e parameter_name "placeholders query"]
      by (simp_all add: collect_unresolved_parameters_def)
    have all: "list_all (\<lambda>e'. expr_eq e' (hd (?group n))) (?group n)" using group ne by auto
    have h: "hd (?group n) \<in> set (?group n)" using e by (intro hd_in_set) (auto simp: filter_empty_conv)
    have "placeholder_type e' = placeholder_type (hd (?group n))" if "e' \<in> set (?group n)" for e'
      using that h all expr_eq_placeholders [of e' "hd (?group n)"] placeholders_are
      by (auto simp: list_all_iff)
    with e p name show ?thesis by (simp add: list_all_iff bound_param_def)
  qed
  have "map bp_name (ut_params t) = map fst ?names \<and>
      list_all (\<lambda>p. list_all (\<lambda>e. parameter_name e = bp_name p \<longrightarrow> placeholder_type e = bp_type p)
        (placeholders query)) (ut_params t)"
    using bound by (rule map_res_images) (use one in \<open>auto simp: Let_def\<close>)
  then show ?thesis using view by simp
qed

text \<open>C16. A tool that was bound can be called: when each of its parameters is given a value of its
  type, or is not given and has a default, the call binds its query to a plan without
  placeholders.\<close>

theorem bound_tool_callable:
  assumes "bind_tool float_eq name description params l query = Inr t"
    and "list_all (\<lambda>p. case map_of args (bp_name p) of
          Some v \<Rightarrow> infer_dtype_from_pyobj v = Inr (bp_type p)
        | None \<Rightarrow> bp_has_default p) (ut_params t)"
  shows "\<exists>q. bind_parameters (ut_view t) args (ut_params t) = Inr q \<and> placeholders q = []"
proof -
  let ?names = "collect_unresolved_parameters query"
  from bind_tool_params [OF assms(1)] have view: "ut_view t = query"
    and names: "map bp_name (ut_params t) = map fst ?names"
    and types: "\<forall>p \<in> set (ut_params t). \<forall>e \<in> set (placeholders query).
      parameter_name e = bp_name p \<longrightarrow> placeholder_type e = bp_type p" by (auto simp: list_all_iff)
  have "supplies args (param_table (ut_params t)) e" if e: "e \<in> set (placeholders query)" for e
  proof -
    have "parameter_name e \<in> fst ` set ?names"
      using e unfolding collect_unresolved_parameters_def dict_of_names by simp
    then have "parameter_name e \<in> bp_name ` set (ut_params t)" by (metis list.set_map names)
    then have "parameter_name e \<in> fst ` set (param_table (ut_params t))"
      unfolding param_table_def dict_of_names .
    then obtain p where p: "map_of (param_table (ut_params t)) (parameter_name e) = Some p"
      by (auto simp: dom_map_of_conv_image_fst [symmetric])
    then have "p \<in> set (ut_params t)" "bp_name p = parameter_name e"
      using lookup_dict_of [of bp_name "ut_params t" "parameter_name e" p] by (auto simp: param_table_def)
    then show ?thesis using p assms(2) types e
      by (auto simp: supplies_def list_all_iff split: option.splits)
  qed
  then obtain q where "bind_parameters (ut_view t) args (ut_params t) = Inr q"
    using bind_parameters_iff [of query args "ut_params t"] view by (auto simp: list_all_iff)
  then show ?thesis using bind_parameters_no_holes by blast
qed

definition example_query :: "DataType \<Rightarrow> LogicalPlan" where
  "example_query d =
     Plan (Filter (BinaryExpr EqualityComparisonExpr (ColumnExpr ''a'') (UnresolvedLiteralExpr d ''x'') EQ))
       [Plan (InMemorySource 0) [] (mk_schema [mk_field ''a'' d]) None] (mk_schema [mk_field ''a'' d]) None"

definition example_tool :: "DataType \<Rightarrow> PyObj \<Rightarrow> UserDefinedTool" where
  "example_tool d v =
     \<lparr>ut_name = ''t'', ut_description = '''',
      ut_params = [\<lparr>bp_name = ''x'', bp_description = '''', bp_type = d, bp_required = (v = PNone),
                    bp_has_default = (v \<noteq> PNone), bp_default = literal_of v, bp_allowed = None\<rparr>],
      ut_limit = 50, ut_view = example_query d\<rparr>"

lemma example_placeholders: "placeholders (example_query d) = [UnresolvedLiteralExpr d ''x'']"
  by (simp add: placeholders_def find_expressions_def example_query_def expr_tree.simps)

lemma example_bound:
  "bind_tool float_eq ''t'' '''' [mk_tool_param ''x'' '''' None False v] 50 (example_query d) = Inr (example_tool d v)"
  by (simp add: bind_tool_def collect_unresolved_parameters_def example_placeholders dict_of_def mk_tool_param_def
      check_default_def bound_param_def example_tool_def expr_eq.simps dtype_eq_iff_eq)

theorem bound_tool_callable_witness:
  "\<exists>q. bind_parameters (ut_view (example_tool IntegerType PNone)) [(''x'', PInt 3)]
       (ut_params (example_tool IntegerType PNone)) = Inr q \<and> placeholders q = []"
  by (rule bound_tool_callable [OF example_bound [of "\<lambda>_ _. False"]]) (simp add: example_tool_def)

text \<open>
  A float is inferred to be of \<^const>\<open>FloatType\<close>, so a parameter of \<^const>\<open>DoubleType\<close> takes
  no value of a call; and a default is used whatever its type is.
\<close>

lemma double_parameter_rejected:
  "bind_parameters (example_query DoubleType) [(''x'', PFloat s)] ps = Inl TypeMismatchError"
  by (simp add: bind_parameters_def collect_unresolved_parameters_def example_placeholders dict_of_def)
    (simp add: example_query_def transform_expr.simps bound_literal_def dtype_eq_iff_eq)

lemma default_of_any_type:
  "bind_parameters (example_query IntegerType) [] (ut_params (example_tool IntegerType (PStr ''many''))) =
   Inr (Plan (Filter (BinaryExpr EqualityComparisonExpr (ColumnExpr ''a'') (LiteralExpr (PyStr ''many'') IntegerType) EQ))
     [Plan (InMemorySource 0) [] (mk_schema [mk_field ''a'' IntegerType]) None]
     (mk_schema [mk_field ''a'' IntegerType]) None)"
  by (simp add: bind_parameters_def collect_unresolved_parameters_def example_placeholders dict_of_def
      example_tool_def param_table_def)
    (simp add: example_query_def transform_expr.simps bound_literal_def)

section \<open>Storage of tools\<close>

definition values_field :: "SerdeEnv \<Rightarrow> PyVal list option \<Rightarrow> Fields res" where
  "values_field env vs =
     (if truthy vs then
        bind_res (map_res (\<lambda>v. at_path (serialize_scalar_value env v)) (the vs)) (\<lambda>ps.
          Inr [(''allowed_values'', RepV ps)])
      else Inr [])"

definition serialize_tool_parameter :: "SerdeEnv \<Rightarrow> BoundToolParam \<Rightarrow> ProtoValue res" where
  "serialize_tool_parameter env p =
     at_path (bind_res (values_field env (bp_allowed p)) (\<lambda>allowed.
       bind_res (at_path (serialize_data_type (bp_type p))) (\<lambda>d.
       bind_res (at_path (serialize_scalar_value env (bp_default p))) (\<lambda>v.
         Inr (MsgV ([(''name'', StrV (bp_name p)), (''description'', StrV (bp_description p)),
                     (''data_type'', d), (''required'', BoolV (bp_required p)),
                     (''has_default'', BoolV (bp_has_default p)), (''default_value'', v)] @ allowed))))))"

definition deserialize_tool_parameter :: "SerdeEnv \<Rightarrow> Fields \<Rightarrow> BoundToolParam res" where
  "deserialize_tool_parameter env fs =
     at_path (bind_res
       (if rep_field fs ''allowed_values'' = [] then Inr None
        else bind_res (map_res (\<lambda>v. at_path (deserialize_scalar_value env v)) (rep_field fs ''allowed_values''))
               (\<lambda>vs. Inr (Some vs))) (\<lambda>allowed.
       bind_res (at_path (deserialize_data_type (MsgV (msg_field fs ''data_type'')))) (\<lambda>d.
       bind_res (required d) (\<lambda>t.
       bind_res (at_path (deserialize_scalar_value env (MsgV (msg_field fs ''default_value'')))) (\<lambda>v.
         Inr \<lparr>bp_name = str_field fs ''name'', bp_description = str_field fs ''description'', bp_type = t,
              bp_required = bool_field fs ''required'', bp_has_default = bool_field fs ''has_default'',
              bp_default = v, bp_allowed = allowed\<rparr>)))))"

definition serialize_tool_definition :: "PlanSerdeEnv \<Rightarrow> UserDefinedTool \<Rightarrow> ProtoValue res" where
  "serialize_tool_definition env t =
     bind_res (map_res (serialize_tool_parameter (expr_serde env)) (ut_params t)) (\<lambda>ps.
       at_path (bind_res (at_path (serialize_logical_plan env (ut_view t))) (\<lambda>view.
         bind_res (int32 (ut_limit t)) (\<lambda>l.
           Inr (MsgV [(''name'', StrV (ut_name t)), (''description'', StrV (ut_description t)),
                      (''params'', RepV ps), (''parameterized_view'', view), (''result_limit'', l)])))))"

definition deserialize_tool_definition :: "PlanSerdeEnv \<Rightarrow> Fields \<Rightarrow> UserDefinedTool res" where
  "deserialize_tool_definition env fs =
     at_path (bind_res
       (map_res (\<lambda>p. deserialize_tool_parameter (expr_serde env) (case p of MsgV m \<Rightarrow> m | _ \<Rightarrow> []))
         (rep_field fs ''params'')) (\<lambda>ps.
       bind_res (at_path (deserialize_logical_plan env (MsgV (msg_field fs ''parameterized_view'')))) (\<lambda>view.
       bind_res (required view) (\<lambda>v.
         Inr \<lparr>ut_name = str_field fs ''name'', ut_description = str_field fs ''description'',
              ut_params = ps, ut_limit = int_field fs ''result_limit'', ut_view = v\<rparr>))))"

definition param_fits :: "SerdeEnv \<Rightarrow> BoundToolParam \<Rightarrow> bool" where
  "param_fits env p \<longleftrightarrow>
     type_fits (bp_type p) \<and> scalar_ok env (bp_default p) \<and> bp_allowed p \<noteq> Some [] \<and>
     (case bp_allowed p of None \<Rightarrow> True | Some vs \<Rightarrow> list_all (scalar_ok env) vs)"

lemma scalars_roundtrip:
  "list_all (scalar_ok env) vs \<Longrightarrow>
   \<exists>ps. map_res (\<lambda>v. at_path (serialize_scalar_value env v)) vs = Inr ps \<and>
     map_res (\<lambda>v. at_path (deserialize_scalar_value env v)) ps = Inr vs"
proof (rule map_res_roundtrip)
  fix v
  assume "list_all (scalar_ok env) vs" "v \<in> set vs"
  then have "scalar_ok env v" by (simp add: list_all_iff)
  then show "\<exists>p. at_path (serialize_scalar_value env v) = Inr p \<and> at_path (deserialize_scalar_value env p) = Inr v"
    using scalar_roundtrip by fastforce
qed

lemma tool_parameter_roundtrip:
  assumes "param_fits env p"
  shows "\<exists>fs. serialize_tool_parameter env p = Inr (MsgV fs) \<and> deserialize_tool_parameter env fs = Inr p"
proof -
  from assms obtain d where "serialize_data_type (bp_type p) = Inr d" "deserialize_data_type d = Inr (Some (bp_type p))"
    using data_type_roundtrip_lemma by (auto simp: param_fits_def)
  with data_type_message obtain ds where d: "serialize_data_type (bp_type p) = Inr (MsgV ds)"
    "deserialize_data_type (MsgV ds) = Inr (Some (bp_type p))" by blast
  from assms obtain v where v: "serialize_scalar_value env (bp_default p) = Inr (MsgV v)"
    "deserialize_scalar_value env (MsgV v) = Inr (bp_default p)" using scalar_roundtrip by (auto simp: param_fits_def)
  show ?thesis
  proof (cases "bp_allowed p")
    case None
    with d v show ?thesis
      by (cases p) (simp add: serialize_tool_parameter_def deserialize_tool_parameter_def values_field_def field_defs)
  next
    case (Some vs)
    with assms obtain ps where "map_res (\<lambda>v. at_path (serialize_scalar_value env v)) vs = Inr ps"
      "map_res (\<lambda>v. at_path (deserialize_scalar_value env v)) ps = Inr vs" "vs \<noteq> []"
      using scalars_roundtrip by (auto simp: param_fits_def)
    moreover from this have "ps \<noteq> []" by auto
    ultimately show ?thesis using d v Some
      by (cases p) (auto simp: serialize_tool_parameter_def deserialize_tool_parameter_def values_field_def field_defs)
  qed
qed


definition example_join_tool :: UserDefinedTool where
  "example_join_tool =
     \<lparr>ut_name = ''t'', ut_description = ''d'',
      ut_params = [\<lparr>bp_name = ''x'', bp_description = '''', bp_type = IntegerType, bp_required = False,
                    bp_has_default = True, bp_default = PyInt 1, bp_allowed = Some [PyInt 1, PyInt 2]\<rparr>],
      ut_limit = 50, ut_view = example_join 0\<rparr>"


section \<open>Calls at the server\<close>

text \<open>
  \<^verbatim>\<open>int(text)\<close> of ASCII text: digits, single underscores between them, a sign in front and
  blanks around.
\<close>

definition digit_of :: "char \<Rightarrow> nat option" where
  "digit_of c = (if CHR ''0'' \<le> c \<and> c \<le> CHR ''9'' then Some (of_char c - 48) else None)"

fun digits_value :: "bool \<Rightarrow> nat \<Rightarrow> string \<Rightarrow> nat option" where
  "digits_value after_digit n [] = (if after_digit then Some n else None)"
| "digits_value after_digit n (c # cs) =
     (case digit_of c of
        Some d \<Rightarrow> digits_value True (10 * n + d) cs
      | None \<Rightarrow> if c = CHR ''_'' \<and> after_digit then digits_value False n cs else None)"

definition int_of_text :: "string \<Rightarrow> int res" where
  "int_of_text text =
     (let s = py_strip text;
          negative = (s \<noteq> [] \<and> hd s = CHR ''-'');
          body = (if s \<noteq> [] \<and> (hd s = CHR ''-'' \<or> hd s = CHR ''+'') then tl s else s)
      in case digits_value False 0 body of
           None \<Rightarrow> Inl PyValueError
         | Some n \<Rightarrow> Inr (if negative then - int n else int n))"

text \<open>What a client asks for: nothing, a number or its text.\<close>

datatype RequestedLimit = NoLimit | LimitInt int | LimitText string

definition effective_limit :: "int option \<Rightarrow> RequestedLimit \<Rightarrow> int option res" where
  "effective_limit max_limit requested =
     (if requested \<in> {NoLimit, LimitInt 0, LimitText ''''} then Inr max_limit
      else bind_res (case requested of LimitText s \<Rightarrow> int_of_text s | LimitInt n \<Rightarrow> Inr n | NoLimit \<Rightarrow> Inr 0) (\<lambda>n.
        Inr (if truthy_int max_limit then Some (min n (the max_limit)) else Some n)))"

text \<open>\<^verbatim>\<open>DataFrame.limit\<close> of polars: a negative number leaves out that many of the last rows.\<close>

definition limit_rows :: "int \<Rightarrow> 'r list \<Rightarrow> 'r list" where
  "limit_rows n rows = (if 0 \<le> n then take (nat n) rows else take (length rows - nat (- n)) rows)"

fun obj_str :: "PyObj \<Rightarrow> string" where
  "obj_str (PStr s) = s"
| "obj_str (PDatetime s _) = s"
| "obj_str (PDate s _) = s"
| "obj_str v = py_repr v"

type_synonym Row = "(string, PyObj) dict"

definition render_markdown_preview :: "Row list \<Rightarrow> string" where
  "render_markdown_preview rows =
     (if rows = [] then ''No rows.''
      else
        let columns = map fst (hd rows);
            line = (\<lambda>cells. ''| '' @ str_join '' | '' cells @ '' |'');
            cell = (\<lambda>row c. case map_of row c of None \<Rightarrow> '''' | Some v \<Rightarrow> obj_str v)
        in str_join [CHR 0x0A]
             (line columns # line (map (\<lambda>_. ''---'') columns) # map (\<lambda>row. line (map (cell row) columns)) rows))"

datatype AnswerRows = Structured "Row list" | Markdown string

record MCPResultSet =
  table_schema :: "(string \<times> string) list"
  answer_rows :: AnswerRows
  returned_result_count :: nat
  total_result_count :: nat

definition handle_result_set :: "LogicalPlan \<Rightarrow> Row list \<Rightarrow> int option \<Rightarrow> string \<Rightarrow> MCPResultSet" where
  "handle_result_set plan rows limit table_format =
     (let cut = (if truthy_int limit \<and> int (length rows) > the limit then limit_rows (the limit) rows else rows)
      in \<lparr>table_schema = map (\<lambda>f. (cf_name f, dtype_str (cf_type f))) (column_fields (plan_schema plan)),
          answer_rows = (if table_format = ''structured'' then Structured cut else Markdown (render_markdown_preview cut)),
          returned_result_count = length cut, total_result_count = length rows\<rparr>)"

text \<open>
  A call of a tool.  The validation of its arguments is pydantic's, the execution of the bound
  plan the backend's; everything that goes wrong after the validation is a tool error.
\<close>

datatype Answer = Answer MCPResultSet | ToolError | Rejected exn

definition call_tool ::
  "(Arguments \<Rightarrow> Arguments res) \<Rightarrow> (LogicalPlan \<Rightarrow> Row list res) \<Rightarrow> UserDefinedTool \<Rightarrow>
   Arguments \<Rightarrow> RequestedLimit \<Rightarrow> string \<Rightarrow> Answer" where
  "call_tool check_args collect t kwargs requested table_format =
     (case effective_limit (Some (ut_limit t)) requested of
        Inl e \<Rightarrow> Rejected e
      | Inr limit \<Rightarrow>
          (case check_args (filter (\<lambda>(k, v). k \<in> bp_name ` set (ut_params t)) kwargs) of
             Inl e \<Rightarrow> Rejected e
           | Inr params \<Rightarrow>
               (case bind_res (bind_parameters (ut_view t) (filter (\<lambda>(k, v). v \<noteq> PNone) params) (ut_params t))
                       (\<lambda>bound. bind_res (collect bound) (\<lambda>rows. Inr (handle_result_set bound rows limit table_format))) of
                  Inl e \<Rightarrow> ToolError
                | Inr r \<Rightarrow> Answer r)))"

text \<open>The number a request stands for is not negative.\<close>

definition limit_not_negative :: "RequestedLimit \<Rightarrow> bool" where
  "limit_not_negative requested =
     (case requested of
        NoLimit \<Rightarrow> True
      | LimitInt n \<Rightarrow> 0 \<le> n
      | LimitText s \<Rightarrow> (case int_of_text s of Inl e \<Rightarrow> True | Inr n \<Rightarrow> 0 \<le> n))"

lemma effective_limit_range:
  assumes "effective_limit (Some m) requested = Inr l" "limit_not_negative requested" "0 < m"
  shows "\<exists>n. l = Some n \<and> 0 \<le> n \<and> n \<le> m"
  using assms
  by (auto simp: effective_limit_def limit_not_negative_def truthy_int.simps min_def
      split: if_splits RequestedLimit.splits sum.splits)


definition one_column :: "nat \<Rightarrow> Row list" where
  "one_column n = map (\<lambda>i. [(''a'', PInt (int i))]) [0..<n]"


text \<open>A negative limit leaves out rows at the end instead, the text of zero none at all.\<close>

lemma negative_limit_lifts_the_limit:
  "0 < k \<Longrightarrow> k < 60 \<Longrightarrow> returned_result_count (handle_result_set p (one_column 60) (Some (- int k)) f) = 60 - k"
  by (simp add: handle_result_set_def limit_rows_def one_column_def Let_def)

lemma negative_limit_kept: "n < 0 \<Longrightarrow> 0 < m \<Longrightarrow> effective_limit (Some m) (LimitInt n) = Inr (Some n)"
  by (simp add: effective_limit_def)

lemma zero_text_lifts_the_limit:
  "0 < m \<Longrightarrow> effective_limit (Some m) (LimitText ''0'') = Inr (Some 0) \<and>
   returned_result_count (handle_result_set p (one_column 60) (Some 0) f) = 60"
  by (simp add: effective_limit_def int_of_text_def digit_of_def py_strip_def py_space_def
      handle_result_set_def one_column_def Let_def)

end
