(* ===== verification/PlanExecution.thy ===== *)
theory PlanExecution
  imports ToolBinding Optimizer
begin

text \<open>
  Execution of plans in the local backend: the conversion of an optimized plan to physical
  operators (\<^verbatim>\<open>_backends/local/transpiler/plan_converter.py\<close>), their execution with the metrics
  of the models (\<^verbatim>\<open>_backends/local/physical_plan/base.py\<close>, \<^verbatim>\<open>core/metrics.py\<close>), the data frames
  kept for plans marked for caching (\<^verbatim>\<open>temp_df_db_client.py\<close>) and the run of a query
  (\<^verbatim>\<open>_backends/local/execution.py\<close>).  What an operator computes with polars, DuckDB and the
  models is a parameter.  The lemmas show that caching does not change what the queries of a
  session return, and that the metrics of a query are the sum of those of its operators.
  The clock and the identifiers of operators and executions are not modelled.
\<close>

section \<open>Metrics\<close>

record LMMetrics =
  num_uncached_input_tokens :: int
  num_cached_input_tokens :: int
  num_output_tokens :: int
  lm_cost :: real
  lm_requests :: int
  num_reserved_output_tokens :: int

definition no_lm :: LMMetrics where
  "no_lm = \<lparr>num_uncached_input_tokens = 0, num_cached_input_tokens = 0, num_output_tokens = 0,
     lm_cost = 0, lm_requests = 0, num_reserved_output_tokens = 0\<rparr>"

definition lm_add :: "LMMetrics \<Rightarrow> LMMetrics \<Rightarrow> LMMetrics" where
  "lm_add a b =
     \<lparr>num_uncached_input_tokens = num_uncached_input_tokens a + num_uncached_input_tokens b,
      num_cached_input_tokens = num_cached_input_tokens a + num_cached_input_tokens b,
      num_output_tokens = num_output_tokens a + num_output_tokens b,
      lm_cost = lm_cost a + lm_cost b, lm_requests = lm_requests a + lm_requests b,
      num_reserved_output_tokens = num_reserved_output_tokens a + num_reserved_output_tokens b\<rparr>"

record RMMetrics =
  num_input_tokens :: int
  rm_requests :: int
  rm_cost :: real

definition no_rm :: RMMetrics where
  "no_rm = \<lparr>num_input_tokens = 0, rm_requests = 0, rm_cost = 0\<rparr>"

definition rm_add :: "RMMetrics \<Rightarrow> RMMetrics \<Rightarrow> RMMetrics" where
  "rm_add a b =
     \<lparr>num_input_tokens = num_input_tokens a + num_input_tokens b,
      rm_requests = rm_requests a + rm_requests b, rm_cost = rm_cost a + rm_cost b\<rparr>"

text \<open>The metrics of the operators hang on the tree of the plan.\<close>

record OperatorMetrics =
  op_output_rows :: nat
  op_lm :: LMMetrics
  op_rm :: RMMetrics

datatype OperatorTree = OperatorTree (tree_metrics: OperatorMetrics) (tree_children: "OperatorTree list")

record QueryMetrics =
  num_output_rows :: nat
  total_lm_metrics :: LMMetrics
  total_rm_metrics :: RMMetrics
  plan_repr :: OperatorTree

section \<open>Physical plans\<close>

datatype 'op PhysicalPlan =
    Exec 'op "'op PhysicalPlan list" "string option option"
  | CacheReadExec "string option"

text \<open>
  The operator of a node with its converted expressions, what it computes together with the use
  of models it makes (also when it fails), a frame written to and read back from DuckDB, and the number of rows
  of a frame.
\<close>

record ('op, 'f) Engine =
  operator :: "LogicalPlan \<Rightarrow> 'op res"
  execute_node :: "'op \<Rightarrow> 'f list \<Rightarrow> 'f res \<times> LMMetrics \<times> RMMetrics"
  stored_frame :: "'f \<Rightarrow> 'f"
  frame_height :: "'f \<Rightarrow> nat"

text \<open>The name of the table of a key, as formatted into the statements.\<close>

definition table_of_key :: "string option \<Rightarrow> string" where
  "table_of_key k = (case k of None \<Rightarrow> ''None'' | Some s \<Rightarrow> s)"

type_synonym 'f Frames = "(string, 'f) dict"

definition is_df_cached :: "'f Frames \<Rightarrow> string option \<Rightarrow> bool" where
  "is_df_cached db k \<longleftrightarrow> map_of db (table_of_key k) \<noteq> None"

text \<open>
  The conversion.  A plan whose key was met before, or is cached already, becomes a read of the
  cache.  The operators of sources get no cache information.
\<close>

fun convert :: "('op, 'f) Engine \<Rightarrow> 'f Frames \<Rightarrow> string option list \<Rightarrow> LogicalPlan \<Rightarrow>
    ('op PhysicalPlan \<times> string option list) res"
  and convert_all :: "('op, 'f) Engine \<Rightarrow> 'f Frames \<Rightarrow> string option list \<Rightarrow> LogicalPlan list \<Rightarrow>
    ('op PhysicalPlan list \<times> string option list) res" where
  "convert env db keys (Plan n cs s c) =
     (case c of
        Some k \<Rightarrow>
          if k \<in> set keys \<or> is_df_cached db k then Inr (CacheReadExec k, keys)
          else bind_res (convert_all env db (k # keys) cs) (\<lambda>(ps, keys').
               bind_res (operator env (Plan n cs s c)) (\<lambda>op.
                 Inr (Exec op ps (if is_source n then None else c), keys')))
      | None \<Rightarrow>
          bind_res (convert_all env db keys cs) (\<lambda>(ps, keys').
          bind_res (operator env (Plan n cs s c)) (\<lambda>op. Inr (Exec op ps None, keys'))))"
| "convert_all env db keys [] = Inr ([], keys)"
| "convert_all env db keys (p # ps) =
     bind_res (convert env db keys p) (\<lambda>(q, keys').
     bind_res (convert_all env db keys' ps) (\<lambda>(qs, keys''). Inr (q # qs, keys'')))"

section \<open>Execution\<close>

record 'f Session =
  session_active :: bool
  cached_frames :: "'f Frames"
  lm_usage :: LMMetrics
  rm_usage :: RMMetrics
  query_log :: "QueryMetrics list"

definition read_df :: "('op, 'f) Engine \<Rightarrow> 'f Session \<Rightarrow> string option \<Rightarrow> 'f res" where
  "read_df env s k =
     (case map_of (cached_frames s) (table_of_key k) of None \<Rightarrow> Inl PyException | Some f \<Rightarrow> Inr f)"

definition write_df :: "('op, 'f) Engine \<Rightarrow> string option \<Rightarrow> 'f \<Rightarrow> 'f Session \<Rightarrow> 'f Session" where
  "write_df env k f s = s\<lparr>cached_frames := (table_of_key k, stored_frame env f) # cached_frames s\<rparr>"

text \<open>The metrics of an operator and those of the models, which are then reset.\<close>

definition finish_node ::
  "('op, 'f) Engine \<Rightarrow> 'f Session \<Rightarrow> 'f \<Rightarrow> QueryMetrics list \<Rightarrow> string option option \<Rightarrow>
   ('f \<times> QueryMetrics) \<times> 'f Session" where
  "finish_node env s f child_metrics c =
     (let own = \<lparr>op_output_rows = frame_height env f, op_lm = lm_usage s, op_rm = rm_usage s\<rparr>;
          lm = foldl lm_add no_lm (map total_lm_metrics child_metrics);
          rm = foldl rm_add no_rm (map total_rm_metrics child_metrics);
          s' = s\<lparr>lm_usage := no_lm, rm_usage := no_rm\<rparr>;
          s'' = (case c of
                   Some k \<Rightarrow> if is_df_cached (cached_frames s') k then s' else write_df env k f s'
                 | None \<Rightarrow> s')
      in ((f, \<lparr>num_output_rows = frame_height env f, total_lm_metrics = lm_add lm (op_lm own),
               total_rm_metrics = rm_add rm (op_rm own),
               plan_repr = OperatorTree own (map plan_repr child_metrics)\<rparr>), s''))"

fun execute :: "('op, 'f) Engine \<Rightarrow> 'f Session \<Rightarrow> 'op PhysicalPlan \<Rightarrow> ('f \<times> QueryMetrics) res \<times> 'f Session"
  and execute_all :: "('op, 'f) Engine \<Rightarrow> 'f Session \<Rightarrow> 'op PhysicalPlan list \<Rightarrow>
    ('f \<times> QueryMetrics) list res \<times> 'f Session" where
  "execute env s (Exec op ps c) =
     (case execute_all env s ps of
        (Inl e, s') \<Rightarrow> (Inl e, s')
      | (Inr fms, s') \<Rightarrow>
          (case execute_node env op (map fst fms) of
             (r, lm, rm) \<Rightarrow>
               let used = s'\<lparr>lm_usage := lm_add (lm_usage s') lm, rm_usage := rm_add (rm_usage s') rm\<rparr>
               in (case r of
                     Inl e \<Rightarrow> (Inl e, used)
                   | Inr f \<Rightarrow> (case finish_node env used f (map snd fms) c of (fm, s'') \<Rightarrow> (Inr fm, s'')))))"
| "execute env s (CacheReadExec k) =
     (case read_df env s k of
        Inl e \<Rightarrow> (Inl e, s)
      | Inr f \<Rightarrow> (case finish_node env s f [] None of (fm, s') \<Rightarrow> (Inr fm, s')))"
| "execute_all env s [] = (Inr [], s)"
| "execute_all env s (p # ps) =
     (case execute env s p of
        (Inl e, s') \<Rightarrow> (Inl e, s')
      | (Inr fm, s') \<Rightarrow>
          (case execute_all env s' ps of
             (Inl e, s'') \<Rightarrow> (Inl e, s'')
           | (Inr fms, s'') \<Rightarrow> (Inr (fm # fms), s'')))"

text \<open>
  A query (\<open>_execute_query\<close>).  The optimizer and the conversion raise as they are, the execution
  raises \<^const>\<open>ExecutionError\<close>.
\<close>

definition execute_query ::
  "PlanEnv \<Rightarrow> ('op, 'f) Engine \<Rightarrow> 'f Session \<Rightarrow> LogicalPlan \<Rightarrow> ('f \<times> QueryMetrics) res \<times> 'f Session" where
  "execute_query penv env s p =
     (if \<not> session_active s then (Inl SessionError, s)
      else
        case bind_res (optimize local_rules penv p) (\<lambda>r. convert env (cached_frames s) [] (result_plan r)) of
          Inl e \<Rightarrow> (Inl e, s)
        | Inr (q, _) \<Rightarrow>
            (case execute env s q of
               (Inl e, s') \<Rightarrow> (Inl ExecutionError, s')
             | (Inr (f, m), s') \<Rightarrow> (Inr (f, m), s'\<lparr>query_log := query_log s' @ [m]\<rparr>)))"

fun execute_queries ::
  "PlanEnv \<Rightarrow> ('op, 'f) Engine \<Rightarrow> 'f Session \<Rightarrow> LogicalPlan list \<Rightarrow>
   ('f \<times> QueryMetrics) res list \<times> 'f Session" where
  "execute_queries penv env s [] = ([], s)"
| "execute_queries penv env s (p # ps) =
     (case execute_query penv env s p of
        (r, s') \<Rightarrow> (case execute_queries penv env s' ps of (rs, s'') \<Rightarrow> (r # rs, s'')))"

section \<open>What plans compute\<close>

text \<open>The value of a plan without a cache.\<close>

fun evaluate :: "('op, 'f) Engine \<Rightarrow> LogicalPlan \<Rightarrow> 'f res" where
  "evaluate env (Plan n cs s c) =
     bind_res (map_res (evaluate env) cs) (\<lambda>fs.
     bind_res (operator env (Plan n cs s c)) (\<lambda>op. fst (execute_node env op fs)))"

declare evaluate.simps [simp del]

fun subplans :: "LogicalPlan \<Rightarrow> LogicalPlan list" where
  "subplans (Plan n cs s c) = Plan n cs s c # concat (map subplans cs)"

lemma subplans_self [simp]: "p \<in> set (subplans p)"
  by (cases p) simp

text \<open>The plans marked for caching among those a plan is made of.\<close>

definition marked :: "LogicalPlan \<Rightarrow> LogicalPlan set" where
  "marked p = {q \<in> set (subplans p). cache_info q \<noteq> None}"

lemma marked_Plan: "marked (Plan n cs s c) =
  (if c = None then {} else {Plan n cs s c}) \<union> (\<Union>d \<in> set cs. marked d)"
  by (auto simp: marked_def)

text \<open>
  The marked plans of a session: one plan to a key, and no source among them; and frames that
  are the values of the plans they are kept for.
\<close>

definition one_plan_per_key :: "LogicalPlan set \<Rightarrow> bool" where
  "one_plan_per_key C \<longleftrightarrow> (\<forall>p \<in> C. \<forall>q \<in> C.
     map_option table_of_key (cache_info p) = map_option table_of_key (cache_info q) \<longrightarrow> p = q)"

definition frames_right :: "('op, 'f) Engine \<Rightarrow> LogicalPlan set \<Rightarrow> 'f Frames \<Rightarrow> bool" where
  "frames_right env C db \<longleftrightarrow>
     (\<forall>p \<in> C. \<forall>k f. cache_info p = Some k \<longrightarrow> map_of db (table_of_key k) = Some f \<longrightarrow> evaluate env p = Inr f)"

definition transparent :: "('op, 'f) Engine \<Rightarrow> LogicalPlan set \<Rightarrow> bool" where
  "transparent env C \<longleftrightarrow> one_plan_per_key C \<and> (\<forall>p \<in> C. \<not> is_source (plan_node p)) \<and> (\<forall>f. stored_frame env f = f)"

lemma one_planD:
  "one_plan_per_key C \<Longrightarrow> p \<in> C \<Longrightarrow> q \<in> C \<Longrightarrow>
   map_option table_of_key (cache_info p) = map_option table_of_key (cache_info q) \<Longrightarrow> p = q"
  unfolding one_plan_per_key_def by blast

lemma same_key_same_plan:
  "one_plan_per_key C \<Longrightarrow> p \<in> C \<Longrightarrow> q \<in> C \<Longrightarrow> cache_info p = Some k \<Longrightarrow> cache_info q = Some l \<Longrightarrow>
   table_of_key k = table_of_key l \<Longrightarrow> p = q"
  by (simp add: one_plan_per_key_def)

section \<open>Conversion and execution\<close>

text \<open>A key of the conversion is cached, or it is the key of a plan that is not finished.\<close>

definition ready :: "LogicalPlan set \<Rightarrow> 'f Frames \<Rightarrow> string option list \<Rightarrow> nat \<Rightarrow> bool" where
  "ready C db keys n \<longleftrightarrow>
     (\<forall>k \<in> set keys. is_df_cached db k \<or> (\<exists>q \<in> C. cache_info q = Some k \<and> n < size q))"

lemma ready_mono: "ready C db keys n \<Longrightarrow> m \<le> n \<Longrightarrow> ready C db keys m"
  by (auto simp: ready_def) (meson order_le_less_trans)

definition db_extends :: "'f Frames \<Rightarrow> 'f Frames \<Rightarrow> bool" where
  "db_extends db db' \<longleftrightarrow> (\<forall>k. is_df_cached db k \<longrightarrow> is_df_cached db' k)"

lemma db_extends_refl [simp]: "db_extends db db"
  by (simp add: db_extends_def)

lemma db_extends_trans: "db_extends a b \<Longrightarrow> db_extends b c \<Longrightarrow> db_extends a c"
  by (simp add: db_extends_def)

lemma finish_node_frame [simp]: "finish_node env s f ms c = (fm, s') \<Longrightarrow> fst fm = f"
  by (auto simp: finish_node_def Let_def)

lemma finish_node_frames:
  "cached_frames (snd (finish_node env s f ms c)) =
   (case c of
      None \<Rightarrow> cached_frames s
    | Some k \<Rightarrow> if is_df_cached (cached_frames s) k then cached_frames s
                else (table_of_key k, stored_frame env f) # cached_frames s)"
  by (simp add: finish_node_def Let_def write_df_def split: option.splits)

lemma cached_after_write:
  "is_df_cached ((table_of_key k, f) # db) l \<longleftrightarrow> table_of_key k = table_of_key l \<or> is_df_cached db l"
  by (auto simp: is_df_cached_def)

text \<open>What is known after a run: the frames, the keys, and the value.\<close>

definition after_run ::
  "('op, 'f) Engine \<Rightarrow> LogicalPlan set \<Rightarrow> string option list \<Rightarrow> string option list \<Rightarrow> 'f Frames \<Rightarrow>
   'f Session \<Rightarrow> bool \<Rightarrow> bool" where
  "after_run env C keys keys' db s' success \<longleftrightarrow>
     frames_right env C (cached_frames s') \<and> db_extends db (cached_frames s') \<and>
     (success \<longrightarrow> (\<forall>k \<in> set keys'. k \<in> set keys \<or> is_df_cached (cached_frames s') k))"

definition is_ok :: "'a res \<Rightarrow> bool" where
  "is_ok r \<longleftrightarrow> (case r of Inl _ \<Rightarrow> False | Inr _ \<Rightarrow> True)"

lemma is_ok_simps [simp]: "is_ok (Inr x)" "\<not> is_ok (Inl e)"
  by (simp_all add: is_ok_def)

definition to_option :: "'a res \<Rightarrow> 'a option" where
  "to_option r = (case r of Inl _ \<Rightarrow> None | Inr x \<Rightarrow> Some x)"

lemma to_option_simps [simp]: "to_option (Inr x) = Some x" "to_option (Inl e) = None"
  by (simp_all add: to_option_def)

lemma to_option_None [simp]: "to_option r = None \<longleftrightarrow> \<not> is_ok r"
  by (cases r) simp_all

lemma run_cache_read:
  assumes "transparent env C" "Plan n cs sch (Some k) \<in> C" "frames_right env C (cached_frames s)"
    and "ready C (cached_frames s) keys (size (Plan n cs sch (Some k)))"
    and "k \<in> set keys \<or> is_df_cached (cached_frames s) k"
  shows "\<exists>fm s'. execute env s (CacheReadExec k) = (Inr fm, s') \<and> cached_frames s' = cached_frames s \<and>
    evaluate env (Plan n cs sch (Some k)) = Inr (fst fm)"
proof -
  let ?p = "Plan n cs sch (Some k)"
  have "is_df_cached (cached_frames s) k"
  proof (rule ccontr)
    assume "\<not> ?thesis"
    with assms(4, 5) obtain q where "q \<in> C" "cache_info q = Some k" "size ?p < size q" by (auto simp: ready_def)
    with assms(1, 2) same_key_same_plan [of C ?p q k k] show False by (auto simp: transparent_def)
  qed
  then obtain f where f: "map_of (cached_frames s) (table_of_key k) = Some f" by (auto simp: is_df_cached_def)
  with assms(2, 3) have v: "evaluate env ?p = Inr f" by (force simp: frames_right_def)
  obtain fm s' where fin: "finish_node env s f [] None = (fm, s')" by (cases "finish_node env s f [] None")
  then have "fst fm = f" by (rule finish_node_frame)
  moreover have "cached_frames s' = cached_frames s" using finish_node_frames [of env s f "[]" None] fin by simp
  ultimately show ?thesis using v f fin by (simp add: read_df_def)
qed

text \<open>The operator of a plan over its children.\<close>

lemma run_operator:
  assumes "transparent env C" "frames_right env C (cached_frames s1)"
    and "execute_all env s ps = (Inr fms, s1)" "operator env (Plan n cs sch c) = Inr op"
    and "map_res (evaluate env) cs = Inr (map fst fms)" "marked (Plan n cs sch c) \<subseteq> C"
  shows "\<exists>r s2. execute env s (Exec op ps (if is_source n then None else c)) = (r, s2) \<and>
    frames_right env C (cached_frames s2) \<and> db_extends (cached_frames s1) (cached_frames s2) \<and>
    map_option fst (to_option r) = to_option (evaluate env (Plan n cs sch c)) \<and>
    (is_ok r \<longrightarrow> (\<forall>k. c = Some k \<longrightarrow> is_df_cached (cached_frames s2) k))"
proof -
  let ?p = "Plan n cs sch c"
  have c: "(if is_source n then None else c) = c"
    using assms(1, 6) by (cases c) (auto simp: marked_Plan transparent_def)
  obtain v lm rm where node: "execute_node env op (map fst fms) = (v, lm, rm)"
    by (cases "execute_node env op (map fst fms)")
  let ?used = "s1\<lparr>lm_usage := lm_add (lm_usage s1) lm, rm_usage := rm_add (rm_usage s1) rm\<rparr>"
  have val: "evaluate env ?p = v" by (simp add: evaluate.simps assms(4, 5) node)
  show ?thesis
  proof (cases v)
    case (Inl e)
    with assms(2, 3) node val show ?thesis by (simp add: c Let_def)
  next
    case (Inr f)
    obtain fm s2 where fin: "finish_node env ?used f (map snd fms) c = (fm, s2)"
      by (cases "finish_node env ?used f (map snd fms) c")
    then have "fst fm = f" by (rule finish_node_frame)
    moreover have db: "cached_frames s2 = (case c of None \<Rightarrow> cached_frames s1
        | Some k \<Rightarrow> if is_df_cached (cached_frames s1) k then cached_frames s1
            else (table_of_key k, f) # cached_frames s1)"
      using finish_node_frames [of env ?used f "map snd fms" c] fin assms(1)
      by (cases c) (simp_all add: transparent_def)
    moreover have "frames_right env C ((table_of_key k, f) # cached_frames s1)" if k: "c = Some k" for k
    proof -
      have "?p \<in> C" using assms(6) k by (simp add: marked_Plan)
      then have "q = ?p" if "q \<in> C" "cache_info q = Some l" "table_of_key k = table_of_key l" for q l
        using that assms(1) k same_key_same_plan [of C ?p q k l] by (simp add: transparent_def)
      with assms(2) val Inr show ?thesis unfolding frames_right_def by (auto split: if_splits)
    qed
    ultimately show ?thesis using assms(2, 3) node val Inr fin
      by (cases fm) (auto simp: c Let_def db_extends_def cached_after_write split: option.splits)
  qed
qed

lemma run_children:
  assumes "ready C db keys (size p)" "c \<in> set (plan_children p)"
  shows "ready C db keys (size c)"
  using ready_mono [OF assms(1)] size_plan_child [OF assms(2)] by simp

lemma ready_after:
  assumes "ready C db keys n" "db_extends db db'" "\<forall>k \<in> set keys'. k \<in> set keys \<or> is_df_cached db' k"
  shows "ready C db' keys' n"
  using assms unfolding ready_def db_extends_def by blast

lemma convert_execute:
  "transparent env C \<Longrightarrow> convert env db keys p = Inr (q, keys') \<Longrightarrow> marked p \<subseteq> C \<Longrightarrow>
   frames_right env C (cached_frames s) \<Longrightarrow> db_extends db (cached_frames s) \<Longrightarrow>
     ready C (cached_frames s) keys (size p) \<Longrightarrow>
   \<exists>r s'. execute env s q = (r, s') \<and> after_run env C keys keys' (cached_frames s) s' (is_ok r) \<and>
       map_option fst (to_option r) = to_option (evaluate env p)"
  "transparent env C \<Longrightarrow> convert_all env db keys ps = Inr (qs, keys') \<Longrightarrow> (\<Union>p \<in> set ps. marked p) \<subseteq> C \<Longrightarrow>
   frames_right env C (cached_frames s) \<Longrightarrow> db_extends db (cached_frames s) \<Longrightarrow>
     (\<forall>p \<in> set ps. ready C (cached_frames s) keys (size p)) \<Longrightarrow>
     \<exists>r s'. execute_all env s qs = (r, s') \<and> after_run env C keys keys' (cached_frames s) s' (is_ok r) \<and>
       map_option (map fst) (to_option r) = to_option (map_res (evaluate env) ps)"
proof (induction env db keys p and env db keys ps arbitrary: q keys' s and qs keys' s rule: convert_convert_all.induct)
  case (1 env db keys n cs sch c)
  let ?p = "Plan n cs sch c"
  show ?case
  proof (cases "\<exists>k. c = Some k \<and> (k \<in> set keys \<or> is_df_cached db k)")
    case True
    then obtain k where k: "c = Some k" "k \<in> set keys \<or> is_df_cached db k" by blast
    with 1(4) have q: "q = CacheReadExec k" "keys' = keys" by auto
    have "?p \<in> C" using 1(5) k(1) by (simp add: marked_Plan)
    moreover have "k \<in> set keys \<or> is_df_cached (cached_frames s) k" using k(2) 1(7) by (auto simp: db_extends_def)
    ultimately obtain fm s' where "execute env s (CacheReadExec k) = (Inr fm, s')" "cached_frames s' = cached_frames s"
      "evaluate env ?p = Inr (fst fm)"
      using run_cache_read [OF 1(3), of n cs sch k s keys] 1(6, 8) k(1) by auto
    with q 1(6) show ?thesis by (cases fm) (auto simp: after_run_def)
  next
    case False
    let ?keys = "(case c of None \<Rightarrow> keys | Some k \<Rightarrow> k # keys)"
    from False 1(4) obtain ps op where all: "convert_all env db ?keys cs = Inr (ps, keys')"
      and op: "operator env ?p = Inr op" and q: "q = Exec op ps (if is_source n then None else c)"
      by (auto split: option.splits if_splits)
    have cs: "(\<Union>p \<in> set cs. marked p) \<subseteq> C" using 1(5) by (simp add: marked_Plan split: if_splits)
    have "ready C (cached_frames s) ?keys (size d)" if d: "d \<in> set cs" for d
    proof -
      have "ready C (cached_frames s) keys (size d)" using run_children [OF 1(8)] d by simp
      moreover have "?p \<in> C \<and> size d < size ?p" if "c = Some k" for k
        using 1(5) that d size_plan_child [of d ?p] by (simp add: marked_Plan)
      ultimately show ?thesis by (fastforce simp: ready_def split: option.splits)
    qed
    then have children: "\<forall>d \<in> set cs. ready C (cached_frames s) ?keys (size d)" by blast
    have "\<exists>r s'. execute_all env s ps = (r, s') \<and> after_run env C ?keys keys' (cached_frames s) s' (is_ok r) \<and>
        map_option (map fst) (to_option r) = to_option (map_res (evaluate env) cs)"
    proof (cases c)
      case None
      with 1(1) [OF None 1(3) _ cs 1(6, 7), of ps keys'] all children show ?thesis by simp
    next
      case (Some k)
      with False have new: "\<not> (k \<in> set keys \<or> is_df_cached db k)" by simp
      with 1(2) [OF Some new 1(3) _ cs 1(6, 7), of ps keys'] all children Some show ?thesis by simp
    qed
    then obtain r s1 where run: "execute_all env s ps = (r, s1)"
      and after: "after_run env C ?keys keys' (cached_frames s) s1 (is_ok r)"
      and vals: "map_option (map fst) (to_option r) = to_option (map_res (evaluate env) cs)" by blast
    show ?thesis
    proof (cases r)
      case (Inl e)
      with vals obtain e' where "map_res (evaluate env) cs = Inl e'" by (cases "map_res (evaluate env) cs") simp_all
      with Inl run after q show ?thesis by (simp add: evaluate.simps after_run_def)
    next
      case (Inr fms)
      with vals have vs: "map_res (evaluate env) cs = Inr (map fst fms)"
        by (cases "map_res (evaluate env) cs") simp_all
      from run Inr have run': "execute_all env s ps = (Inr fms, s1)" by simp
      from after Inr have right: "frames_right env C (cached_frames s1)"
        and ext: "db_extends (cached_frames s) (cached_frames s1)"
        and keys: "\<forall>l \<in> set keys'. l \<in> set ?keys \<or> is_df_cached (cached_frames s1) l"
        by (simp_all add: after_run_def)
      from run_operator [OF 1(3) right run' op vs 1(5)] obtain r' s2 where
        "execute env s q = (r', s2)" "frames_right env C (cached_frames s2)"
        "db_extends (cached_frames s1) (cached_frames s2)"
        "map_option fst (to_option r') = to_option (evaluate env ?p)"
        "is_ok r' \<longrightarrow> (\<forall>k. c = Some k \<longrightarrow> is_df_cached (cached_frames s2) k)" unfolding q by blast
      moreover from this keys have "is_ok r' \<longrightarrow> (\<forall>l \<in> set keys'. l \<in> set keys \<or> is_df_cached (cached_frames s2) l)"
        unfolding db_extends_def by (cases c) auto
      ultimately show ?thesis using ext db_extends_trans unfolding after_run_def by blast
    qed
  qed
next
  case (2 env db keys)
  then show ?case by (simp add: after_run_def)
next
  case (3 env db keys p ps)
  from 3(4) obtain q1 keys1 qs1 where c: "convert env db keys p = Inr (q1, keys1)"
    and cs: "convert_all env db keys1 ps = Inr (qs1, keys')" and qs: "qs = q1 # qs1" by (auto split: prod.splits)
  have "marked p \<subseteq> C" "(\<Union>p \<in> set ps. marked p) \<subseteq> C" using 3(5) by auto
  moreover have "ready C (cached_frames s) keys (size p)" using 3(8) by simp
  ultimately obtain r s1 where run: "execute env s q1 = (r, s1)"
    and after: "after_run env C keys keys1 (cached_frames s) s1 (is_ok r)"
    and val: "map_option fst (to_option r) = to_option (evaluate env p)"
    using 3(1) [OF 3(3) c _ 3(6, 7)] by blast
  show ?case
  proof (cases r)
    case (Inl e)
    with val obtain e' where "evaluate env p = Inl e'" by (cases "evaluate env p") simp_all
    with Inl run after qs show ?thesis by (simp add: after_run_def)
  next
    case (Inr fm)
    with val have v: "evaluate env p = Inr (fst fm)" by (cases "evaluate env p") simp_all
    from after Inr have right: "frames_right env C (cached_frames s1)"
      and ext: "db_extends (cached_frames s) (cached_frames s1)"
      and keys: "\<forall>l \<in> set keys1. l \<in> set keys \<or> is_df_cached (cached_frames s1) l"
      by (simp_all add: after_run_def)
    have "\<forall>d \<in> set ps. ready C (cached_frames s1) keys1 (size d)"
      using 3(8) ready_after [OF _ ext keys] by simp
    then obtain rs s2 where "execute_all env s1 qs1 = (rs, s2)"
      "after_run env C keys1 keys' (cached_frames s1) s2 (is_ok rs)"
      "map_option (map fst) (to_option rs) = to_option (map_res (evaluate env) ps)"
      using 3(2) [OF c refl 3(3) cs \<open>(\<Union>p \<in> set ps. marked p) \<subseteq> C\<close> right db_extends_trans [OF 3(7) ext]] by blast
    moreover from this keys have "is_ok rs \<longrightarrow> (\<forall>l \<in> set keys'. l \<in> set keys \<or> is_df_cached (cached_frames s2) l)"
      unfolding after_run_def db_extends_def by blast
    ultimately show ?thesis using run Inr v qs ext db_extends_trans
      by (cases rs; cases "map_res (evaluate env) ps") (auto simp: after_run_def)
  qed
qed

text \<open>A plan that cannot be converted has no value.\<close>

lemma convert_fails:
  "convert env db keys p = Inl e \<Longrightarrow> \<not> is_ok (evaluate env p)"
  "convert_all env db keys ps = Inl e \<Longrightarrow> \<not> is_ok (map_res (evaluate env) ps)"
proof (induction env db keys p and env db keys ps arbitrary: e and e rule: convert_convert_all.induct)
  case (1 env db keys n cs sch c)
  show ?case
  proof (cases "map_res (evaluate env) cs")
    case (Inl x)
    then show ?thesis by (simp add: evaluate.simps)
  next
    case (Inr fs)
    have "\<not> (\<exists>e keys'. convert_all env db keys' cs = Inl e \<and>
        keys' = (case c of None \<Rightarrow> keys | Some k \<Rightarrow> k # keys) \<and> (\<forall>k. c = Some k \<longrightarrow> \<not> (k \<in> set keys \<or> is_df_cached db k)))"
      using 1(1, 2) Inr by (cases c) auto
    with 1(3) obtain x where "operator env (Plan n cs sch c) = Inl x"
      by (cases c) (auto simp: bind_res_Inl_iff split: if_splits)
    with Inr show ?thesis by (simp add: evaluate.simps)
  qed
next
  case (3 env db keys p ps)
  show ?case
  proof (cases "convert env db keys p")
    case (Inl x)
    from 3(1) [OF this] show ?thesis by (cases "evaluate env p") simp_all
  next
    case (Inr qk)
    obtain q keys' where qk: "qk = (q, keys')" by (cases qk)
    with 3(3) Inr have "convert_all env db keys' ps = Inl e" by (auto simp: bind_res_Inl_iff)
    from 3(2) [OF Inr qk [symmetric] this] show ?thesis
      by (cases "evaluate env p"; cases "map_res (evaluate env) ps") simp_all
  qed
qed simp

section \<open>Optimized plans\<close>

text \<open>
  A rule's step on a filter keeps the cache information on the filter it returns, and marks
  nothing above the plan below it.
\<close>

definition over_one :: "LogicalPlan \<Rightarrow> bool" where
  "over_one p \<longleftrightarrow> (is_filter p \<longrightarrow> (\<exists>x. plan_children p = [x]))"

definition keeps_marks :: "Visit \<Rightarrow> bool" where
  "keeps_marks visit \<longleftrightarrow> (\<forall>penv node r x. is_filter node \<longrightarrow> plan_children node = [x] \<longrightarrow> over_one x \<longrightarrow>
     visit penv node = Inr r \<longrightarrow>
     is_filter (result_plan r) \<and> over_one (result_plan r) \<and> cache_info (result_plan r) = cache_info node \<and>
     marked (result_plan r) \<subseteq> {result_plan r} \<union> marked x)"

lemma mk_filter_parts:
  "mk_filter penv q p = Inr f \<Longrightarrow> plan_node f = Filter p \<and> plan_children f = [q] \<and> cache_info f = None"
  by (auto simp: mk_filter_def from_session_Inr)

lemma marked_children:
  "marked p = (if cache_info p = None then {} else {p}) \<union> (\<Union>d \<in> set (plan_children p). marked d)"
  by (cases p) (simp add: marked_Plan)

lemma set_cache_info_parts [simp]:
  "plan_node (set_cache_info c p) = plan_node p" "plan_children (set_cache_info c p) = plan_children p"
  "cache_info (set_cache_info c p) = c"
  by (cases p, simp)+

lemma is_filter_iff: "is_filter p \<longleftrightarrow> (\<exists>e. plan_node p = Filter e)"
  by (cases p rule: is_filter.cases) auto

text \<open>A filter a rule made over a plan, through other such filters.\<close>

definition fresh_filter :: "LogicalPlan \<Rightarrow> LogicalPlan \<Rightarrow> bool" where
  "fresh_filter x f \<longleftrightarrow> is_filter f \<and> cache_info f = None \<and> (\<exists>y. plan_children f = [y] \<and> marked y = marked x)"

lemma mk_filter_fresh: "mk_filter penv q p = Inr f \<Longrightarrow> marked q = marked x \<Longrightarrow> fresh_filter x f"
  using mk_filter_parts [of penv q p f] by (simp add: fresh_filter_def is_filter_iff)

lemma marked_fresh: "fresh_filter x f \<Longrightarrow> marked f = marked x"
proof -
  assume "fresh_filter x f"
  then obtain y where "cache_info f = None" "plan_children f = [y]" "marked y = marked x"
    by (auto simp: fresh_filter_def)
  then show ?thesis by (subst marked_children) simp
qed

lemma apply_filters_fresh: "apply_filters penv ps q = Inr f \<Longrightarrow> fresh_filter x q \<Longrightarrow> fresh_filter x f"
proof (induction penv ps q rule: apply_filters.induct)
  case (2 penv p ps q)
  then obtain g where g: "mk_filter penv q p = Inr g" "apply_filters penv ps g = Inr f" by auto
  from g(1) marked_fresh [OF 2(3)] have "fresh_filter x g" by (rule mk_filter_fresh)
  with 2(1) g show ?case by blast
qed simp

lemma fresh_marks:
  "fresh_filter x f \<Longrightarrow> is_filter (set_cache_info c f) \<and> over_one (set_cache_info c f) \<and>
   marked (set_cache_info c f) \<subseteq> {set_cache_info c f} \<union> marked x"
proof -
  assume "fresh_filter x f"
  then obtain y where f: "is_filter f" "plan_children f = [y]" "marked y = marked x"
    by (auto simp: fresh_filter_def)
  then have "marked (set_cache_info c f) = (if c = None then {} else {set_cache_info c f}) \<union> marked x"
    by (subst marked_children) simp
  with f show ?thesis by (auto simp: is_filter_iff over_one_def)
qed

lemma keeps_marksI:
  assumes "\<And>penv node r x. is_filter node \<Longrightarrow> plan_children node = [x] \<Longrightarrow> over_one x \<Longrightarrow> visit penv node = Inr r \<Longrightarrow>
    result_plan r = node \<or> (\<exists>f. result_plan r = set_cache_info (cache_info node) f \<and> fresh_filter x f)"
  shows "keeps_marks visit"
  unfolding keeps_marks_def
proof (intro allI impI)
  fix penv node r x
  assume node: "is_filter node" "plan_children node = [x]" and x: "over_one x" and v: "visit penv node = Inr r"
  have "marked node \<subseteq> {node} \<union> marked x" using node(2) by (auto simp: marked_children [of node])
  from assms [OF node x v] show "is_filter (result_plan r) \<and> over_one (result_plan r) \<and> cache_info (result_plan r) = cache_info node \<and>
      marked (result_plan r) \<subseteq> {result_plan r} \<union> marked x"
  proof
    assume "result_plan r = node"
    with node \<open>marked node \<subseteq> {node} \<union> marked x\<close> show ?thesis by (auto simp: over_one_def)
  next
    assume "\<exists>f. result_plan r = set_cache_info (cache_info node) f \<and> fresh_filter x f"
    then obtain f where "result_plan r = set_cache_info (cache_info node) f" "fresh_filter x f" by blast
    with fresh_marks [of x f "cache_info node"] show ?thesis by simp
  qed
qed

lemma not_pushdown_keeps: "keeps_marks not_pushdown_filter"
proof (rule keeps_marksI)
  fix penv node r x
  assume "plan_children node = [x]" "not_pushdown_filter penv node = Inr r"
  then show "result_plan r = node \<or> (\<exists>f. result_plan r = set_cache_info (cache_info node) f \<and> fresh_filter x f)"
    by (auto simp: not_pushdown_filter_def Let_def input_def intro: mk_filter_fresh split: if_splits)
qed

lemma merge_keeps: "keeps_marks merge_filter"
proof (rule keeps_marksI)
  fix penv node r x
  assume node: "plan_children node = [x]" and x: "over_one x" and r: "merge_filter penv node = Inr r"
  show "result_plan r = node \<or> (\<exists>f. result_plan r = set_cache_info (cache_info node) f \<and> fresh_filter x f)"
  proof (cases "is_filter x \<and> cache_info x = None")
    case True
    with node r obtain f p where f: "mk_filter penv (input x) p = Inr f" "result_plan r = set_cache_info (cache_info node) f"
      by (auto simp: merge_filter_def input_def)
    from x True obtain y where "plan_children x = [y]" by (auto simp: over_one_def)
    with True have "marked (input x) = marked x" by (simp add: marked_children [of x] input_def)
    with f show ?thesis by (auto intro: mk_filter_fresh)
  next
    case False
    with node r show ?thesis by (auto simp: merge_filter_def input_def)
  qed
qed

lemma semantic_keeps: "keeps_marks semantic_rewrite_filter"
proof (rule keeps_marksI)
  fix penv node r x
  assume node: "plan_children node = [x]" and r: "semantic_rewrite_filter penv node = Inr r"
  obtain standard semantic where parts: "partition_predicates (filter_predicate node) = (standard, semantic)"
    by (cases "partition_predicates (filter_predicate node)")
  show "result_plan r = node \<or> (\<exists>f. result_plan r = set_cache_info (cache_info node) f \<and> fresh_filter x f)"
  proof (cases "result_plan r = node")
    case False
    with node r parts obtain q f where q: "(if standard \<noteq> [] then bind_res (make_and_expr standard) (mk_filter penv x) else Inr x) = Inr q"
      and f: "apply_filters penv semantic q = Inr f" "result_plan r = set_cache_info (cache_info node) f"
      and two: "\<not> length standard + length semantic \<le> 1"
      by (auto simp: semantic_rewrite_filter_def Let_def input_def split: if_splits)
    have "fresh_filter x f"
    proof (cases "standard = []")
      case True
      with two obtain p ps where "semantic = p # ps" by (cases semantic) auto
      with True q f(1) show ?thesis by (auto intro: apply_filters_fresh mk_filter_fresh)
    next
      case False
      with q have "fresh_filter x q" by (auto intro: mk_filter_fresh)
      with f(1) show ?thesis by (rule apply_filters_fresh)
    qed
    with f(2) show ?thesis by blast
  qed simp
qed

lemma local_rules_keep: "visit \<in> set local_rules \<Longrightarrow> keeps_marks visit"
  using not_pushdown_keeps merge_keeps semantic_keeps by (auto simp: local_rules_def)

lemma with_children_parts:
  assumes "with_children penv p cs = Inr q"
  shows "plan_node q = plan_node p \<and> plan_children q = cs \<and> over_one q \<and>
    (cache_info q = cache_info p \<or> cache_info q = None)"
proof -
  obtain n ds s c where p: "p = Plan n ds s c" by (cases p)
  from assms p have count: "child_count_check n (length cs) = Inr ()" by simp
  have "plan_node q = n \<and> plan_children q = cs \<and> (cache_info q = c \<or> cache_info q = None)"
    using assms p by (cases "is_source n") (auto simp: from_session_Inr from_schema_def split: if_splits)
  moreover have "over_one q" if "plan_node q = n" "plan_children q = cs"
    using count that by (cases n) (auto simp: over_one_def is_filter_iff raise_if_def length_Suc_conv split: if_splits)
  ultimately show ?thesis using p by simp
qed

lemma map_res_preimage: "map_res f xs = Inr ys \<Longrightarrow> y \<in> set ys \<Longrightarrow> \<exists>x \<in> set xs. f x = Inr y"
  by (induction xs arbitrary: ys) auto

text \<open>
  After a rule, each marked plan is what the rule makes of a marked plan with the same key,
  and no source unless that was one.
\<close>

definition made_from :: "(LogicalPlan \<Rightarrow> LogicalPlan \<Rightarrow> bool) \<Rightarrow> LogicalPlan \<Rightarrow> LogicalPlan \<Rightarrow> bool" where
  "made_from R p q \<longleftrightarrow> (\<forall>m' \<in> marked q. \<exists>m \<in> marked p. R m m' \<and> cache_info m = cache_info m' \<and>
     (is_source (plan_node m') \<longrightarrow> is_source (plan_node m)))"

lemma rule_marks:
  assumes "keeps_marks visit"
  shows "optimize_node visit penv p = Inr r \<Longrightarrow> over_one (result_plan r) \<and>
    made_from (\<lambda>m m'. \<exists>r'. optimize_node visit penv m = Inr r' \<and> result_plan r' = m') p (result_plan r)"
proof (induction p arbitrary: r rule: measure_induct_rule [where f = size])
  case (less p)
  let ?R = "\<lambda>m m'. \<exists>r'. optimize_node visit penv m = Inr r' \<and> result_plan r' = m'"
  from less(2) obtain rs q where rs: "map_res (optimize_node visit penv) (plan_children p) = Inr rs"
    and q: "with_children penv p (map result_plan rs) = Inr q"
    and r: "if is_filter q then \<exists>r'. visit penv q = Inr r' \<and> result_plan r = result_plan r' else result_plan r = q"
    by (rule optimize_node_InrE)
  note parts = with_children_parts [OF q]
  have kids: "\<exists>m \<in> marked p. ?R m m' \<and> cache_info m = cache_info m' \<and>
      (is_source (plan_node m') \<longrightarrow> is_source (plan_node m))"
    if "x \<in> set (map result_plan rs)" "m' \<in> marked x" for x m'
  proof -
    from that(1) obtain rx where rx: "rx \<in> set rs" "x = result_plan rx" by auto
    have "\<exists>d \<in> set (plan_children p). optimize_node visit penv d = Inr rx"
      by (rule map_res_preimage [OF rs rx(1)])
    then obtain d where d: "d \<in> set (plan_children p)" "optimize_node visit penv d = Inr rx" by blast
    from less(1) [OF size_plan_child [OF d(1)] d(2)] that(2) rx(2) obtain m where
      "m \<in> marked d" "?R m m'" "cache_info m = cache_info m'" "is_source (plan_node m') \<longrightarrow> is_source (plan_node m)"
      by (auto simp: made_from_def)
    moreover from this(1) d(1) have "m \<in> marked p" by (subst marked_children) auto
    ultimately show ?thesis by blast
  qed
  have root: "result_plan r \<in> marked (result_plan r) \<Longrightarrow> cache_info (result_plan r) = cache_info q \<Longrightarrow>
      (is_source (plan_node (result_plan r)) \<longrightarrow> is_source (plan_node q)) \<Longrightarrow>
      \<exists>m \<in> marked p. ?R m (result_plan r) \<and> cache_info m = cache_info (result_plan r) \<and>
        (is_source (plan_node (result_plan r)) \<longrightarrow> is_source (plan_node m))"
    using parts less(2) by (intro bexI [of _ p]) (auto simp: marked_def)
  have result: "over_one (result_plan r) \<and> cache_info (result_plan r) = cache_info q \<and>
      (is_source (plan_node (result_plan r)) \<longrightarrow> is_source (plan_node q)) \<and>
      marked (result_plan r) \<subseteq> {result_plan r} \<union> (\<Union>x \<in> set (map result_plan rs). marked x)"
  proof (cases "is_filter q")
    case True
    with parts obtain x where x: "map result_plan rs = [x]" by (auto simp: over_one_def)
    then obtain rx where rx: "rs = [rx]" "x = result_plan rx" by auto
    with map_res_preimage [OF rs, of rx] obtain d where d: "d \<in> set (plan_children p)" "optimize_node visit penv d = Inr rx"
      by auto
    from less(1) [OF size_plan_child [OF d(1)] d(2)] rx(2) have "over_one x" by simp
    from True r obtain r' where r': "visit penv q = Inr r'" "result_plan r = result_plan r'" by auto
    from parts x have "plan_children q = [x]" by simp
    from assms [unfolded keeps_marks_def, rule_format, OF True this \<open>over_one x\<close> r'(1)] r'(2) have k: "is_filter (result_plan r)" "over_one (result_plan r)"
      "cache_info (result_plan r) = cache_info q" "marked (result_plan r) \<subseteq> {result_plan r} \<union> marked x"
      by simp_all
    have "\<not> is_source (plan_node (result_plan r))" using k(1) by (auto simp: is_filter_iff)
    with k x show ?thesis by auto
  next
    case False
    with r have "result_plan r = q" by simp
    moreover have "marked q \<subseteq> {q} \<union> (\<Union>x \<in> set (map result_plan rs). marked x)"
      using parts by (subst marked_children) auto
    ultimately show ?thesis using parts by auto
  qed
  have "\<exists>m \<in> marked p. ?R m m' \<and> cache_info m = cache_info m' \<and>
      (is_source (plan_node m') \<longrightarrow> is_source (plan_node m))" if m': "m' \<in> marked (result_plan r)" for m'
  proof (cases "m' = result_plan r")
    case True
    with m' result root show ?thesis by simp
  next
    case False
    with m' result obtain x where "x \<in> set (map result_plan rs)" "m' \<in> marked x" by blast
    then show ?thesis by (rule kids)
  qed
  with result show ?case unfolding made_from_def by blast
qed

text \<open>The plan that comes out of the rules does not depend on the flag they carry.\<close>

lemma optimize_with_flag:
  "optimize_with rules penv p a = Inr r \<Longrightarrow> \<exists>r'. optimize_with rules penv p b = Inr r' \<and> result_plan r' = result_plan r"
  by (induction rules penv p a arbitrary: b rule: optimize_with.induct) auto

lemma rules_marks:
  assumes "\<And>visit. visit \<in> set rules \<Longrightarrow> keeps_marks visit"
  shows "optimize_with rules penv p a = Inr r \<Longrightarrow>
    made_from (\<lambda>m m'. \<exists>r'. optimize_with rules penv m False = Inr r' \<and> result_plan r' = m') p (result_plan r)"
  using assms
proof (induction rules penv p a rule: optimize_with.induct)
  case (1 penv p any)
  then show ?case by (auto simp: made_from_def)
next
  case (2 rule rules penv p any)
  from 2(2) obtain r1 where r1: "optimize_node rule penv p = Inr r1"
    and rest: "optimize_with rules penv (result_plan r1) (any \<or> was_modified r1) = Inr r" by auto
  have "made_from (\<lambda>m m'. \<exists>r'. optimize_node rule penv m = Inr r' \<and> result_plan r' = m') p (result_plan r1)"
    using rule_marks [OF _ r1] 2(3) by simp
  moreover have "made_from (\<lambda>m m'. \<exists>r'. optimize_with rules penv m False = Inr r' \<and> result_plan r' = m')
      (result_plan r1) (result_plan r)"
    using 2(1) [OF r1 rest] 2(3) by simp
  ultimately show ?case
    unfolding made_from_def
  proof (intro ballI, goal_cases)
    case (1 m')
    then obtain m1 r' where m1: "m1 \<in> marked (result_plan r1)" "optimize_with rules penv m1 False = Inr r'" "result_plan r' = m'"
      "cache_info m1 = cache_info m'" "is_source (plan_node m') \<longrightarrow> is_source (plan_node m1)" by blast
    with 1 obtain m r2 where m: "m \<in> marked p" "optimize_node rule penv m = Inr r2" "result_plan r2 = m1"
      "cache_info m = cache_info m1" "is_source (plan_node m1) \<longrightarrow> is_source (plan_node m)" by blast
    from optimize_with_flag [OF m1(2), of "was_modified r2"] m1(3) m(2, 3)
    have "\<exists>r'. optimize_with (rule # rules) penv m False = Inr r' \<and> result_plan r' = m'" by auto
    with m m1 show ?case by auto
  qed
qed

section \<open>Queries of a session\<close>

text \<open>The marked plans of the queries, as written and as optimized.\<close>

definition marked_plans :: "LogicalPlan list \<Rightarrow> LogicalPlan set" where
  "marked_plans ps = (\<Union>p \<in> set ps. marked p)"

definition optimized_marks :: "PlanEnv \<Rightarrow> LogicalPlan list \<Rightarrow> LogicalPlan set" where
  "optimized_marks penv ps =
     (\<Union>p \<in> set ps. case optimize local_rules penv p of Inl _ \<Rightarrow> {} | Inr r \<Rightarrow> marked (result_plan r))"

lemma optimized_mark_from:
  assumes "m' \<in> optimized_marks penv ps"
  obtains m r where "m \<in> marked_plans ps" "optimize local_rules penv m = Inr r" "result_plan r = m'"
    "cache_info m = cache_info m'" "is_source (plan_node m') \<longrightarrow> is_source (plan_node m)"
proof -
  from assms obtain p where "p \<in> set ps"
    "m' \<in> (case optimize local_rules penv p of Inl _ \<Rightarrow> {} | Inr r \<Rightarrow> marked (result_plan r))"
    by (auto simp: optimized_marks_def)
  then obtain r where p: "p \<in> set ps" "optimize local_rules penv p = Inr r" "m' \<in> marked (result_plan r)"
    by (cases "optimize local_rules penv p") simp_all
  have "made_from (\<lambda>m m'. \<exists>r'. optimize_with local_rules penv m False = Inr r' \<and> result_plan r' = m') p (result_plan r)"
    by (rule rules_marks) (use p(2) local_rules_keep in \<open>simp_all add: optimize_def\<close>)
  with p(3) obtain m r' where m: "m \<in> marked p" "optimize_with local_rules penv m False = Inr r'" "result_plan r' = m'"
    "cache_info m = cache_info m'" "is_source (plan_node m') \<longrightarrow> is_source (plan_node m)"
    unfolding made_from_def by blast
  from m(1) p(1) have "m \<in> marked_plans ps" by (auto simp: marked_plans_def)
  from that [OF this, of r'] m show thesis by (simp add: optimize_def)
qed

lemma optimized_transparent:
  assumes "transparent env (marked_plans ps)"
  shows "transparent env (optimized_marks penv ps)"
  unfolding transparent_def one_plan_per_key_def
proof (intro conjI ballI impI)
  fix a b
  assume "a \<in> optimized_marks penv ps" "b \<in> optimized_marks penv ps"
    and key: "map_option table_of_key (cache_info a) = map_option table_of_key (cache_info b)"
  from this(1) obtain m r where m: "m \<in> marked_plans ps" "optimize local_rules penv m = Inr r" "result_plan r = a"
    "cache_info m = cache_info a" by (rule optimized_mark_from)
  from \<open>b \<in> optimized_marks penv ps\<close> obtain n t where n: "n \<in> marked_plans ps"
    "optimize local_rules penv n = Inr t" "result_plan t = b" "cache_info n = cache_info b"
    by (rule optimized_mark_from)
  from assms have "one_plan_per_key (marked_plans ps)" by (simp add: transparent_def)
  then have "m = n" using m(1) n(1) by (rule one_planD) (simp only: m(4) n(4) key)
  with n(2) have "optimize local_rules penv m = Inr t" by (simp only:)
  with m(2) have "r = t" by (simp only: sum.inject)
  with m(3) n(3) show "a = b" by (simp only:)
next
  fix a
  assume "a \<in> optimized_marks penv ps"
  then show "\<not> is_source (plan_node a)"
    by (rule optimized_mark_from) (use assms in \<open>auto simp: transparent_def\<close>)
next
  show "\<forall>f. stored_frame env f = f" using assms by (simp add: transparent_def)
qed

text \<open>The value of a query.\<close>

definition query_value :: "PlanEnv \<Rightarrow> ('op, 'f) Engine \<Rightarrow> LogicalPlan \<Rightarrow> 'f res" where
  "query_value penv env p = bind_res (optimize local_rules penv p) (\<lambda>r. evaluate env (result_plan r))"

lemma execute_keeps_active:
  "session_active (snd (execute env s q)) = session_active s"
  "session_active (snd (execute_all env s qs)) = session_active s"
  by (induction env s q and env s qs rule: execute_execute_all.induct)
    (auto simp: finish_node_def write_df_def Let_def split: prod.splits sum.splits option.splits)

lemma execute_query_value:
  assumes C: "transparent env C" and p: "\<forall>r. optimize local_rules penv p = Inr r \<longrightarrow> marked (result_plan r) \<subseteq> C"
    and s: "session_active s" "frames_right env C (cached_frames s)"
  shows "map_option fst (to_option (fst (execute_query penv env s p))) = to_option (query_value penv env p) \<and>
    session_active (snd (execute_query penv env s p)) \<and>
    frames_right env C (cached_frames (snd (execute_query penv env s p)))"
proof (cases "optimize local_rules penv p")
  case (Inl e)
  with s show ?thesis by (simp add: execute_query_def query_value_def)
next
  case (Inr r)
  let ?q = "result_plan r"
  show ?thesis
  proof (cases "convert env (cached_frames s) [] ?q")
    case (Inl e)
    with convert_fails(1) [OF this] Inr s show ?thesis
      by (cases "evaluate env ?q") (simp_all add: execute_query_def query_value_def)
  next
    case conv: (Inr qk)
    obtain q k where qk: "qk = (q, k)" by (cases qk)
    have "ready C (cached_frames s) [] (size ?q)" by (simp add: ready_def)
    then obtain t s' where t: "execute env s q = (t, s')" "after_run env C [] k (cached_frames s) s' (is_ok t)"
      "map_option fst (to_option t) = to_option (evaluate env ?q)"
      using convert_execute(1) [OF C conv [unfolded qk] p [rule_format, OF Inr] s(2) db_extends_refl] by blast
    have "session_active s'" using execute_keeps_active(1) [of env s q] t(1) s(1) by simp
    with t Inr conv qk s(1) show ?thesis
      by (cases t) (auto simp: execute_query_def query_value_def after_run_def)
  qed
qed

lemma execute_queries_values:
  assumes "transparent env C" "optimized_marks penv ps \<subseteq> C" "session_active s" "frames_right env C (cached_frames s)"
  shows "map (\<lambda>r. map_option fst (to_option r)) (fst (execute_queries penv env s ps)) =
    map (\<lambda>p. to_option (query_value penv env p)) ps"
  using assms
proof (induction penv env s ps rule: execute_queries.induct)
  case (2 penv env s p ps)
  obtain r s1 where q: "execute_query penv env s p = (r, s1)" by (cases "execute_query penv env s p")
  have "\<forall>t. optimize local_rules penv p = Inr t \<longrightarrow> marked (result_plan t) \<subseteq> C"
    using 2(3) by (auto simp: optimized_marks_def)
  from execute_query_value [OF 2(2) this 2(4, 5)] q have "map_option fst (to_option r) = to_option (query_value penv env p)"
    "session_active s1" "frames_right env C (cached_frames s1)" by simp_all
  moreover have "optimized_marks penv ps \<subseteq> C" using 2(3) by (auto simp: optimized_marks_def)
  ultimately show ?case using 2(1) [OF q [symmetric]] 2(2) q
    by (cases "execute_queries penv env s1 ps") simp
qed simp


text \<open>An engine over lists of numbers.\<close>

definition list_engine :: "(Node, nat list) Engine" where
  "list_engine =
     \<lparr>operator = (\<lambda>p. Inr (plan_node p)),
      execute_node = (\<lambda>op fs.
        (Inr (case op of
            InMemorySource d \<Rightarrow> replicate 3 d
          | TableSource t \<Rightarrow> [1, 2]
          | Limit n \<Rightarrow> take (nat n) (concat fs)
          | Filter (BinaryExpr _ _ (LiteralExpr (PyInt v) _) _) \<Rightarrow> filter (\<lambda>x. int x = v) (concat fs)
          | _ \<Rightarrow> concat fs), no_lm, no_rm)),
      stored_frame = (\<lambda>f. f), frame_height = length\<rparr>"

definition new_session :: "'f Session" where
  "new_session = \<lparr>session_active = True, cached_frames = [], lm_usage = no_lm, rm_usage = no_rm, query_log = []\<rparr>"

definition cached_limit :: LogicalPlan where
  "cached_limit = Plan (Limit 2) [Plan (InMemorySource 0) [] (mk_schema [mk_field ''a'' IntegerType]) None]
     (mk_schema [mk_field ''a'' IntegerType]) (Some (Some ''k''))"

definition limit_twice :: LogicalPlan where
  "limit_twice = Plan UnionAll [cached_limit, cached_limit] (mk_schema [mk_field ''a'' IntegerType]) None"


section \<open>Metrics of queries\<close>

fun tree_lm :: "OperatorTree \<Rightarrow> LMMetrics" where
  "tree_lm (OperatorTree m ts) = lm_add (foldl lm_add no_lm (map tree_lm ts)) (op_lm m)"

fun tree_rm :: "OperatorTree \<Rightarrow> RMMetrics" where
  "tree_rm (OperatorTree m ts) = rm_add (foldl rm_add no_rm (map tree_rm ts)) (op_rm m)"

definition totals_right :: "QueryMetrics \<Rightarrow> bool" where
  "totals_right m \<longleftrightarrow> total_lm_metrics m = tree_lm (plan_repr m) \<and> total_rm_metrics m = tree_rm (plan_repr m)"

lemma finish_totals:
  assumes "finish_node env s f ms c = (fm, s')" "list_all totals_right ms"
  shows "totals_right (snd fm)"
proof -
  have "map total_lm_metrics ms = map (tree_lm \<circ> plan_repr) ms" "map total_rm_metrics ms = map (tree_rm \<circ> plan_repr) ms"
    using assms(2) by (simp_all add: totals_right_def list_all_iff)
  with assms(1) show ?thesis by (auto simp: finish_node_def Let_def totals_right_def)
qed

text \<open>The totals of a query are the sums of the metrics of its operators over the tree of its
  plan.\<close>

theorem query_totals:
  "execute env s q = (Inr (f, m), s') \<Longrightarrow> totals_right m"
proof -
  have "execute env s q = (Inr fm, s') \<Longrightarrow> totals_right (snd fm)"
    "execute_all env s qs = (Inr fms, s') \<Longrightarrow> list_all totals_right (map snd fms)" for fm fms and s qs
  proof (induction env s q and env s qs arbitrary: fm s' and fms s' rule: execute_execute_all.induct)
    case (1 env s op ps c)
    then show ?case
      by (auto simp: Let_def split: prod.splits sum.splits elim!: finish_totals)
  next
    case (2 env s k)
    then show ?case by (auto split: sum.splits prod.splits elim!: finish_totals)
  next
    case (4 env s p ps)
    then show ?case by (auto split: prod.splits sum.splits)
  qed simp
  from this(1) [where fm = "(f, m)"] show "execute env s q = (Inr (f, m), s') \<Longrightarrow> totals_right m" by simp
qed

text \<open>The use of the models by an operator that fails is charged to the next operator that ends.\<close>

lemma failed_use_is_charged_to_the_next:
  assumes "execute_node env a [] = (Inl e, lm, rm)" "execute_node env b [] = (Inr f, no_lm, no_rm)"
    and "lm_usage s = no_lm"
  shows "\<exists>s1 m s2. execute env s (Exec a [] None) = (Inl e, s1) \<and>
    execute env s1 (Exec b [] None) = (Inr (f, m), s2) \<and> total_lm_metrics m = lm"
  using assms by (simp add: Let_def finish_node_def lm_add_def no_lm_def)

section \<open>What caching gets wrong\<close>

text \<open>
  The operator of a source writes no frame, so a source that is marked for caching and occurs
  twice in a query is read from a cache that does not hold it.
\<close>

theorem cached_source_twice_fails:
  assumes "is_source n" "cached_frames s = []" "operator env (Plan n [] sch (Some k)) = Inr a"
    and "operator env (Plan UnionAll [Plan n [] sch (Some k), Plan n [] sch (Some k)] sch None) = Inr b"
    and "execute_node env a [] = (Inr f, lm, rm)"
  shows "\<exists>q keys s'. convert env [] [] (Plan UnionAll [Plan n [] sch (Some k), Plan n [] sch (Some k)] sch None) =
      Inr (q, keys) \<and> execute env s q = (Inl PyException, s')"
  using assms by (simp add: is_df_cached_def Let_def finish_node_def read_df_def)

theorem cached_source_twice_fails_witness:
  "\<exists>q keys s'. convert list_engine [] [] (Plan UnionAll [Plan (TableSource ''t'') [] (mk_schema []) (Some (Some ''k'')),
      Plan (TableSource ''t'') [] (mk_schema []) (Some (Some ''k''))] (mk_schema []) None) = Inr (q, keys) \<and>
    execute list_engine new_session q = (Inl PyException, s')"
  by (rule cached_source_twice_fails [where a = "TableSource ''t''" and b = UnionAll and f = "[1, 2]" and lm = no_lm and rm = no_rm])
    (simp_all add: new_session_def list_engine_def del: One_nat_def)

text \<open>
  The parameters of a tool are bound under the same key, so once a call has filled the cache of
  a marked query, a call with other arguments reads the frame of the first.
\<close>

lemma transform_keeps_key:
  "transform_plan args configs p = Inr q \<Longrightarrow> cache_info q = cache_info p \<and> is_source (plan_node q) = is_source (plan_node p)"
proof (cases p)
  case (Plan n cs s c)
  assume "transform_plan args configs p = Inr q"
  with Plan show ?thesis by (cases n) auto
qed

lemma execute_fills_cache: "execute env s (Exec op ps (Some k)) = (Inr fm, s') \<Longrightarrow> is_df_cached (cached_frames s') k"
  using finish_node_frames [of env _ _ _ "Some k"]
  by (auto simp: Let_def cached_after_write split: prod.splits sum.splits dest!: arg_cong [where f = snd])

theorem second_call_reads_the_first:
  assumes "bind_parameters p args tools = Inr q" "bind_parameters p args' tools = Inr q'"
    and "cache_info p = Some k" "\<not> is_source (plan_node p)" "\<not> is_df_cached db k"
    and "convert env db [] q = Inr (x, keys)" "execute env s x = (Inr fm, s')"
  shows "convert env (cached_frames s') [] q' = Inr (CacheReadExec k, [])"
proof -
  have t: "transform_plan args (param_table tools) p = Inr q" "transform_plan args' (param_table tools) p = Inr q'"
    using assms(1, 2) by (auto simp: bind_parameters_def Let_def raise_if_def split: if_splits)
  note q = transform_keeps_key [OF t(1)] and q' = transform_keeps_key [OF t(2)]
  obtain n cs sch where plan: "q = Plan n cs sch (Some k)" using q assms(3) by (cases q) auto
  have "\<not> is_source n" using q assms(4) plan by simp
  with plan assms(5, 6) obtain op ps where "x = Exec op ps (Some k)" by auto
  with assms(7) have "execute env s (Exec op ps (Some k)) = (Inr fm, s')" by simp
  then have "is_df_cached (cached_frames s') k" by (rule execute_fills_cache)
  with q' assms(3) show ?thesis by (cases q') auto
qed

end
