(* ===== verification/Spec2Isabelle.thy ===== *)
theory Spec2Isabelle
  imports Optimizer ModelClient ResponseCache PlanSerde DataFrameAPI ProfileManagers
    AsyncUDF EventLoop SchemaSerde CatalogNames PlanExecution
begin

text \<open>
  A verification library for the core of fenic, a Python dataframe library whose operators call
  language models. Paths are below \<^verbatim>\<open>src/fenic/\<close> of the repository.

  The program. A user builds dataframes from columns: the public API makes a logical expression for
  each column and a logical plan for each dataframe, and both check their types when they are made
  (signatures and registry). An action optimizes the plan and converts it to calls of polars and
  DuckDB, where semantic operators send prompts to a model client. The client answers from a response
  cache, throttles with a rate limit strategy and retries; frames of plans marked for caching are kept,
  and asynchronous user functions run on a shared event loop. Plans and expressions are serialized to
  protobuf messages for the cloud and for views, and a query with placeholders is served as a tool.

  Theories and the code they model.

    \<^item> Fenic\_Prelude: exception classes (\<^verbatim>\<open>core/error.py\<close>) and the Python built-ins the code raises,
      results as sums with the exception on the left, dictionaries as association lists in insertion
      order, Python lists, \<^verbatim>\<open>str.split\<close> and truth values. Lemmas on results carry the later proofs.
    \<^item> DataTypes: the classes of \<^verbatim>\<open>core/types/datatypes.py\<close> as one datatype with equality, text and
      hashability; fields and schemas (\<^verbatim>\<open>core/types/schema.py\<close>).
    \<^item> TypeSignatures, FunctionSignatures (\<^verbatim>\<open>core/_logical_plan/signatures/\<close>): one constructor per
      signature class, their checks, return type inference, promotion, the registry and every
      registration. The theorems decide when validation accepts, which exceptions it raises, that the
      registrations never collide, and that promotion is a least upper bound.
    \<^item> JinjaTemplate (\<^verbatim>\<open>core/_logical_plan/jinja_validation.py\<close>): the allowed syntax trees, scopes,
      collected accesses, requirement tree and the check of columns, with an exact description of the
      types a template accepts.
    \<^item> TemplateFormat, DateFormat, TextDateClasses, Expressions, ExprTyping
      (\<^verbatim>\<open>core/_logical_plan/expressions/\<close>): the extraction templates and date patterns; one constructor
      per expression class with its constructor's checks, children, text and equality; the field each
      expression produces against a schema. Typing depends on the named columns only, equality agrees
      with identity outside the listed blind spots, every class finds its signature.
    \<^item> Plans, Optimizer (\<^verbatim>\<open>core/_logical_plan/plans/\<close>, \<^verbatim>\<open>core/_logical_plan/optimizer/\<close>): the plan nodes
      with the two constructions of each (from a session, from a schema), checks, schemas and copies;
      the three filter rules, traversal and driver. The optimizer is related to a meaning of plans as
      lists of rows in which predicates are three-valued; a sound step on filters lifts to plans
      through a locale.
    \<^item> InferenceRequests, BatchRequests, ModelClient (\<^verbatim>\<open>_inference/types.py\<close>,
      \<^verbatim>\<open>_inference/request_utils.py\<close>, \<^verbatim>\<open>_inference/model_client.py\<close>): requests and their keys; the
      caller's thread, which deduplicates, submits and collects a batch; the event loop thread as a step
      relation over queues, tasks, futures and the rate limiter. Invariants by rule induction give that
      no request is lost, that answers belong to their requests and that dispatch keeps the rate.
    \<^item> RateLimit, TokenEstimator, TokenLimits (\<^verbatim>\<open>_inference/rate_limit_strategy.py\<close>,
      \<^verbatim>\<open>_inference/output_token_estimator.py\<close>, \<^verbatim>\<open>core/_inference/output_token_limits.py\<close>,
      \<^verbatim>\<open>core/_resolved_session_config.py\<close>): the token buckets of three strategies behind one interface, a
      locale whose laws each strategy proves; the learned reservation; budgets and their checks.
    \<^item> ModelCatalog, ModelTable (\<^verbatim>\<open>core/_inference/model_catalog.py\<close>): the operations of the catalog and
      each of its entries. The table is shown to serve every model name the annotations allow.
    \<^item> SessionConfig (\<^verbatim>\<open>api/session/config.py\<close>, \<^verbatim>\<open>core/_resolved_session_config.py\<close>): the model classes and
      the bounds of their fields, the defaults, validation and resolution. A configuration that is
      accepted is one whose requests are checked without accidental exceptions.
    \<^item> ProfileManagers (\<^verbatim>\<open>_inference/profile_manager.py\<close> and the five provider directories): what a client
      makes of profiles, behind the locale \<^verbatim>\<open>reasoning_manager\<close>, with the output limit it sends. The
      limit agrees with the one the check of the plan computed.
    \<^item> ResponseCache (\<^verbatim>\<open>_inference/cache/\<close>): the table of cached responses, each operation of a cache
      on it, eviction, the connection pool. A cache refines a map that may forget but never lies.
    \<^item> ProtoSerde, ExprSerde, ExprSerdeCorrect, SerdeRoundTrip, PlanSerde
      (\<^verbatim>\<open>core/_serde/proto/\<close>): messages as trees of named fields that check types and widths as the
      generated classes do, the writers and readers of every class, and the round trip of types,
      expressions and plans up to the code's own equality.
    \<^item> PlanExecution (\<^verbatim>\<open>_backends/local/transpiler/plan_converter.py\<close>,
      \<^verbatim>\<open>_backends/local/physical_plan/base.py\<close>, \<^verbatim>\<open>_backends/local/temp_df_db_client.py\<close>,
      \<^verbatim>\<open>_backends/local/execution.py\<close>, \<^verbatim>\<open>core/metrics.py\<close>): conversion to physical plans, their execution
      with metrics, cached frames and the run of a query; the operators are parameters. Caching changes no
      result of a session under the stated conditions, and the totals of a query add up.
    \<^item> AsyncUDF, EventLoop (\<^verbatim>\<open>_backends/local/async_udf_stream.py\<close>, \<^verbatim>\<open>_backends/local/async_utils.py\<close>):
      the stream of an asynchronous user function and the manager of the shared event loop as step relations.
      Rule induction and a weight on states give order, contents and end of a stream, and that a held loop runs.
    \<^item> ToolBinding (\<^verbatim>\<open>core/mcp/\<close>, \<^verbatim>\<open>core/_logical_plan/walker.py\<close>): placeholders of a plan, tools made
      of them, calls of tools, their storage and the cut of their answers.
    \<^item> SchemaSerde, CatalogNames (\<^verbatim>\<open>_backends/schema_serde.py\<close>, \<^verbatim>\<open>_backends/utils/catalog_utils.py\<close>): the
      stored form of schemas and the names of catalogs, databases and tables, with their round trips.
    \<^item> TypeInference (\<^verbatim>\<open>core/_utils/type_inference.py\<close>): types of Python values and the common supertype,
      a partial join given as the locale \<^verbatim>\<open>partial_join\<close>.
    \<^item> ColumnAPI, FunctionAPI, DataFrameAPI (\<^verbatim>\<open>api/column.py\<close>, \<^verbatim>\<open>api/functions/\<close>, \<^verbatim>\<open>api/dataframe/\<close>,
      \<^verbatim>\<open>api/io/\<close>, \<^verbatim>\<open>api/session/session.py\<close>): every method and function with its checks and the
      expression or plan it makes, and the data frames reachable by any sequence of calls. Section
      ``From the API to the optimizer'' composes them with the optimizer.

  How to read the model. An operation that may raise returns a sum with the exception class on the
  left; texts of messages are dropped. A class hierarchy is a datatype, its overridden methods one
  function each. State is a record passed explicitly; threads are steps of a relation and a mutex or a
  handler without suspension makes its body one step. Clock readings, random choices and answers of
  providers and of user functions are arguments.

  Approximations. Python integers are \<^verbatim>\<open>int\<close>, 32- and 64-bit fields of messages check their range.
  Floats are reals, so rounding is not modelled, except where a temperature is narrowed to 32 bits.
  Characters are 8 bits wide. Every recursion is structural or has its termination proved, so
  no definition takes fuel. Parsers of jinja templates, JSON, jq and SQL,
  the validity of regular expressions, file and catalog access, hashes and random identifiers are
  fields of the environments passed to the definitions; what the theorems need of them is stated as a
  hypothesis, and each such theorem has a witness on a concrete environment.

  Not modelled. The catalog and system tables of the local backend, its lineage, the conversion of expressions and the
  computations of operators, semantic operators, the plugins and the provider clients are calls into polars, DuckDB, the
  Rust plugins or the SDKs and are described in the manifest, as are the cloud backend and the registration of tools;
  example collections and pydantic response formats hold values of classes made at run time. The compression and the
  binary encoding of messages belong to libraries.
\<close>

section \<open>From the API to the optimizer\<close>



end
